(* ===== verification/KPrelude.thy ===== *)
theory KPrelude imports Complex_Main "HOL-Library.AList" begin

text \<open>
  Shared vocabulary of the development: the named collections of simplification facts, the
  clamping idiom \<open>max(lo, min(hi, x))\<close> of the Python code, \<open>int.bit_length\<close>, results with
  errors as a sum, and Python dictionaries as association lists that keep insertion order.
\<close>

named_theorems kdefs \<open>definitions that component proofs unfold\<close>
named_theorems kbounds \<open>bounds of computed sizes\<close>

section \<open>Clamping\<close>

definition clamp :: "int \<Rightarrow> int \<Rightarrow> int \<Rightarrow> int" where
  "clamp lo hi x = max lo (min hi x)"

lemma clamp_ge [simp, kbounds]: "lo \<le> clamp lo hi x"
  by (simp add: clamp_def)

lemma clamp_le [kbounds]: "lo \<le> hi \<Longrightarrow> clamp lo hi x \<le> hi"
  by (simp add: clamp_def)

lemma clamp_id: "lo \<le> x \<Longrightarrow> x \<le> hi \<Longrightarrow> clamp lo hi x = x"
  by (simp add: clamp_def)

section \<open>Bit length\<close>

text \<open>Python's \<open>int.bit_length\<close> on a non-negative integer.\<close>

fun bit_length :: "nat \<Rightarrow> nat" where
  "bit_length n = (if n = 0 then 0 else Suc (bit_length (n div 2)))"

declare bit_length.simps [simp del]

lemma bit_length_0 [simp]: "bit_length 0 = 0"
  by (simp add: bit_length.simps)

lemma bit_length_pos: "0 < n \<Longrightarrow> bit_length n = Suc (bit_length (n div 2))"
  by (subst bit_length.simps) simp

lemma bit_length_upper: "n < 2 ^ bit_length n"
proof (induction n rule: bit_length.induct)
  case (1 n)
  show ?case
  proof (cases "n = 0")
    case True then show ?thesis by simp
  next
    case False
    with 1 have "n div 2 < 2 ^ bit_length (n div 2)" by simp
    then have "n < 2 * 2 ^ bit_length (n div 2)" by linarith
    with False show ?thesis by (simp add: bit_length_pos)
  qed
qed

lemma bit_length_lower: "0 < n \<Longrightarrow> 2 ^ (bit_length n - 1) \<le> n"
proof (induction n rule: bit_length.induct)
  case (1 n)
  show ?case
  proof (cases "n div 2 = 0")
    case True
    with "1.prems" show ?thesis by (simp add: bit_length_pos)
  next
    case False
    with 1 have IH: "2 ^ (bit_length (n div 2) - 1) \<le> n div 2" by simp
    from False have "0 < bit_length (n div 2)" by (simp add: bit_length_pos)
    then have "(2::nat) ^ bit_length (n div 2) = 2 * 2 ^ (bit_length (n div 2) - 1)"
      by (cases "bit_length (n div 2)") auto
    with IH have "2 ^ bit_length (n div 2) \<le> n" by linarith
    with "1.prems" show ?thesis by (simp add: bit_length_pos)
  qed
qed

lemma bit_length_mono: "m \<le> n \<Longrightarrow> bit_length m \<le> bit_length n"
proof (induction n arbitrary: m rule: bit_length.induct)
  case (1 n)
  show ?case
  proof (cases "m = 0")
    case False
    with "1.prems" have "0 < n" "m div 2 \<le> n div 2" by (simp_all add: div_le_mono)
    with 1 False show ?thesis by (simp add: bit_length_pos)
  qed simp
qed

section \<open>Decimal numerals\<close>

text \<open>Python's \<open>str(n)\<close> on a non-negative integer.\<close>

fun nat_str :: "nat \<Rightarrow> string" where
  "nat_str n = (if n < 10 then [char_of (48 + n)] else nat_str (n div 10) @ [char_of (48 + n mod 10)])"

declare nat_str.simps [simp del]

section \<open>Results\<close>

text \<open>A Python call that may raise returns \<open>Inl\<close> the exception or \<open>Inr\<close> the value.\<close>

definition bind_result :: "'e + 'a \<Rightarrow> ('a \<Rightarrow> 'e + 'b) \<Rightarrow> 'e + 'b" where
  "bind_result r f = (case r of Inl e \<Rightarrow> Inl e | Inr x \<Rightarrow> f x)"

lemma bind_result_simps [simp]:
  "bind_result (Inl e) f = Inl e"
  "bind_result (Inr x) f = f x"
  by (simp_all add: bind_result_def)

lemma bind_result_InrE:
  assumes "bind_result r f = Inr y"
  obtains x where "r = Inr x" and "f x = Inr y"
  using assms by (cases r) auto

section \<open>Dictionaries\<close>

text \<open>
  A Python \<open>dict\<close> is an association list with distinct keys in insertion order: storing under
  an existing key keeps its position, a new key goes to the end, as \<open>AList.update\<close> does.
\<close>

type_synonym ('k, 'v) dict = "('k \<times> 'v) list"

definition dict_get :: "'k \<Rightarrow> ('k, 'v) dict \<Rightarrow> 'v option" where
  "dict_get k d = map_of d k"

definition dict_set :: "'k \<Rightarrow> 'v \<Rightarrow> ('k, 'v) dict \<Rightarrow> ('k, 'v) dict" where
  "dict_set k v d = AList.update k v d"

definition dict_del :: "'k \<Rightarrow> ('k, 'v) dict \<Rightarrow> ('k, 'v) dict" where
  "dict_del k d = AList.delete k d"

definition dict_keys :: "('k, 'v) dict \<Rightarrow> 'k list" where
  "dict_keys d = map fst d"

definition dict_ok :: "('k, 'v) dict \<Rightarrow> bool" where
  "dict_ok d \<longleftrightarrow> distinct (map fst d)"

lemma dict_get_Nil [simp]: "dict_get k [] = None"
  by (simp add: dict_get_def)

lemma dict_get_Cons [simp]:
  "dict_get k ((j, v) # d) = (if k = j then Some v else dict_get k d)"
  by (simp add: dict_get_def)

text \<open>The laws every keyed store of the program obeys; the SQLite tables and the in-memory
  dictionaries are instances.\<close>

locale keyed_store =
  fixes get :: "'k \<Rightarrow> 's \<Rightarrow> 'v option"
    and put :: "'k \<Rightarrow> 'v \<Rightarrow> 's \<Rightarrow> 's"
    and del :: "'k \<Rightarrow> 's \<Rightarrow> 's"
    and ok :: "'s \<Rightarrow> bool"
  assumes get_put: "get k' (put k v s) = (if k' = k then Some v else get k' s)"
    and get_del: "ok s \<Longrightarrow> get k' (del k s) = (if k' = k then None else get k' s)"
    and ok_put: "ok s \<Longrightarrow> ok (put k v s)"
    and ok_del: "ok s \<Longrightarrow> ok (del k s)"
begin

lemma get_put_same: "get k (put k v s) = Some v"
  by (simp add: get_put)

lemma get_put_other: "k' \<noteq> k \<Longrightarrow> get k' (put k v s) = get k' s"
  by (simp add: get_put)

lemma put_put_get: "get k' (put k w (put k v s)) = get k' (put k w s)"
  by (simp add: get_put)

lemma put_del_get: "ok s \<Longrightarrow> get k' (put k v (del k s)) = get k' (put k v s)"
  by (simp add: get_put get_del)

lemma puts_get_notin:
  "k \<notin> set ks \<Longrightarrow> get k (fold (\<lambda>j. put j (f j)) ks s) = get k s"
  by (induction ks arbitrary: s) (auto simp: get_put)

end

lemma dict_get_set: "dict_get k' (dict_set k v d) = (if k' = k then Some v else dict_get k' d)"
  by (simp add: dict_get_def dict_set_def update_conv)

lemma dict_get_del: "dict_get k' (dict_del k d) = (if k' = k then None else dict_get k' d)"
  by (simp add: dict_get_def dict_del_def delete_conv)

lemma dict_ok_set: "dict_ok d \<Longrightarrow> dict_ok (dict_set k v d)"
  by (simp add: dict_ok_def dict_set_def distinct_update)

lemma dict_ok_del: "dict_ok d \<Longrightarrow> dict_ok (dict_del k d)"
  by (simp add: dict_ok_def dict_del_def distinct_delete)

interpretation pydict: keyed_store dict_get dict_set dict_del dict_ok
  by unfold_locales (auto simp: dict_get_set dict_get_del dict_ok_set dict_ok_del)

lemma dict_get_set_same [simp]: "dict_get k (dict_set k v d) = Some v"
  by (rule pydict.get_put_same)

lemma dict_get_set_other [simp]: "k' \<noteq> k \<Longrightarrow> dict_get k' (dict_set k v d) = dict_get k' d"
  by (rule pydict.get_put_other)

lemma dict_get_dict_del_same [simp]: "dict_ok d \<Longrightarrow> dict_get k (dict_del k d) = None"
  by (simp add: dict_get_del)

lemma dict_get_dict_del_other [simp]: "k' \<noteq> k \<Longrightarrow> dict_get k' (dict_del k d) = dict_get k' d"
  by (simp add: dict_get_def dict_del_def delete_conv)

lemma dict_get_Some_in: "dict_get k d = Some v \<Longrightarrow> (k, v) \<in> set d"
  by (simp add: dict_get_def map_of_SomeD)

lemma dict_get_None_iff: "dict_get k d = None \<longleftrightarrow> k \<notin> set (dict_keys d)"
  by (simp add: dict_get_def dict_keys_def map_of_eq_None_iff)

lemma dict_in_get: "dict_ok d \<Longrightarrow> (k, v) \<in> set d \<Longrightarrow> dict_get k d = Some v"
  by (simp add: dict_ok_def dict_get_def)

section \<open>Lists\<close>

lemma sum_list_map_nonneg: "(\<And>x. x \<in> set xs \<Longrightarrow> 0 \<le> f x) \<Longrightarrow> 0 \<le> sum_list (map f xs :: int list)"
  by (induction xs) auto

lemma length_filter_strict:
  assumes "\<And>x. P x \<Longrightarrow> Q x" and "y \<in> set xs" and "Q y" and "\<not> P y"
  shows "length (filter P xs) < length (filter Q xs)"
proof -
  have "length (filter P zs) \<le> length (filter Q zs)" for zs
    by (induction zs) (auto dest: assms(1))
  then show ?thesis using assms(2)
  proof (induction xs)
    case (Cons x xs)
    then show ?case using assms by (cases "x = y") (auto simp: less_Suc_eq_le)
  qed simp
qed

text \<open>The part of Python's \<open>xs[a:b]\<close> the code uses, with non-negative bounds.\<close>

definition slice :: "nat \<Rightarrow> nat \<Rightarrow> 'a list \<Rightarrow> 'a list" where
  "slice a b xs = take (b - a) (drop a xs)"

lemma length_slice [simp]: "length (slice a b xs) = min (b - a) (length xs - a)"
  by (simp add: slice_def min.commute)

text \<open>Python's \<open>xs[-n:]\<close> for a positive \<open>n\<close>: the last \<open>n\<close> items, or all of them.\<close>

definition last_n :: "nat \<Rightarrow> 'a list \<Rightarrow> 'a list" where
  "last_n n xs = drop (length xs - n) xs"

lemma length_last_n [simp]: "length (last_n n xs) = min n (length xs)"
  by (simp add: last_n_def)

lemma set_last_n: "set (last_n n xs) \<subseteq> set xs"
  by (simp add: last_n_def set_drop_subset)

end
