(* ===== verification/PyFloat.thy ===== *)
theory PyFloat imports KPrelude begin

text \<open>
  Python's \<open>float\<close>: IEEE 754 binary64 with round-half-to-even, as rational values with the two
  infinities and NaN. Only the sign of zero is left out: no modelled operation observes it.
\<close>

datatype pyfloat = Fin rat | PInf | NInf | NaN

section \<open>Rounding\<close>

definition pow2 :: "int \<Rightarrow> rat" where
  "pow2 k = (if 0 \<le> k then 2 ^ nat k else 1 / 2 ^ nat (- k))"

text \<open>Python's \<open>round(x)\<close> on an exact value: half to even.\<close>

definition round_even :: "rat \<Rightarrow> int" where
  "round_even x =
     (let f = \<lfloor>x\<rfloor>; r = x - of_int f
      in if r < 1/2 then f else if 1/2 < r then f + 1 else if even f then f else f + 1)"

text \<open>The exponent \<open>e\<close> with \<open>2^e \<le> x < 2^(e+1)\<close>, for positive \<open>x\<close>.\<close>

definition binade :: "rat \<Rightarrow> int" where
  "binade x = (if 1 \<le> x then int (bit_length (nat \<lfloor>x\<rfloor>)) - 1
               else - int (bit_length (nat (\<lceil>1 / x\<rceil> - 1))))"

definition ulp_exp :: "rat \<Rightarrow> int" where
  "ulp_exp x = max (binade \<bar>x\<bar> - 52) (- 1074)"

definition round64 :: "rat \<Rightarrow> rat" where
  "round64 x = (if x = 0 then 0 else of_int (round_even (x / pow2 (ulp_exp x))) * pow2 (ulp_exp x))"

definition float_limit :: rat where
  "float_limit = 2 ^ 1024"

definition to_float :: "rat \<Rightarrow> pyfloat" where
  "to_float x = (let r = round64 x in
     if float_limit \<le> r then PInf else if r \<le> - float_limit then NInf else Fin r)"

section \<open>Operations\<close>

fun isfinite :: "pyfloat \<Rightarrow> bool" where
  "isfinite (Fin _) = True"
| "isfinite _ = False"

fun fneg :: "pyfloat \<Rightarrow> pyfloat" where
  "fneg (Fin a) = Fin (- a)"
| "fneg PInf = NInf"
| "fneg NInf = PInf"
| "fneg NaN = NaN"

fun fadd :: "pyfloat \<Rightarrow> pyfloat \<Rightarrow> pyfloat" where
  "fadd (Fin a) (Fin b) = to_float (a + b)"
| "fadd NaN _ = NaN"
| "fadd _ NaN = NaN"
| "fadd PInf NInf = NaN"
| "fadd NInf PInf = NaN"
| "fadd PInf _ = PInf"
| "fadd _ PInf = PInf"
| "fadd NInf _ = NInf"
| "fadd _ NInf = NInf"

definition fsub :: "pyfloat \<Rightarrow> pyfloat \<Rightarrow> pyfloat" where
  "fsub x y = fadd x (fneg y)"

fun fsgn :: "pyfloat \<Rightarrow> int" where
  "fsgn (Fin a) = (if a < 0 then - 1 else if a = 0 then 0 else 1)"
| "fsgn PInf = 1"
| "fsgn NInf = - 1"
| "fsgn NaN = 0"

definition inf_of_sign :: "int \<Rightarrow> pyfloat" where
  "inf_of_sign s = (if s = 0 then NaN else if 0 < s then PInf else NInf)"

fun fmul :: "pyfloat \<Rightarrow> pyfloat \<Rightarrow> pyfloat" where
  "fmul (Fin a) (Fin b) = to_float (a * b)"
| "fmul NaN _ = NaN"
| "fmul _ NaN = NaN"
| "fmul x y = inf_of_sign (fsgn x * fsgn y)"

text \<open>Division raises \<open>ZeroDivisionError\<close> on a zero divisor: \<open>None\<close>.\<close>

definition fdiv :: "pyfloat \<Rightarrow> pyfloat \<Rightarrow> pyfloat option" where
  "fdiv x y = (if y = Fin 0 then None else Some
     (case x of
        NaN \<Rightarrow> NaN
      | Fin a \<Rightarrow> (case y of Fin b \<Rightarrow> to_float (a / b) | NaN \<Rightarrow> NaN | _ \<Rightarrow> Fin 0)
      | _ \<Rightarrow> (case y of Fin _ \<Rightarrow> inf_of_sign (fsgn x * fsgn y) | _ \<Rightarrow> NaN)))"

fun flt :: "pyfloat \<Rightarrow> pyfloat \<Rightarrow> bool" where
  "flt (Fin a) (Fin b) = (a < b)"
| "flt (Fin _) PInf = True"
| "flt NInf (Fin _) = True"
| "flt NInf PInf = True"
| "flt _ _ = False"

definition feq :: "pyfloat \<Rightarrow> pyfloat \<Rightarrow> bool" where
  "feq x y \<longleftrightarrow> x = y \<and> x \<noteq> NaN"

definition fle :: "pyfloat \<Rightarrow> pyfloat \<Rightarrow> bool" where
  "fle x y \<longleftrightarrow> flt x y \<or> feq x y"

text \<open>Python's two-argument \<open>max\<close> and \<open>min\<close>: the first argument unless the second beats it.\<close>

definition fmax :: "pyfloat \<Rightarrow> pyfloat \<Rightarrow> pyfloat" where
  "fmax x y = (if flt x y then y else x)"

definition fmin :: "pyfloat \<Rightarrow> pyfloat \<Rightarrow> pyfloat" where
  "fmin x y = (if flt y x then y else x)"

fun fabs :: "pyfloat \<Rightarrow> pyfloat" where
  "fabs (Fin a) = Fin \<bar>a\<bar>"
| "fabs NaN = NaN"
| "fabs _ = PInf"

definition f_of_int :: "int \<Rightarrow> pyfloat" where
  "f_of_int n = to_float (of_int n)"

text \<open>\<open>int(x)\<close> truncates and \<open>round(x)\<close> rounds half to even; both raise on an infinity or NaN.\<close>

fun f_trunc :: "pyfloat \<Rightarrow> int option" where
  "f_trunc (Fin a) = Some (if 0 \<le> a then \<lfloor>a\<rfloor> else \<lceil>a\<rceil>)"
| "f_trunc _ = None"

fun f_round :: "pyfloat \<Rightarrow> int option" where
  "f_round (Fin a) = Some (round_even a)"
| "f_round _ = None"

section \<open>Facts the components use\<close>

lemma pow2_pos [simp]: "0 < pow2 k"
  by (simp add: pow2_def)

lemma pow2_ne0 [simp]: "pow2 k \<noteq> 0"
  using pow2_pos [of k] by linarith

lemma round_even_of_int [simp]: "round_even (of_int n) = n"
  by (simp add: round_even_def)

lemma round_even_nonneg: "0 \<le> x \<Longrightarrow> 0 \<le> round_even x"
  by (auto simp: round_even_def Let_def)

lemma round_even_nonpos:
  assumes "x \<le> 0" shows "round_even x \<le> 0"
proof (cases "x = 0")
  case True then show ?thesis by (simp add: round_even_def)
next
  case False
  with assms have "\<lfloor>x\<rfloor> < 0" by simp
  then show ?thesis by (auto simp: round_even_def Let_def)
qed

lemma round64_nonneg: "0 \<le> x \<Longrightarrow> 0 \<le> round64 x"
  by (simp add: round64_def round_even_nonneg less_imp_le)

lemma round64_nonpos: "x \<le> 0 \<Longrightarrow> round64 x \<le> 0"
  by (simp add: round64_def round_even_nonpos mult_le_0_iff less_imp_le divide_le_0_iff)

lemma float_limit_pos: "0 < float_limit"
  unfolding float_limit_def by (rule zero_less_power) simp

lemma to_float_nonpos: "x \<le> 0 \<Longrightarrow> \<not> flt (Fin 0) (to_float x)"
  using round64_nonpos [of x] float_limit_pos by (auto simp: to_float_def Let_def)

lemma fsub_le_zero:
  "isfinite x \<Longrightarrow> isfinite y \<Longrightarrow> fle x y \<Longrightarrow> \<not> flt (Fin 0) (fsub x y)"
  by (cases x; cases y) (auto simp: fsub_def fle_def feq_def to_float_nonpos)

lemma flt_irrefl [simp]: "\<not> flt x x"
  by (cases x) auto

lemma flt_trans: "flt x y \<Longrightarrow> flt y z \<Longrightarrow> flt x z"
  by (cases x; cases y; cases z) auto

lemma flt_asym: "flt x y \<Longrightarrow> \<not> flt y x"
  by (cases x; cases y) auto

lemma fle_refl: "x \<noteq> NaN \<Longrightarrow> fle x x"
  by (simp add: fle_def feq_def)

lemma fle_trans: "fle x y \<Longrightarrow> fle y z \<Longrightarrow> fle x z"
  by (auto simp: fle_def feq_def intro: flt_trans)

lemma flt_fle_trans: "flt x y \<Longrightarrow> fle y z \<Longrightarrow> flt x z"
  by (auto simp: fle_def feq_def intro: flt_trans)

lemma fle_flt_trans: "fle x y \<Longrightarrow> flt y z \<Longrightarrow> flt x z"
  by (auto simp: fle_def feq_def intro: flt_trans)

lemma flt_total_finite: "isfinite x \<Longrightarrow> isfinite y \<Longrightarrow> flt x y \<or> x = y \<or> flt y x"
  by (cases x; cases y) auto

lemma fle_not_flt: "isfinite x \<Longrightarrow> isfinite y \<Longrightarrow> fle x y \<longleftrightarrow> \<not> flt y x"
  by (cases x; cases y) (auto simp: fle_def feq_def)

lemma fmax_zero_nonneg: "fle (Fin 0) (fmax (Fin 0) x)"
  by (cases x) (auto simp: fmax_def fle_def feq_def)

section \<open>Exact values\<close>

lemma pow2_powi: "pow2 k = 2 powi k"
  by (simp add: pow2_def power_int_def inverse_eq_divide power_one_over)

lemma pow2_add: "pow2 (a + b) = pow2 a * pow2 b"
  by (simp add: pow2_powi power_int_add)

lemma pow2_less_iff: "pow2 a < pow2 b \<longleftrightarrow> a < b"
proof -
  have "pow2 a < pow2 b" if "a < b" for a b
    using power_int_strict_increasing [of a b "2::rat"] that by (simp add: pow2_powi)
  then show ?thesis by (metis linorder_neqE not_less_iff_gr_or_eq)
qed

lemma binade_lower: 
  assumes "0 < x" shows "pow2 (binade x) \<le> x"
proof (cases "1 \<le> x")
  case True
  let ?n = "nat \<lfloor>x\<rfloor>"
  have n: "0 < ?n" using True by simp
  then have "0 < bit_length ?n" by (simp add: bit_length_pos)
  then have "pow2 (binade x) = of_nat (2 ^ (bit_length ?n - 1))"
    using True by (simp add: binade_def pow2_def nat_diff_distrib')
  also have "\<dots> \<le> of_nat ?n" using bit_length_lower [OF n] of_nat_le_iff by blast
  also have "\<dots> \<le> x" using assms by simp
  finally show ?thesis .
next
  case False
  let ?n = "nat (\<lceil>1 / x\<rceil> - 1)"
  have "1 < 1 / x" using False assms by simp
  then have "1 < \<lceil>1 / x\<rceil>" by (simp add: less_ceiling_iff)
  then have n: "int ?n = \<lceil>1 / x\<rceil> - 1" using assms by linarith
  have "1 / x \<le> of_int \<lceil>1 / x\<rceil>" by (rule le_of_int_ceiling)
  also have "of_int \<lceil>1 / x\<rceil> = (of_nat (Suc ?n) :: rat)" using n by (metis add.commute diff_add_cancel of_int_of_nat_eq of_nat_Suc)
  also have "\<dots> \<le> of_nat (2 ^ bit_length ?n)"
    using bit_length_upper [of ?n] of_nat_le_iff Suc_leI by blast
  finally have "1 / x \<le> 2 ^ bit_length ?n" by simp
  then have "1 / 2 ^ bit_length ?n \<le> x" using assms by (simp add: field_simps)
  then show ?thesis using False
    by (cases "bit_length ?n = 0") (simp_all add: binade_def pow2_def nat_minus_as_int)
qed

lemma to_float_exact:
  assumes x: "x = of_int m * pow2 e" and m: "\<bar>m\<bar> < 2 ^ 53" and e: "- 1074 \<le> e" "e \<le> 970"
  shows "to_float x = Fin x"
proof (cases "x = 0")
  case True
  then show ?thesis using float_limit_pos by (simp add: to_float_def round64_def)
next
  case False
  have a: "\<bar>x\<bar> < pow2 (53 + e)"
  proof -
    have "\<bar>of_int m :: rat\<bar> < 2 ^ 53"
    proof -
      have "of_int \<bar>m\<bar> < (of_int (2 ^ 53) :: rat)" using m by (simp only: of_int_less_iff)
      then show ?thesis by simp
    qed
    then have "\<bar>of_int m\<bar> * \<bar>pow2 e\<bar> < 2 ^ 53 * pow2 e" by (simp add: abs_of_pos)
    moreover have "pow2 53 = 2 ^ 53" by (simp add: pow2_def)
    ultimately show ?thesis by (simp add: x abs_mult pow2_add)
  qed
  have "pow2 (binade \<bar>x\<bar>) \<le> \<bar>x\<bar>" using False by (intro binade_lower) simp
  also note a
  finally have "binade \<bar>x\<bar> < 53 + e" by (simp add: pow2_less_iff)
  then have u: "ulp_exp x \<le> e" using e by (simp add: ulp_exp_def)
  define k where "k = e - ulp_exp x"
  have k: "e = k + ulp_exp x" "0 \<le> k" using u by (simp_all add: k_def)
  have "x / pow2 (ulp_exp x) = of_int (m * 2 ^ nat k)"
    using k by (subst x) (simp add: pow2_add, simp add: pow2_def)
  then have "round_even (x / pow2 (ulp_exp x)) = m * 2 ^ nat k" and "of_int (m * 2 ^ nat k) * pow2 (ulp_exp x) = x"
    by (simp_all only: round_even_of_int) (metis nonzero_divide_eq_eq pow2_ne0)
  then have r: "round64 x = x" using False by (simp add: round64_def)
  have "pow2 (53 + e) \<le> pow2 1023"
    using e pow2_less_iff [of 1023 "53 + e"] by linarith
  then have "\<bar>x\<bar> < float_limit"
    using a pow2_less_iff [of 1023 1024] by (simp add: float_limit_def pow2_def)
  then show ?thesis using r by (simp add: to_float_def abs_less_iff)
qed

lemma to_float_int: "\<bar>m\<bar> < 2 ^ 53 \<Longrightarrow> to_float (of_int m) = Fin (of_int m)"
  by (rule to_float_exact [where e = 0]) (simp_all add: pow2_def)

lemma binade_upper:
  assumes "0 < x" shows "x < pow2 (binade x + 1)"
proof (cases "1 \<le> x")
  case True
  let ?n = "nat \<lfloor>x\<rfloor>"
  have "Suc ?n \<le> 2 ^ bit_length ?n" using bit_length_upper [of ?n] by (rule Suc_leI)
  then have "(of_nat (Suc ?n) :: rat) \<le> of_nat (2 ^ bit_length ?n)" by (simp only: of_nat_le_iff)
  moreover have "x < of_nat (Suc ?n)"
  proof -
    have "x < of_int \<lfloor>x\<rfloor> + 1" by linarith
    moreover have "of_nat ?n = (of_int \<lfloor>x\<rfloor> :: rat)" using True by simp
    ultimately show ?thesis by simp
  qed
  ultimately have "x < 2 ^ bit_length ?n" by simp
  then show ?thesis using True by (simp add: binade_def pow2_def)
next
  case False
  let ?n = "nat (\<lceil>1 / x\<rceil> - 1)"
  have "1 < 1 / x" using False assms by simp
  then have c: "1 < \<lceil>1 / x\<rceil>" by (simp add: less_ceiling_iff)
  have n: "0 < ?n" using c by linarith
  have "of_int \<lceil>1 / x\<rceil> - 1 < 1 / x" by linarith
  moreover have "of_nat ?n = (of_int \<lceil>1 / x\<rceil> - 1 :: rat)"
  proof -
    have "int ?n = \<lceil>1 / x\<rceil> - 1" using c by linarith
    then have "of_int (int ?n) = (of_int (\<lceil>1 / x\<rceil> - 1) :: rat)" by (rule arg_cong)
    then show ?thesis by (simp only: of_int_of_nat_eq of_int_diff of_int_1)
  qed
  ultimately have "of_nat ?n < 1 / x" by linarith
  moreover have "(2::rat) ^ (bit_length ?n - 1) \<le> of_nat ?n"
    using bit_length_lower [OF n] by (metis of_nat_le_iff of_nat_numeral of_nat_power)
  ultimately have lt: "2 ^ (bit_length ?n - 1) < 1 / x" by linarith
  have "0 < bit_length ?n" using n by (simp add: bit_length_pos)
  then obtain b where b: "bit_length ?n = Suc b" by (cases "bit_length ?n") auto
  from lt have "x < 1 / 2 ^ b" using assms by (simp add: b field_simps)
  moreover have "pow2 (binade x + 1) = 1 / 2 ^ b"
    using False b by (cases "b = 0") (simp_all add: binade_def pow2_def)
  ultimately show ?thesis by simp
qed

lemma binade_eq:
  assumes "pow2 k \<le> x" and "x < pow2 (k + 1)" shows "binade x = k"
proof -
  have x: "0 < x" using assms(1) pow2_pos [of k] by linarith
  have "pow2 (binade x) < pow2 (k + 1)" using binade_lower [OF x] assms(2) by linarith
  moreover have "pow2 k < pow2 (binade x + 1)" using binade_upper [OF x] assms(1) by linarith
  ultimately show ?thesis by (simp add: pow2_less_iff)
qed

lemma round_even_near:
  assumes "\<bar>z - of_int m\<bar> < 1/2" shows "round_even z = m"
proof -
  have "\<lfloor>z\<rfloor> = m \<or> \<lfloor>z\<rfloor> = m - 1" using assms by linarith
  then show ?thesis using assms by (auto simp: round_even_def Let_def)
qed

text \<open>The float nearest to a normal value.\<close>

lemma to_float_near:
  assumes "pow2 (e + 52) \<le> x" and "x < pow2 (e + 53)" and near: "\<bar>x - of_int m * pow2 e\<bar> < pow2 e / 2"
    and e: "- 1074 \<le> e" "e \<le> 970"
  shows "to_float x = Fin (of_int m * pow2 e)"
proof -
  have x: "0 < x" using assms(1) pow2_pos [of "e + 52"] by linarith
  have "binade x = e + 52" using assms(1,2) by (intro binade_eq) (simp_all add: add.assoc)
  then have u: "ulp_exp x = e" using x e by (simp add: ulp_exp_def)
  have "x / pow2 e - of_int m = (x - of_int m * pow2 e) / pow2 e" by (simp add: diff_divide_distrib)
  then have "\<bar>x / pow2 e - of_int m\<bar> = \<bar>x - of_int m * pow2 e\<bar> / pow2 e"
    by (simp add: abs_divide abs_of_pos [OF pow2_pos])
  also have "\<dots> < (pow2 e / 2) / pow2 e" using near by (intro divide_strict_right_mono) simp_all
  finally have "round_even (x / pow2 e) = m" by (intro round_even_near) simp
  then have r: "round64 x = of_int m * pow2 e" using x u by (simp add: round64_def)
  have "pow2 e < pow2 (e + 53)" by (simp add: pow2_less_iff)
  then have "of_int m * pow2 e < 2 * pow2 (e + 53)" using near assms(2) by linarith
  also have "\<dots> = pow2 (e + 54)" 
  proof -
    have "pow2 (1 + (e + 53)) = pow2 1 * pow2 (e + 53)" by (rule pow2_add)
    moreover have "1 + (e + 53) = e + 54" by simp
    ultimately show ?thesis by (simp add: pow2_def [of 1])
  qed
  also have "\<dots> \<le> pow2 1024" using e pow2_less_iff [of 1024 "e + 54"] by linarith
  finally have "of_int m * pow2 e < float_limit" by (simp add: float_limit_def pow2_def [of 1024])
  moreover have "0 \<le> of_int m * pow2 e"
    using r round64_nonneg [of x] x by simp
  ultimately show ?thesis using r float_limit_pos by (simp add: to_float_def)
qed

end
