(* ===== verification/Models.thy ===== *)
theory Models imports KPrelude PyFloat begin

text \<open>
  The data model of \<open>src/src/kernelyra/models.py\<close> and the exception classes of \<open>errors.py\<close>:
  run configurations, run records, dataset records, the run status enumeration, JSON-like values
  for the free-form dictionary fields, and one constructor for every run message the code writes.
\<close>

section \<open>JSON-like values\<close>

text \<open>The values the program keeps in \<open>dict[str, Any]\<close> fields. Lists and tuples are both
  \<open>VList\<close>: the fields are stored as JSON, which has one sequence type.\<close>

datatype pyval =
    VNone
  | VBool bool
  | VInt int
  | VFloat pyfloat
  | VStr string
  | VList "pyval list"
  | VDict "(string \<times> pyval) list"

type_synonym pydict = "(string, pyval) dict"

text \<open>Python's truth value of such a value (\<open>x or default\<close>, \<open>if x\<close>).\<close>

fun truthy :: "pyval \<Rightarrow> bool" where
  "truthy VNone = False"
| "truthy (VBool b) = b"
| "truthy (VInt n) = (n \<noteq> 0)"
| "truthy (VFloat x) = (x \<noteq> Fin 0)"
| "truthy (VStr s) = (s \<noteq> [])"
| "truthy (VList xs) = (xs \<noteq> [])"
| "truthy (VDict d) = (d \<noteq> [])"

definition v_opt_str :: "string option \<Rightarrow> pyval" where
  "v_opt_str x = (case x of None \<Rightarrow> VNone | Some s \<Rightarrow> VStr s)"

definition v_opt_float :: "pyfloat option \<Rightarrow> pyval" where
  "v_opt_float x = (case x of None \<Rightarrow> VNone | Some f \<Rightarrow> VFloat f)"

text \<open>Python's \<open>==\<close>: numbers compare by value across \<open>bool\<close>, \<open>int\<close> and \<open>float\<close>, dictionaries by
  their items in any order.\<close>

fun num_value :: "pyval \<Rightarrow> pyfloat option" where
  "num_value (VBool b) = Some (Fin (if b then 1 else 0))"
| "num_value (VInt n) = Some (Fin (of_int n))"
| "num_value (VFloat x) = Some x"
| "num_value _ = None"

fun py_eq :: "pyval \<Rightarrow> pyval \<Rightarrow> bool"
  and py_eq_list :: "pyval list \<Rightarrow> pyval list \<Rightarrow> bool"
  and py_eq_items :: "(string \<times> pyval) list \<Rightarrow> (string \<times> pyval) list \<Rightarrow> bool" where
  "py_eq VNone w = (w = VNone)"
| "py_eq (VStr s) w = (w = VStr s)"
| "py_eq (VList xs) w = (case w of VList ys \<Rightarrow> py_eq_list xs ys | _ \<Rightarrow> False)"
| "py_eq (VDict d) w = (case w of VDict e \<Rightarrow> length d = length e \<and> py_eq_items d e | _ \<Rightarrow> False)"
| "py_eq v w = (case (num_value v, num_value w) of (Some a, Some b) \<Rightarrow> feq a b | _ \<Rightarrow> False)"
| "py_eq_list [] ys = (ys = [])"
| "py_eq_list (x # xs) ys = (case ys of [] \<Rightarrow> False | y # ys' \<Rightarrow> py_eq x y \<and> py_eq_list xs ys')"
| "py_eq_items [] e = True"
| "py_eq_items ((k, v) # d) e =
     ((case dict_get k e of None \<Rightarrow> False | Some w \<Rightarrow> py_eq v w) \<and> py_eq_items d e)"

lemma py_eq_str [simp]: "py_eq v (VStr s) \<longleftrightarrow> v = VStr s"
  by (cases v) auto

section \<open>Exceptions\<close>

datatype run_status =
    Draft | Queued | Training | Pausing | Paused | Stopping | Stopped | Completed
  | Error_Recoverable | Error_Status

fun status_value :: "run_status \<Rightarrow> string" where
  "status_value Draft = ''draft''"
| "status_value Queued = ''queued''"
| "status_value Training = ''training''"
| "status_value Pausing = ''pausing''"
| "status_value Paused = ''paused''"
| "status_value Stopping = ''stopping''"
| "status_value Stopped = ''stopped''"
| "status_value Completed = ''completed''"
| "status_value Error_Recoverable = ''error_recoverable''"
| "status_value Error_Status = ''error''"

text \<open>The classes of \<open>errors.py\<close>, then the built-in exceptions the modelled code raises. The
  message texts are presentation and are left out; \<open>RunStateError\<close> keeps its four fields.\<close>

datatype kerror =
    KernelyraError
  | ConfigurationError
  | DatasetError
  | StorageError
  | NotFoundError
  | DatasetNotFoundError
  | PayloadTooLargeError
  | RateLimitError
  | RunError
  | RunNotFoundError
  | RunStateError string string run_status "run_status list"
  | AccessDeniedError
  | ApprovalError
  | DaemonUnavailableError
  | WorkerError
  | WorkerProtocolError
  | WorkerCrashedError
  | WorkerTimeoutError
  | ValueError
  | KeyError
  | IndexError
  | TypeError
  | RuntimeError
  | FloatingPointError
  | ZeroDivisionError
  | OverflowError
  | OSError
  | EOFError
  | IntegrityError

text \<open>The method resolution order of each class, by class name: what an \<open>except\<close> clause or an
  exception handler looks the class up in.\<close>

fun mro :: "kerror \<Rightarrow> string list" where
  "mro KernelyraError = [''KernelyraError'', ''Exception'']"
| "mro ConfigurationError = [''ConfigurationError'', ''KernelyraError'', ''Exception'']"
| "mro DatasetError = [''DatasetError'', ''KernelyraError'', ''Exception'']"
| "mro StorageError = [''StorageError'', ''KernelyraError'', ''Exception'']"
| "mro NotFoundError = [''NotFoundError'', ''KernelyraError'', ''Exception'']"
| "mro DatasetNotFoundError =
     [''DatasetNotFoundError'', ''DatasetError'', ''NotFoundError'', ''KernelyraError'', ''Exception'']"
| "mro PayloadTooLargeError = [''PayloadTooLargeError'', ''KernelyraError'', ''Exception'']"
| "mro RateLimitError = [''RateLimitError'', ''KernelyraError'', ''Exception'']"
| "mro RunError = [''RunError'', ''KernelyraError'', ''Exception'']"
| "mro RunNotFoundError =
     [''RunNotFoundError'', ''RunError'', ''NotFoundError'', ''KernelyraError'', ''Exception'']"
| "mro (RunStateError _ _ _ _) = [''RunStateError'', ''RunError'', ''KernelyraError'', ''Exception'']"
| "mro AccessDeniedError = [''AccessDeniedError'', ''KernelyraError'', ''Exception'']"
| "mro ApprovalError = [''ApprovalError'', ''AccessDeniedError'', ''KernelyraError'', ''Exception'']"
| "mro DaemonUnavailableError = [''DaemonUnavailableError'', ''KernelyraError'', ''Exception'']"
| "mro WorkerError = [''WorkerError'', ''RunError'', ''KernelyraError'', ''Exception'']"
| "mro WorkerProtocolError =
     [''WorkerProtocolError'', ''WorkerError'', ''RunError'', ''KernelyraError'', ''Exception'']"
| "mro WorkerCrashedError =
     [''WorkerCrashedError'', ''WorkerError'', ''RunError'', ''KernelyraError'', ''Exception'']"
| "mro WorkerTimeoutError =
     [''WorkerTimeoutError'', ''WorkerError'', ''RunError'', ''KernelyraError'', ''Exception'']"
| "mro ValueError = [''ValueError'', ''Exception'']"
| "mro KeyError = [''KeyError'', ''LookupError'', ''Exception'']"
| "mro IndexError = [''IndexError'', ''LookupError'', ''Exception'']"
| "mro TypeError = [''TypeError'', ''Exception'']"
| "mro RuntimeError = [''RuntimeError'', ''Exception'']"
| "mro FloatingPointError = [''FloatingPointError'', ''ArithmeticError'', ''Exception'']"
| "mro ZeroDivisionError = [''ZeroDivisionError'', ''ArithmeticError'', ''Exception'']"
| "mro OverflowError = [''OverflowError'', ''ArithmeticError'', ''Exception'']"
| "mro OSError = [''OSError'', ''Exception'']"
| "mro EOFError = [''EOFError'', ''Exception'']"
| "mro IntegrityError = [''IntegrityError'', ''DatabaseError'', ''Exception'']"

definition error_name :: "kerror \<Rightarrow> string" where
  "error_name e = hd (mro e)"

definition is_kernelyra_error :: "kerror \<Rightarrow> bool" where
  "is_kernelyra_error e \<longleftrightarrow> ''KernelyraError'' \<in> set (mro e)"

section \<open>Messages and batch notes\<close>

text \<open>One constructor for each message template the runtime writes into \<open>RunInfo.message\<close>, with
  the values it interpolates.\<close>

datatype run_message =
    MsgCreated
  | MsgWaitingSlot
  | MsgResumeQueued
  | MsgPauseRequested
  | MsgPausedNow
  | MsgStopRequested
  | MsgStoppedNow
  | MsgPreparing string
  | MsgRestarted
  | MsgClosing
  | MsgError string
  | MsgStopFinal
  | MsgPauseFinal
  | MsgBaseline pyfloat
  | MsgForced run_message string
  | MsgStopConfirmed
  | MsgPauseConfirmed
  | MsgOom int int
  | MsgProgress int pyfloat int
  | MsgQualityGate
  | MsgBatchLowered int int
  | MsgBatchRaised int int
  | MsgValidation int pyfloat int
  | MsgModelGuard
  | MsgTarget pyfloat
  | MsgSmartStop
  | MsgMaxSteps
  | MsgImported
  | MsgOther string

datatype batch_warning =
    WarnReduced int int int
  | WarnHighMemory
  | WarnHighRecovery
  | WarnSmallBatch
  | WarnNotOptimum
  | WarnAutoMode

datatype batch_reason = BatchReason int int int string int

section \<open>Records\<close>

record run_config =
  rc_dataset :: string
  rc_backend :: string
  rc_objective :: string
  rc_architecture :: string
  rc_model_format :: string
  rc_name :: string
  rc_mode :: string
  rc_profile :: string
  rc_execution :: string
  rc_algorithm_pack :: string
  rc_priority :: string
  rc_target_metric :: pyfloat
  rc_batch_mode :: string
  rc_batch_size :: "int option"
  rc_max_steps :: int
  rc_cpu :: "int option"
  rc_ram :: "int option"
  rc_gpu :: "int option"
  rc_threads :: "int option"
  rc_base_run_id :: "string option"
  rc_model_path :: "string option"
  rc_accept_batch_risk :: bool
  rc_seed :: int
  rc_learning_rate :: "pyfloat option"
  rc_weight_decay :: pyfloat
  rc_hidden_layers :: "int list"
  rc_precision :: string
  rc_data_workers :: "int option"
  rc_prefetch :: "int option"
  rc_evaluation_interval :: "int option"
  rc_min_improvement :: pyfloat
  rc_degradation_margin :: "pyfloat option"
  rc_degradation_patience :: int
  rc_early_stopping_patience :: int
  rc_target_patience :: int
  rc_data_contract :: pydict
  rc_split_policy :: pydict
  rc_chunk_policy :: pydict

text \<open>\<open>RunInfo\<close>, in two steps: what is fixed when the run is created, and what a run changes
  while it lives (with the batch size, which adapts).\<close>

record run_plan =
  r_id :: string
  r_name :: string
  r_dataset :: string
  r_backend :: string
  r_objective :: string
  r_architecture :: string
  r_model_format :: string
  r_mode :: string
  r_profile :: string
  r_execution :: string
  r_algorithm_pack :: string
  r_priority :: string
  r_target_score :: pyfloat
  r_batch_mode :: string
  r_batch_min :: int
  r_batch_max :: int
  r_batch_risk :: string
  r_batch_reason :: batch_reason
  r_batch_warnings :: "batch_warning list"
  r_max_steps :: int
  r_cpu :: int
  r_ram :: int
  r_gpu :: int
  r_threads :: int
  r_base_run_id :: "string option"
  r_model_path :: "string option"
  r_seed :: int
  r_learning_rate :: "pyfloat option"
  r_weight_decay :: pyfloat
  r_hidden_layers :: "int list"
  r_precision :: string
  r_data_workers :: int
  r_prefetch :: int
  r_evaluation_interval :: "int option"
  r_min_improvement :: pyfloat
  r_degradation_margin :: pyfloat
  r_degradation_patience :: int
  r_early_stopping_patience :: int
  r_target_patience :: int
  r_data_contract :: pydict
  r_split_policy :: pydict
  r_chunk_policy :: pydict
  r_created_at :: rat

record run_info = run_plan +
  r_effective_backend :: "string option"
  r_batch_size :: int
  r_status :: run_status
  r_step :: int
  r_best_score :: pyfloat
  r_best_step :: int
  r_loss :: pyfloat
  r_samples_seen :: int
  r_eval_count :: int
  r_batch_adjustments :: int
  r_message :: run_message
  r_stop_requested :: bool
  r_paused :: bool
  r_metrics :: pydict
  r_termination_reason :: "string option"
  r_worker_protocol :: "string option"
  r_worker_pid :: "int option"
  r_resource_enforcement :: pydict
  r_environment_manifest :: pydict
  r_checkpoint :: pydict

record dataset_info =
  d_id :: string
  d_source :: string
  d_path :: string
  d_records :: int
  d_features :: int
  d_target :: string
  d_classes :: "string list"
  d_format :: string
  d_skipped :: int
  d_sha256 :: string
  d_size_bytes :: int
  d_task_types :: "string list"
  d_schema :: pydict
  d_manifest :: pydict
  d_warnings :: "string list"
  d_reused :: bool
  d_native_probe :: pydict
  d_created_at :: rat

text \<open>\<open>RunInfo.new\<close>: the planned fields are given, the live ones start at their class defaults.\<close>

definition run_new :: "run_plan \<Rightarrow> int \<Rightarrow> run_info" where
  "run_new p batch = run_plan.extend p
     (run_info.fields None batch Draft 0 (Fin 0) 0 (Fin 0) 0 0 0 MsgCreated False False
        [] None None None [] [] [])"

lemma run_new_simps [simp]:
  "r_status (run_new p b) = Draft"
  "r_id (run_new p b) = r_id p"
  "r_cpu (run_new p b) = r_cpu p"
  "r_ram (run_new p b) = r_ram p"
  "r_gpu (run_new p b) = r_gpu p"
  "r_batch_size (run_new p b) = b"
  "r_paused (run_new p b) = False"
  "r_stop_requested (run_new p b) = False"
  by (simp_all add: run_new_def run_plan.defs run_info.defs)

end
