(* ===== verification/Storage.thy ===== *)
theory Storage imports Models begin

text \<open>
  \<open>src/src/kernelyra/storage/sqlite.py\<close>: the SQLite tables as association lists keyed by primary
  key, the action log as a list in id order, and the approval tokens. Each public method is one
  transaction, so one state transformer; the time of day and the random token are arguments, and
  the SHA-256 digest of a token is the argument \<open>H\<close>.
\<close>

section \<open>Tables\<close>

record log_entry =
  log_id :: int
  log_actor :: string
  log_what :: string
  log_payload :: pydict
  log_at :: rat

record approval =
  ap_action :: string
  ap_resource :: string
  ap_expires :: rat
  ap_used :: "rat option"
  ap_created :: rat

record store =
  st_datasets :: "(string, dataset_info \<times> rat) dict"
  st_runs :: "(string, run_info \<times> rat) dict"
  st_log :: "log_entry list"
  st_next_log :: int
  st_approvals :: "(string, approval) dict"

definition empty_store :: store where
  "empty_store = \<lparr>st_datasets = [], st_runs = [], st_log = [], st_next_log = 1, st_approvals = []\<rparr>"

text \<open>Rows are stored under their own id, keys are unique, and log ids ascend below the next id.\<close>

definition store_ok :: "store \<Rightarrow> bool" where
  "store_ok s \<longleftrightarrow>
     dict_ok (st_datasets s) \<and> dict_ok (st_runs s) \<and> dict_ok (st_approvals s) \<and>
     (\<forall>(k, r, t) \<in> set (st_runs s). r_id r = k) \<and>
     (\<forall>(k, d, t) \<in> set (st_datasets s). d_id d = k) \<and>
     sorted_wrt (\<lambda>a b. log_id a < log_id b) (st_log s) \<and>
     (\<forall>e \<in> set (st_log s). log_id e < st_next_log s)"

section \<open>Datasets and runs\<close>

definition save_dataset :: "rat \<Rightarrow> dataset_info \<Rightarrow> store \<Rightarrow> store" where
  "save_dataset now d s = s\<lparr>st_datasets := dict_set (d_id d) (d, now) (st_datasets s)\<rparr>"

definition list_datasets :: "store \<Rightarrow> dataset_info list" where
  "list_datasets s = map (\<lambda>(k, d, t). d) (sort_key (\<lambda>(k, d, t). - t) (st_datasets s))"

definition get_dataset :: "string \<Rightarrow> store \<Rightarrow> dataset_info option" where
  "get_dataset i s = map_option fst (dict_get i (st_datasets s))"

definition delete_dataset :: "string \<Rightarrow> store \<Rightarrow> kerror + store" where
  "delete_dataset i s =
     (case dict_get i (st_datasets s) of
        None \<Rightarrow> Inl KeyError
      | Some _ \<Rightarrow> Inr (s\<lparr>st_datasets := dict_del i (st_datasets s)\<rparr>))"

definition save_run :: "rat \<Rightarrow> run_info \<Rightarrow> store \<Rightarrow> store" where
  "save_run now r s = s\<lparr>st_runs := dict_set (r_id r) (r, now) (st_runs s)\<rparr>"

definition list_runs :: "store \<Rightarrow> run_info list" where
  "list_runs s = map (\<lambda>(k, r, t). r) (sort_key (\<lambda>(k, r, t). - t) (st_runs s))"

definition get_run :: "string \<Rightarrow> store \<Rightarrow> run_info option" where
  "get_run i s = map_option fst (dict_get i (st_runs s))"

definition delete_run :: "string \<Rightarrow> store \<Rightarrow> kerror + store" where
  "delete_run i s =
     (case dict_get i (st_runs s) of
        None \<Rightarrow> Inl KeyError
      | Some _ \<Rightarrow> Inr (s\<lparr>st_runs := dict_del i (st_runs s)\<rparr>))"

section \<open>The action log\<close>

definition log_action :: "rat \<Rightarrow> string \<Rightarrow> string \<Rightarrow> pydict \<Rightarrow> store \<Rightarrow> store" where
  "log_action now actor action payload s =
     s\<lparr>st_log := st_log s @ [\<lparr>log_id = st_next_log s, log_actor = actor, log_what = action,
                               log_payload = payload, log_at = now\<rparr>],
       st_next_log := st_next_log s + 1\<rparr>"

definition recent_actions :: "int \<Rightarrow> store \<Rightarrow> log_entry list" where
  "recent_actions limit s = take (nat (max 1 (min 1000 limit))) (rev (st_log s))"

definition events_since :: "int \<Rightarrow> int \<Rightarrow> store \<Rightarrow> log_entry list" where
  "events_since last_id limit s =
     take (nat (max 1 (min 500 limit))) (filter (\<lambda>e. max 0 last_id < log_id e) (st_log s))"

section \<open>Approval tokens\<close>

definition issue_approval ::
  "(string \<Rightarrow> string) \<Rightarrow> rat \<Rightarrow> string \<Rightarrow> string \<Rightarrow> string \<Rightarrow> int \<Rightarrow> string \<Rightarrow> store
     \<Rightarrow> kerror + (string \<times> rat) \<times> store" where
  "issue_approval H now rnd action resource_id ttl_seconds actor s =
     (let ttl = max 30 (min 3600 ttl_seconds);
          token = ''tfap_'' @ rnd;
          token_hash = H token;
          expires_at = now + of_int ttl
      in case dict_get token_hash (st_approvals s) of
           Some _ \<Rightarrow> Inl IntegrityError
         | None \<Rightarrow> Inr ((token, expires_at),
             log_action now actor ''approval.issue''
               [(''action'', VStr action), (''resource_id'', VStr resource_id),
                (''expires_at'', VFloat (Fin expires_at))]
               (s\<lparr>st_approvals := dict_set token_hash
                    \<lparr>ap_action = action, ap_resource = resource_id, ap_expires = expires_at,
                     ap_used = None, ap_created = now\<rparr> (st_approvals s)\<rparr>)))"

definition approval_matches :: "rat \<Rightarrow> string \<Rightarrow> string \<Rightarrow> approval \<Rightarrow> bool" where
  "approval_matches now action resource_id a \<longleftrightarrow>
     ap_action a = action \<and> ap_resource a = resource_id \<and> ap_used a = None \<and> now \<le> ap_expires a"

definition consume_approval ::
  "(string \<Rightarrow> string) \<Rightarrow> rat \<Rightarrow> string \<Rightarrow> string \<Rightarrow> string \<Rightarrow> store \<Rightarrow> bool \<times> store" where
  "consume_approval H now token action resource_id s =
     (case dict_get (H token) (st_approvals s) of
        None \<Rightarrow> (False, s)
      | Some a \<Rightarrow>
          if approval_matches now action resource_id a
          then (True,
            log_action now ''mcp'' ''approval.consume''
              [(''action'', VStr action), (''resource_id'', VStr resource_id)]
              (s\<lparr>st_approvals := dict_set (H token) (a\<lparr>ap_used := Some now\<rparr>) (st_approvals s)\<rparr>))
          else (False, s))"

definition revoke_approval :: "(string \<Rightarrow> string) \<Rightarrow> rat \<Rightarrow> string \<Rightarrow> store \<Rightarrow> bool \<times> store" where
  "revoke_approval H now token s =
     (case dict_get (H token) (st_approvals s) of
        None \<Rightarrow> (False, s)
      | Some a \<Rightarrow>
          if ap_used a = None
          then (True, log_action now ''local_user'' ''approval.revoke'' []
            (s\<lparr>st_approvals := dict_set (H token) (a\<lparr>ap_used := Some now\<rparr>) (st_approvals s)\<rparr>))
          else (False, s))"

section \<open>Reading records of older versions\<close>

text \<open>The Russian default texts, as UTF-8 bytes.\<close>

definition txt_historic_run :: string where
  "txt_historic_run = [CHR 0xD0, CHR 0x98, CHR 0xD1, CHR 0x81, CHR 0xD1, CHR 0x82, CHR 0xD0, CHR 0xBE, CHR 0xD1, CHR 0x80, CHR 0xD0, CHR 0xB8, CHR 0xD1, CHR 0x87, CHR 0xD0, CHR 0xB5, CHR 0xD1, CHR 0x81, CHR 0xD0, CHR 0xBA, CHR 0xD0, CHR 0xB8, CHR 0xD0, CHR 0xB9, CHR 0x20, CHR 0xD0, CHR 0xB7, CHR 0xD0, CHR 0xB0, CHR 0xD0, CHR 0xBF, CHR 0xD1, CHR 0x83, CHR 0xD1, CHR 0x81, CHR 0xD0, CHR 0xBA]"

definition txt_imported :: string where
  "txt_imported = [CHR 0xD0, CHR 0x98, CHR 0xD0, CHR 0xBC, CHR 0xD0, CHR 0xBF, CHR 0xD0, CHR 0xBE, CHR 0xD1, CHR 0x80, CHR 0xD1, CHR 0x82, CHR 0xD0, CHR 0xB8, CHR 0xD1, CHR 0x80, CHR 0xD0, CHR 0xBE, CHR 0xD0, CHR 0xB2, CHR 0xD0, CHR 0xB0, CHR 0xD0, CHR 0xBD, CHR 0xD0, CHR 0xBE, CHR 0x20, CHR 0xD0, CHR 0xB8, CHR 0xD0, CHR 0xB7, CHR 0x20, CHR 0x4B, CHR 0x65, CHR 0x72, CHR 0x6E, CHR 0x65, CHR 0x6C, CHR 0x79, CHR 0x72, CHR 0x61, CHR 0x20, CHR 0x30, CHR 0x2E, CHR 0x31]"

definition txt_new_model :: string where
  "txt_new_model = [CHR 0xD0, CHR 0x9D, CHR 0xD0, CHR 0xBE, CHR 0xD0, CHR 0xB2, CHR 0xD0, CHR 0xB0, CHR 0xD1, CHR 0x8F, CHR 0x20, CHR 0xD0, CHR 0xBC, CHR 0xD0, CHR 0xBE, CHR 0xD0, CHR 0xB4, CHR 0xD0, CHR 0xB5, CHR 0xD0, CHR 0xBB, CHR 0xD1, CHR 0x8C]"

definition normalize_defaults :: pydict where
  "normalize_defaults =
    [(''backend'', VStr ''tensorflow''), (''effective_backend'', VNone),
     (''objective'', VStr ''binary_classification''), (''batch_mode'', VStr ''auto''),
     (''batch_size'', VInt 32), (''batch_min'', VInt 8), (''batch_max'', VInt 64),
     (''batch_risk'', VStr ''safe''), (''batch_reason'', VStr txt_historic_run),
     (''batch_warnings'', VList []), (''batch_adjustments'', VInt 0), (''samples_seen'', VInt 0),
     (''eval_count'', VInt 0), (''best_step'', VInt 0), (''base_run_id'', VNone),
     (''model_path'', VNone), (''stop_requested'', VBool False), (''paused'', VBool False),
     (''seed'', VInt 42), (''learning_rate'', VNone), (''weight_decay'', VFloat (Fin 0)),
     (''hidden_layers'', VList []), (''architecture'', VStr ''auto''),
     (''model_format'', VStr ''auto''), (''precision'', VStr ''auto''), (''data_workers'', VInt 0),
     (''prefetch'', VInt 1), (''evaluation_interval'', VNone),
     (''min_improvement'', VFloat (to_float (5 / 10000))),
     (''degradation_margin'', VFloat (to_float (3 / 100))), (''degradation_patience'', VInt 3),
     (''early_stopping_patience'', VInt 18), (''target_patience'', VInt 3),
     (''data_contract'', VDict []), (''split_policy'', VDict []), (''chunk_policy'', VDict [])]"

definition run_info_fields :: "string list" where
  "run_info_fields =
    [''id'', ''name'', ''dataset'', ''backend'', ''effective_backend'', ''objective'',
     ''architecture'', ''model_format'', ''mode'', ''profile'', ''execution'', ''algorithm_pack'',
     ''priority'', ''target_score'', ''batch_mode'', ''batch_size'', ''batch_min'', ''batch_max'',
     ''batch_risk'', ''batch_reason'', ''batch_warnings'', ''max_steps'', ''cpu'', ''ram'', ''gpu'',
     ''threads'', ''base_run_id'', ''model_path'', ''seed'', ''learning_rate'', ''weight_decay'',
     ''hidden_layers'', ''precision'', ''data_workers'', ''prefetch'', ''evaluation_interval'',
     ''min_improvement'', ''degradation_margin'', ''degradation_patience'',
     ''early_stopping_patience'', ''target_patience'', ''data_contract'', ''split_policy'',
     ''chunk_policy'', ''status'', ''step'', ''best_score'', ''best_step'', ''loss'',
     ''samples_seen'', ''eval_count'', ''batch_adjustments'', ''message'', ''stop_requested'',
     ''paused'', ''metrics'', ''termination_reason'', ''worker_protocol'', ''worker_pid'',
     ''resource_enforcement'', ''environment_manifest'', ''checkpoint'', ''created_at'']"

text \<open>The fields of \<open>RunInfo\<close> without a class default, which the constructor call needs.\<close>

definition run_info_required :: "string list" where
  "run_info_required = take 26 run_info_fields"

definition dict_setdefault :: "string \<Rightarrow> pyval \<Rightarrow> pydict \<Rightarrow> pydict" where
  "dict_setdefault k v d = (case dict_get k d of None \<Rightarrow> dict_set k v d | Some _ \<Rightarrow> d)"

definition dict_merge :: "pydict \<Rightarrow> pydict \<Rightarrow> pydict" where
  "dict_merge a b = fold (\<lambda>(k, v). dict_set k v) b a"

definition pack_for_old_profile :: "pyval option \<Rightarrow> string" where
  "pack_for_old_profile p =
     (case p of
        Some (VStr x) \<Rightarrow>
          if x = ''eco'' then ''careful'' else if x = ''low-memory'' then ''careful''
          else if x = ''performance'' then ''throughput'' else if x = ''workstation'' then ''maximum''
          else ''balanced''
      | _ \<Rightarrow> ''balanced'')"

definition normalize_run :: "rat \<Rightarrow> pydict \<Rightarrow> pydict" where
  "normalize_run now raw =
     (let m0 = dict_merge normalize_defaults raw;
          legacy = (case dict_get ''target_metric'' m0 of
                      Some v \<Rightarrow> v | None \<Rightarrow> VFloat (to_float (92 / 100)));
          m1 = dict_setdefault ''target_score'' legacy (dict_del ''target_metric'' m0);
          m2 = dict_setdefault ''message'' (VStr txt_imported) m1;
          m3 = dict_setdefault ''created_at'' (VFloat (Fin now)) m2;
          m4 = dict_setdefault ''priority'' (VStr ''normal'') m3;
          m5 = dict_setdefault ''profile'' (VStr ''eco'') m4;
          m6 = dict_setdefault ''execution'' (VStr ''cpu'') m5;
          m7 = dict_setdefault ''algorithm_pack''
                 (VStr (pack_for_old_profile (dict_get ''profile'' m6))) m6;
          m8 = fold (\<lambda>(k, v). dict_setdefault k v)
                 [(''max_steps'', VInt 1000), (''cpu'', VInt 30), (''ram'', VInt 35), (''gpu'', VInt 0),
                  (''threads'', VInt 1), (''mode'', VStr txt_new_model), (''loss'', VFloat (Fin 0)),
                  (''step'', VInt 0), (''best_score'', VFloat (Fin 0))] m7
      in filter (\<lambda>(k, v). k \<in> set run_info_fields) m8)"

section \<open>Lemmas\<close>

interpretation run_rows: keyed_store "\<lambda>k s. dict_get k (st_runs s)"
    "\<lambda>k v s. s\<lparr>st_runs := dict_set k v (st_runs s)\<rparr>" "\<lambda>k s. s\<lparr>st_runs := dict_del k (st_runs s)\<rparr>"
    "\<lambda>s. dict_ok (st_runs s)"
  by unfold_locales (auto simp: dict_get_set dict_get_del dict_ok_set dict_ok_del)

interpretation dataset_rows: keyed_store "\<lambda>k s. dict_get k (st_datasets s)"
    "\<lambda>k v s. s\<lparr>st_datasets := dict_set k v (st_datasets s)\<rparr>"
    "\<lambda>k s. s\<lparr>st_datasets := dict_del k (st_datasets s)\<rparr>" "\<lambda>s. dict_ok (st_datasets s)"
  by unfold_locales (auto simp: dict_get_set dict_get_del dict_ok_set dict_ok_del)

interpretation approval_rows: keyed_store "\<lambda>k s. dict_get k (st_approvals s)"
    "\<lambda>k v s. s\<lparr>st_approvals := dict_set k v (st_approvals s)\<rparr>"
    "\<lambda>k s. s\<lparr>st_approvals := dict_del k (st_approvals s)\<rparr>" "\<lambda>s. dict_ok (st_approvals s)"
  by unfold_locales (auto simp: dict_get_set dict_get_del dict_ok_set dict_ok_del)

lemma get_run_save [simp]:
  "get_run i (save_run now r s) = (if i = r_id r then Some r else get_run i s)"
  using run_rows.get_put [of i "r_id r" "(r, now)" s] by (simp add: get_run_def save_run_def)

lemma get_run_log [simp]: "get_run i (log_action now a w p s) = get_run i s"
  by (simp add: get_run_def log_action_def)

lemma list_runs_log [simp]: "list_runs (log_action now a w p s) = list_runs s"
  by (simp add: list_runs_def log_action_def)

lemma get_run_delete:
  "delete_run j s = Inr s' \<Longrightarrow> get_run i s' = (if i = j then None else get_run i s)"
  by (auto simp: delete_run_def get_run_def dict_get_del split: option.splits)

lemma save_run_frame [simp]:
  "st_log (save_run now r s) = st_log s" "st_next_log (save_run now r s) = st_next_log s"
  "st_approvals (save_run now r s) = st_approvals s" "st_datasets (save_run now r s) = st_datasets s"
  by (simp_all add: save_run_def)

lemma log_action_frame [simp]:
  "st_runs (log_action now a w p s) = st_runs s" "st_approvals (log_action now a w p s) = st_approvals s"
  "st_datasets (log_action now a w p s) = st_datasets s"
  by (simp_all add: log_action_def)

lemma set_list_runs: "set (list_runs s) = (\<lambda>(k, r, t). r) ` set (st_runs s)"
  by (simp add: list_runs_def)

lemma get_run_id: "store_ok s \<Longrightarrow> get_run i s = Some r \<Longrightarrow> r_id r = i"
  by (auto simp: store_ok_def get_run_def dest!: dict_get_Some_in)

lemma in_list_runs_iff: "store_ok s \<Longrightarrow> r \<in> set (list_runs s) \<longleftrightarrow> get_run (r_id r) s = Some r"
proof
  assume ok: "store_ok s" and "r \<in> set (list_runs s)"
  then obtain k t where kt: "(k, r, t) \<in> set (st_runs s)" by (auto simp: set_list_runs)
  with ok have "k = r_id r" by (auto simp: store_ok_def)
  with kt ok have "dict_get (r_id r) (st_runs s) = Some (r, t)"
    by (auto simp: store_ok_def intro: dict_in_get)
  then show "get_run (r_id r) s = Some r" by (simp add: get_run_def)
next
  assume "get_run (r_id r) s = Some r"
  then show "r \<in> set (list_runs s)"
    by (force simp: get_run_def set_list_runs dest!: dict_get_Some_in)
qed

lemma dict_set_set: "set (dict_set k v d) \<subseteq> insert (k, v) (set d)"
  by (induction d) (auto simp: dict_set_def)

lemma dict_del_subset: "set (dict_del k d) \<subseteq> set d"
  by (auto simp: dict_del_def AList.delete_eq)

lemma store_ok_empty: "store_ok empty_store"
  by (simp add: store_ok_def empty_store_def dict_ok_def)

lemma store_ok_save_run: "store_ok s \<Longrightarrow> store_ok (save_run now r s)"
  using dict_set_set [of "r_id r" "(r, now)" "st_runs s"]
  by (fastforce simp: store_ok_def save_run_def dict_ok_set)

lemma store_ok_save_dataset: "store_ok s \<Longrightarrow> store_ok (save_dataset now d s)"
  using dict_set_set [of "d_id d" "(d, now)" "st_datasets s"]
  by (fastforce simp: store_ok_def save_dataset_def dict_ok_set)

lemma store_ok_log: "store_ok s \<Longrightarrow> store_ok (log_action now a w p s)"
  by (fastforce simp: store_ok_def log_action_def sorted_wrt_append)

lemma store_ok_delete_run: "store_ok s \<Longrightarrow> delete_run i s = Inr s' \<Longrightarrow> store_ok s'"
  using dict_del_subset [of i "st_runs s"]
  by (fastforce simp: store_ok_def delete_run_def dict_ok_del split: option.splits)

lemma store_ok_delete_dataset: "store_ok s \<Longrightarrow> delete_dataset i s = Inr s' \<Longrightarrow> store_ok s'"
  using dict_del_subset [of i "st_datasets s"]
  by (fastforce simp: store_ok_def delete_dataset_def dict_ok_del split: option.splits)

lemma store_ok_approval_set:
  "store_ok s \<Longrightarrow> store_ok (s\<lparr>st_approvals := dict_set k v (st_approvals s)\<rparr>)"
  by (simp add: store_ok_def dict_ok_set)

lemma store_ok_issue:
  "store_ok s \<Longrightarrow> issue_approval H now rnd a res ttl actor s = Inr (x, s') \<Longrightarrow> store_ok s'"
  by (auto simp: issue_approval_def Let_def intro!: store_ok_log store_ok_approval_set
           split: option.splits)

lemma store_ok_consume: "store_ok s \<Longrightarrow> store_ok (snd (consume_approval H now tok a res s))"
  by (auto simp: consume_approval_def intro!: store_ok_log store_ok_approval_set split: option.splits)

lemma store_ok_revoke: "store_ok s \<Longrightarrow> store_ok (snd (revoke_approval H now tok s))"
  by (auto simp: revoke_approval_def intro!: store_ok_log store_ok_approval_set split: option.splits)

lemmas store_ok_intros =
  store_ok_save_run store_ok_save_dataset store_ok_log store_ok_consume store_ok_revoke

section \<open>Histories of storage calls\<close>

text \<open>One constructor per method that changes the database; a method that raises rolls its
  transaction back. The result says whether a token was spent, by its hash.\<close>

datatype store_op =
    OpSaveRun rat run_info
  | OpSaveDataset rat dataset_info
  | OpDeleteRun string
  | OpDeleteDataset string
  | OpLog rat string string pydict
  | OpIssue rat string string string int string
  | OpConsume rat string string string
  | OpRevoke rat string

fun exec_op :: "(string \<Rightarrow> string) \<Rightarrow> store_op \<Rightarrow> store \<Rightarrow> string list \<times> store" where
  "exec_op H (OpSaveRun now r) s = ([], save_run now r s)"
| "exec_op H (OpSaveDataset now d) s = ([], save_dataset now d s)"
| "exec_op H (OpDeleteRun i) s = ([], case delete_run i s of Inl e \<Rightarrow> s | Inr s' \<Rightarrow> s')"
| "exec_op H (OpDeleteDataset i) s = ([], case delete_dataset i s of Inl e \<Rightarrow> s | Inr s' \<Rightarrow> s')"
| "exec_op H (OpLog now a w p) s = ([], log_action now a w p s)"
| "exec_op H (OpIssue now rnd a res ttl actor) s =
     ([], case issue_approval H now rnd a res ttl actor s of Inl e \<Rightarrow> s | Inr (_, s') \<Rightarrow> s')"
| "exec_op H (OpConsume now tok a res) s =
     (let (ok, s') = consume_approval H now tok a res s in (if ok then [H tok] else [], s'))"
| "exec_op H (OpRevoke now tok) s =
     (let (ok, s') = revoke_approval H now tok s in (if ok then [H tok] else [], s'))"

fun exec_ops :: "(string \<Rightarrow> string) \<Rightarrow> store_op list \<Rightarrow> store \<Rightarrow> string list \<times> store" where
  "exec_ops H [] s = ([], s)"
| "exec_ops H (x # xs) s =
     (let (u, s1) = exec_op H x s; (us, s2) = exec_ops H xs s1 in (u @ us, s2))"

lemma exec_op_ok: "store_ok s \<Longrightarrow> store_ok (snd (exec_op H x s))"
proof (cases x)
  case (OpConsume now tok a res)
  then show "store_ok s \<Longrightarrow> store_ok (snd (exec_op H x s))"
    using store_ok_consume [of s H now tok a res] by (simp add: case_prod_beta Let_def)
next
  case (OpRevoke now tok)
  then show "store_ok s \<Longrightarrow> store_ok (snd (exec_op H x s))"
    using store_ok_revoke [of s H now tok] by (simp add: case_prod_beta Let_def)
qed (auto intro: store_ok_intros store_ok_delete_run store_ok_delete_dataset store_ok_issue
          split: sum.split)

lemma exec_ops_ok: "store_ok s \<Longrightarrow> store_ok (snd (exec_ops H xs s))"
  using exec_op_ok by (induction xs arbitrary: s) (auto simp: case_prod_beta Let_def)

text \<open>A spent token keeps its mark: no operation clears \<open>used_at\<close> or removes the row.\<close>

definition spent :: "string \<Rightarrow> store \<Rightarrow> bool" where
  "spent h s \<longleftrightarrow> (\<exists>a. dict_get h (st_approvals s) = Some a \<and> ap_used a \<noteq> None)"

lemma approvals_frame [simp]:
  "st_approvals (save_dataset now d s) = st_approvals s"
  "delete_run i s = Inr s' \<Longrightarrow> st_approvals s' = st_approvals s"
  "delete_dataset i s = Inr s' \<Longrightarrow> st_approvals s' = st_approvals s"
  by (auto simp: save_dataset_def delete_run_def delete_dataset_def split: option.splits)

lemma exec_op_spent:
  assumes "exec_op H x s = (u, s')"
  shows "(spent h s \<longrightarrow> u \<noteq> [h] \<and> spent h s') \<and> (u = [h] \<longrightarrow> spent h s') \<and> length u \<le> 1"
proof (cases x)
  case (OpConsume now tok a res)
  with assms show ?thesis
    by (auto simp: consume_approval_def spent_def approval_matches_def dict_get_set
             split: option.splits if_splits)
next
  case (OpRevoke now tok)
  with assms show ?thesis
    by (auto simp: revoke_approval_def spent_def dict_get_set split: option.splits if_splits)
next
  case (OpIssue now rnd a res ttl actor)
  with assms show ?thesis
    by (auto simp: issue_approval_def spent_def Let_def dict_get_set split: sum.splits option.splits)
qed (use assms in \<open>auto simp: spent_def split: sum.splits\<close>)

lemma exec_ops_spent:
  "exec_ops H xs s = (us, s') \<Longrightarrow>
     count_list us h \<le> 1 \<and> (spent h s \<longrightarrow> count_list us h = 0)"
proof (induction xs arbitrary: s us s')
  case Nil
  then show ?case by simp
next
  case (Cons x xs)
  obtain u s1 where 1: "exec_op H x s = (u, s1)" by fastforce
  obtain us2 s2 where 2: "exec_ops H xs s1 = (us2, s2)" by fastforce
  from Cons.prems 1 2 have us: "us = u @ us2" by simp
  note sp = exec_op_spent [OF 1, of h]
  from sp have u: "u = [] \<or> (\<exists>g. u = [g])" by (cases u) auto
  from Cons.IH [OF 2] us u sp show ?case by (auto split: if_splits)
qed

section \<open>Following the action log\<close>

text \<open>The event stream of the server (\<open>GET /api/v1/events\<close>): read a page of at most 100 events
  after the last seen id, emit it, and continue from its last id, until a page is empty.\<close>

function stream_events :: "int \<Rightarrow> store \<Rightarrow> log_entry list" where
  "stream_events last_id s =
     (let page = events_since last_id 100 s
      in if page = [] then [] else page @ stream_events (log_id (last page)) s)"
  by pat_completeness auto
termination
proof (relation "measure (\<lambda>(i, s). length (filter (\<lambda>e. max 0 i < log_id e) (st_log s)))", simp)
  fix i :: int and s :: store and page
  assume page: "page = events_since i 100 s" "page \<noteq> []"
  then have "last page \<in> set (filter (\<lambda>e. max 0 i < log_id e) (st_log s))"
    unfolding events_since_def using last_in_set in_set_takeD by metis
  then have l: "last page \<in> set (st_log s)" "max 0 i < log_id (last page)" by auto
  have "length (filter (\<lambda>e. max 0 (log_id (last page)) < log_id e) (st_log s))
      < length (filter (\<lambda>e. max 0 i < log_id e) (st_log s))"
    by (rule length_filter_strict [where y = "last page"]) (use l in auto)
  then show "((log_id (last page), s), (i, s))
      \<in> measure (\<lambda>(i, s). length (filter (\<lambda>e. max 0 i < log_id e) (st_log s)))"
    by simp
qed

declare stream_events.simps [simp del]

lemma sorted_page_split:
  assumes "sorted_wrt (\<lambda>a b. log_id a < log_id b) xs" and "take n xs \<noteq> []"
  shows "filter (\<lambda>e. log_id (last (take n xs)) < log_id e) xs = drop n xs"
proof -
  let ?p = "take n xs"
  have app: "sorted_wrt (\<lambda>a b. log_id a < log_id b) (?p @ drop n xs)" using assms(1) by simp
  have "filter (\<lambda>e. log_id (last ?p) < log_id e) ?p = []"
  proof -
    have "\<forall>e \<in> set ?p. log_id e \<le> log_id (last ?p)"
    proof
      fix e assume e: "e \<in> set ?p"
      have sw: "sorted_wrt (\<lambda>a b. log_id a < log_id b) (butlast ?p @ [last ?p])"
        using app assms(2) by (simp add: sorted_wrt_append)
      from e assms(2) have "e \<in> set (butlast ?p) \<or> e = last ?p"
        by (metis append_butlast_last_id in_set_conv_decomp Un_iff empty_iff empty_set set_ConsD set_append)
      with sw show "log_id e \<le> log_id (last ?p)" by (auto simp: sorted_wrt_append)
    qed
    then show ?thesis by (auto simp: filter_empty_conv)
  qed
  moreover have "filter (\<lambda>e. log_id (last ?p) < log_id e) (drop n xs) = drop n xs"
  proof -
    from app have "\<forall>x \<in> set ?p. \<forall>y \<in> set (drop n xs). log_id x < log_id y"
      unfolding sorted_wrt_append by blast
    with last_in_set [OF assms(2)] show ?thesis by (simp only: filter_id_conv) blast
  qed
  ultimately have "filter (\<lambda>e. log_id (last ?p) < log_id e) (?p @ drop n xs) = drop n xs"
    by (simp only: filter_append append_Nil)
  then show ?thesis by simp
qed

lemma stream_events_all:
  "store_ok s \<Longrightarrow> stream_events i s = filter (\<lambda>e. max 0 i < log_id e) (st_log s)"
proof (induction i s rule: stream_events.induct)
  case (1 i s)
  let ?all = "filter (\<lambda>e. max 0 i < log_id e) (st_log s)"
  let ?page = "events_since i 100 s"
  have pg: "?page = take 100 ?all" by (simp add: events_since_def)
  show ?case
  proof (cases "?page = []")
    case True
    with pg have "?all = []" by (simp add: take_eq_Nil)
    with True show ?thesis by (simp add: stream_events.simps [of i s])
  next
    case False
    have sw: "sorted_wrt (\<lambda>a b. log_id a < log_id b) ?all"
      using "1.prems" by (simp add: store_ok_def sorted_wrt_filter)
    have l: "max 0 i < log_id (last ?page)"
      using last_in_set [OF False] by (auto simp: pg dest: in_set_takeD)
    have "filter (\<lambda>e. max 0 (log_id (last ?page)) < log_id e) (st_log s)
        = filter (\<lambda>e. log_id (last ?page) < log_id e) ?all"
      using l by (auto simp: filter_filter intro!: filter_cong)
    also have "\<dots> = drop 100 ?all"
      using sorted_page_split [OF sw, of 100] False by (simp add: pg)
    finally have "stream_events (log_id (last ?page)) s = drop 100 ?all"
      using "1.IH" [OF refl False "1.prems"] by simp
    then have "stream_events i s = ?page @ drop 100 ?all"
      using False by (simp add: stream_events.simps [of i s])
    then show ?thesis by (simp only: pg append_take_drop_id)
  qed
qed

section \<open>Where approvals come from\<close>

text \<open>Every token row was issued by an operation of the history, and is unspent exactly when its
  hash is not among the spent ones.\<close>

definition issued_by :: "(string \<Rightarrow> string) \<Rightarrow> store_op \<Rightarrow> string \<Rightarrow> approval \<Rightarrow> bool" where
  "issued_by H x h a \<longleftrightarrow> (\<exists>t rnd ttl actor.
     x = OpIssue t rnd (ap_action a) (ap_resource a) ttl actor \<and> H (''tfap_'' @ rnd) = h \<and>
     ap_expires a = t + of_int (max 30 (min 3600 ttl)))"

definition approvals_from :: "(string \<Rightarrow> string) \<Rightarrow> store_op list \<Rightarrow> string list \<Rightarrow> store \<Rightarrow> bool" where
  "approvals_from H ops us s \<longleftrightarrow> (\<forall>h a. dict_get h (st_approvals s) = Some a \<longrightarrow>
     (\<exists>x \<in> set ops. issued_by H x h a) \<and> (h \<in> set us \<longrightarrow> ap_used a \<noteq> None))
   \<and> (\<forall>h \<in> set us. dict_get h (st_approvals s) \<noteq> None)"

lemma issued_by_used [simp]: "issued_by H x h (a\<lparr>ap_used := u\<rparr>) = issued_by H x h a"
  by (simp add: issued_by_def)

lemma issued_by_issue:
  "issued_by H (OpIssue now rnd a res ttl actor) (H (''tfap_'' @ rnd))
     \<lparr>ap_action = a, ap_resource = res, ap_expires = now + of_int (max 30 (min 3600 ttl)),
      ap_used = None, ap_created = now\<rparr>"
  by (auto simp: issued_by_def)

lemma approvals_from_step:
  assumes "approvals_from H ops us s" and "exec_op H x s = (u, s')"
  shows "approvals_from H (ops @ [x]) (us @ u) s'"
proof (cases x)
  case (OpIssue now rnd a res ttl actor)
  define h where "h = H (''tfap_'' @ rnd)"
  note new = issued_by_issue [of H now rnd a res ttl actor, folded h_def]
  show ?thesis
  proof (cases "dict_get h (st_approvals s)")
    case None
    with assms(1) have "h \<notin> set us" by (auto simp: approvals_from_def)
    with None OpIssue assms new show ?thesis
      by (auto simp: issue_approval_def Let_def approvals_from_def dict_get_set h_def [symmetric]
          simp del: append.simps split: if_splits) blast
  next
    case (Some b)
    with OpIssue assms show ?thesis
      by (auto simp: issue_approval_def Let_def approvals_from_def h_def)
  qed
next
  case (OpConsume now tok a res)
  with assms show ?thesis
    by (auto simp: consume_approval_def approvals_from_def dict_get_set
             split: option.splits if_splits) blast+
next
  case (OpRevoke now tok)
  with assms show ?thesis
    by (auto simp: revoke_approval_def approvals_from_def dict_get_set
             split: option.splits if_splits) blast+
qed (use assms in \<open>auto simp: approvals_from_def split: sum.splits\<close>)

lemma exec_ops_approvals_from:
  "approvals_from H ops us s \<Longrightarrow> exec_ops H xs s = (us', s') \<Longrightarrow>
     approvals_from H (ops @ xs) (us @ us') s'"
proof (induction xs arbitrary: ops us s us' s')
  case (Cons x xs)
  obtain u s1 where 1: "exec_op H x s = (u, s1)" by fastforce
  obtain us2 s2 where 2: "exec_ops H xs s1 = (us2, s2)" by fastforce
  from Cons.IH [OF approvals_from_step [OF Cons.prems(1) 1] 2] Cons.prems(2) 1 2
  show ?case by simp
qed simp

lemma approvals_from_empty: "approvals_from H [] [] empty_store"
  by (simp add: approvals_from_def empty_store_def dict_get_def)

section \<open>Lookups in normalised records\<close>

lemma dict_get_setdefault:
  "dict_get k (dict_setdefault j v d) =
     (case dict_get k d of Some x \<Rightarrow> Some x | None \<Rightarrow> if k = j then Some v else None)"
  by (auto simp: dict_setdefault_def dict_get_set split: option.splits)

lemma dict_ok_setdefault: "dict_ok d \<Longrightarrow> dict_ok (dict_setdefault k v d)"
  by (simp add: dict_setdefault_def dict_ok_set split: option.split)

lemma dict_get_filter:
  "dict_get k (filter (\<lambda>(j, v). j \<in> S) d) = (if k \<in> S then dict_get k d else None)"
  by (induction d) auto

lemma dict_ok_filter: "dict_ok d \<Longrightarrow> dict_ok (filter P d)"
  unfolding dict_ok_def by (rule distinct_map_filter)

lemma dict_get_merge:
  "dict_ok b \<Longrightarrow> dict_get k (dict_merge a b) =
     (case dict_get k b of Some v \<Rightarrow> Some v | None \<Rightarrow> dict_get k a)"
proof (induction b arbitrary: a)
  case Nil
  then show ?case by (simp add: dict_merge_def)
next
  case (Cons p b)
  obtain j w where p: "p = (j, w)" by fastforce
  from Cons.prems p have "dict_ok b" and "dict_get j b = None"
    by (auto simp: dict_ok_def dict_get_def map_of_eq_None_iff)
  with Cons.IH [of "dict_set j w a"] p show ?case
    by (auto simp: dict_merge_def dict_get_set split: option.splits)
qed

lemma dict_ok_merge: "dict_ok a \<Longrightarrow> dict_ok (dict_merge a b)"
  by (induction b arbitrary: a) (auto simp: dict_merge_def dict_ok_set)

lemma dict_get_setdefaults:
  "dict_get k (fold (\<lambda>(j, v). dict_setdefault j v) xs d) =
     (case dict_get k d of Some x \<Rightarrow> Some x | None \<Rightarrow> dict_get k xs)"
  by (induction xs arbitrary: d) (auto simp: dict_get_setdefault split: option.splits)

lemma dict_ok_setdefaults: "dict_ok d \<Longrightarrow> dict_ok (fold (\<lambda>(j, v). dict_setdefault j v) xs d)"
  by (induction xs arbitrary: d) (auto simp: dict_ok_setdefault)

lemma normalize_defaults_misses:
  "dict_get ''target_metric'' normalize_defaults = None"
  "dict_get ''profile'' normalize_defaults = None"
  by (simp_all add: normalize_defaults_def)

definition normalize_tail :: "rat \<Rightarrow> pydict \<Rightarrow> pydict" where
  "normalize_tail now raw =
     [(''target_score'', case dict_get ''target_metric'' raw of
         Some v \<Rightarrow> v | None \<Rightarrow> VFloat (to_float (92 / 100))),
      (''message'', VStr txt_imported), (''created_at'', VFloat (Fin now)),
      (''priority'', VStr ''normal''), (''profile'', VStr ''eco''), (''execution'', VStr ''cpu''),
      (''algorithm_pack'', VStr (pack_for_old_profile (case dict_get ''profile'' raw of
         Some v \<Rightarrow> Some v | None \<Rightarrow> Some (VStr ''eco'')))),
      (''max_steps'', VInt 1000), (''cpu'', VInt 30), (''ram'', VInt 35), (''gpu'', VInt 0),
      (''threads'', VInt 1), (''mode'', VStr txt_new_model), (''loss'', VFloat (Fin 0)),
      (''step'', VInt 0), (''best_score'', VFloat (Fin 0))]"

text \<open>The value a field takes when the stored record lacks it.\<close>

definition normalize_extra :: "rat \<Rightarrow> pydict \<Rightarrow> string \<Rightarrow> pyval option" where
  "normalize_extra now raw k =
     (case dict_get k normalize_defaults of Some v \<Rightarrow> Some v | None \<Rightarrow>
        dict_get k (normalize_tail now raw))"

lemma normalize_run_fold:
  assumes "dict_ok raw"
  shows "normalize_run now raw = filter (\<lambda>(k, v). k \<in> set run_info_fields)
    (fold (\<lambda>(k, v). dict_setdefault k v) (normalize_tail now raw)
       (dict_del ''target_metric'' (dict_merge normalize_defaults raw)))"
proof -
  have tm: "dict_get ''target_metric'' (dict_merge normalize_defaults raw) = dict_get ''target_metric'' raw"
    by (simp add: dict_get_merge [OF assms] normalize_defaults_misses split: option.split)
  have pr: "dict_get ''profile'' (dict_merge normalize_defaults raw) = dict_get ''profile'' raw"
    by (simp add: dict_get_merge [OF assms] normalize_defaults_misses split: option.split)
  show ?thesis
    by (cases "dict_get ''profile'' raw")
      (simp_all add: normalize_run_def normalize_tail_def Let_def tm dict_get_setdefault dict_get_del pr)
qed

lemma normalize_run_lookup:
  assumes "dict_ok raw"
  shows "dict_get k (normalize_run now raw) =
    (if k \<in> set run_info_fields
     then (case dict_get k raw of Some v \<Rightarrow> Some v | None \<Rightarrow> normalize_extra now raw k) else None)"
proof -
  have "''target_metric'' \<notin> set run_info_fields" by (simp add: run_info_fields_def)
  then show ?thesis
    unfolding normalize_run_fold [OF assms] dict_get_filter dict_get_setdefaults
    by (auto simp: dict_get_del dict_get_merge [OF assms] normalize_extra_def split: option.split)
qed

lemma normalize_run_ok: "dict_ok raw \<Longrightarrow> dict_ok (normalize_run now raw)"
proof -
  assume "dict_ok raw"
  have "dict_ok normalize_defaults" by (simp add: dict_ok_def normalize_defaults_def)
  then show ?thesis unfolding normalize_run_def Let_def
    by (intro dict_ok_filter dict_ok_setdefaults dict_ok_setdefault dict_ok_del dict_ok_merge)
qed

lemma run_info_required_subset: "set run_info_required \<subseteq> set run_info_fields"
  unfolding run_info_required_def by (rule set_take_subset)

lemma normalize_extra_required:
  "k \<in> set run_info_required \<Longrightarrow> k \<notin> {''id'', ''name'', ''dataset''} \<Longrightarrow>
     normalize_extra now raw k \<noteq> None"
  by (auto simp: run_info_required_def run_info_fields_def normalize_extra_def
        normalize_defaults_def normalize_tail_def)

lemma normalize_extra_None:
  "normalize_extra now raw k = None \<longleftrightarrow> normalize_extra now' raw' k = None"
  unfolding normalize_extra_def normalize_tail_def by (simp split: option.split)

section \<open>Properties\<close>

text \<open>After any history of storage calls from an empty database, every row is stored under
  its own id, keys are unique and the log ids ascend strictly below the next id.\<close>

theorem storage_invariant: "store_ok (snd (exec_ops H ops empty_store))"
  by (rule exec_ops_ok [OF store_ok_empty])

text \<open>A run row reads back as the last record saved under its id, other rows are untouched by
  a save, deleting removes exactly one row and raises \<open>KeyError\<close> when there is none, and the
  listing holds exactly the stored runs.\<close>

theorem run_table_correct:
  "get_run i (save_run now r s) = (if i = r_id r then Some r else get_run i s) \<and>
   (case delete_run j s of
      Inl e \<Rightarrow> e = KeyError \<and> get_run j s = None
    | Inr s' \<Rightarrow> get_run j s \<noteq> None \<and> get_run i s' = (if i = j then None else get_run i s)) \<and>
   set (list_runs (snd (exec_ops H ops empty_store)))
     = {q. get_run (r_id q) (snd (exec_ops H ops empty_store)) = Some q}"
  using in_list_runs_iff [OF exec_ops_ok [OF store_ok_empty, of H ops]]
  by (auto simp: delete_run_def get_run_def dict_get_del save_run_def dict_get_set
           split: option.splits sum.splits)

text \<open>C7: An approval token is spent at most once: in any history of storage calls, from any
  database, at most one consume or revoke of a given token hash succeeds.\<close>

theorem approval_single_use: "count_list (fst (exec_ops H ops s)) h \<le> 1"
  using exec_ops_spent [of H ops s "fst (exec_ops H ops s)" "snd (exec_ops H ops s)" h] by simp

text \<open>A consume succeeds only for a token that an earlier call issued for exactly this action
  and resource, within the clamped lifetime of that call, and that no earlier call spent.\<close>

theorem approval_consume_sound:
  assumes "exec_ops H ops empty_store = (us, s)"
    and "fst (consume_approval H now tok action resource_id s)"
  shows "H tok \<notin> set us \<and> (\<exists>t rnd ttl actor.
    OpIssue t rnd action resource_id ttl actor \<in> set ops \<and> H (''tfap_'' @ rnd) = H tok \<and>
    now \<le> t + of_int (max 30 (min 3600 ttl)))"
proof -
  from exec_ops_approvals_from [OF approvals_from_empty assms(1)]
  have af: "approvals_from H ops us s" by simp
  from assms(2) obtain a where a: "dict_get (H tok) (st_approvals s) = Some a"
    "approval_matches now action resource_id a"
    by (auto simp: consume_approval_def split: option.splits if_splits)
  with af show ?thesis
    by (fastforce simp: approvals_from_def approval_matches_def issued_by_def)
qed

theorem approval_consume_sound_witness:
  "''ab'' \<notin> set [] \<and> (\<exists>t rnd ttl actor.
     OpIssue t rnd ''run.start'' ''r1'' ttl actor \<in> set [OpIssue 100 ''x'' ''run.start'' ''r1'' 5 ''cli'']
     \<and> drop 5 (''tfap_'' @ rnd) = ''x'' \<and> 120 \<le> t + rat_of_int (max 30 (min 3600 ttl)))"
  using approval_consume_sound [of "drop 5" "[OpIssue 100 ''x'' ''run.start'' ''r1'' 5 ''cli'']" "[]"
    "snd (exec_ops (drop 5) [OpIssue 100 ''x'' ''run.start'' ''r1'' 5 ''cli''] empty_store)"
    120 "''tfap_x''" "''run.start''" "''r1''"]
  by (simp add: issue_approval_def empty_store_def consume_approval_def approval_matches_def
        log_action_def dict_set_def)


text \<open>Normalising a stored record yields distinct keys, all of them fields of
  \<open>RunInfo\<close>, keeps every field the record has, supplies every required field but the id, the name
  and the dataset, and changes nothing when applied again.\<close>

theorem normalize_run_complete:
  assumes "dict_ok raw"
  shows "dict_ok (normalize_run now raw) \<and>
    set (dict_keys (normalize_run now raw)) \<subseteq> set run_info_fields \<and>
    (\<forall>k \<in> set run_info_fields. \<forall>v. dict_get k raw = Some v \<longrightarrow>
       dict_get k (normalize_run now raw) = Some v) \<and>
    (\<forall>k \<in> set run_info_required - {''id'', ''name'', ''dataset''}.
       dict_get k (normalize_run now raw) \<noteq> None) \<and>
    (\<forall>k. dict_get k (normalize_run now' (normalize_run now raw)) = dict_get k (normalize_run now raw))"
proof (intro conjI ballI allI impI)
  show ok: "dict_ok (normalize_run now raw)" by (rule normalize_run_ok [OF assms])
  show "set (dict_keys (normalize_run now raw)) \<subseteq> set run_info_fields"
    by (auto simp: normalize_run_def Let_def dict_keys_def)
  show "dict_get k (normalize_run now raw) = Some v"
    if "k \<in> set run_info_fields" and "dict_get k raw = Some v" for k v
    using that by (simp add: normalize_run_lookup [OF assms])
  show "dict_get k (normalize_run now raw) \<noteq> None"
    if "k \<in> set run_info_required - {''id'', ''name'', ''dataset''}" for k
    using that run_info_required_subset normalize_extra_required [of k now raw]
    by (auto simp: normalize_run_lookup [OF assms] split: option.split)
  show "dict_get k (normalize_run now' (normalize_run now raw)) = dict_get k (normalize_run now raw)"
    for k
    using normalize_extra_None [of now' "normalize_run now raw" k now raw]
    by (auto simp: normalize_run_lookup [OF ok] normalize_run_lookup [OF assms] split: option.splits)
qed

theorem normalize_run_complete_witness:
  "dict_get ''status'' (normalize_run 7 [(''id'', VStr ''a''), (''status'', VStr ''paused'')])
     = Some (VStr ''paused'') \<and>
   dict_get ''cpu'' (normalize_run 7 [(''id'', VStr ''a''), (''status'', VStr ''paused'')]) \<noteq> None"
proof -
  let ?raw = "[(''id'', VStr ''a''), (''status'', VStr ''paused'')]"
  have ok: "dict_ok ?raw" by (simp add: dict_ok_def)
  have "''status'' \<in> set run_info_fields" "''cpu'' \<in> set run_info_required"
    by (simp_all add: run_info_fields_def run_info_required_def)
  then show ?thesis using normalize_run_complete [OF ok, of 7] by simp
qed

end
