(* ===== verification/Runtime.thy ===== *)
theory Runtime imports Storage "HOL-Library.Product_Lexorder" begin

text \<open>
  The control plane of \<open>src/src/kernelyra/runtime.py\<close>: the run commands, the scheduler, shutdown and
  restart, the end of a worker thread, the progress saves of a worker, GPU rebalancing, with
  creation and removal of runs (\<open>workspace.py\<close>). Every method that holds the runtime lock is one
  state transformer. A thread is its entry in \<open>threads\<close> with its liveness; the \<open>RunInfo\<close> object a
  worker thread works on is its entry in \<open>copies\<close>.
\<close>

section \<open>State\<close>

record control =
  ctl_pause :: bool
  ctl_stop :: bool

definition no_control :: control where
  "no_control = \<lparr>ctl_pause = False, ctl_stop = False\<rparr>"

record rt =
  rt_store :: store
  rt_threads :: "(string, bool) dict"
  rt_controls :: "(string, control) dict"
  rt_copies :: "(string, run_info) dict"
  rt_scheduler :: bool
  rt_closing :: bool
  rt_lock_held :: bool

definition rt_new :: "store \<Rightarrow> rt" where
  "rt_new s = \<lparr>rt_store = s, rt_threads = [], rt_controls = [], rt_copies = [],
               rt_scheduler = False, rt_closing = False, rt_lock_held = False\<rparr>"

definition rt_save :: "rat \<Rightarrow> run_info \<Rightarrow> rt \<Rightarrow> rt" where
  "rt_save now r s = s\<lparr>rt_store := save_run now r (rt_store s)\<rparr>"

definition rt_log :: "rat \<Rightarrow> string \<Rightarrow> string \<Rightarrow> pydict \<Rightarrow> rt \<Rightarrow> rt" where
  "rt_log now actor action payload s = s\<lparr>rt_store := log_action now actor action payload (rt_store s)\<rparr>"

definition rt_run :: "string \<Rightarrow> rt \<Rightarrow> run_info option" where
  "rt_run i s = get_run i (rt_store s)"

definition thread_alive :: "string \<Rightarrow> rt \<Rightarrow> bool" where
  "thread_alive i s = (dict_get i (rt_threads s) = Some True)"

definition set_control :: "string \<Rightarrow> control \<Rightarrow> rt \<Rightarrow> rt" where
  "set_control i c s = s\<lparr>rt_controls := dict_set i c (rt_controls s)\<rparr>"

text \<open>\<open>controls.setdefault(id, ...)\<close>, the entry it returns.\<close>

definition control_of :: "string \<Rightarrow> rt \<Rightarrow> control" where
  "control_of i s = (case dict_get i (rt_controls s) of None \<Rightarrow> no_control | Some c \<Rightarrow> c)"

section \<open>Start and shutdown\<close>

definition acquire_scheduler_lock :: "bool \<Rightarrow> rt \<Rightarrow> (kerror + unit) \<times> rt" where
  "acquire_scheduler_lock lock_free s =
     (if rt_lock_held s then (Inr (), s)
      else if lock_free then (Inr (), s\<lparr>rt_lock_held := True\<rparr>)
      else (Inl ConfigurationError, s))"

definition release_scheduler_lock :: "rt \<Rightarrow> rt" where
  "release_scheduler_lock s = s\<lparr>rt_lock_held := False\<rparr>"

definition recover_run :: "run_info \<Rightarrow> run_info" where
  "recover_run r = r\<lparr>r_status := Error_Recoverable, r_paused := True,
     r_termination_reason := Some ''daemon_restart'', r_worker_pid := None, r_message := MsgRestarted\<rparr>"

definition recover_one :: "rat \<Rightarrow> run_info \<Rightarrow> rt \<Rightarrow> rt" where
  "recover_one now r s =
     (if r_status r \<in> {Training, Queued, Pausing, Stopping} then rt_save now (recover_run r) s else s)"

definition rt_start :: "rat \<Rightarrow> bool \<Rightarrow> rt \<Rightarrow> (kerror + unit) \<times> rt" where
  "rt_start now lock_free s =
     (if rt_scheduler s then (Inr (), s) else
      case acquire_scheduler_lock lock_free s of
        (Inl e, s') \<Rightarrow> (Inl e, s')
      | (Inr _, s') \<Rightarrow>
          (Inr (), (fold (recover_one now) (list_runs (rt_store s')) s')
                     \<lparr>rt_closing := False, rt_scheduler := True\<rparr>))"

definition close_one :: "rat \<Rightarrow> string \<Rightarrow> rt \<Rightarrow> rt" where
  "close_one now i s =
     (let s' = set_control i ((control_of i s)\<lparr>ctl_pause := True\<rparr>) s
      in case rt_run i s' of
           None \<Rightarrow> s'
         | Some r \<Rightarrow>
             if r_status r = Training
             then rt_save now (r\<lparr>r_status := Pausing, r_paused := True, r_message := MsgClosing\<rparr>) s'
             else s')"

text \<open>\<open>close\<close> up to the joins, and after them: \<open>ids\<close> are the threads it waited for.\<close>

definition close_begin :: "rat \<Rightarrow> rt \<Rightarrow> rt" where
  "close_begin now s = fold (close_one now) (dict_keys (rt_threads s)) (s\<lparr>rt_closing := True\<rparr>)"

definition close_end :: "rat \<Rightarrow> string list \<Rightarrow> rt \<Rightarrow> bool \<times> rt" where
  "close_end now ids s =
     (let alive = filter (\<lambda>i. thread_alive i s) ids
      in if alive \<noteq> []
         then (False, rt_log now ''runtime'' ''shutdown.blocked''
                [(''alive_workers'', VList (map (\<lambda>i. VStr (''kernelyra-run-'' @ i)) alive)),
                 (''lock_released'', VBool False)] s)
         else (True, release_scheduler_lock s))"

text \<open>The scheduler thread leaves its loop once \<open>_closing\<close> is set.\<close>

definition scheduler_exit :: "rt \<Rightarrow> rt" where
  "scheduler_exit s = s\<lparr>rt_scheduler := False\<rparr>"

section \<open>Commands\<close>

definition state_error :: "run_info \<Rightarrow> string \<Rightarrow> run_status list \<Rightarrow> kerror" where
  "state_error r cmd allowed = RunStateError (r_id r) cmd (r_status r) allowed"

definition resume_allowed :: "run_status list" where
  "resume_allowed = [Paused, Stopped, Error_Recoverable]"

definition stop_allowed :: "run_status list" where
  "stop_allowed = [Draft, Queued, Training, Pausing, Paused, Error_Recoverable]"

definition enqueue :: "run_message \<Rightarrow> run_info \<Rightarrow> run_info" where
  "enqueue msg r = r\<lparr>r_stop_requested := False, r_paused := False, r_status := Queued, r_message := msg\<rparr>"

definition command_done :: "rat \<Rightarrow> string \<Rightarrow> string \<Rightarrow> run_info \<Rightarrow> rt \<Rightarrow> (kerror + run_info) \<times> rt" where
  "command_done now actor cmd r s =
     (Inr r, rt_log now actor (''run.'' @ cmd)
        [(''run_id'', VStr (r_id r)), (''status'', VStr (status_value (r_status r)))] (rt_save now r s))"

definition command_queue ::
  "rat \<Rightarrow> bool \<Rightarrow> string \<Rightarrow> string \<Rightarrow> run_message \<Rightarrow> run_info \<Rightarrow> rt \<Rightarrow> (kerror + run_info) \<times> rt" where
  "command_queue now lock_free actor cmd msg r s =
     (case rt_start now lock_free (set_control (r_id r) no_control s) of
        (Inl e, s') \<Rightarrow> (Inl e, s')
      | (Inr _, s') \<Rightarrow> command_done now actor cmd (enqueue msg r) s')"

definition rt_command ::
  "rat \<Rightarrow> bool \<Rightarrow> string \<Rightarrow> string \<Rightarrow> string \<Rightarrow> rt \<Rightarrow> (kerror + run_info) \<times> rt" where
  "rt_command now lock_free actor run_id cmd s =
     (case rt_run run_id s of
        None \<Rightarrow> (Inl RunError, s)
      | Some r \<Rightarrow>
          if cmd = ''start'' \<and> r_status r \<in> {Queued, Training}
          then (Inr r, rt_log now actor ''run.start.idempotent''
                  [(''run_id'', VStr (r_id r)), (''status'', VStr (status_value (r_status r)))] s)
          else if cmd = ''start''
          then if r_status r \<noteq> Draft then (Inl (state_error r cmd [Draft]), s)
               else command_queue now lock_free actor cmd MsgWaitingSlot r s
          else if cmd = ''resume''
          then if r_status r \<notin> set resume_allowed then (Inl (state_error r cmd resume_allowed), s)
               else command_queue now lock_free actor cmd MsgResumeQueued r s
          else if cmd = ''pause''
          then if r_status r \<in> {Pausing, Paused} then (Inr r, s)
               else if r_status r \<notin> {Queued, Training}
               then (Inl (state_error r cmd [Queued, Training]), s)
               else let alive = thread_alive (r_id r) s
                    in command_done now actor cmd
                         (r\<lparr>r_paused := True, r_status := (if alive then Pausing else Paused),
                            r_message := (if alive then MsgPauseRequested else MsgPausedNow)\<rparr>)
                         (set_control (r_id r) ((control_of (r_id r) s)\<lparr>ctl_pause := True\<rparr>) s)
          else if cmd = ''stop''
          then if r_status r \<in> {Stopping, Stopped} then (Inr r, s)
               else if r_status r \<notin> set stop_allowed then (Inl (state_error r cmd stop_allowed), s)
               else let alive = thread_alive (r_id r) s
                    in command_done now actor cmd
                         (r\<lparr>r_stop_requested := True, r_paused := True,
                            r_status := (if alive then Stopping else Stopped),
                            r_message := (if alive then MsgStopRequested else MsgStoppedNow)\<rparr>)
                         (set_control (r_id r) ((control_of (r_id r) s)\<lparr>ctl_stop := True\<rparr>) s)
          else (Inl RunError, s))"

section \<open>Scheduling\<close>

definition live_ids :: "rt \<Rightarrow> string list" where
  "live_ids s = map fst (filter snd (rt_threads s))"

record usage =
  u_gpu :: int
  u_ram :: int
  u_cpu :: int

definition rt_usage :: "rt \<Rightarrow> usage" where
  "rt_usage s =
     (let active = filter (\<lambda>r. r_id r \<in> set (live_ids s)) (list_runs (rt_store s))
      in \<lparr>u_gpu = sum_list (map r_gpu active), u_ram = sum_list (map r_ram active),
          u_cpu = sum_list (map r_cpu active)\<rparr>)"

definition capacity :: int where
  "capacity = 100"

definition draining :: "rt \<Rightarrow> string \<Rightarrow> bool" where
  "draining s i = (case rt_run i s of None \<Rightarrow> False | Some r \<Rightarrow> r_status r \<in> {Pausing, Stopping})"

definition can_start :: "rt \<Rightarrow> run_info \<Rightarrow> bool" where
  "can_start s r =
     (if list_ex (draining s) (live_ids s) then False
      else u_gpu (rt_usage s) + r_gpu r \<le> capacity \<and> u_ram (rt_usage s) + r_ram r \<le> capacity
           \<and> u_cpu (rt_usage s) + r_cpu r \<le> capacity)"

definition priority_rank :: "string \<Rightarrow> int" where
  "priority_rank p = (if p = ''high'' then 0 else if p = ''normal'' then 1 else if p = ''low'' then 2 else 1)"

definition schedule_one :: "rat \<Rightarrow> run_info \<Rightarrow> rt \<Rightarrow> rt" where
  "schedule_one now r s =
     (if r_status r \<noteq> Queued \<or> r_paused r \<or> r_stop_requested r \<or> dict_get (r_id r) (rt_threads s) \<noteq> None
      then s
      else if \<not> can_start s r then s
      else let s' = set_control (r_id r) (control_of (r_id r) s) s;
               s'' = rt_save now (r\<lparr>r_status := Training, r_message := MsgPreparing (r_backend r)\<rparr>) s'
           in s''\<lparr>rt_threads := dict_set (r_id r) True (rt_threads s'')\<rparr>)"

definition schedule_order :: "rt \<Rightarrow> run_info list" where
  "schedule_order s = sort_key (\<lambda>r. (priority_rank (r_priority r), r_created_at r)) (list_runs (rt_store s))"

text \<open>One turn of \<open>_schedule_forever\<close>.\<close>

definition schedule_tick :: "rat \<Rightarrow> rt \<Rightarrow> rt" where
  "schedule_tick now s = fold (schedule_one now) (schedule_order s) s"

section \<open>Worker threads\<close>

datatype outcome = PauseO | StopO | CompleteO | ErrorO

fun outcome_value :: "outcome \<Rightarrow> string" where
  "outcome_value PauseO = ''pause''"
| "outcome_value StopO = ''stop''"
| "outcome_value CompleteO = ''complete''"
| "outcome_value ErrorO = ''error''"

text \<open>The first read of \<open>_train\<close>.\<close>

definition worker_begin :: "string \<Rightarrow> rt \<Rightarrow> rt" where
  "worker_begin i s =
     (case rt_run i s of None \<Rightarrow> s | Some r \<Rightarrow> s\<lparr>rt_copies := dict_set i r (rt_copies s)\<rparr>)"

text \<open>\<open>_save_worker_progress\<close>: the worker's object takes over the control-plane fields of the stored
  record before it is stored.\<close>

definition merge_progress :: "run_info option \<Rightarrow> run_info \<Rightarrow> run_info" where
  "merge_progress current r =
     (case current of
        None \<Rightarrow> r
      | Some c \<Rightarrow> r\<lparr>r_status := r_status c, r_paused := r_paused c,
                     r_stop_requested := r_stop_requested c,
                     r_message := (if r_status c \<in> {Pausing, Stopping} then r_message c
                                   else r_message r)\<rparr>)"

definition save_worker_progress :: "rat \<Rightarrow> run_info \<Rightarrow> rt \<Rightarrow> rt" where
  "save_worker_progress now r s =
     (let r' = merge_progress (rt_run (r_id r) s) r
      in rt_save now r' (s\<lparr>rt_copies := dict_set (r_id r) r' (rt_copies s)\<rparr>))"

text \<open>\<open>_finalize_lifecycle_locked\<close>; the text of an error message is its class.\<close>

definition finalize_lifecycle ::
  "rat \<Rightarrow> run_info \<Rightarrow> outcome \<Rightarrow> kerror option \<Rightarrow> rt \<Rightarrow> rt" where
  "finalize_lifecycle now r out failure s =
     (let detail = (case failure of None \<Rightarrow> RuntimeError | Some e \<Rightarrow> e);
          r' = (case out of
             ErrorO \<Rightarrow> r\<lparr>r_status := Error_Recoverable, r_paused := True,
               r_termination_reason := Some (if failure \<noteq> None then ''worker_crash''
                                             else ''recoverable_backend_error''),
               r_message := MsgError (error_name detail)\<rparr>
           | StopO \<Rightarrow> r\<lparr>r_status := Stopped, r_stop_requested := True, r_paused := True,
               r_termination_reason := Some ''user_stop'', r_message := MsgStopFinal\<rparr>
           | PauseO \<Rightarrow> r\<lparr>r_status := Paused, r_stop_requested := False, r_paused := True,
               r_termination_reason := Some ''user_pause'', r_message := MsgPauseFinal\<rparr>
           | CompleteO \<Rightarrow> r\<lparr>r_status := Completed, r_stop_requested := False, r_paused := False\<rparr>);
          s' = (if out = ErrorO
                then rt_log now ''runtime'' ''run.error''
                       [(''run_id'', VStr (r_id r)), (''error'', VStr (error_name detail))] s
                else s)
      in rt_log now ''runtime'' ''run.lifecycle.finalized''
           [(''run_id'', VStr (r_id r)), (''outcome'', VStr (outcome_value out)),
            (''status'', VStr (status_value (r_status r')))] (rt_save now r' s'))"

text \<open>What \<open>_train_guarded\<close> makes of the outcome of \<open>_train\<close>: a stop wins over a pause, and both
  over completion; an exception wins over all.\<close>

definition effective_outcome :: "run_info \<Rightarrow> control \<Rightarrow> outcome \<Rightarrow> kerror option \<Rightarrow> outcome" where
  "effective_outcome r c out failure =
     (if failure \<noteq> None then ErrorO
      else if r_status r = Stopping \<or> ctl_stop c then StopO
      else if r_status r = Pausing \<or> ctl_pause c then PauseO
      else out)"

definition worker_finish :: "rat \<Rightarrow> string \<Rightarrow> outcome \<Rightarrow> kerror option \<Rightarrow> rt \<Rightarrow> rt" where
  "worker_finish now i out failure s =
     (let s' = (case rt_run i s of
                  None \<Rightarrow> s
                | Some r \<Rightarrow> finalize_lifecycle now r
                              (effective_outcome r (control_of i s) out failure) failure s)
      in s'\<lparr>rt_threads := dict_del i (rt_threads s'), rt_controls := dict_del i (rt_controls s'),
            rt_copies := dict_del i (rt_copies s')\<rparr>)"

section \<open>Rebalancing\<close>

definition priority_weight :: "string \<Rightarrow> pyfloat" where
  "priority_weight p =
     (if p = ''high'' then Fin (3/2) else if p = ''normal'' then Fin 1
      else if p = ''low'' then to_float (65/100) else Fin 1)"

text \<open>The records \<open>rebalance\<close> computes, then stores one by one. It does not take the lock. A weight
  over the total is never an infinity, so the rounding never fails.\<close>

definition rebalance_plan :: "rt \<Rightarrow> run_info list" where
  "rebalance_plan s =
     (let active = filter (\<lambda>r. r_status r = Training) (list_runs (rt_store s));
          total = fold (\<lambda>r acc. fadd acc (priority_weight (r_priority r))) active (Fin 0)
      in map (\<lambda>r. r\<lparr>r_gpu := max 5 (the (f_round (the (fdiv
             (fmul (f_of_int capacity) (priority_weight (r_priority r))) total))))\<rparr>) active)"

definition rebalance_save :: "rat \<Rightarrow> run_info list \<Rightarrow> rt \<Rightarrow> rt" where
  "rebalance_save now rs s = fold (rt_save now) rs s"

definition rt_rebalance :: "rat \<Rightarrow> bool \<Rightarrow> rt \<Rightarrow> rt" where
  "rt_rebalance now gpu_available s =
     (if gpu_available then rebalance_save now (rebalance_plan s) s else s)"

section \<open>Creation and removal\<close>

text \<open>The end of \<open>RunManager.create\<close>, once the record is built.\<close>

definition store_created :: "rat \<Rightarrow> run_info \<Rightarrow> rt \<Rightarrow> rt" where
  "store_created now r s =
     rt_log now ''sdk'' ''run.create''
       [(''run_id'', VStr (r_id r)), (''dataset'', VStr (r_dataset r)), (''backend'', VStr (r_backend r))]
       (rt_save now r s)"

definition removable :: "run_status list" where
  "removable = [Completed, Stopped, Error_Status, Error_Recoverable]"

definition rt_remove :: "rat \<Rightarrow> string \<Rightarrow> rt \<Rightarrow> (kerror + unit) \<times> rt" where
  "rt_remove now i s =
     (case rt_run i s of
        None \<Rightarrow> (Inl RunNotFoundError, s)
      | Some r \<Rightarrow>
          if r_status r \<notin> set removable then (Inl RunError, s)
          else case delete_run i (rt_store s) of
                 Inl e \<Rightarrow> (Inl e, s)
               | Inr st \<Rightarrow> (Inr (), rt_log now ''sdk'' ''run.remove'' [(''run_id'', VStr i)]
                                    (s\<lparr>rt_store := st\<rparr>)))"

section \<open>The step relation\<close>

text \<open>One rule per atomic action of the process. \<open>rb\<close> says whether rebalancing calls happen. A
  worker may change every field of its object but the planned ones before it saves it, and its loop
  returns a stop or pause outcome only after reading that flag of its control. A new run has
  a fresh id and the reservations \<open>RunManager.create\<close> clamps to non-negative values.\<close>

definition reservations_ok :: "run_info \<Rightarrow> bool" where
  "reservations_ok r \<longleftrightarrow> 0 \<le> r_cpu r \<and> 0 \<le> r_ram r \<and> 0 \<le> r_gpu r"

inductive rt_step :: "bool \<Rightarrow> rt \<Rightarrow> rt \<Rightarrow> bool" where
  Command: "rt_step rb s (snd (rt_command now lock_free actor i cmd s))"
| Start: "rt_step rb s (snd (rt_start now lock_free s))"
| CloseBegin: "rt_step rb s (close_begin now s)"
| CloseEnd: "rt_step rb s (snd (close_end now ids s))"
| SchedulerExit: "rt_closing s \<Longrightarrow> rt_step rb s (scheduler_exit s)"
| Tick: "rt_scheduler s \<Longrightarrow> rt_step rb s (schedule_tick now s)"
| WorkerBegin: "thread_alive i s \<Longrightarrow> rt_step rb s (worker_begin i s)"
| WorkerProgress: "thread_alive i s \<Longrightarrow> dict_get i (rt_copies s) = Some r \<Longrightarrow>
    run_plan.truncate r' = run_plan.truncate r \<Longrightarrow> rt_step rb s (save_worker_progress now r' s)"
| WorkerFinish: "thread_alive i s \<Longrightarrow> (out = StopO \<longrightarrow> ctl_stop (control_of i s)) \<Longrightarrow>
    (out = PauseO \<longrightarrow> ctl_pause (control_of i s)) \<Longrightarrow> rt_step rb s (worker_finish now i out failure s)"
| Create: "rt_run (r_id r) s = None \<Longrightarrow> dict_get (r_id r) (rt_threads s) = None \<Longrightarrow>
    r_status r = Draft \<Longrightarrow> reservations_ok r \<Longrightarrow> rt_step rb s (store_created now r s)"
| Remove: "rt_step rb s (snd (rt_remove now i s))"
| Rebalance: "rb \<Longrightarrow> rt_step rb s (rt_rebalance now gpu_available s)"

inductive_cases rt_stepE: "rt_step rb s s'"

text \<open>The states reachable from a freshly opened database, when the scheduler is only started again
  after every worker thread has ended.\<close>

definition quiet :: "rt \<Rightarrow> rt \<Rightarrow> bool" where
  "quiet s s' \<longleftrightarrow> (rt_scheduler s' \<longrightarrow> rt_scheduler s \<or> rt_threads s = [])"

definition opened :: "store \<Rightarrow> bool" where
  "opened st \<longleftrightarrow> store_ok st \<and> list_all reservations_ok (list_runs st)"

inductive rt_reach :: "bool \<Rightarrow> rt \<Rightarrow> bool" for rb where
  Init: "opened st \<Longrightarrow> rt_reach rb (rt_new st)"
| Step: "rt_reach rb s \<Longrightarrow> rt_step rb s s' \<Longrightarrow> quiet s s' \<Longrightarrow> rt_reach rb s'"

section \<open>Frames\<close>

lemma rt_run_save [simp]: "rt_run i (rt_save now r s) = (if i = r_id r then Some r else rt_run i s)"
  by (simp add: rt_run_def rt_save_def)

lemma rt_run_frame [simp]:
  "rt_run i (rt_log now a w p s) = rt_run i s"
  "rt_run i (set_control j c s) = rt_run i s"
  "rt_run i (s\<lparr>rt_threads := t\<rparr>) = rt_run i s"
  "rt_run i (s\<lparr>rt_controls := cs\<rparr>) = rt_run i s"
  "rt_run i (s\<lparr>rt_copies := ws\<rparr>) = rt_run i s"
  "rt_run i (s\<lparr>rt_scheduler := b\<rparr>) = rt_run i s"
  "rt_run i (s\<lparr>rt_closing := b\<rparr>) = rt_run i s"
  "rt_run i (s\<lparr>rt_lock_held := b\<rparr>) = rt_run i s"
  by (simp_all add: rt_run_def rt_log_def set_control_def)

lemma rt_save_frame [simp]:
  "rt_threads (rt_save now r s) = rt_threads s"
  "rt_controls (rt_save now r s) = rt_controls s"
  "rt_copies (rt_save now r s) = rt_copies s"
  "rt_scheduler (rt_save now r s) = rt_scheduler s"
  "rt_closing (rt_save now r s) = rt_closing s"
  "rt_lock_held (rt_save now r s) = rt_lock_held s"
  by (simp_all add: rt_save_def)

lemma rt_log_frame [simp]:
  "rt_threads (rt_log now a w p s) = rt_threads s"
  "rt_controls (rt_log now a w p s) = rt_controls s"
  "rt_copies (rt_log now a w p s) = rt_copies s"
  "rt_scheduler (rt_log now a w p s) = rt_scheduler s"
  "rt_closing (rt_log now a w p s) = rt_closing s"
  by (simp_all add: rt_log_def)

lemma set_control_frame [simp]:
  "rt_threads (set_control i c s) = rt_threads s"
  "rt_copies (set_control i c s) = rt_copies s"
  "rt_scheduler (set_control i c s) = rt_scheduler s"
  "rt_store (set_control i c s) = rt_store s"
  "rt_controls (set_control i c s) = dict_set i c (rt_controls s)"
  by (simp_all add: set_control_def)

lemma control_of_set [simp]: "control_of j (set_control i c s) = (if j = i then c else control_of j s)"
  by (simp add: control_of_def dict_get_set)

lemma control_of_frame [simp]:
  "control_of i (rt_save now r s) = control_of i s"
  "control_of i (rt_log now a w p s) = control_of i s"
  "control_of i (s\<lparr>rt_threads := t\<rparr>) = control_of i s"
  "control_of i (s\<lparr>rt_store := st\<rparr>) = control_of i s"
  "control_of i (s\<lparr>rt_copies := ws\<rparr>) = control_of i s"
  "control_of i (s\<lparr>rt_scheduler := b\<rparr>) = control_of i s"
  "control_of i (s\<lparr>rt_closing := b\<rparr>) = control_of i s"
  "control_of i (s\<lparr>rt_lock_held := b\<rparr>) = control_of i s"
  by (simp_all add: control_of_def)

lemma thread_alive_frame [simp]:
  "thread_alive i (rt_save now r s) = thread_alive i s"
  "thread_alive i (rt_log now a w p s) = thread_alive i s"
  "thread_alive i (set_control j c s) = thread_alive i s"
  by (simp_all add: thread_alive_def)

lemma store_of_save [simp]:
  "rt_store (rt_save now r s) = save_run now r (rt_store s)"
  "rt_store (rt_log now a w p s) = log_action now a w p (rt_store s)"
  by (simp_all add: rt_save_def rt_log_def)

section \<open>Reservations\<close>

definition reserved :: "(run_info \<Rightarrow> int) \<Rightarrow> rt \<Rightarrow> int" where
  "reserved f s = sum_list (map f (filter (\<lambda>r. r_id r \<in> set (live_ids s)) (list_runs (rt_store s))))"

definition amount :: "(run_info \<Rightarrow> int) \<Rightarrow> run_info option \<Rightarrow> int" where
  "amount f r = (case r of None \<Rightarrow> 0 | Some x \<Rightarrow> f x)"

lemma usage_reserved [simp]:
  "u_cpu (rt_usage s) = reserved r_cpu s"
  "u_ram (rt_usage s) = reserved r_ram s"
  "u_gpu (rt_usage s) = reserved r_gpu s"
  by (simp_all add: rt_usage_def reserved_def Let_def)

definition tables_ok :: "rt \<Rightarrow> bool" where
  "tables_ok s \<longleftrightarrow> store_ok (rt_store s) \<and> dict_ok (rt_threads s) \<and> dict_ok (rt_controls s)
     \<and> dict_ok (rt_copies s)"

lemma set_live_ids: "dict_ok (rt_threads s) \<Longrightarrow> set (live_ids s) = {i. thread_alive i s}"
  by (force simp: live_ids_def thread_alive_def dict_in_get dest: dict_get_Some_in)

lemma finite_live: "dict_ok (rt_threads s) \<Longrightarrow> finite {i. thread_alive i s}"
  using set_live_ids [of s] by (metis List.finite_set)

lemma distinct_run_ids:
  assumes "store_ok st" shows "distinct (map r_id (list_runs st))"
proof -
  let ?h = "\<lambda>(k, r, t). r_id r"
  have eq: "map ?h (st_runs st) = map fst (st_runs st)"
    using assms by (auto simp: store_ok_def)
  have "distinct (map ?h (st_runs st))"
    unfolding eq using assms by (simp add: store_ok_def dict_ok_def)
  then have "distinct (map ?h (sort_key (\<lambda>(k, r, t). - t) (st_runs st)))"
    by (simp add: distinct_map)
  moreover have "map r_id (list_runs st) = map ?h (sort_key (\<lambda>(k, r, t). - t) (st_runs st))"
    by (auto simp: list_runs_def)
  ultimately show ?thesis by simp
qed

lemma in_runs_iff: "store_ok (rt_store s) \<Longrightarrow> r \<in> set (list_runs (rt_store s)) \<longleftrightarrow> rt_run (r_id r) s = Some r"
  by (simp add: in_list_runs_iff rt_run_def)

lemma rt_run_id: "store_ok (rt_store s) \<Longrightarrow> rt_run i s = Some r \<Longrightarrow> r_id r = i"
  by (simp add: rt_run_def get_run_id)

lemma reserved_sum:
  assumes "tables_ok s"
  shows "reserved f s = (\<Sum>i | thread_alive i s. amount f (rt_run i s))"
proof -
  let ?L = "{i. thread_alive i s}"
  let ?xs = "filter (\<lambda>r. r_id r \<in> ?L) (list_runs (rt_store s))"
  have ok: "store_ok (rt_store s)" "dict_ok (rt_threads s)" using assms by (simp_all add: tables_ok_def)
  have "distinct (map r_id ?xs)" using distinct_run_ids [OF ok(1)] by (rule distinct_map_filter)
  then have d: "distinct ?xs" and inj: "inj_on r_id (set ?xs)" by (simp_all add: distinct_map)
  have "reserved f s = sum f (set ?xs)"
    using d by (simp add: reserved_def set_live_ids [OF ok(2)] sum_list_distinct_conv_sum_set)
  also have "\<dots> = sum (\<lambda>r. amount f (rt_run (r_id r) s)) (set ?xs)"
    by (rule sum.cong) (auto simp: in_runs_iff [OF ok(1)] amount_def)
  also have "\<dots> = sum (\<lambda>i. amount f (rt_run i s)) (r_id ` set ?xs)"
    by (simp only: sum.reindex [OF inj] comp_def)
  also have "\<dots> = sum (\<lambda>i. amount f (rt_run i s)) ?L"
  proof (rule sum.mono_neutral_left)
    show "finite ?L" by (rule finite_live [OF ok(2)])
    show "r_id ` set ?xs \<subseteq> ?L" by auto
    show "\<forall>i \<in> ?L - r_id ` set ?xs. amount f (rt_run i s) = 0"
    proof
      fix i assume i: "i \<in> ?L - r_id ` set ?xs"
      show "amount f (rt_run i s) = 0"
      proof (cases "rt_run i s")
        case (Some r)
        then have "r_id r = i" "r \<in> set ?xs"
          using i rt_run_id [OF ok(1) Some] in_runs_iff [OF ok(1), of r] by auto
        with i show ?thesis by auto
      qed (simp add: amount_def)
    qed
  qed
  finally show ?thesis .
qed

section \<open>The invariant\<close>

definition worker_phase :: "run_status \<Rightarrow> control \<Rightarrow> bool" where
  "worker_phase st c \<longleftrightarrow>
     (if ctl_stop c then st = Stopping else if ctl_pause c then st = Pausing else st = Training)"

definition idle_phase :: "run_info \<Rightarrow> control \<Rightarrow> bool" where
  "idle_phase r c \<longleftrightarrow> r_status r \<notin> {Training, Pausing, Stopping} \<and>
     (r_status r = Queued \<longrightarrow> \<not> r_paused r \<and> \<not> r_stop_requested r \<and> c = no_control)"

text \<open>The reservations that are fixed for the life of a run: all three, unless rebalancing rewrites
  the GPU share.\<close>

definition resources :: "bool \<Rightarrow> (run_info \<Rightarrow> int) list" where
  "resources rb = [r_cpu, r_ram] @ (if rb then [] else [r_gpu])"

definition same_resources :: "bool \<Rightarrow> run_info \<Rightarrow> run_info \<Rightarrow> bool" where
  "same_resources rb a b \<longleftrightarrow> r_id a = r_id b \<and> (\<forall>f \<in> set (resources rb). f a = f b)"

fun id_ok ::
  "bool \<Rightarrow> bool \<Rightarrow> bool option \<Rightarrow> run_info option \<Rightarrow> control \<Rightarrow> run_info option \<Rightarrow> bool" where
  "id_ok rb sched (Some alive) r c w =
     (alive \<and> (case r of None \<Rightarrow> False
               | Some x \<Rightarrow> reservations_ok x \<and> worker_phase (r_status x) c \<and>
                          (case w of None \<Rightarrow> True | Some y \<Rightarrow> same_resources rb y x \<and> reservations_ok y)))"
| "id_ok rb sched None r c w =
     (w = None \<and> (case r of None \<Rightarrow> True
                  | Some x \<Rightarrow> reservations_ok x \<and> (sched \<longrightarrow> idle_phase x c)))"

definition ids_ok :: "bool \<Rightarrow> rt \<Rightarrow> bool" where
  "ids_ok rb s \<longleftrightarrow> (\<forall>i. id_ok rb (rt_scheduler s) (dict_get i (rt_threads s)) (rt_run i s) (control_of i s)
      (dict_get i (rt_copies s)))"

definition within_capacity :: "bool \<Rightarrow> rt \<Rightarrow> bool" where
  "within_capacity rb s \<longleftrightarrow>
     (\<forall>f \<in> set (resources rb). (\<Sum>i | thread_alive i s. amount f (rt_run i s)) \<le> capacity)"

definition rt_inv :: "bool \<Rightarrow> rt \<Rightarrow> bool" where
  "rt_inv rb s \<longleftrightarrow> tables_ok s \<and> ids_ok rb s \<and> within_capacity rb s"

lemma rt_invD:
  assumes "rt_inv rb s"
  shows "tables_ok s" and "store_ok (rt_store s)" and "dict_ok (rt_threads s)"
    and "id_ok rb (rt_scheduler s) (dict_get i (rt_threads s)) (rt_run i s) (control_of i s)
           (dict_get i (rt_copies s))"
  using assms by (auto simp: rt_inv_def tables_ok_def ids_ok_def)

text \<open>Capacity is kept by any change that starts no thread and keeps the reservations of the
  threads that stay.\<close>

lemma live_amount_nonneg:
  assumes "rt_inv rb s" and "thread_alive i s" and "f \<in> set (resources rb)"
  shows "0 \<le> amount f (rt_run i s)"
  using assms rt_invD(4) [OF assms(1), of i]
  by (auto simp: thread_alive_def resources_def reservations_ok_def amount_def
      split: option.splits if_splits)

lemma capacity_sub:
  assumes inv: "rt_inv rb s"
    and sub: "\<And>i. thread_alive i s' \<Longrightarrow> thread_alive i s"
    and same: "\<And>i f. thread_alive i s' \<Longrightarrow> f \<in> set (resources rb) \<Longrightarrow>
           amount f (rt_run i s') = amount f (rt_run i s)"
  shows "within_capacity rb s'"
  unfolding within_capacity_def
proof
  fix f assume f: "f \<in> set (resources rb)"
  have "(\<Sum>i | thread_alive i s'. amount f (rt_run i s'))
      = (\<Sum>i | thread_alive i s'. amount f (rt_run i s))"
    by (rule sum.cong) (auto simp: same f)
  also have "\<dots> \<le> (\<Sum>i | thread_alive i s. amount f (rt_run i s))"
  proof (rule sum_mono2)
    show "finite {i. thread_alive i s}" by (rule finite_live [OF rt_invD(3) [OF inv]])
  qed (auto intro: sub live_amount_nonneg [OF inv _ f])
  also have "\<dots> \<le> capacity" using inv f by (simp add: rt_inv_def within_capacity_def)
  finally show "(\<Sum>i | thread_alive i s'. amount f (rt_run i s')) \<le> capacity" .
qed

text \<open>Most steps touch the entries of one run only.\<close>

definition same_at :: "string \<Rightarrow> rt \<Rightarrow> rt \<Rightarrow> bool" where
  "same_at i s s' \<longleftrightarrow> dict_get i (rt_threads s') = dict_get i (rt_threads s) \<and> rt_run i s' = rt_run i s
     \<and> control_of i s' = control_of i s \<and> dict_get i (rt_copies s') = dict_get i (rt_copies s)"

lemma ids_ok_update:
  assumes inv: "rt_inv rb s"
    and sched: "rt_scheduler s' \<Longrightarrow> rt_scheduler s"
    and frame: "\<And>i. i \<noteq> j \<Longrightarrow> same_at i s s'"
    and at: "id_ok rb (rt_scheduler s') (dict_get j (rt_threads s')) (rt_run j s') (control_of j s')
               (dict_get j (rt_copies s'))"
  shows "ids_ok rb s'"
  unfolding ids_ok_def
proof
  fix i
  show "id_ok rb (rt_scheduler s') (dict_get i (rt_threads s')) (rt_run i s') (control_of i s')
          (dict_get i (rt_copies s'))"
  proof (cases "i = j")
    case True with at show ?thesis by simp
  next
    case False
    with rt_invD(4) [OF inv, of i] frame [OF False] sched show ?thesis
      by (cases "dict_get i (rt_threads s)") (auto simp: same_at_def split: option.splits)
  qed
qed

lemma inv_update:
  assumes inv: "rt_inv rb s" and tab: "tables_ok s'"
    and sched: "rt_scheduler s' \<Longrightarrow> rt_scheduler s"
    and frame: "\<And>i. i \<noteq> j \<Longrightarrow> same_at i s s'"
    and at: "id_ok rb (rt_scheduler s') (dict_get j (rt_threads s')) (rt_run j s') (control_of j s')
               (dict_get j (rt_copies s'))"
    and live: "thread_alive j s' \<Longrightarrow> thread_alive j s \<and>
                 (\<forall>f \<in> set (resources rb). amount f (rt_run j s') = amount f (rt_run j s))"
  shows "rt_inv rb s'"
proof -
  have "within_capacity rb s'"
  proof (rule capacity_sub [OF inv])
    fix i assume i: "thread_alive i s'"
    show "thread_alive i s" using i frame [of i] live by (cases "i = j") (auto simp: same_at_def thread_alive_def)
    fix f assume "f \<in> set (resources rb)"
    then show "amount f (rt_run i s') = amount f (rt_run i s)"
      using i frame [of i] live by (cases "i = j") (auto simp: same_at_def)
  qed
  with ids_ok_update [OF inv sched frame at] tab show ?thesis by (simp add: rt_inv_def)
qed

lemma tables_ok_intros [intro]:
  "tables_ok s \<Longrightarrow> tables_ok (rt_save now r s)"
  "tables_ok s \<Longrightarrow> tables_ok (rt_log now a w p s)"
  "tables_ok s \<Longrightarrow> tables_ok (set_control i c s)"
  by (auto simp: tables_ok_def intro: store_ok_save_run store_ok_log dict_ok_set)

lemma inv_log: "rt_inv rb s \<Longrightarrow> rt_inv rb (rt_log now a w p s)"
  by (rule inv_update) (auto simp: same_at_def rt_invD)

lemma same_at_refl [simp]: "same_at i s s"
  by (simp add: same_at_def)

text \<open>Saving a record that keeps the status of the stored one.\<close>

lemma inv_save:
  assumes inv: "rt_inv rb s" and old: "rt_run (r_id r') s = Some r"
    and "r_status r' = r_status r" "r_paused r' = r_paused r" "r_stop_requested r' = r_stop_requested r"
    and "same_resources rb r' r" "reservations_ok r'"
  shows "rt_inv rb (rt_save now r' s)"
proof (rule inv_update [OF inv, where j = "r_id r'"])
  show "id_ok rb (rt_scheduler (rt_save now r' s)) (dict_get (r_id r') (rt_threads (rt_save now r' s)))
     (rt_run (r_id r') (rt_save now r' s)) (control_of (r_id r') (rt_save now r' s))
     (dict_get (r_id r') (rt_copies (rt_save now r' s)))"
    using rt_invD(4) [OF inv, of "r_id r'"] assms
    by (cases "dict_get (r_id r') (rt_threads s)")
      (auto simp: same_resources_def idle_phase_def split: option.splits)
qed (use assms in \<open>auto simp: same_at_def rt_invD amount_def same_resources_def\<close>)

section \<open>Preservation\<close>

text \<open>A pass over all stored runs, each of which updates its own row.\<close>

lemma fold_rows:
  assumes "distinct (map r_id rs)" and "\<And>r. r \<in> set rs \<Longrightarrow> rt_run (r_id r) s = Some r"
    and "\<And>r s. rt_run (r_id r) s = Some r \<Longrightarrow>
           (\<forall>i. rt_run i (g r s) = (if i = r_id r then Some (h r) else rt_run i s))"
  shows "rt_run i (fold g rs s) =
    (if i \<in> r_id ` set rs then map_option h (rt_run i s) else rt_run i s)"
  using assms(1,2)
proof (induction rs arbitrary: s)
  case (Cons r rs)
  have r: "rt_run (r_id r) s = Some r" using Cons.prems by simp
  have eq: "rt_run j (g r s) = (if j = r_id r then Some (h r) else rt_run j s)" for j
    using assms(3) [OF r] by blast
  have "rt_run (r_id x) (g r s) = Some x" if "x \<in> set rs" for x
    using that Cons.prems eq by (auto simp: image_iff)
  with Cons.IH [of "g r s"] Cons.prems eq r show ?case by auto
qed simp

lemma fold_frame: "(\<And>x s. F (g x s) = F s) \<Longrightarrow> F (fold g xs s) = F s"
  by (induction xs arbitrary: s) auto

lemma recover_one_frame [simp]:
  "rt_threads (recover_one now r s) = rt_threads s"
  "rt_controls (recover_one now r s) = rt_controls s"
  "rt_copies (recover_one now r s) = rt_copies s"
  by (simp_all add: recover_one_def)

definition recovered :: "run_info \<Rightarrow> run_info" where
  "recovered r = (if r_status r \<in> {Training, Queued, Pausing, Stopping} then recover_run r else r)"

lemma recovered_simps [simp]:
  "r_id (recovered r) = r_id r" "r_cpu (recovered r) = r_cpu r" "r_ram (recovered r) = r_ram r"
  "r_gpu (recovered r) = r_gpu r" "r_status (recovered r) \<noteq> Training" "r_status (recovered r) \<noteq> Pausing"
  "r_status (recovered r) \<noteq> Stopping" "r_status (recovered r) \<noteq> Queued"
  by (auto simp: recovered_def recover_run_def)

lemma recover_all_runs:
  assumes "store_ok (rt_store s)"
  shows "rt_run i (fold (recover_one now) (list_runs (rt_store s)) s) = map_option recovered (rt_run i s)"
proof -
  have "rt_run i (fold (recover_one now) (list_runs (rt_store s)) s) =
    (if i \<in> r_id ` set (list_runs (rt_store s)) then map_option recovered (rt_run i s) else rt_run i s)"
  proof (rule fold_rows)
    show "distinct (map r_id (list_runs (rt_store s)))" by (rule distinct_run_ids [OF assms])
  next
    fix r s assume "rt_run (r_id r) s = Some r"
    then show "\<forall>i. rt_run i (recover_one now r s) = (if i = r_id r then Some (recovered r) else rt_run i s)"
      by (auto simp: recover_one_def recovered_def recover_run_def)
  qed (use in_runs_iff [OF assms] in auto)
  moreover have "rt_run i s = None" if "i \<notin> r_id ` set (list_runs (rt_store s))"
  proof (cases "rt_run i s")
    case (Some r)
    then have "r_id r = i" by (rule rt_run_id [OF assms])
    with Some have "r \<in> set (list_runs (rt_store s))" by (simp add: in_runs_iff [OF assms])
    with \<open>r_id r = i\<close> that show ?thesis by blast
  qed
  ultimately show ?thesis by auto
qed

lemma tables_ok_fold: "(\<And>x s. tables_ok s \<Longrightarrow> tables_ok (g x s)) \<Longrightarrow> tables_ok s \<Longrightarrow> tables_ok (fold g xs s)"
  by (induction xs arbitrary: s) auto

lemma tables_ok_recover: "tables_ok s \<Longrightarrow> tables_ok (fold (recover_one now) rs s)"
  by (rule tables_ok_fold) (auto simp: recover_one_def)

lemma inv_recover:
  assumes inv: "rt_inv rb s" and quiet: "rt_threads s = []"
  shows "rt_inv rb ((fold (recover_one now) (list_runs (rt_store s)) s)
                      \<lparr>rt_closing := False, rt_scheduler := True\<rparr>)" (is "rt_inv rb ?s")
proof -
  let ?f = "fold (recover_one now) (list_runs (rt_store s)) s"
  have frame: "rt_threads ?f = []" "rt_copies ?f = rt_copies s"
    using quiet by (simp_all add: fold_frame [where F = rt_threads] fold_frame [where F = rt_copies])
  have "tables_ok ?f" by (rule tables_ok_recover) (rule rt_invD [OF inv])
  then have "tables_ok ?s" by (simp add: tables_ok_def)
  moreover have "ids_ok rb ?s"
    unfolding ids_ok_def
  proof
    fix i show "id_ok rb (rt_scheduler ?s) (dict_get i (rt_threads ?s)) (rt_run i ?s) (control_of i ?s)
        (dict_get i (rt_copies ?s))"
      using rt_invD(4) [OF inv, of i] quiet
      by (auto simp: frame recover_all_runs [OF rt_invD(2) [OF inv]] idle_phase_def reservations_ok_def
          split: option.splits)
  qed
  moreover have "within_capacity rb ?s"
    by (simp add: within_capacity_def thread_alive_def frame capacity_def)
  ultimately show ?thesis by (simp add: rt_inv_def)
qed

lemma id_ok_unscheduled: "id_ok rb sched t r c w \<Longrightarrow> id_ok rb False t r c w"
  by (cases t) (auto split: option.splits)

lemma inv_flags:
  assumes inv: "rt_inv rb s"
  shows "rt_inv rb (s\<lparr>rt_lock_held := b\<rparr>)" and "rt_inv rb (s\<lparr>rt_closing := b\<rparr>)"
    and "rt_inv rb (s\<lparr>rt_scheduler := False\<rparr>)"
  using rt_invD(1) [OF inv] rt_invD(4) [OF inv] id_ok_unscheduled [OF rt_invD(4) [OF inv]] inv
  by (simp_all add: rt_inv_def ids_ok_def tables_ok_def within_capacity_def thread_alive_def)

lemma acquire_cases:
  "acquire_scheduler_lock lf s = (Inl ConfigurationError, s) \<or>
   acquire_scheduler_lock lf s = (Inr (), s\<lparr>rt_lock_held := True\<rparr>)"
  by (cases s) (auto simp: acquire_scheduler_lock_def)

lemma rt_start_cases:
  obtains (same) "snd (rt_start now lf s) = s"
  | (revived) s0 where "s\<lparr>rt_lock_held := True\<rparr> = s0" "\<not> rt_scheduler s" "rt_threads s0 = rt_threads s"
      "rt_controls s0 = rt_controls s" "rt_copies s0 = rt_copies s" "rt_store s0 = rt_store s"
      "snd (rt_start now lf s) = (fold (recover_one now) (list_runs (rt_store s0)) s0)
                     \<lparr>rt_closing := False, rt_scheduler := True\<rparr>"
  using acquire_cases [of lf s]
  by (cases "rt_scheduler s") (auto simp: rt_start_def)

lemma recover_fold_frame [simp]:
  "rt_threads (fold (recover_one now) rs s) = rt_threads s"
  "rt_controls (fold (recover_one now) rs s) = rt_controls s"
  "rt_copies (fold (recover_one now) rs s) = rt_copies s"
  by (rule fold_frame, simp)+

lemma rt_start_frame [simp]:
  "rt_threads (snd (rt_start now lf s)) = rt_threads s"
  "rt_controls (snd (rt_start now lf s)) = rt_controls s"
  "rt_copies (snd (rt_start now lf s)) = rt_copies s"
  by (cases rule: rt_start_cases [of now lf s]; simp)+

lemma inv_start:
  assumes inv: "rt_inv rb s" and "quiet s (snd (rt_start now lf s))"
  shows "rt_inv rb (snd (rt_start now lf s))"
proof (cases rule: rt_start_cases [of now lf s])
  case (revived s0)
  with assms(2) have "rt_threads s0 = []" by (simp add: quiet_def)
  moreover have "rt_inv rb s0" using inv_flags(1) [OF inv, of True] revived(1) by simp
  ultimately show ?thesis unfolding revived(7) by (rule inv_recover [rotated])
qed (use assms in simp)

lemma rt_start_run:
  assumes "store_ok (rt_store s)" and "rt_run i s = Some r"
    and "r_status r \<notin> {Training, Queued, Pausing, Stopping}"
  shows "rt_run i (snd (rt_start now lf s)) = Some r"
proof (cases rule: rt_start_cases [of now lf s])
  case (revived s0)
  have "rt_run i s0 = Some r" using assms(2) by (simp flip: revived(1))
  then show ?thesis
    using recover_all_runs [of s0 i now] assms(1,3) by (simp add: revived(7) recovered_def revived(6))
qed (use assms in simp)

lemma inv_idle_thread:
  assumes "rt_inv rb s" and "rt_run i s = Some r" and "r_status r \<notin> {Training, Pausing, Stopping}"
  shows "dict_get i (rt_threads s) = None"
  using rt_invD(4) [OF assms(1), of i] assms(2,3)
  by (cases "dict_get i (rt_threads s)") (auto simp: worker_phase_def split: if_splits)

lemma inv_set_idle_control:
  assumes inv: "rt_inv rb s" and r: "rt_run i s = Some r"
    and idle: "r_status r \<notin> {Training, Pausing, Stopping, Queued}"
  shows "rt_inv rb (set_control i c s)"
proof -
  have "dict_get i (rt_threads s) = None" using inv_idle_thread [OF inv r] idle by simp
  with rt_invD(4) [OF inv, of i] r idle show ?thesis
    by (intro inv_update [OF inv, where j = i])
      (auto simp: same_at_def rt_invD [OF inv] idle_phase_def thread_alive_def)
qed

text \<open>Saving a record of a run that has no worker.\<close>

lemma inv_save_idle:
  assumes inv: "rt_inv rb s" and t: "dict_get (r_id r') (rt_threads s) = None"
    and "reservations_ok r'" and "idle_phase r' (control_of (r_id r') s)"
  shows "rt_inv rb (rt_save now r' s)"
  using rt_invD(4) [OF inv, of "r_id r'"] assms
  by (intro inv_update [OF inv, where j = "r_id r'"])
    (auto simp: same_at_def rt_invD [OF inv] thread_alive_def)

lemma inv_reservations:
  assumes "rt_inv rb s" and "rt_run i s = Some r" shows "reservations_ok r"
  using rt_invD(4) [OF assms(1), of i] assms(2)
  by (cases "dict_get i (rt_threads s)") (auto split: option.splits)

lemma command_done_snd:
  "snd (command_done now actor cmd r s) =
     rt_log now actor (''run.'' @ cmd)
        [(''run_id'', VStr (r_id r)), (''status'', VStr (status_value (r_status r)))] (rt_save now r s)"
  by (simp add: command_done_def)

lemma enqueue_simps [simp]:
  "r_id (enqueue m r) = r_id r" "r_status (enqueue m r) = Queued" "r_paused (enqueue m r) = False"
  "r_stop_requested (enqueue m r) = False" "reservations_ok (enqueue m r) = reservations_ok r"
  by (simp_all add: enqueue_def reservations_ok_def)

lemma command_queue_cases:
  obtains (failed) e where "fst (command_queue now lf actor cmd msg r s) = Inl e"
      "snd (command_queue now lf actor cmd msg r s) = snd (rt_start now lf (set_control (r_id r) no_control s))"
  | (queued) "fst (command_queue now lf actor cmd msg r s) = Inr (enqueue msg r)"
      "snd (command_queue now lf actor cmd msg r s) =
         snd (command_done now actor cmd (enqueue msg r) (snd (rt_start now lf (set_control (r_id r) no_control s))))"
  by (cases "rt_start now lf (set_control (r_id r) no_control s)"; cases "fst (rt_start now lf (set_control (r_id r) no_control s))")
    (auto simp: command_queue_def command_done_def)

lemma inv_command_queue:
  assumes inv: "rt_inv rb s" and r: "rt_run (r_id r) s = Some r"
    and idle: "r_status r \<notin> {Training, Pausing, Stopping, Queued}"
    and quiet: "quiet s (snd (command_queue now lf actor cmd msg r s))"
  shows "rt_inv rb (snd (command_queue now lf actor cmd msg r s))"
proof -
  let ?s0 = "set_control (r_id r) no_control s"
  have inv0: "rt_inv rb ?s0" by (rule inv_set_idle_control [OF inv r idle])
  have sched: "rt_scheduler (snd (command_queue now lf actor cmd msg r s)) = rt_scheduler (snd (rt_start now lf ?s0))"
    by (cases rule: command_queue_cases [of now lf actor cmd msg r s]) (auto simp: command_done_snd)
  have inv1: "rt_inv rb (snd (rt_start now lf ?s0))"
    using quiet by (intro inv_start [OF inv0]) (simp add: quiet_def sched)
  show ?thesis
  proof (cases rule: command_queue_cases [of now lf actor cmd msg r s])
    case queued
    have "dict_get (r_id r) (rt_threads s) = None" using inv_idle_thread [OF inv r] idle by simp
    moreover have "control_of (r_id r) (snd (rt_start now lf ?s0)) = no_control"
      by (simp add: control_of_def)
    ultimately show ?thesis
      using inv_reservations [OF inv r]
      by (simp add: queued command_done_snd inv_log inv_save_idle [OF inv1] idle_phase_def)
  qed (use inv1 in simp)
qed

text \<open>A control-plane change of a run and its control together: the run keeps its reservations and
  stays in phase with the control if it has a worker, and goes idle otherwise.\<close>

lemma inv_save_control:
  assumes inv: "rt_inv rb s" and old: "rt_run (r_id r') s = Some r" and same: "same_resources rb r' r"
    and res: "reservations_ok r'"
    and live: "thread_alive (r_id r') s \<Longrightarrow> worker_phase (r_status r') c"
    and idle: "\<not> thread_alive (r_id r') s \<Longrightarrow> idle_phase r' c"
  shows "rt_inv rb (rt_save now r' (set_control (r_id r') c s))"
proof (rule inv_update [OF inv, where j = "r_id r'"])
  let ?s = "rt_save now r' (set_control (r_id r') c s)"
  show "id_ok rb (rt_scheduler ?s) (dict_get (r_id r') (rt_threads ?s)) (rt_run (r_id r') ?s)
     (control_of (r_id r') ?s) (dict_get (r_id r') (rt_copies ?s))"
    using rt_invD(4) [OF inv, of "r_id r'"] assms
    by (cases "dict_get (r_id r') (rt_threads s)")
      (auto simp: same_resources_def thread_alive_def split: option.splits)
  show "tables_ok ?s" using rt_invD(1) [OF inv] by auto
qed (use assms in \<open>auto simp: same_at_def amount_def same_resources_def\<close>)

lemma inv_live_phase:
  assumes "rt_inv rb s" and "thread_alive i s" and "rt_run i s = Some r"
  shows "worker_phase (r_status r) (control_of i s)"
  using rt_invD(4) [OF assms(1), of i] assms(2,3) by (simp add: thread_alive_def)

lemma same_resources_eqI:
  "r_id a = r_id b \<Longrightarrow> r_cpu a = r_cpu b \<Longrightarrow> r_ram a = r_ram b \<Longrightarrow> r_gpu a = r_gpu b \<Longrightarrow> same_resources rb a b"
  by (auto simp: same_resources_def resources_def)

text \<open>The two records a pause and a stop write.\<close>

definition paused_record :: "bool \<Rightarrow> run_info \<Rightarrow> run_info" where
  "paused_record alive r = r\<lparr>r_paused := True, r_status := (if alive then Pausing else Paused),
     r_message := (if alive then MsgPauseRequested else MsgPausedNow)\<rparr>"

definition stopped_record :: "bool \<Rightarrow> run_info \<Rightarrow> run_info" where
  "stopped_record alive r = r\<lparr>r_stop_requested := True, r_paused := True,
     r_status := (if alive then Stopping else Stopped),
     r_message := (if alive then MsgStopRequested else MsgStoppedNow)\<rparr>"

lemma record_simps [simp]:
  "r_id (paused_record b r) = r_id r" "r_id (stopped_record b r) = r_id r"
  "r_status (paused_record b r) = (if b then Pausing else Paused)"
  "r_status (stopped_record b r) = (if b then Stopping else Stopped)"
  "reservations_ok (paused_record b r) = reservations_ok r"
  "reservations_ok (stopped_record b r) = reservations_ok r"
  "same_resources rb (paused_record b r) r" "same_resources rb (stopped_record b r) r"
  by (auto simp: paused_record_def stopped_record_def reservations_ok_def intro: same_resources_eqI)

lemma rt_command_start:
  "rt_run i s = Some r \<Longrightarrow> rt_command now lf actor i ''start'' s =
     (if r_status r \<in> {Queued, Training}
      then (Inr r, rt_log now actor ''run.start.idempotent''
              [(''run_id'', VStr (r_id r)), (''status'', VStr (status_value (r_status r)))] s)
      else if r_status r \<noteq> Draft then (Inl (state_error r ''start'' [Draft]), s)
      else command_queue now lf actor ''start'' MsgWaitingSlot r s)"
  by (simp add: rt_command_def)

lemma rt_command_resume:
  "rt_run i s = Some r \<Longrightarrow> rt_command now lf actor i ''resume'' s =
     (if r_status r \<notin> set resume_allowed then (Inl (state_error r ''resume'' resume_allowed), s)
      else command_queue now lf actor ''resume'' MsgResumeQueued r s)"
  by (simp add: rt_command_def)

lemma rt_command_pause:
  "rt_run i s = Some r \<Longrightarrow> r_id r = i \<Longrightarrow> rt_command now lf actor i ''pause'' s =
     (if r_status r \<in> {Pausing, Paused} then (Inr r, s)
      else if r_status r \<notin> {Queued, Training} then (Inl (state_error r ''pause'' [Queued, Training]), s)
      else command_done now actor ''pause'' (paused_record (thread_alive i s) r)
             (set_control i ((control_of i s)\<lparr>ctl_pause := True\<rparr>) s))"
  by (simp add: rt_command_def paused_record_def Let_def)

lemma rt_command_stop:
  "rt_run i s = Some r \<Longrightarrow> r_id r = i \<Longrightarrow> rt_command now lf actor i ''stop'' s =
     (if r_status r \<in> {Stopping, Stopped} then (Inr r, s)
      else if r_status r \<notin> set stop_allowed then (Inl (state_error r ''stop'' stop_allowed), s)
      else command_done now actor ''stop'' (stopped_record (thread_alive i s) r)
             (set_control i ((control_of i s)\<lparr>ctl_stop := True\<rparr>) s))"
  by (simp add: rt_command_def stopped_record_def Let_def)

lemma rt_command_other:
  "rt_run i s = Some r \<Longrightarrow> cmd \<notin> {''start'', ''resume'', ''pause'', ''stop''} \<Longrightarrow>
     rt_command now lf actor i cmd s = (Inl RunError, s)"
  by (simp add: rt_command_def)

lemma rt_command_missing: "rt_run i s = None \<Longrightarrow> rt_command now lf actor i cmd s = (Inl RunError, s)"
  by (simp add: rt_command_def)

lemma inv_pause:
  assumes inv: "rt_inv rb s" and r: "rt_run i s = Some r" "r_id r = i" and st: "r_status r \<in> {Queued, Training}"
  shows "rt_inv rb (rt_save now (paused_record (thread_alive i s) r)
           (set_control i ((control_of i s)\<lparr>ctl_pause := True\<rparr>) s))"
proof -
  let ?c = "(control_of i s)\<lparr>ctl_pause := True\<rparr>"
  have "worker_phase Pausing ?c" if "thread_alive i s"
    using inv_live_phase [OF inv that r(1)] st
    by (cases "ctl_stop (control_of i s)") (auto simp: worker_phase_def)
  moreover have "idle_phase (paused_record False r) ?c" by (simp add: idle_phase_def)
  ultimately show ?thesis
    using inv_save_control [OF inv, of "paused_record (thread_alive i s) r" r ?c now]
      r inv_reservations [OF inv r(1)]
    by (cases "thread_alive i s") simp_all
qed

lemma inv_stop:
  assumes inv: "rt_inv rb s" and r: "rt_run i s = Some r" "r_id r = i"
  shows "rt_inv rb (rt_save now (stopped_record (thread_alive i s) r)
           (set_control i ((control_of i s)\<lparr>ctl_stop := True\<rparr>) s))"
  using inv_save_control [OF inv, of "stopped_record (thread_alive i s) r" r "(control_of i s)\<lparr>ctl_stop := True\<rparr>"]
    r inv_reservations [OF inv r(1)]
  by (auto simp: worker_phase_def idle_phase_def)

lemma inv_command:
  assumes inv: "rt_inv rb s" and quiet: "quiet s (snd (rt_command now lf actor i cmd s))"
  shows "rt_inv rb (snd (rt_command now lf actor i cmd s))"
proof (cases "rt_run i s")
  case None
  then show ?thesis using inv by (simp add: rt_command_missing)
next
  case (Some r)
  have id: "r_id r = i" using rt_run_id [OF rt_invD(2) [OF inv] Some] .
  have self: "rt_run (r_id r) s = Some r" using Some id by simp
  consider "cmd = ''start''" | "cmd = ''resume''" | "cmd = ''pause''" | "cmd = ''stop''"
    | "cmd \<notin> {''start'', ''resume'', ''pause'', ''stop''}" by blast
  then show ?thesis
  proof cases
    case 1
    with quiet show ?thesis
      by (auto simp: rt_command_start [OF Some] inv inv_log intro!: inv_command_queue [OF inv self])
  next
    case 2
    with quiet show ?thesis
      by (auto simp: rt_command_resume [OF Some] inv resume_allowed_def intro!: inv_command_queue [OF inv self])
  next
    case 3
    with inv_pause [OF inv Some id] show ?thesis
      by (simp add: rt_command_pause [OF Some id] inv command_done_snd inv_log)
  next
    case 4
    with inv_stop [OF inv Some id] show ?thesis
      by (simp add: rt_command_stop [OF Some id] inv command_done_snd inv_log)
  next
    case 5
    then show ?thesis using inv by (simp add: rt_command_other [OF Some])
  qed
qed

lemma inv_close_one:
  assumes inv: "rt_inv rb s" and live: "thread_alive i s"
  shows "rt_inv rb (close_one now i s)"
proof -
  let ?c = "(control_of i s)\<lparr>ctl_pause := True\<rparr>"
  obtain r where r: "rt_run i s = Some r" and ph: "worker_phase (r_status r) (control_of i s)"
    and res: "reservations_ok r"
    using rt_invD(4) [OF inv, of i] live by (auto simp: thread_alive_def split: option.splits)
  have id: "r_id r = i" using rt_run_id [OF rt_invD(2) [OF inv] r] .
  show ?thesis
  proof (cases "r_status r = Training")
    case True
    let ?r = "r\<lparr>r_status := Pausing, r_paused := True, r_message := MsgClosing\<rparr>"
    have "rt_inv rb (rt_save now ?r (set_control (r_id ?r) ?c s))"
    proof (rule inv_save_control [OF inv])
      show "rt_run (r_id ?r) s = Some r" using r id by simp
      show "same_resources rb ?r r" by (rule same_resources_eqI) simp_all
      show "reservations_ok ?r" using res by (simp add: reservations_ok_def)
      show "worker_phase (r_status ?r) ?c" using ph True
        by (cases "ctl_stop (control_of i s)") (auto simp: worker_phase_def)
    qed (use live id in simp)
    with True show ?thesis by (simp add: close_one_def r Let_def id)
  next
    case False
    have "worker_phase (r_status r) ?c" using ph False
      by (cases "ctl_stop (control_of i s)"; cases "ctl_pause (control_of i s)")
        (auto simp: worker_phase_def)
    moreover have "close_one now i s = set_control i ?c s"
      using False by (simp add: close_one_def r Let_def)
    moreover have "tables_ok (set_control i ?c s)" using rt_invD(1) [OF inv] by auto
    ultimately show ?thesis
      using rt_invD(4) [OF inv, of i] live r
      by (intro inv_update [OF inv, where j = i]) (auto simp: same_at_def thread_alive_def)
  qed
qed

lemma close_one_frame [simp]:
  "rt_threads (close_one now i s) = rt_threads s"
  "rt_copies (close_one now i s) = rt_copies s"
  "rt_scheduler (close_one now i s) = rt_scheduler s"
  by (simp_all add: close_one_def Let_def split: option.split)

lemma inv_close_fold:
  "rt_inv rb s \<Longrightarrow> (\<And>i. i \<in> set is \<Longrightarrow> thread_alive i s) \<Longrightarrow> rt_inv rb (fold (close_one now) is s)"
proof (induction "is" arbitrary: s)
  case (Cons i "is")
  then have "rt_inv rb (close_one now i s)" by (simp add: inv_close_one)
  with Cons show ?case by (simp add: thread_alive_def)
qed simp

lemma inv_threads_alive:
  assumes "rt_inv rb s" and "dict_get i (rt_threads s) \<noteq> None" shows "thread_alive i s"
  using assms(2) rt_invD(4) [OF assms(1), of i] by (auto simp: thread_alive_def)

lemma inv_close_begin:
  assumes "rt_inv rb s" shows "rt_inv rb (close_begin now s)"
  unfolding close_begin_def
proof (rule inv_close_fold)
  show "rt_inv rb (s\<lparr>rt_closing := True\<rparr>)" by (rule inv_flags [OF assms])
  fix i assume "i \<in> set (dict_keys (rt_threads s))"
  then have "dict_get i (rt_threads s) \<noteq> None" by (simp add: dict_get_None_iff)
  from inv_threads_alive [OF assms this] show "thread_alive i (s\<lparr>rt_closing := True\<rparr>)"
    by (simp add: thread_alive_def)
qed

lemma inv_close_end: "rt_inv rb s \<Longrightarrow> rt_inv rb (snd (close_end now ids s))"
  by (simp add: close_end_def Let_def inv_log release_scheduler_lock_def inv_flags)

definition started :: "rat \<Rightarrow> run_info \<Rightarrow> rt \<Rightarrow> rt" where
  "started now r s =
     (rt_save now (r\<lparr>r_status := Training, r_message := MsgPreparing (r_backend r)\<rparr>)
        (set_control (r_id r) (control_of (r_id r) s) s))
       \<lparr>rt_threads := dict_set (r_id r) True (rt_threads s)\<rparr>"

definition eligible :: "run_info \<Rightarrow> rt \<Rightarrow> bool" where
  "eligible r s \<longleftrightarrow> r_status r = Queued \<and> \<not> r_paused r \<and> \<not> r_stop_requested r
     \<and> dict_get (r_id r) (rt_threads s) = None"

lemma schedule_one_eq:
  "schedule_one now r s = (if eligible r s \<and> can_start s r then started now r s else s)"
  by (auto simp: schedule_one_def eligible_def started_def Let_def)

lemma started_frame [simp]:
  "rt_run i (started now r s) =
     (if i = r_id r then Some (r\<lparr>r_status := Training, r_message := MsgPreparing (r_backend r)\<rparr>) else rt_run i s)"
  "rt_threads (started now r s) = dict_set (r_id r) True (rt_threads s)"
  "rt_copies (started now r s) = rt_copies s"
  "rt_scheduler (started now r s) = rt_scheduler s"
  "control_of i (started now r s) = control_of i s"
  "thread_alive i (started now r s) \<longleftrightarrow> i = r_id r \<or> thread_alive i s"
  by (simp_all add: started_def thread_alive_def dict_get_set)

lemma tables_ok_started: "tables_ok s \<Longrightarrow> tables_ok (started now r s)"
proof -
  assume "tables_ok s"
  then have "tables_ok (rt_save now (r\<lparr>r_status := Training, r_message := MsgPreparing (r_backend r)\<rparr>)
        (set_control (r_id r) (control_of (r_id r) s) s))" by auto
  with \<open>tables_ok s\<close> show ?thesis by (simp add: started_def tables_ok_def dict_ok_set)
qed

lemma reserved_started:
  assumes inv: "rt_inv rb s" and r: "rt_run (r_id r) s = Some r"
    and t: "dict_get (r_id r) (rt_threads s) = None" and f: "f \<in> {r_cpu, r_ram, r_gpu}"
  shows "reserved f (started now r s) = reserved f s + f r"
proof -
  have dead: "\<not> thread_alive (r_id r) s" using t by (simp add: thread_alive_def)
  have "{i. thread_alive i (started now r s)} = insert (r_id r) {i. thread_alive i s}" by auto
  moreover have "(\<Sum>i | thread_alive i s. amount f (rt_run i (started now r s))) =
      (\<Sum>i | thread_alive i s. amount f (rt_run i s))"
    using dead by (intro sum.cong) auto
  moreover have "amount f (rt_run (r_id r) (started now r s)) = f r"
    using f by (auto simp: amount_def)
  ultimately show ?thesis
    using dead finite_live [OF rt_invD(3) [OF inv]]
    by (simp add: reserved_sum [OF tables_ok_started [OF rt_invD(1) [OF inv]]] reserved_sum [OF rt_invD(1) [OF inv]])
qed

lemma within_capacity_reserved:
  "tables_ok s \<Longrightarrow> within_capacity rb s \<longleftrightarrow> (\<forall>f \<in> set (resources rb). reserved f s \<le> capacity)"
  by (simp add: within_capacity_def reserved_sum)

lemma inv_schedule_one:
  assumes inv: "rt_inv rb s" and sched: "rt_scheduler s" and r: "rt_run (r_id r) s = Some r"
  shows "rt_inv rb (schedule_one now r s)"
proof (cases "eligible r s \<and> can_start s r")
  case True
  then have e: "eligible r s" and c: "can_start s r" by simp_all
  have t: "dict_get (r_id r) (rt_threads s) = None" using e by (simp add: eligible_def)
  have at: "idle_phase r (control_of (r_id r) s)" "dict_get (r_id r) (rt_copies s) = None" "reservations_ok r"
    using rt_invD(4) [OF inv, of "r_id r"] r t sched by auto
  with e have ctl: "control_of (r_id r) s = no_control" by (simp add: idle_phase_def eligible_def)
  have tab: "tables_ok (started now r s)" by (rule tables_ok_started [OF rt_invD(1) [OF inv]])
  have "ids_ok rb (started now r s)"
    by (rule ids_ok_update [OF inv, where j = "r_id r"])
      (use at ctl sched in \<open>auto simp: same_at_def worker_phase_def no_control_def reservations_ok_def\<close>)
  moreover have "within_capacity rb (started now r s)"
    using c by (auto simp: within_capacity_reserved [OF tab] resources_def can_start_def
        reserved_started [OF inv r t] split: if_splits)
  ultimately show ?thesis using tab True by (simp add: schedule_one_eq rt_inv_def)
qed (use inv in \<open>auto simp: schedule_one_eq\<close>)

lemma schedule_one_frame:
  "rt_scheduler (schedule_one now r s) = rt_scheduler s"
  "i \<noteq> r_id r \<Longrightarrow> rt_run i (schedule_one now r s) = rt_run i s"
  by (simp_all add: schedule_one_eq)

lemma inv_schedule_fold:
  assumes "rt_inv rb s" and "rt_scheduler s" and "distinct (map r_id rs)"
    and "\<And>r. r \<in> set rs \<Longrightarrow> rt_run (r_id r) s = Some r"
  shows "rt_inv rb (fold (schedule_one now) rs s)"
  using assms
proof (induction rs arbitrary: s)
  case (Cons r rs)
  have "rt_inv rb (schedule_one now r s)" using Cons.prems by (intro inv_schedule_one) auto
  moreover have "rt_run (r_id x) (schedule_one now r s) = Some x" if "x \<in> set rs" for x
    using that Cons.prems by (subst schedule_one_frame(2)) (auto simp: image_iff)
  ultimately show ?case using Cons by (simp add: schedule_one_frame)
qed simp

lemma schedule_order_ok:
  assumes "store_ok (rt_store s)"
  shows "distinct (map r_id (schedule_order s))" and "set (schedule_order s) = set (list_runs (rt_store s))"
proof -
  show "set (schedule_order s) = set (list_runs (rt_store s))" by (simp add: schedule_order_def)
  with distinct_run_ids [OF assms] show "distinct (map r_id (schedule_order s))"
    by (simp add: distinct_map schedule_order_def)
qed

lemma inv_tick:
  assumes inv: "rt_inv rb s" and "rt_scheduler s" shows "rt_inv rb (schedule_tick now s)"
  unfolding schedule_tick_def
  using schedule_order_ok [OF rt_invD(2) [OF inv]] in_runs_iff [OF rt_invD(2) [OF inv]] assms
  by (intro inv_schedule_fold) auto

lemma inv_live_run:
  assumes "rt_inv rb s" and "thread_alive i s"
  obtains r where "rt_run i s = Some r" "r_id r = i" "reservations_ok r"
    "worker_phase (r_status r) (control_of i s)"
    "\<And>w. dict_get i (rt_copies s) = Some w \<Longrightarrow> same_resources rb w r \<and> reservations_ok w"
proof -
  obtain r where "rt_run i s = Some r" "reservations_ok r" "worker_phase (r_status r) (control_of i s)"
    "\<And>w. dict_get i (rt_copies s) = Some w \<Longrightarrow> same_resources rb w r \<and> reservations_ok w"
    using rt_invD(4) [OF assms(1), of i] assms(2) by (auto simp: thread_alive_def split: option.splits)
  with that rt_run_id [OF rt_invD(2) [OF assms(1)]] show ?thesis by blast
qed

lemma inv_set_copy:
  assumes inv: "rt_inv rb s" and live: "thread_alive i s" and r: "rt_run i s = Some r"
    and w: "same_resources rb w r" "reservations_ok w"
  shows "rt_inv rb (s\<lparr>rt_copies := dict_set i w (rt_copies s)\<rparr>)"
proof (rule inv_update [OF inv, where j = i])
  show "tables_ok (s\<lparr>rt_copies := dict_set i w (rt_copies s)\<rparr>)"
    using rt_invD(1) [OF inv] by (simp add: tables_ok_def dict_ok_set)
  show "id_ok rb (rt_scheduler (s\<lparr>rt_copies := dict_set i w (rt_copies s)\<rparr>))
     (dict_get i (rt_threads (s\<lparr>rt_copies := dict_set i w (rt_copies s)\<rparr>)))
     (rt_run i (s\<lparr>rt_copies := dict_set i w (rt_copies s)\<rparr>))
     (control_of i (s\<lparr>rt_copies := dict_set i w (rt_copies s)\<rparr>))
     (dict_get i (rt_copies (s\<lparr>rt_copies := dict_set i w (rt_copies s)\<rparr>)))"
    using rt_invD(4) [OF inv, of i] live r w by (simp add: thread_alive_def)
qed (auto simp: same_at_def thread_alive_def)

lemma same_resources_refl [simp]: "same_resources rb r r"
  by (simp add: same_resources_def)

lemma inv_worker_begin:
  assumes inv: "rt_inv rb s" and live: "thread_alive i s" shows "rt_inv rb (worker_begin i s)"
proof -
  obtain r where r: "rt_run i s = Some r" "reservations_ok r" using inv_live_run [OF inv live] by blast
  then show ?thesis using inv_set_copy [OF inv live r(1), of r] by (simp add: worker_begin_def)
qed

lemma truncate_fields:
  assumes "run_plan.truncate a = run_plan.truncate b"
  shows "r_id a = r_id b" "r_cpu a = r_cpu b" "r_ram a = r_ram b" "r_gpu a = r_gpu b"
  using arg_cong [OF assms, of r_id] arg_cong [OF assms, of r_cpu] arg_cong [OF assms, of r_ram]
    arg_cong [OF assms, of r_gpu]
  by (simp_all add: run_plan.truncate_def)

lemma merge_progress_simps [simp]:
  "r_id (merge_progress (Some c) r) = r_id r"
  "r_status (merge_progress (Some c) r) = r_status c"
  "r_paused (merge_progress (Some c) r) = r_paused c"
  "r_stop_requested (merge_progress (Some c) r) = r_stop_requested c"
  "reservations_ok (merge_progress (Some c) r) = reservations_ok r"
  "same_resources rb (merge_progress (Some c) r) x = same_resources rb r x"
  by (auto simp: merge_progress_def reservations_ok_def same_resources_def resources_def)

lemma same_resources_trans: "same_resources rb a b \<Longrightarrow> same_resources rb b c \<Longrightarrow> same_resources rb a c"
  by (auto simp: same_resources_def)

lemma inv_worker_progress:
  assumes inv: "rt_inv rb s" and live: "thread_alive i s" and w: "dict_get i (rt_copies s) = Some w"
    and t: "run_plan.truncate w' = run_plan.truncate w"
  shows "rt_inv rb (save_worker_progress now w' s)"
proof -
  obtain r where r: "rt_run i s = Some r" "r_id r = i" "reservations_ok r" and wr: "same_resources rb w r"
    and res: "reservations_ok w"
    using inv_live_run [OF inv live] w by blast
  have w'w: "same_resources rb w' w" using truncate_fields [OF t] by (intro same_resources_eqI)
  have w'r: "same_resources rb w' r" by (rule same_resources_trans [OF w'w wr])
  then have id: "r_id w' = i" using r by (simp add: same_resources_def)
  have res': "reservations_ok w'" using res truncate_fields [OF t] by (simp add: reservations_ok_def)
  let ?w = "merge_progress (Some r) w'"
  let ?s = "s\<lparr>rt_copies := dict_set i ?w (rt_copies s)\<rparr>"
  have inv': "rt_inv rb ?s" using w'r res' by (intro inv_set_copy [OF inv live r(1)]) simp_all
  have "rt_inv rb (rt_save now ?w ?s)"
    using r w'r res' id by (intro inv_save [OF inv', of _ r]) simp_all
  then show ?thesis by (simp add: save_worker_progress_def id r(1) Let_def)
qed

definition finalized :: "outcome \<Rightarrow> kerror option \<Rightarrow> run_info \<Rightarrow> run_info" where
  "finalized out failure r = (case out of
       ErrorO \<Rightarrow> r\<lparr>r_status := Error_Recoverable, r_paused := True,
         r_termination_reason := Some (if failure \<noteq> None then ''worker_crash''
                                       else ''recoverable_backend_error''),
         r_message := MsgError (error_name (case failure of None \<Rightarrow> RuntimeError | Some e \<Rightarrow> e))\<rparr>
     | StopO \<Rightarrow> r\<lparr>r_status := Stopped, r_stop_requested := True, r_paused := True,
         r_termination_reason := Some ''user_stop'', r_message := MsgStopFinal\<rparr>
     | PauseO \<Rightarrow> r\<lparr>r_status := Paused, r_stop_requested := False, r_paused := True,
         r_termination_reason := Some ''user_pause'', r_message := MsgPauseFinal\<rparr>
     | CompleteO \<Rightarrow> r\<lparr>r_status := Completed, r_stop_requested := False, r_paused := False\<rparr>)"

fun final_status :: "outcome \<Rightarrow> run_status" where
  "final_status ErrorO = Error_Recoverable"
| "final_status StopO = Stopped"
| "final_status PauseO = Paused"
| "final_status CompleteO = Completed"

lemma finalized_simps [simp]:
  "r_id (finalized out failure r) = r_id r"
  "r_status (finalized out failure r) = final_status out"
  "reservations_ok (finalized out failure r) = reservations_ok r"
  by (cases out; simp add: finalized_def reservations_ok_def)+

lemma final_status_idle [simp]: "final_status out \<notin> {Training, Pausing, Stopping, Queued}"
  by (cases out) auto

lemma finalize_frame [simp]:
  "rt_run i (finalize_lifecycle now r out failure s) =
     (if i = r_id r then Some (finalized out failure r) else rt_run i s)"
  "rt_threads (finalize_lifecycle now r out failure s) = rt_threads s"
  "rt_controls (finalize_lifecycle now r out failure s) = rt_controls s"
  "rt_copies (finalize_lifecycle now r out failure s) = rt_copies s"
  "rt_scheduler (finalize_lifecycle now r out failure s) = rt_scheduler s"
  by (cases out; simp add: finalize_lifecycle_def finalized_def Let_def)+

lemma tables_ok_finalize: "tables_ok s \<Longrightarrow> tables_ok (finalize_lifecycle now r out failure s)"
  by (auto simp: finalize_lifecycle_def Let_def)

lemma inv_worker_finish:
  assumes inv: "rt_inv rb s" and live: "thread_alive i s"
  shows "rt_inv rb (worker_finish now i out failure s)"
proof -
  obtain r where r: "rt_run i s = Some r" "r_id r = i" "reservations_ok r"
    using inv_live_run [OF inv live] by blast
  let ?o = "effective_outcome r (control_of i s) out failure"
  have eq: "worker_finish now i out failure s = (finalize_lifecycle now r ?o failure s)
      \<lparr>rt_threads := dict_del i (rt_threads s), rt_controls := dict_del i (rt_controls s),
       rt_copies := dict_del i (rt_copies s)\<rparr>"
    by (simp add: worker_finish_def r Let_def)
  have tab: "tables_ok (finalize_lifecycle now r ?o failure s)"
    by (rule tables_ok_finalize [OF rt_invD(1) [OF inv]])
  have ok: "dict_ok (rt_threads s)" "dict_ok (rt_controls s)" "dict_ok (rt_copies s)"
    using rt_invD(1) [OF inv] by (simp_all add: tables_ok_def)
  show ?thesis
  proof (rule inv_update [OF inv, where j = i])
    show "tables_ok (worker_finish now i out failure s)"
      using tab ok by (simp add: eq tables_ok_def dict_ok_del)
  qed (use ok r final_status_idle [of ?o] in \<open>auto simp: eq same_at_def control_of_def idle_phase_def thread_alive_def\<close>)
qed

lemma inv_create:
  assumes inv: "rt_inv rb s" and "dict_get (r_id r) (rt_threads s) = None" "r_status r = Draft"
    "reservations_ok r"
  shows "rt_inv rb (store_created now r s)"
  using assms by (simp add: store_created_def inv_log inv_save_idle idle_phase_def)

lemma inv_remove:
  assumes inv: "rt_inv rb s" shows "rt_inv rb (snd (rt_remove now i s))"
proof (cases "rt_run i s")
  case (Some r)
  show ?thesis
  proof (cases "r_status r \<in> set removable")
    case True
    have t: "dict_get i (rt_threads s) = None"
      using True by (intro inv_idle_thread [OF inv Some]) (auto simp: removable_def)
    have "get_run i (rt_store s) = Some r" using Some by (simp add: rt_run_def)
    then obtain st where st: "delete_run i (rt_store s) = Inr st"
      by (auto simp: delete_run_def get_run_def)
    have ok: "store_ok st" by (rule store_ok_delete_run [OF rt_invD(2) [OF inv] st])
    have run: "rt_run j (s\<lparr>rt_store := st\<rparr>) = (if j = i then None else rt_run j s)" for j
      using st rt_invD(2) [OF inv]
      by (auto simp: rt_run_def delete_run_def get_run_def dict_get_del store_ok_def split: option.splits)
    have "rt_inv rb (s\<lparr>rt_store := st\<rparr>)"
    proof (rule inv_update [OF inv, where j = i])
      show "tables_ok (s\<lparr>rt_store := st\<rparr>)" using rt_invD(1) [OF inv] ok by (simp add: tables_ok_def)
    qed (use t rt_invD(4) [OF inv, of i] in \<open>auto simp: run same_at_def thread_alive_def split: option.splits\<close>)
    then show ?thesis using True by (simp add: rt_remove_def Some st inv_log)
  qed (use inv in \<open>simp add: rt_remove_def Some\<close>)
qed (use inv in \<open>simp add: rt_remove_def\<close>)

lemma inv_save_fold:
  assumes "rt_inv True s" and "distinct (map r_id rs)"
    and "\<And>x. x \<in> set rs \<Longrightarrow> \<exists>r g. rt_run (r_id x) s = Some r \<and> x = r\<lparr>r_gpu := g\<rparr> \<and> 0 \<le> g"
  shows "rt_inv True (fold (rt_save now) rs s)"
  using assms
proof (induction rs arbitrary: s)
  case (Cons x rs)
  obtain r g where r: "rt_run (r_id x) s = Some r" "x = r\<lparr>r_gpu := g\<rparr>" "0 \<le> g"
    using Cons.prems(3) [of x] by auto
  have "rt_inv True (rt_save now x s)"
    using r inv_reservations [OF Cons.prems(1) r(1)]
    by (intro inv_save [OF Cons.prems(1), of _ r]) (auto simp: same_resources_def resources_def reservations_ok_def)
  moreover have "\<exists>r g. rt_run (r_id y) (rt_save now x s) = Some r \<and> y = r\<lparr>r_gpu := g\<rparr> \<and> 0 \<le> g"
    if "y \<in> set rs" for y
    using that Cons.prems(2,3) by (auto simp: image_iff)
  ultimately show ?case using Cons by simp
qed simp

lemma inv_rebalance:
  assumes inv: "rt_inv True s" shows "rt_inv True (rt_rebalance now gpu s)"
proof -
  let ?rs = "filter (\<lambda>r. r_status r = Training) (list_runs (rt_store s))"
  have "map r_id (rebalance_plan s) = map r_id ?rs" by (simp add: rebalance_plan_def Let_def)
  moreover have "distinct (map r_id ?rs)"
    using distinct_run_ids [OF rt_invD(2) [OF inv]] by (rule distinct_map_filter)
  moreover have "\<exists>r g. rt_run (r_id x) s = Some r \<and> x = r\<lparr>r_gpu := g\<rparr> \<and> 0 \<le> g"
    if "x \<in> set (rebalance_plan s)" for x
    using that in_runs_iff [OF rt_invD(2) [OF inv]] by (fastforce simp: rebalance_plan_def Let_def)
  ultimately show ?thesis
    using inv by (auto simp: rt_rebalance_def rebalance_save_def intro!: inv_save_fold)
qed

lemma rt_inv_step:
  assumes "rt_step rb s s'" and "rt_inv rb s" and "quiet s s'"
  shows "rt_inv rb s'"
  using assms
proof (cases rule: rt_step.cases)
  case (Rebalance now g)
  with assms show ?thesis by (simp add: inv_rebalance)
qed (auto simp: scheduler_exit_def inv_flags inv_close_begin inv_close_end inv_tick inv_worker_begin
      inv_worker_progress inv_worker_finish inv_create inv_remove
    intro: inv_command inv_start)

lemma rt_inv_init: "opened st \<Longrightarrow> rt_inv rb (rt_new st)"
  by (auto simp: opened_def rt_inv_def tables_ok_def rt_new_def dict_ok_def ids_ok_def within_capacity_def
      thread_alive_def capacity_def rt_run_def list_all_iff in_list_runs_iff get_run_id split: option.split)

lemma rt_inv_reach: "rt_reach rb s \<Longrightarrow> rt_inv rb s"
  by (induction rule: rt_reach.induct) (auto intro: rt_inv_init rt_inv_step)

end
