(* ===== verification/RuntimeSpec.thy ===== *)
theory RuntimeSpec imports Runtime begin

text \<open>
  What the control plane of \<open>runtime.py\<close> promises, proved of every reachable state: the abstract life
  cycle of a run, the agreement of records and worker threads, resource reservations, the outcome of
  each command, the end of a worker, recovery after a restart, and the two races of \<open>rebalance\<close>.
\<close>

section \<open>The abstract life cycle\<close>

text \<open>What the control plane promises of a run, without threads, controls, copies or resources.\<close>

fun successors :: "run_status \<Rightarrow> run_status list" where
  "successors Draft = [Queued, Stopped]"
| "successors Queued = [Training, Paused, Stopped, Error_Recoverable]"
| "successors Training = [Pausing, Stopping, Completed, Error_Recoverable]"
| "successors Pausing = [Stopping, Paused, Error_Recoverable]"
| "successors Paused = [Queued, Stopped]"
| "successors Stopping = [Stopped, Error_Recoverable]"
| "successors Stopped = [Queued]"
| "successors Completed = []"
| "successors Error_Recoverable = [Queued, Stopped]"
| "successors Error_Status = []"

text \<open>Before a process starts its scheduler, the database may hold the active records of a crashed
  one; they have no worker, so a pause or stop ends them at once.\<close>

fun stale_successors :: "run_status \<Rightarrow> run_status list" where
  "stale_successors Training = [Paused, Stopped]"
| "stale_successors Pausing = [Stopped]"
| "stale_successors _ = []"

fun lifecycle_ok :: "bool \<Rightarrow> run_status option \<Rightarrow> run_status option \<Rightarrow> bool" where
  "lifecycle_ok sched None b = (b = None \<or> b = Some Draft)"
| "lifecycle_ok sched (Some a) None = (a \<in> set removable)"
| "lifecycle_ok sched (Some a) (Some b) =
     (a = b \<or> b \<in> set (successors a) \<or> (\<not> sched \<and> b \<in> set (stale_successors a)))"

definition status_of :: "string \<Rightarrow> rt \<Rightarrow> run_status option" where
  "status_of i s = map_option r_status (rt_run i s)"

lemma lifecycle_refl [simp]: "lifecycle_ok sched a a"
  by (cases a) auto

lemma status_of_frame [simp]:
  "status_of i (rt_log now a w p s) = status_of i s"
  "status_of i (set_control j c s) = status_of i s"
  "status_of i (rt_save now r s) = (if i = r_id r then Some (r_status r) else status_of i s)"
  by (simp_all add: status_of_def)

lemma lifecycle_start:
  assumes "rt_inv rb s" shows "lifecycle_ok (rt_scheduler s) (status_of i s) (status_of i (snd (rt_start now lf s)))"
proof (cases rule: rt_start_cases [of now lf s])
  case (revived s0)
  have "rt_run i s0 = rt_run i s" by (simp flip: revived(1))
  then show ?thesis
    using recover_all_runs [of s0 i now] rt_invD(2) [OF assms]
    by (cases "rt_run i s")
      (auto simp: revived(7) revived(6) status_of_def recovered_def recover_run_def)
qed simp

lemma lifecycle_queue:
  assumes inv: "rt_inv rb s" and r: "rt_run (r_id r) s = Some r"
    and st: "Queued \<in> set (successors (r_status r))"
  shows "lifecycle_ok (rt_scheduler s) (status_of i s) (status_of i (snd (command_queue now lf actor cmd msg r s)))"
proof -
  have idle: "r_status r \<notin> {Training, Pausing, Stopping, Queued}" using st by (cases "r_status r") auto
  have inv0: "rt_inv rb (set_control (r_id r) no_control s)" by (rule inv_set_idle_control [OF inv r idle])
  show ?thesis
    using lifecycle_start [OF inv0, of i now lf] r st
    by (cases rule: command_queue_cases [of now lf actor cmd msg r s])
      (auto simp: command_done_snd status_of_def)
qed

lemma lifecycle_command:
  assumes inv: "rt_inv rb s"
  shows "lifecycle_ok (rt_scheduler s) (status_of i s) (status_of i (snd (rt_command now lf actor j cmd s)))"
proof (cases "rt_run j s")
  case None
  then show ?thesis by (simp add: rt_command_missing)
next
  case (Some r)
  have id: "r_id r = j" using rt_run_id [OF rt_invD(2) [OF inv] Some] .
  have self: "rt_run (r_id r) s = Some r" using Some id by simp
  have phase: "thread_alive j s \<Longrightarrow> r_status r \<in> {Training, Pausing, Stopping}"
    using inv_live_phase [OF inv _ Some] by (auto simp: worker_phase_def split: if_splits)
  have dead: "rt_scheduler s \<Longrightarrow> \<not> thread_alive j s \<Longrightarrow> r_status r \<notin> {Training, Pausing, Stopping}"
    using rt_invD(4) [OF inv, of j] Some by (cases "dict_get j (rt_threads s)") (auto simp: thread_alive_def idle_phase_def)
  consider "cmd = ''start''" | "cmd = ''resume''" | "cmd = ''pause''" | "cmd = ''stop''"
    | "cmd \<notin> {''start'', ''resume'', ''pause'', ''stop''}" by blast
  then show ?thesis
  proof cases
    case 1
    then show ?thesis
      using lifecycle_queue [OF inv self, of i now lf actor cmd] by (auto simp: rt_command_start [OF Some])
  next
    case 2
    then show ?thesis
      using lifecycle_queue [OF inv self, of i now lf actor cmd]
      by (auto simp: rt_command_resume [OF Some] resume_allowed_def)
  next
    case 3
    then show ?thesis
      using phase dead by (auto simp: rt_command_pause [OF Some id] command_done_snd id Some status_of_def)
  next
    case 4
    then show ?thesis
      using phase dead
      by (auto simp: rt_command_stop [OF Some id] command_done_snd id Some status_of_def stop_allowed_def)
  next
    case 5
    then show ?thesis by (simp add: rt_command_other [OF Some])
  qed
qed

lemma close_one_status:
  assumes "store_ok (rt_store s)"
  shows "status_of i (close_one now j s) = status_of i s \<or>
    (status_of i s = Some Training \<and> status_of i (close_one now j s) = Some Pausing)"
    and "store_ok (rt_store (close_one now j s))"
  using assms rt_run_id [OF assms]
  by (auto simp: close_one_def Let_def status_of_def intro: store_ok_save_run split: option.split)

lemma close_fold_status:
  "store_ok (rt_store s) \<Longrightarrow> status_of i (fold (close_one now) js s) = status_of i s \<or>
    (status_of i s = Some Training \<and> status_of i (fold (close_one now) js s) = Some Pausing)"
proof (induction js arbitrary: s)
  case (Cons j js)
  from Cons.IH [OF close_one_status(2) [OF Cons.prems, of now j]] close_one_status(1) [OF Cons.prems, of i now j]
  show ?case by auto
qed simp

lemma schedule_fold_run:
  assumes "distinct (map r_id rs)" and "\<And>r. r \<in> set rs \<Longrightarrow> rt_run (r_id r) s = Some r"
  shows "rt_run i (fold (schedule_one now) rs s) = rt_run i s \<or>
    (\<exists>r. rt_run i s = Some r \<and> r_status r = Queued \<and>
         rt_run i (fold (schedule_one now) rs s) =
           Some (r\<lparr>r_status := Training, r_message := MsgPreparing (r_backend r)\<rparr>))"
  using assms
proof (induction rs arbitrary: s)
  case (Cons r rs)
  let ?s = "schedule_one now r s"
  have "rt_run (r_id x) ?s = Some x" if "x \<in> set rs" for x
    using that Cons.prems by (subst schedule_one_frame(2)) (auto simp: image_iff)
  with Cons.IH [of ?s] Cons.prems(1) have IH: "rt_run i (fold (schedule_one now) rs ?s) = rt_run i ?s \<or>
    (\<exists>r. rt_run i ?s = Some r \<and> r_status r = Queued \<and> rt_run i (fold (schedule_one now) rs ?s) =
           Some (r\<lparr>r_status := Training, r_message := MsgPreparing (r_backend r)\<rparr>))" by auto
  show ?case
  proof (cases "i = r_id r \<and> eligible r s \<and> can_start s r")
    case True
    then have eq: "?s = started now r s" and q: "r_status r = Queued" "i = r_id r"
      by (simp_all add: schedule_one_eq) (simp add: eligible_def)
    from IH Cons.prems(2) [of r] show ?thesis unfolding eq fold_simps by (auto simp: q)
  next
    case False
    then have "rt_run i ?s = rt_run i s" by (auto simp: schedule_one_eq)
    then show ?thesis using IH by simp
  qed
qed simp

lemma status_save_fold:
  "(\<And>x. x \<in> set rs \<Longrightarrow> status_of (r_id x) s = Some (r_status x)) \<Longrightarrow>
     status_of i (fold (rt_save now) rs s) = status_of i s"
proof (induction rs arbitrary: s)
  case (Cons x rs)
  have eq: "status_of j (rt_save now x s) = status_of j s" for j using Cons.prems [of x] by auto
  have "status_of i (fold (rt_save now) rs (rt_save now x s)) = status_of i (rt_save now x s)"
    by (rule Cons.IH) (use Cons.prems eq in auto)
  then show ?case using eq by simp
qed simp

lemma lifecycle_finish:
  assumes inv: "rt_inv rb s" and live: "thread_alive j s"
    and out: "out = StopO \<longrightarrow> ctl_stop (control_of j s)" "out = PauseO \<longrightarrow> ctl_pause (control_of j s)"
  shows "lifecycle_ok b (status_of i s) (status_of i (worker_finish now j out failure s))"
proof -
  obtain r where r: "rt_run j s = Some r" "r_id r = j" "worker_phase (r_status r) (control_of j s)"
    using inv_live_run [OF inv live] by blast
  then show ?thesis using out
    by (cases out; cases "ctl_stop (control_of j s)"; cases "ctl_pause (control_of j s)")
      (auto simp: worker_finish_def Let_def status_of_def effective_outcome_def worker_phase_def)
qed

lemma lifecycle_progress:
  assumes inv: "rt_inv rb s" and live: "thread_alive j s" and w: "dict_get j (rt_copies s) = Some w"
    and t: "run_plan.truncate w' = run_plan.truncate w"
  shows "status_of i (save_worker_progress now w' s) = status_of i s"
proof -
  obtain r where r: "rt_run j s = Some r" "r_id r = j" "same_resources rb w r"
    using inv_live_run [OF inv live] w by blast
  then have "r_id w' = j" using truncate_fields(1) [OF t] by (simp add: same_resources_def)
  with r show ?thesis by (simp add: save_worker_progress_def Let_def status_of_def)
qed

lemma lifecycle_remove:
  assumes inv: "rt_inv rb s" shows "lifecycle_ok b (status_of i s) (status_of i (snd (rt_remove now j s)))"
  using rt_invD(2) [OF inv]
  by (auto simp: rt_remove_def status_of_def delete_run_def rt_run_def get_run_def dict_get_del store_ok_def
      split: option.splits sum.splits)

lemma lifecycle_rebalance:
  assumes inv: "rt_inv rb s" shows "status_of i (rt_rebalance now g s) = status_of i s"
proof -
  have "status_of (r_id x) s = Some (r_status x)" if "x \<in> set (rebalance_plan s)" for x
    using that in_runs_iff [OF rt_invD(2) [OF inv]]
    by (fastforce simp: rebalance_plan_def Let_def status_of_def)
  then show ?thesis by (simp add: rt_rebalance_def rebalance_save_def status_save_fold)
qed

lemma lifecycle_tick:
  assumes inv: "rt_inv rb s" shows "lifecycle_ok b (status_of i s) (status_of i (schedule_tick now s))"
  using schedule_fold_run [OF schedule_order_ok(1) [OF rt_invD(2) [OF inv]], of s i now]
    schedule_order_ok(2) [OF rt_invD(2) [OF inv]] in_runs_iff [OF rt_invD(2) [OF inv]]
  by (auto simp: schedule_tick_def status_of_def)

lemma lifecycle_close_begin:
  assumes inv: "rt_inv rb s" shows "lifecycle_ok b (status_of i s) (status_of i (close_begin now s))"
  using close_fold_status [of "s\<lparr>rt_closing := True\<rparr>" i now "dict_keys (rt_threads s)"] rt_invD(2) [OF inv]
  by (auto simp: close_begin_def status_of_def)

lemma lifecycle_step_inv:
  assumes "rt_step rb s s'" and inv: "rt_inv rb s"
  shows "lifecycle_ok (rt_scheduler s) (status_of i s) (status_of i s')"
  using assms(1)
proof (cases rule: rt_step.cases)
  case (Command now lf actor j cmd)
  then show ?thesis by (simp add: lifecycle_command [OF inv])
next
  case (Start now lf)
  then show ?thesis by (simp add: lifecycle_start [OF inv])
next
  case (CloseBegin now)
  then show ?thesis by (simp add: lifecycle_close_begin [OF inv])
next
  case (CloseEnd now ids)
  then show ?thesis by (simp add: close_end_def Let_def release_scheduler_lock_def status_of_def)
next
  case SchedulerExit
  then show ?thesis by (simp add: scheduler_exit_def status_of_def)
next
  case (Tick now)
  then show ?thesis by (simp add: lifecycle_tick [OF inv])
next
  case (WorkerBegin j)
  then show ?thesis by (simp add: worker_begin_def status_of_def split: option.split)
next
  case (WorkerProgress j w w' now)
  then show ?thesis by (simp add: lifecycle_progress [OF inv])
next
  case (WorkerFinish j out now failure)
  then show ?thesis by (simp add: lifecycle_finish [OF inv])
next
  case (Create r now)
  then show ?thesis by (simp add: store_created_def) (simp add: status_of_def)
next
  case (Remove now j)
  then show ?thesis by (simp add: lifecycle_remove [OF inv])
next
  case (Rebalance now g)
  then show ?thesis using inv by (simp add: lifecycle_rebalance)
qed

section \<open>A concrete run of the process\<close>

definition demo_plan :: run_plan where
  "demo_plan = \<lparr>r_id = ''r1'', r_name = ''demo'', r_dataset = ''d'', r_backend = ''numpy'',
     r_objective = ''binary'', r_architecture = ''linear'', r_model_format = ''npz'', r_mode = ''new'',
     r_profile = ''balanced'', r_execution = ''cpu'', r_algorithm_pack = ''balanced'', r_priority = ''normal'',
     r_target_score = Fin (9/10), r_batch_mode = ''auto'', r_batch_min = 8, r_batch_max = 64,
     r_batch_risk = ''low'', r_batch_reason = BatchReason 100 4 70 ''balanced'' 64, r_batch_warnings = [],
     r_max_steps = 100, r_cpu = 40, r_ram = 50, r_gpu = 0, r_threads = 2, r_base_run_id = None,
     r_model_path = None, r_seed = 1, r_learning_rate = None, r_weight_decay = Fin 0,
     r_hidden_layers = [], r_precision = ''float32'', r_data_workers = 0, r_prefetch = 2,
     r_evaluation_interval = None, r_min_improvement = Fin 0, r_degradation_margin = Fin (1/32),
     r_degradation_patience = 3, r_early_stopping_patience = 5, r_target_patience = 2,
     r_data_contract = [], r_split_policy = [], r_chunk_policy = [], r_created_at = 1\<rparr>"

definition demo_run :: "string \<Rightarrow> run_info" where
  "demo_run i = run_new (demo_plan\<lparr>r_id := i\<rparr>) 32"

definition demo_created :: rt where
  "demo_created = store_created 1 (demo_run ''r1'') (rt_new empty_store)"

definition demo_queued :: rt where
  "demo_queued = snd (rt_command 2 True ''sdk'' ''r1'' ''start'' demo_created)"

definition demo_training :: rt where
  "demo_training = schedule_tick 3 demo_queued"

definition demo_stopping :: rt where
  "demo_stopping = snd (rt_command 4 True ''sdk'' ''r1'' ''stop'' demo_training)"

lemma demo_run_simps [simp]:
  "r_id (demo_run i) = i" "r_status (demo_run i) = Draft" "r_cpu (demo_run i) = 40"
  "r_ram (demo_run i) = 50" "r_gpu (demo_run i) = 0" "r_paused (demo_run i) = False"
  "r_stop_requested (demo_run i) = False" "reservations_ok (demo_run i)"
  by (simp_all add: demo_run_def demo_plan_def reservations_ok_def)

lemma list_runs_single: "st_runs st = [(k, r, t)] \<Longrightarrow> list_runs st = [r]"
  by (simp add: list_runs_def)

lemma demo_reach_created: "rt_reach rb demo_created"
proof (rule rt_reach.Step)
  show "rt_reach rb (rt_new empty_store)"
    by (rule rt_reach.Init) (simp add: opened_def store_ok_empty, simp add: list_runs_def empty_store_def)
  show "rt_step rb (rt_new empty_store) demo_created"
    unfolding demo_created_def
    by (rule rt_step.Create) (simp_all add: rt_run_def rt_new_def empty_store_def get_run_def)
  show "quiet (rt_new empty_store) demo_created" by (simp add: quiet_def rt_new_def)
qed

lemma demo_created_simps [simp]:
  "rt_run i demo_created = (if i = ''r1'' then Some (demo_run ''r1'') else None)"
  "rt_threads demo_created = []" "rt_controls demo_created = []" "rt_scheduler demo_created = False"
  "rt_lock_held demo_created = False" "st_runs (rt_store demo_created) = [(''r1'', demo_run ''r1'', 1)]"
  by (simp_all add: demo_created_def store_created_def rt_new_def rt_run_def rt_save_def rt_log_def
      empty_store_def get_run_def save_run_def dict_set_def log_action_def)

lemma demo_queued_eq:
  "demo_queued = snd (command_done 2 ''sdk'' ''start'' (enqueue MsgWaitingSlot (demo_run ''r1''))
     (snd (rt_start 2 True (set_control ''r1'' no_control demo_created))))"
  unfolding demo_queued_def
  by (simp add: rt_command_start command_queue_def rt_start_def acquire_scheduler_lock_def)

lemma demo_queued_simps [simp]:
  "rt_run i demo_queued = (if i = ''r1'' then Some (enqueue MsgWaitingSlot (demo_run ''r1'')) else None)"
  "rt_threads demo_queued = []" "rt_scheduler demo_queued"
  "st_runs (rt_store demo_queued) = [(''r1'', enqueue MsgWaitingSlot (demo_run ''r1''), 2)]"
  by (simp_all add: demo_queued_eq command_done_snd rt_start_def acquire_scheduler_lock_def recover_one_def
      list_runs_single [where r = "demo_run ''r1''"] save_run_def log_action_def dict_set_def)

lemma demo_training_eq: "demo_training = started 3 (enqueue MsgWaitingSlot (demo_run ''r1'')) demo_queued"
  by (simp add: demo_training_def schedule_tick_def schedule_order_def schedule_one_eq eligible_def
      can_start_def live_ids_def reserved_def capacity_def enqueue_def
      list_runs_single [where r = "enqueue MsgWaitingSlot (demo_run ''r1'')"])

lemma demo_training_simps [simp]:
  "thread_alive i demo_training \<longleftrightarrow> i = ''r1''"
  "rt_scheduler demo_training"
  "rt_run ''r1'' demo_training = Some ((demo_run ''r1'')\<lparr>r_status := Training, r_message := MsgPreparing ''numpy''\<rparr>)"
  by (simp_all add: demo_training_eq)
    (simp_all add: thread_alive_def enqueue_def demo_run_def demo_plan_def run_new_def run_plan.defs run_info.defs)

lemma demo_reach_queued: "rt_reach rb demo_queued"
proof (rule rt_reach.Step [OF demo_reach_created])
  show "rt_step rb demo_created demo_queued" unfolding demo_queued_def by (rule rt_step.Command)
  show "quiet demo_created demo_queued" by (simp add: quiet_def)
qed

lemma demo_reach_training: "rt_reach rb demo_training"
proof (rule rt_reach.Step [OF demo_reach_queued])
  show "rt_step rb demo_queued demo_training" unfolding demo_training_def by (rule rt_step.Tick) simp
  show "quiet demo_queued demo_training" by (simp add: quiet_def)
qed

lemma demo_stopping_eq: "demo_stopping = snd (command_done 4 ''sdk'' ''stop''
    (stopped_record True ((demo_run ''r1'')\<lparr>r_status := Training, r_message := MsgPreparing ''numpy''\<rparr>))
    (set_control ''r1'' ((control_of ''r1'' demo_training)\<lparr>ctl_stop := True\<rparr>) demo_training))"
  by (simp add: demo_stopping_def rt_command_stop stop_allowed_def)

lemma demo_stopping_simps [simp]:
  "thread_alive i demo_stopping \<longleftrightarrow> i = ''r1''" "rt_scheduler demo_stopping"
  "status_of ''r1'' demo_stopping = Some Stopping"
  by (simp_all add: demo_stopping_eq command_done_snd)

lemma demo_reach_stopping: "rt_reach rb demo_stopping"
proof (rule rt_reach.Step [OF demo_reach_training])
  show "rt_step rb demo_training demo_stopping" unfolding demo_stopping_def by (rule rt_step.Command)
  show "quiet demo_training demo_stopping" by (simp add: quiet_def)
qed

section \<open>Work conservation\<close>

lemma can_start_started:
  assumes inv: "rt_inv rb s" and r: "rt_run (r_id r) s = Some r" and t: "dict_get (r_id r) (rt_threads s) = None"
    and no: "\<not> can_start s x"
  shows "\<not> can_start (started now r s) x"
proof (cases "list_ex (draining s) (live_ids s)")
  case True
  then obtain j where j: "thread_alive j s" "draining s j"
    by (auto simp: list_ex_iff set_live_ids [OF rt_invD(3) [OF inv]])
  moreover have "j \<noteq> r_id r" using j(1) t by (auto simp: thread_alive_def)
  ultimately have "draining (started now r s) j" "thread_alive j (started now r s)"
    by (simp_all add: draining_def)
  moreover have "dict_ok (rt_threads (started now r s))"
    using tables_ok_started [OF rt_invD(1) [OF inv]] by (simp add: tables_ok_def)
  ultimately show ?thesis by (auto simp: can_start_def list_ex_iff set_live_ids)
next
  case False
  with no inv_reservations [OF inv r] show ?thesis
    by (auto simp: can_start_def reserved_started [OF inv r t] reservations_ok_def)
qed

lemma can_start_schedule_one:
  assumes "rt_inv rb s" and "rt_run (r_id r) s = Some r" and "\<not> can_start s x"
  shows "\<not> can_start (schedule_one now r s) x"
  using assms can_start_started [OF assms(1,2) _ assms(3)] by (auto simp: schedule_one_eq eligible_def)

lemma threads_grow:
  "dict_get i (rt_threads s) \<noteq> None \<Longrightarrow> dict_get i (rt_threads (fold (schedule_one now) rs s)) \<noteq> None"
proof (induction rs arbitrary: s)
  case (Cons r rs)
  have "dict_get i (rt_threads (schedule_one now r s)) \<noteq> None"
    using Cons.prems by (auto simp: schedule_one_eq dict_get_set)
  then show ?case unfolding fold_simps by (rule Cons.IH)
qed simp

definition tick_state :: "run_info list \<Rightarrow> rt \<Rightarrow> bool" where
  "tick_state rs s \<longleftrightarrow> rt_scheduler s \<and> distinct (map r_id rs) \<and> (\<forall>r \<in> set rs. rt_run (r_id r) s = Some r)"

lemma tick_state_step:
  "tick_state (r # rs) s \<Longrightarrow> tick_state rs (schedule_one now r s)"
  by (auto simp: tick_state_def schedule_one_frame(1) schedule_one_frame(2) image_iff)

lemma can_start_fold:
  "rt_inv rb s \<Longrightarrow> tick_state rs s \<Longrightarrow> \<not> can_start s x \<Longrightarrow> \<not> can_start (fold (schedule_one now) rs s) x"
proof (induction rs arbitrary: s)
  case (Cons r rs)
  have r: "rt_scheduler s" "rt_run (r_id r) s = Some r" using Cons.prems(2) by (simp_all add: tick_state_def)
  show ?case
    unfolding fold_simps
    by (rule Cons.IH [OF inv_schedule_one [OF Cons.prems(1) r] tick_state_step [OF Cons.prems(2)]
          can_start_schedule_one [OF Cons.prems(1) r(2) Cons.prems(3)]])
qed simp

lemma fold_schedules_all:
  "rt_inv rb s \<Longrightarrow> tick_state rs s \<Longrightarrow> x \<in> set rs \<Longrightarrow> eligible x (fold (schedule_one now) rs s) \<Longrightarrow>
     \<not> can_start (fold (schedule_one now) rs s) x"
proof (induction rs arbitrary: s)
  case (Cons r rs)
  have r: "rt_scheduler s" "rt_run (r_id r) s = Some r" using Cons.prems(2) by (simp_all add: tick_state_def)
  have inv: "rt_inv rb (schedule_one now r s)" by (rule inv_schedule_one [OF Cons.prems(1) r])
  have st: "tick_state rs (schedule_one now r s)" by (rule tick_state_step [OF Cons.prems(2)])
  show ?case
  proof (cases "x = r")
    case False
    with Cons.prems show ?thesis unfolding fold_simps by (intro Cons.IH [OF inv st]) auto
  next
    case True
    have none: "dict_get (r_id r) (rt_threads (schedule_one now r s)) = None"
      using Cons.prems(4) threads_grow [of "r_id r" "schedule_one now r s" now rs] True
      by (cases "dict_get (r_id r) (rt_threads (schedule_one now r s))") (simp_all add: eligible_def)
    then have "\<not> (eligible r s \<and> can_start s r)" by (auto simp: schedule_one_eq)
    with none Cons.prems(4) True have "\<not> can_start s x" "schedule_one now r s = s"
      by (auto simp: eligible_def schedule_one_eq)
    then show ?thesis unfolding fold_simps using can_start_fold [OF inv st] by simp
  qed
qed simp

lemma tick_schedules_all:
  assumes inv: "rt_inv rb s" and "rt_scheduler s"
    and r: "rt_run (r_id r) (schedule_tick now s) = Some r" and e: "eligible r (schedule_tick now s)"
  shows "\<not> can_start (schedule_tick now s) r"
proof -
  note order = schedule_order_ok [OF rt_invD(2) [OF inv]] and ins = in_runs_iff [OF rt_invD(2) [OF inv]]
  have st: "tick_state (schedule_order s) s" using order ins assms(2) by (simp add: tick_state_def)
  have "rt_run (r_id r) s = Some r"
    using schedule_fold_run [OF order(1), of s "r_id r" now] r e order(2) ins
    by (auto simp: schedule_tick_def eligible_def)
  then have "r \<in> set (schedule_order s)" using order ins by simp
  with fold_schedules_all [OF inv st] e show ?thesis by (simp add: schedule_tick_def)
qed

section \<open>Draining\<close>

lemma draining_blocks:
  assumes "list_ex (draining s) (live_ids s)" shows "schedule_tick now s = s"
proof -
  have "fold (schedule_one now) rs s = s" for rs
    by (induction rs) (use assms in \<open>auto simp: schedule_one_eq can_start_def\<close>)
  then show ?thesis by (simp add: schedule_tick_def)
qed

definition demo_two :: rt where
  "demo_two = snd (rt_command 6 True ''sdk'' ''r2'' ''start'' (store_created 5 (demo_run ''r2'') demo_stopping))"

lemma demo_stopping_no_r2: "rt_run ''r2'' demo_stopping = None" "dict_get ''r2'' (rt_threads demo_stopping) = None"
  by (simp_all add: demo_stopping_eq command_done_snd demo_training_eq demo_run_def demo_plan_def)

lemma demo_two_eq: "demo_two = snd (command_done 6 ''sdk'' ''start'' (enqueue MsgWaitingSlot (demo_run ''r2''))
    (set_control ''r2'' no_control (store_created 5 (demo_run ''r2'') demo_stopping)))"
  by (simp add: demo_two_def store_created_def rt_command_start command_queue_def rt_start_def)

lemma demo_two_simps:
  "rt_run ''r2'' demo_two = Some (enqueue MsgWaitingSlot (demo_run ''r2''))" "rt_scheduler demo_two"
  "dict_get ''r2'' (rt_threads demo_two) = None" "status_of ''r1'' demo_two = Some Stopping"
  "thread_alive i demo_two = thread_alive i demo_stopping"
  by (simp_all add: demo_two_eq command_done_snd store_created_def demo_stopping_no_r2)

lemma demo_reach_two: "rt_reach rb demo_two"
proof (rule rt_reach.Step)
  show "rt_reach rb (store_created 5 (demo_run ''r2'') demo_stopping)"
  proof (rule rt_reach.Step [OF demo_reach_stopping])
    show "rt_step rb demo_stopping (store_created 5 (demo_run ''r2'') demo_stopping)"
      by (rule rt_step.Create) (simp_all add: demo_stopping_no_r2)
    show "quiet demo_stopping (store_created 5 (demo_run ''r2'') demo_stopping)" by (simp add: quiet_def)
  qed
  show "rt_step rb (store_created 5 (demo_run ''r2'') demo_stopping) demo_two"
    unfolding demo_two_def by (rule rt_step.Command)
  show "quiet (store_created 5 (demo_run ''r2'') demo_stopping) demo_two"
    by (simp add: quiet_def store_created_def)
qed

lemma demo_two_blocked: "schedule_tick 7 demo_two = demo_two"
proof (rule draining_blocks)
  have "dict_ok (rt_threads demo_two)" by (rule rt_invD(3) [OF rt_inv_reach [OF demo_reach_two [of True]]])
  moreover have "draining demo_two ''r1''"
    using demo_two_simps(4) by (auto simp: draining_def status_of_def split: option.splits)
  ultimately show "list_ex (draining demo_two) (live_ids demo_two)"
    by (auto simp: list_ex_iff set_live_ids demo_two_simps)
qed

definition accepted :: "string \<Rightarrow> run_status list" where
  "accepted cmd =
     (if cmd = ''start'' then [Draft, Queued, Training]
      else if cmd = ''resume'' then [Paused, Stopped, Error_Recoverable]
      else if cmd = ''pause'' then [Queued, Training, Pausing, Paused]
      else if cmd = ''stop'' then [Draft, Queued, Training, Pausing, Paused, Error_Recoverable, Stopping, Stopped]
      else [])"

lemma rt_start_free [simp]: "fst (rt_start now True s) = Inr ()"
  by (cases s) (simp add: rt_start_def acquire_scheduler_lock_def)

lemma command_queue_free: "fst (command_queue now True actor cmd msg r s) = Inr (enqueue msg r)"
  using rt_start_free [of now "set_control (r_id r) no_control s"]
  by (cases "rt_start now True (set_control (r_id r) no_control s)") (simp add: command_queue_def command_done_def)

section \<open>Rebalancing without the lock\<close>

lemma save_fold_run:
  "distinct (map r_id rs) \<Longrightarrow> x \<in> set rs \<Longrightarrow> rt_run (r_id x) (fold (rt_save now) rs s) = Some x"
proof (induction rs arbitrary: s)
  case (Cons y rs)
  have keep: "r_id y \<notin> r_id ` set rs \<Longrightarrow> rt_run (r_id y) (fold (rt_save now) rs s) = rt_run (r_id y) s" for s
    by (induction rs arbitrary: s) auto
  show ?case
    using Cons keep [of "rt_save now y s"] by (cases "x = y") auto
qed simp

lemma plan_member:
  assumes "store_ok (rt_store s)" and "status_of i s = Some Training"
  obtains x where "x \<in> set (rebalance_plan s)" "r_id x = i" "r_status x = Training"
proof -
  obtain r where r: "rt_run i s = Some r" "r_status r = Training"
    using assms(2) by (auto simp: status_of_def)
  have "r_id r = i" by (rule rt_run_id [OF assms(1) r(1)])
  with r in_runs_iff [OF assms(1), of r]
  have "i \<in> r_id ` {x \<in> set (rebalance_plan s). r_status x = Training}"
    by (auto simp: rebalance_plan_def Let_def image_image image_iff)
  with that show ?thesis by auto
qed

lemma plan_distinct: "store_ok (rt_store s) \<Longrightarrow> distinct (map r_id (rebalance_plan s))"
proof -
  assume ok: "store_ok (rt_store s)"
  have "map r_id (rebalance_plan s) = map r_id (filter (\<lambda>r. r_status r = Training) (list_runs (rt_store s)))"
    by (simp add: rebalance_plan_def Let_def)
  with distinct_map_filter [OF distinct_run_ids [OF ok]] show ?thesis by metis
qed

lemma finish_store_frame: "rt_run j (rebalance_save now rs s) = rt_run j (fold (rt_save now) rs s)"
  by (simp add: rebalance_save_def)

lemma save_fold_frame [simp]: "rt_threads (fold (rt_save now) rs s) = rt_threads s"
  by (rule fold_frame) simp

lemma share_facts:
  "priority_weight ''high'' = Fin (3/2)" "priority_weight ''normal'' = Fin 1"
  "f_of_int 100 = Fin 100" "to_float 4 = Fin 4" "to_float 3 = Fin 3" "to_float (3/2) = Fin (3/2)"
  "to_float 150 = Fin 150" "to_float 100 = Fin 100" "to_float 25 = Fin 25" "to_float (75/2) = Fin (75/2)"
  using to_float_int [of 4] to_float_int [of 3] to_float_int [of 150] to_float_int [of 100]
    to_float_int [of 25] to_float_exact [of "3/2" 3 "- 1"] to_float_exact [of "75/2" 75 "- 1"]
  by (simp_all add: priority_weight_def f_of_int_def pow2_def)

lemma round_share: "round_even (75/2) = 38" "round_even 25 = 25"
proof -
  have "\<lfloor>75/2 :: rat\<rfloor> = 37" by (rule floor_unique) simp_all
  then show "round_even (75/2) = 38" by (simp add: round_even_def)
  show "round_even 25 = 25" using round_even_of_int [of 25] by simp
qed

text \<open>Three training runs, two of high and one of normal priority, get 38, 38 and 25 percent.\<close>

lemma rebalance_overcommits:
  assumes "map r_priority (filter (\<lambda>r. r_status r = Training) (list_runs (rt_store s)))
             = [''high'', ''high'', ''normal'']"
  shows "sum_list (map r_gpu (rebalance_plan s)) = 101"
proof -
  obtain a b c where active: "filter (\<lambda>r. r_status r = Training) (list_runs (rt_store s)) = [a, b, c]"
    and "r_priority a = ''high''" "r_priority b = ''high''" "r_priority c = ''normal''"
    using assms by auto
  then show ?thesis
    by (simp add: rebalance_plan_def active Let_def share_facts capacity_def fdiv_def round_share)
qed

text \<open>A worker that was training before the call stores its own GPU share over the new one.\<close>

lemma progress_discards_rebalance:
  assumes "rt_inv True s" and "thread_alive i s" and "dict_get i (rt_copies s) = Some w"
  shows "\<exists>r. rt_run i (save_worker_progress now w (rt_rebalance now' True s)) = Some r \<and> r_gpu r = r_gpu w"
proof -
  obtain r where "rt_run i s = Some r" "r_id r = i" "same_resources True w r"
    using inv_live_run [OF assms(1,2)] assms(3) by blast
  then have "r_id w = i" by (simp add: same_resources_def)
  then show ?thesis
    by (auto simp: save_worker_progress_def Let_def merge_progress_def split: option.split)
qed

text \<open>In a fresh process a \<open>start\<close> of a run that a crashed process left queued is accepted and starts
  no scheduler.\<close>

lemma start_on_queued_starts_nothing:
  assumes "rt_run i s = Some r" and "r_status r = Queued" and "\<not> rt_scheduler s"
  shows "fst (rt_command now lf actor i ''start'' s) = Inr r \<and>
         \<not> rt_scheduler (snd (rt_command now lf actor i ''start'' s))"
  using assms by (simp add: rt_command_start)

section \<open>Properties\<close>

text \<open>C2: In every reachable state the CPU and RAM shares of the runs that hold a worker thread sum
  to at most 100, and so do the GPU shares as long as nobody rebalances.\<close>

theorem reservations_bounded:
  assumes "rt_reach rb s"
  shows "u_cpu (rt_usage s) \<le> 100 \<and> u_ram (rt_usage s) \<le> 100 \<and> (rb \<or> u_gpu (rt_usage s) \<le> 100)"
  using rt_inv_reach [OF assms] within_capacity_reserved [of s rb]
  by (cases rb) (auto simp: rt_inv_def resources_def capacity_def)

theorem reservations_bounded_witness:
  "u_cpu (rt_usage demo_training) \<le> 100 \<and> u_ram (rt_usage demo_training) \<le> 100 \<and>
   (False \<or> u_gpu (rt_usage demo_training) \<le> 100)"
  by (rule reservations_bounded [OF demo_reach_training])





text \<open>When a worker ends, its run becomes recoverable if an exception escaped; otherwise a stop
  request wins over a pause and both win over whatever the training loop returned. Thread,
  control and worker record are gone afterwards.\<close>

theorem worker_end_status:
  assumes "rt_reach rb s" and "thread_alive i s"
  shows "status_of i (worker_finish now i out failure s) =
      Some (if failure \<noteq> None then Error_Recoverable
            else if status_of i s = Some Stopping then Stopped
            else if status_of i s = Some Pausing then Paused else final_status out)
    \<and> \<not> thread_alive i (worker_finish now i out failure s)
    \<and> control_of i (worker_finish now i out failure s) = no_control"
proof -
  have inv: "rt_inv rb s" by (rule rt_inv_reach [OF assms(1)])
  obtain r where r: "rt_run i s = Some r" "r_id r = i" "worker_phase (r_status r) (control_of i s)"
    using inv_live_run [OF inv assms(2)] by blast
  have ok: "dict_ok (rt_threads s)" "dict_ok (rt_controls s)"
    using rt_invD(1) [OF inv] by (simp_all add: tables_ok_def)
  from r(3) have "r_status r = Stopping \<longleftrightarrow> ctl_stop (control_of i s)"
    "r_status r = Pausing \<longleftrightarrow> \<not> ctl_stop (control_of i s) \<and> ctl_pause (control_of i s)"
    by (auto simp: worker_phase_def split: if_splits)
  with r ok show ?thesis
    by (auto simp: worker_finish_def Let_def status_of_def effective_outcome_def thread_alive_def
        control_of_def)
qed

theorem worker_end_status_witness:
  "status_of ''r1'' (worker_finish 9 ''r1'' CompleteO None demo_stopping) = Some Stopped"
  using worker_end_status [OF demo_reach_stopping [of True], of "''r1''" 9 CompleteO None] by simp

text \<open>The scheduler conserves work: after a turn, no queued run is left that the free CPU, RAM and
  GPU shares would still admit.\<close>

theorem tick_work_conserving:
  assumes "rt_reach rb s" and "rt_scheduler s"
    and "rt_run (r_id r) (schedule_tick now s) = Some r" and "eligible r (schedule_tick now s)"
  shows "\<not> can_start (schedule_tick now s) r"
  by (rule tick_schedules_all [OF rt_inv_reach [OF assms(1)] assms(2-4)])

theorem tick_work_conserving_witness:
  "\<not> can_start (schedule_tick 7 demo_two) (enqueue MsgWaitingSlot (demo_run ''r2''))"
  by (rule tick_work_conserving [OF demo_reach_two [of True] demo_two_simps(2)])
    (simp_all add: demo_two_blocked demo_two_simps eligible_def)

text \<open>Starting the runtime on a database left by a crashed process turns exactly the queued,
  training, pausing and stopping runs into recoverable ones, marked paused and without a worker
  process, and touches no other run.\<close>

theorem restart_recovers:
  assumes "store_ok (rt_store s)" and "\<not> rt_scheduler s" and "rt_lock_held s \<or> lock_free"
  shows "fst (rt_start now lock_free s) = Inr () \<and>
    rt_run i (snd (rt_start now lock_free s)) = map_option (\<lambda>r.
       if r_status r \<in> {Queued, Training, Pausing, Stopping}
       then r\<lparr>r_status := Error_Recoverable, r_paused := True, r_worker_pid := None,
              r_termination_reason := Some ''daemon_restart'', r_message := MsgRestarted\<rparr>
       else r) (rt_run i s)"
proof -
  have acq: "acquire_scheduler_lock lock_free s = (Inr (), s\<lparr>rt_lock_held := True\<rparr>)"
    using assms(3) by (cases s) (auto simp: acquire_scheduler_lock_def)
  let ?s0 = "s\<lparr>rt_lock_held := True\<rparr>"
  have "rt_run i (fold (recover_one now) (list_runs (rt_store ?s0)) ?s0) = map_option recovered (rt_run i ?s0)"
    by (rule recover_all_runs) (simp add: assms(1))
  then show ?thesis
    using assms(2) by (auto simp: rt_start_def acq recovered_def recover_run_def option.map_comp
        intro!: option.map_cong)
qed

theorem restart_recovers_witness:
  "rt_run ''r1'' (snd (rt_start 9 True (rt_new (rt_store demo_stopping)))) \<noteq> rt_run ''r1'' demo_stopping"
proof -
  have ok: "store_ok (rt_store demo_stopping)"
    by (rule rt_invD(2) [OF rt_inv_reach [OF demo_reach_stopping [of True]]])
  obtain r where r: "rt_run ''r1'' demo_stopping = Some r" "r_status r = Stopping"
    using demo_stopping_simps(3) by (auto simp: status_of_def)
  have "rt_run ''r1'' (rt_new (rt_store demo_stopping)) = Some r" using r by (simp add: rt_new_def rt_run_def)
  then have "rt_run ''r1'' (snd (rt_start 9 True (rt_new (rt_store demo_stopping)))) =
      Some (r\<lparr>r_status := Error_Recoverable, r_paused := True, r_worker_pid := None,
              r_termination_reason := Some ''daemon_restart'', r_message := MsgRestarted\<rparr>)"
    using restart_recovers [of "rt_new (rt_store demo_stopping)" True 9 "''r1''"] r ok
    by (simp add: rt_new_def)
  moreover have "r_status (r\<lparr>r_status := Error_Recoverable, r_paused := True, r_worker_pid := None,
              r_termination_reason := Some ''daemon_restart'', r_message := MsgRestarted\<rparr>) \<noteq> r_status r"
    using r by simp
  ultimately show ?thesis using r(1) by (metis option.inject)
qed

text \<open>With the workspace lock free, a command on an existing run is accepted exactly when the
  status of the run is listed for it, and a rejected command changes nothing.\<close>

theorem command_acceptance:
  assumes "store_ok (rt_store s)" and "rt_run i s = Some r"
  shows "if r_status r \<in> set (accepted cmd)
    then isl (fst (rt_command now True actor i cmd s)) = False
    else isl (fst (rt_command now True actor i cmd s)) \<and> snd (rt_command now True actor i cmd s) = s"
proof -
  have id: "r_id r = i" using rt_run_id [OF assms] .
  consider "cmd = ''start''" | "cmd = ''resume''" | "cmd = ''pause''" | "cmd = ''stop''"
    | "cmd \<notin> {''start'', ''resume'', ''pause'', ''stop''}" by blast
  then show ?thesis
  proof cases
    case 5
    then show ?thesis by (simp add: accepted_def rt_command_other [OF assms(2)])
  qed (cases "r_status r"; simp add: accepted_def rt_command_start [OF assms(2)] rt_command_resume [OF assms(2)]
      rt_command_pause [OF assms(2) id] rt_command_stop [OF assms(2) id] command_queue_free
      command_done_def resume_allowed_def stop_allowed_def)+
qed

theorem command_acceptance_witness:
  "\<not> isl (fst (rt_command 1 True ''sdk'' ''r1'' ''start'' demo_created)) \<and>
   snd (rt_command 1 True ''sdk'' ''r1'' ''resume'' demo_created) = demo_created"
  using command_acceptance [of demo_created "''r1''" "demo_run ''r1''" "''start''" 1 "''sdk''"]
    command_acceptance [of demo_created "''r1''" "demo_run ''r1''" "''resume''" 1 "''sdk''"]
    rt_invD(2) [OF rt_inv_reach [OF demo_reach_created [of True]]]
  by (simp add: accepted_def)

text \<open>C4: Saving a worker's progress never undoes a concurrent command: status, pause flag and stop
  flag of the stored record survive, and so does the message of a pending pause or stop, while
  the worker's step counter, score and metrics are the ones it computed.\<close>

theorem progress_keeps_control:
  assumes "rt_run (r_id w) s = Some c"
  shows "\<exists>r. rt_run (r_id w) (save_worker_progress now w s) = Some r \<and>
    r_status r = r_status c \<and> r_paused r = r_paused c \<and> r_stop_requested r = r_stop_requested c \<and>
    r_message r = (if r_status c \<in> {Pausing, Stopping} then r_message c else r_message w) \<and>
    r_step r = r_step w \<and> r_best_score r = r_best_score w \<and> r_metrics r = r_metrics w"
  using assms by (simp add: save_worker_progress_def Let_def merge_progress_def)

theorem progress_keeps_control_witness:
  "\<exists>r. rt_run ''r1'' (save_worker_progress 5 ((demo_run ''r1'')\<lparr>r_step := 7\<rparr>) demo_created) = Some r \<and>
     r_status r = Draft \<and> r_step r = 7"
  using progress_keeps_control [of "(demo_run ''r1'')\<lparr>r_step := 7\<rparr>" demo_created "demo_run ''r1''" 5]
  by auto

text \<open>C5: \<open>rebalance\<close> reads and stores records without the lock. If a worker finishes between the two,
  its completed run goes back to training, with no worker left to end it.\<close>

theorem rebalance_race:
  assumes "rt_reach True s" and "thread_alive i s" and "status_of i s = Some Training"
  shows "status_of i (worker_finish now i CompleteO None s) = Some Completed \<and>
    status_of i (rebalance_save now (rebalance_plan s) (worker_finish now i CompleteO None s)) = Some Training \<and>
    \<not> thread_alive i (rebalance_save now (rebalance_plan s) (worker_finish now i CompleteO None s))"
proof -
  have inv: "rt_inv True s" by (rule rt_inv_reach [OF assms(1)])
  note ok = rt_invD(2) [OF inv]
  obtain x where x: "x \<in> set (rebalance_plan s)" "r_id x = i" "r_status x = Training"
    by (rule plan_member [OF ok assms(3)])
  obtain r where r: "rt_run i s = Some r" "r_id r = i" "worker_phase (r_status r) (control_of i s)"
    using inv_live_run [OF inv assms(2)] by blast
  have "status_of i (worker_finish now i CompleteO None s) = Some Completed"
    using r assms(3)
    by (auto simp: worker_finish_def Let_def status_of_def effective_outcome_def worker_phase_def split: if_splits)
  moreover have "dict_get i (rt_threads (worker_finish now i CompleteO None s)) = None"
    using rt_invD(3) [OF inv] r by (simp add: worker_finish_def Let_def)
  ultimately show ?thesis
    using save_fold_run [OF plan_distinct [OF ok] x(1), of now] x
    by (simp add: status_of_def rebalance_save_def thread_alive_def)
qed

theorem rebalance_race_witness:
  "status_of ''r1'' (rebalance_save 9 (rebalance_plan demo_training)
     (worker_finish 9 ''r1'' CompleteO None demo_training)) = Some Training"
  using rebalance_race [OF demo_reach_training, of "''r1''" 9] by (simp add: status_of_def)

end
