(* ===== verification/Guard.thy ===== *)
theory Guard imports Models begin

text \<open>
  The checks every evaluation of a training run goes through: the finite-value gate of
  \<open>src/src/kernelyra/quality.py\<close>, the score-trend guard of \<open>model_guard.py\<close> and the bounded event
  trace of \<open>trace.py\<close>.
\<close>

section \<open>The quality gate\<close>

text \<open>\<open>_non_finite_paths\<close>: the paths of the infinities and NaNs inside a nested value. Integers
  and booleans are finite.\<close>

fun non_finite_paths :: "pyval \<Rightarrow> string \<Rightarrow> string list"
  and non_finite_items :: "(string \<times> pyval) list \<Rightarrow> string \<Rightarrow> string list"
  and non_finite_elems :: "pyval list \<Rightarrow> nat \<Rightarrow> string \<Rightarrow> string list" where
  "non_finite_paths (VDict d) path = non_finite_items d path"
| "non_finite_paths (VList xs) path = non_finite_elems xs 0 path"
| "non_finite_paths (VFloat x) path = (if isfinite x then [] else [path])"
| "non_finite_paths _ path = []"
| "non_finite_items [] path = []"
| "non_finite_items ((key, item) # d) path =
     non_finite_paths item (path @ ''.'' @ key) @ non_finite_items d path"
| "non_finite_elems [] i path = []"
| "non_finite_elems (item # xs) i path =
     non_finite_paths item (path @ ''['' @ nat_str i @ '']'') @ non_finite_elems xs (Suc i) path"

record gate =
  g_margin :: pyfloat
  g_baseline :: "pyfloat option"

record gate_result =
  gr_status :: string
  gr_finite :: bool
  gr_invalid :: "string list"
  gr_score :: "pyfloat option"
  gr_loss :: "pyfloat option"
  gr_best_gap :: "pyfloat option"
  gr_baseline_score :: "pyfloat option"
  gr_baseline_gap :: "pyfloat option"
  gr_margin :: pyfloat

text \<open>\<open>QualityGate.inspect\<close>.\<close>

definition gate_inspect :: "gate \<Rightarrow> pyfloat \<Rightarrow> pyfloat \<Rightarrow> pydict \<Rightarrow> pyfloat \<Rightarrow> gate_result" where
  "gate_inspect g score loss metrics best_score =
     (let bad_paths = non_finite_paths
            (VDict [(''score'', VFloat score), (''loss'', VFloat loss), (''validation'', VDict metrics)])
            ''quality'';
          finite = (bad_paths = []);
          baseline_gap = (case g_baseline g of
              Some b \<Rightarrow> if finite then Some (fmax (Fin 0) (fsub b score)) else None
            | None \<Rightarrow> None);
          gap = fmax (Fin 0) (fsub best_score score);
          best_gap = (if finite then Some gap else None)
      in \<lparr>gr_status = (if bad_paths \<noteq> [] then ''invalid''
                       else if flt (g_margin g) gap then ''regressing'' else ''stable''),
          gr_finite = finite,
          gr_invalid = bad_paths,
          gr_score = (if isfinite score then Some score else None),
          gr_loss = (if isfinite loss then Some loss else None),
          gr_best_gap = best_gap,
          gr_baseline_score = g_baseline g,
          gr_baseline_gap = baseline_gap,
          gr_margin = g_margin g\<rparr>)"

definition gate_to_dict :: "gate_result \<Rightarrow> pydict" where
  "gate_to_dict r =
     [(''status'', VStr (gr_status r)), (''finite'', VBool (gr_finite r)),
      (''invalid_paths'', VList (map VStr (gr_invalid r))), (''score'', v_opt_float (gr_score r)),
      (''loss'', v_opt_float (gr_loss r)), (''best_gap'', v_opt_float (gr_best_gap r)),
      (''baseline_score'', v_opt_float (gr_baseline_score r)),
      (''baseline_gap'', v_opt_float (gr_baseline_gap r)),
      (''degradation_margin'', VFloat (gr_margin r))]"

text \<open>The reference: every float inside the value is finite.\<close>

fun all_finite :: "pyval \<Rightarrow> bool"
  and all_finite_items :: "(string \<times> pyval) list \<Rightarrow> bool"
  and all_finite_elems :: "pyval list \<Rightarrow> bool" where
  "all_finite (VDict d) = all_finite_items d"
| "all_finite (VList xs) = all_finite_elems xs"
| "all_finite (VFloat x) = isfinite x"
| "all_finite _ = True"
| "all_finite_items [] = True"
| "all_finite_items ((key, item) # d) = (all_finite item \<and> all_finite_items d)"
| "all_finite_elems [] = True"
| "all_finite_elems (item # xs) = (all_finite item \<and> all_finite_elems xs)"

lemma non_finite_paths_empty:
  "non_finite_paths v path = [] \<longleftrightarrow> all_finite v"
  "non_finite_items d path = [] \<longleftrightarrow> all_finite_items d"
  "non_finite_elems xs i path = [] \<longleftrightarrow> all_finite_elems xs"
  by (induction v path and d path and xs i path
      rule: non_finite_paths_non_finite_items_non_finite_elems.induct) auto

lemma gate_finite_iff:
  "gr_finite (gate_inspect g score loss metrics best) \<longleftrightarrow>
     isfinite score \<and> isfinite loss \<and> all_finite_items metrics"
  by (simp add: gate_inspect_def Let_def non_finite_paths_empty)

section \<open>The trend guard\<close>

record trend =
  tr_status :: string
  tr_window :: nat
  tr_scores :: "pyfloat list"
  tr_slope :: pyfloat
  tr_best :: pyfloat
  tr_baseline_score :: "pyfloat option"
  tr_baseline_gap :: "pyfloat option"
  tr_margin :: pyfloat
  tr_below :: nat
  tr_restore :: bool

text \<open>The loop over the reversed window that stops at the first score not below the threshold.\<close>

fun count_below :: "pyfloat \<Rightarrow> pyfloat list \<Rightarrow> nat" where
  "count_below threshold [] = 0"
| "count_below threshold (score # rest) =
     (if flt score threshold then Suc (count_below threshold rest) else 0)"

text \<open>\<open>assess_trend\<close>; \<open>None\<close> is the \<open>insufficient_evidence\<close> answer of an empty window, which
  has no score fields and recommends nothing. The slope divides by a positive count.\<close>

definition assess_trend ::
  "pyfloat list \<Rightarrow> pyfloat \<Rightarrow> pyfloat \<Rightarrow> int \<Rightarrow> pyfloat option \<Rightarrow> trend option" where
  "assess_trend scores best_score degradation_margin degradation_patience baseline_score =
     (let window = filter isfinite (last_n 8 scores)
      in if window = [] then None else
         let slope = (if length window < 2 then Fin 0
                      else the (fdiv (fsub (last window) (hd window)) (f_of_int (int (length window) - 1))));
             threshold = fsub best_score degradation_margin;
             below = count_below threshold (rev window);
             gap = map_option (\<lambda>b. fmax (Fin 0) (fsub b (last window))) baseline_score;
             restore = (degradation_patience \<le> int below)
         in Some
           \<lparr>tr_status = (if restore then ''restore_recommended''
                         else if flt (last window) threshold then ''regressing'' else ''stable''),
            tr_window = length window, tr_scores = window, tr_slope = slope, tr_best = best_score,
            tr_baseline_score = baseline_score, tr_baseline_gap = gap, tr_margin = degradation_margin,
            tr_below = below, tr_restore = restore\<rparr>)"

definition restore_recommended :: "trend option \<Rightarrow> bool" where
  "restore_recommended t = (case t of None \<Rightarrow> False | Some r \<Rightarrow> tr_restore r)"

definition trend_to_dict :: "trend option \<Rightarrow> pydict" where
  "trend_to_dict t = (case t of
      None \<Rightarrow> [(''status'', VStr ''insufficient_evidence''), (''window'', VInt 0),
               (''restore_recommended'', VBool False)]
    | Some r \<Rightarrow>
        [(''status'', VStr (tr_status r)), (''window'', VInt (int (tr_window r))),
         (''scores'', VList (map VFloat (tr_scores r))), (''trend_per_evaluation'', VFloat (tr_slope r)),
         (''best_score'', VFloat (tr_best r)), (''baseline_score'', v_opt_float (tr_baseline_score r)),
         (''baseline_gap'', v_opt_float (tr_baseline_gap r)),
         (''degradation_margin'', VFloat (tr_margin r)),
         (''consecutive_below_best'', VInt (int (tr_below r))),
         (''restore_recommended'', VBool (tr_restore r))])"

lemma count_below_takeWhile: "count_below t xs = length (takeWhile (\<lambda>x. flt x t) xs)"
  by (induction xs) auto

lemma count_below_ge:
  "n \<le> count_below t xs \<longleftrightarrow> n \<le> length xs \<and> (\<forall>x \<in> set (take n xs). flt x t)"
proof (induction xs arbitrary: n)
  case (Cons x xs)
  then show ?case by (cases n) auto
qed simp

section \<open>The event trace\<close>

definition trace_limit :: nat where
  "trace_limit = 128"

record trace =
  t_events :: "pydict list"
  t_limit :: nat

definition as_dict :: "pyval \<Rightarrow> pydict option" where
  "as_dict v = (case v of VDict d \<Rightarrow> Some d | _ \<Rightarrow> None)"

definition trace_from_metrics :: "pydict \<Rightarrow> trace" where
  "trace_from_metrics metrics =
     (let events = (case dict_get ''trace'' metrics of
                      Some (VList raw) \<Rightarrow> List.map_filter as_dict raw | _ \<Rightarrow> [])
      in \<lparr>t_events = last_n trace_limit events, t_limit = trace_limit\<rparr>)"

definition trace_add :: "rat \<Rightarrow> string \<Rightarrow> pydict \<Rightarrow> trace \<Rightarrow> trace" where
  "trace_add now event values t =
     (let events = t_events t @ [[(''event'', VStr event), (''at'', VFloat (Fin now))] @ values]
      in t\<lparr>t_events := (if t_limit t < length events then drop (length events - t_limit t) events
                       else events)\<rparr>)"

definition trace_val :: "trace \<Rightarrow> pyval" where
  "trace_val t = VList (map VDict (t_events t))"

definition trace_summary :: "trace \<Rightarrow> pydict" where
  "trace_summary t =
     (let evaluations = filter (\<lambda>e. dict_get ''event'' e = Some (VStr ''evaluation'')) (t_events t);
          field = (\<lambda>k. if evaluations = [] then VNone
                       else case dict_get k (last evaluations) of Some v \<Rightarrow> v | None \<Rightarrow> VNone)
      in [(''events'', VInt (int (length (t_events t)))),
          (''evaluations'', VInt (int (length evaluations))),
          (''latest_step'', field ''step''), (''latest_score'', field ''score''),
          (''latest_updates_per_second'', field ''updates_per_second'')])"

lemma trace_add_limit [simp]: "t_limit (trace_add now e v t) = t_limit t"
  by (simp add: trace_add_def Let_def)

lemma trace_add_events:
  "t_events (trace_add now e v t) =
     last_n (t_limit t) (t_events t @ [[(''event'', VStr e), (''at'', VFloat (Fin now))] @ v])"
  by (simp add: trace_add_def Let_def last_n_def)

lemma last_n_append: "last_n n (last_n n xs @ ys) = last_n n (xs @ ys)"
proof (cases "length xs \<le> n")
  case True then show ?thesis by (simp add: last_n_def)
next
  case False
  then show ?thesis by (cases "length ys \<le> n") (simp_all add: last_n_def add.commute)
qed

definition trace_event :: "rat \<times> string \<times> pydict \<Rightarrow> pydict" where
  "trace_event x = (case x of (now, e, v) \<Rightarrow> [(''event'', VStr e), (''at'', VFloat (Fin now))] @ v)"

lemma trace_adds_events:
  "t_events (fold (\<lambda>(now, e, v). trace_add now e v) xs t) =
     (if xs = [] then t_events t else last_n (t_limit t) (t_events t @ map trace_event xs))"
proof (induction xs arbitrary: t)
  case (Cons x xs)
  obtain now e v where x: "x = (now, e, v)" by (cases x)
  let ?t = "trace_add now e v t"
  have "t_events ?t = last_n (t_limit t) (t_events t @ [trace_event x])"
    by (simp add: x trace_add_events trace_event_def)
  then show ?case
    by (cases "xs = []") (simp_all add: Cons.IH x last_n_append)
qed simp

lemma trace_from_metrics_limit [simp]: "t_limit (trace_from_metrics m) = trace_limit"
  by (simp add: trace_from_metrics_def)

lemma trace_from_metrics_short: "length (t_events (trace_from_metrics m)) \<le> trace_limit"
  by (simp add: trace_from_metrics_def)

lemma restore_iff_window:
  "restore_recommended (assess_trend scores best margin patience base) \<longleftrightarrow>
     (let window = filter isfinite (last_n 8 scores); n = nat patience
      in window \<noteq> [] \<and> n \<le> length window \<and>
         (\<forall>x \<in> set (last_n n window). flt x (fsub best margin)))"
proof -
  have nat_le: "patience \<le> int k \<longleftrightarrow> nat patience \<le> k" for k by linarith
  have "take n (rev w) = rev (last_n n w)" for n and w :: "pyfloat list"
    by (simp add: last_n_def take_rev)
  then show ?thesis
    by (simp add: assess_trend_def restore_recommended_def Let_def nat_le count_below_ge
        del: filter_empty_conv)
qed

section \<open>Properties\<close>

text \<open>The quality gate calls an evaluation invalid exactly when the score, the loss or some
  float nested in the metrics is infinite or NaN; otherwise it is regressing exactly when the
  score is below the best one by more than the margin.\<close>

theorem gate_verdict:
  "gr_status (gate_inspect g score loss metrics best) =
     (if \<not> (isfinite score \<and> isfinite loss \<and> all_finite_items metrics) then ''invalid''
      else if flt (g_margin g) (fmax (Fin 0) (fsub best score)) then ''regressing'' else ''stable'')"
  by (simp add: gate_inspect_def Let_def non_finite_paths_empty)

text \<open>The model guard asks for a restore exactly when the newest \<open>patience\<close> finite scores of the
  last eight evaluations are all below the best score less the margin (so never when
  \<open>patience\<close> exceeds eight).\<close>

theorem guard_restore_iff:
  "restore_recommended (assess_trend scores best margin patience base) =
     (let window = filter isfinite (last_n 8 scores)
      in window \<noteq> [] \<and> nat patience \<le> length window \<and>
         list_all (\<lambda>x. flt x (fsub best margin)) (last_n (nat patience) window))"
  by (simp add: restore_iff_window Let_def list_all_iff)

text \<open>However many events a run adds, its trace holds exactly the newest 128 of the events it
  started from and the added ones, in order.\<close>

theorem trace_keeps_newest:
  "t_events (fold (\<lambda>(now, e, v). trace_add now e v) xs (trace_from_metrics metrics)) =
     last_n trace_limit (t_events (trace_from_metrics metrics) @ map trace_event xs)"
  using trace_from_metrics_short [of metrics]
  by (cases "xs = []") (simp_all add: trace_adds_events last_n_def)

end
