(* ===== verification/Checkpoints.thy ===== *)
theory Checkpoints imports Storage begin

text \<open>
  The checkpoint manager of \<open>src/src/kernelyra/checkpoints.py\<close>: checkpoint files with a metadata
  file beside each, written through a pending file that replaces the old one in one step. The
  managed directory is a dictionary from file names to contents; the digest of a content is a
  parameter, as is the token of a pending name.
\<close>

section \<open>Files\<close>

text \<open>What a file holds: bytes that are no UTF-8 text, text that is no JSON, or the text of a JSON
  value.\<close>

datatype content = Binary string | Text string | Json pyval

type_synonym files = "(string, content) dict"

record path =
  p_parent :: string
  p_name :: string

definition best_path :: "string \<Rightarrow> string \<Rightarrow> path" where
  "best_path dir run_id = \<lparr>p_parent = dir, p_name = run_id @ ''.npz''\<rparr>"

definition last_path :: "string \<Rightarrow> string \<Rightarrow> path" where
  "last_path dir run_id = \<lparr>p_parent = dir, p_name = run_id @ ''.last.npz''\<rparr>"

definition metadata_name :: "string \<Rightarrow> string" where
  "metadata_name name = name @ ''.json''"

definition pending_name :: "string \<Rightarrow> string \<Rightarrow> string" where
  "pending_name name token = ''.'' @ name @ ''.'' @ token @ ''.pending''"

text \<open>The steps that change the directory, each of them atomic.\<close>

datatype fs_op = Create string content | Replace string string | Unlink string

fun fs_step :: "fs_op \<Rightarrow> files \<Rightarrow> files" where
  "fs_step (Create n c) fs = dict_set n c fs"
| "fs_step (Replace p d) fs =
     (case dict_get p fs of None \<Rightarrow> fs | Some c \<Rightarrow> dict_set d c (dict_del p fs))"
| "fs_step (Unlink n) fs = dict_del n fs"

definition fs_run :: "fs_op list \<Rightarrow> files \<Rightarrow> files" where
  "fs_run ops fs = fold fs_step ops fs"

section \<open>Operations\<close>

text \<open>\<open>record\<close>: the metadata written and the steps that write it. \<open>H\<close> is the SHA-256 digest and
  \<open>L\<close> the length of a content.\<close>

definition checkpoint_record ::
  "(content \<Rightarrow> string) \<Rightarrow> (content \<Rightarrow> int) \<Rightarrow> string \<Rightarrow> string \<Rightarrow> path \<Rightarrow> pydict \<Rightarrow> files
     \<Rightarrow> kerror + pydict \<times> fs_op list" where
  "checkpoint_record H L dir token p metadata fs =
     (if p_parent p \<noteq> dir then Inl RunError else
      case dict_get (p_name p) fs of
        None \<Rightarrow> Inl RunError
      | Some c \<Rightarrow>
          let payload = dict_merge metadata
                [(''checkpoint_format'', VInt 1), (''filename'', VStr (p_name p)),
                 (''sha256'', VStr (H c)), (''size_bytes'', VInt (L c))];
              destination = metadata_name (p_name p);
              pending = pending_name destination token
          in if dict_get pending fs \<noteq> None then Inl OSError
             else Inr (payload, [Create pending (Json (VDict payload)), Replace pending destination]))"

text \<open>\<open>verify\<close>. A metadata file that is no UTF-8 text raises \<open>UnicodeDecodeError\<close>, a \<open>ValueError\<close>
  the handler does not name.\<close>

definition checkpoint_verify ::
  "(content \<Rightarrow> string) \<Rightarrow> string \<Rightarrow> path \<Rightarrow> pydict \<Rightarrow> files \<Rightarrow> kerror + pydict" where
  "checkpoint_verify H dir p expected fs =
     (if p_parent p \<noteq> dir then Inl RunError else
      case dict_get (p_name p) fs of
        None \<Rightarrow> Inl RunError
      | Some c \<Rightarrow>
          (case dict_get (metadata_name (p_name p)) fs of
             None \<Rightarrow> Inl RunError
           | Some (Binary _) \<Rightarrow> Inl ValueError
           | Some (Text _) \<Rightarrow> Inl RunError
           | Some (Json (VDict metadata)) \<Rightarrow>
               let get = (\<lambda>k. case dict_get k metadata of None \<Rightarrow> VNone | Some v \<Rightarrow> v)
               in if \<not> py_eq (get ''checkpoint_format'') (VInt 1) then Inl RunError
                  else if \<not> py_eq (get ''sha256'') (VStr (H c)) then Inl RunError
                  else if list_ex (\<lambda>(key, v). v \<noteq> VNone \<and> \<not> py_eq (get key) v) expected
                  then Inl RunError
                  else Inr metadata
           | Some (Json _) \<Rightarrow> Inl RunError))"

text \<open>\<open>promote\<close>: copy through a pending file, then record the copy.\<close>

definition checkpoint_promote ::
  "(content \<Rightarrow> string) \<Rightarrow> (content \<Rightarrow> int) \<Rightarrow> string \<Rightarrow> string \<Rightarrow> string \<Rightarrow> path \<Rightarrow> path \<Rightarrow> pydict \<Rightarrow> files
     \<Rightarrow> kerror + pydict \<times> fs_op list" where
  "checkpoint_promote H L dir token token' source destination metadata fs =
     (if p_parent source \<noteq> dir \<or> p_parent destination \<noteq> dir then Inl RunError else
      case dict_get (p_name source) fs of
        None \<Rightarrow> Inl OSError
      | Some c \<Rightarrow>
          let pending = pending_name (p_name destination) token;
              ops = [Create pending c, Replace pending (p_name destination)]
          in if dict_get pending fs \<noteq> None then Inl OSError
             else case checkpoint_record H L dir token' destination metadata (fs_run ops fs) of
                    Inl e \<Rightarrow> Inl e
                  | Inr (payload, ops') \<Rightarrow> Inr (payload, ops @ ops'))"

definition remove_run_ops :: "string \<Rightarrow> string \<Rightarrow> fs_op list" where
  "remove_run_ops dir run_id =
     concat (map (\<lambda>p. [Unlink (p_name p), Unlink (metadata_name (p_name p))])
       [best_path dir run_id, last_path dir run_id])"

definition discard_last_ops :: "string \<Rightarrow> string \<Rightarrow> fs_op list" where
  "discard_last_ops dir run_id =
     [Unlink (p_name (last_path dir run_id)), Unlink (metadata_name (p_name (last_path dir run_id)))]"

section \<open>Facts\<close>

lemma fs_run_simps [simp]:
  "fs_run [] fs = fs"
  "fs_run (x # xs) fs = fs_run xs (fs_step x fs)"
  by (simp_all add: fs_run_def)

lemma fs_run_append: "fs_run (xs @ ys) fs = fs_run ys (fs_run xs fs)"
  by (simp add: fs_run_def)

text \<open>Names that never collide: a pending name starts with a dot and ends in \<open>.pending\<close>.\<close>

definition plain_name :: "string \<Rightarrow> bool" where
  "plain_name n \<longleftrightarrow> n \<noteq> [] \<and> hd n \<noteq> CHR ''.''"

lemma pending_not_plain: "plain_name n \<Longrightarrow> n \<noteq> pending_name m t"
  by (auto simp: plain_name_def pending_name_def)

lemma metadata_not_plain: "plain_name n \<Longrightarrow> plain_name (metadata_name n)"
  by (auto simp: plain_name_def metadata_name_def)

lemma metadata_name_neq [simp]: "metadata_name n \<noteq> n" "n \<noteq> metadata_name n"
  by (simp_all add: metadata_name_def)

lemma pending_name_neq [simp]: "pending_name n t \<noteq> n" "n \<noteq> pending_name n t"
proof -
  have "length (pending_name n t) \<noteq> length n" by (simp add: pending_name_def)
  then show "pending_name n t \<noteq> n" "n \<noteq> pending_name n t" by metis+
qed

lemma pending_metadata_neq [simp]:
  "pending_name n t \<noteq> metadata_name n" "metadata_name n \<noteq> pending_name n t"
  "pending_name (metadata_name n) t \<noteq> n" "n \<noteq> pending_name (metadata_name n) t"
proof -
  have "length (pending_name n t) \<noteq> length (metadata_name n)"
    and "length (pending_name (metadata_name n) t) \<noteq> length n"
    by (simp_all add: pending_name_def metadata_name_def)
  then show "pending_name n t \<noteq> metadata_name n" "metadata_name n \<noteq> pending_name n t"
    "pending_name (metadata_name n) t \<noteq> n" "n \<noteq> pending_name (metadata_name n) t"
    by metis+
qed

text \<open>What a written checkpoint looks like: its bytes and its metadata under the two names.\<close>

definition stored :: "string \<Rightarrow> content \<Rightarrow> pydict \<Rightarrow> files \<Rightarrow> bool" where
  "stored n c m fs \<longleftrightarrow> dict_get n fs = Some c \<and> dict_get (metadata_name n) fs = Some (Json (VDict m))"

lemma verify_InrE:
  assumes "checkpoint_verify H dir p expected fs = Inr m"
  obtains c where "p_parent p = dir" "stored (p_name p) c m fs"
    "dict_get ''sha256'' m = Some (VStr (H c))"
proof -
  from assms obtain c where "p_parent p = dir" "dict_get (p_name p) fs = Some c"
    by (auto simp: checkpoint_verify_def split: if_splits option.splits)
  with assms that show ?thesis
    by (auto simp: checkpoint_verify_def stored_def Let_def
        split: if_splits option.splits content.splits pyval.splits)
qed

lemma verify_stored:
  assumes "p_parent p = dir" and "stored (p_name p) c m fs"
  shows "checkpoint_verify H dir p expected fs =
    (let get = (\<lambda>k. case dict_get k m of None \<Rightarrow> VNone | Some v \<Rightarrow> v)
     in if \<not> py_eq (get ''checkpoint_format'') (VInt 1) then Inl RunError
        else if get ''sha256'' \<noteq> VStr (H c) then Inl RunError
        else if list_ex (\<lambda>(key, v). v \<noteq> VNone \<and> \<not> py_eq (get key) v) expected then Inl RunError
        else Inr m)"
  using assms by (simp add: checkpoint_verify_def stored_def Let_def)

lemma record_InrE:
  assumes "checkpoint_record H L dir token p metadata fs = Inr (payload, ops)"
  obtains c where "p_parent p = dir" "dict_get (p_name p) fs = Some c"
    "payload = dict_merge metadata
       [(''checkpoint_format'', VInt 1), (''filename'', VStr (p_name p)),
        (''sha256'', VStr (H c)), (''size_bytes'', VInt (L c))]"
    "ops = [Create (pending_name (metadata_name (p_name p)) token) (Json (VDict payload)),
            Replace (pending_name (metadata_name (p_name p)) token) (metadata_name (p_name p))]"
  using assms by (auto simp: checkpoint_record_def Let_def split: if_splits option.splits)

lemma record_payload_fields:
  assumes "checkpoint_record H L dir token p metadata fs = Inr (payload, ops)"
    and "dict_get (p_name p) fs = Some c"
  shows "dict_get ''checkpoint_format'' payload = Some (VInt 1)"
    and "dict_get ''sha256'' payload = Some (VStr (H c))"
  using assms by (auto elim!: record_InrE simp: dict_get_merge dict_ok_def)

lemma record_stored:
  assumes "checkpoint_record H L dir token p metadata fs = Inr (payload, ops)"
    and "dict_get (p_name p) fs = Some c"
  shows "stored (p_name p) c payload (fs_run ops fs)"
  using assms by (auto elim!: record_InrE simp: stored_def)

lemma promote_InrE:
  assumes "checkpoint_promote H L dir t t' src dst metadata fs = Inr (payload, ops)"
  obtains c ops1 ops2 where "p_parent dst = dir" "dict_get (p_name src) fs = Some c"
    "ops1 = [Create (pending_name (p_name dst) t) c,
             Replace (pending_name (p_name dst) t) (p_name dst)]"
    "checkpoint_record H L dir t' dst metadata (fs_run ops1 fs) = Inr (payload, ops2)"
    "ops = ops1 @ ops2"
  using assms by (auto simp: checkpoint_promote_def Let_def split: if_splits option.splits sum.splits)

lemma take_four:
  "take k [a, b, c, d] \<in> {[], [a], [a, b], [a, b, c], [a, b, c, d]}"
  by (auto simp: take_Cons')

text \<open>The states a promotion passes through, over the destination's two names.\<close>

lemma promote_states:
  assumes "checkpoint_promote H L dir t t' src dst metadata fs = Inr (payload, ops)"
    and "dict_get (p_name src) fs = Some c"
    and fsk: "fsk = fs_run (take k ops) fs"
  shows "(dict_get (p_name dst) fsk = dict_get (p_name dst) fs \<or> dict_get (p_name dst) fsk = Some c)
    \<and> (dict_get (metadata_name (p_name dst)) fsk = dict_get (metadata_name (p_name dst)) fs
       \<or> stored (p_name dst) c payload fsk)"
proof -
  from assms(1,2) obtain ops1 ops2 where
    rec: "checkpoint_record H L dir t' dst metadata (fs_run ops1 fs) = Inr (payload, ops2)"
    and ops: "ops = ops1 @ ops2"
    and ops1: "ops1 = [Create (pending_name (p_name dst) t) c,
                       Replace (pending_name (p_name dst) t) (p_name dst)]"
    by (auto elim: promote_InrE)
  from rec obtain n where n: "n = pending_name (metadata_name (p_name dst)) t'"
    and ops2: "ops2 = [Create n (Json (VDict payload)), Replace n (metadata_name (p_name dst))]"
    by (auto elim: record_InrE)
  have "n \<noteq> p_name dst" and "n \<noteq> metadata_name (p_name dst)" unfolding n by simp_all
  then show ?thesis
    using take_four [of k "hd ops1" "ops1 ! 1" "hd ops2" "ops2 ! 1"]
    by (auto simp: fsk ops ops1 ops2 stored_def dict_get_set)
qed

section \<open>Properties\<close>

text \<open>A recorded checkpoint verifies, returning exactly the recorded metadata, whenever that
  metadata agrees with every expected field.\<close>

theorem checkpoint_roundtrip:
  assumes "checkpoint_record H L dir token p metadata fs = Inr (payload, ops)"
    and "list_all (\<lambda>(k, v). v = VNone \<or> (\<exists>w. dict_get k payload = Some w \<and> py_eq w v)) expected"
  shows "checkpoint_verify H dir p expected (fs_run ops fs) = Inr payload"
proof -
  from assms(1) obtain c where p: "p_parent p = dir" and c: "dict_get (p_name p) fs = Some c"
    by (auto elim: record_InrE)
  from record_payload_fields [OF assms(1) c] have
    "dict_get ''checkpoint_format'' payload = Some (VInt 1)"
    "dict_get ''sha256'' payload = Some (VStr (H c))" .
  moreover from assms(2) have "\<not> list_ex (\<lambda>(key, v). v \<noteq> VNone \<and>
      \<not> py_eq (case dict_get key payload of None \<Rightarrow> VNone | Some v \<Rightarrow> v) v) expected"
    by (force simp: list_ex_iff list_all_iff)
  ultimately show ?thesis
    by (simp add: verify_stored [OF p record_stored [OF assms(1) c]] Let_def feq_def)
qed

theorem checkpoint_roundtrip_witness:
  "checkpoint_verify (\<lambda>_. ''h'') ''d'' (best_path ''d'' ''r'') [(''backend'', VStr ''numpy''), (''score'', VNone)]
     (fs_run (snd (projr (checkpoint_record (\<lambda>_. ''h'') (\<lambda>_. 3) ''d'' ''u'' (best_path ''d'' ''r'')
        [(''backend'', VStr ''numpy'')] [(''r.npz'', Binary ''abc'')]))) [(''r.npz'', Binary ''abc'')])
   = Inr (fst (projr (checkpoint_record (\<lambda>_. ''h'') (\<lambda>_. 3) ''d'' ''u'' (best_path ''d'' ''r'')
        [(''backend'', VStr ''numpy'')] [(''r.npz'', Binary ''abc'')])))"
  by (rule checkpoint_roundtrip [where L = "\<lambda>_. 3" and token = "''u''"
        and metadata = "[(''backend'', VStr ''numpy'')]"])
    (simp_all add: checkpoint_record_def best_path_def Let_def dict_merge_def pending_name_def
      metadata_name_def dict_set_def)

text \<open>Changing the bytes of a recorded checkpoint to any content with another digest makes
  verification fail with a \<open>RunError\<close>.\<close>

theorem checkpoint_tamper_detected:
  assumes "checkpoint_record H L dir token p metadata fs = Inr (payload, ops)"
    and "dict_get (p_name p) fs = Some c" and "H c' \<noteq> H c"
  shows "checkpoint_verify H dir p expected (fs_step (Create (p_name p) c') (fs_run ops fs)) = Inl RunError"
proof -
  from assms(1) have p: "p_parent p = dir" by (auto elim: record_InrE)
  from record_stored [OF assms(1,2)]
  have "stored (p_name p) c' payload (fs_step (Create (p_name p) c') (fs_run ops fs))"
    by (simp add: stored_def)
  with record_payload_fields [OF assms(1,2)] assms(3) show ?thesis
    by (simp add: verify_stored [OF p] Let_def)
qed

theorem checkpoint_tamper_detected_witness:
  "checkpoint_verify (\<lambda>c. case c of Binary b \<Rightarrow> b | _ \<Rightarrow> []) ''d'' (best_path ''d'' ''r'') []
     (fs_step (Create ''r.npz'' (Binary ''abX''))
       (fs_run (snd (projr (checkpoint_record (\<lambda>c. case c of Binary b \<Rightarrow> b | _ \<Rightarrow> []) (\<lambda>_. 3) ''d'' ''u''
          (best_path ''d'' ''r'') [] [(''r.npz'', Binary ''abc'')]))) [(''r.npz'', Binary ''abc'')]))
   = Inl RunError"
  using checkpoint_tamper_detected [of "\<lambda>c. case c of Binary b \<Rightarrow> b | _ \<Rightarrow> []" "\<lambda>_. 3" "''d''" "''u''"
      "best_path ''d'' ''r''" "[]" "[(''r.npz'', Binary ''abc'')]" _ _ "Binary ''abc''" "Binary ''abX''" "[]"]
  by (simp add: checkpoint_record_def best_path_def Let_def)

text \<open>C6: Promotion is crash safe. Stop it after any number of its file steps: if the destination
  then verifies at all, what verifies is a whole checkpoint, the old bytes with the old metadata or
  the new bytes with the new metadata, never a mixture (for a digest without collisions).\<close>

theorem promote_crash_safe:
  assumes "dict_get (p_name dst) fs = Some old" and "H new = H old \<Longrightarrow> new = old"
    and "checkpoint_promote H L dir t t' src dst metadata fs = Inr (payload, ops)"
    and "dict_get (p_name src) fs = Some new"
    and "checkpoint_verify H dir dst [] fs = Inr m0"
    and "checkpoint_verify H dir dst expected (fs_run (take k ops) fs) = Inr m"
  shows "(m = m0 \<and> dict_get (p_name dst) (fs_run (take k ops) fs) = Some old) \<or>
         (m = payload \<and> dict_get (p_name dst) (fs_run (take k ops) fs) = Some new)"
proof -
  let ?fs = "fs_run (take k ops) fs"
  obtain c0 where before: "stored (p_name dst) c0 m0 fs" "dict_get ''sha256'' m0 = Some (VStr (H c0))"
    using assms(5) by (rule verify_InrE) blast
  obtain c where cur: "stored (p_name dst) c m ?fs" "dict_get ''sha256'' m = Some (VStr (H c))"
    using assms(6) by (rule verify_InrE) blast
  show ?thesis
    using promote_states [OF assms(3,4) refl, of k] before cur assms(1,2)
    by (auto simp: stored_def)
qed

definition demo_files :: files where
  "demo_files =
     [(''r.npz'', Binary ''old''),
      (''r.npz.json'', Json (VDict [(''checkpoint_format'', VInt 1), (''sha256'', VStr ''BBold'')])),
      (''r.last.npz'', Binary ''new'')]"

definition demo_digest :: "content \<Rightarrow> string" where
  "demo_digest c = (case c of Binary b \<Rightarrow> ''BB'' @ b | Text b \<Rightarrow> ''T'' @ b | Json v \<Rightarrow> ''J'')"

theorem promote_crash_safe_witness:
  "let p = best_path ''d'' ''r'';
       r = checkpoint_promote demo_digest (\<lambda>_. 3) ''d'' ''u'' ''v'' (last_path ''d'' ''r'') p [] demo_files
   in checkpoint_verify demo_digest ''d'' p [] (fs_run (take 4 (snd (projr r))) demo_files) = Inr (fst (projr r))
      \<and> dict_get ''r.npz'' (fs_run (take 4 (snd (projr r))) demo_files) = Some (Binary ''new'')"
  using promote_crash_safe [of "best_path ''d'' ''r''" demo_files "Binary ''old''" demo_digest "Binary ''new''"
      "\<lambda>_. 3" "''d''" "''u''" "''v''" "last_path ''d'' ''r''" "[]" _ _ _ "[]" 4]
  by (simp add: checkpoint_promote_def checkpoint_record_def checkpoint_verify_def best_path_def
      last_path_def Let_def dict_merge_def pending_name_def metadata_name_def dict_set_def dict_del_def
      demo_files_def demo_digest_def feq_def)

text \<open>Removing a run deletes its two checkpoints and their metadata, so neither verifies any
  more, and leaves every file of another name as it was.\<close>

theorem remove_run_exact:
  assumes "dict_ok fs"
  shows "dict_get n (fs_run (remove_run_ops dir run_id) fs) =
    (if n \<in> set (map (\<lambda>suffix. run_id @ suffix) [''.npz'', ''.npz.json'', ''.last.npz'', ''.last.npz.json''])
     then None else dict_get n fs)"
  using assms
  by (auto simp: remove_run_ops_def best_path_def last_path_def metadata_name_def dict_get_del dict_ok_del)

theorem remove_run_exact_witness:
  "dict_get ''r.npz'' (fs_run (remove_run_ops ''d'' ''r'') demo_files) = None"
  using remove_run_exact [of demo_files "''r.npz''" "''d''" "''r''"]
  by (simp add: demo_files_def dict_ok_def)

end
