(* ===== verification/TrainLoop.thy ===== *)
theory TrainLoop imports RuntimeSpec Guard Checkpoints begin

text \<open>
  The training loop of one worker thread: \<open>_run_worker_loop\<close>, \<open>_complete_with_test\<close> and
  \<open>_adapt_batch\<close> of \<open>src/src/kernelyra/runtime.py\<close>. The backend process is the environment: an
  iteration gets its answers, the control flags, the clocks and the stored record as one input, and
  the loop is the function from a list of inputs to the point where it returns or raises. The
  checkpoint directory is part of the state.
\<close>

section \<open>State, inputs and results\<close>

record loop_env =
  le_digest :: "content \<Rightarrow> string"
  le_size :: "content \<Rightarrow> int"
  le_dir :: string
  le_bulk :: bool
  le_restore :: bool
  le_test :: bool

record loop_input =
  in_control :: control
  in_step :: "(bool \<times> kerror) + (pyfloat \<times> int)"
  in_eval :: "kerror + (pyfloat \<times> pydict)"
  in_rate :: pyfloat
  in_wall :: rat
  in_clock :: rat
  in_saved :: "kerror + content option"
  in_tokens :: "string \<times> string \<times> string"
  in_records :: int
  in_restored :: "kerror option"
  in_test :: "kerror + (pyfloat \<times> pydict)"
  in_current :: "run_info option"
  in_current2 :: "run_info option"

record loop_state =
  ls_run :: run_info
  ls_recent :: "pyfloat list"
  ls_plateau :: int
  ls_hits :: int
  ls_streak :: int
  ls_last_save :: rat
  ls_trace :: trace
  ls_files :: files
  ls_saves :: "run_info list"

datatype loop_result = Continue loop_state | Return outcome loop_state | Raise kerror loop_state

fun result_state :: "loop_result \<Rightarrow> loop_state" where
  "result_state (Continue s) = s"
| "result_state (Return out s) = s"
| "result_state (Raise e s) = s"

text \<open>A progress save: the loop goes on with the merged record.\<close>

definition loop_save :: "run_info option \<Rightarrow> loop_state \<Rightarrow> loop_state" where
  "loop_save current s =
     (let r = merge_progress current (ls_run s) in s\<lparr>ls_run := r, ls_saves := ls_saves s @ [r]\<rparr>)"

definition set_run :: "run_info \<Rightarrow> loop_state \<Rightarrow> loop_state" where
  "set_run r s = s\<lparr>ls_run := r\<rparr>"

section \<open>Chunks\<close>

definition evaluation_interval :: "run_info \<Rightarrow> int" where
  "evaluation_interval r =
     (case r_evaluation_interval r of
        Some n \<Rightarrow> if n \<noteq> 0 then n else max 20 (min 500 (max 1 (r_max_steps r div 20)))
      | None \<Rightarrow> max 20 (min 500 (max 1 (r_max_steps r div 20))))"

definition engine :: "run_info \<Rightarrow> string" where
  "engine r = (case r_effective_backend r of Some b \<Rightarrow> if b = [] then r_backend r else b | None \<Rightarrow> r_backend r)"

text \<open>\<open>execution_tuning.bulk_step_cap\<close> of the environment manifest, an integer where present.\<close>

definition bulk_step_cap :: "run_info \<Rightarrow> int" where
  "bulk_step_cap r =
     (case dict_get ''execution_tuning'' (r_environment_manifest r) of
        Some (VDict d) \<Rightarrow> (case dict_get ''bulk_step_cap'' d of Some (VInt n) \<Rightarrow> n | _ \<Rightarrow> 100)
      | _ \<Rightarrow> 100)"

definition chunk_steps :: "run_info \<Rightarrow> int" where
  "chunk_steps r =
     (let interval = evaluation_interval r;
          steps_to_evaluation = interval - r_step r mod interval;
          steps_to_finish = max 1 (r_max_steps r - r_step r);
          fast = engine r \<in> {''native'', ''numpy''};
          maximum_chunk = (if fast then min 100 (max 1 (bulk_step_cap r)) else 1);
          responsiveness_cap = max 1 (min maximum_chunk (65536 div max 1 (r_batch_size r)))
      in min (min steps_to_evaluation steps_to_finish) responsiveness_cap)"

section \<open>Batch adaptation\<close>

definition float_max :: "pyfloat list \<Rightarrow> pyfloat" where
  "float_max xs = fold (\<lambda>x m. fmax m x) (tl xs) (hd xs)"

definition adapt_batch :: "run_info \<Rightarrow> pyfloat list \<Rightarrow> int \<Rightarrow> run_info \<times> run_message option" where
  "adapt_batch r scores train_records =
     (if r_batch_mode r \<noteq> ''auto'' then (r, None) else
      let current = r_batch_size r in
      if 3 \<le> length scores \<and>
         flt (last scores) (fsub (float_max (butlast (last_n 3 scores))) (to_float (4/100))) \<and>
         r_batch_min r < current
      then let b = max (r_batch_min r) (current div 2)
           in (r\<lparr>r_batch_size := b, r_batch_adjustments := r_batch_adjustments r + 1\<rparr>,
               Some (MsgBatchLowered current b))
      else
      let stable = (2 \<le> length scores \<and>
            fle (fabs (fsub (last scores) (last (butlast scores)))) (to_float (2/100))) in
      if r_eval_count r \<in> {2, 4} \<and> stable \<and> current < r_batch_max r \<and> current * 8 \<le> train_records
      then let b = min (r_batch_max r) (current * 2)
           in (r\<lparr>r_batch_size := b, r_batch_adjustments := r_batch_adjustments r + 1\<rparr>,
               Some (MsgBatchRaised current b))
      else (r, None))"

section \<open>Completion\<close>

text \<open>\<open>_complete_with_test\<close>.\<close>

definition complete_with_test :: "loop_env \<Rightarrow> loop_input \<Rightarrow> loop_state \<Rightarrow> loop_result" where
  "complete_with_test c inp s =
     (let r = ls_run s;
          exists = (dict_get (p_name (best_path (le_dir c) (r_id r))) (ls_files s) \<noteq> None)
      in case (if exists \<and> le_restore c then in_restored inp else None) of
           Some e \<Rightarrow> Raise e s
         | None \<Rightarrow>
             if \<not> le_test c
             then Return CompleteO (loop_save (in_current2 inp)
                    (set_run (r\<lparr>r_metrics := dict_merge (r_metrics r)
                       [(''test_unavailable'', VStr ''legacy_backend_worker_contract'')]\<rparr>) s))
             else case in_test inp of
                 Inl e \<Rightarrow> Raise e s
               | Inr (score, metrics) \<Rightarrow>
                   let t = trace_add (in_wall inp) ''test'' [(''step'', VInt (r_step r)), (''score'', VFloat score)]
                             (trace_from_metrics (r_metrics r));
                       tested = (case dict_get ''best'' (r_checkpoint r) of
                           Some (VDict d) \<Rightarrow> (case dict_get ''sha256'' d of Some v \<Rightarrow> v | None \<Rightarrow> VNone)
                         | _ \<Rightarrow> VNone)
                   in Return CompleteO (loop_save (in_current2 inp)
                        (set_run (r\<lparr>r_metrics := dict_merge (r_metrics r)
                           [(''test'', VDict metrics), (''test_score'', VFloat score),
                            (''tested_checkpoint'', tested), (''trace'', trace_val t)]\<rparr>) s)))"

section \<open>One evaluation\<close>

definition baseline_score :: "run_info \<Rightarrow> pyfloat option" where
  "baseline_score r =
     (case dict_get ''fine_tune_baseline'' (r_environment_manifest r) of
        Some (VDict d) \<Rightarrow> (case dict_get ''score'' d of Some v \<Rightarrow> num_value v | None \<Rightarrow> None)
      | _ \<Rightarrow> None)"

definition env_text :: "string \<Rightarrow> run_info \<Rightarrow> pyval" where
  "env_text k r = (case dict_get k (r_environment_manifest r) of Some v \<Rightarrow> v | None \<Rightarrow> VStr [])"

definition evaluation_metadata :: "run_info \<Rightarrow> pyfloat \<Rightarrow> pydict" where
  "evaluation_metadata r score =
     [(''run_id'', VStr (r_id r)), (''score'', VFloat score), (''step'', VInt (r_step r)),
      (''schema_version'', VInt 3), (''dataset_hash'', env_text ''dataset_hash'' r),
      (''config_hash'', env_text ''config_hash'' r), (''backend'', VStr (engine r)),
      (''task_type'', VStr (r_objective r)), (''architecture'', VStr (r_architecture r)),
      (''model_format'', VStr (r_model_format r)), (''worker_protocol'', v_opt_str (r_worker_protocol r))]"

definition checkpoint_entry :: "path \<Rightarrow> pydict \<Rightarrow> int \<Rightarrow> pyval" where
  "checkpoint_entry p info step =
     VDict [(''filename'', VStr (p_name p)),
            (''sha256'', case dict_get ''sha256'' info of Some v \<Rightarrow> v | None \<Rightarrow> VNone),
            (''step'', VInt step)]"

text \<open>The worker writes its checkpoint to the last path (or, a legacy one, nothing), which is then
  recorded if it is a file.\<close>

definition save_last ::
  "loop_env \<Rightarrow> loop_input \<Rightarrow> run_info \<Rightarrow> pydict \<Rightarrow> files \<Rightarrow> kerror + pydict option \<times> files" where
  "save_last c inp r metadata fs =
     (case in_saved inp of
        Inl e \<Rightarrow> Inl e
      | Inr written \<Rightarrow>
          let p = last_path (le_dir c) (r_id r);
              fs' = (case written of None \<Rightarrow> fs | Some x \<Rightarrow> fs_step (Create (p_name p) x) fs)
          in if dict_get (p_name p) fs' = None then Inr (None, fs')
             else case checkpoint_record (le_digest c) (le_size c) (le_dir c) (fst (in_tokens inp)) p metadata fs' of
                    Inl e \<Rightarrow> Inl e
                  | Inr (info, ops) \<Rightarrow> Inr (Some info, fs_run ops fs'))"

definition improves :: "run_info \<Rightarrow> pyfloat \<Rightarrow> bool" where
  "improves r score \<longleftrightarrow>
     r_eval_count r = 1 \<or> flt (fadd (r_best_score r) (r_min_improvement r)) score"

text \<open>The best score and its promoted checkpoint, or the last checkpoint's entry; with the exception
  a promotion may raise after the score is set.\<close>

definition update_best ::
  "loop_env \<Rightarrow> loop_input \<Rightarrow> pyfloat \<Rightarrow> pydict \<Rightarrow> pydict option \<Rightarrow> run_info \<Rightarrow> files
     \<Rightarrow> kerror option \<times> run_info \<times> files" where
  "update_best c inp score metadata last_info r fs =
     (let lastp = last_path (le_dir c) (r_id r); bestp = best_path (le_dir c) (r_id r) in
      if improves r score
      then let r1 = r\<lparr>r_best_score := score, r_best_step := r_step r\<rparr> in
           case last_info of
             None \<Rightarrow> (None, r1, fs)
           | Some info \<Rightarrow>
               (case checkpoint_promote (le_digest c) (le_size c) (le_dir c)
                       (fst (snd (in_tokens inp))) (snd (snd (in_tokens inp))) lastp bestp
                       (dict_merge metadata [(''best_score'', VFloat score), (''kind'', VStr ''best'')]) fs of
                  Inl e \<Rightarrow> (Some e, r1, fs)
                | Inr (best_info, ops) \<Rightarrow>
                    (None, r1\<lparr>r_checkpoint := [(''best'', checkpoint_entry bestp best_info (r_step r)),
                                               (''last'', checkpoint_entry lastp info (r_step r))]\<rparr>,
                     fs_run ops fs))
      else case last_info of
             None \<Rightarrow> (None, r, fs)
           | Some info \<Rightarrow>
               (None, r\<lparr>r_checkpoint := dict_set ''last'' (checkpoint_entry lastp info (r_step r))
                                          (r_checkpoint r)\<rparr>, fs))"

definition health ::
  "run_info \<Rightarrow> int \<Rightarrow> pyfloat \<Rightarrow> gate_result \<Rightarrow> trend option \<Rightarrow> pydict" where
  "health r streak score quality guard =
     [(''status'', VStr (if streak \<noteq> 0 then ''degrading'' else ''stable'')),
      (''degradation_streak'', VInt streak),
      (''gap_from_best'', VFloat (fmax (Fin 0) (fsub (r_best_score r) score))),
      (''best_score'', VFloat (r_best_score r)),
      (''policy'', VDict
        [(''evaluation_interval'', VInt (evaluation_interval r)),
         (''min_improvement'', VFloat (r_min_improvement r)),
         (''degradation_margin'', VFloat (r_degradation_margin r)),
         (''degradation_patience'', VInt (r_degradation_patience r)),
         (''early_stopping_patience'', VInt (r_early_stopping_patience r)),
         (''target_patience'', VInt (r_target_patience r))]),
      (''quality_gate'', VDict (gate_to_dict quality)),
      (''guard_v2'', VDict (trend_to_dict guard))]"

definition finish_with ::
  "loop_env \<Rightarrow> loop_input \<Rightarrow> run_message \<Rightarrow> string \<Rightarrow> loop_state \<Rightarrow> loop_result" where
  "finish_with c inp msg reason s =
     complete_with_test c inp (loop_save (in_current inp)
       (set_run ((ls_run s)\<lparr>r_message := msg, r_termination_reason := Some reason\<rparr>) s))"

text \<open>Model Guard: the rejected last checkpoint is dropped before completion.\<close>

definition restore_best :: "loop_env \<Rightarrow> pyfloat \<Rightarrow> loop_state \<Rightarrow> loop_state" where
  "restore_best c score s =
     (let r = ls_run s;
          rejected = (case dict_get ''last'' (r_checkpoint r) of Some (VDict d) \<Rightarrow> d | _ \<Rightarrow> []);
          old = (case dict_get ''health'' (r_metrics r) of Some (VDict d) \<Rightarrow> d | _ \<Rightarrow> []);
          new = dict_merge old
            [(''status'', VStr ''best_checkpoint_restored''),
             (''delivered_score'', VFloat (r_best_score r)), (''rejected_score'', VFloat score),
             (''rejected_checkpoint'', VDict (dict_merge rejected [(''discarded'', VBool True)]))]
      in s\<lparr>ls_run := r\<lparr>r_checkpoint := dict_del ''last'' (r_checkpoint r),
                          r_metrics := dict_set ''health'' (VDict new) (r_metrics r)\<rparr>,
           ls_files := fs_run (discard_last_ops (le_dir c) (r_id r)) (ls_files s)\<rparr>)"

text \<open>The four ways an evaluation ends the loop, in the order the code tests them.\<close>

definition decide ::
  "loop_env \<Rightarrow> loop_input \<Rightarrow> pyfloat \<Rightarrow> bool \<Rightarrow> loop_state \<Rightarrow> loop_result" where
  "decide c inp score restore s =
     (let r = ls_run s in
      if r_degradation_patience r \<le> ls_streak s \<or> restore
      then finish_with c inp MsgModelGuard ''model_degradation'' (restore_best c score s)
      else if r_target_patience r \<le> ls_hits s
      then finish_with c inp (MsgTarget (r_target_score r)) ''target_reached'' s
      else if r_early_stopping_patience r < ls_plateau s
      then finish_with c inp MsgSmartStop ''early_stopping'' s
      else if r_max_steps r \<le> r_step r
      then finish_with c inp MsgMaxSteps ''max_steps'' (set_run (r\<lparr>r_step := r_max_steps r\<rparr>) s)
      else Continue (loop_save (in_current inp) s))"

definition counted :: "run_info \<Rightarrow> run_info" where
  "counted r = r\<lparr>r_eval_count := r_eval_count r + 1\<rparr>"

definition comparison_best :: "run_info \<Rightarrow> pyfloat \<Rightarrow> pyfloat" where
  "comparison_best r score = (if r_eval_count r = 1 then score else r_best_score r)"

definition evaluation_gate :: "run_info \<Rightarrow> pyfloat \<Rightarrow> pydict \<Rightarrow> gate_result" where
  "evaluation_gate r score metrics =
     gate_inspect \<lparr>g_margin = r_degradation_margin r, g_baseline = baseline_score r\<rparr>
       score (r_loss r) metrics (comparison_best r score)"

definition evaluation_trace :: "loop_input \<Rightarrow> run_info \<Rightarrow> gate_result \<Rightarrow> trace \<Rightarrow> trace" where
  "evaluation_trace inp r quality t =
     trace_add (in_wall inp) ''evaluation''
       [(''step'', VInt (r_step r)), (''score'', v_opt_float (gr_score quality)),
        (''loss'', v_opt_float (gr_loss quality)), (''updates_per_second'', VFloat (in_rate inp)),
        (''quality'', VStr (gr_status quality))] t"

definition next_streak :: "run_info \<Rightarrow> pyfloat \<Rightarrow> int \<Rightarrow> int" where
  "next_streak r score streak =
     (if 1 < r_eval_count r \<and> flt score (fsub (r_best_score r) (r_degradation_margin r))
      then streak + 1 else 0)"

text \<open>What follows a finite evaluation once its checkpoint is settled: \<open>r\<close> has the new best score,
  \<open>before\<close> is the record before it.\<close>

definition settle ::
  "loop_env \<Rightarrow> loop_input \<Rightarrow> pyfloat \<Rightarrow> gate_result \<Rightarrow> trend option \<Rightarrow> run_info \<Rightarrow> run_info \<Rightarrow> loop_state \<Rightarrow> loop_result"
  where
  "settle c inp score quality guard before r s =
     (let streak = next_streak before score (ls_streak s);
          r1 = r\<lparr>r_metrics := dict_set ''health'' (VDict (health r streak score quality guard)) (r_metrics r)\<rparr>;
          (r2, note) = adapt_batch r1 (ls_recent s) (in_records inp);
          r3 = r2\<lparr>r_message := (case note of Some m \<Rightarrow> m
                               | None \<Rightarrow> MsgValidation (r_eval_count r2) score (r_batch_size r2))\<rparr>
      in decide c inp score (restore_recommended guard)
           (s\<lparr>ls_run := r3, ls_streak := streak,
              ls_plateau := (if improves before score then 0 else ls_plateau s + 1),
              ls_hits := (if fle (r_target_score r) score then ls_hits s + 1 else 0)\<rparr>))"

definition evaluate_step :: "loop_env \<Rightarrow> loop_input \<Rightarrow> loop_state \<Rightarrow> loop_result" where
  "evaluate_step c inp s =
     (case in_eval inp of
        Inl e \<Rightarrow> Raise e s
      | Inr (score, metrics) \<Rightarrow>
          let r = counted (ls_run s);
              quality = evaluation_gate r score metrics;
              t = evaluation_trace inp r quality (ls_trace s);
              s1 = s\<lparr>ls_run := r, ls_trace := t\<rparr>
          in if \<not> gr_finite quality
             then Raise FloatingPointError (loop_save (in_current inp)
                    (set_run (r\<lparr>r_message := MsgQualityGate,
                        r_termination_reason := Some ''quality_gate_invalid'',
                        r_metrics := [(''step'', VInt (r_step r)), (''created_at'', VFloat (Fin (in_wall inp))),
                                      (''quality_gate'', VDict (gate_to_dict quality)),
                                      (''trace'', trace_val t)]\<rparr>) s1))
             else
             let guard = assess_trend (ls_recent s @ [score]) (comparison_best r score)
                           (r_degradation_margin r) (r_degradation_patience r) (baseline_score r);
                 r1 = r\<lparr>r_metrics :=
                     [(''step'', VInt (r_step r)), (''train'', VDict [(''loss'', VFloat (r_loss r))]),
                      (''validation'', VDict metrics), (''created_at'', VFloat (Fin (in_wall inp))),
                      (''quality_gate'', VDict (gate_to_dict quality)), (''trace'', trace_val t)]\<rparr>;
                 s2 = s1\<lparr>ls_run := r1, ls_recent := last_n 4 (ls_recent s @ [score])\<rparr>;
                 metadata = evaluation_metadata r1 score
             in case save_last c inp r1 metadata (ls_files s) of
                  Inl e \<Rightarrow> Raise e s2
                | Inr (last_info, fs) \<Rightarrow>
                    (case update_best c inp score metadata last_info r1 fs of
                       (Some e, r2, fs') \<Rightarrow> Raise e (s2\<lparr>ls_run := r2, ls_files := fs'\<rparr>)
                     | (None, r2, fs') \<Rightarrow>
                         settle c inp score quality guard r1 r2 (s2\<lparr>ls_files := fs'\<rparr>)))"

section \<open>One iteration\<close>

definition recover_oom :: "loop_input \<Rightarrow> loop_state \<Rightarrow> loop_result" where
  "recover_oom inp s =
     (let r = ls_run s; b = max (r_batch_min r) (r_batch_size r div 2)
      in Continue (loop_save (in_current inp)
           (set_run (r\<lparr>r_batch_size := b, r_batch_adjustments := r_batch_adjustments r + 1,
                       r_message := MsgOom (r_batch_size r) b\<rparr>) s)))"

definition report_progress :: "loop_input \<Rightarrow> loop_state \<Rightarrow> loop_result" where
  "report_progress inp s =
     (let r = ls_run s;
          t = trace_add (in_wall inp) ''progress''
                [(''step'', VInt (r_step r)), (''loss'', VFloat (r_loss r)),
                 (''samples_seen'', VInt (r_samples_seen r))] (ls_trace s);
          r1 = r\<lparr>r_metrics := dict_merge (r_metrics r) [(''trace'', trace_val t)]\<rparr>;
          s1 = s\<lparr>ls_run := r1, ls_trace := t\<rparr>
      in if ls_last_save s = 0 \<or> 1/2 \<le> in_clock inp - ls_last_save s
         then Continue ((loop_save (in_current inp)
                (set_run (r1\<lparr>r_message := MsgProgress (r_step r1) (r_loss r1) (r_batch_size r1)\<rparr>) s1))
                  \<lparr>ls_last_save := in_clock inp\<rparr>)
         else Continue s1)"

definition iterate :: "loop_env \<Rightarrow> loop_input \<Rightarrow> loop_state \<Rightarrow> loop_result" where
  "iterate c inp s =
     (let r = ls_run s in
      if ctl_stop (in_control inp)
      then Return StopO (loop_save (in_current inp) (set_run (r\<lparr>r_message := MsgStopConfirmed\<rparr>) s))
      else if ctl_pause (in_control inp)
      then Return PauseO (loop_save (in_current inp) (set_run (r\<lparr>r_message := MsgPauseConfirmed\<rparr>) s))
      else
      let chunk = chunk_steps r; executed = (if 1 < chunk \<and> le_bulk c then chunk else 1) in
      case in_step inp of
        Inl (oom, e) \<Rightarrow>
          if oom \<and> r_batch_mode r = ''auto'' \<and> r_batch_min r < r_batch_size r
          then recover_oom inp s else Raise e s
      | Inr (loss, samples) \<Rightarrow>
          let r1 = r\<lparr>r_step := r_step r + executed, r_samples_seen := r_samples_seen r + samples, r_loss := loss\<rparr>;
              s1 = set_run r1 s
          in if r_step r1 mod evaluation_interval r \<noteq> 0 \<and> r_step r1 < r_max_steps r
             then report_progress inp s1
             else evaluate_step c inp s1)"

text \<open>The loop over the answers it gets; a list that is too short leaves it waiting.\<close>

fun run_loop :: "loop_env \<Rightarrow> loop_input list \<Rightarrow> loop_state \<Rightarrow> loop_result" where
  "run_loop c [] s = Continue s"
| "run_loop c (inp # inps) s =
     (case iterate c inp s of Continue s' \<Rightarrow> run_loop c inps s' | res \<Rightarrow> res)"

definition loop_start :: "rat \<Rightarrow> run_info \<Rightarrow> files \<Rightarrow> loop_state" where
  "loop_start now r fs =
     \<lparr>ls_run = r, ls_recent = [], ls_plateau = 0, ls_hits = 0, ls_streak = 0, ls_last_save = 0,
      ls_trace = trace_add now ''training_started''
        [(''step'', VInt (r_step r)), (''backend'', VStr (engine r)),
         (''tuning'', case dict_get ''execution_tuning'' (r_environment_manifest r) of
                        Some v \<Rightarrow> v | None \<Rightarrow> VDict [])]
        (trace_from_metrics (r_metrics r)),
      ls_files = fs, ls_saves = []\<rparr>"

section \<open>What the loop keeps\<close>

lemma truncate_live [simp]:
  "run_plan.truncate (r\<lparr>r_effective_backend := x0\<rparr>) = run_plan.truncate r"
  "run_plan.truncate (r\<lparr>r_batch_size := x1\<rparr>) = run_plan.truncate r"
  "run_plan.truncate (r\<lparr>r_status := x2\<rparr>) = run_plan.truncate r"
  "run_plan.truncate (r\<lparr>r_step := x3\<rparr>) = run_plan.truncate r"
  "run_plan.truncate (r\<lparr>r_best_score := x4\<rparr>) = run_plan.truncate r"
  "run_plan.truncate (r\<lparr>r_best_step := x5\<rparr>) = run_plan.truncate r"
  "run_plan.truncate (r\<lparr>r_loss := x6\<rparr>) = run_plan.truncate r"
  "run_plan.truncate (r\<lparr>r_samples_seen := x7\<rparr>) = run_plan.truncate r"
  "run_plan.truncate (r\<lparr>r_eval_count := x8\<rparr>) = run_plan.truncate r"
  "run_plan.truncate (r\<lparr>r_batch_adjustments := x9\<rparr>) = run_plan.truncate r"
  "run_plan.truncate (r\<lparr>r_message := x10\<rparr>) = run_plan.truncate r"
  "run_plan.truncate (r\<lparr>r_stop_requested := x11\<rparr>) = run_plan.truncate r"
  "run_plan.truncate (r\<lparr>r_paused := x12\<rparr>) = run_plan.truncate r"
  "run_plan.truncate (r\<lparr>r_metrics := x13\<rparr>) = run_plan.truncate r"
  "run_plan.truncate (r\<lparr>r_termination_reason := x14\<rparr>) = run_plan.truncate r"
  "run_plan.truncate (r\<lparr>r_worker_protocol := x15\<rparr>) = run_plan.truncate r"
  "run_plan.truncate (r\<lparr>r_worker_pid := x16\<rparr>) = run_plan.truncate r"
  "run_plan.truncate (r\<lparr>r_resource_enforcement := x17\<rparr>) = run_plan.truncate r"
  "run_plan.truncate (r\<lparr>r_environment_manifest := x18\<rparr>) = run_plan.truncate r"
  "run_plan.truncate (r\<lparr>r_checkpoint := x19\<rparr>) = run_plan.truncate r"
  by (simp_all add: run_plan.truncate_def)

lemma truncate_merge [simp]: "run_plan.truncate (merge_progress cur r) = run_plan.truncate r"
  by (cases cur) (simp_all add: merge_progress_def)

lemma truncate_adapt [simp]: "run_plan.truncate (fst (adapt_batch r xs n)) = run_plan.truncate r"
  by (simp add: adapt_batch_def Let_def)

text \<open>The planned fields of the record and of every record saved after the first \<open>k\<close>.\<close>

definition loop_plan :: "run_plan \<Rightarrow> nat \<Rightarrow> loop_state \<Rightarrow> bool" where
  "loop_plan p k s \<longleftrightarrow> run_plan.truncate (ls_run s) = p \<and> k \<le> length (ls_saves s) \<and>
     (\<forall>x \<in> set (drop k (ls_saves s)). run_plan.truncate x = p)"

lemma loop_plan_intros:
  "loop_plan p k s \<Longrightarrow> loop_plan p k (loop_save cur s)"
  "loop_plan p k s \<Longrightarrow> run_plan.truncate r = p \<Longrightarrow> loop_plan p k (set_run r s)"
  "loop_plan p k s \<Longrightarrow> run_plan.truncate r = p \<Longrightarrow> loop_plan p k (s\<lparr>ls_run := r\<rparr>)"
  by (auto simp: loop_plan_def loop_save_def set_run_def Let_def)

lemma loop_plan_fields [simp]:
  "loop_plan p k (s\<lparr>ls_recent := a\<rparr>) = loop_plan p k s"
  "loop_plan p k (s\<lparr>ls_plateau := b\<rparr>) = loop_plan p k s"
  "loop_plan p k (s\<lparr>ls_hits := b\<rparr>) = loop_plan p k s"
  "loop_plan p k (s\<lparr>ls_streak := b\<rparr>) = loop_plan p k s"
  "loop_plan p k (s\<lparr>ls_last_save := d\<rparr>) = loop_plan p k s"
  "loop_plan p k (s\<lparr>ls_trace := t\<rparr>) = loop_plan p k s"
  "loop_plan p k (s\<lparr>ls_files := f\<rparr>) = loop_plan p k s"
  by (simp_all add: loop_plan_def)

lemma plan_of: "loop_plan p k s \<Longrightarrow> run_plan.truncate (ls_run s) = p"
  by (simp add: loop_plan_def)

lemma plan_complete: "loop_plan p k s \<Longrightarrow> loop_plan p k (result_state (complete_with_test c inp s))"
  by (auto simp: complete_with_test_def Let_def plan_of split: option.split sum.split
      intro!: loop_plan_intros)

lemma plan_finish: "loop_plan p k s \<Longrightarrow> loop_plan p k (result_state (finish_with c inp m reason s))"
  unfolding finish_with_def by (intro plan_complete loop_plan_intros) (simp_all add: plan_of)

lemma plan_restore: "loop_plan p k s \<Longrightarrow> loop_plan p k (restore_best c score s)"
  by (simp add: restore_best_def Let_def loop_plan_def)

lemma plan_decide: "loop_plan p k s \<Longrightarrow> loop_plan p k (result_state (decide c inp score b s))"
  by (simp add: decide_def Let_def plan_finish plan_restore loop_plan_intros plan_of)

lemma plan_settle:
  "loop_plan p k s \<Longrightarrow> run_plan.truncate r = p \<Longrightarrow> loop_plan p k (result_state (settle c inp score q g before r s))"
  using truncate_adapt [of "r\<lparr>r_metrics := dict_set ''health''
      (VDict (health r (next_streak before score (ls_streak s)) score q g)) (r_metrics r)\<rparr>" "ls_recent s" "in_records inp"]
  by (auto simp: settle_def Let_def intro!: plan_decide loop_plan_intros split: prod.split simp del: truncate_adapt)

lemma plan_update_best: "run_plan.truncate (fst (snd (update_best c inp score m info r fs))) = run_plan.truncate r"
  by (simp add: update_best_def Let_def split: option.split sum.split prod.split)

lemma counted_simps [simp]:
  "run_plan.truncate (counted r) = run_plan.truncate r" "r_step (counted r) = r_step r"
  "r_batch_size (counted r) = r_batch_size r" "r_id (counted r) = r_id r"
  "r_max_steps (counted r) = r_max_steps r" "r_best_score (counted r) = r_best_score r"
  by (simp_all add: counted_def)

lemma plan_evaluate:
  assumes "loop_plan p k s" shows "loop_plan p k (result_state (evaluate_step c inp s))"
proof -
  have u: "run_plan.truncate r' = run_plan.truncate r" if "update_best c inp score m info r fs = (e, r', fs')"
    for score m info r fs e r' fs'
    using plan_update_best [of c inp score m info r fs] that by simp
  show ?thesis
    using assms plan_of [OF assms]
    by (auto simp: evaluate_step_def Let_def split: sum.split prod.split option.split dest!: u
        intro!: loop_plan_intros plan_settle)
qed

lemma plan_recover: "loop_plan p k s \<Longrightarrow> loop_plan p k (result_state (recover_oom inp s))"
  by (simp add: recover_oom_def Let_def loop_plan_intros plan_of)

lemma plan_report: "loop_plan p k s \<Longrightarrow> loop_plan p k (result_state (report_progress inp s))"
  by (simp add: report_progress_def Let_def loop_plan_intros plan_of)

lemma plan_iterate:
  assumes "loop_plan p k s" shows "loop_plan p k (result_state (iterate c inp s))"
proof (cases "in_step inp")
  case (Inl x)
  with assms show ?thesis
    by (cases x) (simp add: iterate_def Let_def plan_recover loop_plan_intros plan_of)
next
  case (Inr x)
  with assms show ?thesis
    by (cases x) (simp add: iterate_def Let_def plan_report plan_evaluate loop_plan_intros plan_of)
qed

lemma plan_run_loop: "loop_plan p k s \<Longrightarrow> loop_plan p k (result_state (run_loop c inps s))"
proof (induction inps arbitrary: s)
  case (Cons inp inps)
  then show ?case using plan_iterate [OF Cons.prems, of c inp]
    by (auto split: loop_result.split)
qed simp

section \<open>Progress\<close>

definition executed_steps :: "loop_env \<Rightarrow> run_info \<Rightarrow> int" where
  "executed_steps c r = (if 1 < chunk_steps r \<and> le_bulk c then chunk_steps r else 1)"

lemma interval_pos:
  "(\<And>n. r_evaluation_interval r = Some n \<Longrightarrow> 0 \<le> n) \<Longrightarrow> 0 < evaluation_interval r"
  by (cases "r_evaluation_interval r") (force simp: evaluation_interval_def)+

lemma chunk_steps_bounds:
  assumes "0 < evaluation_interval r"
  shows "1 \<le> chunk_steps r" and "chunk_steps r \<le> evaluation_interval r - r_step r mod evaluation_interval r"
    and "chunk_steps r \<le> max 1 (r_max_steps r - r_step r)" and "chunk_steps r \<le> 100"
    and "chunk_steps r = 1 \<or> chunk_steps r * r_batch_size r \<le> 65536"
proof -
  let ?i = "evaluation_interval r"
  have m: "r_step r mod ?i < ?i" using assms by simp
  obtain x where c: "chunk_steps r = min (min (?i - r_step r mod ?i) (max 1 (r_max_steps r - r_step r))) x"
    and x: "1 \<le> x" "x \<le> 100"
  proof
    let ?x = "max 1 (min (if engine r \<in> {''native'', ''numpy''} then min 100 (max 1 (bulk_step_cap r)) else 1)
      (65536 div max 1 (r_batch_size r)))"
    show "chunk_steps r = min (min (?i - r_step r mod ?i) (max 1 (r_max_steps r - r_step r))) ?x"
      by (simp only: chunk_steps_def Let_def)
    show "1 \<le> ?x" by simp
    have "max 1 (min m q) \<le> 100" if "m \<le> 100" for m q :: int using that by linarith
    then show "?x \<le> 100" by simp
  qed
  show "1 \<le> chunk_steps r" using m x by (simp add: c)
  show "chunk_steps r \<le> ?i - r_step r mod ?i" "chunk_steps r \<le> max 1 (r_max_steps r - r_step r)"
    unfolding c by (simp_all only: min_le_iff_disj) simp_all
  show "chunk_steps r \<le> 100" using x by (simp add: c min_le_iff_disj)
  let ?q = "65536 div max 1 (r_batch_size r)"
  let ?b = "max 1 (r_batch_size r)"
  have gen: "min a (max 1 (min m q)) \<le> max 1 q" for a m q :: int by linarith
  have "chunk_steps r \<le> max 1 ?q" unfolding chunk_steps_def Let_def by (rule gen)
  then have d: "chunk_steps r = 1 \<or> chunk_steps r \<le> ?q" using \<open>1 \<le> chunk_steps r\<close> by linarith
  have "?q * ?b \<le> 65536"
  proof -
    have "?q * ?b + 65536 mod ?b = 65536" by (rule div_mult_mod_eq)
    moreover have "0 \<le> (65536::int) mod ?b" by (rule pos_mod_sign) simp
    ultimately show ?thesis by linarith
  qed
  moreover have "chunk_steps r * r_batch_size r \<le> ?q * ?b" if "chunk_steps r \<le> ?q"
  proof -
    have "chunk_steps r * r_batch_size r \<le> chunk_steps r * ?b"
      using \<open>1 \<le> chunk_steps r\<close> by (intro mult_left_mono) simp_all
    also have "\<dots> \<le> ?q * ?b" using that by (intro mult_right_mono) simp_all
    finally show ?thesis .
  qed
  ultimately show "chunk_steps r = 1 \<or> chunk_steps r * r_batch_size r \<le> 65536" using d by linarith
qed

lemma executed_bounds:
  assumes "0 < evaluation_interval r" and "r_step r < r_max_steps r"
  shows "1 \<le> executed_steps c r" and "r_step r + executed_steps c r \<le> r_max_steps r"
    and "r_step r mod evaluation_interval r + executed_steps c r \<le> evaluation_interval r"
  using chunk_steps_bounds [OF assms(1)] assms pos_mod_bound [OF assms(1), of "r_step r"]
  by (auto simp: executed_steps_def)

lemma complete_not_Continue [simp]: "complete_with_test c inp s \<noteq> Continue s'"
  by (simp add: complete_with_test_def Let_def split: option.split sum.split)

lemma finish_not_Continue [simp]: "finish_with c inp m reason s \<noteq> Continue s'"
  by (simp add: finish_with_def)

lemma merge_live [simp]:
  "r_step (merge_progress cur r) = r_step r" "r_batch_size (merge_progress cur r) = r_batch_size r"
  "r_best_score (merge_progress cur r) = r_best_score r" "r_eval_count (merge_progress cur r) = r_eval_count r"
  "r_best_step (merge_progress cur r) = r_best_step r" "r_checkpoint (merge_progress cur r) = r_checkpoint r"
  "r_termination_reason (merge_progress cur r) = r_termination_reason r" "r_id (merge_progress cur r) = r_id r"
  "r_max_steps (merge_progress cur r) = r_max_steps r"
  by (cases cur; simp add: merge_progress_def)+

lemma loop_save_simps [simp]:
  "ls_run (loop_save cur s) = merge_progress cur (ls_run s)"
  "ls_files (loop_save cur s) = ls_files s"
  "ls_streak (loop_save cur s) = ls_streak s"
  "ls_hits (loop_save cur s) = ls_hits s"
  "ls_plateau (loop_save cur s) = ls_plateau s"
  by (simp_all add: loop_save_def Let_def)

lemma decide_Continue:
  assumes "decide c inp score b s = Continue s'"
  shows "s' = loop_save (in_current inp) s" and "r_step (ls_run s) < r_max_steps (ls_run s)"
    and "ls_plateau s \<le> r_early_stopping_patience (ls_run s)"
  using assms by (simp_all add: decide_def Let_def split: if_splits)

lemma adapt_fields [simp]:
  "r_step (fst (adapt_batch r xs n)) = r_step r" "r_max_steps (fst (adapt_batch r xs n)) = r_max_steps r"
  "r_best_score (fst (adapt_batch r xs n)) = r_best_score r" "r_id (fst (adapt_batch r xs n)) = r_id r"
  "r_checkpoint (fst (adapt_batch r xs n)) = r_checkpoint r" "r_batch_min (fst (adapt_batch r xs n)) = r_batch_min r"
  "r_batch_max (fst (adapt_batch r xs n)) = r_batch_max r" "r_batch_mode (fst (adapt_batch r xs n)) = r_batch_mode r"
  "r_best_step (fst (adapt_batch r xs n)) = r_best_step r" "r_eval_count (fst (adapt_batch r xs n)) = r_eval_count r"
  by (simp_all add: adapt_batch_def Let_def)

definition batch_ok :: "run_info \<Rightarrow> bool" where
  "batch_ok r \<longleftrightarrow> 0 \<le> r_batch_min r \<and> (r_batch_mode r = ''auto'' \<longrightarrow>
     r_batch_min r \<le> r_batch_size r \<and> r_batch_size r \<le> r_batch_max r)"

lemma batch_okI:
  "batch_ok r \<Longrightarrow> run_plan.truncate r' = run_plan.truncate r \<Longrightarrow> r_batch_size r' = r_batch_size r \<Longrightarrow> batch_ok r'"
  using truncate_fields [of r' r]
  by (metis batch_ok_def run_plan.truncate_def run_plan.ext_inject)

lemma adapt_batch_ok: "batch_ok r \<Longrightarrow> batch_ok (fst (adapt_batch r xs n))"
  by (auto simp: adapt_batch_def batch_ok_def Let_def)

lemma update_best_fields:
  assumes "update_best c inp score m info r fs = (e, r', fs')"
  shows "r_step r' = r_step r" "r_max_steps r' = r_max_steps r" "r_batch_size r' = r_batch_size r"
    "r_id r' = r_id r" "r_eval_count r' = r_eval_count r" "run_plan.truncate r' = run_plan.truncate r"
    "r_best_score r' = (if improves r score then score else r_best_score r)"
    "r_best_step r' = (if improves r score then r_step r else r_best_step r)"
  using assms by (auto simp: update_best_def Let_def split: option.splits sum.splits prod.splits if_splits)

text \<open>What an iteration that goes on has done to the record.\<close>

lemma settle_Continue:
  assumes "settle c inp score q g before r s = Continue s'"
  shows "r_step (ls_run s') = r_step r" and "r_step r < r_max_steps r"
    and "batch_ok r \<Longrightarrow> batch_ok (ls_run s')" and "r_max_steps (ls_run s') = r_max_steps r"
    and "r_best_score (ls_run s') = r_best_score r" and "r_best_step (ls_run s') = r_best_step r"
    and "r_eval_count (ls_run s') = r_eval_count r"
proof -
  define r1 where "r1 = r\<lparr>r_metrics := dict_set ''health''
      (VDict (health r (next_streak before score (ls_streak s)) score q g)) (r_metrics r)\<rparr>"
  obtain r2 nt where a: "adapt_batch r1 (ls_recent s) (in_records inp) = (r2, nt)" by fastforce
  define m where "m = (case nt of Some m \<Rightarrow> m | None \<Rightarrow> MsgValidation (r_eval_count r2) score (r_batch_size r2))"
  let ?s = "s\<lparr>ls_run := r2\<lparr>r_message := m\<rparr>, ls_streak := next_streak before score (ls_streak s),
      ls_plateau := (if improves before score then 0 else ls_plateau s + 1),
      ls_hits := (if fle (r_target_score r) score then ls_hits s + 1 else 0)\<rparr>"
  have d: "decide c inp score (restore_recommended g) ?s = Continue s'"
    using assms unfolding settle_def Let_def r1_def [symmetric] a prod.case m_def .
  have r2: "r2 = fst (adapt_batch r1 (ls_recent s) (in_records inp))" by (simp add: a)
  have run: "ls_run s' = merge_progress (in_current inp)
      ((fst (adapt_batch r1 (ls_recent s) (in_records inp)))\<lparr>r_message := m\<rparr>)"
    using decide_Continue(1) [OF d] by (simp add: r2)
  have lt: "r_step r < r_max_steps r"
    using decide_Continue(2) [OF d] by (simp add: r2) (simp add: r1_def)
  show "r_step (ls_run s') = r_step r" "r_step r < r_max_steps r" "r_max_steps (ls_run s') = r_max_steps r"
    "r_best_score (ls_run s') = r_best_score r" "r_best_step (ls_run s') = r_best_step r"
    "r_eval_count (ls_run s') = r_eval_count r"
    using lt by (simp_all add: run r1_def)
  show "batch_ok (ls_run s')" if "batch_ok r"
  proof -
    have "batch_ok (fst (adapt_batch r1 (ls_recent s) (in_records inp)))"
      by (intro adapt_batch_ok batch_okI [OF that]) (simp_all add: r1_def)
    then show ?thesis by (rule batch_okI) (simp_all add: run)
  qed
qed

lemma evaluate_Continue:
  assumes "evaluate_step c inp s = Continue s'"
  obtains score metrics where "in_eval inp = Inr (score, metrics)"
    "r_step (ls_run s') = r_step (ls_run s)" "r_step (ls_run s) < r_max_steps (ls_run s)"
    "batch_ok (ls_run s) \<Longrightarrow> batch_ok (ls_run s')" "r_max_steps (ls_run s') = r_max_steps (ls_run s)"
    "r_eval_count (ls_run s') = r_eval_count (ls_run s) + 1"
    "r_best_score (ls_run s') = (if improves (counted (ls_run s)) score then score else r_best_score (ls_run s))"
    "r_best_step (ls_run s') = (if improves (counted (ls_run s)) score then r_step (ls_run s) else r_best_step (ls_run s))"
proof -
  obtain score metrics where ev: "in_eval inp = Inr (score, metrics)"
    using assms by (auto simp: evaluate_step_def split: sum.splits)
  define r where "r = counted (ls_run s)"
  define q where "q = evaluation_gate r score metrics"
  define r1 where "r1 = r\<lparr>r_metrics :=
      [(''step'', VInt (r_step r)), (''train'', VDict [(''loss'', VFloat (r_loss r))]),
       (''validation'', VDict metrics), (''created_at'', VFloat (Fin (in_wall inp))),
       (''quality_gate'', VDict (gate_to_dict q)),
       (''trace'', trace_val (evaluation_trace inp r q (ls_trace s)))]\<rparr>"
  have fin: "gr_finite q"
    using assms by (auto simp: evaluate_step_def ev Let_def q_def r_def split: if_splits)
  obtain g info fs r2 fs' s2 where u: "update_best c inp score (evaluation_metadata r1 score) info r1 fs = (None, r2, fs')"
    and st: "settle c inp score q g r1 r2 s2 = Continue s'"
    using assms fin
    by (auto simp: evaluate_step_def ev Let_def simp flip: r_def q_def r1_def
        split: sum.splits prod.splits option.splits)
  note f = update_best_fields [OF u] and g = settle_Continue [OF st]
  have same: "improves r1 score = improves r score" by (simp add: improves_def r1_def)
  show ?thesis
  proof (rule that [OF ev])
    show "batch_ok (ls_run s')" if "batch_ok (ls_run s)"
      by (rule g(3), rule batch_okI [OF that]) (simp_all add: f r1_def r_def)
  qed (use f g same in \<open>simp_all add: r1_def r_def\<close>, simp_all add: counted_def)
qed

lemma iterate_Continue:
  assumes "iterate c inp s = Continue s'"
  obtains
    (oom) "r_step (ls_run s') = r_step (ls_run s)" "r_batch_min (ls_run s) < r_batch_size (ls_run s)"
      "r_batch_size (ls_run s') = max (r_batch_min (ls_run s)) (r_batch_size (ls_run s) div 2)"
      "r_eval_count (ls_run s') = r_eval_count (ls_run s)" "r_best_score (ls_run s') = r_best_score (ls_run s)"
      "r_batch_mode (ls_run s) = ''auto''"
  | (trained) "r_step (ls_run s') = r_step (ls_run s) + executed_steps c (ls_run s)"
      "r_step (ls_run s') < r_max_steps (ls_run s)" "batch_ok (ls_run s) \<Longrightarrow> batch_ok (ls_run s')"
proof (cases "in_step inp")
  case (Inl x)
  obtain b e where x: "x = (b, e)" by fastforce
  from assms have "r_batch_min (ls_run s) < r_batch_size (ls_run s)" "recover_oom inp s = Continue s'"
    "r_batch_mode (ls_run s) = ''auto''"
    by (auto simp: iterate_def Let_def Inl x split: if_splits)
  then show ?thesis by (intro oom) (auto simp: recover_oom_def Let_def set_run_def)
next
  case (Inr x)
  obtain loss n where x: "x = (loss, n)" by fastforce
  define r where "r = (ls_run s)\<lparr>r_step := r_step (ls_run s) + executed_steps c (ls_run s),
      r_samples_seen := r_samples_seen (ls_run s) + n, r_loss := loss\<rparr>"
  have ok: "batch_ok (ls_run s) \<Longrightarrow> batch_ok r" by (rule batch_okI) (auto simp: r_def)
  have it: "(if r_step r mod evaluation_interval (ls_run s) \<noteq> 0 \<and> r_step r < r_max_steps (ls_run s)
      then report_progress inp (set_run r s) else evaluate_step c inp (set_run r s)) = Continue s'"
    using assms by (auto simp: iterate_def Let_def Inr x r_def executed_steps_def split: if_splits)
  have step: "r_step r = r_step (ls_run s) + executed_steps c (ls_run s)" "r_max_steps r = r_max_steps (ls_run s)"
    by (simp_all add: r_def)
  show ?thesis
  proof (cases "r_step r mod evaluation_interval (ls_run s) \<noteq> 0 \<and> r_step r < r_max_steps (ls_run s)")
    case True
    then have rep: "report_progress inp (set_run r s) = Continue s'" using it by simp
    then have f: "r_step (ls_run s') = r_step r" "r_batch_size (ls_run s') = r_batch_size r"
      "run_plan.truncate (ls_run s') = run_plan.truncate r"
      by (auto simp: report_progress_def Let_def set_run_def split: if_splits)
    show ?thesis
      using True f step ok batch_okI [OF ok f(3,2)] by (intro trained) auto
  next
    case False
    have "evaluate_step c inp (set_run r s) = Continue s'" by (rule it [unfolded if_not_P [OF False]])
    then show ?thesis
      by (rule evaluate_Continue) (use step ok in \<open>auto simp: set_run_def intro: trained\<close>)
  qed
qed

section \<open>Termination\<close>

text \<open>The retries left before the batch is at its minimum, and the bound on all iterations.\<close>

definition retries :: "run_info \<Rightarrow> nat" where
  "retries r = (if r_batch_mode r = ''auto''
     then bit_length (nat (r_batch_size r)) + (if r_batch_min r < r_batch_size r then 1 else 0) else 0)"

definition loop_bound :: "nat \<Rightarrow> run_info \<Rightarrow> nat" where
  "loop_bound B r = nat (r_max_steps r - r_step r) * (B + 2) + retries r"

lemma retries_le: "batch_ok r \<Longrightarrow> retries r \<le> bit_length (nat (r_batch_max r)) + 1"
proof (cases "r_batch_mode r = ''auto''")
  case True
  assume "batch_ok r"
  then have "nat (r_batch_size r) \<le> nat (r_batch_max r)" using True by (simp add: batch_ok_def nat_mono)
  then show ?thesis using bit_length_mono by (simp add: retries_def le_SucI)
qed (simp add: retries_def)

lemma retries_oom:
  assumes "0 \<le> m" and "m < b" and "b' = max m (b div 2)"
  shows "bit_length (nat b') + (if m < b' then 1 else 0) < bit_length (nat b) + 1"
proof (cases "m < b div 2")
  case True
  then have "b' = b div 2" "0 < b" using assms by auto
  then have "nat b' = nat b div 2" by (simp add: nat_div_distrib)
  with \<open>0 < b\<close> show ?thesis by (simp add: bit_length_pos)
next
  case False
  then have "b' = m" using assms by simp
  moreover have "nat m \<le> nat b" using assms(2) by (simp add: nat_mono)
  ultimately show ?thesis using bit_length_mono [of "nat m" "nat b"] by (simp add: le_imp_less_Suc)
qed

definition loop_ok :: "loop_state \<Rightarrow> bool" where
  "loop_ok s \<longleftrightarrow> batch_ok (ls_run s) \<and> r_step (ls_run s) < r_max_steps (ls_run s)
     \<and> 0 < evaluation_interval (ls_run s)"

lemma interval_truncate:
  "run_plan.truncate r' = run_plan.truncate r \<Longrightarrow> evaluation_interval r' = evaluation_interval r
     \<and> r_max_steps r' = r_max_steps r \<and> r_batch_min r' = r_batch_min r \<and> r_batch_max r' = r_batch_max r
     \<and> r_batch_mode r' = r_batch_mode r"
  by (simp add: run_plan.truncate_def evaluation_interval_def split: option.split)

lemma iterate_truncate:
  assumes "iterate c inp s = Continue t" shows "run_plan.truncate (ls_run t) = run_plan.truncate (ls_run s)"
proof -
  have "loop_plan (run_plan.truncate (ls_run s)) (length (ls_saves s)) s" by (simp add: loop_plan_def)
  from plan_of [OF plan_iterate [OF this, of c inp]] assms show ?thesis by simp
qed

lemma iterate_decreases:
  assumes it: "iterate c inp s = Continue s'" and ok: "loop_ok s"
  shows "loop_ok s'"
    and "loop_bound (bit_length (nat (r_batch_max (ls_run s)))) (ls_run s')
       < loop_bound (bit_length (nat (r_batch_max (ls_run s)))) (ls_run s)"
proof -
  let ?r = "ls_run s" and ?r' = "ls_run s'" and ?B = "bit_length (nat (r_batch_max (ls_run s)))"
  note keep = interval_truncate [OF iterate_truncate [OF it]]
  from it show "loop_ok s'"
  proof (cases rule: iterate_Continue)
    case oom
    with ok keep show ?thesis by (auto simp: loop_ok_def batch_ok_def)
  next
    case trained
    with ok keep show ?thesis by (simp add: loop_ok_def)
  qed
  from it show "loop_bound ?B ?r' < loop_bound ?B ?r"
  proof (cases rule: iterate_Continue)
    case oom
    then show ?thesis
      using ok keep retries_oom [of "r_batch_min ?r" "r_batch_size ?r" "r_batch_size ?r'"]
      by (simp add: loop_bound_def retries_def loop_ok_def batch_ok_def)
  next
    case trained
    have ex: "1 \<le> executed_steps c ?r" using ok by (intro executed_bounds) (simp_all add: loop_ok_def)
    have "batch_ok ?r'" using trained ok by (simp add: loop_ok_def)
    then have le: "retries ?r' \<le> ?B + 1" using retries_le [of ?r'] keep by simp
    have "nat (r_max_steps ?r' - r_step ?r') + 1 \<le> nat (r_max_steps ?r - r_step ?r)"
      using trained ex keep by linarith
    then have "(nat (r_max_steps ?r' - r_step ?r') + 1) * (?B + 2) \<le> nat (r_max_steps ?r - r_step ?r) * (?B + 2)"
      by (rule mult_le_mono1)
    with le show ?thesis by (simp add: loop_bound_def)
  qed
qed

lemma run_loop_stops:
  "loop_ok s \<Longrightarrow> B = bit_length (nat (r_batch_max (ls_run s))) \<Longrightarrow>
     loop_bound B (ls_run s) < length inps \<Longrightarrow> run_loop c inps s \<noteq> Continue s'"
proof (induction inps arbitrary: s)
  case (Cons inp inps)
  show ?case
  proof (cases "iterate c inp s")
    case (Continue t)
    note dec = iterate_decreases [OF Continue Cons.prems(1)]
    have "r_batch_max (ls_run t) = r_batch_max (ls_run s)"
      using interval_truncate [OF iterate_truncate [OF Continue]] by blast
    with dec Cons show ?thesis by (simp add: Continue)
  qed simp_all
qed simp

lemma run_loop_ok:
  "loop_ok s \<Longrightarrow> run_loop c inps s = Continue t \<Longrightarrow> loop_ok t \<and> r_step (ls_run s) \<le> r_step (ls_run t)"
proof (induction inps arbitrary: s)
  case (Cons inp inps)
  from Cons.prems obtain u where it: "iterate c inp s = Continue u" and rest: "run_loop c inps u = Continue t"
    by (auto split: loop_result.splits)
  have u: "loop_ok u" by (rule iterate_decreases [OF it Cons.prems(1)])
  have "0 < evaluation_interval (ls_run s)" "r_step (ls_run s) < r_max_steps (ls_run s)"
    using Cons.prems(1) by (simp_all add: loop_ok_def)
  then have ex: "1 \<le> executed_steps c (ls_run s)" by (rule executed_bounds)
  have "r_step (ls_run s) \<le> r_step (ls_run u)"
    using it by (cases rule: iterate_Continue) (use ex in simp_all)
  with Cons.IH [OF u rest] show ?case by simp
qed simp

section \<open>The best checkpoint\<close>

lemma promote_verifies:
  assumes "checkpoint_promote H L dir t t' src dst metadata fs = Inr (payload, ops)"
  shows "checkpoint_verify H dir dst [] (fs_run ops fs) = Inr payload"
proof -
  from assms obtain c ops1 ops2 where p: "p_parent dst = dir" "dict_get (p_name src) fs = Some c"
    and ops1: "ops1 = [Create (pending_name (p_name dst) t) c,
                       Replace (pending_name (p_name dst) t) (p_name dst)]"
    and rec: "checkpoint_record H L dir t' dst metadata (fs_run ops1 fs) = Inr (payload, ops2)"
    and ops: "ops = ops1 @ ops2"
    by (rule promote_InrE)
  have c: "dict_get (p_name dst) (fs_run ops1 fs) = Some c" by (simp add: ops1 dict_get_set)
  show ?thesis
    using record_payload_fields [OF rec c]
    by (simp add: ops fs_run_append verify_stored [OF p(1) record_stored [OF rec c]] Let_def feq_def)
qed

lemma promote_payload:
  assumes "checkpoint_promote H L dir t t' src dst metadata fs = Inr (payload, ops)"
    and "k \<notin> {''checkpoint_format'', ''filename'', ''sha256'', ''size_bytes''}"
  shows "dict_get k payload = dict_get k metadata"
  using assms by (auto elim!: promote_InrE record_InrE simp: dict_get_merge dict_ok_def)

section \<open>Example\<close>

definition demo_input :: loop_input where
  "demo_input = \<lparr>in_control = no_control, in_step = Inr (Fin (1/2), 8), in_eval = Inr (Fin (1/2), []),
     in_rate = Fin 1, in_wall = 1, in_clock = 1, in_saved = Inr (Some (Binary ''w'')),
     in_tokens = (''a'', ''b'', ''c''), in_records = 100, in_restored = None,
     in_test = Inr (Fin (1/2), []), in_current = None, in_current2 = None\<rparr>"

definition demo_env :: loop_env where
  "demo_env = \<lparr>le_digest = demo_digest, le_size = \<lambda>_. 1, le_dir = ''d'', le_bulk = True,
     le_restore = True, le_test = True\<rparr>"

definition loop_run :: run_info where
  "loop_run = demo_run ''r1''"

lemma loop_run_simps [simp]:
  "r_step loop_run = 0" "r_max_steps loop_run = 100" "r_batch_size loop_run = 32"
  "r_batch_min loop_run = 8" "r_batch_max loop_run = 64" "r_evaluation_interval loop_run = None"
  "r_id loop_run = ''r1''" "r_eval_count loop_run = 0" "r_loss loop_run = Fin 0"
  "reservations_ok loop_run" "r_status loop_run = Draft"
  by (simp_all add: loop_run_def demo_run_def demo_plan_def run_new_def run_plan.defs run_info.defs
      reservations_ok_def)

lemma loop_start_simps [simp]:
  "ls_run (loop_start now r fs) = r" "ls_files (loop_start now r fs) = fs" "ls_saves (loop_start now r fs) = []"
  by (simp_all add: loop_start_def)

lemma loop_run_ok: "loop_ok (loop_start 1 loop_run [])"
  by (simp add: loop_ok_def batch_ok_def evaluation_interval_def)

section \<open>Properties\<close>

text \<open>C9: Training ends. From any record with steps left, whatever the backend answers, the loop has
  returned or raised after at most as many iterations as there are steps left, times the
  out-of-memory retries a step can take.\<close>

theorem training_terminates:
  assumes "batch_ok (ls_run s)" and "r_step (ls_run s) < r_max_steps (ls_run s)"
    and "0 < evaluation_interval (ls_run s)"
    and "loop_bound (bit_length (nat (r_batch_max (ls_run s)))) (ls_run s) < length inps"
  shows "(\<exists>out t. run_loop c inps s = Return out t) \<or> (\<exists>e t. run_loop c inps s = Raise e t)"
proof -
  have "loop_ok s" using assms by (simp add: loop_ok_def)
  then have "run_loop c inps s \<noteq> Continue t" for t using assms(4) by (intro run_loop_stops) auto
  then show ?thesis by (cases "run_loop c inps s") auto
qed

theorem training_terminates_witness:
  "(\<exists>out t. run_loop demo_env (replicate 1000 demo_input) (loop_start 1 loop_run []) = Return out t) \<or>
   (\<exists>e t. run_loop demo_env (replicate 1000 demo_input) (loop_start 1 loop_run []) = Raise e t)"
  by (rule training_terminates)
    (simp_all add: batch_ok_def evaluation_interval_def loop_bound_def retries_def bit_length_pos)

text \<open>While the loop goes on, the step counter only grows and stays below the maximum, and in
  automatic mode the adapted batch size stays between the run's safe minimum and maximum.\<close>

theorem training_invariant:
  assumes "batch_ok (ls_run s)" and "r_step (ls_run s) < r_max_steps (ls_run s)"
    and "0 < evaluation_interval (ls_run s)" and "run_loop c inps s = Continue t"
  shows "r_step (ls_run s) \<le> r_step (ls_run t) \<and> r_step (ls_run t) < r_max_steps (ls_run t) \<and>
    (r_batch_mode (ls_run t) = ''auto'' \<longrightarrow>
      r_batch_min (ls_run t) \<le> r_batch_size (ls_run t) \<and> r_batch_size (ls_run t) \<le> r_batch_max (ls_run t))"
  using run_loop_ok [of s c inps t] assms by (simp add: loop_ok_def batch_ok_def)

theorem training_invariant_witness:
  "r_step (ls_run (result_state (run_loop demo_env [] (loop_start 1 loop_run [])))) < 100"
  using training_invariant [of "loop_start 1 loop_run []" demo_env "[]" "loop_start 1 loop_run []"]
  by (simp add: batch_ok_def evaluation_interval_def)

text \<open>A chunk of training steps is never empty, never runs past the step limit, never past the
  next evaluation, and in one call moves at most 100 steps and 65536 rows (or a single step).\<close>

theorem chunk_respects_boundaries:
  assumes "0 < evaluation_interval r" and "r_step r < r_max_steps r"
  shows "1 \<le> chunk_steps r \<and> r_step r + chunk_steps r \<le> r_max_steps r \<and>
    r_step r mod evaluation_interval r + chunk_steps r \<le> evaluation_interval r \<and> chunk_steps r \<le> 100 \<and>
    (chunk_steps r = 1 \<or> chunk_steps r * r_batch_size r \<le> 65536)"
  using chunk_steps_bounds [OF assms(1)] assms(2) by auto

theorem chunk_respects_boundaries_witness:
  "1 \<le> chunk_steps loop_run \<and> chunk_steps loop_run * 32 \<le> 65536"
  using chunk_respects_boundaries [of loop_run] by (auto simp: evaluation_interval_def)

text \<open>A non-finite score, loss or metric ends the run with a \<open>FloatingPointError\<close> before anything
  is replaced: the checkpoint files and the best score and step stay as they were.\<close>

theorem non_finite_protects_best:
  assumes "in_eval inp = Inr (score, metrics)"
    and "\<not> (isfinite score \<and> isfinite (r_loss (ls_run s)) \<and> all_finite_items metrics)"
  shows "\<exists>t. evaluate_step c inp s = Raise FloatingPointError t \<and> ls_files t = ls_files s \<and>
    r_best_score (ls_run t) = r_best_score (ls_run s) \<and> r_best_step (ls_run t) = r_best_step (ls_run s) \<and>
    r_checkpoint (ls_run t) = r_checkpoint (ls_run s) \<and>
    r_termination_reason (ls_run t) = Some ''quality_gate_invalid''"
proof -
  have "\<not> gr_finite (evaluation_gate (counted (ls_run s)) score metrics)"
    using assms(2) by (simp add: evaluation_gate_def gate_finite_iff counted_def)
  then show ?thesis
    by (simp add: evaluate_step_def assms(1) Let_def set_run_def) (simp add: counted_def)
qed

theorem non_finite_protects_best_witness:
  "\<exists>t. evaluate_step demo_env (demo_input\<lparr>in_eval := Inr (NaN, [])\<rparr>) (loop_start 1 loop_run demo_files)
     = Raise FloatingPointError t \<and> ls_files t = demo_files"
  using non_finite_protects_best [of "demo_input\<lparr>in_eval := Inr (NaN, [])\<rparr>" NaN "[]"
      "loop_start 1 loop_run demo_files" demo_env] by auto

text \<open>C10: When an evaluation improves the best score and the worker wrote its checkpoint, the best
  checkpoint verifies afterwards, and its metadata names this score and this step.\<close>

theorem best_checkpoint_verifies:
  assumes "update_best c inp score (evaluation_metadata r score) (Some info) r fs = (None, r', fs')"
    and "improves r score"
  shows "\<exists>m. checkpoint_verify (le_digest c) (le_dir c) (best_path (le_dir c) (r_id r)) [] fs' = Inr m \<and>
    dict_get ''score'' m = Some (VFloat (r_best_score r')) \<and> dict_get ''step'' m = Some (VInt (r_best_step r')) \<and>
    dict_get ''run_id'' m = Some (VStr (r_id r)) \<and> r_best_score r' = score \<and> r_best_step r' = r_step r"
proof -
  let ?m = "dict_merge (evaluation_metadata r score) [(''best_score'', VFloat score), (''kind'', VStr ''best'')]"
  obtain payload ops where p: "checkpoint_promote (le_digest c) (le_size c) (le_dir c)
      (fst (snd (in_tokens inp))) (snd (snd (in_tokens inp))) (last_path (le_dir c) (r_id r))
      (best_path (le_dir c) (r_id r)) ?m fs = Inr (payload, ops)" and fs': "fs' = fs_run ops fs"
    using assms by (auto simp: update_best_def Let_def split: sum.splits)
  have "dict_get k ?m = dict_get k (evaluation_metadata r score)" if "k \<notin> {''best_score'', ''kind''}" for k
    using that by (simp add: dict_get_merge dict_ok_def)
  then show ?thesis
    using promote_verifies [OF p] promote_payload [OF p] update_best_fields [OF assms(1)] assms(2)
    by (simp add: fs' evaluation_metadata_def)
qed

theorem best_checkpoint_verifies_witness:
  "\<exists>m. checkpoint_verify demo_digest ''d'' (best_path ''d'' ''r1'') []
     (snd (snd (update_best demo_env demo_input (Fin (1/2)) (evaluation_metadata (counted loop_run) (Fin (1/2)))
        (Some []) (counted loop_run) [(''r1.last.npz'', Binary ''w'')]))) = Inr m \<and>
     dict_get ''score'' m = Some (VFloat (Fin (1/2)))"
proof -
  let ?u = "update_best demo_env demo_input (Fin (1/2)) (evaluation_metadata (counted loop_run) (Fin (1/2)))
        (Some []) (counted loop_run) [(''r1.last.npz'', Binary ''w'')]"
  have imp: "improves (counted loop_run) (Fin (1/2))" by (simp add: improves_def) (simp add: counted_def)
  have "fst ?u = None"
    using imp by (simp add: update_best_def Let_def demo_env_def demo_input_def checkpoint_promote_def
        checkpoint_record_def best_path_def last_path_def pending_name_def metadata_name_def dict_set_def
        dict_del_def)
  then have "?u = (None, fst (snd ?u), snd (snd ?u))" by (metis prod.collapse)
  from best_checkpoint_verifies [OF this imp] update_best_fields(7) [OF this] imp
  show ?thesis by (auto simp: demo_env_def)
qed

text \<open>An evaluation that passed the gate ends the loop for one of four reasons, tested in this
  order: degradation, target, plateau, step limit; otherwise training goes on.\<close>

theorem evaluation_decision:
  "(case decide c inp score restore s of
      Continue t \<Rightarrow> r_step (ls_run s) < r_max_steps (ls_run s) \<and> \<not> restore \<and>
        ls_streak s < r_degradation_patience (ls_run s) \<and> ls_hits s < r_target_patience (ls_run s) \<and>
        ls_plateau s \<le> r_early_stopping_patience (ls_run s)
    | res \<Rightarrow> r_termination_reason (ls_run (result_state res)) = Some
        (if r_degradation_patience (ls_run s) \<le> ls_streak s \<or> restore then ''model_degradation''
         else if r_target_patience (ls_run s) \<le> ls_hits s then ''target_reached''
         else if r_early_stopping_patience (ls_run s) < ls_plateau s then ''early_stopping''
         else ''max_steps''))"
proof -
  have ct: "r_termination_reason (ls_run (result_state (complete_with_test c inp t))) =
      r_termination_reason (ls_run t)" for t
    by (simp add: complete_with_test_def Let_def set_run_def split: option.split sum.split)
  have fin: "case finish_with c inp m reason t of Continue t' \<Rightarrow> P t'
      | res \<Rightarrow> r_termination_reason (ls_run (result_state res)) = Some reason" for m reason t P
    using ct [of "loop_save (in_current inp) (set_run ((ls_run t)\<lparr>r_message := m, r_termination_reason := Some reason\<rparr>) t)"]
      complete_not_Continue
    by (cases "finish_with c inp m reason t") (auto simp: finish_with_def set_run_def)
  show ?thesis
    using fin by (auto simp: decide_def Let_def split: loop_result.splits)
qed

text \<open>Every record the training loop saves, with whatever backend answers, is a step the control
  plane allows: it keeps every planned field of the record the worker started from.\<close>

theorem loop_saves_are_steps:
  assumes "x \<in> set (ls_saves (result_state (run_loop c inps (loop_start now w fs))))"
    and "thread_alive i s" and "dict_get i (rt_copies s) = Some w"
  shows "rt_step rb s (save_worker_progress t x s)"
proof -
  have "loop_plan (run_plan.truncate w) 0 (loop_start now w fs)" by (simp add: loop_plan_def)
  from plan_run_loop [OF this, of c inps] assms(1)
  have "run_plan.truncate x = run_plan.truncate w" by (simp add: loop_plan_def)
  with assms(2,3) show ?thesis by (rule rt_step.WorkerProgress)
qed

theorem loop_saves_are_steps_witness:
  "\<exists>x. rt_step True (worker_begin ''r1'' demo_training) (save_worker_progress 5 x (worker_begin ''r1'' demo_training))"
proof -
  let ?s = "worker_begin ''r1'' demo_training" and ?w = "the (rt_run ''r1'' demo_training)"
  let ?l = "run_loop demo_env [demo_input\<lparr>in_control := \<lparr>ctl_pause = False, ctl_stop = True\<rparr>\<rparr>] (loop_start 1 ?w [])"
  have "ls_saves (result_state ?l) \<noteq> []"
    by (simp add: iterate_def Let_def loop_save_def)
  then have x: "hd (ls_saves (result_state ?l)) \<in> set (ls_saves (result_state ?l))" by (rule hd_in_set)
  have "thread_alive ''r1'' ?s" "dict_get ''r1'' (rt_copies ?s) = Some ?w"
    by (simp_all add: worker_begin_def thread_alive_def) (use demo_training_simps(1) [of "''r1''"] in \<open>simp add: thread_alive_def\<close>)
  from loop_saves_are_steps [OF x this] show ?thesis by blast
qed

end
