(* ===== verification/Packs.thy ===== *)
theory Packs imports Storage "HOL-Library.Multiset" "HOL-Library.List_Lexorder" "HOL-Library.Char_ord" begin

text \<open>
  Algorithm packs: \<open>src/src/kernelyra/packs.py\<close>. The built-in packs, the custom pack table as the JSON
  value its file holds, validation of names, algorithms and overrides, and the operations that
  create, edit and delete packs. Text is ASCII. \<open>show_value\<close> stands for \<open>str\<close> of a label that is
  no string.
\<close>

section \<open>Text\<close>

definition is_space :: "char \<Rightarrow> bool" where
  "is_space c \<longleftrightarrow> (let n = of_char c :: nat in n = 32 \<or> (9 \<le> n \<and> n \<le> 13) \<or> (28 \<le> n \<and> n \<le> 31))"

definition py_strip :: "string \<Rightarrow> string" where
  "py_strip s = rev (dropWhile is_space (rev (dropWhile is_space s)))"

definition lower_char :: "char \<Rightarrow> char" where
  "lower_char c = (let n = of_char c :: nat in if 65 \<le> n \<and> n \<le> 90 then char_of (n + 32) else c)"

definition py_lower :: "string \<Rightarrow> string" where
  "py_lower s = map lower_char s"

definition clean_name :: "string \<Rightarrow> string" where
  "clean_name s = py_lower (py_strip s)"

definition is_lower_alnum :: "char \<Rightarrow> bool" where
  "is_lower_alnum c \<longleftrightarrow> (let n = of_char c :: nat in (97 \<le> n \<and> n \<le> 122) \<or> (48 \<le> n \<and> n \<le> 57))"

text \<open>The pattern \<open>[a-z0-9][a-z0-9._-]{0,63}\<close>.\<close>

definition valid_pack_name :: "string \<Rightarrow> bool" where
  "valid_pack_name s \<longleftrightarrow> s \<noteq> [] \<and> is_lower_alnum (hd s) \<and> length s \<le> 64 \<and>
     list_all (\<lambda>c. is_lower_alnum c \<or> c \<in> {CHR ''.'', CHR ''_'', CHR ''-''}) (tl s)"

section \<open>Built-in packs\<close>

definition pack_algorithms :: "string list" where
  "pack_algorithms = [''bulk_training_dispatch'', ''thread_parallel_gradient'', ''parallel_data_prefetch'',
     ''wide_context_chunks'', ''expanded_tensor_arena'']"

record pack_policy =
  pk_name :: string
  pk_base :: string
  pk_built_in :: bool
  pk_label :: string
  pk_profile :: string
  pk_algorithms :: "string list"
  pk_data_workers :: int
  pk_prefetch :: int
  pk_stream_limit :: int
  pk_fraction :: pyfloat
  pk_bulk_step_cap :: int
  pk_arena_bytes :: int
  pk_chunk_target :: int
  pk_hidden :: "int list"
  pk_strategy :: string
  pk_cpu_backends :: "string list"
  pk_hybrid_backends :: "string list"

definition cpu_order :: "string list" where
  "cpu_order = [''native'', ''numpy'', ''torch'', ''tensorflow'']"

definition hybrid_order :: "string list" where
  "hybrid_order = [''torch'', ''tensorflow'', ''native'', ''numpy'']"

definition careful_pack :: pack_policy where
  "careful_pack = \<lparr>pk_name = ''careful'', pk_base = ''careful'', pk_built_in = True,
     pk_label = ''Careful stream'', pk_profile = ''low-memory'',
     pk_algorithms = [''bulk_training_dispatch''], pk_data_workers = 0, pk_prefetch = 1,
     pk_stream_limit = 128 * 1024 * 1024, pk_fraction = to_float (35/100), pk_bulk_step_cap = 8,
     pk_arena_bytes = 32 * 1024 * 1024, pk_chunk_target = 1024, pk_hidden = [32, 16],
     pk_strategy = ''small variable contiguous chunks with conservative memory reuse'',
     pk_cpu_backends = cpu_order, pk_hybrid_backends = hybrid_order\<rparr>"

definition balanced_pack :: pack_policy where
  "balanced_pack = \<lparr>pk_name = ''balanced'', pk_base = ''balanced'', pk_built_in = True,
     pk_label = ''Balanced stream'', pk_profile = ''balanced'',
     pk_algorithms = [''bulk_training_dispatch'', ''thread_parallel_gradient'', ''parallel_data_prefetch''],
     pk_data_workers = 2, pk_prefetch = 2,
     pk_stream_limit = 256 * 1024 * 1024, pk_fraction = to_float (60/100), pk_bulk_step_cap = 32,
     pk_arena_bytes = 96 * 1024 * 1024, pk_chunk_target = 4096, pk_hidden = [64, 32],
     pk_strategy = ''variable chunks and bounded parallel prefetch'',
     pk_cpu_backends = cpu_order, pk_hybrid_backends = hybrid_order\<rparr>"

definition throughput_pack :: pack_policy where
  "throughput_pack = \<lparr>pk_name = ''throughput'', pk_base = ''throughput'', pk_built_in = True,
     pk_label = ''Throughput stream'', pk_profile = ''performance'',
     pk_algorithms = pack_algorithms, pk_data_workers = 6, pk_prefetch = 4,
     pk_stream_limit = 384 * 1024 * 1024, pk_fraction = to_float (85/100), pk_bulk_step_cap = 100,
     pk_arena_bytes = 256 * 1024 * 1024, pk_chunk_target = 16384, pk_hidden = [128, 64, 32],
     pk_strategy = ''larger variable chunks with parallel prefetch and bulk dispatch'',
     pk_cpu_backends = cpu_order, pk_hybrid_backends = hybrid_order\<rparr>"

definition maximum_pack :: pack_policy where
  "maximum_pack = \<lparr>pk_name = ''maximum'', pk_base = ''maximum'', pk_built_in = True,
     pk_label = ''Maximum local throughput'', pk_profile = ''workstation'',
     pk_algorithms = pack_algorithms, pk_data_workers = 12, pk_prefetch = 8,
     pk_stream_limit = 2 ^ 63 - 1, pk_fraction = Fin 1, pk_bulk_step_cap = 100,
     pk_arena_bytes = 768 * 1024 * 1024, pk_chunk_target = 65536, pk_hidden = [256, 128, 64],
     pk_strategy = ''large variable chunks and maximum local parallel dispatch within explicit limits'',
     pk_cpu_backends = cpu_order, pk_hybrid_backends = hybrid_order\<rparr>"

definition builtin_packs :: "(string, pack_policy) dict" where
  "builtin_packs = [(''careful'', careful_pack), (''balanced'', balanced_pack),
     (''throughput'', throughput_pack), (''maximum'', maximum_pack)]"

section \<open>Validation\<close>

definition normalise_name :: "string \<Rightarrow> kerror + string" where
  "normalise_name value =
     (let name = clean_name value in if valid_pack_name name then Inr name else Inl ValueError)"

fun add_algorithms :: "pyval list \<Rightarrow> string list \<Rightarrow> kerror + string list" where
  "add_algorithms [] result = Inr result"
| "add_algorithms (VStr s # values) result =
     (let name = clean_name s in
      if name \<notin> set pack_algorithms then Inl ValueError
      else add_algorithms values (if name \<in> set result then result else result @ [name]))"
| "add_algorithms (_ # values) result = Inl ValueError"

definition normalise_algorithms :: "pyval \<Rightarrow> kerror + string list" where
  "normalise_algorithms v = (case v of VList values \<Rightarrow> add_algorithms values [] | _ \<Rightarrow> Inl ValueError)"

text \<open>The rules of the overrides: whether the value is an integer, and its bounds.\<close>

definition override_rule :: "string \<Rightarrow> (bool \<times> pyfloat \<times> pyfloat) option" where
  "override_rule key =
     (if key = ''data_workers'' then Some (True, Fin 0, Fin 64)
      else if key = ''prefetch'' then Some (True, Fin 1, Fin 64)
      else if key = ''stream_limit'' then Some (True, Fin (1024 ^ 2), Fin (2 ^ 63 - 1))
      else if key = ''native_thread_fraction'' then Some (False, to_float (5/100), Fin 1)
      else if key = ''bulk_step_cap'' then Some (True, Fin 1, Fin 10000)
      else if key = ''arena_bytes'' then Some (True, Fin (8 * 1024 ^ 2), Fin (8 * 1024 ^ 3))
      else if key = ''chunk_target_records'' then Some (True, Fin 32, Fin 1000000)
      else None)"

text \<open>\<open>int(value)\<close> and \<open>float(value)\<close> on a number that is no boolean.\<close>

definition to_integer :: "pyval \<Rightarrow> kerror + pyval" where
  "to_integer v = (case v of
      VInt n \<Rightarrow> Inr (VInt n)
    | VFloat NaN \<Rightarrow> Inl ValueError
    | VFloat x \<Rightarrow> (case f_trunc x of Some n \<Rightarrow> Inr (VInt n) | None \<Rightarrow> Inl OverflowError)
    | _ \<Rightarrow> Inl ValueError)"

definition to_real :: "pyval \<Rightarrow> kerror + pyval" where
  "to_real v = (case v of
      VInt n \<Rightarrow> (if isfinite (f_of_int n) then Inr (VFloat (f_of_int n)) else Inl OverflowError)
    | VFloat x \<Rightarrow> Inr (VFloat x)
    | _ \<Rightarrow> Inl ValueError)"

definition convert_override :: "string \<Rightarrow> pyval \<Rightarrow> kerror + pyval" where
  "convert_override key v =
     (case override_rule key of
        None \<Rightarrow> Inl ValueError
      | Some (integer, lo, hi) \<Rightarrow>
          bind_result (if integer then to_integer v else to_real v) (\<lambda>w.
            case num_value w of
              None \<Rightarrow> Inl ValueError
            | Some x \<Rightarrow> if fle lo x \<and> fle x hi then Inr w else Inl ValueError))"

fun convert_overrides :: "(string \<times> pyval) list \<Rightarrow> pydict \<Rightarrow> kerror + pydict" where
  "convert_overrides [] result = Inr result"
| "convert_overrides ((key, v) # rest) result =
     bind_result (convert_override key v) (\<lambda>w. convert_overrides rest (dict_set key w result))"

definition normalise_overrides :: "pyval \<Rightarrow> kerror + pydict" where
  "normalise_overrides v = (case v of
      VNone \<Rightarrow> Inr [] | VDict d \<Rightarrow> convert_overrides d [] | _ \<Rightarrow> Inl ValueError)"

section \<open>The table of custom packs\<close>

record pack_record =
  pr_base :: string
  pr_label :: string
  pr_algorithms :: "string list"
  pr_overrides :: pydict

type_synonym registry = "(string, pack_record) dict"

text \<open>The table file: absent, unreadable or no JSON, or a JSON value.\<close>

datatype table_file = NoFile | Unreadable | Table pyval

definition get_or :: "string \<Rightarrow> pyval \<Rightarrow> pydict \<Rightarrow> pyval" where
  "get_or k v d = (case dict_get k d of Some x \<Rightarrow> x | None \<Rightarrow> v)"

definition read_label :: "(pyval \<Rightarrow> string) \<Rightarrow> string \<Rightarrow> pyval \<Rightarrow> string" where
  "read_label show_value name v =
     take 120 (if \<not> truthy v then name else case v of VStr s \<Rightarrow> s | _ \<Rightarrow> show_value v)"

definition read_record :: "(pyval \<Rightarrow> string) \<Rightarrow> string \<Rightarrow> pydict \<Rightarrow> kerror + pack_record" where
  "read_record show_value name raw =
     (case get_or ''base'' (VStr ''balanced'') raw of
        VStr b \<Rightarrow>
          bind_result (normalise_name b) (\<lambda>base.
            if dict_get base builtin_packs = None then Inl ValueError else
            bind_result (normalise_algorithms (get_or ''algorithms'' (VList []) raw)) (\<lambda>algorithms.
            bind_result (normalise_overrides (get_or ''overrides'' (VDict []) raw)) (\<lambda>overrides.
              Inr \<lparr>pr_base = base, pr_label = read_label show_value name (get_or ''label'' VNone raw),
                   pr_algorithms = algorithms, pr_overrides = overrides\<rparr>)))
      | _ \<Rightarrow> Inl ValueError)"

fun read_records :: "(pyval \<Rightarrow> string) \<Rightarrow> (string \<times> pyval) list \<Rightarrow> registry \<Rightarrow> kerror + registry" where
  "read_records show_value [] result = Inr result"
| "read_records show_value ((raw_name, raw) # rest) result =
     bind_result (normalise_name raw_name) (\<lambda>name.
       if dict_get name builtin_packs \<noteq> None then Inl ValueError else
       case raw of
         VDict d \<Rightarrow> bind_result (read_record show_value name d) (\<lambda>r.
                      read_records show_value rest (dict_set name r result))
       | _ \<Rightarrow> Inl ValueError)"

definition read_registry :: "(pyval \<Rightarrow> string) \<Rightarrow> table_file \<Rightarrow> kerror + registry" where
  "read_registry show_value f = (case f of
      NoFile \<Rightarrow> Inr []
    | Unreadable \<Rightarrow> Inl ValueError
    | Table (VDict payload) \<Rightarrow>
        (if \<not> py_eq (get_or ''schema'' VNone payload) (VInt 1) then Inl ValueError
         else case get_or ''packs'' VNone payload of
             VDict packs \<Rightarrow> read_records show_value packs []
           | _ \<Rightarrow> Inl ValueError)
    | Table _ \<Rightarrow> Inl ValueError)"

definition record_value :: "pack_record \<Rightarrow> pyval" where
  "record_value r = VDict
     [(''base'', VStr (pr_base r)), (''label'', VStr (pr_label r)),
      (''algorithms'', VList (map VStr (pr_algorithms r))), (''overrides'', VDict (pr_overrides r))]"

definition write_registry :: "registry \<Rightarrow> table_file" where
  "write_registry records = Table (VDict
     [(''schema'', VInt 1),
      (''packs'', VDict (map (\<lambda>(name, r). (name, record_value r)) (sort_key fst records)))])"

section \<open>Policies\<close>

text \<open>\<open>policy.update(overrides)\<close>.\<close>

definition apply_override :: "string \<times> pyval \<Rightarrow> pack_policy \<Rightarrow> pack_policy" where
  "apply_override kv p = (case kv of (key, v) \<Rightarrow>
     (case v of
        VInt n \<Rightarrow>
          (if key = ''data_workers'' then p\<lparr>pk_data_workers := n\<rparr>
           else if key = ''prefetch'' then p\<lparr>pk_prefetch := n\<rparr>
           else if key = ''stream_limit'' then p\<lparr>pk_stream_limit := n\<rparr>
           else if key = ''bulk_step_cap'' then p\<lparr>pk_bulk_step_cap := n\<rparr>
           else if key = ''arena_bytes'' then p\<lparr>pk_arena_bytes := n\<rparr>
           else if key = ''chunk_target_records'' then p\<lparr>pk_chunk_target := n\<rparr>
           else p)
      | VFloat x \<Rightarrow> if key = ''native_thread_fraction'' then p\<lparr>pk_fraction := x\<rparr> else p
      | _ \<Rightarrow> p))"

definition apply_effects :: "pack_policy \<Rightarrow> pack_policy" where
  "apply_effects p =
     (let has = (\<lambda>a. a \<in> set (pk_algorithms p));
          p1 = (if has ''bulk_training_dispatch'' then p else p\<lparr>pk_bulk_step_cap := 1\<rparr>);
          p2 = (if has ''parallel_data_prefetch'' then p1
                else p1\<lparr>pk_data_workers := 0, pk_prefetch := 1\<rparr>);
          p3 = (if has ''wide_context_chunks'' then p2
                else p2\<lparr>pk_chunk_target := min 4096 (pk_chunk_target p2)\<rparr>)
      in if has ''expanded_tensor_arena'' then p3
         else p3\<lparr>pk_arena_bytes := min (96 * 1024 ^ 2) (pk_arena_bytes p3)\<rparr>)"

definition custom_policy :: "string \<Rightarrow> pack_record \<Rightarrow> pack_policy \<Rightarrow> pack_policy" where
  "custom_policy name r base =
     (fold apply_override (pr_overrides r) base)
       \<lparr>pk_name := name, pk_base := pr_base r, pk_label := pr_label r,
        pk_algorithms := pr_algorithms r, pk_built_in := False\<rparr>"

definition get_pack :: "(pyval \<Rightarrow> string) \<Rightarrow> table_file \<Rightarrow> string \<Rightarrow> kerror + pack_policy" where
  "get_pack show_value f name =
     bind_result (normalise_name name) (\<lambda>selected.
       case dict_get selected builtin_packs of
         Some p \<Rightarrow> Inr (apply_effects p)
       | None \<Rightarrow>
           bind_result (read_registry show_value f) (\<lambda>records.
             case dict_get selected records of
               None \<Rightarrow> Inl KeyError
             | Some r \<Rightarrow>
                 (case dict_get (pr_base r) builtin_packs of
                    None \<Rightarrow> Inl KeyError
                  | Some base \<Rightarrow> Inr (apply_effects (custom_policy selected r base)))))"

definition resolve_pack_name :: "(pyval \<Rightarrow> string) \<Rightarrow> table_file \<Rightarrow> string option \<Rightarrow> kerror + string" where
  "resolve_pack_name show_value f value =
     bind_result (normalise_name (case value of Some s \<Rightarrow> if s = [] then ''balanced'' else s
                                             | None \<Rightarrow> ''balanced'')) (\<lambda>name.
       if dict_get name builtin_packs \<noteq> None then Inr name
       else bind_result (read_registry show_value f) (\<lambda>records.
              if dict_get name records \<noteq> None then Inr name else Inl KeyError))"

section \<open>Operations on the table\<close>

text \<open>Each operation returns the new file beside its result.\<close>

definition create_pack ::
  "(pyval \<Rightarrow> string) \<Rightarrow> string \<Rightarrow> string \<Rightarrow> string option \<Rightarrow> pyval \<Rightarrow> table_file
     \<Rightarrow> kerror + pack_policy \<times> table_file" where
  "create_pack show_value name base label overrides f =
     bind_result (normalise_name name) (\<lambda>selected.
       if dict_get selected builtin_packs \<noteq> None then Inl ValueError else
       bind_result (resolve_pack_name show_value f (Some base)) (\<lambda>b.
       bind_result (get_pack show_value f b) (\<lambda>source.
       bind_result (read_registry show_value f) (\<lambda>records.
       if dict_get selected records \<noteq> None then Inl ValueError else
       bind_result (normalise_overrides overrides) (\<lambda>ov.
         let r = \<lparr>pr_base = pk_base source,
                  pr_label = take 120 (case label of Some l \<Rightarrow> if l = [] then selected else l
                                                 | None \<Rightarrow> selected),
                  pr_algorithms = pk_algorithms source, pr_overrides = ov\<rparr>;
             f' = write_registry (dict_set selected r records)
         in bind_result (get_pack show_value f' selected) (\<lambda>p. Inr (p, f')))))))"

definition edit_pack ::
  "(pyval \<Rightarrow> string) \<Rightarrow> (string \<Rightarrow> string list \<Rightarrow> string list) \<Rightarrow> string \<Rightarrow> string \<Rightarrow> table_file
     \<Rightarrow> kerror + pack_policy \<times> table_file" where
  "edit_pack show_value change pack algorithm f =
     bind_result (normalise_name pack) (\<lambda>selected.
     bind_result (normalise_algorithms (VList [VStr algorithm])) (\<lambda>as.
     bind_result (read_registry show_value f) (\<lambda>records.
       case dict_get selected records of
         None \<Rightarrow> if dict_get selected builtin_packs \<noteq> None then Inl ValueError else Inl KeyError
       | Some r \<Rightarrow>
           let f' = write_registry (dict_set selected
                      (r\<lparr>pr_algorithms := change (hd as) (pr_algorithms r)\<rparr>) records)
           in bind_result (get_pack show_value f' selected) (\<lambda>p. Inr (p, f')))))"

definition add_pack_algorithm ::
  "(pyval \<Rightarrow> string) \<Rightarrow> string \<Rightarrow> string \<Rightarrow> table_file \<Rightarrow> kerror + pack_policy \<times> table_file" where
  "add_pack_algorithm show_value =
     edit_pack show_value (\<lambda>a as. if a \<in> set as then as else as @ [a])"

definition remove_pack_algorithm ::
  "(pyval \<Rightarrow> string) \<Rightarrow> string \<Rightarrow> string \<Rightarrow> table_file \<Rightarrow> kerror + pack_policy \<times> table_file" where
  "remove_pack_algorithm show_value = edit_pack show_value (\<lambda>a. filter (\<lambda>x. x \<noteq> a))"

definition delete_pack :: "(pyval \<Rightarrow> string) \<Rightarrow> string \<Rightarrow> table_file \<Rightarrow> kerror + table_file" where
  "delete_pack show_value pack f =
     bind_result (normalise_name pack) (\<lambda>selected.
       if dict_get selected builtin_packs \<noteq> None then Inl ValueError else
       bind_result (read_registry show_value f) (\<lambda>records.
         if dict_get selected records = None then Inl KeyError
         else Inr (write_registry (dict_del selected records))))"

fun collect_packs ::
  "(pyval \<Rightarrow> string) \<Rightarrow> table_file \<Rightarrow> string list \<Rightarrow> kerror + (string \<times> pack_policy) list" where
  "collect_packs show_value f [] = Inr []"
| "collect_packs show_value f (name # names) =
     bind_result (get_pack show_value f name) (\<lambda>p.
     bind_result (collect_packs show_value f names) (\<lambda>ps. Inr ((name, p) # ps)))"

definition list_packs :: "(pyval \<Rightarrow> string) \<Rightarrow> table_file \<Rightarrow> kerror + (string \<times> pack_policy) list" where
  "list_packs show_value f =
     bind_result (read_registry show_value f) (\<lambda>records.
       collect_packs show_value f (dict_keys builtin_packs @ dict_keys records))"

section \<open>Well-formed tables\<close>

definition override_ok :: "string \<times> pyval \<Rightarrow> bool" where
  "override_ok kv \<longleftrightarrow> convert_override (fst kv) (snd kv) = Inr (snd kv)"

definition record_ok :: "pack_record \<Rightarrow> bool" where
  "record_ok r \<longleftrightarrow> dict_get (pr_base r) builtin_packs \<noteq> None \<and> pr_label r \<noteq> [] \<and> length (pr_label r) \<le> 120
     \<and> distinct (pr_algorithms r) \<and> set (pr_algorithms r) \<subseteq> set pack_algorithms
     \<and> dict_ok (pr_overrides r) \<and> list_all override_ok (pr_overrides r)"

definition registry_ok :: "registry \<Rightarrow> bool" where
  "registry_ok records \<longleftrightarrow> dict_ok records \<and>
     (\<forall>(name, r) \<in> set records. normalise_name name = Inr name \<and> dict_get name builtin_packs = None \<and> record_ok r)"

lemma clean_constants:
  "clean_name ''careful'' = ''careful''" "clean_name ''balanced'' = ''balanced''"
  "clean_name ''throughput'' = ''throughput''" "clean_name ''maximum'' = ''maximum''"
  "clean_name ''bulk_training_dispatch'' = ''bulk_training_dispatch''"
  "clean_name ''thread_parallel_gradient'' = ''thread_parallel_gradient''"
  "clean_name ''parallel_data_prefetch'' = ''parallel_data_prefetch''"
  "clean_name ''wide_context_chunks'' = ''wide_context_chunks''"
  "clean_name ''expanded_tensor_arena'' = ''expanded_tensor_arena''"
  by code_simp+

lemma builtin_names: "dict_get n builtin_packs \<noteq> None \<longleftrightarrow> n \<in> {''careful'', ''balanced'', ''throughput'', ''maximum''}"
  by (auto simp: builtin_packs_def)

lemma normalise_builtin: "dict_get n builtin_packs \<noteq> None \<Longrightarrow> normalise_name n = Inr n"
proof -
  have "valid_pack_name ''careful''" "valid_pack_name ''balanced''" "valid_pack_name ''throughput''"
    "valid_pack_name ''maximum''" by code_simp+
  then show "dict_get n builtin_packs \<noteq> None \<Longrightarrow> normalise_name n = Inr n"
    by (auto simp: builtin_names normalise_name_def clean_constants simp del: not_None_eq)
qed

lemma clean_algorithm: "a \<in> set pack_algorithms \<Longrightarrow> clean_name a = a"
  by (auto simp: pack_algorithms_def clean_constants)

lemma lower_char_idem: "lower_char (lower_char c) = lower_char c"
  by (auto simp: lower_char_def Let_def)

lemma is_space_lower: "is_space (lower_char c) = is_space c"
  by (auto simp: lower_char_def is_space_def Let_def)

lemma strip_lower: "py_strip (py_lower s) = py_lower (py_strip s)"
proof -
  have "is_space \<circ> lower_char = is_space" by (simp add: fun_eq_iff is_space_lower)
  then show ?thesis by (simp add: py_strip_def py_lower_def dropWhile_map rev_map)
qed

lemma strip_idem: "py_strip (py_strip s) = py_strip s"
proof (cases "py_strip s = []")
  case False
  define u where "u = dropWhile is_space s"
  define t where "t = dropWhile is_space (rev u)"
  have ts: "py_strip s = rev t" by (simp add: py_strip_def u_def t_def)
  with False have t: "t \<noteq> []" by simp
  obtain z where "rev u = z @ t" by (metis t_def takeWhile_dropWhile_id)
  then have u: "u = rev t @ rev z" by (metis rev_append rev_rev_ident)
  have "u \<noteq> []" using u t by simp
  then have "\<not> is_space (hd u)" unfolding u_def by (rule hd_dropWhile)
  then have "\<not> is_space (hd (rev t))" using t by (simp add: u)
  moreover have "\<not> is_space (hd t)" using t unfolding t_def by (rule hd_dropWhile)
  moreover have "dropWhile is_space xs = xs" if "\<not> is_space (hd xs)" for xs using that by (cases xs) auto
  ultimately show ?thesis by (simp add: ts) (simp add: py_strip_def)
next
  case True
  show ?thesis by (simp only: True) (simp add: py_strip_def)
qed

lemma clean_name_idem: "clean_name (clean_name s) = clean_name s"
  by (simp add: clean_name_def strip_lower strip_idem) (simp add: py_lower_def lower_char_idem)

text \<open>Validation is idempotent.\<close>

lemma override_idem: "convert_override k v = Inr w \<Longrightarrow> convert_override k w = Inr w"
  by (auto simp: convert_override_def to_integer_def to_real_def bind_result_def
      split: option.splits pyval.splits pyfloat.splits if_splits sum.splits)

lemma dict_set_new: "dict_get k d = None \<Longrightarrow> dict_set k v d = d @ [(k, v)]"
proof (induction d)
  case (Cons p d)
  then show ?case by (cases p) (auto simp: dict_set_def split: if_splits)
qed (simp add: dict_set_def)

lemma dict_ok_append: "dict_ok (d @ [(k, v)]) \<longleftrightarrow> dict_ok d \<and> dict_get k d = None"
  by (auto simp: dict_ok_def dict_get_def map_of_eq_None_iff)

lemma convert_overrides_ok:
  "convert_overrides xs acc = Inr d \<Longrightarrow> dict_ok acc \<Longrightarrow> list_all override_ok acc \<Longrightarrow>
     dict_ok d \<and> list_all override_ok d"
proof (induction xs acc rule: convert_overrides.induct)
  case (2 key v rest result)
  from "2.prems"(1) obtain w where w: "convert_override key v = Inr w"
    and rest: "convert_overrides rest (dict_set key w result) = Inr d"
    by (auto elim: bind_result_InrE)
  have "override_ok (key, w)" using override_idem [OF w] by (simp add: override_ok_def)
  then have "list_all override_ok (dict_set key w result)"
    using "2.prems"(3) dict_set_set [of key w result] by (auto simp: list_all_iff)
  with "2.IH" [OF rest] "2.prems"(2) show ?case by (simp add: dict_ok_set)
qed simp

lemma convert_overrides_same:
  "list_all override_ok xs \<Longrightarrow> dict_ok (acc @ xs) \<Longrightarrow> convert_overrides xs acc = Inr (acc @ xs)"
proof (induction xs arbitrary: acc)
  case (Cons p xs)
  obtain k v where p: "p = (k, v)" by fastforce
  have "dict_get k acc = None" using Cons.prems(2) p by (auto simp: dict_ok_def dict_get_def map_of_eq_None_iff)
  then have "dict_set k v acc = acc @ [(k, v)]" by (rule dict_set_new)
  with Cons p show ?case by (simp add: override_ok_def)
qed simp

lemma add_algorithms_ok:
  "add_algorithms vs acc = Inr as \<Longrightarrow> distinct acc \<Longrightarrow> set acc \<subseteq> set pack_algorithms \<Longrightarrow>
     distinct as \<and> set as \<subseteq> set pack_algorithms"
  by (induction vs acc rule: add_algorithms.induct) (auto simp: Let_def split: if_splits)

lemma add_algorithms_same:
  "set as \<subseteq> set pack_algorithms \<Longrightarrow> distinct (acc @ as) \<Longrightarrow> add_algorithms (map VStr as) acc = Inr (acc @ as)"
proof (induction as arbitrary: acc)
  case (Cons a as)
  then have "clean_name a = a" "a \<notin> set acc" by (auto intro: clean_algorithm)
  with Cons show ?case by (simp add: Let_def)
qed simp

lemma normalise_overrides_ok: "normalise_overrides v = Inr d \<Longrightarrow> dict_ok d \<and> list_all override_ok d"
  using convert_overrides_ok [of _ "[]" d] by (auto simp: normalise_overrides_def dict_ok_def split: pyval.splits)

lemma read_record_ok:
  assumes "read_record sv name raw = Inr r" and "name \<noteq> []" and label: "\<And>v. truthy v \<Longrightarrow> sv v \<noteq> []"
  shows "record_ok r"
proof -
  from assms(1) obtain b base algs ov where
    base: "dict_get base builtin_packs \<noteq> None"
    and algs: "normalise_algorithms (get_or ''algorithms'' (VList []) raw) = Inr algs"
    and ov: "normalise_overrides (get_or ''overrides'' (VDict []) raw) = Inr ov"
    and r: "r = \<lparr>pr_base = base, pr_label = read_label sv name (get_or ''label'' VNone raw),
                pr_algorithms = algs, pr_overrides = ov\<rparr>"
    by (cases "get_or ''base'' (VStr ''balanced'') raw")
      (auto simp: read_record_def simp del: not_None_eq split: if_splits elim!: bind_result_InrE, blast)
  have "read_label sv name v \<noteq> [] \<and> length (read_label sv name v) \<le> 120" for v
    using assms(2) label [of v] by (cases v) (auto simp: read_label_def)
  moreover have "distinct algs \<and> set algs \<subseteq> set pack_algorithms"
    using algs add_algorithms_ok by (force simp: normalise_algorithms_def split: pyval.splits)
  ultimately show ?thesis
    using base normalise_overrides_ok [OF ov] by (simp add: record_ok_def r)
qed

lemma normalise_name_idem:
  assumes "normalise_name v = Inr n" shows "normalise_name n = Inr n" "n \<noteq> []"
proof -
  have n: "n = clean_name v" "valid_pack_name n"
    using assms by (auto simp: normalise_name_def Let_def split: if_splits)
  have all: "list_all (\<lambda>c. is_lower_alnum c \<or> c \<in> {CHR ''.'', CHR ''_'', CHR ''-''}) n"
    using n(2) by (cases n) (auto simp: valid_pack_name_def)
  have "\<not> is_space c \<and> lower_char c = c" if "is_lower_alnum c \<or> c \<in> {CHR ''.'', CHR ''_'', CHR ''-''}" for c
    using that by (auto simp: is_lower_alnum_def is_space_def lower_char_def Let_def)
  with all have "\<forall>c \<in> set n. \<not> is_space c \<and> lower_char c = c" by (auto simp: list_all_iff)
  moreover have dw: "dropWhile is_space xs = xs" if "\<forall>c \<in> set xs. \<not> is_space c" for xs
    using that by (cases xs) auto
  ultimately have "dropWhile is_space n = n" "dropWhile is_space (rev n) = rev n" "py_lower n = n"
    by (simp_all add: py_lower_def map_idI dw [of n] dw [of "rev n"])
  then have "py_strip n = n" and "py_lower n = n" by (simp_all add: py_strip_def)
  with n show "normalise_name n = Inr n" by (simp add: normalise_name_def clean_name_def)
  show "n \<noteq> []" using n(2) by (simp add: valid_pack_name_def)
qed

lemma registry_ok_set:
  assumes "registry_ok records" and "normalise_name n = Inr n" and "dict_get n builtin_packs = None" and "record_ok r"
  shows "registry_ok (dict_set n r records)"
  using assms dict_set_set [of n r records] by (fastforce simp: registry_ok_def dict_ok_set)

lemma registry_ok_del: "registry_ok records \<Longrightarrow> registry_ok (dict_del n records)"
  using dict_del_subset [of n records] by (fastforce simp: registry_ok_def dict_ok_del)

lemma read_records_ok:
  "read_records sv xs acc = Inr records \<Longrightarrow> registry_ok acc \<Longrightarrow> (\<And>v. truthy v \<Longrightarrow> sv v \<noteq> []) \<Longrightarrow> registry_ok records"
proof (induction sv xs acc rule: read_records.induct)
  case (2 sv raw_name raw rest result)
  from "2.prems"(1) obtain n d r where n: "normalise_name raw_name = Inr n" "dict_get n builtin_packs = None"
    and d: "raw = VDict d" "read_record sv n d = Inr r"
    and rest: "read_records sv rest (dict_set n r result) = Inr records"
    by (auto split: pyval.splits if_splits elim!: bind_result_InrE)
  note idem = normalise_name_idem [OF n(1)]
  have "record_ok r" by (rule read_record_ok [OF d(2) idem(2) "2.prems"(3)])
  then have "registry_ok (dict_set n r result)" using "2.prems"(2) idem(1) n(2) by (intro registry_ok_set)
  then show ?case using "2.IH" [of n d r] rest "2.prems"(3) n d by blast
qed simp

lemma read_registry_ok:
  assumes "read_registry sv f = Inr records" and "\<And>v. truthy v \<Longrightarrow> sv v \<noteq> []"
  shows "registry_ok records"
proof -
  have e: "registry_ok []" by (simp add: registry_ok_def dict_ok_def)
  show ?thesis
    using assms e by (auto simp: read_registry_def split: table_file.splits pyval.splits if_splits
        intro: read_records_ok)
qed

lemma read_record_same:
  assumes "record_ok r" shows "read_record sv n [(''base'', VStr (pr_base r)), (''label'', VStr (pr_label r)),
      (''algorithms'', VList (map VStr (pr_algorithms r))), (''overrides'', VDict (pr_overrides r))] = Inr r"
proof -
  have "add_algorithms (map VStr (pr_algorithms r)) [] = Inr (pr_algorithms r)"
    using assms add_algorithms_same [of "pr_algorithms r" "[]"] by (simp add: record_ok_def)
  moreover have "convert_overrides (pr_overrides r) [] = Inr (pr_overrides r)"
    using assms convert_overrides_same [of "pr_overrides r" "[]"] by (simp add: record_ok_def)
  ultimately show ?thesis
    using assms normalise_builtin [of "pr_base r"]
    by (simp add: read_record_def get_or_def record_ok_def normalise_algorithms_def normalise_overrides_def
        read_label_def)
qed

lemma read_records_same:
  "(\<And>n r. (n, r) \<in> set xs \<Longrightarrow> normalise_name n = Inr n \<and> dict_get n builtin_packs = None \<and> record_ok r) \<Longrightarrow>
   dict_ok (acc @ xs) \<Longrightarrow> read_records sv (map (\<lambda>(n, r). (n, record_value r)) xs) acc = Inr (acc @ xs)"
proof (induction xs arbitrary: acc)
  case (Cons x xs)
  obtain n r where x: "x = (n, r)" by fastforce
  have n: "normalise_name n = Inr n" "dict_get n builtin_packs = None" "record_ok r"
    using Cons.prems(1) [of n r] x by simp_all
  have "dict_get n acc = None" using Cons.prems(2) x by (auto simp: dict_ok_def dict_get_def map_of_eq_None_iff)
  then have "dict_set n r acc = acc @ [(n, r)]" by (rule dict_set_new)
  moreover have "read_records sv (map (\<lambda>(n, r). (n, record_value r)) xs) (acc @ [(n, r)]) = Inr ((acc @ [(n, r)]) @ xs)"
    by (rule Cons.IH) (use Cons.prems x in auto)
  ultimately show ?case
    using n by (simp add: x record_value_def [of r] read_record_same)
qed simp

lemma dict_get_sorted:
  assumes "dict_ok d" shows "dict_get k (sort_key f d) = dict_get k d" and "dict_ok (sort_key f d)"
proof -
  show ok: "dict_ok (sort_key f d)" using assms by (simp add: dict_ok_def distinct_map)
  show "dict_get k (sort_key f d) = dict_get k d"
    using dict_in_get [OF ok] dict_in_get [OF assms] dict_get_Some_in
    by (cases "dict_get k d"; cases "dict_get k (sort_key f d)") (fastforce dest!: dict_get_Some_in)+
qed

lemma read_write:
  assumes "registry_ok records" shows "read_registry sv (write_registry records) = Inr (sort_key fst records)"
proof -
  have "dict_ok ([] @ sort_key fst records)"
    using assms dict_get_sorted(2) [of records fst] by (simp add: registry_ok_def)
  from read_records_same [OF _ this, of sv] assms
  have "read_records sv (map (\<lambda>(n, r). (n, record_value r)) (sort_key fst records)) [] = Inr (sort_key fst records)"
    by (fastforce simp: registry_ok_def)
  then show ?thesis by (simp add: read_registry_def write_registry_def get_or_def feq_def)
qed

section \<open>Policies stay in bounds\<close>

definition policy_ok :: "pack_policy \<Rightarrow> bool" where
  "policy_ok p \<longleftrightarrow> 0 \<le> pk_data_workers p \<and> pk_data_workers p \<le> 64 \<and> 1 \<le> pk_prefetch p \<and> pk_prefetch p \<le> 64
     \<and> 1 \<le> pk_bulk_step_cap p \<and> pk_bulk_step_cap p \<le> 10000
     \<and> 8 * 1024 ^ 2 \<le> pk_arena_bytes p \<and> pk_arena_bytes p \<le> 8 * 1024 ^ 3
     \<and> 32 \<le> pk_chunk_target p \<and> pk_chunk_target p \<le> 1000000
     \<and> 1024 ^ 2 \<le> pk_stream_limit p \<and> pk_stream_limit p \<le> 2 ^ 63 - 1
     \<and> fle (to_float (5/100)) (pk_fraction p) \<and> fle (pk_fraction p) (Fin 1)"

text \<open>The switches: an algorithm that is not selected has no effect on the policy.\<close>

definition gated :: "pack_policy \<Rightarrow> bool" where
  "gated p \<longleftrightarrow>
     (''bulk_training_dispatch'' \<in> set (pk_algorithms p) \<or> pk_bulk_step_cap p = 1) \<and>
     (''parallel_data_prefetch'' \<in> set (pk_algorithms p) \<or> pk_data_workers p = 0 \<and> pk_prefetch p = 1) \<and>
     (''wide_context_chunks'' \<in> set (pk_algorithms p) \<or> pk_chunk_target p \<le> 4096) \<and>
     (''expanded_tensor_arena'' \<in> set (pk_algorithms p) \<or> pk_arena_bytes p \<le> 96 * 1024 ^ 2)"

lemma gated_effects: "gated (apply_effects p)"
  by (simp add: gated_def apply_effects_def Let_def)

lemma policy_ok_steps:
  "policy_ok p \<Longrightarrow> policy_ok (p\<lparr>pk_bulk_step_cap := 1\<rparr>)" "policy_ok p \<Longrightarrow> policy_ok (p\<lparr>pk_data_workers := 0, pk_prefetch := 1\<rparr>)"
  "policy_ok p \<Longrightarrow> policy_ok (p\<lparr>pk_chunk_target := min 4096 (pk_chunk_target p)\<rparr>)"
  "policy_ok p \<Longrightarrow> policy_ok (p\<lparr>pk_arena_bytes := min (96 * 1024 ^ 2) (pk_arena_bytes p)\<rparr>)"
  by (simp_all add: policy_ok_def)

lemma policy_ok_effects: "policy_ok p \<Longrightarrow> policy_ok (apply_effects p)"
  unfolding apply_effects_def Let_def by (simp only: policy_ok_steps split: if_split) simp

lemma convert_bounds:
  assumes "convert_override key (VInt n) = Inr (VInt n)"
  shows "\<exists>lo hi. override_rule key = Some (True, lo, hi) \<and> fle lo (Fin (of_int n)) \<and> fle (Fin (of_int n)) hi"
  using assms by (auto simp: convert_override_def to_real_def to_integer_def split: option.splits if_splits prod.splits bool.splits)

lemma convert_bounds_float:
  assumes "convert_override key (VFloat x) = Inr (VFloat x)"
  shows "\<exists>lo hi. override_rule key = Some (False, lo, hi) \<and> fle lo x \<and> fle x hi"
  using assms
  by (auto simp: convert_override_def to_integer_def bind_result_def split: option.splits if_splits prod.splits
      pyfloat.splits sum.splits)

lemma fle_of_int [simp]: "fle (Fin a) (Fin b) \<longleftrightarrow> a \<le> b"
  by (auto simp: fle_def feq_def)

lemma of_int_numeral_le: "(numeral k :: rat) \<le> of_int n \<longleftrightarrow> numeral k \<le> n" "of_int n \<le> (numeral k :: rat) \<longleftrightarrow> n \<le> numeral k"
  by simp_all

lemma apply_override_ok:
  assumes "policy_ok p" and ok: "override_ok kv" shows "policy_ok (apply_override kv p)"
proof -
  obtain key v where kv: "kv = (key, v)" by fastforce
  show ?thesis
  proof (cases v)
    case (VInt n)
    then have "convert_override key (VInt n) = Inr (VInt n)" using ok kv by (simp add: override_ok_def)
    from convert_bounds [OF this] assms(1) show ?thesis
      by (auto simp: kv VInt apply_override_def override_rule_def policy_ok_def split: if_splits)
  next
    case (VFloat x)
    then have "convert_override key (VFloat x) = Inr (VFloat x)" using ok kv by (simp add: override_ok_def)
    from convert_bounds_float [OF this] assms(1) show ?thesis
      by (auto simp: kv VFloat apply_override_def override_rule_def policy_ok_def split: if_splits)
  qed (use assms(1) kv in \<open>simp_all add: apply_override_def\<close>)
qed

lemma apply_overrides_ok: "policy_ok p \<Longrightarrow> list_all override_ok ov \<Longrightarrow> policy_ok (fold apply_override ov p)"
  by (induction ov arbitrary: p) (auto intro: apply_override_ok)

lemma float_constants:
  "to_float (1/20) = Fin (3602879701896397 / 72057594037927936)"
  "to_float (7/20) = Fin (3152519739159347 / 9007199254740992)"
  "to_float (3/5) = Fin (5404319552844595 / 9007199254740992)"
  "to_float (17/20) = Fin (7656119366529843 / 9007199254740992)"
  using to_float_near [of "- 57" "1/20" 7205759403792794] to_float_near [of "- 54" "7/20" 6305039478318694]
    to_float_near [of "- 53" "3/5" 5404319552844595] to_float_near [of "- 53" "17/20" 7656119366529843]
  by (simp_all add: pow2_def)

lemma builtin_policy_ok:
  "policy_ok careful_pack" "policy_ok balanced_pack" "policy_ok throughput_pack" "policy_ok maximum_pack"
  by (simp_all add: policy_ok_def careful_pack_def balanced_pack_def throughput_pack_def maximum_pack_def
      float_constants)

lemma builtin_ok: "dict_get n builtin_packs = Some p \<Longrightarrow> policy_ok p"
  using builtin_policy_ok by (auto simp: builtin_packs_def split: if_splits)

lemma get_pack_cases:
  assumes "get_pack sv f name = Inr p" and "\<And>v. truthy v \<Longrightarrow> sv v \<noteq> []"
  shows "(\<exists>n q. dict_get n builtin_packs = Some q \<and> p = apply_effects q) \<or>
    (\<exists>n r base. record_ok r \<and> dict_get (pr_base r) builtin_packs = Some base \<and>
       p = apply_effects (custom_policy n r base))"
proof -
  have ok: "record_ok r" if "read_registry sv f = Inr records" "dict_get n records = Some r" for records n r
    using read_registry_ok [OF that(1) assms(2)] dict_get_Some_in [OF that(2)] by (auto simp: registry_ok_def)
  obtain n where "(case dict_get n builtin_packs of
         Some p \<Rightarrow> Inr (apply_effects p)
       | None \<Rightarrow> bind_result (read_registry sv f) (\<lambda>records.
             case dict_get n records of
               None \<Rightarrow> Inl KeyError
             | Some r \<Rightarrow> (case dict_get (pr_base r) builtin_packs of
                    None \<Rightarrow> Inl KeyError
                  | Some base \<Rightarrow> Inr (apply_effects (custom_policy n r base))))) = Inr p"
    using assms(1) unfolding get_pack_def by (rule bind_result_InrE)
  then show ?thesis
    by (auto elim!: bind_result_InrE split: option.splits) (use ok in blast)+
qed

lemma get_pack_ok:
  assumes "get_pack sv f name = Inr p" and "\<And>v. truthy v \<Longrightarrow> sv v \<noteq> []"
  shows "policy_ok p \<and> gated p"
  using get_pack_cases [OF assms]
proof
  assume "\<exists>n q. dict_get n builtin_packs = Some q \<and> p = apply_effects q"
  then show ?thesis using builtin_ok by (auto simp: policy_ok_effects gated_effects)
next
  assume "\<exists>n r base. record_ok r \<and> dict_get (pr_base r) builtin_packs = Some base \<and>
       p = apply_effects (custom_policy n r base)"
  then obtain n r base where r: "record_ok r" "dict_get (pr_base r) builtin_packs = Some base"
    and p: "p = apply_effects (custom_policy n r base)" by blast
  have "policy_ok (fold apply_override (pr_overrides r) base)"
    using r by (intro apply_overrides_ok builtin_ok [OF r(2)]) (simp add: record_ok_def)
  then have "policy_ok (custom_policy n r base)" by (simp add: custom_policy_def policy_ok_def)
  then show ?thesis by (simp add: p policy_ok_effects gated_effects)
qed

section \<open>Histories of table operations\<close>

datatype pack_op = Create string string "string option" pyval | Add string string | Remove string string | Delete string

text \<open>An operation that raises leaves the file.\<close>

fun exec_pack_op :: "(pyval \<Rightarrow> string) \<Rightarrow> pack_op \<Rightarrow> table_file \<Rightarrow> table_file" where
  "exec_pack_op sv (Create name base label ov) f =
     (case create_pack sv name base label ov f of Inl _ \<Rightarrow> f | Inr (_, f') \<Rightarrow> f')"
| "exec_pack_op sv (Add pack a) f = (case add_pack_algorithm sv pack a f of Inl _ \<Rightarrow> f | Inr (_, f') \<Rightarrow> f')"
| "exec_pack_op sv (Remove pack a) f = (case remove_pack_algorithm sv pack a f of Inl _ \<Rightarrow> f | Inr (_, f') \<Rightarrow> f')"
| "exec_pack_op sv (Delete pack) f = (case delete_pack sv pack f of Inl _ \<Rightarrow> f | Inr f' \<Rightarrow> f')"

definition table_ok :: "(pyval \<Rightarrow> string) \<Rightarrow> table_file \<Rightarrow> bool" where
  "table_ok sv f \<longleftrightarrow> (\<exists>records. read_registry sv f = Inr records \<and> registry_ok records)"

lemma registry_ok_sorted: "registry_ok records \<Longrightarrow> registry_ok (sort_key fst records)"
  by (auto simp: registry_ok_def dict_get_sorted(2))

lemma table_ok_write: "registry_ok records \<Longrightarrow> table_ok sv (write_registry records)"
  by (auto simp: table_ok_def read_write registry_ok_sorted)

lemma builtin_pack_fields:
  "dict_get n builtin_packs = Some q \<Longrightarrow> distinct (pk_algorithms q) \<and> set (pk_algorithms q) \<subseteq> set pack_algorithms
     \<and> dict_get (pk_base q) builtin_packs \<noteq> None"
proof -
  assume "dict_get n builtin_packs = Some q"
  then have "q \<in> {careful_pack, balanced_pack, throughput_pack, maximum_pack}" by (auto simp: builtin_packs_def split: if_splits)
  moreover have "pk_base q \<in> {''careful'', ''balanced'', ''throughput'', ''maximum''}" if "q \<in> {careful_pack, balanced_pack, throughput_pack, maximum_pack}" for q
    using that by (elim insertE emptyE) (simp_all add: careful_pack_def balanced_pack_def throughput_pack_def maximum_pack_def)
  moreover have "distinct (pk_algorithms q) \<and> set (pk_algorithms q) \<subseteq> set pack_algorithms" if "q \<in> {careful_pack, balanced_pack, throughput_pack, maximum_pack}" for q
    using that by (elim insertE emptyE) (simp_all add: careful_pack_def balanced_pack_def throughput_pack_def maximum_pack_def pack_algorithms_def)
  ultimately show ?thesis by (auto simp: builtin_packs_def)
qed

lemma get_pack_algorithms:
  assumes "get_pack sv f name = Inr p" and "\<And>v. truthy v \<Longrightarrow> sv v \<noteq> []"
  shows "distinct (pk_algorithms p) \<and> set (pk_algorithms p) \<subseteq> set pack_algorithms
    \<and> dict_get (pk_base p) builtin_packs \<noteq> None"
proof -
  have eff: "pk_algorithms (apply_effects q) = pk_algorithms q \<and> pk_base (apply_effects q) = pk_base q" for q
    by (simp add: apply_effects_def Let_def)
  have b: "dict_get n builtin_packs = Some q \<Longrightarrow> distinct (pk_algorithms q) \<and> set (pk_algorithms q) \<subseteq> set pack_algorithms
      \<and> dict_get (pk_base q) builtin_packs \<noteq> None" for n q
    using builtin_pack_fields by blast
  have c: "pk_algorithms (custom_policy n r base) = pr_algorithms r \<and> pk_base (custom_policy n r base) = pr_base r" for n r base
    by (simp add: custom_policy_def)
  from get_pack_cases [OF assms] show ?thesis
  proof
    assume "\<exists>n q. dict_get n builtin_packs = Some q \<and> p = apply_effects q"
    then obtain n q where "dict_get n builtin_packs = Some q" "p = apply_effects q" by blast
    then show ?thesis using b [of n q] eff [of q] by simp
  next
    assume "\<exists>n r base. record_ok r \<and> dict_get (pr_base r) builtin_packs = Some base \<and>
       p = apply_effects (custom_policy n r base)"
    then obtain n r base where "record_ok r" "p = apply_effects (custom_policy n r base)" by blast
    then show ?thesis using eff [of "custom_policy n r base"] c [of n r base] by (simp add: record_ok_def)
  qed
qed

lemma create_ok:
  assumes "create_pack sv name base label ov f = Inr (p, f')" and "\<And>v. truthy v \<Longrightarrow> sv v \<noteq> []"
  obtains n r records where "normalise_name name = Inr n" "dict_get n builtin_packs = None" "record_ok r"
    "read_registry sv f = Inr records" "dict_get n records = None" "f' = write_registry (dict_set n r records)"
    "get_pack sv f' n = Inr p"
proof -
  from assms(1) obtain n b source records ovd where n: "normalise_name name = Inr n" "dict_get n builtin_packs = None"
    and src: "get_pack sv f b = Inr source" and reg: "read_registry sv f = Inr records" "dict_get n records = None"
    and ovd: "normalise_overrides ov = Inr ovd"
    and rest: "bind_result (get_pack sv (write_registry (dict_set n
        \<lparr>pr_base = pk_base source, pr_label = take 120 (case label of Some l \<Rightarrow> if l = [] then n else l | None \<Rightarrow> n),
         pr_algorithms = pk_algorithms source, pr_overrides = ovd\<rparr> records)) n)
       (\<lambda>p. Inr (p, write_registry (dict_set n
        \<lparr>pr_base = pk_base source, pr_label = take 120 (case label of Some l \<Rightarrow> if l = [] then n else l | None \<Rightarrow> n),
         pr_algorithms = pk_algorithms source, pr_overrides = ovd\<rparr> records))) = Inr (p, f')"
    unfolding create_pack_def Let_def
    by (elim bind_result_InrE) (auto split: if_splits elim!: bind_result_InrE)
  define r where "r = \<lparr>pr_base = pk_base source,
      pr_label = take 120 (case label of Some l \<Rightarrow> if l = [] then n else l | None \<Rightarrow> n),
      pr_algorithms = pk_algorithms source, pr_overrides = ovd\<rparr>"
  have "n \<noteq> []" by (rule normalise_name_idem [OF n(1)])
  then have "record_ok r"
    using get_pack_algorithms [OF src assms(2)] normalise_overrides_ok [OF ovd]
    by (auto simp: record_ok_def r_def split: option.split)
  moreover from rest have "get_pack sv f' n = Inr p" "f' = write_registry (dict_set n r records)"
    by (auto simp: r_def elim!: bind_result_InrE)
  ultimately show ?thesis using that n reg by blast
qed

lemma edit_ok:
  assumes "edit_pack sv change pack a f = Inr (p, f')" and "\<And>v. truthy v \<Longrightarrow> sv v \<noteq> []"
    and ch: "\<And>x as. x \<in> set pack_algorithms \<Longrightarrow> set as \<subseteq> set pack_algorithms \<Longrightarrow> distinct as \<Longrightarrow>
       distinct (change x as) \<and> set (change x as) \<subseteq> set pack_algorithms"
  shows "table_ok sv f'"
proof -
  from assms(1) obtain n as records r where n: "normalise_name pack = Inr n"
    and as: "normalise_algorithms (VList [VStr a]) = Inr as"
    and reg: "read_registry sv f = Inr records" "dict_get n records = Some r"
    and f': "f' = write_registry (dict_set n (r\<lparr>pr_algorithms := change (hd as) (pr_algorithms r)\<rparr>) records)"
    unfolding edit_pack_def Let_def
    by (elim bind_result_InrE) (auto split: if_splits option.splits elim!: bind_result_InrE)
  have ok: "registry_ok records" by (rule read_registry_ok [OF reg(1) assms(2)])
  then have r: "record_ok r" "normalise_name n = Inr n" "dict_get n builtin_packs = None"
    using dict_get_Some_in [OF reg(2)] by (auto simp: registry_ok_def)
  have "hd as \<in> set pack_algorithms"
    using as by (auto simp: normalise_algorithms_def Let_def split: if_splits)
  then have "record_ok (r\<lparr>pr_algorithms := change (hd as) (pr_algorithms r)\<rparr>)"
    using r(1) ch by (simp add: record_ok_def)
  then show ?thesis unfolding f' by (intro table_ok_write registry_ok_set ok r)
qed

lemma exec_pack_op_ok:
  assumes "table_ok sv f" and "\<And>v. truthy v \<Longrightarrow> sv v \<noteq> []" shows "table_ok sv (exec_pack_op sv op f)"
proof (cases op)
  case (Create name base label ov)
  show ?thesis
  proof (cases "create_pack sv name base label ov f")
    case (Inr x)
    obtain p f' where x: "x = (p, f')" by fastforce
    obtain n r records where n: "normalise_name name = Inr n" "dict_get n builtin_packs = None" and r: "record_ok r"
      and reg: "read_registry sv f = Inr records" and f': "f' = write_registry (dict_set n r records)"
      using create_ok [OF Inr [unfolded x] assms(2)] by metis
    have "registry_ok records" by (rule read_registry_ok [OF reg assms(2)])
    then have "table_ok sv f'"
      unfolding f' using n r normalise_name_idem(1) [OF n(1)] by (intro table_ok_write registry_ok_set)
    then show ?thesis by (simp add: Create Inr x)
  qed (use assms(1) in \<open>simp add: Create\<close>)
next
  case (Add pack a)
  have "table_ok sv f'" if "add_pack_algorithm sv pack a f = Inr (p, f')" for p f'
    using that unfolding add_pack_algorithm_def by (rule edit_ok [OF _ assms(2)]) auto
  then show ?thesis using assms(1) by (auto simp: Add split: sum.split)
next
  case (Remove pack a)
  have "table_ok sv f'" if "remove_pack_algorithm sv pack a f = Inr (p, f')" for p f'
    using that unfolding remove_pack_algorithm_def by (rule edit_ok [OF _ assms(2)]) auto
  then show ?thesis using assms(1) by (auto simp: Remove split: sum.split)
next
  case (Delete pack)
  have "table_ok sv f'" if "delete_pack sv pack f = Inr f'" for f'
    using that unfolding delete_pack_def
    by (auto elim!: bind_result_InrE split: if_splits
        intro!: table_ok_write registry_ok_del read_registry_ok [OF _ assms(2)])
  then show ?thesis using assms(1) by (auto simp: Delete split: sum.split)
qed

section \<open>Reading back\<close>

lemma read_write_lookup:
  assumes "registry_ok records"
  shows "\<exists>rs. read_registry sv (write_registry records) = Inr rs \<and> registry_ok rs \<and> (\<forall>n. dict_get n rs = dict_get n records)"
  using assms read_write registry_ok_sorted dict_get_sorted(1) by (fastforce simp: registry_ok_def)

lemma get_pack_ext:
  assumes "read_registry sv f = Inr rs" and "read_registry sv f' = Inr rs'"
    and "\<And>m. normalise_name name = Inr m \<Longrightarrow> dict_get m rs' = dict_get m rs"
  shows "get_pack sv f' name = get_pack sv f name"
  using assms by (cases "normalise_name name") (simp_all add: get_pack_def split: option.split)

lemma get_pack_custom:
  assumes "normalise_name name = Inr n" and "dict_get n builtin_packs = None"
    and "read_registry sv f = Inr rs" and "dict_get n rs = Some r" and "dict_get (pr_base r) builtin_packs = Some base"
  shows "get_pack sv f name = Inr (apply_effects (custom_policy n r base))"
  using assms by (simp add: get_pack_def)

lemma custom_not_built_in: "\<not> pk_built_in (apply_effects (custom_policy n r base))"
  by (simp add: apply_effects_def custom_policy_def Let_def)

text \<open>The read that ends an operation never fails, so an operation that raises has not written.\<close>

lemma get_pack_written:
  assumes ok: "registry_ok records" and get: "dict_get n records = Some r"
  obtains base where "dict_get (pr_base r) builtin_packs = Some base"
    and "get_pack sv (write_registry records) n = Inr (apply_effects (custom_policy n r base))"
proof -
  have r: "normalise_name n = Inr n" "dict_get n builtin_packs = None" "record_ok r"
    using dict_get_Some_in [OF get] ok by (auto simp: registry_ok_def)
  then obtain base where base: "dict_get (pr_base r) builtin_packs = Some base" by (auto simp: record_ok_def)
  obtain rs where "read_registry sv (write_registry records) = Inr rs" "dict_get n rs = Some r"
    using read_write_lookup [OF ok, of sv] get by auto
  then show ?thesis using that base get_pack_custom [OF r(1,2)] by blast
qed

section \<open>The contract of the pack table\<close>

text \<open>The table file round-trips: reading back what was written from a well-formed registry
  gives the same packs under the same names, listed in sorted order.\<close>

theorem pack_table_roundtrip:
  assumes "registry_ok records"
  shows "\<exists>rs. read_registry sv (write_registry records) = Inr rs
    \<and> dict_keys rs = sort (dict_keys records) \<and> (\<forall>n. dict_get n rs = dict_get n records)"
proof -
  have "dict_keys (sort_key fst records) = sort (dict_keys records)"
    unfolding dict_keys_def by (rule properties_for_sort [symmetric]) simp_all
  then show ?thesis
    using read_write [OF assms, of sv] assms by (simp add: dict_get_sorted(1) registry_ok_def)
qed

text \<open>Whatever a table file holds, a pack that is read has every policy value inside its
  documented bounds, selects known algorithms once each, and an algorithm it does not select has no
  effect: no bulk dispatch, no prefetch workers, no wide chunks, no expanded arena.\<close>

theorem pack_policy_bounds:
  assumes "\<And>v. truthy v \<Longrightarrow> sv v \<noteq> []" and "get_pack sv f name = Inr p"
  shows "policy_ok p \<and> gated p \<and> distinct (pk_algorithms p) \<and> set (pk_algorithms p) \<subseteq> set pack_algorithms"
  using get_pack_ok [OF assms(2,1)] get_pack_algorithms [OF assms(2,1)] by blast

text \<open>A pack that was created is new, is read back as it was returned, leaves every other pack
  as it was, and deleting it again restores every lookup.\<close>

theorem create_pack_contract:
  assumes sv: "\<And>v. truthy v \<Longrightarrow> sv v \<noteq> []"
    and "create_pack sv name base label ov f = Inr (p, f')"
  shows "get_pack sv f name = Inl KeyError \<and> get_pack sv f' name = Inr p \<and> \<not> pk_built_in p
    \<and> (\<forall>other. normalise_name other \<noteq> normalise_name name \<longrightarrow> get_pack sv f' other = get_pack sv f other)
    \<and> (\<exists>f''. delete_pack sv name f' = Inr f'' \<and> (\<forall>other. get_pack sv f'' other = get_pack sv f other))"
proof -
  from create_ok [OF assms(2) sv] obtain n r records where n: "normalise_name name = Inr n" "dict_get n builtin_packs = None"
    and r: "record_ok r" and reg: "read_registry sv f = Inr records" "dict_get n records = None"
    and f': "f' = write_registry (dict_set n r records)" and get: "get_pack sv f' n = Inr p" by metis
  note idem = normalise_name_idem(1) [OF n(1)]
  have ok: "registry_ok (dict_set n r records)"
    using registry_ok_set [OF read_registry_ok [OF reg(1) sv] idem n(2) r] by simp
  obtain rs where rs: "read_registry sv f' = Inr rs" "registry_ok rs" "\<forall>m. dict_get m rs = dict_get m (dict_set n r records)"
    using read_write_lookup [OF ok, of sv] f' by auto
  have del_ok: "registry_ok (dict_del n rs)" by (rule registry_ok_del [OF rs(2)])
  obtain rs' where rs': "read_registry sv (write_registry (dict_del n rs)) = Inr rs'"
    "\<forall>m. dict_get m rs' = dict_get m (dict_del n rs)"
    using read_write_lookup [OF del_ok, of sv] by auto
  have "dict_ok rs" using rs(2) by (simp add: registry_ok_def)
  then have same: "dict_get m rs' = dict_get m records" for m
    using rs(3) rs'(2) reg(2) by (simp add: dict_get_del dict_get_set)
  have "delete_pack sv name f' = Inr (write_registry (dict_del n rs))"
    using n rs(1,3) by (simp add: delete_pack_def)
  moreover have "get_pack sv (write_registry (dict_del n rs)) other = get_pack sv f other" for other
    by (rule get_pack_ext [OF reg(1) rs'(1)]) (rule same)
  moreover have "get_pack sv f' other = get_pack sv f other" if "normalise_name other \<noteq> normalise_name name" for other
    by (rule get_pack_ext [OF reg(1) rs(1)]) (use rs(3) that n(1) in auto)
  moreover have "get_pack sv f name = Inl KeyError" using n reg by (simp add: get_pack_def)
  moreover have "get_pack sv f' name = Inr p" using get n(1) idem by (simp add: get_pack_def)
  moreover have "\<not> pk_built_in p"
    using get idem n(2) rs(1) custom_not_built_in by (auto simp: get_pack_def split: option.splits)
  ultimately show ?thesis by blast
qed

lemma pack_history_ok:
  "table_ok sv f \<Longrightarrow> (\<And>v. truthy v \<Longrightarrow> sv v \<noteq> []) \<Longrightarrow> table_ok sv (fold (exec_pack_op sv) ops f)"
  by (induction ops arbitrary: f) (simp_all add: exec_pack_op_ok)

text \<open>C11: After any sequence of pack operations, failed ones included, starting with no table file,
  the table can still be read: every listed pack resolves, the built-in packs are listed first and
  are what they were, and no custom pack has the name of a built-in one.\<close>

theorem pack_table_survives:
  assumes "\<And>v. truthy v \<Longrightarrow> sv v \<noteq> []" and "f = fold (exec_pack_op sv) ops NoFile"
  shows "\<exists>rs. read_registry sv f = Inr rs \<and> set (dict_keys rs) \<inter> set (dict_keys builtin_packs) = {}
    \<and> (\<exists>ps. list_packs sv f = Inr ps \<and> dict_keys ps = dict_keys builtin_packs @ dict_keys rs
          \<and> take 4 ps = map (\<lambda>(n, p). (n, apply_effects p)) builtin_packs)"
proof -
  have "table_ok sv NoFile" by (simp add: table_ok_def read_registry_def registry_ok_def dict_ok_def)
  then obtain rs where rs: "read_registry sv f = Inr rs" "registry_ok rs"
    using pack_history_ok [where f = NoFile and sv = sv and ops = ops] assms(1) assms(2) by (auto simp: table_ok_def)
  have custom: "\<exists>p. get_pack sv f n = Inr p" if nk: "n \<in> set (dict_keys rs)" for n
  proof -
    obtain r where r: "dict_get n rs = Some r" using nk dict_get_None_iff [of n rs] by auto
    then have "normalise_name n = Inr n" "dict_get n builtin_packs = None" "record_ok r"
      using rs(2) dict_get_Some_in [OF r] by (auto simp: registry_ok_def)
    then show ?thesis using get_pack_custom [of n n sv f rs r] rs(1) r by (auto simp: record_ok_def)
  qed
  have coll: "\<exists>ps. collect_packs sv f ns = Inr ps \<and> dict_keys ps = ns"
    if "\<And>n. n \<in> set ns \<Longrightarrow> \<exists>p. get_pack sv f n = Inr p" for ns
    using that by (induction ns) (force simp: dict_keys_def)+
  obtain qs where qs: "collect_packs sv f (dict_keys rs) = Inr qs" "dict_keys qs = dict_keys rs"
    using coll [OF custom] by blast
  have norm: "normalise_name ''careful'' = Inr ''careful''" "normalise_name ''balanced'' = Inr ''balanced''"
    "normalise_name ''throughput'' = Inr ''throughput''" "normalise_name ''maximum'' = Inr ''maximum''"
    by (simp_all add: normalise_builtin builtin_packs_def)
  have "list_packs sv f = Inr (map (\<lambda>(n, p). (n, apply_effects p)) builtin_packs @ qs)"
    using rs(1) qs(1) by (simp add: list_packs_def builtin_packs_def dict_keys_def get_pack_def norm)
  moreover have "set (dict_keys rs) \<inter> set (dict_keys builtin_packs) = {}"
    using rs(2) by (fastforce simp: registry_ok_def dict_keys_def builtin_packs_def)
  moreover have "length builtin_packs = 4" by (simp add: builtin_packs_def)
  ultimately show ?thesis using rs(1) qs(2)
    by (intro exI [of _ rs] conjI exI [of _ "map (\<lambda>(n, p). (n, apply_effects p)) builtin_packs @ qs"])
      (auto simp: dict_keys_def)
qed

section \<open>Concrete tables\<close>

definition show_demo :: "pyval \<Rightarrow> string" where
  "show_demo v = ''value''"

definition pack_demo :: pack_record where
  "pack_demo = \<lparr>pr_base = ''balanced'', pr_label = ''Mine'', pr_algorithms = [''wide_context_chunks''],
     pr_overrides = [(''prefetch'', VInt 4)]\<rparr>"

lemma demo_names:
  "normalise_name ''mine'' = Inr ''mine''" "normalise_name '' Mine '' = Inr ''mine''"
  "normalise_name ''zeta'' = Inr ''zeta''" "normalise_name ''mine two'' = Inl ValueError"
  by code_simp+

lemma pack_demo_ok: "record_ok pack_demo"
  by (simp add: record_ok_def pack_demo_def builtin_packs_def pack_algorithms_def dict_ok_def override_ok_def
      convert_override_def override_rule_def to_integer_def)

lemma registry_demo_ok: "registry_ok [(''zeta'', pack_demo), (''mine'', pack_demo)]"
  by (simp add: registry_ok_def dict_ok_def pack_demo_ok demo_names builtin_packs_def)

lemma pack_table_roundtrip_witness:
  "\<exists>rs. read_registry show_demo (write_registry [(''zeta'', pack_demo), (''mine'', pack_demo)]) = Inr rs
    \<and> dict_keys rs = [''mine'', ''zeta''] \<and> dict_get ''mine'' rs = Some pack_demo"
proof -
  have s: "sort [''zeta'', ''mine''] = [''mine'', ''zeta'']" by code_simp
  obtain rs where rs: "read_registry show_demo (write_registry [(''zeta'', pack_demo), (''mine'', pack_demo)]) = Inr rs"
    "dict_keys rs = sort (dict_keys [(''zeta'', pack_demo), (''mine'', pack_demo)])"
    "\<forall>n. dict_get n rs = dict_get n [(''zeta'', pack_demo), (''mine'', pack_demo)]"
    using pack_table_roundtrip [OF registry_demo_ok, of show_demo] by blast
  have "dict_keys rs = [''mine'', ''zeta'']" using rs(2) s by (simp add: dict_keys_def)
  moreover have "dict_get ''mine'' rs = Some pack_demo" using rs(3) by simp
  ultimately show ?thesis using rs(1) by blast
qed

lemma pack_policy_bounds_witness:
  "policy_ok (apply_effects throughput_pack) \<and> gated (apply_effects throughput_pack)"
proof -
  have "get_pack show_demo NoFile ''throughput'' = Inr (apply_effects throughput_pack)"
    by (simp add: get_pack_def normalise_builtin builtin_packs_def)
  from pack_policy_bounds [OF _ this] show ?thesis by (simp add: show_demo_def)
qed

lemma create_demo:
  "\<exists>p f'. create_pack show_demo '' Mine '' ''careful'' None (VDict [(''prefetch'', VInt 4)]) NoFile = Inr (p, f')"
proof -
  have empty: "registry_ok []" by (simp add: registry_ok_def dict_ok_def)
  have ov: "normalise_overrides (VDict [(''prefetch'', VInt 4)]) = Inr [(''prefetch'', VInt 4)]"
    by (simp add: normalise_overrides_def convert_override_def override_rule_def to_integer_def dict_set_def)
  let ?r = "\<lparr>pr_base = ''careful'', pr_label = ''mine'', pr_algorithms = [''bulk_training_dispatch''],
     pr_overrides = [(''prefetch'', VInt 4)]\<rparr>"
  have "record_ok ?r"
    by (simp add: record_ok_def builtin_packs_def pack_algorithms_def dict_ok_def override_ok_def
      convert_override_def override_rule_def to_integer_def)
  then have "registry_ok (dict_set ''mine'' ?r [])"
    by (intro registry_ok_set empty) (simp_all add: demo_names builtin_packs_def)
  from get_pack_written [OF this, of "''mine''" ?r show_demo]
  obtain p where "get_pack show_demo (write_registry (dict_set ''mine'' ?r [])) ''mine'' = Inr p" by auto
  then show ?thesis
    by (simp add: create_pack_def resolve_pack_name_def demo_names normalise_builtin builtin_packs_def get_pack_def
      [of show_demo NoFile] read_registry_def [of show_demo NoFile] ov Let_def apply_effects_def careful_pack_def)
qed

lemma create_pack_contract_witness:
  "\<exists>p f'. create_pack show_demo '' Mine '' ''careful'' None (VDict [(''prefetch'', VInt 4)]) NoFile = Inr (p, f')
     \<and> get_pack show_demo f' '' Mine '' = Inr p \<and> \<not> pk_built_in p"
proof -
  obtain p f' where c: "create_pack show_demo '' Mine '' ''careful'' None (VDict [(''prefetch'', VInt 4)]) NoFile = Inr (p, f')"
    using create_demo by blast
  then show ?thesis using create_pack_contract [OF _ c] by (simp add: show_demo_def)
qed

lemma pack_table_survives_witness:
  "\<exists>rs. read_registry show_demo (fold (exec_pack_op show_demo)
      [Create ''mine'' ''careful'' None VNone, Create ''maximum'' ''careful'' None VNone, Delete ''zeta''] NoFile) = Inr rs
     \<and> ''maximum'' \<notin> set (dict_keys rs)"
  using pack_table_survives [of show_demo _ "[Create ''mine'' ''careful'' None VNone,
      Create ''maximum'' ''careful'' None VNone, Delete ''zeta'']", OF _ refl]
  by (auto simp: show_demo_def builtin_packs_def dict_keys_def)

end
