(* ===== verification/Tuning.thy ===== *)
theory Tuning imports Packs begin

text \<open>
  Execution policies, start-up tuning and batch planning: the policy functions of
  \<open>src/src/kernelyra/hardware.py\<close>, \<open>tuning.py\<close> and \<open>batch.py\<close>. The detected hardware is a record;
  float arithmetic is that of \<open>PyFloat\<close>.
\<close>

section \<open>Policies\<close>

record hardware =
  hw_cpu_threads :: int
  hw_ram_gb :: pyfloat
  hw_gpu_available :: bool

definition legacy_profile_pack :: "(string, string) dict" where
  "legacy_profile_pack = [(''auto'', ''balanced''), (''eco'', ''careful''), (''low-memory'', ''careful''),
     (''balanced'', ''balanced''), (''performance'', ''throughput''), (''workstation'', ''maximum''),
     (''custom'', ''balanced'')]"

definition pack_profile :: "(string, string) dict" where
  "pack_profile = [(''careful'', ''low-memory''), (''balanced'', ''balanced''),
     (''throughput'', ''performance''), (''maximum'', ''workstation'')]"

text \<open>\<open>value or default\<close> on an optional string.\<close>

definition or_string :: "string option \<Rightarrow> string \<Rightarrow> string" where
  "or_string value d = (case value of Some s \<Rightarrow> if s = [] then d else s | None \<Rightarrow> d)"

definition resolve_algorithm_pack :: "(pyval \<Rightarrow> string) \<Rightarrow> table_file \<Rightarrow> string option \<Rightarrow> kerror + string" where
  "resolve_algorithm_pack show_value f value =
     (let selected = clean_name (or_string value ''balanced'')
      in case dict_get selected legacy_profile_pack of
           Some p \<Rightarrow> Inr p
         | None \<Rightarrow> resolve_pack_name show_value f (Some selected))"

definition legacy_profile_for_pack :: "(pyval \<Rightarrow> string) \<Rightarrow> table_file \<Rightarrow> string \<Rightarrow> kerror + string" where
  "legacy_profile_for_pack show_value f pack =
     bind_result (resolve_algorithm_pack show_value f (Some pack)) (\<lambda>selected.
       case dict_get selected pack_profile of
         Some p \<Rightarrow> Inr p
       | None \<Rightarrow> bind_result (get_pack show_value f selected) (\<lambda>p. Inr (pk_profile p)))"

definition resolve_execution_target :: "string option \<Rightarrow> hardware \<Rightarrow> kerror + string" where
  "resolve_execution_target value hw =
     (let target = clean_name (or_string value ''auto'') in
      if target = ''auto'' then Inr (if hw_gpu_available hw then ''hybrid'' else ''cpu'')
      else if target \<notin> {''cpu'', ''hybrid''} then Inl KeyError
      else if target = ''hybrid'' \<and> \<not> hw_gpu_available hw then Inl KeyError
      else Inr target)"

record policy_choice =
  pc_policy :: pack_policy
  pc_mode :: string
  pc_execution :: string
  pc_backend_order :: "string list"

definition execution_policy ::
  "(pyval \<Rightarrow> string) \<Rightarrow> table_file \<Rightarrow> string option \<Rightarrow> hardware \<Rightarrow> string option \<Rightarrow> string option
     \<Rightarrow> kerror + policy_choice" where
  "execution_policy show_value f profile hw execution_target algorithm_pack =
     bind_result (resolve_algorithm_pack show_value f
        (case algorithm_pack of Some s \<Rightarrow> if s = [] then profile else Some s | None \<Rightarrow> profile)) (\<lambda>pack.
     bind_result (resolve_execution_target execution_target hw) (\<lambda>target.
     bind_result (get_pack show_value f pack) (\<lambda>p.
       Inr \<lparr>pc_policy = p, pc_mode = pack, pc_execution = target,
            pc_backend_order = (if target = ''hybrid'' then pk_hybrid_backends p else pk_cpu_backends p)\<rparr>)))"

section \<open>Tuning\<close>

text \<open>\<open>int(x)\<close> and \<open>round(x)\<close> on a float, and the thread count a policy gives to a CPU share.\<close>

definition py_int :: "pyfloat \<Rightarrow> kerror + int" where
  "py_int x = (case f_trunc x of Some n \<Rightarrow> Inr n
               | None \<Rightarrow> Inl (if x = NaN then ValueError else OverflowError))"

definition py_round :: "pyfloat \<Rightarrow> kerror + int" where
  "py_round x = (case f_round x of Some n \<Rightarrow> Inr n
                 | None \<Rightarrow> Inl (if x = NaN then ValueError else OverflowError))"

definition scaled_threads :: "int \<Rightarrow> int \<Rightarrow> pyfloat \<Rightarrow> kerror + int" where
  "scaled_threads cpu_threads percent fraction =
     (if \<not> isfinite (f_of_int cpu_threads) then Inl OverflowError
      else py_round (fmul (fmul (f_of_int cpu_threads) (to_float (of_int percent / 100))) fraction))"

definition detected_threads :: "hardware \<Rightarrow> int" where
  "detected_threads hw = max 1 (if hw_cpu_threads hw = 0 then 1 else hw_cpu_threads hw)"

record tuning =
  tn_mode :: string
  tn_profile :: string
  tn_execution :: string
  tn_pack_base :: string
  tn_algorithms :: "string list"
  tn_native_threads :: int
  tn_bulk_step_cap :: int
  tn_arena_bytes :: int
  tn_arena_cap :: int
  tn_data_workers :: int
  tn_prefetch :: int
  tn_chunk_target :: int
  tn_streaming :: bool
  tn_records :: int
  tn_features :: int
  tn_batch_bytes :: int
  tn_strategy :: string

text \<open>The plan that is returned, once the policy is chosen and the thread count computed.\<close>

definition tuned ::
  "string \<Rightarrow> string \<Rightarrow> string \<Rightarrow> pack_policy \<Rightarrow> int \<Rightarrow> int \<Rightarrow> int \<Rightarrow> int \<Rightarrow> int \<Rightarrow> bool \<Rightarrow> tuning" where
  "tuned pack selected_profile execution policy cpu_threads n records features batch_size streaming =
     (let has = (\<lambda>a. a \<in> set (pk_algorithms policy));
          native_threads = (if has ''thread_parallel_gradient'' then max 1 (min cpu_threads n) else 1);
          batch_bytes = max 1 batch_size * max 1 (features + 1) * 4;
          arena_cap = (if has ''expanded_tensor_arena'' then pk_arena_bytes policy
                       else min (pk_arena_bytes policy) (96 * 1024 ^ 2));
          minimum_arena = max (8 * 1024 ^ 2) (batch_bytes * 3);
          arena_bytes = min arena_cap (max (max minimum_arena (batch_bytes * 8)) (arena_cap div 4))
      in \<lparr>tn_mode = pack, tn_profile = selected_profile, tn_execution = execution,
           tn_pack_base = pk_base policy, tn_algorithms = sort (remdups (pk_algorithms policy)),
           tn_native_threads = native_threads,
           tn_bulk_step_cap = (if has ''bulk_training_dispatch'' then pk_bulk_step_cap policy else 1),
           tn_arena_bytes = arena_bytes, tn_arena_cap = arena_cap,
           tn_data_workers = (if has ''parallel_data_prefetch'' then pk_data_workers policy else 0),
           tn_prefetch = (if has ''parallel_data_prefetch'' then pk_prefetch policy else 1),
           tn_chunk_target = (if has ''wide_context_chunks'' then pk_chunk_target policy
                              else min 4096 (pk_chunk_target policy)),
           tn_streaming = streaming, tn_records = max 0 records, tn_features = max 1 features,
           tn_batch_bytes = batch_bytes, tn_strategy = pk_strategy policy\<rparr>)"

definition autotune_execution ::
  "(pyval \<Rightarrow> string) \<Rightarrow> table_file \<Rightarrow> string \<Rightarrow> hardware \<Rightarrow> int \<Rightarrow> int \<Rightarrow> int \<Rightarrow> bool \<Rightarrow> string
     \<Rightarrow> string option \<Rightarrow> int option \<Rightarrow> int \<Rightarrow> kerror + tuning" where
  "autotune_execution show_value f profile hw records features batch_size streaming execution_target
       algorithm_pack threads cpu_percent =
     bind_result (resolve_algorithm_pack show_value f (Some (or_string algorithm_pack profile))) (\<lambda>pack.
     bind_result (legacy_profile_for_pack show_value f pack) (\<lambda>selected_profile.
     bind_result (resolve_execution_target (Some execution_target) hw) (\<lambda>execution.
     bind_result (execution_policy show_value f (Some selected_profile) hw (Some execution) (Some pack)) (\<lambda>choice.
     bind_result (case threads of
         Some n \<Rightarrow> Inr n
       | None \<Rightarrow> scaled_threads (detected_threads hw) (clamp 10 100 cpu_percent) (pk_fraction (pc_policy choice))) (\<lambda>n.
       Inr (tuned pack selected_profile execution (pc_policy choice) (detected_threads hw) n
              records features batch_size streaming))))))"

section \<open>Batch planning\<close>

definition power_floor :: "int \<Rightarrow> int" where
  "power_floor value = 2 ^ (bit_length (nat (max 2 value)) - 1)"

record batch_plan =
  bp_records :: int
  bp_features :: int
  bp_train_records :: int
  bp_mode :: string
  bp_recommended :: int
  bp_requested :: "int option"
  bp_applied :: int
  bp_safe_min :: int
  bp_safe_max :: int
  bp_risk :: string
  bp_requires_confirmation :: bool
  bp_warnings :: "batch_warning list"
  bp_reason :: batch_reason

definition train_records_of :: "int \<Rightarrow> int" where
  "train_records_of records = max 2 (records - min 480 (max 32 (records div 5)))"

definition recommended_batch :: "int \<Rightarrow> int \<Rightarrow> int" where
  "recommended_batch train_records features =
     (let r = (if train_records < 64 then 4 else if train_records < 256 then 8
               else if train_records < 1024 then 16 else if train_records < 10000 then 32
               else if train_records < 100000 then 64 else 128)
      in if 4096 < features then max 2 (r div 4) else if 512 < features then max 2 (r div 2) else r)"

definition profile_caps :: "(string, int) dict" where
  "profile_caps = [(''eco'', 64), (''low-memory'', 64), (''balanced'', 256), (''performance'', 512),
     (''workstation'', 65536), (''custom'', 256)]"

text \<open>The memory ceiling. The first argument of the last \<open>max\<close> is an integer, so that a division by
  the sample size is exact before it is rounded; a float numerator first rounds the divisor.\<close>

definition memory_samples :: "string \<Rightarrow> int \<Rightarrow> pyfloat \<Rightarrow> int \<Rightarrow> kerror + int" where
  "memory_samples profile ram_percent ram_gb features =
     (let total = fmul (fmax (Fin 1) ram_gb) (Fin (1024 ^ 3));
          available = (if profile = ''workstation''
                       then fsub total (fmax (Fin (2 * 1024 ^ 3)) (fmul total (to_float (5/100)))) else total);
          requested = fmul total (to_float (of_int ram_percent / 100));
          factor = (if profile = ''workstation'' then to_float (80/100) else to_float (35/100));
          usable = fmul (fmin requested available) factor;
          bytes_per_sample = max 2048 (features * 4 * 12)
      in if flt (Fin (256 * 1024 ^ 2)) usable
         then if isfinite (f_of_int bytes_per_sample)
              then case fdiv usable (f_of_int bytes_per_sample) of
                     None \<Rightarrow> Inl ZeroDivisionError | Some q \<Rightarrow> py_int q
              else Inl OverflowError
         else py_int (to_float (256 * 1024 ^ 2 / of_int bytes_per_sample)))"

text \<open>The recommended size and the safe range.\<close>

record batch_range =
  br_recommended :: int
  br_safe_min :: int
  br_safe_max :: int

definition batch_range_of :: "int \<Rightarrow> int \<Rightarrow> int \<Rightarrow> int \<Rightarrow> batch_range" where
  "batch_range_of profile_cap samples train_records features =
     (let dataset_cap = power_floor (max 2 (train_records div 2));
          safe_max = max 2 (min (min profile_cap (power_floor samples)) dataset_cap);
          recommended = min safe_max (power_floor (recommended_batch train_records features))
      in \<lparr>br_recommended = recommended, br_safe_min = min safe_max (max 2 (recommended div 2)),
          br_safe_max = safe_max\<rparr>)"

text \<open>A requested size: what is applied, its risk and the warnings.\<close>

definition manual_applied :: "string \<Rightarrow> int \<Rightarrow> int \<Rightarrow> int" where
  "manual_applied profile train_records n =
     max 1 (min n (min (if profile = ''workstation'' then 65536 else 4096) train_records))"

definition manual_batch :: "string \<Rightarrow> int \<Rightarrow> batch_range \<Rightarrow> int \<Rightarrow> int \<times> string \<times> batch_warning list" where
  "manual_batch profile train_records b n =
     (let hard_max = min (if profile = ''workstation'' then 65536 else 4096) train_records;
          applied = manual_applied profile train_records n;
          reduced = (if hard_max < n then [WarnReduced n applied train_records] else [])
      in if br_safe_max b < applied then (applied, ''high'', reduced @ [WarnHighMemory, WarnHighRecovery])
         else if applied < br_safe_min b then (applied, ''caution'', reduced @ [WarnSmallBatch])
         else if applied \<noteq> br_recommended b then (applied, ''caution'', reduced @ [WarnNotOptimum])
         else (applied, ''safe'', reduced))"

definition plan_batch ::
  "int \<Rightarrow> int \<Rightarrow> string \<Rightarrow> int \<Rightarrow> pyfloat \<Rightarrow> string \<Rightarrow> int option \<Rightarrow> kerror + batch_plan" where
  "plan_batch records features profile ram_percent ram_gb mode requested =
     (if mode \<notin> {''auto'', ''manual''} then Inl ConfigurationError else
      case dict_get profile profile_caps of
        None \<Rightarrow> Inl ConfigurationError
      | Some profile_cap \<Rightarrow>
          bind_result (memory_samples profile (clamp 10 95 ram_percent) ram_gb features) (\<lambda>samples.
            let train_records = train_records_of records;
                b = batch_range_of profile_cap samples train_records features;
                plan = (\<lambda>req (applied, risk, warnings). \<lparr>bp_records = records, bp_features = features,
                   bp_train_records = train_records, bp_mode = mode, bp_recommended = br_recommended b,
                   bp_requested = req, bp_applied = applied, bp_safe_min = br_safe_min b,
                   bp_safe_max = br_safe_max b, bp_risk = risk, bp_requires_confirmation = (risk = ''high''),
                   bp_warnings = warnings,
                   bp_reason = BatchReason records features train_records profile (clamp 10 95 ram_percent)\<rparr>)
            in if mode = ''manual''
               then case requested of
                      None \<Rightarrow> Inl ConfigurationError
                    | Some n \<Rightarrow> if n < 1 then Inl ConfigurationError
                                else Inr (plan (Some n) (manual_batch profile train_records b n))
               else Inr (plan None (br_recommended b, ''safe'', [WarnAutoMode]))))"

section \<open>Batch bounds\<close>

lemma power_floor_ge [kbounds]: "2 \<le> power_floor v"
proof -
  have "0 < nat (max 2 v) div 2" by auto
  then have "2 \<le> bit_length (nat (max 2 v))" by (simp add: bit_length_pos)
  then obtain k where "bit_length (nat (max 2 v)) - 1 = Suc k" by (metis One_nat_def Suc_le_D diff_Suc_1 numeral_2_eq_2 Suc_le_mono)
  then show ?thesis by (simp add: power_floor_def)
qed

lemma power_floor_le [kbounds]: "power_floor v \<le> max 2 v"
proof -
  have "2 ^ (bit_length (nat (max 2 v)) - 1) \<le> nat (max 2 v)" by (rule bit_length_lower) simp
  then have "int (2 ^ (bit_length (nat (max 2 v)) - 1)) \<le> int (nat (max 2 v))" by (simp only: of_nat_le_iff)
  moreover have "int (nat (max 2 v)) = max 2 v" by simp
  ultimately show ?thesis by (simp add: power_floor_def)
qed

lemma power_floor_mono: "a \<le> b \<Longrightarrow> power_floor a \<le> power_floor b"
  by (auto simp: power_floor_def intro!: diff_le_mono bit_length_mono nat_mono max.mono)

lemma power_floor_power: "power_floor (2 ^ Suc k) = 2 ^ Suc k"
proof -
  have m: "max 2 (2 ^ Suc k) = (2 ^ Suc k :: int)" by (simp add: max_def)
  have "bit_length (2 ^ j) = Suc j" for j
    by (induction j) (simp_all add: bit_length_pos)
  then show ?thesis by (simp add: power_floor_def m nat_power_eq del: power_Suc)
qed

lemma train_records_ge: "2 \<le> train_records_of n"
  by (simp add: train_records_of_def)

lemma batch_range_bounds:
  fixes cap samples n features
  defines "b \<equiv> batch_range_of cap samples n features"
  shows "2 \<le> br_safe_min b" "br_safe_min b \<le> br_recommended b" "br_recommended b \<le> br_safe_max b"
    "br_safe_max b \<le> max 2 (n div 2)" "br_safe_max b \<le> max 2 cap"
proof -
  define D where "D = power_floor (max 2 (n div 2))"
  define M where "M = min cap (power_floor samples)"
  define R where "R = power_floor (recommended_batch n features)"
  have d: "D \<le> max 2 (n div 2)" using power_floor_le [of "max 2 (n div 2)"] by (simp add: D_def)
  have R: "2 \<le> R" by (simp add: R_def power_floor_ge)
  have M: "M \<le> cap" by (simp add: M_def)
  have smax: "br_safe_max b = max 2 (min M D)" and rec: "br_recommended b = min (max 2 (min M D)) R"
    and smin: "br_safe_min b = min (max 2 (min M D)) (max 2 (min (max 2 (min M D)) R div 2))"
    by (simp_all only: b_def batch_range_of_def Let_def M_def D_def R_def batch_range.simps)
  show "br_safe_max b \<le> max 2 (n div 2)" unfolding smax using d by linarith
  show "br_safe_max b \<le> max 2 cap" unfolding smax using M by linarith
  show "br_recommended b \<le> br_safe_max b" unfolding smax rec by linarith
  show "2 \<le> br_safe_min b" by (simp add: smin)
  have "2 \<le> br_recommended b" using R by (simp add: rec)
  then have "max 2 (br_recommended b div 2) \<le> br_recommended b" by simp
  then show "br_safe_min b \<le> br_recommended b" unfolding smin rec by (rule min.coboundedI2)
qed

lemma manual_batch_cases:
  "fst (manual_batch profile n b k) = manual_applied profile n k"
  "fst (snd (manual_batch profile n b k)) = ''high'' \<longleftrightarrow> br_safe_max b < manual_applied profile n k"
  by (simp_all add: manual_batch_def Let_def)

lemma manual_applied_bounds: "2 \<le> n \<Longrightarrow> 1 \<le> manual_applied profile n k \<and> manual_applied profile n k \<le> n"
  by (simp add: manual_applied_def)

lemma plan_batch_InrE:
  assumes "plan_batch records features profile ram ram_gb mode requested = Inr p"
  obtains b cap samples where "b = batch_range_of cap samples (train_records_of records) features"
    "bp_safe_max p = br_safe_max b" "bp_recommended p = br_recommended b" "bp_safe_min p = br_safe_min b"
    "bp_mode p = mode" "bp_train_records p = train_records_of records"
    "bp_requires_confirmation p \<longleftrightarrow> br_safe_max b < bp_applied p"
    "mode = ''auto'' \<and> bp_applied p = br_recommended b \<or>
     mode = ''manual'' \<and> (\<exists>n. bp_applied p = manual_applied profile (train_records_of records) n)"
proof -
  from assms obtain cap where cap: "dict_get profile profile_caps = Some cap" and mode: "mode = ''auto'' \<or> mode = ''manual''"
    by (auto simp: plan_batch_def split: if_splits option.splits)
  from assms mode obtain samples where s: "memory_samples profile (clamp 10 95 ram) ram_gb features = Inr samples"
    unfolding plan_batch_def cap Let_def by (auto elim!: bind_result_InrE)
  let ?b = "batch_range_of cap samples (train_records_of records) features"
  show ?thesis
  proof (cases "mode = ''manual''")
    case True
    with assms obtain n where "requested = Some n" and p: "p = (case manual_batch profile (train_records_of records) ?b n of
        (applied, risk, warnings) \<Rightarrow> \<lparr>bp_records = records, bp_features = features,
           bp_train_records = train_records_of records, bp_mode = mode, bp_recommended = br_recommended ?b,
           bp_requested = Some n, bp_applied = applied, bp_safe_min = br_safe_min ?b,
           bp_safe_max = br_safe_max ?b, bp_risk = risk, bp_requires_confirmation = (risk = ''high''),
           bp_warnings = warnings,
           bp_reason = BatchReason records features (train_records_of records) profile (clamp 10 95 ram)\<rparr>)"
      by (auto simp: plan_batch_def cap s Let_def split: option.splits if_splits)
    show ?thesis
      by (rule that [of ?b cap samples])
        (use True manual_batch_cases [of profile "train_records_of records" ?b n] in \<open>auto simp: p split: prod.split\<close>)
  next
    case False
    with mode have "mode = ''auto''" by simp
    with assms show ?thesis
      using batch_range_bounds(3) [of cap samples "train_records_of records" features]
      by (intro that [of ?b cap samples]) (auto simp: plan_batch_def cap s Let_def)
  qed
qed

lemma plan_batch_bounds:
  assumes "plan_batch records features profile ram ram_gb mode requested = Inr p"
  shows "2 \<le> bp_safe_min p" "bp_safe_min p \<le> bp_recommended p" "bp_recommended p \<le> bp_safe_max p"
    "bp_safe_max p \<le> max 2 (bp_train_records p div 2)" "1 \<le> bp_applied p" "bp_applied p \<le> bp_train_records p"
    "mode = ''auto'' \<Longrightarrow> bp_applied p = bp_recommended p"
    "bp_requires_confirmation p \<longleftrightarrow> bp_safe_max p < bp_applied p" "bp_mode p = mode"
proof -
  from assms obtain b cap samples where b: "b = batch_range_of cap samples (train_records_of records) features"
    and p: "bp_safe_max p = br_safe_max b" "bp_recommended p = br_recommended b" "bp_safe_min p = br_safe_min b"
      "bp_mode p = mode" "bp_train_records p = train_records_of records"
      "bp_requires_confirmation p \<longleftrightarrow> br_safe_max b < bp_applied p"
    and app: "mode = ''auto'' \<and> bp_applied p = br_recommended b \<or>
     mode = ''manual'' \<and> (\<exists>n. bp_applied p = manual_applied profile (train_records_of records) n)"
    by (rule plan_batch_InrE)
  note range = batch_range_bounds [of cap samples "train_records_of records" features, folded b]
  show "2 \<le> bp_safe_min p" "bp_safe_min p \<le> bp_recommended p" "bp_recommended p \<le> bp_safe_max p"
    "bp_safe_max p \<le> max 2 (bp_train_records p div 2)" "mode = ''auto'' \<Longrightarrow> bp_applied p = bp_recommended p"
    "bp_requires_confirmation p \<longleftrightarrow> bp_safe_max p < bp_applied p" "bp_mode p = mode"
    using range p app by simp_all
  show "1 \<le> bp_applied p" "bp_applied p \<le> bp_train_records p"
    using app range p train_records_ge [of records] manual_applied_bounds [OF train_records_ge] by auto
qed

section \<open>Tuning bounds\<close>

lemma legacy_builtin: "dict_get k legacy_profile_pack = Some p \<Longrightarrow> dict_get p builtin_packs \<noteq> None"
  by (drule dict_get_Some_in) (auto simp: legacy_profile_pack_def builtin_names simp del: not_None_eq)

lemma clean_idem_ok: "normalise_name v = Inr n \<Longrightarrow> clean_name n = n"
  using normalise_name_idem(1) [of v n] by (simp add: normalise_name_def Let_def split: if_splits)

lemma or_string_name: "normalise_name v = Inr n \<Longrightarrow> or_string (Some n) d = n"
  using normalise_name_idem(2) [of v n] by (simp add: or_string_def)

lemma resolve_pack_name_InrD:
  assumes "resolve_pack_name sv f (Some w) = Inr pk"
  shows "normalise_name (if w = [] then ''balanced'' else w) = Inr pk" and "resolve_pack_name sv f (Some pk) = Inr pk"
proof -
  show n: "normalise_name (if w = [] then ''balanced'' else w) = Inr pk"
    using assms unfolding resolve_pack_name_def
    by (elim bind_result_InrE) (auto split: if_splits elim!: bind_result_InrE)
  have "normalise_name (if pk = [] then ''balanced'' else pk) = Inr pk"
    using normalise_name_idem [OF n] by simp
  then show "resolve_pack_name sv f (Some pk) = Inr pk"
    using assms n unfolding resolve_pack_name_def option.case by (simp only: bind_result_simps)
qed

lemma resolve_builtin:
  assumes "dict_get n builtin_packs \<noteq> None" shows "resolve_algorithm_pack sv f (Some n) = Inr n"
proof -
  note norm = normalise_builtin [OF assms]
  have "resolve_pack_name sv f (Some n) = Inr n"
    using norm normalise_name_idem(2) [OF norm] assms by (simp add: resolve_pack_name_def)
  moreover have "dict_get n legacy_profile_pack \<in> {None, Some n}"
    using assms [unfolded builtin_names] by (auto simp: legacy_profile_pack_def)
  ultimately show ?thesis
    by (auto simp: resolve_algorithm_pack_def clean_idem_ok [OF norm] or_string_name [OF norm])
qed

lemma resolve_algorithm_pack_fixed:
  assumes "resolve_algorithm_pack sv f v = Inr pack"
  shows "normalise_name pack = Inr pack"
proof (cases "dict_get (clean_name (or_string v ''balanced'')) legacy_profile_pack")
  case None
  then have "resolve_pack_name sv f (Some (clean_name (or_string v ''balanced''))) = Inr pack"
    using assms by (simp add: resolve_algorithm_pack_def)
  from resolve_pack_name_InrD(1) [OF this] show ?thesis by (rule normalise_name_idem(1))
next
  case (Some p)
  then have "pack = p" using assms by (simp add: resolve_algorithm_pack_def)
  then show ?thesis using legacy_builtin [OF Some] by (simp add: normalise_builtin)
qed

lemma effects_idem: "gated p \<Longrightarrow> 
    (if ''bulk_training_dispatch'' \<in> set (pk_algorithms p) then pk_bulk_step_cap p else 1) = pk_bulk_step_cap p \<and>
    (if ''parallel_data_prefetch'' \<in> set (pk_algorithms p) then pk_data_workers p else 0) = pk_data_workers p \<and>
    (if ''parallel_data_prefetch'' \<in> set (pk_algorithms p) then pk_prefetch p else 1) = pk_prefetch p \<and>
    (if ''wide_context_chunks'' \<in> set (pk_algorithms p) then pk_chunk_target p else min 4096 (pk_chunk_target p)) = pk_chunk_target p \<and>
    (if ''expanded_tensor_arena'' \<in> set (pk_algorithms p) then pk_arena_bytes p else min (pk_arena_bytes p) (96 * 1024 ^ 2)) = pk_arena_bytes p"
  by (auto simp: gated_def)

lemma resolve_algorithm_pack_idem:
  assumes "resolve_algorithm_pack sv f v = Inr pk"
  shows "resolve_algorithm_pack sv f (Some pk) = Inr pk"
proof (cases "dict_get (clean_name (or_string v ''balanced'')) legacy_profile_pack")
  case (Some p)
  then have "pk = p" using assms by (simp add: resolve_algorithm_pack_def)
  then show ?thesis using legacy_builtin [OF Some] by (simp add: resolve_builtin)
next
  case None
  define w where "w = clean_name (or_string v ''balanced'')"
  have r: "resolve_pack_name sv f (Some w) = Inr pk"
    using assms None by (simp add: resolve_algorithm_pack_def w_def)
  note n = resolve_pack_name_InrD(1) [OF r] and same = resolve_pack_name_InrD(2) [OF r]
  show ?thesis
  proof (cases "w = []")
    case True
    then have "pk = ''balanced''" using n by (simp add: normalise_builtin builtin_packs_def)
    then show ?thesis by (simp add: resolve_builtin builtin_packs_def)
  next
    case False
    then have "pk = clean_name w" using n by (simp add: normalise_name_def Let_def split: if_splits)
    then have "pk = w" by (simp add: w_def clean_name_idem)
    then have "dict_get pk legacy_profile_pack = None" using None by (simp add: w_def)
    then show ?thesis
      using same by (simp add: resolve_algorithm_pack_def clean_idem_ok [OF n] or_string_name [OF n])
  qed
qed

lemma execution_policy_pack:
  assumes "execution_policy sv f prof hw ex (Some pk) = Inr c" and "pk \<noteq> []"
    and "resolve_algorithm_pack sv f (Some pk) = Inr pk"
  shows "get_pack sv f pk = Inr (pc_policy c)"
  using assms(1) unfolding execution_policy_def option.case if_not_P [OF assms(2)] assms(3) bind_result_simps
  by (elim bind_result_InrE) auto

lemma tuned_simps:
  "tn_bulk_step_cap (tuned pk prof ex p ct n rs fs bs st) =
     (if ''bulk_training_dispatch'' \<in> set (pk_algorithms p) then pk_bulk_step_cap p else 1)"
  "tn_data_workers (tuned pk prof ex p ct n rs fs bs st) =
     (if ''parallel_data_prefetch'' \<in> set (pk_algorithms p) then pk_data_workers p else 0)"
  "tn_prefetch (tuned pk prof ex p ct n rs fs bs st) =
     (if ''parallel_data_prefetch'' \<in> set (pk_algorithms p) then pk_prefetch p else 1)"
  "tn_chunk_target (tuned pk prof ex p ct n rs fs bs st) =
     (if ''wide_context_chunks'' \<in> set (pk_algorithms p) then pk_chunk_target p else min 4096 (pk_chunk_target p))"
  "tn_arena_cap (tuned pk prof ex p ct n rs fs bs st) =
     (if ''expanded_tensor_arena'' \<in> set (pk_algorithms p) then pk_arena_bytes p
      else min (pk_arena_bytes p) (96 * 1024 ^ 2))"
  "tn_native_threads (tuned pk prof ex p ct n rs fs bs st) =
     (if ''thread_parallel_gradient'' \<in> set (pk_algorithms p) then max 1 (min ct n) else 1)"
  "tn_arena_bytes (tuned pk prof ex p ct n rs fs bs st) = min (tn_arena_cap (tuned pk prof ex p ct n rs fs bs st))
     (max (max (max (8 * 1024 ^ 2) (tn_batch_bytes (tuned pk prof ex p ct n rs fs bs st) * 3))
        (tn_batch_bytes (tuned pk prof ex p ct n rs fs bs st) * 8))
        (tn_arena_cap (tuned pk prof ex p ct n rs fs bs st) div 4))"
  "set (tn_algorithms (tuned pk prof ex p ct n rs fs bs st)) = set (pk_algorithms p)"
  "tn_mode (tuned pk prof ex p ct n rs fs bs st) = pk"
  unfolding tuned_def Let_def by (simp_all only: tuning.simps set_sort set_remdups)

lemma autotune_policy:
  assumes "autotune_execution sv f profile hw records features batch_size streaming target pack threads cpu = Inr t"
  obtains prof ex p n where "get_pack sv f (tn_mode t) = Inr p"
    "t = tuned (tn_mode t) prof ex p (detected_threads hw) n records features batch_size streaming"
proof -
  from assms obtain pk prof ex c n where
    pk: "resolve_algorithm_pack sv f (Some (or_string pack profile)) = Inr pk"
    and pol: "execution_policy sv f (Some prof) hw (Some ex) (Some pk) = Inr c"
    and t: "t = tuned pk prof ex (pc_policy c) (detected_threads hw) n records features batch_size streaming"
    unfolding autotune_execution_def by (elim bind_result_InrE) auto
  have "pk \<noteq> []" by (rule normalise_name_idem(2) [OF resolve_algorithm_pack_fixed [OF pk]])
  then have "get_pack sv f pk = Inr (pc_policy c)"
    by (rule execution_policy_pack [OF pol _ resolve_algorithm_pack_idem [OF pk]])
  moreover have "tn_mode t = pk" by (simp only: t tuned_simps)
  ultimately show ?thesis using that t by blast
qed

section \<open>Properties\<close>

text \<open>A batch plan is sane: the recommended size lies in a safe range that starts at 2 and ends
  within half of the training rows, automatic mode applies the recommended size, a requested size is
  cut to the training rows, and confirmation is asked for exactly when it exceeds the safe range.\<close>

theorem batch_plan_safe:
  assumes "plan_batch records features profile ram ram_gb mode requested = Inr p"
  shows "2 \<le> bp_safe_min p \<and> bp_safe_min p \<le> bp_recommended p \<and> bp_recommended p \<le> bp_safe_max p
    \<and> bp_safe_max p \<le> max 2 (bp_train_records p div 2)
    \<and> 1 \<le> bp_applied p \<and> bp_applied p \<le> bp_train_records p
    \<and> (mode = ''auto'' \<longrightarrow> bp_applied p = bp_recommended p)
    \<and> (bp_requires_confirmation p \<longleftrightarrow> bp_safe_max p < bp_applied p)"
  using plan_batch_bounds [OF assms] by simp

lemma memory_demo: "memory_samples ''balanced'' 50 (Fin 1) 10 = Inr 131072"
proof -
  have e: "to_float (of_int m * pow2 k) = Fin (of_int m * pow2 k)" if "\<bar>m\<bar> < 2 ^ 53" "- 1074 \<le> k" "k \<le> 970" for m k
    using that by (intro to_float_exact) auto
  have "to_float (1073741824) = Fin 1073741824" using e [of 1 30] by (simp add: pow2_def)
  moreover have "to_float (1/2) = Fin (1/2)" using e [of 1 "- 1"] by (simp add: pow2_def)
  moreover have "to_float (536870912) = Fin 536870912" using e [of 1 29] by (simp add: pow2_def)
  moreover have "to_float (3152519739159347 / 16777216) = Fin (3152519739159347 / 16777216)"
    using e [of 3152519739159347 "- 24"] by (simp add: pow2_def)
  moreover have "to_float 131072 = Fin 131072" using e [of 1 17] by (simp add: pow2_def)
  ultimately show ?thesis
    by (simp add: memory_samples_def fmax_def fmin_def float_constants py_int_def)
qed

lemma batch_plan_safe_witness:
  "\<exists>p. plan_batch 1000 10 ''balanced'' 50 (Fin 1) ''manual'' (Some 5000) = Inr p
     \<and> bp_applied p = 800 \<and> bp_safe_max p \<le> 400"
proof -
  have c: "clamp 10 95 50 = 50" by (simp add: clamp_def)
  have t: "train_records_of 1000 = 800" by (simp add: train_records_of_def)
  obtain p where p: "plan_batch 1000 10 ''balanced'' 50 (Fin 1) ''manual'' (Some 5000) = Inr p"
    and a: "bp_applied p = 800" "bp_train_records p = 800"
    using manual_batch_cases(1) [of "''balanced''" 800 "batch_range_of 256 131072 800 10" 5000]
    by (cases "manual_batch ''balanced'' 800 (batch_range_of 256 131072 800 10) 5000")
      (auto simp: plan_batch_def profile_caps_def c t memory_demo manual_applied_def Let_def)
  from batch_plan_safe [OF p] a show ?thesis by (intro exI [of _ p]) (simp add: p)
qed

text \<open>Start-up tuning changes nothing of the chosen pack: re-applying the algorithm switches gives
  the values the pack already has, the arena stays under the pack's cap, and the native threads
  between one and what the machine has, one alone when the pack has no parallel gradient.\<close>

theorem tuning_follows_pack:
  assumes sv: "\<And>v. truthy v \<Longrightarrow> sv v \<noteq> []"
    and "autotune_execution sv f profile hw records features batch_size streaming target pack threads cpu = Inr t"
  shows "\<exists>p. get_pack sv f (tn_mode t) = Inr p \<and> tn_bulk_step_cap t = pk_bulk_step_cap p
    \<and> tn_data_workers t = pk_data_workers p \<and> tn_prefetch t = pk_prefetch p
    \<and> tn_chunk_target t = pk_chunk_target p \<and> tn_arena_cap t = pk_arena_bytes p
    \<and> 8 * 1024 ^ 2 \<le> tn_arena_bytes t \<and> tn_arena_bytes t \<le> tn_arena_cap t
    \<and> 1 \<le> tn_native_threads t \<and> tn_native_threads t \<le> detected_threads hw
    \<and> (''thread_parallel_gradient'' \<in> set (tn_algorithms t) \<or> tn_native_threads t = 1)"
proof -
  obtain prof ex p n where p: "get_pack sv f (tn_mode t) = Inr p"
    and t: "t = tuned (tn_mode t) prof ex p (detected_threads hw) n records features batch_size streaming"
    by (rule autotune_policy [OF assms(2)])
  have ok: "policy_ok p" "gated p" using get_pack_ok [OF p sv] by auto
  note eff = effects_idem [OF ok(2)]
  have d: "1 \<le> detected_threads hw" by (simp add: detected_threads_def)
  define u where "u = tuned (tn_mode t) prof ex p (detected_threads hw) n records features batch_size streaming"
  have same: "tn_bulk_step_cap u = pk_bulk_step_cap p" "tn_data_workers u = pk_data_workers p"
    "tn_prefetch u = pk_prefetch p" "tn_chunk_target u = pk_chunk_target p" "tn_arena_cap u = pk_arena_bytes p"
    unfolding u_def tuned_simps using eff by blast+
  have arena: "tn_arena_bytes u = min (pk_arena_bytes p)
      (max (max (max (8 * 1024 ^ 2) (tn_batch_bytes u * 3)) (tn_batch_bytes u * 8)) (pk_arena_bytes p div 4))"
    using same(5) unfolding u_def tuned_simps(7) by simp
  have "8 * 1024 ^ 2 \<le> pk_arena_bytes p" using ok(1) by (simp add: policy_ok_def)
  then have low: "8 * 1024 ^ 2 \<le> tn_arena_bytes u \<and> tn_arena_bytes u \<le> tn_arena_cap u"
    unfolding arena same(5) by (simp add: le_max_iff_disj)
  have threads: "1 \<le> tn_native_threads u \<and> tn_native_threads u \<le> detected_threads hw
    \<and> (''thread_parallel_gradient'' \<in> set (tn_algorithms u) \<or> tn_native_threads u = 1)"
    unfolding u_def tuned_simps using d by simp
  have "t = u" using t u_def by simp
  then show ?thesis using p same low threads by blast
qed

lemma tuning_follows_pack_witness:
  "\<exists>t. autotune_execution show_demo NoFile ''auto'' \<lparr>hw_cpu_threads = 8, hw_ram_gb = Fin 16, hw_gpu_available = False\<rparr>
      1000 10 32 False ''auto'' (Some ''careful'') (Some 4) 100 = Inr t \<and> tn_native_threads t \<le> 8"
proof -
  let ?hw = "\<lparr>hw_cpu_threads = 8, hw_ram_gb = Fin 16, hw_gpu_available = False\<rparr>"
  have n: "resolve_algorithm_pack show_demo NoFile (Some ''careful'') = Inr ''careful''"
    by (simp add: resolve_builtin builtin_packs_def)
  have clean: "clean_name ''auto'' = ''auto''" "clean_name ''cpu'' = ''cpu''" by code_simp+
  obtain t where t: "autotune_execution show_demo NoFile ''auto'' ?hw 1000 10 32 False ''auto'' (Some ''careful'') (Some 4) 100 = Inr t"
    by (simp add: autotune_execution_def or_string_def n legacy_profile_for_pack_def pack_profile_def
        resolve_execution_target_def clean execution_policy_def get_pack_def normalise_builtin builtin_packs_def)
  from tuning_follows_pack [OF _ t] show ?thesis
    using t by (auto simp: show_demo_def detected_threads_def)
qed

end
