(* ===== verification/Files.thy ===== *)
theory Files imports Checkpoints Packs begin

text \<open>
  File names and the directory tree below the state directory \<open>.kernelyra\<close>, as \<open>datasets.py\<close> and
  \<open>maintenance.py\<close> use them: \<open>stem\<close> and \<open>suffix\<close> of \<open>pathlib\<close>, substrings, and a tree as a dictionary
  from the parts of a path relative to the state directory to the content of the file.
\<close>

section \<open>Names\<close>

text \<open>The characters after the last dot; a name that starts or ends with that dot has no suffix.\<close>

definition path_suffix :: "string \<Rightarrow> string" where
  "path_suffix name =
     (let after = length (takeWhile (\<lambda>c. c \<noteq> CHR ''.'') (rev name))
      in if after = 0 \<or> length name \<le> after + 1 then [] else drop (length name - after - 1) name)"

definition path_stem :: "string \<Rightarrow> string" where
  "path_stem name = take (length name - length (path_suffix name)) name"

definition starts_with :: "string \<Rightarrow> string \<Rightarrow> bool" where
  "starts_with p s \<longleftrightarrow> take (length p) s = p"

definition ends_with :: "string \<Rightarrow> string \<Rightarrow> bool" where
  "ends_with p s \<longleftrightarrow> length p \<le> length s \<and> drop (length s - length p) s = p"

fun contains :: "string \<Rightarrow> string \<Rightarrow> bool" where
  "contains p [] = (p = [])"
| "contains p (c # s) = (starts_with p (c # s) \<or> contains p s)"

definition remove_suffix :: "string \<Rightarrow> string \<Rightarrow> string" where
  "remove_suffix p s = (if ends_with p s then take (length s - length p) s else s)"

text \<open>The parts of a POSIX path, and the last that is neither empty nor a dot.\<close>

fun path_parts :: "string \<Rightarrow> string \<Rightarrow> string list" where
  "path_parts part [] = [rev part]"
| "path_parts part (c # cs) = (if c = CHR ''/'' then rev part # path_parts [] cs else path_parts (c # part) cs)"

definition posix_parts :: "string \<Rightarrow> string list" where
  "posix_parts s = filter (\<lambda>p. p \<notin> {[], ''.''}) (path_parts [] s)"

definition path_name :: "string \<Rightarrow> string" where
  "path_name s =
     (case rev (posix_parts s) of [] \<Rightarrow> [] | p # _ \<Rightarrow> p)"

text \<open>\<open>int(x)\<close> on a text: a decimal number with optional sign, blanks
  around it and single underscores between digits.\<close>

definition digit :: "char \<Rightarrow> int option" where
  "digit c = (let n = of_char c :: int in if 48 \<le> n \<and> n \<le> 57 then Some (n - 48) else None)"

fun digits :: "int \<Rightarrow> bool \<Rightarrow> string \<Rightarrow> int option" where
  "digits n after_digit [] = (if after_digit then Some n else None)"
| "digits n after_digit (c # cs) =
     (case digit c of
        Some d \<Rightarrow> digits (n * 10 + d) True cs
      | None \<Rightarrow> if c = CHR ''_'' \<and> after_digit then digits n False cs else None)"

definition parse_int :: "string \<Rightarrow> int option" where
  "parse_int text =
     (case py_strip text of
        [] \<Rightarrow> None
      | c # cs \<Rightarrow> if c = CHR ''-'' then map_option uminus (digits 0 False cs)
                  else if c = CHR ''+'' then digits 0 False cs else digits 0 False (c # cs))"

lemma path_suffix_append:
  assumes "stem \<noteq> []" and "ext \<noteq> []" and "CHR ''.'' \<notin> set ext"
  shows "path_suffix (stem @ CHR ''.'' # ext) = CHR ''.'' # ext" and "path_stem (stem @ CHR ''.'' # ext) = stem"
proof -
  have "takeWhile (\<lambda>c. c \<noteq> CHR ''.'') (rev ext @ CHR ''.'' # rev stem) = rev ext"
    using assms(3) by (subst takeWhile_append2) auto
  then show s: "path_suffix (stem @ CHR ''.'' # ext) = CHR ''.'' # ext"
    using assms(1,2) by (simp add: path_suffix_def Let_def)
  then show "path_stem (stem @ CHR ''.'' # ext) = stem" by (simp add: path_stem_def)
qed

lemma stem_suffix: "path_stem n @ path_suffix n = n"
  by (auto simp: path_stem_def path_suffix_def Let_def)

lemma starts_with_append [simp]: "starts_with p (p @ s)"
  by (simp add: starts_with_def)

lemma starts_with_iff: "starts_with p s \<longleftrightarrow> (\<exists>r. s = p @ r)"
  unfolding starts_with_def by (metis append_eq_conv_conj append_take_drop_id)

lemma contains_iff: "contains p s \<longleftrightarrow> (\<exists>r u. s = r @ p @ u)"
proof (induction s)
  case (Cons c s)
  show ?case
  proof
    assume "contains p (c # s)"
    then show "\<exists>r u. c # s = r @ p @ u"
    proof (simp, elim disjE)
      assume "starts_with p (c # s)"
      then obtain u where "c # s = [] @ p @ u" by (auto simp: starts_with_iff)
      then show ?thesis by blast
    next
      assume "contains p s"
      then obtain r u where "c # s = (c # r) @ p @ u" using Cons by auto
      then show ?thesis by blast
    qed
  next
    assume "\<exists>r u. c # s = r @ p @ u"
    then obtain r u where e: "c # s = r @ p @ u" by blast
    show "contains p (c # s)"
    proof (cases r)
      case Nil
      with e have "starts_with p (c # s)" by (auto simp: starts_with_iff)
      then show ?thesis by simp
    next
      case (Cons d r')
      with e have "s = r' @ p @ u" by simp
      then have "contains p s" using Cons.IH by blast
      then show ?thesis by simp
    qed
  qed
qed simp

lemma contains_self: "contains p (p @ s)"
  unfolding contains_iff by (metis append_Nil)

lemma contains_in: "contains p s \<Longrightarrow> contains p (r @ s @ u)"
  unfolding contains_iff by (metis append.assoc)

lemma remove_suffix_append [simp]: "remove_suffix p (s @ p) = s"
  by (simp add: remove_suffix_def ends_with_def)

lemma remove_suffix_other: "\<not> ends_with p s \<Longrightarrow> remove_suffix p s = s"
  by (simp add: remove_suffix_def)

text \<open>Numerals are different for different numbers.\<close>

lemma nat_str_digits: "c \<in> set (nat_str n) \<Longrightarrow> of_char c \<in> {48..57 :: nat}"
proof (induction n rule: nat_str.induct)
  case (1 n)
  show ?case
  proof (cases "n < 10")
    case True
    with 1(2) show ?thesis by (subst (asm) nat_str.simps) auto
  next
    case False
    from 1(2) have "c \<in> set (nat_str (n div 10)) \<or> c = char_of (48 + n mod 10)"
      by (subst (asm) nat_str.simps) (use False in auto)
    then show ?thesis
    proof
      assume "c = char_of (48 + n mod 10)"
      then show ?thesis by simp
    qed (use 1(1) False in blast)
  qed
qed

fun numeral_value :: "nat \<Rightarrow> string \<Rightarrow> nat" where
  "numeral_value n [] = n"
| "numeral_value n (c # s) = numeral_value (n * 10 + (of_char c - 48)) s"

lemma numeral_value_append: "numeral_value n (s @ t) = numeral_value (numeral_value n s) t"
  by (induction s arbitrary: n) auto

lemma nat_str_value: "numeral_value 0 (nat_str n) = n"
proof (induction n rule: nat_str.induct)
  case (1 n)
  show ?case
  proof (cases "n < 10")
    case True
    then show ?thesis by (subst nat_str.simps) simp
  next
    case False
    with 1 have "numeral_value 0 (nat_str (n div 10)) = n div 10" by blast
    then show ?thesis by (subst nat_str.simps) (use False in \<open>simp add: numeral_value_append\<close>)
  qed
qed

lemma nat_str_inject [simp]: "nat_str m = nat_str n \<longleftrightarrow> m = n"
  by (metis nat_str_value)

lemma bind_Inr_iff: "bind_result r f = Inr y \<longleftrightarrow> (\<exists>x. r = Inr x \<and> f x = Inr y)"
  by (cases r) auto

text \<open>\<open>list(dict.fromkeys(xs))\<close>: the first occurrence of each element, in order.\<close>

definition unique :: "'a list \<Rightarrow> 'a list" where
  "unique xs = rev (remdups (rev xs))"

section \<open>Trees\<close>

type_synonym tree = "(string list, content) dict"

text \<open>The files directly inside a directory, and a name in it that is not taken: \<open>name\<close>, then
  \<open>stem-1.suffix\<close>, \<open>stem-2.suffix\<close> and so on.\<close>

definition files_in :: "string \<Rightarrow> tree \<Rightarrow> string list" where
  "files_in folder t = List.map_filter (\<lambda>(p, c). case p of [d, n] \<Rightarrow> if d = folder then Some n else None | _ \<Rightarrow> None) t"

definition slot_name :: "string \<Rightarrow> nat \<Rightarrow> string" where
  "slot_name name k = (if k = 0 then name else path_stem name @ ''-'' @ nat_str k @ path_suffix name)"

lemma slot_name_inject: "slot_name name j = slot_name name k \<longleftrightarrow> j = k"
proof -
  have "length (slot_name name i) \<noteq> length name" if "i \<noteq> 0" for i
    using that arg_cong [OF stem_suffix [of name], of length] by (simp add: slot_name_def)
  moreover have "slot_name name 0 = name" by (simp add: slot_name_def)
  moreover have "slot_name name j = slot_name name k \<longleftrightarrow> j = k" if "j \<noteq> 0" "k \<noteq> 0"
    using that by (simp add: slot_name_def)
  ultimately show ?thesis by metis
qed

lemma finite_taken: "finite {k. from \<le> k \<and> dict_get (dir @ [slot_name name k]) t \<noteq> None}"
proof -
  have "inj (\<lambda>k. dir @ [slot_name name k])" by (auto simp: inj_def slot_name_inject)
  then have "finite ((\<lambda>k. dir @ [slot_name name k]) -` set (dict_keys t))" by (intro finite_vimageI) auto
  then show ?thesis by (rule rev_finite_subset) (auto simp: dict_get_None_iff)
qed

function free_slot :: "string list \<Rightarrow> string \<Rightarrow> tree \<Rightarrow> nat \<Rightarrow> string list" where
  "free_slot dir name t k =
     (if dict_get (dir @ [slot_name name k]) t = None then dir @ [slot_name name k] else free_slot dir name t (k + 1))"
  by pat_completeness auto
termination
proof (relation "measure (\<lambda>(dir, name, t, k). card {i. k \<le> i \<and> dict_get (dir @ [slot_name name i]) t \<noteq> None})")
  fix dir name and t :: tree and k
  assume "dict_get (dir @ [slot_name name k]) t \<noteq> None"
  then have "{i. k + 1 \<le> i \<and> dict_get (dir @ [slot_name name i]) t \<noteq> None}
      \<subset> {i. k \<le> i \<and> dict_get (dir @ [slot_name name i]) t \<noteq> None}" (is "?A \<subset> ?B")
  proof -
    assume k: "dict_get (dir @ [slot_name name k]) t \<noteq> None"
    then have "k \<in> ?B - ?A" by simp
    moreover have "?A \<subseteq> ?B" by auto
    ultimately show ?thesis by blast
  qed
  then show "((dir, name, t, k + 1), dir, name, t, k)
      \<in> measure (\<lambda>(dir, name, t, k). card {i. k \<le> i \<and> dict_get (dir @ [slot_name name i]) t \<noteq> None})"
    using psubset_card_mono [OF finite_taken] by simp
qed simp

declare free_slot.simps [simp del]

lemma free_slot_free: "dict_get (free_slot dir name t k) t = None"
  by (induction dir name t k rule: free_slot.induct) (subst free_slot.simps, auto)

lemma free_slot_in: "\<exists>n. free_slot dir name t k = dir @ [n]"
  by (induction dir name t k rule: free_slot.induct) (subst free_slot.simps, auto)

text \<open>\<open>replace\<close>: the file under the first path is afterwards under the second.\<close>

definition move_file :: "string list \<Rightarrow> string list \<Rightarrow> tree \<Rightarrow> tree" where
  "move_file p q t = (case dict_get p t of None \<Rightarrow> t | Some c \<Rightarrow> dict_set q c (dict_del p t))"

lemma move_file_get: "dict_ok t \<Longrightarrow> dict_get p t = Some c \<Longrightarrow>
    dict_get r (move_file p q t) = (if r = q then Some c else if r = p then None else dict_get r t)"
  by (simp add: move_file_def dict_get_set dict_get_del)

lemma move_file_ok: "dict_ok t \<Longrightarrow> dict_ok (move_file p q t)"
  by (auto simp: move_file_def dict_ok_set dict_ok_del split: option.split)

lemma files_in_iff: "n \<in> set (files_in folder t) \<longleftrightarrow> dict_get [folder, n] t \<noteq> None"
  unfolding files_in_def dict_get_None_iff dict_keys_def List.map_filter_def
  by (force split: list.splits if_splits)

end
