(* ===== verification/Worker.thy ===== *)
theory Worker imports Files TrainLoop Tuning "HOL-Library.Word" begin

text \<open>
  The training worker process: \<open>src/src/kernelyra/backends/worker.py\<close> with the result types of
  \<open>backends/base.py\<close>. Frames on the loopback socket, the command loop of the child, and the
  parent's handle with its requests, its termination and its close. The backend is a record of
  functions on its session; \<open>json.dumps\<close> and \<open>json.loads\<close> with UTF-8 are the parameters \<open>dumps\<close>
  and \<open>loads\<close>, called on finite values only.
\<close>

section \<open>Frames\<close>

type_synonym bytes = "8 word list"

definition max_ipc_bytes :: nat where
  "max_ipc_bytes = 1024 * 1024"

definition pack_length :: "nat \<Rightarrow> bytes" where
  "pack_length n = map (\<lambda>k. word_of_nat (n div 256 ^ k)) [3, 2, 1, 0]"

definition unpack_length :: "bytes \<Rightarrow> nat" where
  "unpack_length bs = fold (\<lambda>b n. n * 256 + unat b) bs 0"

text \<open>What \<open>_send_message\<close> writes, or raises: \<open>allow_nan=False\<close> refuses a float that is not finite.\<close>

definition frame :: "(pyval \<Rightarrow> bytes) \<Rightarrow> pydict \<Rightarrow> kerror + bytes" where
  "frame dumps m =
     (if \<not> all_finite (VDict m) then Inl ValueError
      else let payload = dumps (VDict m)
           in if max_ipc_bytes < length payload then Inl WorkerProtocolError
              else Inr (pack_length (length payload) @ payload))"

text \<open>The socket delivers the bytes in pieces; a call of \<open>recv\<close> takes from the first one. No piece,
  or an empty one, is the end of the stream.\<close>

function receive_exact :: "nat \<Rightarrow> bytes list \<Rightarrow> kerror + bytes \<times> bytes list" where
  "receive_exact remaining pieces =
     (if remaining = 0 then Inr ([], pieces) else
      case pieces of
        [] \<Rightarrow> Inl EOFError
      | piece # rest \<Rightarrow>
          let chunk = take remaining piece; left = drop remaining piece
          in if chunk = [] then Inl EOFError
             else bind_result (receive_exact (remaining - length chunk) (if left = [] then rest else left # rest))
                    (\<lambda>(bs, pieces'). Inr (chunk @ bs, pieces')))"
  by auto

termination
  by (relation "measure fst") auto

declare receive_exact.simps [simp del]

definition receive_message :: "(bytes \<Rightarrow> kerror + pyval) \<Rightarrow> bytes list \<Rightarrow> kerror + pydict \<times> bytes list" where
  "receive_message loads pieces =
     bind_result (receive_exact 4 pieces) (\<lambda>(header, pieces).
       let n = unpack_length header
       in if n = 0 \<or> max_ipc_bytes < n then Inl WorkerProtocolError
          else bind_result (receive_exact n pieces) (\<lambda>(payload, pieces).
               bind_result (loads payload) (\<lambda>v.
                 case v of VDict d \<Rightarrow> Inr (d, pieces) | _ \<Rightarrow> Inl WorkerProtocolError)))"

fun receive_messages ::
  "(bytes \<Rightarrow> kerror + pyval) \<Rightarrow> nat \<Rightarrow> bytes list \<Rightarrow> kerror + pydict list \<times> bytes list" where
  "receive_messages loads 0 pieces = Inr ([], pieces)"
| "receive_messages loads (Suc n) pieces =
     bind_result (receive_message loads pieces) (\<lambda>(m, pieces).
     bind_result (receive_messages loads n pieces) (\<lambda>(ms, pieces). Inr (m # ms, pieces)))"

section \<open>Framing is exact\<close>

lemma unpack_pack: "n < 2 ^ 32 \<Longrightarrow> unpack_length (pack_length n) = n"
proof -
  assume n: "n < 2 ^ 32"
  have u: "unat (word_of_nat m :: 8 word) = m mod 256" for m
    by (simp add: unat_of_nat)
  have d: "n div 65536 = n div 256 div 256" "n div 16777216 = n div 256 div 256 div 256"
    by (simp_all only: div_mult2_eq [symmetric]) simp_all
  have "n div 256 div 256 div 256 mod 256 = n div 256 div 256 div 256"
    using n by (simp add: div_mult2_eq [symmetric] less_mult_imp_div_less)
  then have "unpack_length (pack_length n) = ((n div 256 div 256 div 256 * 256 + n div 256 div 256 mod 256) * 256
      + n div 256 mod 256) * 256 + n mod 256"
    by (simp add: unpack_length_def pack_length_def u d del: unat_of_nat div_mult_mod_eq mod_div_trivial)
  then show ?thesis by (simp only: div_mult_mod_eq)
qed

lemma length_pack [simp]: "length (pack_length n) = 4"
  by (simp add: pack_length_def)

lemma receive_exact_concat:
  assumes "concat pieces = bs @ rest" and "[] \<notin> set pieces"
  shows "\<exists>pieces'. receive_exact (length bs) pieces = Inr (bs, pieces') \<and> concat pieces' = rest \<and> [] \<notin> set pieces'"
  using assms
proof (induction "length bs" pieces arbitrary: bs rule: receive_exact.induct)
  case (1 pieces)
  show ?case
  proof (cases "bs = []")
    case True
    with "1.prems" show ?thesis by (simp add: receive_exact.simps)
  next
    case False
    with "1.prems" obtain p ps where p: "pieces = p # ps" "p \<noteq> []" by (cases pieces) auto
    let ?c = "take (length bs) p" and ?l = "drop (length bs) p"
    let ?next = "if ?l = [] then ps else ?l # ps"
    from "1.prems"(1) p have eq: "p @ concat ps = bs @ rest" by simp
    have c: "?c \<noteq> []" using p False by simp
    have "take (length ?c) (bs @ rest) = take (length ?c) (p @ concat ps)" using eq by simp
    then have "take (length ?c) bs = ?c" by (simp add: min_def split: if_splits)
    then have pre: "bs = ?c @ drop (length ?c) bs" by (metis append_take_drop_id)
    have len: "length bs - length ?c = length (drop (length ?c) bs)" by simp
    have "concat ?next = ?l @ concat ps" by simp
    then have "?c @ concat ?next = bs @ rest" using eq by (simp only: append.assoc [symmetric] append_take_drop_id)
    then have cc: "concat ?next = drop (length ?c) bs @ rest"
      by (subst (asm) pre) (simp only: append.assoc append_same_eq same_append_eq)
    have ne: "[] \<notin> set ?next" using "1.prems"(2) p by auto
    obtain pieces' where r: "receive_exact (length (drop (length ?c) bs)) ?next = Inr (drop (length ?c) bs, pieces')"
      "concat pieces' = rest" "[] \<notin> set pieces'"
      using "1.hyps" [of p ps ?c ?l "drop (length ?c) bs"] False p c cc ne len by auto
    then show ?thesis
      using False p c len pre by (subst receive_exact.simps) (simp add: Let_def)
  qed
qed

lemma receive_exact_ok:
  assumes "concat pieces = bs @ rest" and "[] \<notin> set pieces" and "n = length bs"
  obtains pieces' where "receive_exact n pieces = Inr (bs, pieces')" "concat pieces' = rest" "[] \<notin> set pieces'"
  using receive_exact_concat [OF assms(1,2)] assms(3) by auto

lemma receive_message_frame:
  assumes "frame dumps m = Inr bs" and loads: "loads (dumps (VDict m)) = Inr (VDict m)" and "dumps (VDict m) \<noteq> []"
    and c: "concat pieces = bs @ rest" and ne: "[] \<notin> set pieces"
  shows "\<exists>pieces'. receive_message loads pieces = Inr (m, pieces') \<and> concat pieces' = rest \<and> [] \<notin> set pieces'"
proof -
  let ?p = "dumps (VDict m)"
  have bs: "bs = pack_length (length ?p) @ ?p" and len: "length ?p \<le> max_ipc_bytes"
    using assms(1) by (auto simp: frame_def Let_def split: if_splits)
  from c bs have "concat pieces = pack_length (length ?p) @ ?p @ rest" by simp
  then obtain p1 where 1: "receive_exact 4 pieces = Inr (pack_length (length ?p), p1)" "concat p1 = ?p @ rest" "[] \<notin> set p1"
    by (rule receive_exact_ok [OF _ ne]) simp_all
  obtain p2 where 2: "receive_exact (length ?p) p1 = Inr (?p, p2)" "concat p2 = rest" "[] \<notin> set p2"
    by (rule receive_exact_ok [OF 1(2,3) refl])
  have "unpack_length (pack_length (length ?p)) = length ?p"
    using len by (intro unpack_pack) (simp add: max_ipc_bytes_def)
  then show ?thesis
    using 1 2 len loads \<open>?p \<noteq> []\<close> by (simp add: receive_message_def)
qed

text \<open>The frames of several messages, one after the other.\<close>

fun send_messages :: "(pyval \<Rightarrow> bytes) \<Rightarrow> pydict list \<Rightarrow> kerror + bytes" where
  "send_messages dumps [] = Inr []"
| "send_messages dumps (m # ms) =
     bind_result (frame dumps m) (\<lambda>bs. bind_result (send_messages dumps ms) (\<lambda>cs. Inr (bs @ cs)))"

text \<open>C18: However the network cuts the stream, the messages that were sent are received, each once
  and in order, and what follows them stays to be read. A frame is never longer than its limit.\<close>

theorem frames_roundtrip:
  assumes "send_messages dumps ms = Inr bs" and "concat pieces = bs @ rest" and "[] \<notin> set pieces"
    and "\<And>m. m \<in> set ms \<Longrightarrow> dumps (VDict m) \<noteq> [] \<and> loads (dumps (VDict m)) = Inr (VDict m)"
  shows "(\<exists>pieces'. receive_messages loads (length ms) pieces = Inr (ms, pieces') \<and> concat pieces' = rest)
    \<and> length bs \<le> length ms * (4 + max_ipc_bytes)"
  using assms
proof (induction ms arbitrary: bs pieces)
  case (Cons m ms)
  obtain f gs where f: "frame dumps m = Inr f" and g: "send_messages dumps ms = Inr gs" and bs: "bs = f @ gs"
    using Cons.prems(1) by (auto elim!: bind_result_InrE)
  obtain p1 where 1: "receive_message loads pieces = Inr (m, p1)" "concat p1 = gs @ rest" "[] \<notin> set p1"
    using receive_message_frame [OF f _ _ _ Cons.prems(3), of loads "gs @ rest"] Cons.prems(2,4) bs by auto
  have "length f \<le> 4 + max_ipc_bytes" using f by (auto simp: frame_def Let_def split: if_splits)
  obtain p2 where 2: "receive_messages loads (length ms) p1 = Inr (ms, p2)" "concat p2 = rest"
    and "length gs \<le> length ms * (4 + max_ipc_bytes)"
    using Cons.IH [OF g 1(2,3)] Cons.prems(4) by auto
  with \<open>length f \<le> 4 + max_ipc_bytes\<close> have "length bs \<le> (4 + max_ipc_bytes) + length ms * (4 + max_ipc_bytes)"
    unfolding bs length_append by (intro add_mono)
  moreover have "receive_messages loads (length (m # ms)) pieces = Inr (m # ms, p2)"
    by (simp add: 1(1) 2(1))
  ultimately show ?case using 2(2) by (auto simp only: length_Cons mult_Suc)
qed simp

theorem frames_roundtrip_witness:
  "\<exists>pieces'. receive_messages (\<lambda>bs. Inr (VDict [(''n'', VInt (uint (hd bs)))])) 2
       [[0, 0], [0, 2, 7, 7, 0], [0, 0, 2, 9, 9, 5]]
     = Inr ([[(''n'', VInt 7)], [(''n'', VInt 9)]], pieces') \<and> concat pieces' = [5]"
proof -
  define dumps :: "pyval \<Rightarrow> bytes" where
    "dumps = (\<lambda>v. if v = VDict [(''n'', VInt 7)] then [7, 7] else [9, 9])"
  have sent: "send_messages dumps [[(''n'', VInt 7)], [(''n'', VInt 9)]] = Inr [0, 0, 0, 2, 7, 7, 0, 0, 0, 2, 9, 9]"
    by (simp add: frame_def Let_def dumps_def max_ipc_bytes_def pack_length_def)
  have "\<exists>pieces'. receive_messages (\<lambda>bs. Inr (VDict [(''n'', VInt (uint (hd bs)))]))
       (length [[(''n'', VInt 7)], [(''n'', VInt 9)]]) [[0, 0], [0, 2, 7, 7, 0], [0, 0, 2, 9, 9, 5]]
     = Inr ([[(''n'', VInt 7)], [(''n'', VInt 9)]], pieces') \<and> concat pieces' = [5]"
    by (rule frames_roundtrip [OF sent, THEN conjunct1]) (auto simp: dumps_def)
  moreover have "length [[(''n'', VInt 7)], [(''n'', VInt 9)]] = 2" by simp
  ultimately show ?thesis by (simp only:)
qed

section \<open>The backend in the child\<close>

text \<open>The operations of a backend on its session, \<open>None\<close> where it has no such method. A step gives
  loss and samples, an evaluation score and metrics.\<close>

record 's backend =
  bk_train_step :: "int \<Rightarrow> 's \<Rightarrow> (kerror + pyfloat \<times> int) \<times> 's"
  bk_train_steps :: "(int \<Rightarrow> int \<Rightarrow> 's \<Rightarrow> (kerror + pyfloat \<times> int) \<times> 's) option"
  bk_evaluate :: "'s \<Rightarrow> (kerror + pyfloat \<times> pydict) \<times> 's"
  bk_evaluate_test :: "'s \<Rightarrow> (kerror + pyfloat \<times> pydict) \<times> 's"
  bk_restore :: "string \<Rightarrow> 's \<Rightarrow> (kerror + unit) \<times> 's"
  bk_save :: "string \<Rightarrow> pydict \<Rightarrow> 's \<Rightarrow> (kerror + unit) \<times> 's"
  bk_close_session :: "('s \<Rightarrow> (kerror + unit) \<times> 's) option"

fun step_loop ::
  "(int \<Rightarrow> 's \<Rightarrow> (kerror + pyfloat \<times> int) \<times> 's) \<Rightarrow> int \<Rightarrow> nat \<Rightarrow> pyfloat \<times> int \<Rightarrow> 's
     \<Rightarrow> (kerror + pyfloat \<times> int) \<times> 's" where
  "step_loop step batch_size 0 result s = (Inr result, s)"
| "step_loop step batch_size (Suc n) (l, samples) s =
     (case step batch_size s of
        (Inl e, s') \<Rightarrow> (Inl e, s')
      | (Inr (loss, k), s') \<Rightarrow> step_loop step batch_size n (loss, samples + k) s')"

definition train_many :: "'s backend \<Rightarrow> int \<Rightarrow> int \<Rightarrow> 's \<Rightarrow> (kerror + pyfloat \<times> int) \<times> 's" where
  "train_many b batch_size steps s =
     (case bk_train_steps b of
        Some f \<Rightarrow> f batch_size steps s
      | None \<Rightarrow> step_loop (bk_train_step b) batch_size (nat steps) (Fin 0, 0) s)"

definition close_backend :: "'s backend \<Rightarrow> 's \<Rightarrow> (kerror + unit) \<times> 's" where
  "close_backend b s = (case bk_close_session b of Some f \<Rightarrow> f s | None \<Rightarrow> (Inr (), s))"

section \<open>Messages\<close>

definition protocol_version :: string where
  "protocol_version = ''kernelyra-worker/2''"

definition event :: "pyfloat \<Rightarrow> string \<Rightarrow> pydict \<Rightarrow> pyval" where
  "event now event_type payload =
     VDict [(''protocol'', VStr protocol_version), (''type'', VStr event_type), (''payload'', VDict payload),
            (''created_at'', VFloat now)]"

definition step_dict :: "pyfloat \<times> int \<Rightarrow> pydict" where
  "step_dict r = [(''loss'', VFloat (fst r)), (''samples'', VInt (snd r))]"

definition evaluation_dict :: "pyfloat \<times> pydict \<Rightarrow> pydict" where
  "evaluation_dict r = [(''score'', VFloat (fst r)), (''metrics'', VDict (snd r))]"

definition result_message :: "string \<Rightarrow> pydict \<Rightarrow> pyval list \<Rightarrow> pydict" where
  "result_message rid response events =
     [(''protocol'', VStr protocol_version), (''id'', VStr rid), (''type'', VStr ''result''),
      (''payload'', VDict response), (''events'', VList events)]"

definition error_message :: "string \<Rightarrow> string \<Rightarrow> string \<Rightarrow> pyval list \<Rightarrow> pydict" where
  "error_message rid class_name text events =
     [(''protocol'', VStr protocol_version), (''id'', VStr rid), (''type'', VStr ''error''),
      (''error_type'', VStr class_name), (''error'', VStr text), (''events'', VList events)]"

definition startup_error :: "string \<Rightarrow> string \<Rightarrow> string \<Rightarrow> pydict" where
  "startup_error token class_name text =
     [(''protocol'', VStr protocol_version), (''type'', VStr ''startup_error''), (''bootstrap_token'', VStr token),
      (''error_type'', VStr class_name), (''error'', VStr text), (''events'', VList [])]"

text \<open>\<open>int(x)\<close> on a value of a message.\<close>

definition to_int :: "pyval \<Rightarrow> kerror + int" where
  "to_int v = (case v of
      VInt n \<Rightarrow> Inr n
    | VBool x \<Rightarrow> Inr (if x then 1 else 0)
    | VFloat x \<Rightarrow> py_int x
    | VStr t \<Rightarrow> (case parse_int t of Some n \<Rightarrow> Inr n | None \<Rightarrow> Inl ValueError)
    | _ \<Rightarrow> Inl TypeError)"

text \<open>\<open>payload[key]\<close>, where \<open>payload\<close> is \<open>message.get("payload") or {}\<close>.\<close>

definition payload_of :: "pydict \<Rightarrow> pyval" where
  "payload_of m = (case dict_get ''payload'' m of Some v \<Rightarrow> if truthy v then v else VDict [] | None \<Rightarrow> VDict [])"

definition field :: "string \<Rightarrow> pyval \<Rightarrow> kerror + pyval" where
  "field key v = (case v of
      VDict d \<Rightarrow> (case dict_get key d of Some x \<Rightarrow> Inr x | None \<Rightarrow> Inl KeyError)
    | _ \<Rightarrow> Inl TypeError)"

text \<open>\<open>Path(x)\<close> of a POSIX path and its \<open>name\<close>.\<close>

definition to_path :: "pyval \<Rightarrow> kerror + string" where
  "to_path v = (case v of VStr s \<Rightarrow> Inr s | _ \<Rightarrow> Inl TypeError)"

text \<open>\<open>dict(x)\<close>; the parent sends an object.\<close>

definition to_dict :: "pyval \<Rightarrow> kerror + pydict" where
  "to_dict v = (case v of
      VDict d \<Rightarrow> Inr d
    | VList xs \<Rightarrow> if xs = [] then Inr [] else Inl TypeError
    | VStr t \<Rightarrow> if t = [] then Inr [] else Inl ValueError
    | _ \<Rightarrow> Inl TypeError)"

section \<open>The command loop\<close>

text \<open>What a command other than \<open>close\<close> computes: the response or the exception, the events appended
  so far, and the session.\<close>

definition run_step ::
  "pyfloat \<Rightarrow> 's backend \<Rightarrow> pyval \<Rightarrow> 's \<Rightarrow> (kerror + pydict) \<times> pyval list \<times> 's" where
  "run_step now b payload s =
     (case bind_result (field ''batch_size'' payload) to_int of
        Inl e \<Rightarrow> (Inl e, [], s)
      | Inr n \<Rightarrow> (case bk_train_step b n s of
            (Inl e, s') \<Rightarrow> (Inl e, [], s')
          | (Inr r, s') \<Rightarrow> (Inr (step_dict r), [event now ''progress'' (step_dict r)], s')))"

definition run_steps ::
  "pyfloat \<Rightarrow> 's backend \<Rightarrow> pyval \<Rightarrow> 's \<Rightarrow> (kerror + pydict) \<times> pyval list \<times> 's" where
  "run_steps now b payload s =
     (case bind_result (field ''steps'' payload) to_int of
        Inl e \<Rightarrow> (Inl e, [], s)
      | Inr n \<Rightarrow>
          let steps = max 1 (min 100 n)
          in case bind_result (field ''batch_size'' payload) to_int of
               Inl e \<Rightarrow> (Inl e, [], s)
             | Inr batch_size \<Rightarrow> (case train_many b batch_size steps s of
                   (Inl e, s') \<Rightarrow> (Inl e, [], s')
                 | (Inr r, s') \<Rightarrow>
                     let response = step_dict r @ [(''steps'', VInt steps)]
                     in (Inr response, [event now ''progress'' response], s')))"

definition run_evaluation ::
  "pyfloat \<Rightarrow> string \<Rightarrow> ('s \<Rightarrow> (kerror + pyfloat \<times> pydict) \<times> 's) \<Rightarrow> 's
     \<Rightarrow> (kerror + pydict) \<times> pyval list \<times> 's" where
  "run_evaluation now event_type evaluate s =
     (case evaluate s of
        (Inl e, s') \<Rightarrow> (Inl e, [], s')
      | (Inr r, s') \<Rightarrow> (Inr (evaluation_dict r), [event now event_type (evaluation_dict r)], s'))"

definition run_restore ::
  "pyfloat \<Rightarrow> 's backend \<Rightarrow> pyval \<Rightarrow> 's \<Rightarrow> (kerror + pydict) \<times> pyval list \<times> 's" where
  "run_restore now b payload s =
     (case bind_result (field ''path'' payload) to_path of
        Inl e \<Rightarrow> (Inl e, [], s)
      | Inr p \<Rightarrow> (case bk_restore b p s of
            (Inl e, s') \<Rightarrow> (Inl e, [], s')
          | (Inr _, s') \<Rightarrow> (Inr [(''restored'', VBool True)],
                [event now ''checkpoint.restored'' [(''path_name'', VStr (path_name p))]], s')))"

definition run_save ::
  "pyfloat \<Rightarrow> 's backend \<Rightarrow> pyval \<Rightarrow> 's \<Rightarrow> (kerror + pydict) \<times> pyval list \<times> 's" where
  "run_save now b payload s =
     (case bind_result (field ''path'' payload) to_path of
        Inl e \<Rightarrow> (Inl e, [], s)
      | Inr p \<Rightarrow> (case bind_result (field ''metadata'' payload) to_dict of
            Inl e \<Rightarrow> (Inl e, [], s)
          | Inr metadata \<Rightarrow> (case bk_save b p metadata s of
                (Inl e, s') \<Rightarrow> (Inl e, [], s')
              | (Inr _, s') \<Rightarrow> (Inr [(''saved'', VBool True)],
                    [event now ''checkpoint'' [(''path_name'', VStr (path_name p))]], s'))))"

definition perform ::
  "pyfloat \<Rightarrow> 's backend \<Rightarrow> pyval option \<Rightarrow> pyval \<Rightarrow> 's \<Rightarrow> (kerror + pydict) \<times> pyval list \<times> 's" where
  "perform now b command payload s =
     (if command = Some (VStr ''train_step'') then run_step now b payload s
      else if command = Some (VStr ''train_steps'') then run_steps now b payload s
      else if command = Some (VStr ''evaluate'') then run_evaluation now ''metrics'' (bk_evaluate b) s
      else if command = Some (VStr ''evaluate_test'') then run_evaluation now ''metrics.test'' (bk_evaluate_test b) s
      else if command = Some (VStr ''restore_checkpoint'') then run_restore now b payload s
      else if command = Some (VStr ''save_checkpoint'') then run_save now b payload s
      else (Inl WorkerProtocolError, [], s))"

text \<open>One turn of the loop: the replies written, the session, and whether the loop goes on, has
  closed, or is left with an exception. A reply that cannot be written raises inside the \<open>try\<close>;
  an error reply that cannot be written leaves the loop.\<close>

datatype loop_end = Serving | Closed | Escaped kerror

record child_env =
  ch_dumps :: "pyval \<Rightarrow> bytes"
  ch_show :: "pyval \<Rightarrow> string"
  ch_text :: "kerror \<Rightarrow> string"
  ch_pid :: int
  ch_token :: string

definition error_reply :: "child_env \<Rightarrow> string \<Rightarrow> kerror \<Rightarrow> pyval list \<Rightarrow> pydict list \<times> loop_end" where
  "error_reply env rid e events =
     (let m = error_message rid (hd (mro e)) (take 500 (ch_text env e)) events
      in case frame (ch_dumps env) m of Inl e' \<Rightarrow> ([], Escaped e') | Inr _ \<Rightarrow> ([m], Serving))"

definition request_id :: "child_env \<Rightarrow> pydict \<Rightarrow> string" where
  "request_id env m =
     (case dict_get ''id'' m of None \<Rightarrow> [] | Some (VStr s) \<Rightarrow> s | Some v \<Rightarrow> ch_show env v)"

definition serve_close :: "child_env \<Rightarrow> pyfloat \<Rightarrow> 's backend \<Rightarrow> string \<Rightarrow> 's \<Rightarrow> (pydict list \<times> loop_end) \<times> 's" where
  "serve_close env now b rid s =
     (case close_backend b s of
        (Inl e, s') \<Rightarrow> (error_reply env rid e [], s')
      | (Inr _, s') \<Rightarrow>
          (let m = result_message rid [(''closed'', VBool True)]
                     [event now ''worker.closed'' [(''pid'', VInt (ch_pid env))]]
           in case frame (ch_dumps env) m of
                Inl e \<Rightarrow> (error_reply env rid e [], s')
              | Inr _ \<Rightarrow> (([m], Closed), s')))"

definition serve_one :: "child_env \<Rightarrow> pyfloat \<Rightarrow> 's backend \<Rightarrow> pydict \<Rightarrow> 's \<Rightarrow> (pydict list \<times> loop_end) \<times> 's" where
  "serve_one env now b m s =
     (let rid = request_id env m; command = dict_get ''command'' m; payload = payload_of m
      in if dict_get ''protocol'' m \<noteq> Some (VStr protocol_version)
         then (let r = error_message rid ''WorkerProtocolError'' ''Incompatible worker protocol'' []
               in (case frame (ch_dumps env) r of Inl e \<Rightarrow> ([], Escaped e) | Inr _ \<Rightarrow> ([r], Serving)), s)
         else if command = Some (VStr ''close'') then serve_close env now b rid s
         else (case perform now b command payload s of
             (Inl e, events, s') \<Rightarrow> (error_reply env rid e events, s')
           | (Inr response, events, s') \<Rightarrow>
               (let r = result_message rid response events
                in case frame (ch_dumps env) r of
                     Inl e \<Rightarrow> (error_reply env rid e events, s')
                   | Inr _ \<Rightarrow> (([r], Serving), s'))))"

text \<open>The loop over the messages that arrive. An exception that leaves it is reported as a startup
  error, if that can be written, and the connection is closed.\<close>

definition last_words :: "child_env \<Rightarrow> kerror \<Rightarrow> pydict list" where
  "last_words env e =
     (let m = startup_error (ch_token env) (hd (mro e)) (take 500 (ch_text env e))
      in case frame (ch_dumps env) m of Inl _ \<Rightarrow> [] | Inr _ \<Rightarrow> [m])"

fun serve ::
  "child_env \<Rightarrow> 's backend \<Rightarrow> (pyfloat \<times> pydict) list \<Rightarrow> 's \<Rightarrow> (pydict list \<times> loop_end) \<times> 's" where
  "serve env b [] s = (([], Serving), s)"
| "serve env b ((now, m) # ms) s =
     (case serve_one env now b m s of
        ((replies, Serving), s') \<Rightarrow>
          (case serve env b ms s' of ((later, e), s'') \<Rightarrow> ((replies @ later, e), s''))
      | ((replies, Closed), s') \<Rightarrow> ((replies, Closed), s')
      | ((replies, Escaped e), s') \<Rightarrow> ((replies @ last_words env e, Escaped e), s'))"

section \<open>Start of the child\<close>

text \<open>\<open>create\<close> is the registry and \<open>create_session\<close>: a session with its metadata, a missing module, or
  another exception.\<close>

datatype create_error = MissingModule string | CreateFailed kerror

definition start_backend ::
  "pyfloat \<Rightarrow> bool \<Rightarrow> (string \<Rightarrow> create_error + 's \<times> pydict) \<Rightarrow> string
     \<Rightarrow> create_error + (string \<times> 's \<times> pydict \<times> pyval list)" where
  "start_backend now allow_numpy_fallback create backend_name =
     (case create backend_name of
        Inr (s, metadata) \<Rightarrow> Inr (backend_name, s, metadata, [])
      | Inl (CreateFailed e) \<Rightarrow> Inl (CreateFailed e)
      | Inl (MissingModule m) \<Rightarrow>
          if allow_numpy_fallback \<and> backend_name \<in> {''tensorflow'', ''torch''} \<and> m = backend_name
          then (case create ''numpy'' of
                  Inl e \<Rightarrow> Inl e
                | Inr (s, metadata) \<Rightarrow> Inr (''numpy'', s, metadata,
                    [event now ''log'' [(''level'', VStr ''warning''),
                       (''message'', VStr (backend_name @ '' unavailable; NumPy fallback selected''))]]))
          else Inl (MissingModule m))"

text \<open>What \<open>apply_child_limits\<close> enforced, and the note on a GPU memory limit.\<close>

record enforcement =
  en_backend :: pydict
  en_unsupported :: "string list"
  en_rest :: pydict

definition gpu_enforcement :: "int \<Rightarrow> string \<Rightarrow> enforcement \<Rightarrow> enforcement" where
  "gpu_enforcement gpu_memory_mb effective e =
     (if gpu_memory_mb = 0 then e
      else if effective \<in> {''tensorflow'', ''torch''}
      then e\<lparr>en_backend := dict_set ''gpu_memory'' (VStr (effective @ ''_configured'')) (en_backend e)\<rparr>
      else e\<lparr>en_backend := dict_set ''gpu_memory'' (VStr ''unsupported'') (en_backend e),
             en_unsupported := en_unsupported e @ [''gpu_memory_limit_for_backend'']\<rparr>)"

definition enforcement_dict :: "enforcement \<Rightarrow> pydict" where
  "enforcement_dict e = en_rest e @ [(''backend_enforced'', VDict (en_backend e)),
     (''unsupported'', VList (map VStr (en_unsupported e)))]"

definition ready_message ::
  "child_env \<Rightarrow> pyfloat \<Rightarrow> string \<Rightarrow> int \<Rightarrow> pydict \<Rightarrow> enforcement \<Rightarrow> pyval list \<Rightarrow> pydict" where
  "ready_message env now effective train_rows metadata enforced startup_events =
     [(''protocol'', VStr protocol_version), (''type'', VStr ''ready''), (''bootstrap_token'', VStr (ch_token env)),
      (''effective_backend'', VStr effective), (''pid'', VInt (ch_pid env)), (''train_records'', VInt train_rows),
      (''metadata'', VDict metadata), (''resource_enforcement'', VDict (enforcement_dict enforced)),
      (''events'', VList (startup_events @ [event now ''worker.ready'' [(''pid'', VInt (ch_pid env)),
         (''backend'', VStr effective)]]))]"

section \<open>The handle of the parent\<close>

record handle =
  wh_closed :: bool
  wh_alive :: bool
  wh_connected :: bool
  wh_forced :: bool
  wh_reason :: string
  wh_events :: "pyval list"
  wh_effective :: string
  wh_pid :: int
  wh_train_records :: int

text \<open>A process that ignores \<open>SIGTERM\<close> for two seconds is killed; \<open>SIGKILL\<close> ends it.\<close>

definition terminate_tree :: "string \<Rightarrow> handle \<Rightarrow> handle" where
  "terminate_tree reason h = h\<lparr>wh_forced := True, wh_reason := reason, wh_alive := False\<rparr>"

text \<open>What comes back on the socket: a message, a timeout, a broken connection or the end of the
  stream, or bytes that are no message.\<close>

datatype incoming = Arrived pydict | TimedOut | Broken | Garbled kerror

definition events_of :: "pydict \<Rightarrow> pyval list" where
  "events_of m = (case dict_get ''events'' m of Some (VList es) \<Rightarrow> es | _ \<Rightarrow> [])"

definition str_field :: "string \<Rightarrow> pydict \<Rightarrow> string option" where
  "str_field k m = (case dict_get k m of Some (VStr s) \<Rightarrow> Some s | _ \<Rightarrow> None)"

text \<open>The constructor once the child is started: \<open>inc\<close> is what the accepted connection brings. The
  three checks come in this order.\<close>

definition handshake :: "string \<Rightarrow> incoming \<Rightarrow> handle \<Rightarrow> (kerror + unit) \<times> handle" where
  "handshake token inc h =
     (case inc of
        TimedOut \<Rightarrow> (Inl WorkerTimeoutError, h\<lparr>wh_alive := False\<rparr>)
      | Broken \<Rightarrow> (Inl EOFError, h\<lparr>wh_alive := False\<rparr>)
      | Garbled e \<Rightarrow> (Inl e, h\<lparr>wh_alive := False\<rparr>)
      | Arrived m \<Rightarrow>
          if str_field ''bootstrap_token'' m \<noteq> Some token
          then (Inl WorkerProtocolError, terminate_tree ''bootstrap_auth_failed'' h)
          else if str_field ''protocol'' m \<noteq> Some protocol_version
          then (Inl WorkerProtocolError, terminate_tree ''protocol_mismatch'' h)
          else if str_field ''type'' m \<noteq> Some ''ready''
          then (Inl WorkerCrashedError, terminate_tree ''startup_error'' h)
          else case (dict_get ''effective_backend'' m, dict_get ''pid'' m, dict_get ''train_records'' m) of
               (Some (VStr effective), Some (VInt pid), Some (VInt n)) \<Rightarrow>
                 (Inr (), h\<lparr>wh_events := wh_events h @ events_of m, wh_effective := effective, wh_pid := pid,
                            wh_train_records := n\<rparr>)
             | _ \<Rightarrow> (Inl KeyError, h\<lparr>wh_events := wh_events h @ events_of m\<rparr>))"

text \<open>\<open>_request\<close>: \<open>expired\<close> is the heartbeat test, \<open>rid\<close> the fresh id, \<open>inc\<close> what comes back. A
  message that is too large or not finite raises before anything is sent.\<close>

definition request_message :: "string \<Rightarrow> string \<Rightarrow> pydict \<Rightarrow> pydict" where
  "request_message rid command payload =
     [(''protocol'', VStr protocol_version), (''id'', VStr rid), (''command'', VStr command),
      (''payload'', VDict payload)]"

definition payload_dict :: "pydict \<Rightarrow> pydict" where
  "payload_dict m = (case dict_get ''payload'' m of Some (VDict d) \<Rightarrow> d | _ \<Rightarrow> [])"

definition request ::
  "(pyval \<Rightarrow> bytes) \<Rightarrow> bool \<Rightarrow> string \<Rightarrow> string \<Rightarrow> pydict \<Rightarrow> incoming \<Rightarrow> handle \<Rightarrow> (kerror + pydict) \<times> handle" where
  "request dumps expired rid command payload inc h =
     (if wh_closed h \<or> \<not> wh_alive h then (Inl WorkerCrashedError, h)
      else if expired then (Inl WorkerTimeoutError, terminate_tree ''heartbeat_timeout'' h)
      else case frame dumps (request_message rid command payload) of
        Inl e \<Rightarrow> (Inl e, h)
      | Inr _ \<Rightarrow> (case inc of
            TimedOut \<Rightarrow> (Inl WorkerTimeoutError, terminate_tree (command @ ''_timeout'') h)
          | Broken \<Rightarrow> (Inl WorkerCrashedError, terminate_tree (command @ ''_ipc_failure'') h)
          | Garbled e \<Rightarrow> (Inl e, h)
          | Arrived m \<Rightarrow>
              let h1 = h\<lparr>wh_events := wh_events h @ events_of m\<rparr>
              in if str_field ''protocol'' m \<noteq> Some protocol_version \<or> str_field ''id'' m \<noteq> Some rid
                 then (Inl WorkerProtocolError, terminate_tree ''response_protocol_mismatch'' h1)
                 else if str_field ''type'' m = Some ''error'' then (Inl WorkerCrashedError, h1)
                 else (Inr (payload_dict m), h1)))"

text \<open>The calls of the parent. \<open>StepResult(**d)\<close> takes exactly its two fields, \<open>EvaluationResult(**d)\<close>
  has a default for the metrics.\<close>

definition step_of :: "pydict \<Rightarrow> kerror + pyval \<times> pyval" where
  "step_of d = (if set (dict_keys d) = {''loss'', ''samples''}
     then Inr (the (dict_get ''loss'' d), the (dict_get ''samples'' d)) else Inl TypeError)"

definition evaluation_of :: "pydict \<Rightarrow> kerror + pyval \<times> pyval" where
  "evaluation_of d =
     (if ''score'' \<in> set (dict_keys d) \<and> set (dict_keys d) \<subseteq> {''score'', ''metrics''}
      then Inr (the (dict_get ''score'' d), case dict_get ''metrics'' d of Some v \<Rightarrow> v | None \<Rightarrow> VDict [])
      else Inl TypeError)"

definition remote_train_step ::
  "(pyval \<Rightarrow> bytes) \<Rightarrow> bool \<Rightarrow> string \<Rightarrow> int \<Rightarrow> incoming \<Rightarrow> handle \<Rightarrow> (kerror + pyval \<times> pyval) \<times> handle" where
  "remote_train_step dumps expired rid batch_size inc h =
     (case request dumps expired rid ''train_step'' [(''batch_size'', VInt batch_size)] inc h of
        (r, h') \<Rightarrow> (bind_result r step_of, h'))"

definition remote_train_steps ::
  "(pyval \<Rightarrow> bytes) \<Rightarrow> bool \<Rightarrow> string \<Rightarrow> int \<Rightarrow> int \<Rightarrow> incoming \<Rightarrow> handle \<Rightarrow> (kerror + pyval \<times> pyval) \<times> handle" where
  "remote_train_steps dumps expired rid batch_size steps inc h =
     (case request dumps expired rid ''train_steps'' [(''batch_size'', VInt batch_size), (''steps'', VInt steps)] inc h of
        (Inl e, h') \<Rightarrow> (Inl e, h')
      | (Inr p, h') \<Rightarrow>
          (case (case dict_get ''steps'' p of Some v \<Rightarrow> to_int v | None \<Rightarrow> Inr 0) of
             Inl e \<Rightarrow> (Inl e, h')
           | Inr n \<Rightarrow> if n \<noteq> steps then (Inl WorkerProtocolError, terminate_tree ''train_steps_count_mismatch'' h')
                     else (step_of (dict_del ''steps'' p), h')))"

definition remote_evaluate ::
  "(pyval \<Rightarrow> bytes) \<Rightarrow> bool \<Rightarrow> string \<Rightarrow> string \<Rightarrow> incoming \<Rightarrow> handle \<Rightarrow> (kerror + pyval \<times> pyval) \<times> handle" where
  "remote_evaluate dumps expired rid command inc h =
     (case request dumps expired rid command [] inc h of (r, h') \<Rightarrow> (bind_result r evaluation_of, h'))"

definition remote_restore ::
  "(pyval \<Rightarrow> bytes) \<Rightarrow> bool \<Rightarrow> string \<Rightarrow> string \<Rightarrow> incoming \<Rightarrow> handle \<Rightarrow> (kerror + unit) \<times> handle" where
  "remote_restore dumps expired rid path inc h =
     (case request dumps expired rid ''restore_checkpoint'' [(''path'', VStr path)] inc h of
        (r, h') \<Rightarrow> (bind_result r (\<lambda>_. Inr ()), h'))"

definition remote_save ::
  "(pyval \<Rightarrow> bytes) \<Rightarrow> bool \<Rightarrow> string \<Rightarrow> string \<Rightarrow> pydict \<Rightarrow> incoming \<Rightarrow> handle \<Rightarrow> (kerror + unit) \<times> handle" where
  "remote_save dumps expired rid path metadata inc h =
     (case request dumps expired rid ''save_checkpoint'' [(''path'', VStr path), (''metadata'', VDict metadata)] inc h of
        (r, h') \<Rightarrow> (bind_result r (\<lambda>_. Inr ()), h'))"

definition drain_events :: "handle \<Rightarrow> pyval list \<times> handle" where
  "drain_events h = (take 256 (wh_events h), h\<lparr>wh_events := drop 256 (wh_events h)\<rparr>)"

text \<open>\<open>exits\<close>: the child ends by itself within the close timeout after it confirmed.\<close>

definition close_handle ::
  "(pyval \<Rightarrow> bytes) \<Rightarrow> bool \<Rightarrow> string \<Rightarrow> incoming \<Rightarrow> bool \<Rightarrow> handle \<Rightarrow> (kerror + unit) \<times> handle" where
  "close_handle dumps expired rid inc exits h =
     (if wh_closed h then (Inr (), h)
      else
        let (r, h1) =
          (if \<not> wh_alive h then (Inr (), h)
           else case request dumps expired rid ''close'' [] inc h of
             (Inr _, h') \<Rightarrow>
               (let h2 = h'\<lparr>wh_reason := ''cooperative'', wh_alive := wh_alive h' \<and> \<not> exits\<rparr>
                in (Inr (), if wh_alive h2 then terminate_tree ''close_timeout'' h2 else h2))
           | (Inl e, h') \<Rightarrow>
               if e \<in> {WorkerCrashedError, WorkerTimeoutError, EOFError}
               then (Inr (), if wh_alive h' then terminate_tree ''close_failure'' h' else h')
               else (Inl e, h'))
        in (r, h1\<lparr>wh_closed := True, wh_connected := False\<rparr>))"

section \<open>The child and the parent together\<close>

text \<open>What the socket brings the parent after one turn of the child.\<close>

definition reply_of :: "child_env \<Rightarrow> pydict list \<times> loop_end \<Rightarrow> incoming" where
  "reply_of env r =
     (case fst r @ (case snd r of Escaped e \<Rightarrow> last_words env e | _ \<Rightarrow> []) of m # _ \<Rightarrow> Arrived m | [] \<Rightarrow> Broken)"

definition call_train_steps ::
  "child_env \<Rightarrow> pyfloat \<Rightarrow> 's backend \<Rightarrow> string \<Rightarrow> int \<Rightarrow> int \<Rightarrow> 's \<Rightarrow> handle
     \<Rightarrow> ((kerror + pyval \<times> pyval) \<times> handle) \<times> 's" where
  "call_train_steps env now b rid batch_size steps s h =
     (let m = request_message rid ''train_steps'' [(''batch_size'', VInt batch_size), (''steps'', VInt steps)];
          (r, s') = serve_one env now b m s
      in (remote_train_steps (ch_dumps env) False rid batch_size steps (reply_of env r) h, s'))"

definition fits :: "child_env \<Rightarrow> pydict \<Rightarrow> bool" where
  "fits env m \<longleftrightarrow> length (ch_dumps env (VDict m)) \<le> max_ipc_bytes"

lemma frame_fits: "all_finite_items m \<Longrightarrow> fits env m \<Longrightarrow> \<exists>bs. frame (ch_dumps env) m = Inr bs"
  by (simp add: frame_def fits_def Let_def)

lemma frame_non_finite: "\<not> all_finite_items m \<Longrightarrow> frame dumps m = Inl ValueError"
  by (simp add: frame_def)

lemma request_fields [simp]:
  "dict_get ''protocol'' (request_message rid c p) = Some (VStr protocol_version)"
  "dict_get ''id'' (request_message rid c p) = Some (VStr rid)"
  "dict_get ''command'' (request_message rid c p) = Some (VStr c)"
  "dict_get ''payload'' (request_message rid c p) = Some (VDict p)"
  by (simp_all add: request_message_def dict_get_def)

lemma result_fields [simp]:
  "str_field ''protocol'' (result_message rid p es) = Some protocol_version"
  "str_field ''id'' (result_message rid p es) = Some rid"
  "str_field ''type'' (result_message rid p es) = Some ''result''"
  "payload_dict (result_message rid p es) = p" "events_of (result_message rid p es) = es"
  by (simp_all add: result_message_def str_field_def payload_dict_def events_of_def dict_get_def)

lemma error_fields [simp]:
  "str_field ''protocol'' (error_message rid c t es) = Some protocol_version"
  "str_field ''id'' (error_message rid c t es) = Some rid"
  "str_field ''type'' (error_message rid c t es) = Some ''error''"
  "events_of (error_message rid c t es) = es"
  by (simp_all add: error_message_def str_field_def events_of_def dict_get_def)

lemma startup_fields [simp]:
  "str_field ''id'' (startup_error token c t) = None" "events_of (startup_error token c t) = []"
  by (simp_all add: startup_error_def str_field_def events_of_def dict_get_def)

lemma finite_messages [simp]:
  "all_finite_items (startup_error token c t)"
  "all_finite_items (error_message rid c t es) = all_finite_elems es"
  "all_finite_items (result_message rid p es) = (all_finite_items p \<and> all_finite_elems es)"
  "all_finite_items (request_message rid c p) = all_finite_items p"
  "all_finite (event now y p) = (isfinite now \<and> all_finite_items p)"
  by (auto simp: startup_error_def error_message_def result_message_def request_message_def event_def)

definition steps_message :: "string \<Rightarrow> int \<Rightarrow> int \<Rightarrow> pydict" where
  "steps_message rid batch_size steps =
     request_message rid ''train_steps'' [(''batch_size'', VInt batch_size), (''steps'', VInt steps)]"

lemma perform_train_steps:
  "perform now b (dict_get ''command'' (steps_message rid n k)) (payload_of (steps_message rid n k)) s =
     (case train_many b n (max 1 (min 100 k)) s of
        (Inl e, s') \<Rightarrow> (Inl e, [], s')
      | (Inr r, s') \<Rightarrow>
          let response = step_dict r @ [(''steps'', VInt (max 1 (min 100 k)))]
          in (Inr response, [event now ''progress'' response], s'))"
  by (simp add: perform_def steps_message_def payload_of_def run_steps_def field_def dict_get_def [of "''steps''"]
      dict_get_def [of "''batch_size''"] to_int_def Let_def)

definition steps_response :: "pyfloat \<times> int \<Rightarrow> int \<Rightarrow> pydict" where
  "steps_response r steps = step_dict r @ [(''steps'', VInt steps)]"

lemma steps_response_finite [simp]: "all_finite_items (steps_response r k) = isfinite (fst r)"
  by (simp add: steps_response_def step_dict_def)

lemma serve_train_steps:
  "serve_one env now b (steps_message rid n k) s =
     (case train_many b n (max 1 (min 100 k)) s of
        (Inl e, s') \<Rightarrow> (error_reply env rid e [], s')
      | (Inr r, s') \<Rightarrow>
          (let d = steps_response r (max 1 (min 100 k));
               m = result_message rid d [event now ''progress'' d]
           in case frame (ch_dumps env) m of
                Inl e \<Rightarrow> (error_reply env rid e [event now ''progress'' d], s')
              | Inr _ \<Rightarrow> (([m], Serving), s')))"
proof -
  have "request_id env (steps_message rid n k) = rid" by (simp add: request_id_def steps_message_def)
  moreover have "dict_get ''command'' (steps_message rid n k) = Some (VStr ''train_steps'')"
    "dict_get ''protocol'' (steps_message rid n k) = Some (VStr protocol_version)"
    by (simp_all add: steps_message_def)
  ultimately show ?thesis
    using perform_train_steps [of now b rid n k s]
    by (simp add: serve_one_def Let_def steps_response_def split: prod.split sum.split)
qed

lemma call_train_steps_eq:
  assumes "wh_alive h" and "\<not> wh_closed h" and "fits env (steps_message rid n k)"
  shows "call_train_steps env now b rid n k s h =
    (let (r, s') = serve_one env now b (steps_message rid n k) s in
     (case reply_of env r of
        TimedOut \<Rightarrow> (Inl WorkerTimeoutError, terminate_tree ''train_steps_timeout'' h)
      | Broken \<Rightarrow> (Inl WorkerCrashedError, terminate_tree ''train_steps_ipc_failure'' h)
      | Garbled e \<Rightarrow> (Inl e, h)
      | Arrived m \<Rightarrow>
          let h1 = h\<lparr>wh_events := wh_events h @ events_of m\<rparr> in
          if str_field ''protocol'' m \<noteq> Some protocol_version \<or> str_field ''id'' m \<noteq> Some rid
          then (Inl WorkerProtocolError, terminate_tree ''response_protocol_mismatch'' h1)
          else if str_field ''type'' m = Some ''error'' then (Inl WorkerCrashedError, h1)
          else case (case dict_get ''steps'' (payload_dict m) of Some v \<Rightarrow> to_int v | None \<Rightarrow> Inr 0) of
             Inl e \<Rightarrow> (Inl e, h1)
           | Inr j \<Rightarrow> if j \<noteq> k then (Inl WorkerProtocolError, terminate_tree ''train_steps_count_mismatch'' h1)
                     else (step_of (dict_del ''steps'' (payload_dict m)), h1), s'))"
proof -
  have "all_finite_items (steps_message rid n k)" by (simp add: steps_message_def)
  with assms(3) obtain bs where "frame (ch_dumps env) (steps_message rid n k) = Inr bs" using frame_fits by blast
  then show ?thesis using assms(1,2)
    by (simp add: call_train_steps_def steps_message_def [symmetric] remote_train_steps_def request_def Let_def
        split: prod.split incoming.split)
qed

lemma steps_response_fields [simp]:
  "dict_get ''steps'' (steps_response r k) = Some (VInt k)"
  "step_of (dict_del ''steps'' (steps_response r k)) = Inr (VFloat (fst r), VInt (snd r))"
  by (simp_all add: steps_response_def step_dict_def dict_get_def dict_del_def step_of_def dict_keys_def insert_commute)


text \<open>A loss that is not finite never reaches the caller: no JSON carries it, neither the result nor
  the error report with its events, so the child leaves its loop and the parent ends the process for a
  protocol violation.\<close>

theorem non_finite_loss_kills_worker:
  assumes "wh_alive h" and "\<not> wh_closed h" and "1 \<le> k" and "k \<le> 100"
    and "train_many b n k s = (Inr r, s')" and "\<not> isfinite (fst r)"
    and "fits env (steps_message rid n k)"
    and "fits env (startup_error (ch_token env) ''ValueError'' (take 500 (ch_text env ValueError)))"
  shows "call_train_steps env now b rid n k s h =
    ((Inl WorkerProtocolError, terminate_tree ''response_protocol_mismatch'' h), s')"
proof -
  have k: "max 1 (min 100 k) = k" using assms(3,4) by simp
  obtain bs where "frame (ch_dumps env) (startup_error (ch_token env) ''ValueError'' (take 500 (ch_text env ValueError))) = Inr bs"
    using frame_fits [OF _ assms(8)] by auto
  then show ?thesis
    using assms(5,6) by (simp add: call_train_steps_eq [OF assms(1,2,7)] serve_train_steps k error_reply_def
        frame_non_finite reply_of_def last_words_def Let_def)
qed

text \<open>A backend whose session counts steps; its loss is the one it is given.\<close>

definition demo_backend :: "pyfloat \<Rightarrow> int backend" where
  "demo_backend l = \<lparr>bk_train_step = \<lambda>n s. (Inr (l, n), s + 1), bk_train_steps = None,
     bk_evaluate = \<lambda>s. (Inr (Fin 1, []), s), bk_evaluate_test = \<lambda>s. (Inr (Fin 1, []), s),
     bk_restore = \<lambda>_ s. (Inr (), s), bk_save = \<lambda>_ _ s. (Inr (), s), bk_close_session = None\<rparr>"

definition demo_child :: child_env where
  "demo_child = \<lparr>ch_dumps = \<lambda>_. [1, 2], ch_show = \<lambda>_. [], ch_text = \<lambda>_. ''not finite'', ch_pid = 7,
     ch_token = ''secret''\<rparr>"

definition demo_handle :: handle where
  "demo_handle = \<lparr>wh_closed = False, wh_alive = True, wh_connected = True, wh_forced = False,
     wh_reason = ''not_closed'', wh_events = [], wh_effective = ''numpy'', wh_pid = 7, wh_train_records = 100\<rparr>"

lemma demo_fits [simp]: "fits demo_child m"
  by (simp add: fits_def demo_child_def max_ipc_bytes_def)

lemma demo_train [simp]: "train_many (demo_backend l) 8 3 s = (Inr (l, 24), s + 3)"
  by (simp add: train_many_def demo_backend_def numeral_3_eq_3)


theorem non_finite_loss_kills_worker_witness:
  "call_train_steps demo_child (Fin 0) (demo_backend NaN) ''r'' 8 3 0 demo_handle
   = ((Inl WorkerProtocolError, terminate_tree ''response_protocol_mismatch'' demo_handle), 3)"
proof -
  have "train_many (demo_backend NaN) 8 3 0 = (Inr (NaN, 24), 3)" using demo_train [of NaN 0] by simp
  then show ?thesis by (rule non_finite_loss_kills_worker [rotated 4]) (simp_all add: demo_handle_def)
qed

section \<open>What a request leaves behind\<close>

lemma terminate_fields [simp]:
  "wh_alive (terminate_tree r h) = False" "wh_forced (terminate_tree r h) = True"
  "wh_reason (terminate_tree r h) = r" "wh_closed (terminate_tree r h) = wh_closed h"
  "wh_events (terminate_tree r h) = wh_events h" "wh_connected (terminate_tree r h) = wh_connected h"
  by (simp_all add: terminate_tree_def)

text \<open>A request returns a payload only when the reply carries its own id and the protocol version,
  and then the process is untouched. When it raises and the process is still in service, the reason is
  an error report of the child, an answer that is no message, or a request that could not be sent; a
  timeout, a lost connection, a missed heartbeat and a foreign reply all end the process.\<close>

theorem request_contract:
  assumes "request dumps expired rid command payload inc h = (r, h')" and "wh_alive h" and "\<not> wh_closed h"
  shows "(\<forall>p. r = Inr p \<longrightarrow> wh_alive h' \<and> wh_forced h' = wh_forced h \<and>
       (\<exists>m. inc = Arrived m \<and> str_field ''id'' m = Some rid \<and> str_field ''protocol'' m = Some protocol_version
            \<and> p = payload_dict m))
    \<and> (\<forall>e. r = Inl e \<and> wh_alive h' \<longrightarrow>
         (\<exists>m. inc = Arrived m \<and> str_field ''id'' m = Some rid \<and> str_field ''type'' m = Some ''error'' \<and> e = WorkerCrashedError)
         \<or> inc = Garbled e \<or> frame dumps (request_message rid command payload) = Inl e)
    \<and> (\<not> wh_alive h' \<longrightarrow> wh_forced h' \<and> r \<in> {Inl WorkerTimeoutError, Inl WorkerCrashedError, Inl WorkerProtocolError})
    \<and> (\<exists>es. wh_events h' = wh_events h @ es)"
  using assms by (auto simp: request_def Let_def split: if_splits sum.splits incoming.splits)

theorem request_contract_witness:
  "snd (request (\<lambda>_. [1]) False ''r'' ''evaluate'' [] (Arrived (result_message ''other'' [] [])) demo_handle)
     = terminate_tree ''response_protocol_mismatch'' demo_handle
   \<and> (\<exists>es. wh_events (snd (request (\<lambda>_. [1]) False ''r'' ''evaluate'' [] (Arrived (result_message ''other'' [] [])) demo_handle))
         = wh_events demo_handle @ es)"
proof
  show "snd (request (\<lambda>_. [1]) False ''r'' ''evaluate'' [] (Arrived (result_message ''other'' [] [])) demo_handle)
      = terminate_tree ''response_protocol_mismatch'' demo_handle"
    by (simp add: request_def frame_def demo_handle_def max_ipc_bytes_def Let_def)
  have "wh_alive demo_handle" "\<not> wh_closed demo_handle" by (simp_all add: demo_handle_def)
  from request_contract [OF prod.collapse [symmetric] this]
  show "\<exists>es. wh_events (snd (request (\<lambda>_. [1]) False ''r'' ''evaluate'' [] (Arrived (result_message ''other'' [] [])) demo_handle))
      = wh_events demo_handle @ es" by blast
qed

lemma request_closed: "request dumps expired rid command payload inc h = (r, h') \<Longrightarrow> wh_closed h' = wh_closed h"
  by (auto simp: request_def Let_def split: if_splits sum.splits incoming.splits)

text \<open>Closing always closes: the handle is closed and its connection gone whatever happens, no
  request is accepted any more, a second close does nothing, and the process has ended, unless the
  answer to the close request was no message at all, which is the one exception close passes on with
  the process left alone.\<close>

theorem close_always_closes:
  assumes "close_handle dumps expired rid inc exits h = (r, h')"
    and "frame dumps (request_message rid ''close'' []) = Inr bs"
  shows "(\<not> wh_closed h \<longrightarrow> wh_closed h' \<and> \<not> wh_connected h' \<and>
        (wh_alive h' \<longrightarrow> (\<exists>e. inc = Garbled e \<and> r = Inl e)))
    \<and> (wh_closed h' \<longrightarrow> close_handle dumps expired' rid' inc' exits' h' = (Inr (), h') \<and>
        request dumps expired' rid' command payload inc' h' = (Inl WorkerCrashedError, h'))"
  using assms
  by (auto simp: close_handle_def request_def Let_def split: if_splits sum.splits incoming.splits)

theorem close_always_closes_witness:
  "wh_closed (snd (close_handle (\<lambda>_. [1]) False ''r'' TimedOut False demo_handle))
   \<and> \<not> wh_alive (snd (close_handle (\<lambda>_. [1]) False ''r'' TimedOut False demo_handle))"
proof -
  have "frame (\<lambda>_. [1]) (request_message ''r'' ''close'' []) = Inr (pack_length 1 @ [1])"
    by (simp add: frame_def max_ipc_bytes_def)
  from close_always_closes [OF prod.collapse [symmetric] this, where expired = False and inc = TimedOut and exits = False and h = demo_handle]
  show ?thesis by (auto simp: demo_handle_def)
qed

section \<open>What the child answers\<close>

definition answers :: "child_env \<Rightarrow> pydict \<Rightarrow> pydict \<Rightarrow> bool" where
  "answers env m r \<longleftrightarrow> str_field ''id'' r = Some (request_id env m) \<and> str_field ''protocol'' r = Some protocol_version
     \<and> str_field ''type'' r \<in> {Some ''result'', Some ''error''}"

lemma answers_messages [simp]:
  "answers env m (result_message (request_id env m) p es)" "answers env m (error_message (request_id env m) c t es)"
  by (simp_all add: answers_def)

lemma error_reply_cases:
  "error_reply env (request_id env m) e es = (replies, z) \<Longrightarrow>
     (\<exists>r. replies = [r] \<and> answers env m r \<and> z = Serving) \<or> (\<exists>x. replies = [] \<and> z = Escaped x)"
  by (auto simp: error_reply_def Let_def split: sum.splits)

definition one_answer :: "child_env \<Rightarrow> pydict \<Rightarrow> pydict list \<Rightarrow> loop_end \<Rightarrow> bool" where
  "one_answer env m replies z \<longleftrightarrow>
     (\<exists>r. replies = [r] \<and> answers env m r \<and>
        (z = Serving \<or> z = Closed \<and> dict_get ''command'' m = Some (VStr ''close''))) \<or>
     (\<exists>x. replies = [] \<and> z = Escaped x)"

lemma error_reply_one: "error_reply env (request_id env m) e es = (replies, z) \<Longrightarrow> one_answer env m replies z"
  using error_reply_cases [of env m e es replies z] by (auto simp: one_answer_def)

lemma serve_close_one:
  "serve_close env now b (request_id env m) s = ((replies, z), s') \<Longrightarrow> dict_get ''command'' m = Some (VStr ''close'') \<Longrightarrow>
     one_answer env m replies z"
  by (auto simp: serve_close_def Let_def one_answer_def split: sum.splits prod.splits dest!: error_reply_cases)

lemma serve_one_answers:
  assumes "serve_one env now b m s = ((replies, z), s')" shows "one_answer env m replies z"
proof -
  consider (protocol) "dict_get ''protocol'' m \<noteq> Some (VStr protocol_version)"
    | (closing) "dict_get ''protocol'' m = Some (VStr protocol_version)" "dict_get ''command'' m = Some (VStr ''close'')"
    | (other) "dict_get ''protocol'' m = Some (VStr protocol_version)" "dict_get ''command'' m \<noteq> Some (VStr ''close'')"
    by blast
  then show ?thesis
  proof cases
    case protocol
    with assms show ?thesis by (auto simp: serve_one_def Let_def one_answer_def split: sum.splits)
  next
    case closing
    with assms have "serve_close env now b (request_id env m) s = ((replies, z), s')" by (simp add: serve_one_def Let_def)
    then show ?thesis using closing(2) by (rule serve_close_one)
  next
    case other
    obtain r es t where p: "perform now b (dict_get ''command'' m) (payload_of m) s = (r, es, t)" by (metis prod_cases3)
    have "(case r of Inl e \<Rightarrow> (error_reply env (request_id env m) e es, t)
        | Inr response \<Rightarrow> (case frame (ch_dumps env) (result_message (request_id env m) response es) of
              Inl e \<Rightarrow> (error_reply env (request_id env m) e es, t)
            | Inr _ \<Rightarrow> (([result_message (request_id env m) response es], Serving), t))) = ((replies, z), s')"
      using assms other p by (cases r) (simp_all add: serve_one_def Let_def)
    then show ?thesis
      by (auto simp: one_answer_def split: sum.splits dest!: error_reply_cases)
  qed
qed

text \<open>The child answers every message it takes, once, in order and under the id of the message, with
  a result or an error; it stops taking messages only after it has confirmed a close command, or when
  an answer cannot be written, which it reports without an id.\<close>

theorem serve_answers_in_order:
  assumes "serve env b ms s = ((replies, z), s')"
  shows "\<exists>k \<le> length ms. list_all2 (\<lambda>(_, m) r. answers env m r) (take k ms) (take k replies) \<and>
    (case z of
       Serving \<Rightarrow> k = length ms \<and> length replies = k
     | Closed \<Rightarrow> length replies = k \<and> (\<exists>j. k = Suc j \<and> dict_get ''command'' (snd (ms ! j)) = Some (VStr ''close''))
     | Escaped x \<Rightarrow> k < length ms \<and> drop k replies = last_words env x)"
  using assms
proof (induction ms arbitrary: s replies)
  case (Cons a ms)
  obtain now m where a: "a = (now, m)" by (cases a)
  obtain rs y t where one: "serve_one env now b m s = ((rs, y), t)" by (metis prod.collapse)
  note cases = serve_one_answers [OF one]
  show ?case
  proof (cases y)
    case Serving
    with cases obtain r where r: "rs = [r]" "answers env m r" by (auto simp: one_answer_def)
    obtain more' z' t' where more: "serve env b ms t = ((more', z'), t')" by (metis prod.collapse)
    with Cons.prems a one Serving r have eq: "replies = r # more'" "z' = z" "t' = s'" by auto
    obtain k where k: "k \<le> length ms" "list_all2 (\<lambda>(_, m) r. answers env m r) (take k ms) (take k more')"
      "case z of Serving \<Rightarrow> k = length ms \<and> length more' = k
       | Closed \<Rightarrow> length more' = k \<and> (\<exists>j. k = Suc j \<and> dict_get ''command'' (snd (ms ! j)) = Some (VStr ''close''))
       | Escaped x \<Rightarrow> k < length ms \<and> drop k more' = last_words env x"
      using Cons.IH [of t more'] more eq by auto
    show ?thesis
      by (rule exI [of _ "Suc k"]) (use k r a eq(1) in \<open>auto split: loop_end.splits\<close>)
  next
    case Closed
    with cases obtain r where r: "rs = [r]" "answers env m r" "dict_get ''command'' m = Some (VStr ''close'')"
      by (auto simp: one_answer_def)
    with Cons.prems a one Closed show ?thesis by (intro exI [of _ 1]) auto
  next
    case (Escaped x)
    with cases have "rs = []" by (auto simp: one_answer_def)
    with Cons.prems a one Escaped show ?thesis by (intro exI [of _ 0]) auto
  qed
qed simp

definition demo_messages :: "(pyfloat \<times> pydict) list" where
  "demo_messages = [(Fin 0, steps_message ''a'' 8 3), (Fin 1, request_message ''b'' ''close'' [])]"

lemma demo_serve: "\<exists>rs. serve demo_child (demo_backend (Fin 2)) demo_messages 0 = ((rs, Closed), 3) \<and> length rs = 2"
proof -
  have f: "\<exists>bs. frame (ch_dumps demo_child) m = Inr bs" if "all_finite_items m" for m
    using frame_fits [OF that demo_fits] .
  obtain b1 where b1: "frame (ch_dumps demo_child) (result_message ''a'' (steps_response (Fin 2, 24) 3)
      [event (Fin 0) ''progress'' (steps_response (Fin 2, 24) 3)]) = Inr b1"
    using f by fastforce
  obtain b2 where b2: "frame (ch_dumps demo_child) (result_message ''b'' [(''closed'', VBool True)]
      [event (Fin 1) ''worker.closed'' [(''pid'', VInt (ch_pid demo_child))]]) = Inr b2"
    using f by fastforce
  have "serve_one demo_child (Fin 1) (demo_backend (Fin 2)) (request_message ''b'' ''close'' []) 3
      = (([result_message ''b'' [(''closed'', VBool True)]
          [event (Fin 1) ''worker.closed'' [(''pid'', VInt (ch_pid demo_child))]]], Closed), 3)"
    using b2 by (simp add: serve_one_def request_id_def serve_close_def close_backend_def demo_backend_def)
  then show ?thesis
    using b1 by (simp add: demo_messages_def serve_train_steps Let_def)
qed

theorem serve_answers_in_order_witness:
  "\<exists>rs. serve demo_child (demo_backend (Fin 2)) demo_messages 0 = ((rs, Closed), 3) \<and>
     list_all2 (\<lambda>(_, m) r. answers demo_child m r) demo_messages rs"
proof -
  obtain rs where rs: "serve demo_child (demo_backend (Fin 2)) demo_messages 0 = ((rs, Closed), 3)" "length rs = 2"
    using demo_serve by blast
  moreover have "length demo_messages = 2" by (simp add: demo_messages_def)
  ultimately show ?thesis
    using serve_answers_in_order [OF rs(1)] by (intro exI [of _ rs]) auto
qed

end
