(* ===== verification/TrainSetup.thy ===== *)
theory TrainSetup imports TrainLoop Tuning Worker begin

text \<open>
  How a worker thread prepares and ends its training: \<open>_train\<close>, \<open>_capture_finetune_baseline\<close>,
  \<open>_execute_worker\<close> and \<open>_record_worker_events\<close> of \<open>src/src/kernelyra/runtime.py\<close>, around the loop of
  \<open>TrainLoop\<close>. The lookups, the arrays and the worker process are inputs; the digest of the JSON
  text of a configuration is a parameter.
\<close>

section \<open>Configuration\<close>

record setup_env =
  su_hash :: "pydict \<Rightarrow> string"
  su_show :: "pyval \<Rightarrow> string"
  su_packs :: table_file
  su_hw :: hardware
  su_vram :: "pyfloat list"
  su_python :: string
  su_platform :: string
  su_now :: rat

definition streaming_spec :: "dataset_info \<Rightarrow> pyval option" where
  "streaming_spec d = (case dict_get ''streaming'' (d_manifest d) of
      Some v \<Rightarrow> if truthy v then Some v else None | None \<Rightarrow> None)"

definition split_strategy :: "run_info \<Rightarrow> pyval" where
  "split_strategy r =
     (case dict_get ''execution_strategy'' (r_split_policy r) of Some v \<Rightarrow> v
      | None \<Rightarrow> (case dict_get ''strategy'' (r_split_policy r) of Some v \<Rightarrow> v | None \<Rightarrow> VStr ''random''))"

definition config_payload :: "run_info \<Rightarrow> dataset_info \<Rightarrow> pydict" where
  "config_payload r d =
     [(''dataset_hash'', VStr (d_sha256 d)), (''backend'', VStr (r_backend r)), (''task_type'', VStr (r_objective r)),
      (''architecture'', VStr (r_architecture r)), (''model_format'', VStr (r_model_format r)),
      (''profile'', VStr (r_profile r)), (''execution'', VStr (r_execution r)),
      (''algorithm_pack'', VStr (r_algorithm_pack r)), (''threads'', VInt (r_threads r)), (''seed'', VInt (r_seed r)),
      (''features'', VInt (d_features d)), (''streaming'', VBool (streaming_spec d \<noteq> None)),
      (''data_contract_signature'', case dict_get ''signature'' (r_data_contract r) of Some v \<Rightarrow> v | None \<Rightarrow> VNone),
      (''split_strategy'', split_strategy r)]"

definition config_hash :: "setup_env \<Rightarrow> run_info \<Rightarrow> dataset_info \<Rightarrow> string" where
  "config_hash env r d = su_hash env (config_payload r d)"

definition checkpoint_metadata :: "setup_env \<Rightarrow> run_info \<Rightarrow> dataset_info \<Rightarrow> pydict" where
  "checkpoint_metadata env r d =
     [(''run_id'', VStr (r_id r)), (''dataset_hash'', VStr (d_sha256 d)), (''config_hash'', VStr (config_hash env r d)),
      (''backend'', VStr (engine r)), (''task_type'', VStr (r_objective r)), (''architecture'', VStr (r_architecture r)),
      (''model_format'', VStr (r_model_format r)), (''worker_protocol'', VStr protocol_version)]"

text \<open>The checkpoint training starts from: the run's own best one, else the one of the run it is based on.\<close>

definition source_checkpoint :: "string \<Rightarrow> run_info \<Rightarrow> files \<Rightarrow> path option" where
  "source_checkpoint dir r fs =
     (if dict_get (p_name (best_path dir (r_id r))) fs \<noteq> None then Some (best_path dir (r_id r))
      else case r_base_run_id r of Some b \<Rightarrow> if b = [] then None else Some (best_path dir b) | None \<Rightarrow> None)"

definition resume_expected :: "setup_env \<Rightarrow> run_info \<Rightarrow> dataset_info \<Rightarrow> pydict" where
  "resume_expected env r d =
     [(''dataset_hash'', VStr (d_sha256 d)), (''config_hash'', VStr (config_hash env r d)),
      (''task_type'', VStr (r_objective r)), (''backend'', VStr (engine r))]"

section \<open>Resources\<close>

definition total_memory :: "setup_env \<Rightarrow> kerror + int" where
  "total_memory env =
     (let ram = hw_ram_gb (su_hw env) in py_int (fmul (if ram = Fin 0 then Fin 8 else ram) (Fin (1024 ^ 3))))"

fun gpu_megabytes :: "pyfloat list \<Rightarrow> kerror + int list" where
  "gpu_megabytes [] = Inr []"
| "gpu_megabytes (v # vs) =
     bind_result (py_int (fmul v (Fin 1024))) (\<lambda>n. bind_result (gpu_megabytes vs) (\<lambda>ns. Inr (n # ns)))"

definition gpu_memory :: "setup_env \<Rightarrow> kerror + int" where
  "gpu_memory env = bind_result (gpu_megabytes (su_vram env)) (\<lambda>ns. Inr (if ns = [] then 0 else Max (set ns)))"

text \<open>\<open>int(total * percent / 100)\<close>.\<close>

definition share_of :: "int \<Rightarrow> int \<Rightarrow> kerror + int" where
  "share_of whole percent = py_int (to_float (of_int (whole * percent) / 100))"

record resource_limits =
  rl_memory_bytes :: int
  rl_cpu_percent :: int
  rl_gpu_memory_mb :: int
  rl_gpu_enabled :: bool
  rl_native_threads :: int
  rl_arena_bytes :: int
  rl_bulk_step_cap :: int

definition limits_of :: "setup_env \<Rightarrow> run_info \<Rightarrow> int \<Rightarrow> int \<Rightarrow> tuning \<Rightarrow> kerror + resource_limits" where
  "limits_of env r memory gpu t =
     bind_result (share_of memory (r_ram r)) (\<lambda>m.
     bind_result (share_of gpu (r_gpu r)) (\<lambda>g.
       Inr \<lparr>rl_memory_bytes = max (256 * 1024 ^ 2) m, rl_cpu_percent = r_cpu r, rl_gpu_memory_mb = g,
            rl_gpu_enabled = (r_execution r = ''hybrid'' \<and> r_gpu r \<noteq> 0 \<and> hw_gpu_available (su_hw env)),
            rl_native_threads = tn_native_threads t, rl_arena_bytes = tn_arena_bytes t,
            rl_bulk_step_cap = tn_bulk_step_cap t\<rparr>))"

definition tuning_dict :: "tuning \<Rightarrow> pydict" where
  "tuning_dict t =
     [(''mode'', VStr (tn_mode t)), (''profile'', VStr (tn_profile t)), (''execution'', VStr (tn_execution t)),
      (''algorithm_pack'', VStr (tn_mode t)), (''pack_base'', VStr (tn_pack_base t)),
      (''pack_algorithms'', VList (map VStr (tn_algorithms t))), (''native_threads'', VInt (tn_native_threads t)),
      (''bulk_step_cap'', VInt (tn_bulk_step_cap t)), (''arena_bytes'', VInt (tn_arena_bytes t)),
      (''arena_cap_bytes'', VInt (tn_arena_cap t)), (''data_workers'', VInt (tn_data_workers t)),
      (''prefetch'', VInt (tn_prefetch t)), (''chunk_target_records'', VInt (tn_chunk_target t)),
      (''streaming'', VBool (tn_streaming t)), (''records'', VInt (tn_records t)), (''features'', VInt (tn_features t)),
      (''batch_bytes'', VInt (tn_batch_bytes t)), (''strategy'', VStr (tn_strategy t))]"

record backend_config =
  bc_arrays :: "content option"
  bc_profile :: string
  bc_seed :: int
  bc_task_type :: string
  bc_limits :: resource_limits
  bc_model_path :: "string option"
  bc_checkpoint :: "path option"
  bc_dataset_spec :: "pydict option"
  bc_learning_rate :: "pyfloat option"
  bc_weight_decay :: pyfloat
  bc_hidden_layers :: "int list"
  bc_precision :: string
  bc_data_workers :: int
  bc_prefetch :: int
  bc_split_strategy :: string

definition text_of :: "(pyval \<Rightarrow> string) \<Rightarrow> pyval \<Rightarrow> string" where
  "text_of show v = (case v of VStr s \<Rightarrow> s | _ \<Rightarrow> show v)"

definition given :: "string option \<Rightarrow> string option" where
  "given x = (case x of Some s \<Rightarrow> if s = [] then None else Some s | None \<Rightarrow> None)"

definition config_for ::
  "setup_env \<Rightarrow> run_info \<Rightarrow> dataset_info \<Rightarrow> content option \<Rightarrow> resource_limits \<Rightarrow> path option \<Rightarrow> backend_config" where
  "config_for env r d arrays limits source =
     \<lparr>bc_arrays = arrays, bc_profile = r_profile r, bc_seed = r_seed r, bc_task_type = r_objective r, bc_limits = limits,
      bc_model_path = given (r_model_path r), bc_checkpoint = source,
      bc_dataset_spec = (case streaming_spec d of Some (VDict s) \<Rightarrow> Some s | _ \<Rightarrow> None),
      bc_learning_rate = r_learning_rate r, bc_weight_decay = r_weight_decay r, bc_hidden_layers = r_hidden_layers r,
      bc_precision = r_precision r, bc_data_workers = r_data_workers r, bc_prefetch = r_prefetch r,
      bc_split_strategy = text_of (su_show env) (split_strategy r)\<rparr>"

section \<open>Starting\<close>

record started =
  sw_backend :: string
  sw_protocol :: string
  sw_pid :: int
  sw_enforcement :: pydict
  sw_version :: "pyval option"

type_synonym logged = "string \<times> string \<times> pydict"

record setup_input =
  si_arrays :: "kerror + content"
  si_spawn :: "string \<Rightarrow> backend_config \<Rightarrow> kerror + started"
  si_eval :: "kerror + (pyfloat \<times> pydict)"
  si_saved :: "kerror + content option"
  si_token :: string
  si_events :: "pydict list"
  si_events2 :: "pydict list"
  si_current :: "run_info option"
  si_current2 :: "run_info option"

definition record_worker_events :: "(pyval \<Rightarrow> string) \<Rightarrow> run_info \<Rightarrow> pydict list \<Rightarrow> logged list" where
  "record_worker_events show r events =
     map (\<lambda>ev. (''worker'', (case dict_get ''type'' ev of Some v \<Rightarrow> text_of show v | None \<Rightarrow> ''event''),
        [(''run_id'', VStr (r_id r)), (''payload'', case dict_get ''payload'' ev of Some v \<Rightarrow> v | None \<Rightarrow> VDict []),
         (''created_at'', case dict_get ''created_at'' ev of Some v \<Rightarrow> v | None \<Rightarrow> VNone)])) events"

text \<open>\<open>Refused\<close>: an exception before there is a worker. \<open>Abandoned\<close>: one after, which nothing catches, so
  the worker is not closed. \<open>Ready\<close>: the record as it is saved, the files, the saved records, the log.\<close>

datatype setup_result =
    Refused kerror
  | Abandoned kerror run_info files "logged list"
  | Ready run_info files "run_info list" "logged list" backend_config

definition baseline_metadata :: "pydict \<Rightarrow> pyfloat \<Rightarrow> pydict" where
  "baseline_metadata metadata score = dict_merge metadata
     [(''score'', VFloat score), (''step'', VInt 0), (''schema_version'', VInt 3), (''kind'', VStr ''fine_tune_baseline'')]"

definition baseline_run :: "rat \<Rightarrow> path \<Rightarrow> pyfloat \<Rightarrow> pydict \<Rightarrow> pydict \<Rightarrow> run_info \<Rightarrow> run_info" where
  "baseline_run now p score metrics info r =
     r\<lparr>r_eval_count := 1, r_best_score := score, r_best_step := 0,
       r_environment_manifest := dict_set ''fine_tune_baseline''
         (VDict [(''score'', VFloat score), (''checkpoint'', VStr (p_name p))]) (r_environment_manifest r),
       r_metrics := [(''step'', VInt 0), (''validation'', VDict metrics),
         (''baseline'', VDict [(''score'', VFloat score), (''preserved'', VBool True)]),
         (''trace'', trace_val (trace_add now ''fine_tune_baseline''
            [(''score'', VFloat score), (''checkpoint'', VStr (p_name p))] (trace_from_metrics (r_metrics r)))),
         (''created_at'', VFloat (Fin now))],
       r_checkpoint := [(''best'', checkpoint_entry p info 0)],
       r_message := MsgBaseline score\<rparr>"

definition capture_baseline ::
  "setup_env \<Rightarrow> loop_env \<Rightarrow> setup_input \<Rightarrow> pydict \<Rightarrow> run_info \<Rightarrow> files
     \<Rightarrow> (kerror \<times> files \<times> logged list) + (run_info \<times> files \<times> logged list)" where
  "capture_baseline env c inp metadata r fs =
     (let p = best_path (le_dir c) (r_id r) in
      case si_eval inp of
        Inl e \<Rightarrow> Inl (e, fs, [])
      | Inr (score, metrics) \<Rightarrow>
          let log1 = record_worker_events (su_show env) r (si_events inp); m = baseline_metadata metadata score in
          case si_saved inp of
            Inl e \<Rightarrow> Inl (e, fs, log1)
          | Inr written \<Rightarrow>
              let fs1 = (case written of None \<Rightarrow> fs | Some x \<Rightarrow> fs_step (fs_op.Create (p_name p) x) fs);
                  log2 = log1 @ record_worker_events (su_show env) r (si_events2 inp)
              in case checkpoint_record (le_digest c) (le_size c) (le_dir c) (si_token inp) p m fs1 of
                   Inl e \<Rightarrow> Inl (e, fs1, log2)
                 | Inr (info, ops) \<Rightarrow>
                     Inr (merge_progress (si_current inp) (baseline_run (su_now env) p score metrics info r), fs_run ops fs1,
                          log2 @ [(''runtime'', ''finetune.baseline_preserved'',
                            [(''run_id'', VStr (r_id r)), (''score'', VFloat score), (''checkpoint'', VStr (p_name p))])]))"

definition begun :: "setup_env \<Rightarrow> dataset_info \<Rightarrow> tuning \<Rightarrow> started \<Rightarrow> run_info \<Rightarrow> run_info" where
  "begun env d t w r =
     r\<lparr>r_effective_backend := Some (sw_backend w), r_worker_protocol := Some (sw_protocol w),
       r_worker_pid := Some (sw_pid w), r_resource_enforcement := sw_enforcement w,
       r_environment_manifest :=
         [(''python'', VStr (su_python env)), (''platform'', VStr (su_platform env)), (''backend'', VStr (sw_backend w)),
          (''backend_version'', case sw_version w of Some v \<Rightarrow> v | None \<Rightarrow> VStr ''unknown''),
          (''worker_protocol'', VStr protocol_version), (''dataset_hash'', VStr (d_sha256 d)),
          (''config_hash'', VStr (config_hash env r d)), (''seed'', VInt (r_seed r)),
          (''architecture'', VStr (r_architecture r)), (''model_format'', VStr (r_model_format r)),
          (''execution_tuning'', VDict (tuning_dict t)), (''data_contract'', VDict (r_data_contract r)),
          (''split_policy'', VDict (r_split_policy r)), (''chunk_policy'', VDict (r_chunk_policy r))]\<rparr>"

text \<open>What is checked and computed before the worker exists.\<close>

definition prepare ::
  "setup_env \<Rightarrow> loop_env \<Rightarrow> setup_input \<Rightarrow> run_info \<Rightarrow> dataset_info \<Rightarrow> files \<Rightarrow> kerror + tuning \<times> backend_config" where
  "prepare env c inp r d fs =
     (let source = source_checkpoint (le_dir c) r fs in
      bind_result (if streaming_spec d \<noteq> None then Inr None else bind_result (si_arrays inp) (\<lambda>a. Inr (Some a))) (\<lambda>arrays.
      bind_result (total_memory env) (\<lambda>memory.
      bind_result (gpu_memory env) (\<lambda>gpu.
      bind_result (autotune_execution (su_show env) (su_packs env) (r_profile r) (su_hw env) (d_records d) (d_features d)
          (r_batch_size r) (streaming_spec d \<noteq> None) (r_execution r) (Some (r_algorithm_pack r)) (Some (r_threads r)) (r_cpu r)) (\<lambda>t.
      bind_result (case source of None \<Rightarrow> Inr []
          | Some p \<Rightarrow> checkpoint_verify (le_digest c) (le_dir c) p (resume_expected env r d) fs) (\<lambda>_.
      bind_result (limits_of env r memory gpu t) (\<lambda>limits.
        Inr (t, config_for env r d arrays limits source))))))))"

definition train_setup ::
  "setup_env \<Rightarrow> loop_env \<Rightarrow> setup_input \<Rightarrow> run_info option \<Rightarrow> kerror + dataset_info \<Rightarrow> files \<Rightarrow> setup_result" where
  "train_setup env c inp stored_run dataset fs =
     (case stored_run of
        None \<Rightarrow> Refused RunError
      | Some r \<Rightarrow>
     (case dataset of
        Inl e \<Rightarrow> Refused e
      | Inr d \<Rightarrow>
     (case prepare env c inp r d fs of
        Inl e \<Rightarrow> Refused e
      | Inr (t, config) \<Rightarrow>
     (case si_spawn inp (engine r) config of
        Inl e \<Rightarrow> Refused e
      | Inr w \<Rightarrow>
          let r1 = begun env d t w r in
          (case (if given (r_model_path r) \<noteq> None
                 then capture_baseline env c inp (checkpoint_metadata env r d) r1 fs else Inr (r1, fs, [])) of
             Inl (e, fs1, logs) \<Rightarrow> Abandoned e r1 fs1 logs
           | Inr (r2, fs1, logs) \<Rightarrow>
               let r3 = merge_progress (si_current2 inp) r2
               in Ready r3 fs1 ((if given (r_model_path r) \<noteq> None then [r2] else []) @ [r3]) logs config)))))"

section \<open>Training and closing\<close>

text \<open>\<open>_execute_worker\<close>: whatever ends the loop, the worker is closed, its events are logged and the
  process id is cleared; \<open>ex_close\<close> is the exception of \<open>close\<close>, or the reason of a forced end.\<close>

record closing =
  ex_close :: "kerror + string option"
  ex_events :: "pydict list"
  ex_current :: "run_info option"

definition close_worker :: "(pyval \<Rightarrow> string) \<Rightarrow> closing \<Rightarrow> kerror option \<Rightarrow> loop_state \<Rightarrow> kerror option \<times> loop_state \<times> logged list" where
  "close_worker show x pending s =
     (case ex_close x of
        Inl e \<Rightarrow> (Some e, s, [])
      | Inr forced \<Rightarrow>
          let r = ls_run s; logs = record_worker_events show r (ex_events x) in
          (case forced of
             None \<Rightarrow> (pending, loop_save (ex_current x) (set_run (r\<lparr>r_worker_pid := None\<rparr>) s), logs)
           | Some reason \<Rightarrow>
               (pending, loop_save (ex_current x) (set_run (r\<lparr>r_message := MsgForced (r_message r) reason, r_worker_pid := None\<rparr>) s),
                logs @ [(''runtime'', ''worker.forced_termination'', [(''run_id'', VStr (r_id r)), (''reason'', VStr reason)])])))"

definition execute_worker ::
  "(pyval \<Rightarrow> string) \<Rightarrow> loop_env \<Rightarrow> closing \<Rightarrow> loop_result \<Rightarrow> ((kerror + outcome) \<times> loop_state \<times> logged list) option" where
  "execute_worker show c x res =
     (case res of
        Continue s \<Rightarrow> None
      | Return out s \<Rightarrow>
          (case close_worker show x None s of
             (None, t, logs) \<Rightarrow> Some (Inr out, t, logs) | (Some e, t, logs) \<Rightarrow> Some (Inl e, t, logs))
      | Raise e s \<Rightarrow>
          (case close_worker show x (Some e) s of
             (None, t, logs) \<Rightarrow> Some (Inl e, t, logs) | (Some e', t, logs) \<Rightarrow> Some (Inl e', t, logs)))"

text \<open>\<open>_train\<close> as a whole; \<open>None\<close> while the loop still waits for an answer.\<close>

definition train ::
  "setup_env \<Rightarrow> loop_env \<Rightarrow> setup_input \<Rightarrow> loop_input list \<Rightarrow> closing \<Rightarrow> run_info option \<Rightarrow> kerror + dataset_info \<Rightarrow> files
     \<Rightarrow> ((kerror + outcome) \<times> (run_info option \<times> files)) option" where
  "train env c inp inps x stored_run dataset fs =
     (case train_setup env c inp stored_run dataset fs of
        Refused e \<Rightarrow> Some (Inl e, stored_run, fs)
      | Abandoned e r fs1 logs \<Rightarrow> Some (Inl e, Some r, fs1)
      | Ready r fs1 saves logs config \<Rightarrow>
          (case execute_worker (su_show env) c x (run_loop c inps (loop_start (su_now env) r fs1)) of
             None \<Rightarrow> None | Some (res, s, logs') \<Rightarrow> Some (res, Some (ls_run s), ls_files s)))"

section \<open>What the loop keeps for the next start\<close>

text \<open>The part of a record that the next start compares, and a best checkpoint that passes its checks.\<close>

definition fixed :: "run_info \<Rightarrow> run_plan \<times> string option \<times> pydict" where
  "fixed r = (run_plan.truncate r, r_effective_backend r, r_environment_manifest r)"

definition best_ok :: "loop_env \<Rightarrow> string \<Rightarrow> pydict \<Rightarrow> files \<Rightarrow> bool" where
  "best_ok c i expected fs \<longleftrightarrow> dict_get (p_name (best_path (le_dir c) i)) fs \<noteq> None \<longrightarrow>
     (\<exists>m. checkpoint_verify (le_digest c) (le_dir c) (best_path (le_dir c) i) expected fs = Inr m)"

lemma fixed_live [simp]:
  "fixed (r\<lparr>r_batch_size := x1\<rparr>) = fixed r" "fixed (r\<lparr>r_status := x2\<rparr>) = fixed r" "fixed (r\<lparr>r_step := x3\<rparr>) = fixed r"
  "fixed (r\<lparr>r_best_score := x4\<rparr>) = fixed r" "fixed (r\<lparr>r_best_step := x5\<rparr>) = fixed r" "fixed (r\<lparr>r_loss := x6\<rparr>) = fixed r"
  "fixed (r\<lparr>r_samples_seen := x7\<rparr>) = fixed r" "fixed (r\<lparr>r_eval_count := x8\<rparr>) = fixed r"
  "fixed (r\<lparr>r_batch_adjustments := x9\<rparr>) = fixed r" "fixed (r\<lparr>r_message := x10\<rparr>) = fixed r"
  "fixed (r\<lparr>r_stop_requested := x11\<rparr>) = fixed r" "fixed (r\<lparr>r_paused := x12\<rparr>) = fixed r"
  "fixed (r\<lparr>r_metrics := x13\<rparr>) = fixed r" "fixed (r\<lparr>r_termination_reason := x14\<rparr>) = fixed r"
  "fixed (r\<lparr>r_worker_pid := x16\<rparr>) = fixed r" "fixed (r\<lparr>r_checkpoint := x19\<rparr>) = fixed r"
  by (simp_all add: fixed_def)

lemma fixed_merge [simp]: "fixed (merge_progress cur r) = fixed r"
  by (cases cur) (simp_all add: merge_progress_def)

lemma fixed_adapt [simp]: "fixed (fst (adapt_batch r xs n)) = fixed r"
  by (simp add: adapt_batch_def Let_def)

lemma fixed_counted [simp]: "fixed (counted r) = fixed r"
  by (simp add: counted_def)

lemma plan_same:
  assumes "run_plan.truncate r = run_plan.truncate q"
  shows "r_objective r = r_objective q" "r_backend r = r_backend q" "r_id r = r_id q" "config_payload r d = config_payload q d"
    "r_model_path r = r_model_path q" "r_base_run_id r = r_base_run_id q"
  using assms by (simp_all add: run_plan.truncate_def config_payload_def split_strategy_def cong: option.case_cong)

lemma fixed_same:
  assumes "fixed r = fixed q"
  shows "resume_expected env r d = resume_expected env q d" "r_id r = r_id q" "engine r = engine q" "env_text k r = env_text k q"
    "r_objective r = r_objective q"
proof -
  have b: "r_effective_backend r = r_effective_backend q" "r_environment_manifest r = r_environment_manifest q"
    and t: "run_plan.truncate r = run_plan.truncate q" using assms by (simp_all add: fixed_def)
  have p: "r_objective r = r_objective q" "r_backend r = r_backend q" "r_id r = r_id q" "config_payload r d = config_payload q d"
    by (rule plan_same [OF t])+
  show e: "engine r = engine q" unfolding engine_def b p ..
  show "r_id r = r_id q" "r_objective r = r_objective q" by (rule p)+
  show "env_text k r = env_text k q" unfolding env_text_def b ..
  show "resume_expected env r d = resume_expected env q d" unfolding resume_expected_def config_hash_def e p ..
qed

definition keeps :: "loop_env \<Rightarrow> run_plan \<times> string option \<times> pydict \<Rightarrow> pydict \<Rightarrow> loop_state \<Rightarrow> bool" where
  "keeps c f expected s \<longleftrightarrow> fixed (ls_run s) = f \<and> best_ok c (r_id (fst f)) expected (ls_files s)"

lemma keeps_intros:
  "keeps c f ex s \<Longrightarrow> keeps c f ex (loop_save cur s)"
  "keeps c f ex s \<Longrightarrow> fixed r = f \<Longrightarrow> keeps c f ex (set_run r s)"
  "keeps c f ex s \<Longrightarrow> fixed r = f \<Longrightarrow> keeps c f ex (s\<lparr>ls_run := r\<rparr>)"
  "keeps c f ex s \<Longrightarrow> best_ok c (r_id (fst f)) ex fs \<Longrightarrow> keeps c f ex (s\<lparr>ls_files := fs\<rparr>)"
  by (auto simp: keeps_def loop_save_def set_run_def Let_def)

lemma keeps_fields [simp]:
  "keeps c f ex (s\<lparr>ls_recent := a\<rparr>) = keeps c f ex s" "keeps c f ex (s\<lparr>ls_plateau := b\<rparr>) = keeps c f ex s"
  "keeps c f ex (s\<lparr>ls_hits := b\<rparr>) = keeps c f ex s" "keeps c f ex (s\<lparr>ls_streak := b\<rparr>) = keeps c f ex s"
  "keeps c f ex (s\<lparr>ls_last_save := d\<rparr>) = keeps c f ex s" "keeps c f ex (s\<lparr>ls_trace := t\<rparr>) = keeps c f ex s"
  by (simp_all add: keeps_def)

lemma keeps_fixed: "keeps c f ex s \<Longrightarrow> fixed (ls_run s) = f"
  by (simp add: keeps_def)

lemma fixed_id: "fixed r = f \<Longrightarrow> r_id (fst f) = r_id r"
  by (auto simp: fixed_def run_plan.truncate_def)

lemma keeps_complete: "keeps c f ex s \<Longrightarrow> keeps c f ex (result_state (complete_with_test c inp s))"
  by (auto simp: complete_with_test_def Let_def keeps_fixed split: option.split sum.split intro!: keeps_intros)

lemma keeps_finish: "keeps c f ex s \<Longrightarrow> keeps c f ex (result_state (finish_with c inp m reason s))"
  unfolding finish_with_def by (intro keeps_complete keeps_intros) (simp_all add: keeps_fixed)

text \<open>The files of the last checkpoint are not those of the best one.\<close>

lemma best_frame:
  assumes "\<And>n. n \<in> {p_name (best_path (le_dir c) i), metadata_name (p_name (best_path (le_dir c) i))} \<Longrightarrow> dict_get n fs' = dict_get n fs"
    and "best_ok c i ex fs"
  shows "best_ok c i ex fs'"
proof -
  let ?p = "best_path (le_dir c) i"
  have "dict_get (p_name ?p) fs' = dict_get (p_name ?p) fs"
    "dict_get (metadata_name (p_name ?p)) fs' = dict_get (metadata_name (p_name ?p)) fs" using assms(1) by blast+
  then show ?thesis using assms(2) unfolding best_ok_def checkpoint_verify_def by (simp only:)
qed

lemma keeps_restore:
  assumes "keeps c f ex s" shows "keeps c f ex (restore_best c score s)"
proof -
  let ?i = "r_id (fst f)"
  have "best_ok c ?i ex (fs_run (discard_last_ops (le_dir c) ?i) (ls_files s))"
    by (rule best_frame [of _ _ _ "ls_files s"])
      (use assms in \<open>auto simp: keeps_def discard_last_ops_def dict_get_del best_path_def last_path_def metadata_name_def\<close>)
  with assms fixed_id [OF keeps_fixed [OF assms]] show ?thesis by (simp add: keeps_def restore_best_def Let_def)
qed

lemma keeps_decide: "keeps c f ex s \<Longrightarrow> keeps c f ex (result_state (decide c inp score b s))"
  by (simp add: decide_def Let_def keeps_finish keeps_restore keeps_intros keeps_fixed)

lemma keeps_settle:
  "keeps c f ex s \<Longrightarrow> fixed r = f \<Longrightarrow> keeps c f ex (result_state (settle c inp score q g before r s))"
  using fixed_adapt [of "r\<lparr>r_metrics := dict_set ''health''
      (VDict (health r (next_streak before score (ls_streak s)) score q g)) (r_metrics r)\<rparr>" "ls_recent s" "in_records inp"]
  by (auto simp: settle_def Let_def intro!: keeps_decide keeps_intros split: prod.split simp del: fixed_adapt)

lemma keeps_recover: "keeps c f ex s \<Longrightarrow> keeps c f ex (result_state (recover_oom inp s))"
  by (simp add: recover_oom_def Let_def keeps_intros keeps_fixed)

lemma keeps_report: "keeps c f ex s \<Longrightarrow> keeps c f ex (result_state (report_progress inp s))"
  by (simp add: report_progress_def Let_def keeps_intros keeps_fixed)

definition expects :: "run_info \<Rightarrow> pydict" where
  "expects r = [(''dataset_hash'', env_text ''dataset_hash'' r), (''config_hash'', env_text ''config_hash'' r),
     (''task_type'', VStr (r_objective r)), (''backend'', VStr (engine r))]"

lemma expects_fixed: "fixed r = fixed q \<Longrightarrow> expects r = expects q"
  by (simp add: expects_def fixed_same [of r q])

definition texts :: "pydict \<Rightarrow> bool" where
  "texts ex \<longleftrightarrow> list_all (\<lambda>(k, v). \<exists>t. v = VStr t) ex"

lemma verify_more:
  assumes "checkpoint_verify H dir p [] fs = Inr m" and "texts ex" and "list_all (\<lambda>(k, v). dict_get k m = Some v) ex"
  shows "checkpoint_verify H dir p ex fs = Inr m"
proof -
  have no: "\<not> list_ex (\<lambda>(k, v). v \<noteq> VNone \<and> \<not> py_eq (case dict_get k m of None \<Rightarrow> VNone | Some v \<Rightarrow> v) v) ex"
    using assms(2,3) by (fastforce simp: texts_def list_all_iff list_ex_iff)
  from assms(1) obtain c where c: "p_parent p = dir" "stored (p_name p) c m fs" by (rule verify_InrE)
  show ?thesis using assms(1) no by (simp add: verify_stored [OF c] Let_def split: if_splits)
qed

lemma update_best_ok:
  assumes u: "update_best c inp score (evaluation_metadata r score) info r fs = (e, r', fs')"
    and ok: "best_ok c (r_id r) (expects r) fs" and "texts (expects r)"
  shows "fixed r' = fixed r" and "best_ok c (r_id r) (expects r) fs'"
proof -
  show "fixed r' = fixed r"
    using u by (auto simp: update_best_def Let_def split: if_splits option.splits sum.splits prod.splits)
  let ?m = "dict_merge (evaluation_metadata r score) [(''best_score'', VFloat score), (''kind'', VStr ''best'')]"
  let ?p = "best_path (le_dir c) (r_id r)"
  show "best_ok c (r_id r) (expects r) fs'"
  proof (cases "fs' = fs")
    case False
    with u obtain payload ops where p: "checkpoint_promote (le_digest c) (le_size c) (le_dir c)
        (fst (snd (in_tokens inp))) (snd (snd (in_tokens inp))) (last_path (le_dir c) (r_id r)) ?p ?m fs = Inr (payload, ops)"
      and fs': "fs' = fs_run ops fs"
      by (auto simp: update_best_def Let_def split: if_splits option.splits sum.splits prod.splits)
    have g: "dict_get k payload = dict_get k (evaluation_metadata r score)"
      if "k \<in> {''dataset_hash'', ''config_hash'', ''task_type'', ''backend''}" for k
      using that promote_payload [OF p, of k] by (auto simp: dict_get_merge dict_ok_def)
    have "checkpoint_verify (le_digest c) (le_dir c) ?p (expects r) fs' = Inr payload"
      by (rule verify_more [OF promote_verifies [OF p, folded fs'] assms(3)])
        (simp add: expects_def g, simp add: evaluation_metadata_def)
    then show ?thesis by (simp add: best_ok_def)
  qed (use ok in simp)
qed

lemma save_last_ok:
  assumes "save_last c inp r m fs = Inr (info, fs')" and "plain_name (r_id r)" and "best_ok c (r_id r) ex fs"
  shows "best_ok c (r_id r) ex fs'"
proof (rule best_frame [OF _ assms(3)])
  fix n assume n: "n \<in> {p_name (best_path (le_dir c) (r_id r)), metadata_name (p_name (best_path (le_dir c) (r_id r)))}"
  let ?l = "p_name (last_path (le_dir c) (r_id r))"
  have "plain_name n" using n assms(2) by (auto simp: plain_name_def best_path_def metadata_name_def)
  then have "n \<noteq> pending_name a t" for a t using pending_not_plain by blast
  moreover have "n \<noteq> ?l" "n \<noteq> metadata_name ?l" using n by (auto simp: best_path_def last_path_def metadata_name_def)
  ultimately have ne: "n \<noteq> ?l" "n \<noteq> metadata_name ?l" "\<And>a t. n \<noteq> pending_name a t" by auto
  show "dict_get n fs' = dict_get n fs"
    using assms(1) ne
    by (auto simp: save_last_def Let_def dict_get_set dict_get_del split: sum.splits option.splits if_splits elim!: record_InrE)
qed

lemma keeps_evaluate:
  assumes k: "keeps c f (expects r0) s" and r0: "fixed r0 = f" and i: "plain_name (r_id (fst f))" and t: "texts (expects r0)"
  shows "keeps c f (expects r0) (result_state (evaluate_step c inp s))"
proof (cases "in_eval inp")
  case (Inl e)
  then show ?thesis using k by (simp add: evaluate_step_def)
next
  case (Inr x)
  obtain score metrics where x: "x = (score, metrics)" by fastforce
  have f: "fixed (ls_run s) = f" "best_ok c (r_id (fst f)) (expects r0) (ls_files s)" using k by (auto simp: keeps_def)
  define r where "r = counted (ls_run s)"
  define q where "q = evaluation_gate r score metrics"
  define r1 where "r1 = r\<lparr>r_metrics :=
      [(''step'', VInt (r_step r)), (''train'', VDict [(''loss'', VFloat (r_loss r))]),
       (''validation'', VDict metrics), (''created_at'', VFloat (Fin (in_wall inp))),
       (''quality_gate'', VDict (gate_to_dict q)),
       (''trace'', trace_val (evaluation_trace inp r q (ls_trace s)))]\<rparr>"
  have r1: "fixed r1 = f" and r: "fixed r = f" by (simp_all add: r1_def r_def f)
  have id: "r_id (fst f) = r_id r1" by (rule fixed_id [OF r1])
  have ex: "expects r1 = expects r0" using expects_fixed [of r1 r0] r1 r0 by simp
  have u: "fixed r2 = f \<and> best_ok c (r_id (fst f)) (expects r0) fs2"
    if "save_last c inp r1 (evaluation_metadata r1 score) (ls_files s) = Inr (info, fs1)"
      and "update_best c inp score (evaluation_metadata r1 score) info r1 fs1 = (e, r2, fs2)" for info fs1 e r2 fs2
    using update_best_ok [OF that(2)] save_last_ok [OF that(1), of "expects r0"] f(2) r1 i t ex unfolding id by simp
  show ?thesis
    using k r r1
    by (auto simp: evaluate_step_def Inr x Let_def simp flip: r_def q_def r1_def split: sum.split prod.split option.split
        intro!: keeps_intros keeps_settle dest: u)
qed

lemma keeps_iterate:
  assumes "keeps c f (expects r0) s" and "fixed r0 = f" and "plain_name (r_id (fst f))" and "texts (expects r0)"
  shows "keeps c f (expects r0) (result_state (iterate c inp s))"
proof (cases "in_step inp")
  case (Inl x)
  with assms show ?thesis
    by (cases x) (simp add: iterate_def Let_def keeps_recover keeps_intros keeps_fixed)
next
  case (Inr x)
  with assms show ?thesis
    by (cases x) (simp add: iterate_def Let_def keeps_report keeps_evaluate keeps_intros keeps_fixed)
qed

lemma keeps_run_loop:
  assumes "fixed r0 = f" and "plain_name (r_id (fst f))" and "texts (expects r0)"
  shows "keeps c f (expects r0) s \<Longrightarrow> keeps c f (expects r0) (result_state (run_loop c inps s))"
proof (induction inps arbitrary: s)
  case (Cons inp inps)
  then show ?case using keeps_iterate [OF Cons.prems assms, of inp] by (auto split: loop_result.split)
qed simp

section \<open>What a start establishes\<close>

lemma fixed_baseline:
  "fixed (baseline_run now p score metrics info r) = (run_plan.truncate r, r_effective_backend r,
     dict_set ''fine_tune_baseline'' (VDict [(''score'', VFloat score), (''checkpoint'', VStr (p_name p))]) (r_environment_manifest r))"
  by (simp add: fixed_def baseline_run_def)

lemma begun_simps [simp]:
  "run_plan.truncate (begun env d t w r) = run_plan.truncate r" "r_effective_backend (begun env d t w r) = Some (sw_backend w)"
  "r_id (begun env d t w r) = r_id r"
  by (simp_all add: begun_def)

lemma expects_eq:
  assumes "run_plan.truncate q = run_plan.truncate r" and "env_text ''dataset_hash'' q = VStr (d_sha256 d)"
    and "env_text ''config_hash'' q = VStr (config_hash env r d)"
  shows "expects q = resume_expected env q d"
proof -
  have "config_hash env q d = config_hash env r d"
    using plan_same(4) [OF assms(1), of d] by (simp add: config_hash_def)
  then show ?thesis by (simp add: expects_def resume_expected_def assms(2,3))
qed

lemma begun_env: "env_text ''dataset_hash'' (begun env d t w r) = VStr (d_sha256 d)"
  "env_text ''config_hash'' (begun env d t w r) = VStr (config_hash env r d)"
  by (simp_all add: begun_def env_text_def)

lemma record_verifies:
  assumes "checkpoint_record H L dir token p metadata fs = Inr (payload, ops)"
  shows "checkpoint_verify H dir p [] (fs_run ops fs) = Inr payload"
proof -
  from assms obtain c where p: "p_parent p = dir" "dict_get (p_name p) fs = Some c" by (rule record_InrE)
  show ?thesis
    using record_payload_fields [OF assms p(2)]
    by (simp add: verify_stored [OF p(1) record_stored [OF assms p(2)]] Let_def feq_def)
qed

lemma record_payload:
  assumes "checkpoint_record H L dir token p metadata fs = Inr (payload, ops)"
    and "k \<notin> {''checkpoint_format'', ''filename'', ''sha256'', ''size_bytes''}"
  shows "dict_get k payload = dict_get k metadata"
  using assms by (auto elim!: record_InrE simp: dict_get_merge dict_ok_def)

text \<open>A captured baseline verifies against the metadata of the start, so with the requested backend.\<close>

lemma capture_effect:
  assumes "capture_baseline env c inp (checkpoint_metadata env r d) q fs = Inr (q', fs', logs)" and "r_id q = r_id r"
  obtains m where "checkpoint_verify (le_digest c) (le_dir c) (best_path (le_dir c) (r_id r)) [] fs' = Inr m"
    "\<And>k. k \<in> {''dataset_hash'', ''config_hash'', ''task_type'', ''backend''} \<Longrightarrow> dict_get k m = dict_get k (checkpoint_metadata env r d)"
    "run_plan.truncate q' = run_plan.truncate q" "r_effective_backend q' = r_effective_backend q"
    "env_text ''dataset_hash'' q' = env_text ''dataset_hash'' q" "env_text ''config_hash'' q' = env_text ''config_hash'' q"
proof -
  let ?p = "best_path (le_dir c) (r_id q)"
  from assms(1) obtain score metrics fs1 info ops
    where rec: "checkpoint_record (le_digest c) (le_size c) (le_dir c) (si_token inp) ?p
        (baseline_metadata (checkpoint_metadata env r d) score) fs1 = Inr (info, ops)"
      and fs': "fs' = fs_run ops fs1"
      and q': "q' = merge_progress (si_current inp) (baseline_run (su_now env) ?p score metrics info q)"
    by (auto simp: capture_baseline_def Let_def split: sum.splits prod.splits option.splits)
  have f: "fixed q' = (run_plan.truncate q, r_effective_backend q, dict_set ''fine_tune_baseline''
      (VDict [(''score'', VFloat score), (''checkpoint'', VStr (p_name ?p))]) (r_environment_manifest q))"
    by (simp add: q' fixed_baseline)
  show ?thesis
  proof (rule that [of info])
    show "checkpoint_verify (le_digest c) (le_dir c) (best_path (le_dir c) (r_id r)) [] fs' = Inr info"
      using record_verifies [OF rec] by (simp add: fs' assms(2))
    show "dict_get k info = dict_get k (checkpoint_metadata env r d)"
      if "k \<in> {''dataset_hash'', ''config_hash'', ''task_type'', ''backend''}" for k
      using that record_payload [OF rec, of k] by (auto simp: baseline_metadata_def dict_get_merge dict_ok_def)
  qed (use f in \<open>auto simp: fixed_def env_text_def dict_get_set\<close>)
qed

lemma prepare_source:
  assumes "prepare env c inp r d fs = Inr (t, config)" and "dict_get (p_name (best_path (le_dir c) (r_id r))) fs \<noteq> None"
  shows "\<exists>m. checkpoint_verify (le_digest c) (le_dir c) (best_path (le_dir c) (r_id r)) (resume_expected env r d) fs = Inr m"
  using assms by (auto simp: prepare_def source_checkpoint_def Let_def bind_Inr_iff)

lemma setup_ReadyE:
  assumes "train_setup env c inp (Some r) (Inr d) fs = Ready r1 fs1 saves logs config"
  obtains t w r2 where "prepare env c inp r d fs = Inr (t, config)"
    "(if given (r_model_path r) \<noteq> None then capture_baseline env c inp (checkpoint_metadata env r d) (begun env d t w r) fs
      else Inr (begun env d t w r, fs, [])) = Inr (r2, fs1, logs)"
    "r1 = merge_progress (si_current2 inp) r2"
  using assms by (auto simp: train_setup_def Let_def split: sum.splits prod.splits if_splits)

lemma setup_ready:
  assumes s: "train_setup env c inp (Some r) (Inr d) fs = Ready r1 fs1 saves logs config"
  shows "run_plan.truncate r1 = run_plan.truncate r" and "expects r1 = resume_expected env r1 d"
    and "engine r1 = engine r \<or> given (r_model_path r) = None \<and> dict_get (p_name (best_path (le_dir c) (r_id r))) fs = None
      \<Longrightarrow> best_ok c (r_id r) (expects r1) fs1"
proof -
  obtain t w r2 where p: "prepare env c inp r d fs = Inr (t, config)"
    and b: "(if given (r_model_path r) \<noteq> None then capture_baseline env c inp (checkpoint_metadata env r d) (begun env d t w r) fs
      else Inr (begun env d t w r, fs, [])) = Inr (r2, fs1, logs)"
    and r1: "r1 = merge_progress (si_current2 inp) r2"
    using s by (rule setup_ReadyE)
  have f: "fixed r1 = fixed r2" by (simp add: r1)
  have q: "run_plan.truncate r2 = run_plan.truncate r \<and> env_text ''dataset_hash'' r2 = VStr (d_sha256 d)
      \<and> env_text ''config_hash'' r2 = VStr (config_hash env r d)"
  proof (cases "given (r_model_path r)")
    case None
    with b show ?thesis by (auto simp: begun_env)
  next
    case (Some x)
    with b have "capture_baseline env c inp (checkpoint_metadata env r d) (begun env d t w r) fs = Inr (r2, fs1, logs)" by simp
    then show ?thesis by (rule capture_effect) (simp_all add: begun_env)
  qed
  show t1: "run_plan.truncate r1 = run_plan.truncate r" using f q by (simp add: fixed_def)
  show e: "expects r1 = resume_expected env r1 d"
    using q by (intro expects_eq [OF t1]) (simp_all add: fixed_same [OF f])
  assume ok: "engine r1 = engine r \<or> given (r_model_path r) = None \<and> dict_get (p_name (best_path (le_dir c) (r_id r))) fs = None"
  show "best_ok c (r_id r) (expects r1) fs1"
  proof (cases "given (r_model_path r)")
    case None
    then have fs1: "fs1 = fs" using b by simp
    show ?thesis
    proof (cases "engine r1 = engine r")
      case True
      then have "resume_expected env r1 d = resume_expected env r d"
        using plan_same [OF t1] by (simp add: resume_expected_def config_hash_def)
      then show ?thesis using prepare_source [OF p] by (simp add: best_ok_def fs1 e)
    qed (use ok in \<open>simp add: best_ok_def fs1\<close>)
  next
    case (Some x)
    with b have cap: "capture_baseline env c inp (checkpoint_metadata env r d) (begun env d t w r) fs = Inr (r2, fs1, logs)" by simp
    from Some ok have same: "engine r1 = engine r" by simp
    show ?thesis
    proof (rule capture_effect [OF cap])
      fix m assume v: "checkpoint_verify (le_digest c) (le_dir c) (best_path (le_dir c) (r_id r)) [] fs1 = Inr m"
        and g: "\<And>k. k \<in> {''dataset_hash'', ''config_hash'', ''task_type'', ''backend''} \<Longrightarrow>
          dict_get k m = dict_get k (checkpoint_metadata env r d)"
      have "checkpoint_verify (le_digest c) (le_dir c) (best_path (le_dir c) (r_id r)) (expects r1) fs1 = Inr m"
        using plan_same [OF t1] same
        by (intro verify_more [OF v])
          (simp_all add: e resume_expected_def texts_def g config_hash_def, simp add: checkpoint_metadata_def config_hash_def)
      then show ?thesis by (simp add: best_ok_def)
    qed simp
  qed
qed

text \<open>Whether the tuner finds a plan does not depend on the batch size.\<close>

lemma autotune_batch:
  assumes "autotune_execution sv f p hw n m b st x pk th cpu = Inr t"
  shows "\<exists>t'. autotune_execution sv f p hw n m b' st x pk th cpu = Inr t'"
  using assms by (auto simp: autotune_execution_def bind_Inr_iff)

lemma limits_tuning: "limits_of env r memory gpu t = Inr l \<Longrightarrow> \<exists>l'. limits_of env r memory gpu t' = Inr l'"
  by (auto simp: limits_of_def bind_Inr_iff)

lemma not_Inl: "(\<nexists>e. x = Inl e) \<Longrightarrow> \<exists>y. x = Inr y"
  by (cases x) auto

lemma prepare_again:
  assumes p: "prepare env c inp r d fs = Inr (t, config)" and q: "run_plan.truncate q = run_plan.truncate r"
    and v: "\<exists>m. checkpoint_verify (le_digest c) (le_dir c) (best_path (le_dir c) (r_id q)) (resume_expected env q d) fs' = Inr m"
    and b: "dict_get (p_name (best_path (le_dir c) (r_id q))) fs' \<noteq> None"
    and e: "prepare env c inp' q d fs' = Inl e"
  shows "streaming_spec d = None \<and> si_arrays inp' = Inl e"
proof (rule ccontr)
  assume n: "\<not> (streaming_spec d = None \<and> si_arrays inp' = Inl e)"
  have f: "r_profile q = r_profile r" "r_execution q = r_execution r" "r_algorithm_pack q = r_algorithm_pack r"
    "r_threads q = r_threads r" "r_cpu q = r_cpu r" "r_ram q = r_ram r" "r_gpu q = r_gpu r"
    using q by (simp_all add: run_plan.truncate_def)
  obtain memory gpu limits where o: "total_memory env = Inr memory" "gpu_memory env = Inr gpu"
      "autotune_execution (su_show env) (su_packs env) (r_profile r) (su_hw env) (d_records d) (d_features d)
          (r_batch_size r) (streaming_spec d \<noteq> None) (r_execution r) (Some (r_algorithm_pack r)) (Some (r_threads r)) (r_cpu r) = Inr t"
      "limits_of env r memory gpu t = Inr limits"
    using p by (auto simp: prepare_def Let_def bind_Inr_iff)
  obtain t' where t': "autotune_execution (su_show env) (su_packs env) (r_profile r) (su_hw env) (d_records d) (d_features d)
          (r_batch_size q) (streaming_spec d \<noteq> None) (r_execution r) (Some (r_algorithm_pack r)) (Some (r_threads r)) (r_cpu r) = Inr t'"
    using autotune_batch [OF o(3)] by blast
  have "limits_of env q memory gpu t' = limits_of env r memory gpu t'" by (simp add: limits_of_def f)
  with limits_tuning [OF o(4)] obtain l where l: "limits_of env q memory gpu t' = Inr l" by metis
  obtain m where m: "checkpoint_verify (le_digest c) (le_dir c) (best_path (le_dir c) (r_id q)) (resume_expected env q d) fs' = Inr m"
    using v ..
  have src: "source_checkpoint (le_dir c) q fs' = Some (best_path (le_dir c) (r_id q))" using b by (simp add: source_checkpoint_def)
  show False
    using e n unfolding prepare_def Let_def src f o t' by (cases "si_arrays inp'") (auto simp: m l split: if_splits)
qed

section \<open>Properties\<close>

text \<open>C24: A run that stops can go on. Whatever the loop does from a start that succeeded, and wherever it is cut
  off, the best checkpoint it leaves passes the checks of the next start: that start is refused only when the
  arrays cannot be loaded. The worker must have had the backend that was asked for, or nothing to resume.\<close>

theorem stopped_run_resumes:
  assumes s: "train_setup env c inp (Some r) (Inr d) fs = Ready r1 fs1 saves logs config" and i: "plain_name (r_id r)"
    and b: "engine r1 = engine r \<or> given (r_model_path r) = None \<and> dict_get (p_name (best_path (le_dir c) (r_id r))) fs = None"
    and t: "t = result_state (run_loop c inps (loop_start now r1 fs1))"
    and x: "dict_get (p_name (best_path (le_dir c) (r_id r))) (ls_files t) \<noteq> None"
    and p: "prepare env c inp' (ls_run t) d (ls_files t) = Inl e"
  shows "streaming_spec d = None \<and> si_arrays inp' = Inl e"
proof -
  note r1 = setup_ready [OF s]
  have id: "r_id r1 = r_id r" by (rule plan_same(3) [OF r1(1)])
  have "keeps c (fixed r1) (expects r1) (loop_start now r1 fs1)" using r1(3) [OF b] by (simp add: keeps_def fixed_id id)
  then have k: "keeps c (fixed r1) (expects r1) t"
    unfolding t using i r1(2) by (intro keeps_run_loop) (simp_all add: fixed_id id resume_expected_def texts_def)
  then have f: "fixed (ls_run t) = fixed r1" and ok: "best_ok c (r_id r) (expects r1) (ls_files t)"
    by (simp_all add: keeps_def fixed_id id)
  have same: "run_plan.truncate (ls_run t) = run_plan.truncate r" using f r1(1) by (simp add: fixed_def)
  obtain u where u: "prepare env c inp r d fs = Inr (u, config)" using s by (rule setup_ReadyE)
  have "resume_expected env (ls_run t) d = expects r1" using fixed_same(1) [OF f, of env d] r1(2) by simp
  then have "\<exists>m. checkpoint_verify (le_digest c) (le_dir c) (best_path (le_dir c) (r_id (ls_run t))) (resume_expected env (ls_run t) d)
      (ls_files t) = Inr m"
    using ok x plan_same(3) [OF same] by (simp add: best_ok_def)
  then show ?thesis using prepare_again [OF u same _ _ p] x plan_same(3) [OF same] by simp
qed

text \<open>When the worker falls back to another backend, the baseline of a fine-tuned run is recorded under the
  requested one, so a run that is stopped before its first evaluation can never be started again.\<close>

theorem fallback_baseline_refused:
  assumes s: "train_setup env c inp (Some r) (Inr d) fs = Ready r1 fs1 saves logs config"
    and m: "given (r_model_path r) \<noteq> None" and b: "engine r1 \<noteq> engine r"
  shows "\<exists>e. train_setup env c inp' (Some r1) (Inr d) fs1 = Refused e"
proof -
  obtain t w r2 where p: "prepare env c inp r d fs = Inr (t, config)"
    and c: "capture_baseline env c inp (checkpoint_metadata env r d) (begun env d t w r) fs = Inr (r2, fs1, logs)"
    using s m by (auto elim!: setup_ReadyE)
  have id: "r_id r1 = r_id r" by (rule plan_same(3) [OF setup_ready(1) [OF s]])
  show ?thesis
  proof (rule capture_effect [OF c])
    fix m assume v: "checkpoint_verify (le_digest c) (le_dir c) (best_path (le_dir c) (r_id r)) [] fs1 = Inr m"
      and g: "\<And>k. k \<in> {''dataset_hash'', ''config_hash'', ''task_type'', ''backend''} \<Longrightarrow>
        dict_get k m = dict_get k (checkpoint_metadata env r d)"
    from v obtain x where x: "p_parent (best_path (le_dir c) (r_id r)) = le_dir c" "stored (p_name (best_path (le_dir c) (r_id r))) x m fs1"
      by (rule verify_InrE)
    have "dict_get ''backend'' m = Some (VStr (engine r))" by (simp add: g) (simp add: checkpoint_metadata_def)
    then have bad: "list_ex (\<lambda>(k, v). v \<noteq> VNone \<and> \<not> py_eq (case dict_get k m of None \<Rightarrow> VNone | Some v \<Rightarrow> v) v) (resume_expected env r1 d)"
      using b by (simp add: resume_expected_def)
    have "checkpoint_verify (le_digest c) (le_dir c) (best_path (le_dir c) (r_id r)) (resume_expected env r1 d) fs1 = Inl RunError"
      using bad by (simp add: verify_stored [OF x] Let_def)
    moreover have "source_checkpoint (le_dir c) r1 fs1 = Some (best_path (le_dir c) (r_id r))"
      using x(2) by (simp add: source_checkpoint_def id stored_def)
    ultimately have "prepare env c inp' r1 d fs1 \<noteq> Inr y" for y by (cases y) (auto simp: prepare_def Let_def bind_Inr_iff)
    then obtain e where "prepare env c inp' r1 d fs1 = Inl e" by (cases "prepare env c inp' r1 d fs1") auto
    then show ?thesis by (simp add: train_setup_def)
  qed simp
qed

text \<open>Once the loop has started, every end of it closes the worker: its process id is cleared, the record saved
  last is the one that is left, and the outcome or the exception of the loop is passed on.\<close>

theorem loop_end_closes:
  assumes "execute_worker show c x res = Some (out, t, logs)" and "ex_close x = Inr forced"
  shows "r_worker_pid (ls_run t) = None \<and> last (ls_saves t) = ls_run t
    \<and> (case res of Return o' s \<Rightarrow> out = Inr o' | Raise e s \<Rightarrow> out = Inl e | Continue s \<Rightarrow> False)"
proof -
  have m: "r_worker_pid (merge_progress cur r) = r_worker_pid r" for cur r by (cases cur) (simp_all add: merge_progress_def)
  have w: "r_worker_pid (ls_run s') = None \<and> last (ls_saves s') = ls_run s' \<and> o2 = pend"
    if "close_worker show x pend s = (o2, s', l)" for pend s o2 s' l
    using that by (auto simp: close_worker_def assms(2) Let_def loop_save_def set_run_def m split: option.splits)
  show ?thesis using assms(1) by (auto simp: execute_worker_def split: loop_result.splits prod.splits option.splits dest!: w)
qed

section \<open>Examples\<close>

definition demo_setup :: setup_env where
  "demo_setup = \<lparr>su_hash = \<lambda>_. ''h'', su_show = show_demo, su_packs = NoFile,
     su_hw = \<lparr>hw_cpu_threads = 8, hw_ram_gb = Fin 16, hw_gpu_available = False\<rparr>, su_vram = [], su_python = ''3'',
     su_platform = ''p'', su_now = 1\<rparr>"

definition demo_worker :: "string \<Rightarrow> started" where
  "demo_worker b = \<lparr>sw_backend = b, sw_protocol = protocol_version, sw_pid = 7, sw_enforcement = [], sw_version = None\<rparr>"

definition demo_begin :: "string \<Rightarrow> setup_input" where
  "demo_begin b = \<lparr>si_arrays = Inr (Binary ''xy''), si_spawn = \<lambda>_ _. Inr (demo_worker b), si_eval = Inr (Fin (1/2), []),
     si_saved = Inr (Some (Binary ''w'')), si_token = ''t'', si_events = [], si_events2 = [], si_current = None, si_current2 = None\<rparr>"

definition demo_data :: dataset_info where
  "demo_data = \<lparr>d_id = ''d'', d_source = ''d.csv'', d_path = ''d.csv'', d_records = 1000, d_features = 10, d_target = ''y'',
     d_classes = [], d_format = ''csv'', d_skipped = 0, d_sha256 = ''s'', d_size_bytes = 1, d_task_types = [], d_schema = [],
     d_manifest = [], d_warnings = [], d_reused = False, d_native_probe = [], d_created_at = 1\<rparr>"

definition demo_checkpoint :: files where
  "demo_checkpoint = [(''r1.npz'', Binary ''w''), (''r1.npz.json'', Json (VDict [(''checkpoint_format'', VInt 1),
     (''sha256'', VStr (demo_digest (Binary ''w''))), (''dataset_hash'', VStr ''s''), (''config_hash'', VStr ''h''),
     (''task_type'', VStr ''binary''), (''backend'', VStr ''numpy'')]))]"

lemma demo_tuning: "\<exists>t. autotune_execution (su_show demo_setup) (su_packs demo_setup) ''balanced'' (su_hw demo_setup) 1000 10 32 False
    ''cpu'' (Some ''balanced'') (Some 2) 40 = Inr t"
proof -
  have n: "resolve_algorithm_pack show_demo NoFile (Some ''balanced'') = Inr ''balanced''"
    by (simp add: resolve_builtin builtin_packs_def)
  have clean: "clean_name ''balanced'' = ''balanced''" "clean_name ''cpu'' = ''cpu''" by code_simp+
  show ?thesis
    by (simp add: demo_setup_def autotune_execution_def or_string_def n legacy_profile_for_pack_def pack_profile_def
        resolve_execution_target_def clean execution_policy_def get_pack_def normalise_builtin builtin_packs_def)
qed

lemma demo_memory: "total_memory demo_setup = Inr 17179869184" "share_of 17179869184 50 = Inr 8589934592" "share_of 0 0 = Inr 0"
proof -
  have "to_float (of_int n) = Fin (of_int n)" if "\<bar>n\<bar> < 2 ^ 53" for n using that by (rule to_float_int)
  from this [of 17179869184] this [of 8589934592] this [of 0]
  show "total_memory demo_setup = Inr 17179869184" "share_of 17179869184 50 = Inr 8589934592" "share_of 0 0 = Inr 0"
    by (simp_all add: total_memory_def share_of_def demo_setup_def py_int_def)
qed

lemma demo_run_fields: "r_profile (demo_run i) = ''balanced''" "r_execution (demo_run i) = ''cpu''" "r_algorithm_pack (demo_run i) = ''balanced''"
    "r_threads (demo_run i) = 2" "r_batch_size (demo_run i) = 32" "r_model_path (demo_run i) = None" "r_base_run_id (demo_run i) = None"
    "engine (demo_run i) = ''numpy''" "r_objective (demo_run i) = ''binary''" "r_effective_backend (demo_run i) = None" "r_backend (demo_run i) = ''numpy''"
  by (simp_all add: engine_def demo_run_def demo_plan_def run_new_def run_plan.defs run_info.defs)

text \<open>A start with the demo record and any checkpoint that passes, up to the worker.\<close>

lemma demo_prepare:
  assumes "run_plan.truncate r = run_plan.truncate (loop_run\<lparr>r_model_path := mp\<rparr>)" and "r_batch_size r = 32"
    and "source_checkpoint ''d'' r fs = None
      \<or> (\<exists>p m. source_checkpoint ''d'' r fs = Some p \<and> checkpoint_verify demo_digest ''d'' p (resume_expected demo_setup r demo_data) fs = Inr m)"
  shows "\<exists>t config. prepare demo_setup demo_env (demo_begin b) r demo_data fs = Inr (t, config)"
proof -
  have f: "r_profile r = ''balanced''" "r_execution r = ''cpu''" "r_algorithm_pack r = ''balanced''" "r_threads r = 2" "r_cpu r = 40"
    "r_ram r = 50" "r_gpu r = 0"
    using assms(1) by (simp_all add: run_plan.truncate_def loop_run_def demo_run_def demo_plan_def run_new_def run_plan.defs run_info.defs)
  obtain t where t: "autotune_execution (su_show demo_setup) (su_packs demo_setup) ''balanced'' (su_hw demo_setup) 1000 10 32 False
    ''cpu'' (Some ''balanced'') (Some 2) 40 = Inr t" using demo_tuning by blast
  have d: "streaming_spec demo_data = None" "d_records demo_data = 1000" "d_features demo_data = 10" by (simp_all add: streaming_spec_def demo_data_def)
  have l: "\<exists>l. limits_of demo_setup r 17179869184 0 t = Inr l" by (simp add: limits_of_def f demo_memory)
  have g: "gpu_memory demo_setup = Inr 0" by (simp add: gpu_memory_def demo_setup_def)
  have e: "le_dir demo_env = ''d''" "le_digest demo_env = demo_digest" by (simp_all add: demo_env_def)
  have v: "\<exists>y. (case source_checkpoint ''d'' r fs of None \<Rightarrow> Inr []
      | Some p \<Rightarrow> checkpoint_verify (le_digest demo_env) (le_dir demo_env) p (resume_expected demo_setup r demo_data) fs) = Inr y"
    using assms(3) unfolding e by auto
  show ?thesis
    using l v by (auto simp: prepare_def Let_def d f assms(2) t g demo_memory e(1) demo_begin_def)
qed

lemma demo_checkpoint_ok:
  "source_checkpoint ''d'' loop_run demo_checkpoint = Some (best_path ''d'' ''r1'')"
  "\<exists>m. checkpoint_verify demo_digest ''d'' (best_path ''d'' ''r1'') (resume_expected demo_setup loop_run demo_data) demo_checkpoint = Inr m"
proof -
  show "source_checkpoint ''d'' loop_run demo_checkpoint = Some (best_path ''d'' ''r1'')"
    by (simp add: source_checkpoint_def demo_checkpoint_def best_path_def)
  have e: "resume_expected demo_setup loop_run demo_data =
      [(''dataset_hash'', VStr ''s''), (''config_hash'', VStr ''h''), (''task_type'', VStr ''binary''), (''backend'', VStr ''numpy'')]"
    by (simp add: resume_expected_def config_hash_def loop_run_def demo_run_fields) (simp add: demo_data_def demo_setup_def)
  show "\<exists>m. checkpoint_verify demo_digest ''d'' (best_path ''d'' ''r1'') (resume_expected demo_setup loop_run demo_data) demo_checkpoint = Inr m"
    unfolding e by (simp add: checkpoint_verify_def demo_checkpoint_def best_path_def metadata_name_def feq_def)
qed

lemma loop_run_plain: "loop_run\<lparr>r_model_path := None\<rparr> = loop_run"
  by (simp add: loop_run_def demo_run_def demo_plan_def run_new_def run_plan.defs run_info.defs)

theorem stopped_run_resumes_witness:
  "\<exists>r1 fs1 saves logs config. train_setup demo_setup demo_env (demo_begin ''numpy'') (Some loop_run) (Inr demo_data) demo_checkpoint
      = Ready r1 fs1 saves logs config
    \<and> (let t = result_state (run_loop demo_env [] (loop_start 1 r1 fs1)); again = (demo_begin ''numpy'')\<lparr>si_arrays := Inl OSError\<rparr>
       in prepare demo_setup demo_env again (ls_run t) demo_data (ls_files t) = Inl OSError
          \<and> streaming_spec demo_data = None \<and> si_arrays again = Inl OSError)"
proof -
  have model: "given (r_model_path loop_run) = None" by (simp add: loop_run_def demo_run_fields given_def)
  obtain t config where p: "prepare demo_setup demo_env (demo_begin ''numpy'') loop_run demo_data demo_checkpoint = Inr (t, config)"
    using demo_prepare [of loop_run None demo_checkpoint "''numpy''"] demo_checkpoint_ok loop_run_plain by auto
  let ?r = "begun demo_setup demo_data t (demo_worker ''numpy'') loop_run"
  have s: "train_setup demo_setup demo_env (demo_begin ''numpy'') (Some loop_run) (Inr demo_data) demo_checkpoint
      = Ready ?r demo_checkpoint [?r] [] config"
    using p model by (simp add: train_setup_def demo_begin_def merge_progress_def Let_def)
  have e: "engine ?r = engine loop_run" by (simp add: loop_run_def demo_run_fields) (simp add: engine_def demo_worker_def)
  have b: "dict_get (p_name (best_path (le_dir demo_env) (r_id loop_run))) demo_checkpoint \<noteq> None"
    by (simp add: demo_env_def best_path_def demo_checkpoint_def)
  have q: "prepare demo_setup demo_env ((demo_begin ''numpy'')\<lparr>si_arrays := Inl OSError\<rparr>) ?r demo_data demo_checkpoint = Inl OSError"
    by (simp add: prepare_def Let_def streaming_spec_def demo_data_def)
  have w: "streaming_spec demo_data = None \<and> si_arrays ((demo_begin ''numpy'')\<lparr>si_arrays := Inl OSError\<rparr>) = Inl OSError"
    by (rule stopped_run_resumes [OF s _ _ refl, of "[]" 1]) (use e b q in \<open>simp_all add: plain_name_def\<close>)
  show ?thesis by (intro exI conjI, rule s) (use q w in \<open>simp add: Let_def\<close>)
qed

theorem fallback_baseline_refused_witness:
  "\<exists>r1 fs1 saves logs config. train_setup demo_setup demo_env (demo_begin ''native'') (Some (loop_run\<lparr>r_model_path := Some ''m''\<rparr>))
      (Inr demo_data) [] = Ready r1 fs1 saves logs config
    \<and> (\<exists>e. train_setup demo_setup demo_env (demo_begin ''native'') (Some r1) (Inr demo_data) fs1 = Refused e)"
proof -
  let ?q = "loop_run\<lparr>r_model_path := Some ''m''\<rparr>"
  have model: "given (r_model_path ?q) = Some ''m''" by (simp add: given_def)
  have "source_checkpoint ''d'' ?q [] = None"
    by (simp add: source_checkpoint_def) (simp add: loop_run_def demo_run_fields)
  then obtain t config where p: "prepare demo_setup demo_env (demo_begin ''native'') ?q demo_data [] = Inr (t, config)"
    using demo_prepare [of ?q "Some ''m''" "[]" "''native''"] by auto
  let ?r = "begun demo_setup demo_data t (demo_worker ''native'') ?q"
  obtain r1 fs1 logs where c: "capture_baseline demo_setup demo_env (demo_begin ''native'') (checkpoint_metadata demo_setup ?q demo_data) ?r []
      = Inr (r1, fs1, logs)"
    by (auto simp: capture_baseline_def demo_begin_def Let_def demo_env_def checkpoint_record_def best_path_def dict_get_set pending_name_def
        metadata_name_def)
  have r1: "r_effective_backend r1 = Some ''native''"
    by (rule capture_effect [OF c]) (simp_all add: demo_worker_def)
  have s: "train_setup demo_setup demo_env (demo_begin ''native'') (Some ?q) (Inr demo_data) [] = Ready r1 fs1 [r1, r1] logs config"
    using p model c by (simp add: train_setup_def demo_begin_def merge_progress_def Let_def)
  have "engine r1 = ''native''" by (simp add: engine_def r1)
  moreover have "engine ?q = ''numpy''" by (simp add: engine_def) (simp add: loop_run_def demo_run_fields)
  ultimately have e: "engine r1 \<noteq> engine ?q" by simp
  have "\<exists>e. train_setup demo_setup demo_env (demo_begin ''native'') (Some r1) (Inr demo_data) fs1 = Refused e"
    by (rule fallback_baseline_refused [OF s _ e]) (simp only: model, simp)
  with s show ?thesis by blast
qed

theorem loop_end_closes_witness:
  "r_worker_pid (ls_run (fst (snd (the (execute_worker show_demo demo_env \<lparr>ex_close = Inr None, ex_events = [], ex_current = None\<rparr>
     (Return PauseO (loop_start 1 loop_run []))))))) = None"
proof -
  let ?x = "\<lparr>ex_close = Inr None, ex_events = [], ex_current = None\<rparr> :: closing"
  obtain out t logs where e: "execute_worker show_demo demo_env ?x (Return PauseO (loop_start 1 loop_run [])) = Some (out, t, logs)"
    by (simp add: execute_worker_def close_worker_def Let_def)
  show ?thesis using loop_end_closes [OF e, of None] by (simp add: e)
qed

end
