(* ===== verification/Create.thy ===== *)
theory Create imports Tuning TrainLoop begin

text \<open>
  Training contracts and run creation: \<open>src/src/kernelyra/architectures.py\<close>, the backend registry
  and \<open>RunManager.create\<close> of \<open>workspace.py\<close>, and what the runs it creates can do later.
\<close>

section \<open>Architectures and checkpoint formats\<close>

record architecture =
  ar_id :: string
  ar_modalities :: "string list"
  ar_tasks :: "string list"
  ar_backends :: "string list"
  ar_implemented :: bool

definition table_tasks :: "string list" where
  "table_tasks = [''binary_classification'', ''multiclass_classification'', ''regression'']"

definition architectures :: "architecture list" where
  "architectures =
     [\<lparr>ar_id = ''linear'', ar_modalities = [''table''], ar_tasks = table_tasks,
        ar_backends = [''native'', ''numpy''], ar_implemented = True\<rparr>,
      \<lparr>ar_id = ''mlp'', ar_modalities = [''table''], ar_tasks = table_tasks,
        ar_backends = [''torch'', ''tensorflow''], ar_implemented = True\<rparr>,
      \<lparr>ar_id = ''transformer'', ar_modalities = [''text'', ''multimodal''], ar_tasks = [''language_modeling''],
        ar_backends = [''torch''], ar_implemented = False\<rparr>,
      \<lparr>ar_id = ''cnn'', ar_modalities = [''image'', ''audio''], ar_tasks = [''classification''],
        ar_backends = [''torch'', ''tensorflow''], ar_implemented = False\<rparr>,
      \<lparr>ar_id = ''vision-transformer'', ar_modalities = [''image''], ar_tasks = [''classification''],
        ar_backends = [''torch''], ar_implemented = False\<rparr>,
      \<lparr>ar_id = ''rnn'', ar_modalities = [''text'', ''audio'', ''timeseries''], ar_tasks = [''sequence''],
        ar_backends = [''torch'', ''tensorflow''], ar_implemented = False\<rparr>,
      \<lparr>ar_id = ''pointnet'', ar_modalities = [''3d''], ar_tasks = [''classification'', ''segmentation''],
        ar_backends = [''torch''], ar_implemented = False\<rparr>,
      \<lparr>ar_id = ''graph-neural-network'', ar_modalities = [''graph'', ''3d''],
        ar_tasks = [''classification'', ''regression''], ar_backends = [''torch''], ar_implemented = False\<rparr>]"

record checkpoint_format =
  cf_id :: string
  cf_extensions :: "string list"
  cf_architectures :: "string list"
  cf_training_output :: bool
  cf_fine_tune :: bool

definition checkpoint_formats :: "checkpoint_format list" where
  "checkpoint_formats =
     [\<lparr>cf_id = ''kernelyra-npz'', cf_extensions = [''.npz''], cf_architectures = [''linear'', ''mlp''],
        cf_training_output = True, cf_fine_tune = True\<rparr>,
      \<lparr>cf_id = ''pytorch-state'', cf_extensions = [''.pt'', ''.pth''],
        cf_architectures = [''linear'', ''mlp'', ''transformer'', ''cnn'', ''vision-transformer'', ''rnn'',
          ''pointnet'', ''graph-neural-network''],
        cf_training_output = False, cf_fine_tune = True\<rparr>,
      \<lparr>cf_id = ''keras'', cf_extensions = [''.keras'', ''.h5'', ''.hdf5''],
        cf_architectures = [''linear'', ''mlp'', ''cnn'', ''rnn''],
        cf_training_output = False, cf_fine_tune = True\<rparr>,
      \<lparr>cf_id = ''gguf'', cf_extensions = [''.gguf'', ''.ggml''], cf_architectures = [''transformer''],
        cf_training_output = False, cf_fine_tune = False\<rparr>,
      \<lparr>cf_id = ''safetensors'', cf_extensions = [''.safetensors''],
        cf_architectures = [''transformer'', ''cnn'', ''vision-transformer'', ''rnn'', ''pointnet'',
          ''graph-neural-network''],
        cf_training_output = False, cf_fine_tune = False\<rparr>,
      \<lparr>cf_id = ''onnx'', cf_extensions = [''.onnx''],
        cf_architectures = [''linear'', ''mlp'', ''transformer'', ''cnn'', ''vision-transformer'', ''rnn'',
          ''pointnet'', ''graph-neural-network''],
        cf_training_output = False, cf_fine_tune = False\<rparr>]"

definition architecture_by_id :: "string \<Rightarrow> architecture option" where
  "architecture_by_id i = find (\<lambda>a. ar_id a = i) architectures"

definition checkpoint_by_id :: "string \<Rightarrow> checkpoint_format option" where
  "checkpoint_by_id i = find (\<lambda>f. cf_id f = i) checkpoint_formats"

definition resolve_training_contract ::
  "string \<Rightarrow> string \<Rightarrow> string \<Rightarrow> string \<Rightarrow> kerror + string \<times> string" where
  "resolve_training_contract architecture model_format backend task =
     (let a0 = clean_name architecture;
          a = (if a0 = ''auto'' then if backend \<in> {''native'', ''numpy''} then ''linear'' else ''mlp'' else a0)
      in case architecture_by_id a of
           None \<Rightarrow> Inl ConfigurationError
         | Some d \<Rightarrow>
             if \<not> ar_implemented d then Inl ConfigurationError
             else if backend \<notin> set (ar_backends d) then Inl ConfigurationError
             else if task \<notin> set (ar_tasks d) then Inl ConfigurationError
             else
               let f0 = clean_name model_format; f = (if f0 = ''auto'' then ''kernelyra-npz'' else f0)
               in case checkpoint_by_id f of
                    None \<Rightarrow> Inl ConfigurationError
                  | Some c \<Rightarrow>
                      if a \<notin> set (cf_architectures c) then Inl ConfigurationError
                      else if \<not> cf_training_output c then Inl ConfigurationError
                      else Inr (a, f))"

section \<open>The backend registry\<close>

text \<open>\<open>native\<close> inherits its task types from the NumPy backend, which lists every \<open>TaskType\<close>.\<close>

definition task_types :: "string list" where
  "task_types = [''binary_classification'', ''multiclass_classification'', ''regression'']"

definition backend_names :: "string list" where
  "backend_names = [''native'', ''numpy'', ''tensorflow'', ''torch'']"

definition backend_task_types :: "string \<Rightarrow> string list option" where
  "backend_task_types name = (if name \<in> set backend_names then Some task_types else None)"

section \<open>Creating a run\<close>

text \<open>What surrounds a creation: the pack table, the hardware, the datasets, which base checkpoints
  exist, and the fresh id and time.\<close>

record create_env =
  ce_show :: "pyval \<Rightarrow> string"
  ce_packs :: table_file
  ce_hardware :: hardware
  ce_dataset :: "dataset_info option"
  ce_base_exists :: bool
  ce_id :: string
  ce_now :: rat

definition key_error_to_configuration :: "kerror + 'a \<Rightarrow> kerror + 'a" where
  "key_error_to_configuration r = (case r of Inl KeyError \<Rightarrow> Inl ConfigurationError | _ \<Rightarrow> r)"

definition ram_gb_of :: "hardware \<Rightarrow> pyfloat" where
  "ram_gb_of hw = (if hw_ram_gb hw = Fin 0 then Fin 8 else hw_ram_gb hw)"

definition default_int :: "int \<Rightarrow> int option \<Rightarrow> int" where
  "default_int d x = (case x of Some n \<Rightarrow> n | None \<Rightarrow> d)"

text \<open>The checks on the evaluation settings, in the order of the code.\<close>

definition evaluation_settings_ok :: "run_config \<Rightarrow> pyfloat \<Rightarrow> bool" where
  "evaluation_settings_ok c margin \<longleftrightarrow>
     (case rc_evaluation_interval c of Some n \<Rightarrow> 1 \<le> n \<and> n \<le> 1000000 | None \<Rightarrow> True)
     \<and> fle (Fin 0) (rc_min_improvement c) \<and> fle (rc_min_improvement c) (Fin 1)
     \<and> flt (Fin 0) margin \<and> fle margin (Fin 10)
     \<and> 1 \<le> rc_degradation_patience c \<and> rc_degradation_patience c \<le> 100
     \<and> 1 \<le> rc_early_stopping_patience c \<and> rc_early_stopping_patience c \<le> 10000
     \<and> 1 \<le> rc_target_patience c \<and> rc_target_patience c \<le> 100"

definition degradation_margin_of :: "run_config \<Rightarrow> pyfloat" where
  "degradation_margin_of c =
     (case rc_degradation_margin c of Some x \<Rightarrow> x
      | None \<Rightarrow> if rc_objective c = ''regression'' then to_float (5/100) else to_float (3/100))"

definition target_score_of :: "run_config \<Rightarrow> pyfloat" where
  "target_score_of c =
     fmax (if rc_objective c = ''regression'' then Fin (- 10) else Fin (1/2))
       (fmin (to_float (999/1000)) (rc_target_metric c))"

text \<open>The record that is stored, from the resolved settings.\<close>

definition created_run ::
  "create_env \<Rightarrow> run_config \<Rightarrow> string \<Rightarrow> string \<Rightarrow> string \<Rightarrow> string \<Rightarrow> string \<Rightarrow> batch_plan
     \<Rightarrow> int \<Rightarrow> int \<Rightarrow> int \<Rightarrow> int \<Rightarrow> int \<Rightarrow> int \<Rightarrow> run_info" where
  "created_run env c architecture model_format profile execution pack batch cpu ram gpu threads workers prefetch =
     run_new
       \<lparr>r_id = ce_id env, r_name = take 80 (rc_name c), r_dataset = rc_dataset c, r_backend = rc_backend c,
        r_objective = rc_objective c, r_architecture = architecture, r_model_format = model_format,
        r_mode = rc_mode c, r_profile = profile, r_execution = execution, r_algorithm_pack = pack,
        r_priority = rc_priority c, r_target_score = target_score_of c, r_batch_mode = rc_batch_mode c,
        r_batch_min = bp_safe_min batch, r_batch_max = bp_safe_max batch, r_batch_risk = bp_risk batch,
        r_batch_reason = bp_reason batch, r_batch_warnings = bp_warnings batch,
        r_max_steps = clamp 1 10000000 (rc_max_steps c), r_cpu = cpu, r_ram = ram, r_gpu = gpu,
        r_threads = threads, r_base_run_id = rc_base_run_id c, r_model_path = rc_model_path c,
        r_seed = rc_seed c, r_learning_rate = rc_learning_rate c,
        r_weight_decay = fmax (Fin 0) (rc_weight_decay c), r_hidden_layers = rc_hidden_layers c,
        r_precision = rc_precision c, r_data_workers = clamp 0 64 workers, r_prefetch = clamp 0 32 prefetch,
        r_evaluation_interval = rc_evaluation_interval c, r_min_improvement = rc_min_improvement c,
        r_degradation_margin = degradation_margin_of c, r_degradation_patience = rc_degradation_patience c,
        r_early_stopping_patience = rc_early_stopping_patience c, r_target_patience = rc_target_patience c,
        r_data_contract = rc_data_contract c, r_split_policy = rc_split_policy c,
        r_chunk_policy = rc_chunk_policy c, r_created_at = ce_now env\<rparr>
       (bp_applied batch)"

text \<open>The contract part: dataset, backend, architecture, pack, execution and batch.\<close>

definition resolve_run ::
  "create_env \<Rightarrow> run_config
     \<Rightarrow> kerror + string \<times> string \<times> string \<times> string \<times> string \<times> policy_choice \<times> batch_plan" where
  "resolve_run env c =
     (case ce_dataset env of None \<Rightarrow> Inl DatasetNotFoundError | Some d \<Rightarrow>
      if rc_objective c \<notin> set (d_task_types d) then Inl ConfigurationError else
      (case backend_task_types (rc_backend c) of None \<Rightarrow> Inl ConfigurationError | Some tasks \<Rightarrow>
      if rc_objective c \<notin> set tasks then Inl ConfigurationError else
      bind_result (resolve_training_contract (rc_architecture c) (rc_model_format c) (rc_backend c) (rc_objective c))
        (\<lambda>(architecture, model_format).
      bind_result (key_error_to_configuration (resolve_algorithm_pack (ce_show env) (ce_packs env)
          (Some (if rc_profile c = ''auto'' then rc_algorithm_pack c else rc_profile c)))) (\<lambda>pack.
      bind_result (key_error_to_configuration (resolve_execution_target (Some (rc_execution c)) (ce_hardware env)))
        (\<lambda>execution.
      bind_result (legacy_profile_for_pack (ce_show env) (ce_packs env) pack) (\<lambda>profile.
      bind_result (execution_policy (ce_show env) (ce_packs env) (Some profile) (ce_hardware env) (Some execution)
          (Some pack)) (\<lambda>choice.
      bind_result (plan_batch (d_records d) (d_features d) profile (clamp 10 95 (default_int 70 (rc_ram c)))
          (ram_gb_of (ce_hardware env)) (rc_batch_mode c) (rc_batch_size c)) (\<lambda>batch.
      Inr (architecture, model_format, pack, execution, profile, choice, batch)))))))))"

text \<open>\<open>RunManager.create\<close>: the run record, or the exception.\<close>

definition create_run :: "create_env \<Rightarrow> run_config \<Rightarrow> kerror + run_info" where
  "create_run env c =
     bind_result (resolve_run env c) (\<lambda>(architecture, model_format, pack, execution, profile, choice, batch).
     if bp_requires_confirmation batch \<and> \<not> rc_accept_batch_risk c then Inl ConfigurationError
     else if rc_priority c \<notin> {''high'', ''normal'', ''low''} then Inl ConfigurationError
     else
       let policy = pc_policy choice;
           ram = clamp 10 95 (default_int 70 (rc_ram c));
           cpu = clamp 10 100 (default_int 70 (rc_cpu c));
           gpu = clamp 0 100 (default_int (if execution = ''hybrid'' then 70 else 0) (rc_gpu c));
           cpu_threads = detected_threads (ce_hardware env)
       in if execution = ''cpu'' \<and> gpu \<noteq> 0 then Inl ConfigurationError else
          bind_result (case rc_threads c of
              Some n \<Rightarrow> Inr n
            | None \<Rightarrow> bind_result (scaled_threads cpu_threads cpu (pk_fraction policy))
                        (\<lambda>n. Inr (max 1 (min cpu_threads n)))) (\<lambda>threads.
          if \<not> (1 \<le> threads \<and> threads \<le> cpu_threads) then Inl ConfigurationError else
          let workers = default_int (min (pk_data_workers policy) (max 0 (threads - 1))) (rc_data_workers c);
              prefetch = default_int (pk_prefetch policy) (rc_prefetch c)
          in if rc_base_run_id c \<notin> {None, Some []} \<and> \<not> ce_base_exists env then Inl RunError
             else if \<not> evaluation_settings_ok c (degradation_margin_of c) then Inl ConfigurationError
             else Inr (created_run env c architecture model_format profile execution pack batch
                    cpu ram gpu threads workers prefetch)))"

definition rt_create :: "create_env \<Rightarrow> run_config \<Rightarrow> rt \<Rightarrow> (kerror + string) \<times> rt" where
  "rt_create env c s =
     (case create_run env c of
        Inl e \<Rightarrow> (Inl e, s)
      | Inr r \<Rightarrow> (Inr (r_id r), store_created (ce_now env) r s))"

section \<open>Contracts\<close>

definition linear_architecture :: architecture where
  "linear_architecture = \<lparr>ar_id = ''linear'', ar_modalities = [''table''], ar_tasks = table_tasks,
     ar_backends = [''native'', ''numpy''], ar_implemented = True\<rparr>"

definition mlp_architecture :: architecture where
  "mlp_architecture = \<lparr>ar_id = ''mlp'', ar_modalities = [''table''], ar_tasks = table_tasks,
     ar_backends = [''torch'', ''tensorflow''], ar_implemented = True\<rparr>"

lemma implemented_architectures:
  "(architecture_by_id x = Some d \<and> ar_implemented d) \<longleftrightarrow>
     x = ''linear'' \<and> d = linear_architecture \<or> x = ''mlp'' \<and> d = mlp_architecture"
proof
  assume h: "architecture_by_id x = Some d \<and> ar_implemented d"
  then have "d \<in> set architectures" "ar_id d = x" by (auto simp: architecture_by_id_def find_Some_iff)
  with h show "x = ''linear'' \<and> d = linear_architecture \<or> x = ''mlp'' \<and> d = mlp_architecture"
    unfolding architectures_def list.set insert_iff empty_iff
    by (elim disjE) (simp_all add: linear_architecture_def mlp_architecture_def)
next
  have "architecture_by_id ''linear'' = Some linear_architecture" "architecture_by_id ''mlp'' = Some mlp_architecture"
    by (simp_all add: architecture_by_id_def architectures_def linear_architecture_def mlp_architecture_def)
  moreover assume "x = ''linear'' \<and> d = linear_architecture \<or> x = ''mlp'' \<and> d = mlp_architecture"
  ultimately show "architecture_by_id x = Some d \<and> ar_implemented d"
    by (elim disjE conjE) (simp_all add: linear_architecture_def mlp_architecture_def)
qed

definition npz_format :: checkpoint_format where
  "npz_format = \<lparr>cf_id = ''kernelyra-npz'', cf_extensions = [''.npz''], cf_architectures = [''linear'', ''mlp''],
     cf_training_output = True, cf_fine_tune = True\<rparr>"

lemma output_formats:
  "(checkpoint_by_id x = Some c \<and> cf_training_output c) \<longleftrightarrow> x = ''kernelyra-npz'' \<and> c = npz_format"
proof
  assume h: "checkpoint_by_id x = Some c \<and> cf_training_output c"
  then have "c \<in> set checkpoint_formats" "cf_id c = x" by (auto simp: checkpoint_by_id_def find_Some_iff)
  with h show "x = ''kernelyra-npz'' \<and> c = npz_format"
    unfolding checkpoint_formats_def list.set insert_iff empty_iff
    by (elim disjE) (simp_all add: npz_format_def)
next
  have "checkpoint_by_id ''kernelyra-npz'' = Some npz_format"
    by (simp add: checkpoint_by_id_def checkpoint_formats_def npz_format_def)
  moreover assume "x = ''kernelyra-npz'' \<and> c = npz_format"
  ultimately show "checkpoint_by_id x = Some c \<and> cf_training_output c" by (simp add: npz_format_def)
qed

lemma resolve_contract_eq:
  "resolve_training_contract architecture model_format backend task = Inr (a, f) \<longleftrightarrow>
     (\<exists>d c. (architecture_by_id a = Some d \<and> ar_implemented d) \<and> (checkpoint_by_id f = Some c \<and> cf_training_output c)
        \<and> backend \<in> set (ar_backends d) \<and> task \<in> set (ar_tasks d) \<and> a \<in> set (cf_architectures c)
        \<and> a = (if clean_name architecture = ''auto'' then if backend \<in> {''native'', ''numpy''} then ''linear'' else ''mlp''
              else clean_name architecture)
        \<and> f = (if clean_name model_format = ''auto'' then ''kernelyra-npz'' else clean_name model_format))"
proof -
  define A where "A = (if clean_name architecture = ''auto'' then if backend \<in> {''native'', ''numpy''} then ''linear''
      else ''mlp'' else clean_name architecture)"
  define F where "F = (if clean_name model_format = ''auto'' then ''kernelyra-npz'' else clean_name model_format)"
  have "resolve_training_contract architecture model_format backend task = (case architecture_by_id A of
           None \<Rightarrow> Inl ConfigurationError
         | Some d \<Rightarrow>
             if \<not> ar_implemented d then Inl ConfigurationError
             else if backend \<notin> set (ar_backends d) then Inl ConfigurationError
             else if task \<notin> set (ar_tasks d) then Inl ConfigurationError
             else (case checkpoint_by_id F of
                    None \<Rightarrow> Inl ConfigurationError
                  | Some c \<Rightarrow>
                      if A \<notin> set (cf_architectures c) then Inl ConfigurationError
                      else if \<not> cf_training_output c then Inl ConfigurationError
                      else Inr (A, F)))"
    by (simp only: resolve_training_contract_def Let_def A_def F_def)
  then show ?thesis
    unfolding A_def [symmetric] F_def [symmetric]
    by (cases "architecture_by_id A"; cases "checkpoint_by_id F") auto
qed

text \<open>Base training accepts exactly two architectures: \<open>linear\<close> on the native and NumPy backends
  and \<open>mlp\<close> on PyTorch and TensorFlow, for table tasks, named or \<open>auto\<close>, and always writes the
  \<open>kernelyra-npz\<close> format.\<close>

theorem training_contract_exact:
  "resolve_training_contract architecture model_format backend task = Inr (a, f) \<longleftrightarrow>
     f = ''kernelyra-npz'' \<and> clean_name model_format \<in> {''auto'', ''kernelyra-npz''} \<and> task \<in> set table_tasks \<and>
     (backend \<in> {''native'', ''numpy''} \<and> a = ''linear'' \<and> clean_name architecture \<in> {''auto'', ''linear''} \<or>
      backend \<in> {''torch'', ''tensorflow''} \<and> a = ''mlp'' \<and> clean_name architecture \<in> {''auto'', ''mlp''})"
proof -
  have fields: "ar_backends linear_architecture = [''native'', ''numpy'']" "ar_tasks linear_architecture = table_tasks"
    "ar_backends mlp_architecture = [''torch'', ''tensorflow'']" "ar_tasks mlp_architecture = table_tasks"
    "cf_architectures npz_format = [''linear'', ''mlp'']"
    by (simp_all add: linear_architecture_def mlp_architecture_def npz_format_def)
  have distinct: "''mlp'' \<noteq> ''linear''" "''auto'' \<noteq> ''linear''" "''auto'' \<noteq> ''mlp''" "''auto'' \<noteq> ''kernelyra-npz''"
    "''torch'' \<noteq> ''native''" "''torch'' \<noteq> ''numpy''" "''tensorflow'' \<noteq> ''native''" "''tensorflow'' \<noteq> ''numpy''" by simp_all
  define L M F Z A X where "L = ''linear''" and "M = ''mlp''" and "F = ''kernelyra-npz''" and "Z = ''auto''"
    and "A = clean_name architecture" and "X = clean_name model_format"
  define P Q where "P \<longleftrightarrow> backend \<in> {''native'', ''numpy''}" and "Q \<longleftrightarrow> backend \<in> {''torch'', ''tensorflow''}"
  have eq: "resolve_training_contract architecture model_format backend task = Inr (a, f) \<longleftrightarrow>
     (a = L \<and> P \<or> a = M \<and> Q) \<and> f = F \<and> task \<in> set table_tasks \<and>
     a = (if A = Z then if P then L else M else A) \<and> f = (if X = Z then F else X)"
  proof -
    have "resolve_training_contract architecture model_format backend task = Inr (a, f) \<longleftrightarrow>
       (a = L \<and> backend \<in> set (ar_backends linear_architecture) \<and> task \<in> set (ar_tasks linear_architecture) \<or>
        a = M \<and> backend \<in> set (ar_backends mlp_architecture) \<and> task \<in> set (ar_tasks mlp_architecture)) \<and> f = F \<and>
       a \<in> set (cf_architectures npz_format) \<and>
       a = (if A = Z then if P then L else M else A) \<and> f = (if X = Z then F else X)"
      unfolding resolve_contract_eq implemented_architectures output_formats L_def M_def F_def Z_def A_def X_def P_def
      by blast
    then show ?thesis
      unfolding fields list.set L_def [symmetric] M_def [symmetric] P_def [symmetric] Q_def [symmetric] by blast
  qed
  have "Q \<longrightarrow> \<not> P" using distinct unfolding P_def Q_def by blast
  moreover have "Z \<noteq> L" "Z \<noteq> M" "Z \<noteq> F" "M \<noteq> L" unfolding L_def M_def F_def Z_def by simp_all
  ultimately show ?thesis
    unfolding L_def [symmetric] M_def [symmetric] F_def [symmetric] Z_def [symmetric] A_def [symmetric]
      X_def [symmetric] P_def [symmetric] Q_def [symmetric] eq
    by (cases "A = Z"; cases "X = Z"; cases P; cases Q) auto
qed

section \<open>Created runs\<close>

lemma resolve_run_InrE:
  assumes "resolve_run env c = Inr (architecture, model_format, pack, execution, profile, choice, batch)"
  obtains d where "ce_dataset env = Some d" "rc_objective c \<in> set (d_task_types d)"
    "resolve_training_contract (rc_architecture c) (rc_model_format c) (rc_backend c) (rc_objective c) = Inr (architecture, model_format)"
    "resolve_execution_target (Some (rc_execution c)) (ce_hardware env) = Inr execution"
    "execution_policy (ce_show env) (ce_packs env) (Some profile) (ce_hardware env) (Some execution) (Some pack) = Inr choice"
    "plan_batch (d_records d) (d_features d) profile (clamp 10 95 (default_int 70 (rc_ram c)))
          (ram_gb_of (ce_hardware env)) (rc_batch_mode c) (rc_batch_size c) = Inr batch"
proof -
  have k: "key_error_to_configuration r = Inr x \<longleftrightarrow> r = Inr x" for r :: "kerror + 'a" and x
    by (auto simp: key_error_to_configuration_def split: sum.splits kerror.splits)
  obtain d where d: "ce_dataset env = Some d" "rc_objective c \<in> set (d_task_types d)"
    and "\<exists>tasks. backend_task_types (rc_backend c) = Some tasks \<and> rc_objective c \<in> set tasks"
    using assms by (auto simp: resolve_run_def split: option.splits if_splits)
  with assms show ?thesis
    by (auto simp: resolve_run_def k intro!: that [of d] elim!: bind_result_InrE)
qed

lemma create_run_InrE:
  assumes "create_run env c = Inr r"
  obtains architecture model_format pack execution profile choice batch gpu threads workers prefetch where
    "resolve_run env c = Inr (architecture, model_format, pack, execution, profile, choice, batch)"
    "bp_requires_confirmation batch \<longrightarrow> rc_accept_batch_risk c" "rc_priority c \<in> {''high'', ''normal'', ''low''}"
    "gpu = clamp 0 100 (default_int (if execution = ''hybrid'' then 70 else 0) (rc_gpu c))"
    "execution = ''cpu'' \<longrightarrow> gpu = 0" "1 \<le> threads" "threads \<le> detected_threads (ce_hardware env)"
    "evaluation_settings_ok c (degradation_margin_of c)"
    "r = created_run env c architecture model_format profile execution pack batch
       (clamp 10 100 (default_int 70 (rc_cpu c))) (clamp 10 95 (default_int 70 (rc_ram c))) gpu threads workers prefetch"
proof -
  obtain architecture model_format pack execution profile choice batch where
    a: "resolve_run env c = Inr (architecture, model_format, pack, execution, profile, choice, batch)"
    using assms by (cases "resolve_run env c") (auto simp: create_run_def bind_result_def)
  define gpu where g: "gpu = clamp 0 100 (default_int (if execution = ''hybrid'' then 70 else 0) (rc_gpu c))"
  have b: "bp_requires_confirmation batch \<longrightarrow> rc_accept_batch_risk c" "rc_priority c \<in> {''high'', ''normal'', ''low''}"
      "\<not> (execution = ''cpu'' \<and> gpu \<noteq> 0)"
    using assms by (simp_all add: create_run_def a Let_def g split: if_splits)
  have n: "(bp_requires_confirmation batch \<and> \<not> rc_accept_batch_risk c) = False" "(rc_priority c \<notin> {''high'', ''normal'', ''low''}) = False"
      "(execution = ''cpu'' \<and> gpu \<noteq> 0) = False" using b by blast+
  define settle where "settle = (\<lambda>threads. if \<not> (1 \<le> threads \<and> threads \<le> detected_threads (ce_hardware env)) then Inl ConfigurationError else
          let workers = default_int (min (pk_data_workers (pc_policy choice)) (max 0 (threads - 1))) (rc_data_workers c);
              prefetch = default_int (pk_prefetch (pc_policy choice)) (rc_prefetch c)
          in if rc_base_run_id c \<notin> {None, Some []} \<and> \<not> ce_base_exists env then Inl RunError
             else if \<not> evaluation_settings_ok c (degradation_margin_of c) then Inl ConfigurationError
             else Inr (created_run env c architecture model_format profile execution pack batch
                    (clamp 10 100 (default_int 70 (rc_cpu c))) (clamp 10 95 (default_int 70 (rc_ram c))) gpu threads workers prefetch))"
  have "\<exists>threads. settle threads = Inr r"
  proof -
    have "bind_result (case rc_threads c of Some n \<Rightarrow> Inr n
            | None \<Rightarrow> bind_result (scaled_threads (detected_threads (ce_hardware env)) (clamp 10 100 (default_int 70 (rc_cpu c))) (pk_fraction (pc_policy choice)))
                        (\<lambda>n. Inr (max 1 (min (detected_threads (ce_hardware env)) n)))) settle = Inr r"
      using assms unfolding create_run_def a bind_result_simps Let_def prod.case settle_def g by (simp only: n [unfolded g] if_False)
    then show ?thesis by (elim bind_result_InrE) blast
  qed
  then obtain threads where t: "settle threads = Inr r" by blast
  then have "1 \<le> threads" "threads \<le> detected_threads (ce_hardware env)" "evaluation_settings_ok c (degradation_margin_of c)"
    by (simp_all add: settle_def Let_def split: if_splits)
  moreover from t have "\<exists>workers prefetch. r = created_run env c architecture model_format profile execution pack batch
       (clamp 10 100 (default_int 70 (rc_cpu c))) (clamp 10 95 (default_int 70 (rc_ram c))) gpu threads workers prefetch"
    by (auto simp: settle_def Let_def split: if_splits)
  ultimately show thesis using that a b g by blast
qed

lemma created_run_fields [simp]:
  "r_id (created_run env c a f pr ex pk b cpu ram gpu th wk pf) = ce_id env"
  "r_status (created_run env c a f pr ex pk b cpu ram gpu th wk pf) = Draft"
  "r_cpu (created_run env c a f pr ex pk b cpu ram gpu th wk pf) = cpu"
  "r_ram (created_run env c a f pr ex pk b cpu ram gpu th wk pf) = ram"
  "r_gpu (created_run env c a f pr ex pk b cpu ram gpu th wk pf) = gpu"
  "r_threads (created_run env c a f pr ex pk b cpu ram gpu th wk pf) = th"
  "r_step (created_run env c a f pr ex pk b cpu ram gpu th wk pf) = 0"
  "r_max_steps (created_run env c a f pr ex pk b cpu ram gpu th wk pf) = clamp 1 10000000 (rc_max_steps c)"
  "r_batch_size (created_run env c a f pr ex pk b cpu ram gpu th wk pf) = bp_applied b"
  "r_batch_min (created_run env c a f pr ex pk b cpu ram gpu th wk pf) = bp_safe_min b"
  "r_batch_max (created_run env c a f pr ex pk b cpu ram gpu th wk pf) = bp_safe_max b"
  "r_batch_mode (created_run env c a f pr ex pk b cpu ram gpu th wk pf) = rc_batch_mode c"
  "r_evaluation_interval (created_run env c a f pr ex pk b cpu ram gpu th wk pf) = rc_evaluation_interval c"
  "r_paused (created_run env c a f pr ex pk b cpu ram gpu th wk pf) = False"
  "r_stop_requested (created_run env c a f pr ex pk b cpu ram gpu th wk pf) = False"
  "r_execution (created_run env c a f pr ex pk b cpu ram gpu th wk pf) = ex"
  "r_priority (created_run env c a f pr ex pk b cpu ram gpu th wk pf) = rc_priority c"
  "r_backend (created_run env c a f pr ex pk b cpu ram gpu th wk pf) = rc_backend c"
  "r_architecture (created_run env c a f pr ex pk b cpu ram gpu th wk pf) = a"
  "r_data_workers (created_run env c a f pr ex pk b cpu ram gpu th wk pf) = clamp 0 64 wk"
  "r_prefetch (created_run env c a f pr ex pk b cpu ram gpu th wk pf) = clamp 0 32 pf"
  "r_early_stopping_patience (created_run env c a f pr ex pk b cpu ram gpu th wk pf) = rc_early_stopping_patience c"
  "r_metrics (created_run env c a f pr ex pk b cpu ram gpu th wk pf) = []"
  "r_best_score (created_run env c a f pr ex pk b cpu ram gpu th wk pf) = Fin 0"
  by (simp_all add: created_run_def) (simp_all add: run_new_def run_plan.defs run_info.defs)

text \<open>What every created run guarantees to the rest of the program.\<close>

definition run_ready :: "run_info \<Rightarrow> bool" where
  "run_ready r \<longleftrightarrow> r_status r = Draft \<and> r_step r = 0 \<and> 1 \<le> r_max_steps r \<and> r_max_steps r \<le> 10000000
     \<and> 10 \<le> r_cpu r \<and> r_cpu r \<le> 100 \<and> 10 \<le> r_ram r \<and> r_ram r \<le> 95 \<and> 0 \<le> r_gpu r \<and> r_gpu r \<le> 100
     \<and> (r_execution r = ''cpu'' \<longrightarrow> r_gpu r = 0) \<and> 1 \<le> r_threads r \<and> 0 < evaluation_interval r
     \<and> 1 \<le> r_batch_size r \<and> batch_ok r
     \<and> 0 \<le> r_data_workers r \<and> r_data_workers r \<le> 64 \<and> 0 \<le> r_prefetch r \<and> r_prefetch r \<le> 32"

lemma created_interval:
  assumes "evaluation_settings_ok c m"
  shows "0 < evaluation_interval (created_run env c a f pr ex pk b cpu ram gpu th wk pf)"
  using assms by (auto simp: evaluation_interval_def evaluation_settings_ok_def split: option.split)

lemma create_run_ready:
  assumes "create_run env c = Inr r" shows "run_ready r" and "r_id r = ce_id env"
    and "r_threads r \<le> detected_threads (ce_hardware env)"
proof -
  from assms obtain ar mf pk ex pr ch b gpu th wk pf where
    res: "resolve_run env c = Inr (ar, mf, pk, ex, pr, ch, b)"
    and gpu: "gpu = clamp 0 100 (default_int (if ex = ''hybrid'' then 70 else 0) (rc_gpu c))" "ex = ''cpu'' \<longrightarrow> gpu = 0"
    and th: "1 \<le> th" "th \<le> detected_threads (ce_hardware env)"
    and ev: "evaluation_settings_ok c (degradation_margin_of c)"
    and r: "r = created_run env c ar mf pr ex pk b
       (clamp 10 100 (default_int 70 (rc_cpu c))) (clamp 10 95 (default_int 70 (rc_ram c))) gpu th wk pf"
    by (rule create_run_InrE)
  obtain d :: dataset_info where pb: "plan_batch (d_records d) (d_features d) pr (clamp 10 95 (default_int 70 (rc_ram c)))
          (ram_gb_of (ce_hardware env)) (rc_batch_mode c) (rc_batch_size c) = Inr b"
    by (rule resolve_run_InrE [OF res])
  note bb = plan_batch_bounds [OF pb]
  have "batch_ok r" using bb by (auto simp: r batch_ok_def)
  moreover have "0 < evaluation_interval r" unfolding r by (rule created_interval [OF ev])
  ultimately show "run_ready r"
    using bb(5) gpu th by (simp add: run_ready_def r clamp_le)
  show "r_id r = ce_id env" "r_threads r \<le> detected_threads (ce_hardware env)" using th by (simp_all add: r)
qed

text \<open>A run that was created is a draft at step 0 with a positive step limit and evaluation
  interval, reservations inside the capacity (no GPU for CPU execution), threads the machine has,
  and an automatic batch inside its safe range.\<close>

theorem created_run_ready:
  assumes "create_run env c = Inr r"
  shows "run_ready r \<and> r_id r = ce_id env \<and> r_threads r \<le> detected_threads (ce_hardware env)"
  using create_run_ready [OF assms] by blast

lemma rt_create_fresh:
  "rt_create env c s = (Inr i, s') \<Longrightarrow> \<exists>r. create_run env c = Inr r \<and> i = r_id r \<and> s' = store_created (ce_now env) r s"
  by (auto simp: rt_create_def split: sum.splits)

text \<open>C12: From creation to the end: creating a run with a fresh id is a step of the control plane, and
  a worker that starts from the record, whatever status and message it has by then, ends its training
  after a number of iterations bounded by the step limit and the batch range.\<close>

theorem created_run_trains_to_end:
  assumes "create_run env c = Inr r" and "rt_run (r_id r) s = None" and "dict_get (r_id r) (rt_threads s) = None"
    and "run_plan.truncate w = run_plan.truncate r" and "r_batch_size w = r_batch_size r" and "r_step w = 0"
    and "loop_bound (bit_length (nat (r_batch_max w))) w < length inps"
  shows "rt_step rb s (snd (rt_create env c s)) \<and>
    ((\<exists>out t. run_loop le inps (loop_start now w fs) = Return out t) \<or>
     (\<exists>e t. run_loop le inps (loop_start now w fs) = Raise e t))"
proof
  note ready = create_run_ready [OF assms(1)]
  show "rt_step rb s (snd (rt_create env c s))"
    using ready assms(1-3) by (auto simp: rt_create_def run_ready_def reservations_ok_def intro!: rt_step.Create)
  note same = interval_truncate [OF assms(4)]
  have "loop_ok (loop_start now w fs)"
    using ready same batch_okI [OF _ assms(4,5)] assms(6) by (simp add: loop_ok_def run_ready_def loop_start_def)
  then have "run_loop le inps (loop_start now w fs) \<noteq> Continue t" for t
    using assms(7) by (intro run_loop_stops) (auto simp: loop_start_def)
  then show "(\<exists>out t. run_loop le inps (loop_start now w fs) = Return out t) \<or>
     (\<exists>e t. run_loop le inps (loop_start now w fs) = Raise e t)"
    by (cases "run_loop le inps (loop_start now w fs)") auto
qed

section \<open>A concrete run\<close>

definition demo_dataset :: dataset_info where
  "demo_dataset = \<lparr>d_id = ''d1'', d_source = ''rows.csv'', d_path = ''d1.npz'', d_records = 1000, d_features = 10,
     d_target = ''y'', d_classes = [''0'', ''1''], d_format = ''csv'', d_skipped = 0, d_sha256 = [],
     d_size_bytes = 0, d_task_types = [''binary_classification''], d_schema = [], d_manifest = [],
     d_warnings = [], d_reused = False, d_native_probe = [], d_created_at = 1\<rparr>"

definition demo_create :: create_env where
  "demo_create = \<lparr>ce_show = show_demo, ce_packs = NoFile,
     ce_hardware = \<lparr>hw_cpu_threads = 8, hw_ram_gb = Fin 1, hw_gpu_available = False\<rparr>,
     ce_dataset = Some demo_dataset, ce_base_exists = False, ce_id = ''r9'', ce_now = 1\<rparr>"

definition demo_config :: run_config where
  "demo_config = \<lparr>rc_dataset = ''d1'', rc_backend = ''native'', rc_objective = ''binary_classification'',
     rc_architecture = ''auto'', rc_model_format = ''auto'', rc_name = ''demo'', rc_mode = ''new'',
     rc_profile = ''auto'', rc_execution = ''auto'', rc_algorithm_pack = ''balanced'', rc_priority = ''normal'',
     rc_target_metric = Fin (9/10), rc_batch_mode = ''auto'', rc_batch_size = None, rc_max_steps = 100,
     rc_cpu = Some 40, rc_ram = Some 50, rc_gpu = None, rc_threads = Some 4, rc_base_run_id = None,
     rc_model_path = None, rc_accept_batch_risk = False, rc_seed = 42, rc_learning_rate = None,
     rc_weight_decay = Fin 0, rc_hidden_layers = [], rc_precision = ''auto'', rc_data_workers = None,
     rc_prefetch = None, rc_evaluation_interval = Some 20, rc_min_improvement = Fin 0,
     rc_degradation_margin = Some (Fin 1), rc_degradation_patience = 3, rc_early_stopping_patience = 18,
     rc_target_patience = 3, rc_data_contract = [], rc_split_policy = [], rc_chunk_policy = []\<rparr>"

lemma demo_clean:
  "clean_name ''auto'' = ''auto''" "clean_name ''cpu'' = ''cpu''" "clean_name ''kernelyra-npz'' = ''kernelyra-npz''"
  by code_simp+

lemma demo_batch: "\<exists>b. plan_batch 1000 10 ''balanced'' 50 (Fin 1) ''auto'' None = Inr b \<and> \<not> bp_requires_confirmation b"
  by (simp add: plan_batch_def profile_caps_def clamp_def memory_demo Let_def)

lemma demo_created_run: "\<exists>r. create_run demo_create demo_config = Inr r"
proof -
  have hw: "ce_hardware demo_create = \<lparr>hw_cpu_threads = 8, hw_ram_gb = Fin 1, hw_gpu_available = False\<rparr>"
    by (simp add: demo_create_def)
  obtain b where b: "plan_batch 1000 10 ''balanced'' 50 (Fin 1) ''auto'' None = Inr b" "\<not> bp_requires_confirmation b"
    using demo_batch by blast
  have contract: "resolve_training_contract ''auto'' ''auto'' ''native'' ''binary_classification'' = Inr (''linear'', ''kernelyra-npz'')"
    by (simp add: training_contract_exact demo_clean table_tasks_def)
  have n: "resolve_algorithm_pack show_demo NoFile (Some ''balanced'') = Inr ''balanced''"
    by (simp add: resolve_builtin builtin_packs_def)
  have ex: "resolve_execution_target (Some ''auto'') (ce_hardware demo_create) = Inr ''cpu''"
    "resolve_execution_target (Some ''cpu'') (ce_hardware demo_create) = Inr ''cpu''"
    by (simp_all add: resolve_execution_target_def or_string_def demo_clean hw)
  have prof: "legacy_profile_for_pack show_demo NoFile ''balanced'' = Inr ''balanced''"
    by (simp add: legacy_profile_for_pack_def n pack_profile_def)
  have get: "get_pack show_demo NoFile ''balanced'' = Inr (apply_effects balanced_pack)"
    by (simp add: get_pack_def normalise_builtin builtin_packs_def)
  obtain ch where ch: "execution_policy show_demo NoFile (Some ''balanced'') (ce_hardware demo_create) (Some ''cpu'') (Some ''balanced'') = Inr ch"
    by (simp add: execution_policy_def n ex get)
  have res: "resolve_run demo_create demo_config =
      Inr (''linear'', ''kernelyra-npz'', ''balanced'', ''cpu'', ''balanced'', ch, b)"
    using b(1) ch ex
    by (simp add: resolve_run_def demo_create_def demo_config_def demo_dataset_def backend_task_types_def backend_names_def
        task_types_def contract n prof key_error_to_configuration_def default_int_def ram_gb_of_def clamp_def)
  have threads: "detected_threads (ce_hardware demo_create) = 8" by (simp add: hw detected_threads_def)
  have "evaluation_settings_ok demo_config (degradation_margin_of demo_config)"
    by (simp add: evaluation_settings_ok_def degradation_margin_of_def demo_config_def)
  then show ?thesis
    using b(2) threads by (simp add: create_run_def res Let_def) (simp add: demo_config_def default_int_def clamp_def)
qed

lemma created_run_ready_witness:
  "\<exists>r. create_run demo_create demo_config = Inr r \<and> run_ready r \<and> r_id r = ''r9''"
proof -
  obtain r where "create_run demo_create demo_config = Inr r" using demo_created_run by blast
  with created_run_ready [OF this] show ?thesis by (auto simp: demo_create_def)
qed

lemma created_run_trains_to_end_witness:
  "\<exists>r n. create_run demo_create demo_config = Inr r \<and>
     ((\<exists>out t. run_loop demo_env (replicate n demo_input) (loop_start 1 r []) = Return out t) \<or>
      (\<exists>e t. run_loop demo_env (replicate n demo_input) (loop_start 1 r []) = Raise e t))"
proof -
  obtain r where r: "create_run demo_create demo_config = Inr r" using demo_created_run by blast
  have fresh: "rt_run (r_id r) (rt_new empty_store) = None" "dict_get (r_id r) (rt_threads (rt_new empty_store)) = None"
    by (simp_all add: rt_run_def rt_new_def get_run_def empty_store_def)
  have "r_step r = 0" using create_run_ready(1) [OF r] by (simp add: run_ready_def)
  define n where "n = Suc (loop_bound (bit_length (nat (r_batch_max r))) r)"
  have "loop_bound (bit_length (nat (r_batch_max r))) r < length (replicate n demo_input)" by (simp add: n_def)
  from created_run_trains_to_end [OF r fresh refl refl \<open>r_step r = 0\<close> this, of True demo_env 1 "[]"]
  show ?thesis using r by blast
qed

end
