(* ===== verification/Maintenance.thy ===== *)
theory Maintenance imports Files "HOL-Library.Multiset" begin

text \<open>
  Workspace maintenance of \<open>src/src/kernelyra/maintenance.py\<close>: the inspection of a state directory,
  the repair that moves unknown files to a recovery directory, the removal of pending files, and the
  import of a workspace manifest. The state directory is a tree of files; whether a process lives,
  the ASCII text of a file, a digest and the resolution of links are parameters.
\<close>

section \<open>Inspection\<close>

text \<open>What opening and checking \<open>runs.sqlite3\<close> gives: no file, an exception, a failed integrity check,
  or the rows.\<close>

datatype database = NoDatabase | Unreadable kerror | Inconsistent | Readable store

record finding =
  fi_kind :: string
  fi_pid :: "int option"
  fi_path :: "string list option"
  fi_safe :: bool

record probe =
  pr_ascii :: "content \<Rightarrow> string option"
  pr_signal :: "int \<Rightarrow> bool"

definition process_alive :: "probe \<Rightarrow> int \<Rightarrow> bool" where
  "process_alive env pid \<longleftrightarrow> 0 < pid \<and> pr_signal env pid"

definition pid_findings :: "probe \<Rightarrow> tree \<Rightarrow> int option \<times> finding list" where
  "pid_findings env t =
     (case dict_get [''daemon.pid''] t of
        None \<Rightarrow> (None, [])
      | Some c \<Rightarrow>
          (case (case pr_ascii env c of None \<Rightarrow> None | Some text \<Rightarrow> parse_int text) of
             None \<Rightarrow> (None, [\<lparr>fi_kind = ''invalid_pid'', fi_pid = None, fi_path = Some [''daemon.pid''], fi_safe = True\<rparr>])
           | Some pid \<Rightarrow>
               (Some pid,
                [if process_alive env pid
                 then \<lparr>fi_kind = ''live_daemon'', fi_pid = Some pid, fi_path = None, fi_safe = False\<rparr>
                 else \<lparr>fi_kind = ''stale_pid'', fi_pid = Some pid, fi_path = Some [''daemon.pid''], fi_safe = True\<rparr>])))"

text \<open>The ids of a database that passes the check; none for any other.\<close>

definition record_ids :: "database \<Rightarrow> string list \<times> string list" where
  "record_ids db = (case db of Readable s \<Rightarrow> (map d_id (list_datasets s), map r_id (list_runs s)) | _ \<Rightarrow> ([], []))"

definition database_findings :: "database \<Rightarrow> finding list" where
  "database_findings db = (case db of
      Unreadable e \<Rightarrow> [\<lparr>fi_kind = ''sqlite_corruption'', fi_pid = None, fi_path = Some [''runs.sqlite3''], fi_safe = False\<rparr>]
    | _ \<Rightarrow> [])"

definition scanned_folders :: "string list \<Rightarrow> string list \<Rightarrow> (string \<times> string \<times> string list \<times> string) list" where
  "scanned_folders dataset_ids run_ids =
     [(''datasets'', [], dataset_ids, ''orphan_dataset''), (''arrays'', ''.npz'', dataset_ids, ''orphan_array''),
      (''checkpoints'', ''.npz'', run_ids, ''orphan_checkpoint'')]"

definition belongs :: "string \<Rightarrow> string list \<Rightarrow> string \<Rightarrow> bool" where
  "belongs kind known name =
     (let identifier = (if kind = ''orphan_checkpoint'' then remove_suffix ''.last'' (path_stem name) else path_stem name)
      in if kind = ''orphan_dataset'' then list_ex (\<lambda>item. starts_with (item @ ''_'') name) known
         else identifier \<in> set known)"

definition is_orphan :: "string \<Rightarrow> string list \<Rightarrow> string \<Rightarrow> string \<Rightarrow> bool" where
  "is_orphan ext known kind name \<longleftrightarrow>
     \<not> (ext \<noteq> [] \<and> py_lower (path_suffix name) \<noteq> ext) \<and> \<not> belongs kind known name"

definition orphan_findings :: "database \<Rightarrow> tree \<Rightarrow> finding list" where
  "orphan_findings db t =
     (case record_ids db of (dataset_ids, run_ids) \<Rightarrow>
        concat (map (\<lambda>(folder, ext, known, kind).
            map (\<lambda>n. \<lparr>fi_kind = kind, fi_pid = None, fi_path = Some [folder, n], fi_safe = True\<rparr>)
              (filter (is_orphan ext known kind) (files_in folder t)))
          (scanned_folders dataset_ids run_ids)))"

definition inspect_workspace :: "probe \<Rightarrow> database \<Rightarrow> tree \<Rightarrow> int option \<times> finding list" where
  "inspect_workspace env db t =
     (case pid_findings env t of (pid, fs) \<Rightarrow> (pid, fs @ database_findings db @ orphan_findings db t))"

section \<open>Repair\<close>

definition pid_kinds :: "string set" where
  "pid_kinds = {''stale_pid'', ''invalid_pid''}"

record change =
  ch_kind :: string
  ch_from :: "string list"
  ch_to :: "string list option"

definition repair_item :: "string \<Rightarrow> finding \<Rightarrow> tree \<times> change list \<Rightarrow> tree \<times> change list" where
  "repair_item stamp f s =
     (case s of (t, changed) \<Rightarrow>
        if \<not> fi_safe f then (t, changed)
        else case fi_path f of
               None \<Rightarrow> (t, changed)
             | Some source \<Rightarrow>
                 if dict_get source t = None then (t, changed)
                 else if fi_kind f \<in> pid_kinds
                 then (dict_del [''daemon.lock''] (dict_del [''daemon.json''] (dict_del source t)),
                       changed @ [\<lparr>ch_kind = fi_kind f, ch_from = source, ch_to = None\<rparr>])
                 else let destination = free_slot [''recovery'', stamp] (last source) t 0
                      in (move_file source destination t,
                          changed @ [\<lparr>ch_kind = fi_kind f, ch_from = source, ch_to = Some destination\<rparr>]))"

definition repair_workspace ::
  "probe \<Rightarrow> string \<Rightarrow> bool \<Rightarrow> database \<Rightarrow> tree \<Rightarrow> kerror + (finding list \<times> tree \<times> change list)" where
  "repair_workspace env stamp really db t =
     (let fs = snd (inspect_workspace env db t) in
      if \<not> really then Inr (fs, t, [])
      else if list_ex (\<lambda>f. fi_kind f = ''live_daemon'') fs then Inl ConfigurationError
      else case fold (repair_item stamp) fs (t, []) of (t', changed) \<Rightarrow> Inr (fs, t', changed))"

section \<open>Pending files\<close>

definition cleanup_folders :: "string list" where
  "cleanup_folders = [''uploads'', ''datasets'', ''arrays'', ''checkpoints'']"

definition is_pending :: "string \<Rightarrow> bool" where
  "is_pending name \<longleftrightarrow> starts_with ''pending-'' name \<or> contains ''.pending'' name"

definition cleanup_candidates :: "tree \<Rightarrow> string list list" where
  "cleanup_candidates t =
     concat (map (\<lambda>d. map (\<lambda>n. [d, n]) (filter is_pending (files_in d t))) cleanup_folders)"

definition cleanup_workspace :: "bool \<Rightarrow> tree \<Rightarrow> string list list \<times> tree" where
  "cleanup_workspace really t =
     (let candidates = cleanup_candidates t in (candidates, if really then fold dict_del candidates t else t))"

section \<open>What a repair does\<close>

abbreviation (input) daemon_files :: "string list set" where
  "daemon_files \<equiv> {[''daemon.pid''], [''daemon.json''], [''daemon.lock'']}"

text \<open>The contents of the files of a tree, with their multiplicity, without the files of the daemon.\<close>

definition kept :: "tree \<Rightarrow> content multiset" where
  "kept t = image_mset snd (mset (filter (\<lambda>(p, c). p \<notin> daemon_files) t))"

lemma mset_dict_del: "dict_ok d \<Longrightarrow> dict_get k d = Some v \<Longrightarrow> mset d = add_mset (k, v) (mset (dict_del k d))"
proof (induction d)
  case (Cons x d)
  show ?case
  proof (cases "fst x = k")
    case True
    then have "k \<notin> fst ` set d" using Cons.prems(1) by (auto simp: dict_ok_def)
    then have "dict_del k d = d" by (simp add: dict_del_def)
    with True Cons.prems(2) show ?thesis by (cases x) (simp add: dict_del_def)
  next
    case False
    with Cons.prems have "mset d = add_mset (k, v) (mset (dict_del k d))"
      by (intro Cons.IH) (auto simp: dict_ok_def dict_get_def split: if_splits)
    with False show ?thesis by (cases x) (simp add: dict_del_def)
  qed
qed simp

lemma kept_del: "dict_ok t \<Longrightarrow> p \<notin> daemon_files \<Longrightarrow> dict_get p t = Some c \<Longrightarrow> kept t = add_mset c (kept (dict_del p t))"
  using mset_dict_del [of t p c] by (simp add: kept_def mset_filter)

lemma kept_del_daemon: "p \<in> daemon_files \<Longrightarrow> kept (dict_del p t) = kept t"
  unfolding kept_def dict_del_def by (induction t) auto

lemma kept_set_new: "q \<notin> daemon_files \<Longrightarrow> dict_get q t = None \<Longrightarrow> kept (dict_set q c t) = add_mset c (kept t)"
  by (simp add: kept_def dict_set_new)

lemma kept_move:
  assumes "dict_ok t" and "dict_get p t = Some c" and "dict_get q t = None" and "p \<notin> daemon_files" and "q \<notin> daemon_files"
  shows "kept (move_file p q t) = kept t"
proof -
  have "dict_get q (dict_del p t) = None" using assms(3) by (simp add: dict_get_del)
  then have "kept (dict_set q c (dict_del p t)) = add_mset c (kept (dict_del p t))" by (rule kept_set_new [OF assms(5)])
  then show ?thesis by (simp only: move_file_def assms(2) option.case kept_del [OF assms(1,4,2)])
qed

text \<open>A finding that says which file it is about, as \<open>inspect_workspace\<close> makes them.\<close>

definition finding_ok :: "finding \<Rightarrow> bool" where
  "finding_ok f \<longleftrightarrow> (fi_safe f \<longrightarrow> (if fi_kind f \<in> pid_kinds then fi_path f = Some [''daemon.pid'']
     else \<exists>folder n. folder \<noteq> ''recovery'' \<and> fi_path f = Some [folder, n]))"

lemma inspect_findings_ok: "f \<in> set (snd (inspect_workspace env db t)) \<Longrightarrow> finding_ok f"
  by (auto simp: inspect_workspace_def pid_findings_def database_findings_def orphan_findings_def scanned_folders_def
      finding_ok_def split: prod.splits option.splits if_splits database.splits simp: pid_kinds_def)

definition moves :: "finding \<Rightarrow> string list \<Rightarrow> bool" where
  "moves f p \<longleftrightarrow> fi_safe f \<and> fi_kind f \<notin> pid_kinds \<and> fi_path f = Some p"

lemma repair_item_step:
  assumes "finding_ok f" and "dict_ok t" and "repair_item stamp f (t, ch) = (t', ch')"
  shows "dict_ok t'" and "kept t' = kept t"
    and "length p = 2 \<Longrightarrow> dict_get p t' = (if moves f p then None else dict_get p t)"
    and "moves f p \<Longrightarrow> dict_get p t = Some c \<Longrightarrow> \<exists>q. dict_get [''recovery'', stamp, q] t' = Some c"
    and "dict_get [''recovery'', stamp, r] t = Some c \<Longrightarrow> dict_get [''recovery'', stamp, r] t' = Some c"
proof -
  have t': "t' = fst (repair_item stamp f (t, ch))" by (simp add: assms(3))
  consider "t' = t" "\<not> (\<exists>p. moves f p \<and> dict_get p t \<noteq> None)"
    | "fi_kind f \<in> pid_kinds" "t' = dict_del [''daemon.lock''] (dict_del [''daemon.json''] (dict_del [''daemon.pid''] t))"
    | folder n c0 where "moves f [folder, n]" "folder \<noteq> ''recovery''" "dict_get [folder, n] t = Some c0"
        "t' = move_file [folder, n] (free_slot [''recovery'', stamp] n t 0) t"
  proof (cases "fi_safe f")
    case False
    then show ?thesis by (intro that(1)) (simp_all add: t' repair_item_def moves_def)
  next
    case safe: True
    show ?thesis
    proof (cases "fi_kind f \<in> pid_kinds")
      case True
      then have path: "fi_path f = Some [''daemon.pid'']" using assms(1) safe by (simp add: finding_ok_def)
      show ?thesis
      proof (cases "dict_get [''daemon.pid''] t")
        case None
        then show ?thesis by (intro that(1)) (simp_all add: t' repair_item_def moves_def path True)
      next
        case Some
        then show ?thesis by (intro that(2) True) (simp add: t' repair_item_def safe path True)
      qed
    next
      case kind: False
      then obtain folder n where path: "folder \<noteq> ''recovery''" "fi_path f = Some [folder, n]"
        using assms(1) safe by (auto simp: finding_ok_def)
      show ?thesis
      proof (cases "dict_get [folder, n] t")
        case None
        then show ?thesis by (intro that(1)) (simp_all add: t' repair_item_def moves_def path(2) kind safe)
      next
        case (Some c0)
        then show ?thesis
          by (intro that(3) [of folder n c0] path(1)) (simp_all add: t' repair_item_def moves_def safe path(2) kind Let_def)
      qed
    qed
  qed
  then have "dict_ok t' \<and> kept t' = kept t
    \<and> (length p = 2 \<longrightarrow> dict_get p t' = (if moves f p then None else dict_get p t))
    \<and> (moves f p \<longrightarrow> dict_get p t = Some c \<longrightarrow> (\<exists>q. dict_get [''recovery'', stamp, q] t' = Some c))
    \<and> (dict_get [''recovery'', stamp, r] t = Some c \<longrightarrow> dict_get [''recovery'', stamp, r] t' = Some c)"
  proof cases
    case 1
    then show ?thesis using assms(2) by auto
  next
    case 2
    then show ?thesis using assms(2) by (auto simp: kept_del_daemon dict_ok_del dict_get_del moves_def)
  next
    case 3
    obtain q where q: "free_slot [''recovery'', stamp] n t 0 = [''recovery'', stamp, q]"
      using free_slot_in [of "[''recovery'', stamp]" n t 0] by auto
    have free: "dict_get [''recovery'', stamp, q] t = None" using free_slot_free [of "[''recovery'', stamp]" n t 0] q by simp
    have get: "dict_get r t' = (if r = [''recovery'', stamp, q] then Some c0 else if r = [folder, n] then None else dict_get r t)" for r
      unfolding 3(4) q by (rule move_file_get [OF assms(2) 3(3)])
    have only: "moves f p \<longleftrightarrow> p = [folder, n]" using 3(1) by (auto simp: moves_def)
    have "kept t' = kept t" unfolding 3(4) q by (rule kept_move [OF assms(2) 3(3) free]) simp_all
    moreover have "dict_ok t'" unfolding 3(4) by (rule move_file_ok [OF assms(2)])
    moreover have "length p = 2 \<longrightarrow> dict_get p t' = (if moves f p then None else dict_get p t)"
      unfolding only get by (cases "p = [folder, n]"; cases "p = [''recovery'', stamp, q]") simp_all
    moreover have "\<exists>q. dict_get [''recovery'', stamp, q] t' = Some c" if "moves f p" "dict_get p t = Some c"
      using that 3(3) get [of "[''recovery'', stamp, q]"] unfolding only by auto
    moreover have "dict_get [''recovery'', stamp, r] t' = Some c" if "dict_get [''recovery'', stamp, r] t = Some c"
      using that free unfolding get by (cases "r = q") simp_all
    ultimately show ?thesis by blast
  qed
  then show "dict_ok t'" "kept t' = kept t" "length p = 2 \<Longrightarrow> dict_get p t' = (if moves f p then None else dict_get p t)"
    "moves f p \<Longrightarrow> dict_get p t = Some c \<Longrightarrow> \<exists>q. dict_get [''recovery'', stamp, q] t' = Some c"
    "dict_get [''recovery'', stamp, r] t = Some c \<Longrightarrow> dict_get [''recovery'', stamp, r] t' = Some c" by blast+
qed

lemma repair_items:
  assumes "\<forall>f \<in> set fs. finding_ok f" and "dict_ok t" and "fold (repair_item stamp) fs (t, ch) = (t', ch')"
  shows "dict_ok t' \<and> kept t' = kept t
    \<and> (length p = 2 \<longrightarrow> dict_get p t' = (if \<exists>f \<in> set fs. moves f p then None else dict_get p t))
    \<and> ((\<exists>f \<in> set fs. moves f p) \<longrightarrow> length p = 2 \<longrightarrow> dict_get p t = Some c \<longrightarrow> (\<exists>q. dict_get [''recovery'', stamp, q] t' = Some c))
    \<and> (\<forall>r. dict_get [''recovery'', stamp, r] t = Some c \<longrightarrow> dict_get [''recovery'', stamp, r] t' = Some c)"
  using assms
proof (induction fs arbitrary: t ch)
  case (Cons f fs)
  obtain t1 ch1 where s: "repair_item stamp f (t, ch) = (t1, ch1)" by fastforce
  have fok: "finding_ok f" using Cons.prems(1) by simp
  note step = repair_item_step [OF fok Cons.prems(2) s]
  have rest: "fold (repair_item stamp) fs (t1, ch1) = (t', ch')" using Cons.prems(3) s by simp
  from Cons.IH [OF _ step(1) rest] Cons.prems(1) have ih: "dict_ok t' \<and> kept t' = kept t1
    \<and> (length p = 2 \<longrightarrow> dict_get p t' = (if \<exists>f \<in> set fs. moves f p then None else dict_get p t1))
    \<and> ((\<exists>f \<in> set fs. moves f p) \<longrightarrow> length p = 2 \<longrightarrow> dict_get p t1 = Some c \<longrightarrow> (\<exists>q. dict_get [''recovery'', stamp, q] t' = Some c))
    \<and> (\<forall>r. dict_get [''recovery'', stamp, r] t1 = Some c \<longrightarrow> dict_get [''recovery'', stamp, r] t' = Some c)" by simp
  have "(\<exists>q. dict_get [''recovery'', stamp, q] t' = Some c)"
    if m: "\<exists>g \<in> set (f # fs). moves g p" "length p = 2" "dict_get p t = Some c"
  proof (cases "moves f p")
    case True
    with step(4) [OF True m(3)] ih show ?thesis by blast
  next
    case False
    with m have "dict_get p t1 = Some c" using step(3) by simp
    with False m ih show ?thesis by auto
  qed
  with ih step(2) step(3) step(5) show ?case by auto
qed simp

lemma repair_applied:
  assumes "repair_workspace env stamp True db t = Inr (fs, t', ch)"
  shows "fs = snd (inspect_workspace env db t)" and "fold (repair_item stamp) fs (t, []) = (t', ch)"
  using assms by (auto simp: repair_workspace_def Let_def split: if_splits prod.splits)

lemma orphan_moves:
  assumes "record_ids db = (ids, rids)" and "(folder, ext, known, kind) \<in> set (scanned_folders ids rids)"
  shows "(\<exists>f \<in> set (snd (inspect_workspace env db t)). moves f [folder, n]) \<longleftrightarrow>
    dict_get [folder, n] t \<noteq> None \<and> is_orphan ext known kind n"
proof -
  have pids: "\<not> moves f [folder, n]" if "f \<in> set (snd (pid_findings env t)) \<union> set (database_findings db)" for f
    using that by (auto simp: pid_findings_def database_findings_def moves_def pid_kinds_def
        split: option.splits if_splits database.splits)
  have "(\<exists>f \<in> set (orphan_findings db t). moves f [folder, n]) \<longleftrightarrow> n \<in> set (files_in folder t) \<and> is_orphan ext known kind n"
    using assms(2) by (auto simp: orphan_findings_def assms(1) scanned_folders_def moves_def pid_kinds_def bex_Un)
  with pids show ?thesis
    by (auto simp: inspect_workspace_def files_in_iff split: prod.splits)
qed

lemma repair_effect:
  assumes "dict_ok t" and "repair_workspace env stamp True db t = Inr (fs, t', ch)" and "record_ids db = (ids, rids)"
    and "(folder, ext, known, kind) \<in> set (scanned_folders ids rids)"
  shows "is_orphan ext known kind n \<Longrightarrow> dict_get [folder, n] t = Some c \<Longrightarrow>
      dict_get [folder, n] t' = None \<and> (\<exists>q. dict_get [''recovery'', stamp, q] t' = Some c)"
    and "\<not> is_orphan ext known kind n \<Longrightarrow> dict_get [folder, n] t' = dict_get [folder, n] t"
proof -
  note r = repair_applied [OF assms(2)]
  have ok: "\<forall>f \<in> set fs. finding_ok f" unfolding r(1) using inspect_findings_ok by blast
  note m = orphan_moves [OF assms(3,4), of env t n, folded r(1)]
  note all = repair_items [OF ok assms(1) r(2), of "[folder, n]" c]
  show "is_orphan ext known kind n \<Longrightarrow> dict_get [folder, n] t = Some c \<Longrightarrow>
      dict_get [folder, n] t' = None \<and> (\<exists>q. dict_get [''recovery'', stamp, q] t' = Some c)"
    using m all by auto
  show "\<not> is_orphan ext known kind n \<Longrightarrow> dict_get [folder, n] t' = dict_get [folder, n] t"
    using m all by auto
qed

text \<open>C22: A repair destroys nothing: apart from the daemon's own three files, the contents of all files
  are afterwards the same with the same multiplicity, whatever the findings are and however many
  files of one name meet in the recovery directory; without \<open>apply\<close> nothing changes at all.\<close>

theorem repair_loses_nothing:
  assumes "dict_ok t" and "repair_workspace env stamp really db t = Inr (fs, t', ch)"
  shows "dict_ok t' \<and> kept t' = kept t \<and> (\<not> really \<longrightarrow> t' = t)"
proof (cases really)
  case True
  with assms(2) have "repair_workspace env stamp True db t = Inr (fs, t', ch)" by simp
  note r = repair_applied [OF this]
  have "\<forall>f \<in> set fs. finding_ok f" unfolding r(1) using inspect_findings_ok by blast
  from repair_items [OF this assms(1) r(2)] True show ?thesis by blast
next
  case False
  with assms show ?thesis by (simp add: repair_workspace_def Let_def)
qed

text \<open>Dataset and run ids as the program makes them: not empty, and no run id ends in \<open>.last\<close>.\<close>

definition ids_ok :: "store \<Rightarrow> bool" where
  "ids_ok s \<longleftrightarrow> (\<forall>d \<in> set (list_datasets s). d_id d \<noteq> []) \<and>
     (\<forall>r \<in> set (list_runs s). r_id r \<noteq> [] \<and> \<not> ends_with ''.last'' (r_id r))"

lemma npz_parts: "i \<noteq> [] \<Longrightarrow> path_suffix (i @ ''.npz'') = ''.npz'' \<and> path_stem (i @ ''.npz'') = i"
  using path_suffix_append [of i "''npz''"] by simp

text \<open>What the database knows stays where it is: when the database is readable, a repair leaves the
  file and the arrays of every registered dataset and both checkpoints of every run untouched.\<close>

theorem repair_spares_registered:
  assumes "dict_ok t" and "ids_ok s" and "repair_workspace env stamp True (Readable s) t = Inr (fs, t', ch)"
  shows "(\<forall>d \<in> set (list_datasets s). (\<forall>x. dict_get [''datasets'', d_id d @ ''_'' @ x] t' = dict_get [''datasets'', d_id d @ ''_'' @ x] t)
        \<and> dict_get [''arrays'', d_id d @ ''.npz''] t' = dict_get [''arrays'', d_id d @ ''.npz''] t)
    \<and> (\<forall>r \<in> set (list_runs s). dict_get [''checkpoints'', r_id r @ ''.npz''] t' = dict_get [''checkpoints'', r_id r @ ''.npz''] t
        \<and> dict_get [''checkpoints'', r_id r @ ''.last.npz''] t' = dict_get [''checkpoints'', r_id r @ ''.last.npz''] t)"
proof -
  note spare = repair_effect(2) [OF assms(1,3)]
  have ids: "record_ids (Readable s) = (map d_id (list_datasets s), map r_id (list_runs s))" by (simp add: record_ids_def)
  show ?thesis
  proof (intro conjI ballI allI)
    fix d x assume d: "d \<in> set (list_datasets s)"
    show "dict_get [''datasets'', d_id d @ ''_'' @ x] t' = dict_get [''datasets'', d_id d @ ''_'' @ x] t"
    proof (rule spare [OF ids])
      show "(''datasets'', [], map d_id (list_datasets s), ''orphan_dataset'')
          \<in> set (scanned_folders (map d_id (list_datasets s)) (map r_id (list_runs s)))" by (simp add: scanned_folders_def)
      have "starts_with (d_id d @ ''_'') (d_id d @ ''_'' @ x)" using starts_with_append [of "d_id d @ ''_''" x] by simp
      with d show "\<not> is_orphan [] (map d_id (list_datasets s)) ''orphan_dataset'' (d_id d @ ''_'' @ x)"
        by (auto simp: is_orphan_def belongs_def list_ex_iff)
    qed
    show "dict_get [''arrays'', d_id d @ ''.npz''] t' = dict_get [''arrays'', d_id d @ ''.npz''] t"
    proof (rule spare [OF ids])
      show "(''arrays'', ''.npz'', map d_id (list_datasets s), ''orphan_array'')
          \<in> set (scanned_folders (map d_id (list_datasets s)) (map r_id (list_runs s)))" by (simp add: scanned_folders_def)
      have "path_stem (d_id d @ ''.npz'') = d_id d" using assms(2) d npz_parts by (simp add: ids_ok_def)
      with d show "\<not> is_orphan ''.npz'' (map d_id (list_datasets s)) ''orphan_array'' (d_id d @ ''.npz'')"
        by (simp add: is_orphan_def belongs_def)
    qed
  next
    fix r assume r: "r \<in> set (list_runs s)"
    then have i: "r_id r \<noteq> []" "\<not> ends_with ''.last'' (r_id r)" using assms(2) by (auto simp: ids_ok_def)
    have c: "(''checkpoints'', ''.npz'', map r_id (list_runs s), ''orphan_checkpoint'')
        \<in> set (scanned_folders (map d_id (list_datasets s)) (map r_id (list_runs s)))" by (simp add: scanned_folders_def)
    have "belongs ''orphan_checkpoint'' (map r_id (list_runs s)) (r_id r @ ''.npz'')"
      using r i npz_parts [of "r_id r"] by (simp add: belongs_def remove_suffix_other)
    then show "dict_get [''checkpoints'', r_id r @ ''.npz''] t' = dict_get [''checkpoints'', r_id r @ ''.npz''] t"
      by (intro spare [OF ids c]) (simp add: is_orphan_def)
    have "belongs ''orphan_checkpoint'' (map r_id (list_runs s)) (r_id r @ ''.last.npz'')"
      using r npz_parts [of "r_id r @ ''.last''"] remove_suffix_append [of "''.last''" "r_id r"] by (simp add: belongs_def)
    then show "dict_get [''checkpoints'', r_id r @ ''.last.npz''] t' = dict_get [''checkpoints'', r_id r @ ''.last.npz''] t"
      by (intro spare [OF ids c]) (simp add: is_orphan_def)
  qed
qed

text \<open>With a database that cannot be read, the ids are empty, so a repair takes every file of a
  dataset, every array and every checkpoint for an orphan and moves all of them away.\<close>

theorem repair_of_corruption_moves_all:
  assumes "dict_ok t" and "\<forall>s. db \<noteq> Readable s" and "repair_workspace env stamp True db t = Inr (fs, t', ch)"
    and "dict_get [folder, n] t = Some c"
    and "folder = ''datasets'' \<or> folder \<in> {''arrays'', ''checkpoints''} \<and> py_lower (path_suffix n) = ''.npz''"
  shows "dict_get [folder, n] t' = None \<and> (\<exists>q. dict_get [''recovery'', stamp, q] t' = Some c)"
proof -
  have ids: "record_ids db = ([], [])" using assms(2) by (cases db) (simp_all add: record_ids_def)
  have in_scan: "(''datasets'', [], [], ''orphan_dataset'') \<in> set (scanned_folders [] [])"
      "(''arrays'', ''.npz'', [], ''orphan_array'') \<in> set (scanned_folders [] [])"
      "(''checkpoints'', ''.npz'', [], ''orphan_checkpoint'') \<in> set (scanned_folders [] [])"
    by (simp_all add: scanned_folders_def)
  have none: "\<not> belongs kind [] n" for kind by (simp add: belongs_def Let_def)
  obtain ext kind where "(folder, ext, [], kind) \<in> set (scanned_folders [] [])" "is_orphan ext [] kind n"
    using assms(5) in_scan none unfolding is_orphan_def by blast
  from repair_effect(1) [OF assms(1,3) ids this assms(4)] show ?thesis .
qed

text \<open>Cleaning up deletes exactly the files of the four folders whose names mark them as pending, and
  no others; a dataset whose original name contains \<open>.pending\<close> is among them, registered or not.\<close>

theorem cleanup_exact:
  shows "dict_get p (snd (cleanup_workspace True t)) =
      (if \<exists>d \<in> set cleanup_folders. \<exists>n. p = [d, n] \<and> is_pending n then None else dict_get p t)
    \<and> is_pending (i @ ''_'' @ name @ ''.pending'' @ rest)"
proof -
  have del: "dict_get p (fold dict_del ps t) = (if p \<in> set ps then None else dict_get p t)" for ps
    by (induction ps arbitrary: t) (auto simp: dict_get_del)
  have "p \<in> set (cleanup_candidates t) \<longleftrightarrow> (\<exists>d \<in> set cleanup_folders. \<exists>n. p = [d, n] \<and> is_pending n) \<and> dict_get p t \<noteq> None"
    by (auto simp: cleanup_candidates_def files_in_iff)
  moreover have "contains ''.pending'' ((i @ ''_'' @ name) @ ''.pending'' @ rest)" unfolding contains_iff by blast
  then have "is_pending (i @ ''_'' @ name @ ''.pending'' @ rest)" by (simp add: is_pending_def)
  ultimately show ?thesis by (auto simp: cleanup_workspace_def Let_def del)
qed

section \<open>A workspace with one data set\<close>

definition demo_tree :: tree where
  "demo_tree = [([''datasets'', ''ds_1_a.csv''], Binary ''1''), ([''arrays'', ''ds_1.npz''], Binary ''2''),
     ([''arrays'', ''ds_9.npz''], Binary ''3''), ([''recovery'', ''s'', ''ds_9.npz''], Binary ''4'')]"

definition demo_probe :: probe where
  "demo_probe = \<lparr>pr_ascii = (\<lambda>_. None), pr_signal = (\<lambda>_. False)\<rparr>"

definition demo_info :: dataset_info where
  "demo_info = \<lparr>d_id = ''ds_1'', d_source = ''a.csv'', d_path = ''a.csv'', d_records = 40, d_features = 1,
     d_target = ''y'', d_classes = [], d_format = ''csv'', d_skipped = 0, d_sha256 = ''h'', d_size_bytes = 1,
     d_task_types = [''regression''], d_schema = [], d_manifest = [], d_warnings = [], d_reused = False,
     d_native_probe = [], d_created_at = 0\<rparr>"

definition demo_store :: store where
  "demo_store = save_dataset 1 demo_info empty_store"

lemma demo_tree_ok: "dict_ok demo_tree"
  by (simp add: demo_tree_def dict_ok_def)

lemma demo_repairs: "\<exists>fs t' ch. repair_workspace demo_probe ''s'' True db demo_tree = Inr (fs, t', ch)"
proof -
  have "pid_findings demo_probe demo_tree = (None, [])" by (simp add: pid_findings_def demo_tree_def dict_get_def)
  then have "\<not> list_ex (\<lambda>f. fi_kind f = ''live_daemon'') (snd (inspect_workspace demo_probe db demo_tree))"
    by (auto simp: inspect_workspace_def database_findings_def orphan_findings_def scanned_folders_def list_ex_iff
        split: database.splits prod.splits)
  then show ?thesis by (auto simp: repair_workspace_def Let_def split: prod.splits)
qed

theorem repair_loses_nothing_witness:
  "\<exists>fs t' ch. repair_workspace demo_probe ''s'' True Inconsistent demo_tree = Inr (fs, t', ch) \<and> kept t' = kept demo_tree"
  using demo_repairs [of Inconsistent] repair_loses_nothing [OF demo_tree_ok] by blast

theorem repair_spares_registered_witness:
  "\<exists>fs t' ch. repair_workspace demo_probe ''s'' True (Readable demo_store) demo_tree = Inr (fs, t', ch)
    \<and> dict_get [''arrays'', ''ds_1.npz''] t' = Some (Binary ''2'')"
proof -
  have ids: "list_datasets demo_store = [demo_info]" "list_runs demo_store = []"
    by (simp_all add: demo_store_def save_dataset_def empty_store_def list_datasets_def list_runs_def dict_set_def demo_info_def)
  then have "ids_ok demo_store" by (simp add: ids_ok_def demo_info_def)
  moreover obtain fs t' ch where r: "repair_workspace demo_probe ''s'' True (Readable demo_store) demo_tree = Inr (fs, t', ch)"
    using demo_repairs by blast
  ultimately have "dict_get [''arrays'', d_id demo_info @ ''.npz''] t' = dict_get [''arrays'', d_id demo_info @ ''.npz''] demo_tree"
    using repair_spares_registered [OF demo_tree_ok _ r] by (simp add: ids)
  with r show ?thesis by (simp add: demo_info_def demo_tree_def dict_get_def)
qed

theorem repair_of_corruption_moves_all_witness:
  "\<exists>fs t' ch. repair_workspace demo_probe ''s'' True Inconsistent demo_tree = Inr (fs, t', ch)
    \<and> dict_get [''datasets'', ''ds_1_a.csv''] t' = None"
proof -
  obtain fs t' ch where r: "repair_workspace demo_probe ''s'' True Inconsistent demo_tree = Inr (fs, t', ch)"
    using demo_repairs by blast
  have "dict_get [''datasets'', ''ds_1_a.csv''] demo_tree = Some (Binary ''1'')" by (simp add: demo_tree_def dict_get_def)
  from repair_of_corruption_moves_all [OF demo_tree_ok _ r this] r show ?thesis by simp
qed

end
