(* ===== verification/Manifests.thy ===== *)
theory Manifests imports Files begin

text \<open>
  The workspace manifest of \<open>src/src/kernelyra/maintenance.py\<close>: \<open>export_workspace_manifest\<close> writes the rows of
  the two tables without the paths of this machine, \<open>import_workspace_manifest\<close> checks them against the
  files that are there and stores them. A row is the JSON object \<open>storage/sqlite.py\<close> keeps for a data set
  or a run; paths are lists of parts.
\<close>

section \<open>Export\<close>

record tables =
  tb_datasets :: "(string, pydict) dict"
  tb_runs :: "(string, pydict) dict"

text \<open>\<open>mf_state\<close> is the state directory, \<open>mf_resolve\<close> follows links, \<open>mf_text\<close> is \<open>str\<close> on values
  that are no strings, and \<open>mf_digest\<close> the SHA-256 digest of a file.\<close>

record manifest_env =
  mf_state :: "string list"
  mf_resolve :: "string list \<Rightarrow> string list"
  mf_text :: "pyval \<Rightarrow> string"
  mf_digest :: "content \<Rightarrow> string"
  mf_now :: rat

definition str_of :: "manifest_env \<Rightarrow> pyval \<Rightarrow> string" where
  "str_of env v = (case v of VStr s \<Rightarrow> s | _ \<Rightarrow> mf_text env v)"

definition posix_text :: "string list \<Rightarrow> string" where
  "posix_text parts = concat (map (\<lambda>p. CHR ''/'' # p) parts)"

definition relative_text :: "string list \<Rightarrow> string" where
  "relative_text parts = (case posix_text parts of [] \<Rightarrow> ''.'' | _ # s \<Rightarrow> s)"

definition absolute_parts :: "manifest_env \<Rightarrow> string \<Rightarrow> string list" where
  "absolute_parts env s = mf_resolve env (posix_parts s)"

text \<open>\<open>relative_to\<close> raises \<open>ValueError\<close> for a path outside the directory.\<close>

definition relative_to :: "string list \<Rightarrow> string list \<Rightarrow> kerror + string list" where
  "relative_to dir p = (if take (length dir) p = dir then Inr (drop (length dir) p) else Inl ValueError)"

definition row_text :: "manifest_env \<Rightarrow> string \<Rightarrow> pydict \<Rightarrow> string" where
  "row_text env k row = (case dict_get k row of Some v \<Rightarrow> str_of env v | None \<Rightarrow> [])"

definition export_dataset :: "manifest_env \<Rightarrow> pydict \<Rightarrow> kerror + pyval" where
  "export_dataset env row =
     bind_result (relative_to (mf_resolve env (mf_state env)) (absolute_parts env (row_text env ''path'' row)))
       (\<lambda>rel. Inr (VDict (dict_set ''array_filename'' (VStr (row_text env ''id'' row @ ''.npz''))
          (dict_set ''storage_relative'' (VStr (relative_text rel)) (dict_del ''path'' row)))))"

definition export_run_row :: "manifest_env \<Rightarrow> pydict \<Rightarrow> pyval" where
  "export_run_row env row =
     VDict (dict_set ''model_filename''
       (case dict_get ''model_path'' row of
          Some v \<Rightarrow> if truthy v then VStr (path_name (str_of env v)) else VNone
        | None \<Rightarrow> VNone) (dict_del ''model_path'' row))"

fun each_row :: "(pydict \<Rightarrow> kerror + pyval) \<Rightarrow> pydict list \<Rightarrow> kerror + pyval list" where
  "each_row f [] = Inr []"
| "each_row f (row # rows) = bind_result (f row) (\<lambda>v. bind_result (each_row f rows) (\<lambda>vs. Inr (v # vs)))"

definition manifest_version :: string where
  "manifest_version = ''kernelyra-workspace-manifest/1''"

definition export_manifest :: "manifest_env \<Rightarrow> tables \<Rightarrow> kerror + pydict" where
  "export_manifest env tb =
     bind_result (each_row (export_dataset env) (map snd (tb_datasets tb))) (\<lambda>ds.
       Inr [(''contract_version'', VStr manifest_version), (''created_at'', VFloat (Fin (mf_now env))),
            (''datasets'', VList ds), (''runs'', VList (map (export_run_row env) (map snd (tb_runs tb))))])"

section \<open>Import\<close>

definition dataset_fields :: "string list" where
  "dataset_fields =
     [''id'', ''source'', ''path'', ''records'', ''features'', ''target'', ''classes'', ''format'', ''skipped'', ''sha256'',
      ''size_bytes'', ''task_types'', ''schema'', ''manifest'', ''warnings'', ''reused'', ''native_probe'', ''created_at'']"

definition dataset_defaults :: "rat \<Rightarrow> pydict" where
  "dataset_defaults now =
     [(''format'', VStr ''csv''), (''skipped'', VInt 0), (''sha256'', VStr []), (''size_bytes'', VInt 0),
      (''task_types'', VList [VStr ''binary_classification'']), (''schema'', VDict []), (''manifest'', VDict []),
      (''warnings'', VList []), (''reused'', VBool False), (''native_probe'', VDict []), (''created_at'', VFloat (Fin now))]"

text \<open>\<open>DatasetInfo(**raw, path=path)\<close>: an unknown, missing or doubled argument is a \<open>TypeError\<close>.\<close>

definition dataset_row :: "rat \<Rightarrow> string \<Rightarrow> pydict \<Rightarrow> kerror + pydict" where
  "dataset_row now p raw =
     (if dict_get ''path'' raw \<noteq> None \<or> \<not> set (dict_keys raw) \<subseteq> set dataset_fields
         \<or> \<not> {''id'', ''source'', ''records'', ''features'', ''target'', ''classes''} \<subseteq> set (dict_keys raw)
      then Inl TypeError
      else Inr (dict_merge (dataset_defaults now) (dict_set ''path'' (VStr p) raw)))"

definition safe_relative :: "string \<Rightarrow> string \<Rightarrow> bool" where
  "safe_relative relative_name array_filename \<longleftrightarrow>
     \<not> starts_with ''/'' relative_name \<and> ''..'' \<notin> set (posix_parts relative_name) \<and> path_name array_filename = array_filename"

definition inside :: "string list \<Rightarrow> string list \<Rightarrow> bool" where
  "inside dir p \<longleftrightarrow> length dir < length p \<and> take (length dir) p = dir"

definition import_dataset :: "manifest_env \<Rightarrow> tree \<Rightarrow> pyval \<Rightarrow> tables \<Rightarrow> kerror + tables" where
  "import_dataset env t v tb =
     (case v of VDict raw0 \<Rightarrow>
        let relative_name = row_text env ''storage_relative'' raw0;
            array_filename = row_text env ''array_filename'' raw0;
            raw = dict_del ''array_filename'' (dict_del ''storage_relative'' raw0)
        in if \<not> safe_relative relative_name array_filename then Inl ConfigurationError
           else let dataset_path = mf_resolve env (mf_state env @ posix_parts relative_name);
                    array_path = mf_state env @ ''arrays'' # posix_parts array_filename
                in if \<not> inside (mf_resolve env (mf_state env)) dataset_path then Inl ConfigurationError
                   else (case (dict_get dataset_path t, dict_get array_path t) of
                       (Some c, Some _) \<Rightarrow>
                         if dict_get ''sha256'' raw \<noteq> Some (VStr (mf_digest env c)) then Inl ConfigurationError
                         else bind_result (dataset_row (mf_now env) (posix_text dataset_path) raw)
                           (\<lambda>row. Inr (tb\<lparr>tb_datasets := dict_set (row_text env ''id'' row) row (tb_datasets tb)\<rparr>))
                     | _ \<Rightarrow> Inl ConfigurationError)
      | _ \<Rightarrow> Inl ConfigurationError)"

definition active_names :: "string list" where
  "active_names = [''queued'', ''training'', ''pausing'', ''stopping'']"

text \<open>A status that is a list or an object cannot be looked up in a set.\<close>

definition restored_run :: "pydict \<Rightarrow> kerror + pydict" where
  "restored_run raw0 =
     (let raw = dict_set ''model_path'' VNone (dict_del ''model_filename'' raw0) in
      case dict_get ''status'' raw of
        Some (VList _) \<Rightarrow> Inl TypeError
      | Some (VDict _) \<Rightarrow> Inl TypeError
      | Some (VStr s) \<Rightarrow>
          Inr (if s \<in> set active_names
               then dict_set ''termination_reason'' (VStr ''manifest_restore'') (dict_set ''status'' (VStr ''error_recoverable'') raw)
               else raw)
      | _ \<Rightarrow> Inr raw)"

definition import_run :: "manifest_env \<Rightarrow> pyval \<Rightarrow> tables \<Rightarrow> kerror + tables" where
  "import_run env v tb =
     (case v of VDict raw0 \<Rightarrow>
        bind_result (restored_run raw0) (\<lambda>raw.
          let row = normalize_run (mf_now env) raw
          in if \<not> set run_info_required \<subseteq> set (dict_keys row) then Inl TypeError
             else Inr (tb\<lparr>tb_runs := dict_set (row_text env ''id'' row) row (tb_runs tb)\<rparr>))
      | _ \<Rightarrow> Inl ConfigurationError)"

fun import_all :: "(pyval \<Rightarrow> 's \<Rightarrow> kerror + 's) \<Rightarrow> pyval list \<Rightarrow> 's \<Rightarrow> kerror + 's" where
  "import_all f [] tb = Inr tb"
| "import_all f (v # vs) tb = bind_result (f v tb) (import_all f vs)"

text \<open>Going through \<open>payload.get(key, [])\<close>: the keys of an object, the characters of a string.\<close>

definition records_of :: "string \<Rightarrow> pydict \<Rightarrow> kerror + pyval list" where
  "records_of key payload =
     (case dict_get key payload of
        None \<Rightarrow> Inr []
      | Some (VList vs) \<Rightarrow> Inr vs
      | Some (VDict d) \<Rightarrow> Inr (map VStr (dict_keys d))
      | Some (VStr s) \<Rightarrow> Inr (map (\<lambda>c. VStr [c]) s)
      | Some _ \<Rightarrow> Inl TypeError)"

text \<open>The file is at most 10 MB and holds a JSON object; rows stored before an exception stay stored, so the
  result is the exception or the final tables.\<close>

definition import_manifest :: "manifest_env \<Rightarrow> tree \<Rightarrow> int \<Rightarrow> pydict option \<Rightarrow> tables \<Rightarrow> kerror + tables" where
  "import_manifest env t bytes payload tb =
     (if 10 * 1024 * 1024 < bytes then Inl ConfigurationError
      else case payload of
        None \<Rightarrow> Inl ConfigurationError
      | Some m \<Rightarrow>
          if dict_get ''contract_version'' m \<noteq> Some (VStr manifest_version) then Inl ConfigurationError
          else bind_result (bind_result (records_of ''datasets'' m) (\<lambda>vs. import_all (import_dataset env t) vs tb)) (\<lambda>tb1.
               bind_result (records_of ''runs'' m) (\<lambda>vs. import_all (import_run env) vs tb1)))"

section \<open>Paths\<close>

definition good_part :: "string \<Rightarrow> bool" where
  "good_part p \<longleftrightarrow> p \<noteq> [] \<and> p \<noteq> ''.'' \<and> CHR ''/'' \<notin> set p"

lemma posix_text_simps [simp]: "posix_text [] = []" "posix_text (p # ps) = CHR ''/'' # p @ posix_text ps"
  by (simp_all add: posix_text_def)

lemma path_parts_name: "CHR ''/'' \<notin> set p \<Longrightarrow> path_parts acc (p @ s) = path_parts (rev p @ acc) s"
  by (induction p arbitrary: acc) auto

lemma path_parts_text:
  "CHR ''/'' \<notin> set p \<Longrightarrow> \<forall>q \<in> set ps. CHR ''/'' \<notin> set q \<Longrightarrow> path_parts acc (p @ posix_text ps) = (rev acc @ p) # ps"
proof (induction ps arbitrary: p acc)
  case Nil
  then show ?case using path_parts_name [of p acc "[]"] by simp
next
  case (Cons q ps)
  have "path_parts [] (q @ posix_text ps) = q # ps" using Cons.IH [of q "[]"] Cons.prems by simp
  then show ?case using Cons.prems by (simp add: path_parts_name)
qed

lemma posix_parts_text: "\<forall>p \<in> set ps. good_part p \<Longrightarrow> posix_parts (posix_text ps) = ps"
  by (cases ps) (auto simp: posix_parts_def good_part_def path_parts_text filter_id_conv)

lemma posix_parts_relative: "ps \<noteq> [] \<Longrightarrow> \<forall>p \<in> set ps. good_part p \<Longrightarrow> posix_parts (relative_text ps) = ps"
  by (cases ps) (auto simp: posix_parts_def relative_text_def good_part_def path_parts_text filter_id_conv)

lemma relative_text_no_slash: "ps \<noteq> [] \<Longrightarrow> \<forall>p \<in> set ps. good_part p \<Longrightarrow> \<not> starts_with ''/'' (relative_text ps)"
  by (cases ps; cases "hd ps") (auto simp: relative_text_def good_part_def starts_with_def)

lemma path_name_good: "good_part p \<Longrightarrow> path_name p = p \<and> posix_parts p = [p]"
  using path_parts_text [of p "[]" "[]"] by (auto simp: path_name_def posix_parts_def good_part_def)

lemma good_part_npz: "good_part i \<Longrightarrow> good_part (i @ ''.npz'')"
  by (auto simp: good_part_def)

section \<open>Rows\<close>

definition same_row :: "pydict \<Rightarrow> pydict \<Rightarrow> bool" where
  "same_row a b \<longleftrightarrow> (\<forall>k. dict_get k a = dict_get k b)"

lemma each_row_Inr: "each_row f rows = Inr vs \<longleftrightarrow> list_all2 (\<lambda>row v. f row = Inr v) rows vs"
  by (induction rows arbitrary: vs) (auto simp: bind_Inr_iff list_all2_Cons1)

lemma dict_keys_iff: "k \<in> set (dict_keys d) \<longleftrightarrow> dict_get k d \<noteq> None"
  using dict_get_None_iff by metis

text \<open>A row of a data set as \<open>asdict\<close> writes it, with its files in place.\<close>

definition dataset_ok :: "manifest_env \<Rightarrow> tree \<Rightarrow> string \<Rightarrow> pydict \<Rightarrow> bool" where
  "dataset_ok env t k row \<longleftrightarrow> dict_ok row \<and> set (dict_keys row) = set dataset_fields \<and> good_part k
     \<and> dict_get ''id'' row = Some (VStr k)
     \<and> (\<exists>rel c a. rel \<noteq> [] \<and> (\<forall>p \<in> set (mf_state env @ rel). good_part p) \<and> ''..'' \<notin> set rel
          \<and> dict_get ''path'' row = Some (VStr (posix_text (mf_state env @ rel)))
          \<and> mf_resolve env (mf_state env @ rel) = mf_state env @ rel
          \<and> dict_get (mf_state env @ rel) t = Some c \<and> dict_get (mf_state env @ [''arrays'', k @ ''.npz'']) t = Some a
          \<and> dict_get ''sha256'' row = Some (VStr (mf_digest env c)))"

lemma dataset_roundtrip:
  assumes "dataset_ok env t k row" and "mf_resolve env (mf_state env) = mf_state env"
  shows "\<exists>v row'. export_dataset env row = Inr v \<and> same_row row' row
    \<and> (\<forall>tb. import_dataset env t v tb = Inr (tb\<lparr>tb_datasets := dict_set k row' (tb_datasets tb)\<rparr>))"
proof -
  obtain rel c a where ok: "dict_ok row" "set (dict_keys row) = set dataset_fields" "good_part k" "dict_get ''id'' row = Some (VStr k)"
    and rel: "rel \<noteq> []" "\<forall>p \<in> set (mf_state env @ rel). good_part p" "''..'' \<notin> set rel"
      "dict_get ''path'' row = Some (VStr (posix_text (mf_state env @ rel)))" "mf_resolve env (mf_state env @ rel) = mf_state env @ rel"
    and files: "dict_get (mf_state env @ rel) t = Some c" "dict_get (mf_state env @ [''arrays'', k @ ''.npz'']) t = Some a"
      "dict_get ''sha256'' row = Some (VStr (mf_digest env c))"
    using assms(1) unfolding dataset_ok_def by blast
  define raw where "raw = dict_del ''path'' row"
  define raw0 where "raw0 = dict_set ''array_filename'' (VStr (k @ ''.npz'')) (dict_set ''storage_relative'' (VStr (relative_text rel)) raw)"
  have abs: "absolute_parts env (row_text env ''path'' row) = mf_state env @ rel"
    using rel(2) by (simp add: absolute_parts_def row_text_def rel(4) str_of_def posix_parts_text rel(5))
  have idk: "row_text env ''id'' row = k" by (simp add: row_text_def ok(4) str_of_def)
  have "export_dataset env row = Inr (VDict raw0)"
    unfolding export_dataset_def abs assms(2) idk by (simp add: relative_to_def raw0_def raw_def)
  moreover have absent: "dict_get ''storage_relative'' row = None" "dict_get ''array_filename'' row = None"
    unfolding dict_get_None_iff ok(2) by (simp_all add: dataset_fields_def)
  have get: "dict_get j (dict_del ''array_filename'' (dict_del ''storage_relative'' raw0)) = dict_get j raw" for j
    by (cases "j = ''array_filename''"; cases "j = ''storage_relative''")
      (simp_all add: raw0_def raw_def dict_get_del dict_get_set absent)
  define raw1 where "raw1 = dict_del ''array_filename'' (dict_del ''storage_relative'' raw0)"
  have raw1: "dict_ok raw1" "\<And>j. dict_get j raw1 = (if j = ''path'' then None else dict_get j row)"
    unfolding raw1_def get by (simp_all add: raw0_def raw_def dict_ok_del dict_ok_set ok(1) dict_get_del)
  define row' where "row' = dict_merge (dataset_defaults (mf_now env)) (dict_set ''path'' (VStr (posix_text (mf_state env @ rel))) raw1)"
  have keys: "j \<in> set (dict_keys raw1) \<longleftrightarrow> j \<noteq> ''path'' \<and> j \<in> set dataset_fields" for j
    by (simp add: dict_keys_iff raw1(2)) (metis dict_keys_iff ok(2) option.exhaust option.simps(3))
  have row: "dataset_row (mf_now env) (posix_text (mf_state env @ rel)) raw1 = Inr row'"
    by (simp add: dataset_row_def raw1(2) row'_def) (auto simp: keys dataset_fields_def)
  have same: "same_row row' row"
    unfolding same_row_def
  proof
    fix j
    have "dict_ok (dict_set ''path'' (VStr (posix_text (mf_state env @ rel))) raw1)" using raw1(1) by (rule dict_ok_set)
    then have "dict_get j row' = (case (if j = ''path'' then Some (VStr (posix_text (mf_state env @ rel))) else dict_get j row) of
        Some v \<Rightarrow> Some v | None \<Rightarrow> dict_get j (dataset_defaults (mf_now env)))"
      by (simp add: row'_def dict_get_merge dict_get_set raw1(2))
    moreover have "dict_get j (dataset_defaults (mf_now env)) = None" if "dict_get j row = None"
    proof -
      have "j \<notin> set dataset_fields" using that ok(2) by (simp add: dict_get_None_iff)
      then show ?thesis by (auto simp: dataset_defaults_def dataset_fields_def dict_get_None_iff dict_keys_def)
    qed
    ultimately show "dict_get j row' = dict_get j row" by (auto simp: rel(4) split: option.split)
  qed
  have imp: "import_dataset env t (VDict raw0) tb = Inr (tb\<lparr>tb_datasets := dict_set k row' (tb_datasets tb)\<rparr>)" for tb
  proof -
    have names: "row_text env ''storage_relative'' raw0 = relative_text rel" "row_text env ''array_filename'' raw0 = k @ ''.npz''"
      by (simp_all add: row_text_def raw0_def dict_get_set str_of_def)
    have good: "\<forall>p \<in> set rel. good_part p" using rel(2) by simp
    have parts: "posix_parts (relative_text rel) = rel" "posix_parts (k @ ''.npz'') = [k @ ''.npz'']"
      using posix_parts_relative [OF rel(1) good] path_name_good [OF good_part_npz [OF ok(3)]] by simp_all
    have safe: "safe_relative (relative_text rel) (k @ ''.npz'')"
      using relative_text_no_slash [OF rel(1) good] rel(3) path_name_good [OF good_part_npz [OF ok(3)]]
      by (simp add: safe_relative_def parts)
    have inside: "inside (mf_state env) (mf_state env @ rel)" using rel(1) by (simp add: inside_def)
    have key: "row_text env ''id'' row' = k" using same ok(4) by (simp add: same_row_def row_text_def str_of_def)
    have digest: "dict_get ''sha256'' raw1 = Some (VStr (mf_digest env c))" using files(3) by (simp add: raw1(2))
    show ?thesis
      by (simp add: import_dataset_def names safe parts rel(5) assms(2) inside files(1,2) raw1_def [symmetric] digest row key)
  qed
  show ?thesis using calculation same imp by blast
qed

text \<open>A row of a run as \<open>asdict\<close> writes it, and what a restored run looks like.\<close>

definition run_ok :: "string \<Rightarrow> pydict \<Rightarrow> bool" where
  "run_ok k row \<longleftrightarrow> dict_ok row \<and> set (dict_keys row) = set run_info_fields \<and> dict_get ''id'' row = Some (VStr k)
     \<and> (\<exists>s. dict_get ''status'' row = Some (VStr s))"

definition was_active :: "pydict \<Rightarrow> bool" where
  "was_active row \<longleftrightarrow> dict_get ''status'' row \<in> Some ` VStr ` set active_names"

definition recovered :: "pydict \<Rightarrow> string \<Rightarrow> pyval option" where
  "recovered row j =
     (if j = ''model_path'' then Some VNone
      else if was_active row \<and> j = ''status'' then Some (VStr ''error_recoverable'')
      else if was_active row \<and> j = ''termination_reason'' then Some (VStr ''manifest_restore'')
      else dict_get j row)"

lemma restored_row:
  assumes "dict_get ''status'' raw0 = Some (VStr s)"
  shows "\<exists>raw. restored_run raw0 = Inr raw \<and> (dict_ok raw0 \<longrightarrow> dict_ok raw)
    \<and> (\<forall>j. j \<noteq> ''model_filename'' \<longrightarrow> dict_get j raw = recovered raw0 j)"
proof -
  define raw1 where "raw1 = dict_set ''model_path'' VNone (dict_del ''model_filename'' raw0)"
  have get: "dict_get j raw1 = (if j = ''model_path'' then Some VNone else if j = ''model_filename'' then None else dict_get j raw0)" for j
    by (simp add: raw1_def dict_get_set dict_get_del)
  have st: "dict_get ''status'' raw1 = Some (VStr s)" by (simp add: get assms)
  have act: "was_active raw0 \<longleftrightarrow> s \<in> set active_names" by (auto simp: was_active_def assms)
  have ok: "dict_ok raw0 \<Longrightarrow> dict_ok raw1" by (simp add: raw1_def dict_ok_set dict_ok_del)
  show ?thesis
  proof (cases "s \<in> set active_names")
    case True
    then have "restored_run raw0 =
        Inr (dict_set ''termination_reason'' (VStr ''manifest_restore'') (dict_set ''status'' (VStr ''error_recoverable'') raw1))"
      using st by (simp add: restored_run_def raw1_def [symmetric])
    with True act ok show ?thesis by (auto simp: recovered_def dict_get_set get dict_ok_set)
  next
    case False
    then have "restored_run raw0 = Inr raw1" using st by (simp add: restored_run_def raw1_def [symmetric])
    with False act ok show ?thesis by (auto simp: recovered_def get)
  qed
qed

lemma run_roundtrip:
  assumes "run_ok k row"
  shows "\<exists>row'. (\<forall>j. dict_get j row' = recovered row j)
    \<and> (\<forall>tb. import_run env (export_run_row env row) tb = Inr (tb\<lparr>tb_runs := dict_set k row' (tb_runs tb)\<rparr>))"
proof -
  obtain s where ok: "dict_ok row" "set (dict_keys row) = set run_info_fields" "dict_get ''id'' row = Some (VStr k)"
    "dict_get ''status'' row = Some (VStr s)" using assms unfolding run_ok_def by blast
  obtain x where raw0: "export_run_row env row = VDict (dict_set ''model_filename'' x (dict_del ''model_path'' row))"
    by (simp add: export_run_row_def)
  define raw0 where "raw0 = dict_set ''model_filename'' x (dict_del ''model_path'' row)"
  have get: "dict_get j raw0 = (if j = ''model_filename'' then Some x else if j = ''model_path'' then None else dict_get j row)" for j
    by (simp add: raw0_def dict_get_set dict_get_del)
  have st: "dict_get ''status'' raw0 = Some (VStr s)" by (simp add: get ok(4))
  from restored_row [OF st] obtain raw where raw: "restored_run raw0 = Inr raw" "dict_ok raw"
      "\<And>j. j \<noteq> ''model_filename'' \<Longrightarrow> dict_get j raw = recovered raw0 j"
    using ok(1) by (auto simp: raw0_def dict_ok_set dict_ok_del)
  have field: "j \<in> set run_info_fields \<longleftrightarrow> dict_get j row \<noteq> None" for j
    using ok(2) dict_keys_iff [of j row] by simp
  have plain: "''model_filename'' \<notin> set run_info_fields" by (simp add: run_info_fields_def)
  have special: "''model_path'' \<in> set run_info_fields" "''termination_reason'' \<in> set run_info_fields" "''status'' \<in> set run_info_fields"
    by (simp_all add: run_info_fields_def)
  have same: "recovered raw0 j = recovered row j" if "j \<noteq> ''model_filename''" for j
    using that by (simp add: recovered_def was_active_def get)
  define row' where "row' = normalize_run (mf_now env) raw"
  have got: "dict_get j row' = recovered row j" for j
  proof (cases "j \<in> set run_info_fields")
    case True
    then have "j \<noteq> ''model_filename''" using plain by metis
    moreover from True field have "recovered row j \<noteq> None" by (auto simp: recovered_def)
    ultimately show ?thesis using True
      by (auto simp: row'_def normalize_run_lookup [OF raw(2)] raw(3) same)
  next
    case False
    then have "j \<noteq> ''model_path''" "j \<noteq> ''status''" "j \<noteq> ''termination_reason''" using special by metis+
    with False field show ?thesis by (simp add: row'_def normalize_run_lookup [OF raw(2)] recovered_def)
  qed
  have "set run_info_required \<subseteq> set (dict_keys row')"
  proof
    fix j assume "j \<in> set run_info_required"
    then have "dict_get j row \<noteq> None" using run_info_required_subset field by blast
    then show "j \<in> set (dict_keys row')" by (auto simp: dict_keys_iff got recovered_def)
  qed
  moreover have "row_text env ''id'' row' = k" by (simp add: row_text_def got recovered_def ok(3) str_of_def)
  ultimately have "import_run env (export_run_row env row) tb = Inr (tb\<lparr>tb_runs := dict_set k row' (tb_runs tb)\<rparr>)" for tb
    by (simp add: import_run_def raw0 raw0_def [symmetric] raw(1) row'_def [symmetric])
  with got show ?thesis by blast
qed

section \<open>Whole tables\<close>

context keyed_store
begin

lemma import_rows:
  assumes "list_all2 (\<lambda>(k, row) v. \<exists>row'. R row row' \<and> (\<forall>s. f v s = Inr (put k row' s))) rows vs" and "dict_ok rows"
    and "\<And>k row s. view (put k row s) = view s"
  shows "\<exists>s'. import_all f vs s = Inr s' \<and> view s' = view s
    \<and> (\<forall>k. case dict_get k rows of Some row \<Rightarrow> \<exists>row'. get k s' = Some row' \<and> R row row' | None \<Rightarrow> get k s' = get k s)"
  using assms(1,2)
proof (induction rows vs arbitrary: s rule: list_all2_induct)
  case (Cons x rows v vs)
  obtain k row where x: "x = (k, row)" by (cases x)
  with Cons obtain row' where row': "R row row'" "f v s = Inr (put k row' s)" by auto
  have ok: "dict_ok rows" "dict_get k rows = None" using Cons.prems x by (auto simp: dict_ok_def dict_get_None_iff dict_keys_def)
  from Cons.IH [OF ok(1), of "put k row' s"] obtain s' where s': "import_all f vs (put k row' s) = Inr s'"
      "view s' = view (put k row' s)"
      "\<And>j. case dict_get j rows of Some row \<Rightarrow> \<exists>row'. get j s' = Some row' \<and> R row row' | None \<Rightarrow> get j s' = get j (put k row' s)"
    by blast
  have "case dict_get j (x # rows) of Some row \<Rightarrow> \<exists>row'. get j s' = Some row' \<and> R row row' | None \<Rightarrow> get j s' = get j s" for j
    using s'(3) [of j] ok(2) row'(1) by (cases "j = k") (auto simp: x get_put split: option.splits)
  with s'(1,2) row'(2) assms(3) show ?case by auto
qed simp

end

interpretation dataset_table: keyed_store "\<lambda>k tb. dict_get k (tb_datasets tb)"
    "\<lambda>k v tb. tb\<lparr>tb_datasets := dict_set k v (tb_datasets tb)\<rparr>" "\<lambda>k tb. tb\<lparr>tb_datasets := dict_del k (tb_datasets tb)\<rparr>"
    "\<lambda>tb. dict_ok (tb_datasets tb)"
  by unfold_locales (auto simp: dict_get_set dict_get_del dict_ok_set dict_ok_del)

interpretation run_table: keyed_store "\<lambda>k tb. dict_get k (tb_runs tb)"
    "\<lambda>k v tb. tb\<lparr>tb_runs := dict_set k v (tb_runs tb)\<rparr>" "\<lambda>k tb. tb\<lparr>tb_runs := dict_del k (tb_runs tb)\<rparr>"
    "\<lambda>tb. dict_ok (tb_runs tb)"
  by unfold_locales (auto simp: dict_get_set dict_get_del dict_ok_set dict_ok_del)

definition tables_ok :: "manifest_env \<Rightarrow> tree \<Rightarrow> tables \<Rightarrow> bool" where
  "tables_ok env t tb \<longleftrightarrow> dict_ok (tb_datasets tb) \<and> dict_ok (tb_runs tb)
     \<and> (\<forall>(k, row) \<in> set (tb_datasets tb). dataset_ok env t k row) \<and> (\<forall>(k, row) \<in> set (tb_runs tb). run_ok k row)"

lemma dataset_rows:
  assumes "\<forall>(k, row) \<in> set rows. dataset_ok env t k row" and "mf_resolve env (mf_state env) = mf_state env"
  shows "\<exists>vs. list_all2 (\<lambda>(k, row) v. export_dataset env row = Inr v
      \<and> (\<exists>row'. same_row row' row \<and> (\<forall>s. import_dataset env t v s = Inr (s\<lparr>tb_datasets := dict_set k row' (tb_datasets s)\<rparr>)))) rows vs"
  using assms(1)
proof (induction rows)
  case Nil
  show ?case by (intro exI [of _ "[]"]) simp
next
  case (Cons x rows)
  obtain k row where x: "x = (k, row)" by (cases x)
  with Cons.prems obtain v where "export_dataset env row = Inr v"
    "\<exists>row'. same_row row' row \<and> (\<forall>s. import_dataset env t v s = Inr (s\<lparr>tb_datasets := dict_set k row' (tb_datasets s)\<rparr>))"
    using dataset_roundtrip [of env t k row] assms(2) by auto
  with Cons x show ?case by (auto simp: list_all2_Cons1 intro!: exI)
qed

definition no_tables :: tables where
  "no_tables = \<lparr>tb_datasets = [], tb_runs = []\<rparr>"

text \<open>A manifest brings a workspace back: exported tables whose files are in place import into an empty
  database with the same rows field by field, except that a run has no model path and that a run which
  was queued or live is recoverable and says it was restored.\<close>

theorem manifest_roundtrip:
  assumes "tables_ok env t tb" and "mf_resolve env (mf_state env) = mf_state env" and "bytes \<le> 10 * 1024 * 1024"
  shows "\<exists>m tb'. export_manifest env tb = Inr m \<and> import_manifest env t bytes (Some m) no_tables = Inr tb'
    \<and> (\<forall>k. case dict_get k (tb_datasets tb) of
          Some row \<Rightarrow> \<exists>row'. dict_get k (tb_datasets tb') = Some row' \<and> same_row row' row
        | None \<Rightarrow> dict_get k (tb_datasets tb') = None)
    \<and> (\<forall>k. case dict_get k (tb_runs tb) of
          Some row \<Rightarrow> \<exists>row'. dict_get k (tb_runs tb') = Some row' \<and> (\<forall>j. dict_get j row' = recovered row j)
        | None \<Rightarrow> dict_get k (tb_runs tb') = None)"
proof -
  obtain vs where vs: "list_all2 (\<lambda>(k, row) v. export_dataset env row = Inr v
      \<and> (\<exists>row'. same_row row' row \<and> (\<forall>s. import_dataset env t v s = Inr (s\<lparr>tb_datasets := dict_set k row' (tb_datasets s)\<rparr>)))) (tb_datasets tb) vs"
    using dataset_rows [OF _ assms(2), of "tb_datasets tb" t] assms(1) by (auto simp: tables_ok_def)
  have rows: "each_row (export_dataset env) (map snd (tb_datasets tb)) = Inr vs"
    unfolding each_row_Inr list_all2_map1 using vs by (rule list_all2_mono) auto
  have d: "list_all2 (\<lambda>(k, row) v. \<exists>row'. same_row row' row \<and> (\<forall>s. import_dataset env t v s = Inr (s\<lparr>tb_datasets := dict_set k row' (tb_datasets s)\<rparr>)))
      (tb_datasets tb) vs"
    using vs by (rule list_all2_mono) auto
  have ok: "dict_ok (tb_datasets tb)" "dict_ok (tb_runs tb)" using assms(1) by (simp_all add: tables_ok_def)
  from dataset_table.import_rows [where R = "\<lambda>row row'. same_row row' row" and view = tb_runs, OF d ok(1), of no_tables]
  obtain tb1 where tb1: "import_all (import_dataset env t) vs no_tables = Inr tb1" "tb_runs tb1 = tb_runs no_tables"
    "\<And>k. case dict_get k (tb_datasets tb) of Some row \<Rightarrow> \<exists>row'. dict_get k (tb_datasets tb1) = Some row' \<and> same_row row' row
      | None \<Rightarrow> dict_get k (tb_datasets tb1) = dict_get k (tb_datasets no_tables)" by auto
  have r: "list_all2 (\<lambda>(k, row) v. \<exists>row'. (\<forall>j. dict_get j row' = recovered row j)
      \<and> (\<forall>s. import_run env v s = Inr (s\<lparr>tb_runs := dict_set k row' (tb_runs s)\<rparr>)))
      (tb_runs tb) (map (export_run_row env) (map snd (tb_runs tb)))"
    using assms(1) run_roundtrip [of _ _ env] by (auto simp: tables_ok_def list_all2_map2 intro!: list_all2_same [THEN iffD2])
  from run_table.import_rows [where R = "\<lambda>row row'. \<forall>j. dict_get j row' = recovered row j" and view = tb_datasets, OF r ok(2), of tb1]
  obtain tb2 where tb2: "import_all (import_run env) (map (export_run_row env) (map snd (tb_runs tb))) tb1 = Inr tb2"
    "tb_datasets tb2 = tb_datasets tb1"
    "\<And>k. case dict_get k (tb_runs tb) of Some row \<Rightarrow> \<exists>row'. dict_get k (tb_runs tb2) = Some row' \<and> (\<forall>j. dict_get j row' = recovered row j)
      | None \<Rightarrow> dict_get k (tb_runs tb2) = dict_get k (tb_runs tb1)" by auto
  define m where "m = [(''contract_version'', VStr manifest_version), (''created_at'', VFloat (Fin (mf_now env))),
    (''datasets'', VList vs), (''runs'', VList (map (export_run_row env) (map snd (tb_runs tb))))]"
  have "export_manifest env tb = Inr m" by (simp add: export_manifest_def rows m_def)
  moreover have "import_manifest env t bytes (Some m) no_tables = Inr tb2"
    using assms(3) tb1(1) tb2(1) by (simp add: import_manifest_def m_def records_of_def)
  moreover have "case dict_get k (tb_datasets tb) of
        Some row \<Rightarrow> \<exists>row'. dict_get k (tb_datasets tb2) = Some row' \<and> same_row row' row
      | None \<Rightarrow> dict_get k (tb_datasets tb2) = None" for k
    using tb1(3) [of k] by (simp add: tb2(2) no_tables_def split: option.splits)
  moreover have "case dict_get k (tb_runs tb) of
        Some row \<Rightarrow> \<exists>row'. dict_get k (tb_runs tb2) = Some row' \<and> (\<forall>j. dict_get j row' = recovered row j)
      | None \<Rightarrow> dict_get k (tb_runs tb2) = None" for k
    using tb2(3) [of k] by (simp add: tb1(2) no_tables_def split: option.splits)
  ultimately show ?thesis by blast
qed

section \<open>What an import may do\<close>

definition run_inert :: "pydict \<Rightarrow> bool" where
  "run_inert row \<longleftrightarrow> dict_get ''status'' row \<notin> Some ` VStr ` set active_names \<and> dict_get ''model_path'' row = Some VNone"

definition dataset_inside :: "manifest_env \<Rightarrow> pydict \<Rightarrow> bool" where
  "dataset_inside env row \<longleftrightarrow>
     (\<exists>p. inside (mf_resolve env (mf_state env)) p \<and> dict_get ''path'' row = Some (VStr (posix_text p)))"

lemma restored_inert:
  assumes "restored_run raw0 = Inr raw" and "dict_ok raw0"
  shows "dict_ok raw \<and> run_inert raw"
proof -
  define raw1 where "raw1 = dict_set ''model_path'' VNone (dict_del ''model_filename'' raw0)"
  have "dict_ok raw1" "dict_get ''model_path'' raw1 = Some VNone" using assms(2) by (simp_all add: raw1_def dict_ok_set dict_ok_del)
  with assms(1) show ?thesis
    unfolding restored_run_def Let_def raw1_def [symmetric]
    by (auto simp: run_inert_def dict_ok_set active_names_def split: option.splits pyval.splits if_splits)
qed

lemma import_run_inert:
  assumes "import_run env v tb = Inr tb'" and "\<And>raw. v = VDict raw \<Longrightarrow> dict_ok raw"
  shows "\<exists>k row. tb' = tb\<lparr>tb_runs := dict_set k row (tb_runs tb)\<rparr> \<and> run_inert row"
proof -
  obtain raw0 raw where v: "v = VDict raw0" "restored_run raw0 = Inr raw"
    "tb' = tb\<lparr>tb_runs := dict_set (row_text env ''id'' (normalize_run (mf_now env) raw)) (normalize_run (mf_now env) raw) (tb_runs tb)\<rparr>"
    using assms(1) by (auto simp: import_run_def bind_Inr_iff Let_def split: pyval.splits if_splits)
  from restored_inert [OF v(2) assms(2) [OF v(1)]] have raw: "dict_ok raw" "run_inert raw" by simp_all
  have "''status'' \<in> set run_info_fields" "''model_path'' \<in> set run_info_fields" "normalize_extra (mf_now env) raw ''status'' = None"
    by (simp_all add: run_info_fields_def normalize_extra_def normalize_defaults_def normalize_tail_def)
  with raw have "run_inert (normalize_run (mf_now env) raw)"
    by (auto simp: run_inert_def normalize_run_lookup [OF raw(1)] split: option.splits)
  with v(3) show ?thesis by blast
qed

lemma import_dataset_inside:
  assumes "import_dataset env t v tb = Inr tb'"
    and "\<And>raw. v = VDict raw \<Longrightarrow> dict_ok raw"
  shows "\<exists>k row. tb' = tb\<lparr>tb_datasets := dict_set k row (tb_datasets tb)\<rparr> \<and> dataset_inside env row"
proof -
  obtain raw0 p raw row where v: "v = VDict raw0" "inside (mf_resolve env (mf_state env)) p"
    "raw = dict_del ''array_filename'' (dict_del ''storage_relative'' raw0)"
    "dataset_row (mf_now env) (posix_text p) raw = Inr row"
    "tb' = tb\<lparr>tb_datasets := dict_set (row_text env ''id'' row) row (tb_datasets tb)\<rparr>"
    using assms(1) by (auto simp: import_dataset_def bind_Inr_iff Let_def split: pyval.splits if_splits option.splits)
  have "dict_ok (dict_set ''path'' (VStr (posix_text p)) raw)" using assms(2) [OF v(1)] by (simp add: v(3) dict_ok_set dict_ok_del)
  then have "dict_get ''path'' row = Some (VStr (posix_text p))"
    using v(4) by (auto simp: dataset_row_def dict_get_merge split: if_splits)
  with v(2,5) show ?thesis by (auto simp: dataset_inside_def)
qed

lemma import_all_keeps:
  assumes "import_all f vs s = Inr s'" and "\<And>v s s'. v \<in> set vs \<Longrightarrow> f v s = Inr s' \<Longrightarrow> rel s s'"
    and "\<And>s. rel s s" and "\<And>a b c. rel a b \<Longrightarrow> rel b c \<Longrightarrow> rel a c"
  shows "rel s s'"
  using assms(1,2)
proof (induction vs arbitrary: s)
  case (Cons v vs)
  then obtain s1 where "f v s = Inr s1" "import_all f vs s1 = Inr s'" by (auto simp: bind_Inr_iff)
  with Cons assms(4) show ?case by (metis list.set_intros(1,2))
qed (use assms(3) in simp)

definition only_safe_changes :: "manifest_env \<Rightarrow> tables \<Rightarrow> tables \<Rightarrow> bool" where
  "only_safe_changes env tb tb' \<longleftrightarrow>
     (\<forall>k row. dict_get k (tb_runs tb') = Some row \<longrightarrow> dict_get k (tb_runs tb) = Some row \<or> run_inert row) \<and>
     (\<forall>k row. dict_get k (tb_datasets tb') = Some row \<longrightarrow> dict_get k (tb_datasets tb) = Some row \<or> dataset_inside env row)"

lemma safe_changes_trans:
  "only_safe_changes env a b \<Longrightarrow> only_safe_changes env b c \<Longrightarrow> only_safe_changes env a c"
  unfolding only_safe_changes_def by meson

text \<open>The records of a parsed JSON object have distinct keys.\<close>

definition json_ok :: "pydict \<Rightarrow> bool" where
  "json_ok m \<longleftrightarrow> (\<forall>key vs raw. dict_get key m = Some (VList vs) \<longrightarrow> VDict raw \<in> set vs \<longrightarrow> dict_ok raw)"

lemma records_ok: "json_ok m \<Longrightarrow> records_of key m = Inr vs \<Longrightarrow> VDict raw \<in> set vs \<Longrightarrow> dict_ok raw"
  by (auto simp: records_of_def json_ok_def split: option.splits pyval.splits)


text \<open>A workspace exports exactly when every data set lies inside the state directory: one that is
  attached from outside, as streaming does, makes the export raise a plain \<open>ValueError\<close>.\<close>

theorem export_needs_managed_files:
  "(if list_all (\<lambda>(k, row). take (length (mf_resolve env (mf_state env))) (absolute_parts env (row_text env ''path'' row))
        = mf_resolve env (mf_state env)) (tb_datasets tb)
    then \<exists>m. export_manifest env tb = Inr m else export_manifest env tb = Inl ValueError)"
proof -
  let ?in = "\<lambda>row. take (length (mf_resolve env (mf_state env))) (absolute_parts env (row_text env ''path'' row)) = mf_resolve env (mf_state env)"
  have one: "export_dataset env row = (if ?in row then Inr (VDict (dict_set ''array_filename'' (VStr (row_text env ''id'' row @ ''.npz''))
      (dict_set ''storage_relative'' (VStr (relative_text (drop (length (mf_resolve env (mf_state env)))
         (absolute_parts env (row_text env ''path'' row))))) (dict_del ''path'' row)))) else Inl ValueError)" for row
    by (simp add: export_dataset_def relative_to_def)
  have "if list_all ?in rows then \<exists>vs. each_row (export_dataset env) rows = Inr vs
      else each_row (export_dataset env) rows = Inl ValueError" for rows
    by (induction rows) (auto simp: one split: if_splits)
  from this [of "map snd (tb_datasets tb)"] show ?thesis
    by (auto simp: export_manifest_def list_all_iff split: if_splits)
qed

section \<open>A workspace with one data set and one run\<close>

definition demo_place :: manifest_env where
  "demo_place = \<lparr>mf_state = [''w'', ''s''], mf_resolve = id, mf_text = (\<lambda>_. []), mf_digest = (\<lambda>_. ''h''), mf_now = 0\<rparr>"

definition demo_dataset_row :: pydict where
  "demo_dataset_row = map (\<lambda>k. (k, if k = ''id'' then VStr ''d1'' else if k = ''path'' then VStr ''/w/s/datasets/d1_a.csv''
     else if k = ''sha256'' then VStr ''h'' else VNone)) dataset_fields"

definition demo_run_row :: pydict where
  "demo_run_row = map (\<lambda>k. (k, if k = ''id'' then VStr ''r1'' else if k = ''status'' then VStr ''training'' else VNone)) run_info_fields"

definition demo_place_files :: tree where
  "demo_place_files = [([''w'', ''s'', ''datasets'', ''d1_a.csv''], Binary ''1''), ([''w'', ''s'', ''arrays'', ''d1.npz''], Binary ''2'')]"

definition demo_tables :: tables where
  "demo_tables = \<lparr>tb_datasets = [(''d1'', demo_dataset_row)], tb_runs = [(''r1'', demo_run_row)]\<rparr>"

lemma dict_get_map_keys: "dict_get k (map (\<lambda>k. (k, f k)) ks) = (if k \<in> set ks then Some (f k) else None)"
  by (induction ks) auto

lemma dict_ok_map_keys: "distinct ks \<Longrightarrow> dict_ok (map (\<lambda>k. (k, f k)) ks)"
  by (simp add: dict_ok_def comp_def)

lemma demo_tables_ok: "tables_ok demo_place demo_place_files demo_tables"
proof -
  have "dataset_ok demo_place demo_place_files ''d1'' demo_dataset_row"
    unfolding dataset_ok_def demo_dataset_row_def dict_get_map_keys
  proof (intro conjI dict_ok_map_keys)
    show "distinct dataset_fields" by (simp add: dataset_fields_def)
    have "dict_get (mf_state demo_place @ [''datasets'', ''d1_a.csv'']) demo_place_files = Some (Binary ''1'')"
      "dict_get (mf_state demo_place @ [''arrays'', ''d1'' @ ''.npz'']) demo_place_files = Some (Binary ''2'')"
      by (simp_all add: demo_place_def demo_place_files_def dict_get_def)
    then show "\<exists>rel c a. rel \<noteq> [] \<and> (\<forall>p \<in> set (mf_state demo_place @ rel). good_part p) \<and> ''..'' \<notin> set rel
          \<and> (if ''path'' \<in> set dataset_fields
             then Some (if ''path'' = ''id'' then VStr ''d1'' else if ''path'' = ''path'' then VStr ''/w/s/datasets/d1_a.csv''
               else if ''path'' = ''sha256'' then VStr ''h'' else VNone) else None) = Some (VStr (posix_text (mf_state demo_place @ rel)))
          \<and> mf_resolve demo_place (mf_state demo_place @ rel) = mf_state demo_place @ rel
          \<and> dict_get (mf_state demo_place @ rel) demo_place_files = Some c
          \<and> dict_get (mf_state demo_place @ [''arrays'', ''d1'' @ ''.npz'']) demo_place_files = Some a
          \<and> (if ''sha256'' \<in> set dataset_fields
             then Some (if ''sha256'' = ''id'' then VStr ''d1'' else if ''sha256'' = ''path'' then VStr ''/w/s/datasets/d1_a.csv''
               else if ''sha256'' = ''sha256'' then VStr ''h'' else VNone) else None) = Some (VStr (mf_digest demo_place c))"
      by (intro exI [of _ "[''datasets'', ''d1_a.csv'']"])
        (simp add: demo_place_def good_part_def dataset_fields_def posix_text_def)
  qed (simp_all add: dict_keys_def comp_def good_part_def dataset_fields_def)
  moreover have "run_ok ''r1'' demo_run_row"
    unfolding run_ok_def demo_run_row_def dict_get_map_keys
  proof (intro conjI exI [of _ "''training''"] dict_ok_map_keys)
    show "distinct run_info_fields" by (simp add: run_info_fields_def)
  qed (simp_all add: dict_keys_def comp_def run_info_fields_def)
  ultimately show ?thesis by (simp add: tables_ok_def demo_tables_def dict_ok_def)
qed

theorem manifest_roundtrip_witness:
  "\<exists>m tb' row'. export_manifest demo_place demo_tables = Inr m
    \<and> import_manifest demo_place demo_place_files 100 (Some m) no_tables = Inr tb'
    \<and> dict_get ''r1'' (tb_runs tb') = Some row' \<and> dict_get ''status'' row' = Some (VStr ''error_recoverable'')"
proof -
  have "mf_resolve demo_place (mf_state demo_place) = mf_state demo_place" by (simp add: demo_place_def)
  have "(100::int) \<le> 10 * 1024 * 1024" by simp
  from manifest_roundtrip [OF demo_tables_ok \<open>mf_resolve demo_place (mf_state demo_place) = mf_state demo_place\<close> this] obtain m tb' where
    m: "export_manifest demo_place demo_tables = Inr m" "import_manifest demo_place demo_place_files 100 (Some m) no_tables = Inr tb'"
    and runs: "\<forall>k. case dict_get k (tb_runs demo_tables) of
        Some row \<Rightarrow> \<exists>row'. dict_get k (tb_runs tb') = Some row' \<and> (\<forall>j. dict_get j row' = recovered row j)
      | None \<Rightarrow> dict_get k (tb_runs tb') = None" by blast
  have r1: "dict_get ''r1'' (tb_runs demo_tables) = Some demo_run_row" by (simp add: demo_tables_def)
  obtain row' where row': "dict_get ''r1'' (tb_runs tb') = Some row'" "\<forall>j. dict_get j row' = recovered demo_run_row j"
    using spec [OF runs, of "''r1''"] unfolding r1 option.case by blast
  have "recovered demo_run_row ''status'' = Some (VStr ''error_recoverable'')"
    by (simp add: recovered_def was_active_def demo_run_row_def dict_get_map_keys run_info_fields_def active_names_def)
  with m row' show ?thesis by metis
qed

definition demo_manifest :: pydict where
  "demo_manifest = [(''contract_version'', VStr manifest_version),
     (''runs'', VList [VDict [(''id'', VStr ''r1''), (''name'', VStr ''n''), (''dataset'', VStr ''d1''), (''status'', VStr ''training''), (''model_path'', VStr ''/etc/x'')]])]"

lemma required_present:
  assumes "dict_ok raw" and "\<forall>k \<in> {''id'', ''name'', ''dataset''}. dict_get k raw \<noteq> None"
  shows "set run_info_required \<subseteq> set (dict_keys (normalize_run now raw))"
proof
  fix k assume k: "k \<in> set run_info_required"
  then have f: "k \<in> set run_info_fields" using run_info_required_subset by blast
  have "dict_get k (normalize_run now raw) \<noteq> None"
  proof (cases "k \<in> {''id'', ''name'', ''dataset''}")
    case True
    with assms(2) have "dict_get k raw \<noteq> None" by blast
    then show ?thesis by (auto simp: normalize_run_lookup [OF assms(1)] f)
  next
    case False
    from normalize_extra_required [OF k False] f show ?thesis
      by (auto simp: normalize_run_lookup [OF assms(1)] split: option.split)
  qed
  then show "k \<in> set (dict_keys (normalize_run now raw))" by (simp add: dict_keys_iff)
qed


end
