(* ===== verification/Planning.thy ===== *)
theory Planning imports Tuning "HOL-Library.Word" begin

unbundle bit_operations_syntax

text \<open>
  Splits and chunks: \<open>src/src/kernelyra/planning.py\<close> (context-preserving splits and chunk ranges
  of streams) and \<open>backends/splitter.py\<close> (partitions of materialised arrays). The 64-bit mixing
  is on words. BLAKE2b, the optional native core and the NumPy generator are parameters.
\<close>

section \<open>Context splits\<close>

definition mix_u64 :: "64 word \<Rightarrow> 64 word" where
  "mix_u64 value0 =
     (let value = value0 + 0x9E3779B97F4A7C15;
          value = (value XOR drop_bit 30 value) * 0xBF58476D1CE4E5B9;
          value = (value XOR drop_bit 27 value) * 0x94D049BB133111EB
      in value XOR drop_bit 31 value)"

record planner =
  pl_target :: int
  pl_minimum :: int
  pl_maximum :: int
  pl_validation :: int
  pl_test :: int
  pl_seed :: "64 word"

definition planner_new :: "int \<Rightarrow> int option \<Rightarrow> int option \<Rightarrow> int \<Rightarrow> int \<Rightarrow> int \<Rightarrow> kerror + planner" where
  "planner_new target minimum maximum validation test seed =
     (let lo = (case minimum of Some n \<Rightarrow> n | None \<Rightarrow> target * 3 div 4);
          hi = (case maximum of Some n \<Rightarrow> n | None \<Rightarrow> target * 5 div 4)
      in if target \<le> 0 \<or> lo \<le> 0 \<or> hi < lo then Inl ValueError
         else if \<not> (lo \<le> target \<and> target \<le> hi) then Inl ValueError
         else if \<not> (0 \<le> validation \<and> validation \<le> 95) \<or> \<not> (0 \<le> test \<and> test \<le> 95) then Inl ValueError
         else if 95 < validation + test then Inl ValueError
         else Inr \<lparr>pl_target = target, pl_minimum = lo, pl_maximum = hi, pl_validation = validation,
                    pl_test = test, pl_seed = word_of_int seed\<rparr>)"

text \<open>A context is an integer, or anything else by the bytes that are hashed.\<close>

datatype context_id = IntContext int | PayloadContext string

definition context_u64 :: "(string \<Rightarrow> 64 word) \<Rightarrow> context_id \<Rightarrow> 64 word" where
  "context_u64 digest c = (case c of IntContext n \<Rightarrow> word_of_int n | PayloadContext s \<Rightarrow> digest s)"

datatype split = Train | Validation | Test

definition split_name :: "nat \<Rightarrow> split" where
  "split_name i = (if i = 0 then Train else if i = 1 then Validation else Test)"

text \<open>The native policy when the core is loaded, the Python policy otherwise.\<close>

type_synonym native_split = "(64 word \<Rightarrow> int \<Rightarrow> int \<Rightarrow> nat) option"

definition python_split :: "planner \<Rightarrow> 64 word \<Rightarrow> nat" where
  "python_split p key =
     (let bucket = uint (mix_u64 key) mod 100
      in if bucket < pl_validation p then 1 else if bucket < pl_validation p + pl_test p then 2 else 0)"

definition split_for :: "native_split \<Rightarrow> (string \<Rightarrow> 64 word) \<Rightarrow> planner \<Rightarrow> context_id \<Rightarrow> split" where
  "split_for core digest p c =
     (let key = context_u64 digest c
      in split_name (case core of Some f \<Rightarrow> f key (pl_validation p) (pl_test p) | None \<Rightarrow> python_split p key))"

text \<open>The result dictionary, as a function of the split name.\<close>

definition split_indices ::
  "native_split \<Rightarrow> (string \<Rightarrow> 64 word) \<Rightarrow> planner \<Rightarrow> context_id list \<Rightarrow> split \<Rightarrow> nat list" where
  "split_indices core digest p contexts =
     fold (\<lambda>(i, c) result. let s = split_for core digest p c in result(s := result s @ [i]))
       (zip [0..<length contexts] contexts) (\<lambda>_. [])"

definition partition_items ::
  "native_split \<Rightarrow> (string \<Rightarrow> 64 word) \<Rightarrow> planner \<Rightarrow> (context_id \<times> 'a) list \<Rightarrow> split \<Rightarrow> 'a list" where
  "partition_items core digest p items =
     fold (\<lambda>(c, x) result. let s = split_for core digest p c in result(s := result s @ [x])) items (\<lambda>_. [])"

section \<open>Chunk ranges\<close>

definition fallback_chunk_size :: "planner \<Rightarrow> int \<Rightarrow> int \<Rightarrow> int" where
  "fallback_chunk_size p remaining sequence =
     (let lower = min (max (pl_target p * 3 div 4) (pl_minimum p)) (pl_maximum p);
          upper = min (max (pl_target p * 5 div 4) lower) (pl_maximum p);
          proposed = lower + uint (mix_u64 (pl_seed p XOR word_of_int sequence)) mod (upper - lower + 1)
      in max (min proposed remaining) (min remaining (pl_minimum p)))"

text \<open>The loop of \<open>chunk_ranges\<close>, with the size policy as an argument.\<close>

function chunk_loop :: "(int \<Rightarrow> int \<Rightarrow> int) \<Rightarrow> int \<Rightarrow> int \<Rightarrow> int \<Rightarrow> kerror + (int \<times> int) list" where
  "chunk_loop next_size remaining start sequence =
     (if remaining = 0 then Inr [] else
      let k = next_size remaining sequence
      in if k \<le> 0 \<or> remaining < k then Inl RuntimeError
         else bind_result (chunk_loop next_size (remaining - k) (start + k) (sequence + 1))
                (\<lambda>ranges. Inr ((start, start + k) # ranges)))"
  by auto

termination by (relation "measure (\<lambda>(_, r, _, _). nat r)") auto

declare chunk_loop.simps [simp del]

definition chunk_ranges :: "(int \<Rightarrow> int \<Rightarrow> int) option \<Rightarrow> planner \<Rightarrow> int \<Rightarrow> kerror + (int \<times> int) list" where
  "chunk_ranges core p records =
     (if records < 0 then Inl ValueError
      else chunk_loop (case core of Some f \<Rightarrow> f | None \<Rightarrow> fallback_chunk_size p) records 0 0)"

record chunk_summary =
  cs_records :: int
  cs_count :: nat
  cs_target :: int
  cs_minimum :: int
  cs_maximum :: int
  cs_preview :: "(int \<times> int \<times> int) list"
  cs_truncated :: bool

definition chunk_summary_of :: "(int \<Rightarrow> int \<Rightarrow> int) option \<Rightarrow> planner \<Rightarrow> int \<Rightarrow> int \<Rightarrow> kerror + chunk_summary" where
  "chunk_summary_of core p records preview =
     bind_result (chunk_ranges core p records) (\<lambda>ranges.
       let sizes = map (\<lambda>(a, b). b - a) ranges; visible = nat (max 0 preview)
       in Inr \<lparr>cs_records = records, cs_count = length ranges, cs_target = pl_target p,
            cs_minimum = (if sizes = [] then 0 else fold min (tl sizes) (hd sizes)),
            cs_maximum = (if sizes = [] then 0 else fold max (tl sizes) (hd sizes)),
            cs_preview = map (\<lambda>(a, b). (a, b, b - a)) (take visible ranges),
            cs_truncated = (visible < length ranges)\<rparr>)"

text \<open>What a size policy owes the loop; the loop's promises follow from it.\<close>

locale chunk_policy =
  fixes next_size :: "'p \<Rightarrow> int \<Rightarrow> int \<Rightarrow> int"
    and ok :: "'p \<Rightarrow> bool"
    and least :: "'p \<Rightarrow> int"
    and most :: "'p \<Rightarrow> int"
  assumes size_fits: "ok p \<Longrightarrow> 0 < r \<Longrightarrow> next_size p r k \<le> r"
    and size_least: "ok p \<Longrightarrow> 0 < r \<Longrightarrow> min (least p) r \<le> next_size p r k"
    and size_most: "ok p \<Longrightarrow> 0 < r \<Longrightarrow> next_size p r k \<le> most p"
    and least_pos: "ok p \<Longrightarrow> 0 < least p"
begin

lemma loop_covers:
  "ok p \<Longrightarrow> 0 \<le> r \<Longrightarrow> \<exists>ranges. chunk_loop (next_size p) r start k = Inr ranges \<and>
     map fst (ranges) @ [start + r] = start # map snd ranges \<and>
     (\<forall>(a, b) \<in> set ranges. b - a \<le> most p \<and> a < b) \<and>
     (\<forall>(a, b) \<in> set (butlast ranges). least p \<le> b - a)"
proof (induction "next_size p" r start k rule: chunk_loop.induct)
  case (1 r start k)
  show ?case
  proof (cases "r = 0")
    case True
    then show ?thesis by (simp add: chunk_loop.simps)
  next
    case False
    with "1.prems" have r: "0 < r" by simp
    define n where "n = next_size p r k"
    have n: "0 < n" "n \<le> r" "n \<le> most p" "min (least p) r \<le> n"
      using size_fits [OF "1.prems"(1) r, of k] size_least [OF "1.prems"(1) r, of k]
        size_most [OF "1.prems"(1) r, of k] least_pos [OF "1.prems"(1)] r by (simp_all add: n_def min_def split: if_splits)
    obtain rs where rs: "chunk_loop (next_size p) (r - n) (start + n) (k + 1) = Inr rs"
      "map fst rs @ [start + n + (r - n)] = (start + n) # map snd rs"
      "\<forall>(a, b) \<in> set rs. b - a \<le> most p \<and> a < b" "\<forall>(a, b) \<in> set (butlast rs). least p \<le> b - a"
      using "1.hyps" [OF False n_def] "1.prems"(1) n by (auto simp: n_def)
    have "chunk_loop (next_size p) r start k = Inr ((start, start + n) # rs)"
      using False n rs(1) by (subst chunk_loop.simps) (simp add: n_def [symmetric])
    moreover have "least p \<le> n" if "rs \<noteq> []"
    proof -
      have "n \<noteq> r"
      proof
        assume "n = r"
        then have "chunk_loop (next_size p) (r - n) (start + n) (k + 1) = Inr []" by (simp add: chunk_loop.simps)
        with rs(1) that show False by simp
      qed
      with n show ?thesis by linarith
    qed
    ultimately show ?thesis using n rs by (auto simp: butlast.simps)
  qed
qed

end

definition planner_ok :: "planner \<Rightarrow> bool" where
  "planner_ok p \<longleftrightarrow> 0 < pl_minimum p \<and> pl_minimum p \<le> pl_target p \<and> pl_target p \<le> pl_maximum p
     \<and> 0 \<le> pl_validation p \<and> 0 \<le> pl_test p \<and> pl_validation p + pl_test p \<le> 95"

lemma planner_new_ok: "planner_new t lo hi v te seed = Inr p \<Longrightarrow> planner_ok p"
  by (auto simp: planner_new_def planner_ok_def Let_def split: if_splits)

lemma fallback_bounds:
  assumes "planner_ok p" and "0 < r"
  shows "fallback_chunk_size p r k \<le> r" "min (pl_minimum p) r \<le> fallback_chunk_size p r k"
    "fallback_chunk_size p r k \<le> pl_maximum p"
proof -
  define lower where "lower = min (max (pl_target p * 3 div 4) (pl_minimum p)) (pl_maximum p)"
  define upper where "upper = min (max (pl_target p * 5 div 4) lower) (pl_maximum p)"
  define q where "q = uint (mix_u64 (pl_seed p XOR word_of_int k)) mod (upper - lower + 1)"
  have lu: "lower \<le> upper" "upper \<le> pl_maximum p" "pl_minimum p \<le> pl_maximum p"
    using assms(1) by (auto simp: lower_def upper_def planner_ok_def)
  have "0 \<le> q" "q < upper - lower + 1"
    unfolding q_def by (rule pos_mod_sign, use lu in simp, rule pos_mod_bound, use lu in simp)
  then have q: "lower + q \<le> pl_maximum p" using lu by linarith
  have eq: "fallback_chunk_size p r k = max (min (lower + q) r) (min r (pl_minimum p))"
    by (simp only: fallback_chunk_size_def lower_def upper_def q_def Let_def)
  show "fallback_chunk_size p r k \<le> r" unfolding eq by simp
  show "min (pl_minimum p) r \<le> fallback_chunk_size p r k" unfolding eq by simp
  show "fallback_chunk_size p r k \<le> pl_maximum p" unfolding eq using q lu(3) by (simp add: min_le_iff_disj)
qed

interpretation fallback: chunk_policy fallback_chunk_size planner_ok pl_minimum pl_maximum
  by unfold_locales (use fallback_bounds in \<open>auto simp: planner_ok_def\<close>)

section \<open>Partitions of arrays\<close>

text \<open>\<open>permute k\<close> is what the seeded NumPy generator does to a list at its \<open>k\<close>-th call. The
  fractions are not negative.\<close>

definition partition_sizes :: "nat \<Rightarrow> pyfloat \<Rightarrow> pyfloat \<Rightarrow> kerror + int \<times> int \<times> int" where
  "partition_sizes n validation_fraction test_fraction =
     bind_result (py_round (fmul (f_of_int (int n)) validation_fraction)) (\<lambda>v.
     bind_result (py_round (fmul (f_of_int (int n)) test_fraction)) (\<lambda>t.
       let validation = max 16 v; test = max 1 t; train = int n - validation - test
       in if train < 8 then Inl ValueError else Inr (train, validation, test)))"

definition class_counts :: "nat \<Rightarrow> pyfloat \<Rightarrow> pyfloat \<Rightarrow> kerror + nat \<times> nat" where
  "class_counts n validation_fraction test_fraction =
     bind_result (py_round (fmul (f_of_int (int n)) test_fraction)) (\<lambda>t0.
     bind_result (py_round (fmul (f_of_int (int n)) validation_fraction)) (\<lambda>v0.
       let t1 = (if 3 \<le> n then max 1 t0 else t0); v1 = (if 3 \<le> n then max 1 v0 else v0);
           t = min t1 (max 0 (int n - 1)); v = min v1 (max 0 (int n - t - 1))
       in Inr (nat t, nat v)))"

definition label_positions :: "'k list \<Rightarrow> 'k \<Rightarrow> nat list" where
  "label_positions y l = filter (\<lambda>i. y ! i = l) [0..<length y]"

fun stratify ::
  "(nat \<Rightarrow> nat list \<Rightarrow> nat list) \<Rightarrow> pyfloat \<Rightarrow> pyfloat \<Rightarrow> 'k list \<Rightarrow> nat \<Rightarrow> 'k list
     \<Rightarrow> kerror + nat list \<times> nat list \<times> nat list" where
  "stratify permute vf tf y k [] = Inr ([], [], [])"
| "stratify permute vf tf y k (l # labels) =
     (let vals = permute k (label_positions y l) in
      bind_result (class_counts (length vals) vf tf) (\<lambda>(t, v).
      bind_result (stratify permute vf tf y (k + 1) labels) (\<lambda>(train, validation, test).
        Inr (drop (t + v) vals @ train, take v (drop t vals) @ validation, take t vals @ test))))"

definition stratified_indices ::
  "(nat \<Rightarrow> nat list \<Rightarrow> nat list) \<Rightarrow> pyfloat \<Rightarrow> pyfloat \<Rightarrow> ('k :: linorder) list
     \<Rightarrow> kerror + nat list \<times> nat list \<times> nat list" where
  "stratified_indices permute vf tf y =
     (let labels = sort (remdups y); k = length labels in
      bind_result (stratify permute vf tf y 0 labels) (\<lambda>(train, validation, test).
        if length train < 8 \<or> length validation < 1 \<or> length test < 1 then Inl ValueError
        else Inr (permute k train, permute (k + 1) validation, permute (k + 2) test)))"

definition split_rows ::
  "(nat \<Rightarrow> nat list \<Rightarrow> nat list) \<Rightarrow> string \<Rightarrow> string \<Rightarrow> pyfloat \<Rightarrow> pyfloat \<Rightarrow> ('a \<times> ('k :: linorder)) list
     \<Rightarrow> kerror + ('a \<times> 'k) list \<times> ('a \<times> 'k) list \<times> ('a \<times> 'k) list" where
  "split_rows permute strategy task_type vf tf rows =
     bind_result (partition_sizes (length rows) vf tf) (\<lambda>(train, validation, test).
       if strategy = ''stratified'' \<and> task_type \<in> {''binary_classification'', ''multiclass_classification''}
       then bind_result (stratified_indices permute vf tf (map snd rows)) (\<lambda>(tr, va, te).
              Inr (map (nth rows) tr, map (nth rows) va, map (nth rows) te))
       else let order = (if strategy = ''temporal'' then [0..<length rows] else permute 0 [0..<length rows]);
                xs = map (nth rows) order; a = nat train; b = nat (train + validation)
            in Inr (KPrelude.slice 0 a xs, KPrelude.slice a b xs, KPrelude.slice b (b + nat test) xs))"

section \<open>What the splits keep\<close>

lemma fold_collect:
  "fold (\<lambda>(i, c) result. let s = f c in result(s := result s @ [i])) xs r s
     = r s @ map fst (filter (\<lambda>(i, c). f c = s) xs)"
  by (induction xs arbitrary: r) (auto simp: Let_def)

lemma split_indices_eq:
  "split_indices core digest p cs s = filter (\<lambda>i. split_for core digest p (cs ! i) = s) [0..<length cs]"
proof -
  have "map fst (filter (\<lambda>(i, c). P c) (zip [0..<length cs] cs)) = filter (\<lambda>i. P (cs ! i)) [0..<length cs]" for P
    by (induction cs rule: rev_induct) (auto simp: nth_append intro!: filter_cong)
  then show ?thesis by (simp add: split_indices_def fold_collect)
qed

lemma mset_filter_parts:
  "mset (filter (\<lambda>x. g x = Train) xs) + mset (filter (\<lambda>x. g x = Validation) xs) + mset (filter (\<lambda>x. g x = Test) xs) = mset xs"
  by (induction xs) (auto split: split.split, (metis split.exhaust)+)

lemma to_float_nonneg: "0 \<le> x \<Longrightarrow> to_float x = Fin r \<Longrightarrow> 0 \<le> r"
  using round64_nonneg [of x] float_limit_pos by (auto simp: to_float_def Let_def split: if_splits)

lemma scaled_nonneg:
  assumes "fle (Fin 0) f" and "py_round (fmul (f_of_int (int n)) f) = Inr k" shows "0 \<le> k"
proof -
  obtain a where a: "fmul (f_of_int (int n)) f = Fin a" "k = round_even a"
    using assms(2) by (cases "fmul (f_of_int (int n)) f") (auto simp: py_round_def)
  obtain b where b: "f_of_int (int n) = Fin b"
    using a(1) assms(1) by (cases "f_of_int (int n)"; cases f) (auto simp: inf_of_sign_def fle_def feq_def split: if_splits)
  then have "0 \<le> b" using to_float_nonneg [of "of_nat n" b] by (simp add: f_of_int_def)
  moreover obtain c where "f = Fin c" "0 \<le> c"
    using a(1) assms(1) b by (cases f) (auto simp: inf_of_sign_def fle_def feq_def split: if_splits)
  ultimately have "0 \<le> a" using a(1) b to_float_nonneg [of "b * c" a] by simp
  then show ?thesis by (simp add: a(2) round_even_nonneg)
qed

lemma class_counts_bounds:
  assumes "class_counts n vf tf = Inr (t, v)" and "fle (Fin 0) tf" and "0 < n" shows "t + v < n"
proof -
  from assms obtain t0 v1 where t0: "py_round (fmul (f_of_int (int n)) tf) = Inr t0"
    and tv: "t = nat (min (if 3 \<le> n then max 1 t0 else t0) (max 0 (int n - 1)))"
    "v = nat (min v1 (max 0 (int n - min (if 3 \<le> n then max 1 t0 else t0) (max 0 (int n - 1)) - 1)))"
    unfolding class_counts_def by (elim bind_result_InrE) (auto simp: Let_def)
  define t1 where "t1 = (if 3 \<le> n then max 1 t0 else t0)"
  define a where "a = min t1 (max 0 (int n - 1))"
  define b where "b = min v1 (max 0 (int n - a - 1))"
  have tv: "t = nat a" "v = nat b" by (simp_all only: tv a_def b_def t1_def)
  have "0 \<le> t1" using scaled_nonneg [OF assms(2) t0] by (auto simp: t1_def le_max_iff_disj)
  then have "0 \<le> a" "a \<le> int n - 1" "b \<le> int n - a - 1" using assms(3) by (simp_all add: a_def b_def)
  then show "t + v < n" unfolding tv using assms(3) by linarith
qed

lemma mset_three_parts:
  "mset (drop (t + v) xs) + mset (take v (drop t xs)) + mset (take t xs) = mset xs"
proof -
  have "mset (take v (drop t xs)) + mset (drop v (drop t xs)) = mset (drop t xs)"
    by (metis append_take_drop_id mset_append)
  moreover have "mset (take t xs) + mset (drop t xs) = mset xs" by (metis append_take_drop_id mset_append)
  ultimately show ?thesis by (simp add: add_ac)
qed

lemma stratify_parts:
  assumes perm: "\<And>k xs. mset (permute k xs) = mset xs" and tf: "fle (Fin 0) tf"
  shows "stratify permute vf tf y k labels = Inr (train, validation, test) \<Longrightarrow> distinct labels \<Longrightarrow>
    mset train + mset validation + mset test = mset (filter (\<lambda>i. y ! i \<in> set labels) [0..<length y])
    \<and> (\<forall>l \<in> set labels. l \<in> set y \<longrightarrow> (\<exists>i \<in> set train. y ! i = l))"
proof (induction labels arbitrary: k train validation test)
  case (Cons l labels)
  define vals where "vals = permute k (label_positions y l)"
  from Cons.prems(1) obtain t v tr va te where tv: "class_counts (length vals) vf tf = Inr (t, v)"
    and rest: "stratify permute vf tf y (k + 1) labels = Inr (tr, va, te)"
    and parts: "train = drop (t + v) vals @ tr" "validation = take v (drop t vals) @ va" "test = take t vals @ te"
    by (auto simp: vals_def Let_def elim!: bind_result_InrE)
  have m: "mset vals = mset (label_positions y l)" by (simp add: vals_def perm)
  note IH = Cons.IH [OF rest]
  have d: "distinct labels" "l \<notin> set labels" using Cons.prems(2) by auto
  have split: "mset (filter (\<lambda>i. y ! i \<in> set (l # labels)) xs)
      = mset (filter (\<lambda>i. y ! i = l) xs) + mset (filter (\<lambda>i. y ! i \<in> set labels) xs)" for xs
    using d(2) by (induction xs) auto
  have "mset train + mset validation + mset test =
      (mset (drop (t + v) vals) + mset (take v (drop t vals)) + mset (take t vals)) + (mset tr + mset va + mset te)"
    by (simp add: parts add_ac)
  also have "\<dots> = mset (label_positions y l) + mset (filter (\<lambda>i. y ! i \<in> set labels) [0..<length y])"
    using mset_three_parts [of t v vals] IH d(1) m by simp
  finally have A: "mset train + mset validation + mset test = mset (filter (\<lambda>i. y ! i \<in> set (l # labels)) [0..<length y])"
    by (simp only: split label_positions_def)
  have "\<exists>i \<in> set train. y ! i = l" if "l \<in> set y"
  proof -
    have sv: "set vals = set (label_positions y l)" by (metis m set_mset_mset)
    obtain i where "i < length y" "y ! i = l" using \<open>l \<in> set y\<close> unfolding in_set_conv_nth by blast
    then have "i \<in> set vals" by (simp add: sv label_positions_def)
    then have "0 < length vals" by (cases vals) auto
    then have "t + v < length vals" by (rule class_counts_bounds [OF tv tf])
    then have "hd (drop (t + v) vals) \<in> set (drop (t + v) vals)" by (intro hd_in_set) simp
    moreover have "set (drop (t + v) vals) \<subseteq> set (label_positions y l)" using set_drop_subset [of "t + v" vals] sv by simp
    ultimately show ?thesis by (auto simp: parts label_positions_def)
  qed
  then show ?case using A IH d(1) by (auto simp: parts)
qed simp

lemma mset_map_nth: "mset idx = mset [0..<length xs] \<Longrightarrow> mset (map (nth xs) idx) = mset xs"
  by (metis map_nth mset_map)

lemma slices_cover:
  assumes "a \<le> b" and "b \<le> c" and "c = length xs"
  shows "KPrelude.slice 0 a xs @ KPrelude.slice a b xs @ KPrelude.slice b c xs = xs"
proof -
  have "KPrelude.slice a b xs @ KPrelude.slice b c xs = drop a xs"
  proof -
    have "drop b xs = drop (b - a) (drop a xs)" using assms(1) by simp
    moreover have "take (c - b) (drop b xs) = drop b xs" using assms(3) by simp
    ultimately show ?thesis by (simp add: KPrelude.slice_def del: drop_drop)
  qed
  then show ?thesis by (simp add: KPrelude.slice_def)
qed

lemma split_rows_parts:
  assumes perm: "\<And>k xs. mset (permute k xs) = mset xs" and tf: "fle (Fin 0) tf"
    and split: "split_rows permute strategy task vf tf rows = Inr (train, validation, test)"
  shows "mset train + mset validation + mset test = mset rows"
    and "8 \<le> length train" and "1 \<le> length validation" and "1 \<le> length test"
    and "strategy = ''stratified'' \<Longrightarrow> task \<in> {''binary_classification'', ''multiclass_classification''} \<Longrightarrow>
      set (map snd train) = set (map snd rows)"
proof -
  from split obtain a b c where sz: "partition_sizes (length rows) vf tf = Inr (a, b, c)"
    by (auto simp: split_rows_def elim!: bind_result_InrE)
  then have abc: "8 \<le> a" "16 \<le> b" "1 \<le> c" "a + b + c = int (length rows)"
    by (auto simp: partition_sizes_def Let_def split: if_splits elim!: bind_result_InrE)
  have len: "length (permute k xs) = length xs" for k xs by (metis perm size_mset)
  have perm_ne: "permute k xs = [] \<longleftrightarrow> xs = []" for k xs by (metis len length_0_conv)
  let ?strat = "strategy = ''stratified'' \<and> task \<in> {''binary_classification'', ''multiclass_classification''}"
  have all: "mset train + mset validation + mset test = mset rows \<and> 8 \<le> length train \<and> 1 \<le> length validation
      \<and> 1 \<le> length test \<and> (?strat \<longrightarrow> set (map snd train) = set (map snd rows))"
  proof (cases ?strat)
    case True
    let ?y = "map snd rows" and ?ls = "sort (remdups (map snd rows))"
    from split True obtain tr va te where si: "stratified_indices permute vf tf ?y = Inr (tr, va, te)"
      and parts: "train = map (nth rows) tr" "validation = map (nth rows) va" "test = map (nth rows) te"
      by (auto simp: split_rows_def sz elim!: bind_result_InrE)
    from si obtain tr' va' te' where st: "stratify permute vf tf ?y 0 ?ls = Inr (tr', va', te')"
      and ms: "mset tr = mset tr'" "mset va = mset va'" "mset te = mset te'"
      and ne: "8 \<le> length tr" "va \<noteq> []" "te \<noteq> []"
      by (auto simp: stratified_indices_def Let_def perm len perm_ne split: if_splits elim!: bind_result_InrE)
    have sizes: "8 \<le> length tr" "1 \<le> length va" "1 \<le> length te"
      using ne by (simp_all add: Suc_le_eq)
    note sp = stratify_parts [OF perm tf st]
    have "filter (\<lambda>i. ?y ! i \<in> set ?ls) [0..<length ?y] = [0..<length ?y]"
      by (rule filter_True) simp
    then have m: "mset tr + mset va + mset te = mset [0..<length rows]"
      using sp ms by simp
    have "mset (map (nth rows) tr) + mset (map (nth rows) va) + mset (map (nth rows) te) = mset (map (nth rows) [0..<length rows])"
      using arg_cong [OF m, of "image_mset (nth rows)"] by simp
    then have rows: "mset train + mset validation + mset test = mset rows" by (simp only: parts map_nth)
    have "set (map snd train) = set ?y"
    proof
      have "set train \<subseteq> set rows" using arg_cong [OF rows, of set_mset] by auto
      then show "set (map snd train) \<subseteq> set ?y" by auto
    next
      show "set ?y \<subseteq> set (map snd train)"
      proof
        fix l assume l: "l \<in> set ?y"
        then obtain i where i: "i \<in> set tr'" "?y ! i = l" using sp by (metis distinct_sort distinct_remdups set_sort set_remdups)
        have "set tr' \<subseteq> {..<length rows}" using arg_cong [OF m, of set_mset] ms(1) by (auto simp flip: set_mset_mset)
        then have "?y ! i = snd (rows ! i)" using i by (intro nth_map) auto
        moreover have "i \<in> set tr" using i ms(1) by (metis set_mset_mset)
        ultimately show "l \<in> set (map snd train)" using i(2) by (auto simp: parts image_image)
      qed
    qed
    then show ?thesis using rows sizes by (simp add: parts)
  next
    case False
    define order where "order = (if strategy = ''temporal'' then [0..<length rows] else permute 0 [0..<length rows])"
    define xs where "xs = map (nth rows) order"
    have mo: "mset order = mset [0..<length rows]" by (simp add: order_def perm)
    have parts: "train = KPrelude.slice 0 (nat a) xs" "validation = KPrelude.slice (nat a) (nat (a + b)) xs"
      "test = KPrelude.slice (nat (a + b)) (nat (a + b) + nat c) xs"
      using split False by (auto simp: split_rows_def sz Let_def xs_def order_def)
    have l: "length xs = length rows" by (metis mo xs_def length_map length_upt minus_nat.diff_0 size_mset)
    have "train @ validation @ test = xs"
      unfolding parts by (rule slices_cover) (use abc l in linarith)+
    then have "mset train + mset validation + mset test = mset xs" by (metis mset_append add.assoc)
    also have "mset xs = mset rows" unfolding xs_def by (rule mset_map_nth [OF mo])
    finally show ?thesis using False abc l by (auto simp: parts)
  qed
  then show "mset train + mset validation + mset test = mset rows" "8 \<le> length train" "1 \<le> length validation"
    "1 \<le> length test" by auto
  show "set (map snd train) = set (map snd rows)"
    if "strategy = ''stratified''" "task \<in> {''binary_classification'', ''multiclass_classification''}"
    using all that by blast
qed

section \<open>Properties\<close>

text \<open>The chunk ranges of a valid planner cover the records exactly: they start at 0, each starts
  where the one before stops, the last stops at the end; no chunk is empty or above the maximum, and
  only the last may be below the minimum.\<close>

theorem chunk_ranges_cover:
  assumes "planner_new target lo hi v te seed = Inr p" and "0 \<le> n"
  shows "\<exists>ranges. chunk_ranges None p n = Inr ranges \<and> map fst ranges @ [n] = 0 # map snd ranges \<and>
    list_all (\<lambda>(a, b). a < b \<and> b - a \<le> pl_maximum p) ranges \<and>
    list_all (\<lambda>(a, b). pl_minimum p \<le> b - a) (butlast ranges)"
  using fallback.loop_covers [OF planner_new_ok [OF assms(1)] assms(2), of 0 0] assms(2)
  by (auto simp: chunk_ranges_def list_all_iff)

lemma chunk_ranges_cover_witness:
  "\<exists>p ranges. planner_new 4096 None None 15 15 42 = Inr p \<and> chunk_ranges None p 10000 = Inr ranges
     \<and> map fst ranges @ [10000] = 0 # map snd ranges"
proof -
  obtain p where p: "planner_new 4096 None None 15 15 42 = Inr p" by (simp add: planner_new_def)
  from chunk_ranges_cover [OF this, of 10000] show ?thesis using p by auto
qed

text \<open>The context split is a partition of the input positions, in input order, and no context is
  in two splits, whichever policy decides.\<close>

theorem context_split_partition:
  "mset (split_indices core digest p cs Train) + mset (split_indices core digest p cs Validation)
     + mset (split_indices core digest p cs Test) = mset [0..<length cs]
   \<and> sorted (split_indices core digest p cs s)
   \<and> (i \<in> set (split_indices core digest p cs s) \<and> j \<in> set (split_indices core digest p cs s') \<and> s \<noteq> s'
       \<longrightarrow> cs ! i \<noteq> cs ! j)"
  by (auto simp: split_indices_eq mset_filter_parts sorted_wrt_filter simp del: mset_filter mset_upt)

lemma context_split_partition_witness:
  "mset (split_indices None (\<lambda>_. 7) \<lparr>pl_target = 4, pl_minimum = 3, pl_maximum = 5, pl_validation = 15, pl_test = 15,
      pl_seed = 42\<rparr> [IntContext 1, IntContext 2, IntContext 1] Train)
    + mset (split_indices None (\<lambda>_. 7) \<lparr>pl_target = 4, pl_minimum = 3, pl_maximum = 5, pl_validation = 15, pl_test = 15,
      pl_seed = 42\<rparr> [IntContext 1, IntContext 2, IntContext 1] Validation)
    + mset (split_indices None (\<lambda>_. 7) \<lparr>pl_target = 4, pl_minimum = 3, pl_maximum = 5, pl_validation = 15, pl_test = 15,
      pl_seed = 42\<rparr> [IntContext 1, IntContext 2, IntContext 1] Test) = mset [0, 1, 2]"
  using context_split_partition [of None "\<lambda>_. 7" "\<lparr>pl_target = 4, pl_minimum = 3, pl_maximum = 5, pl_validation = 15,
      pl_test = 15, pl_seed = 42\<rparr>" "[IntContext 1, IntContext 2, IntContext 1]" Train 0 1 Test]
  by (simp only: list.size) simp

text \<open>A materialised split loses and repeats no row, leaves at least 8 training rows and a row in
  each held-out part, and a stratified split has every class in its training part. The generator is
  assumed to permute.\<close>

theorem array_split_partition:
  assumes "\<And>k xs. mset (permute k xs) = mset xs" and "fle (Fin 0) tf"
    and "split_rows permute strategy task vf tf rows = Inr (train, validation, test)"
  shows "mset train + mset validation + mset test = mset rows
    \<and> 8 \<le> length train \<and> 1 \<le> length validation \<and> 1 \<le> length test
    \<and> (strategy = ''stratified'' \<and> task \<in> {''binary_classification'', ''multiclass_classification''} \<longrightarrow>
        set (map snd train) = set (map snd rows))"
  using split_rows_parts [OF assms] by blast

lemma array_split_partition_witness:
  "\<exists>train validation test. split_rows (\<lambda>_. rev) ''random'' ''regression'' (Fin (1/4)) (Fin (1/4))
     (map (\<lambda>i. (i, 0 :: int)) [0..<64]) = Inr (train, validation, test)
     \<and> mset train + mset validation + mset test = mset (map (\<lambda>i. (i, 0)) [0..<64])"
proof -
  have "to_float 64 = Fin 64" "to_float 16 = Fin 16"
    using to_float_int [of 64] to_float_int [of 16] by simp_all
  then have "partition_sizes 64 (Fin (1/4)) (Fin (1/4)) = Inr (32, 16, 16)"
    using round_even_of_int [of 16] by (simp add: partition_sizes_def f_of_int_def py_round_def)
  then obtain train validation test where sp: "split_rows (\<lambda>_. rev) ''random'' ''regression'' (Fin (1/4)) (Fin (1/4))
     (map (\<lambda>i. (i, 0 :: int)) [0..<64]) = Inr (train, validation, test)"
    by (simp add: split_rows_def Let_def)
  from array_split_partition [OF _ _ this] show ?thesis
    using sp by (auto simp: fle_def)
qed

end
