(* ===== verification/Streaming.thy ===== *)
theory Streaming imports Planning begin

text \<open>
  The streaming pipeline of \<open>src/src/kernelyra/streaming.py\<close>: row splits, inspection of a stream,
  row encoding, and \<open>StreamingTabularSource\<close> with its training generator, prefetch queue and
  checkpoint position. A stream is the list of rows its readers yield, with the exception that ends
  it if there is one. Text is ASCII. \<open>float\<close> on a string, \<open>math.sqrt\<close> and BLAKE2b are parameters.
\<close>

section \<open>Splitting rows\<close>

type_synonym row = "(string, string) dict"

definition split_for_index :: "int \<Rightarrow> split" where
  "split_for_index index =
     (let value = word_of_int index + 0x9E3779B97F4A7C15 :: 64 word;
          value = (value XOR drop_bit 30 value) * 0xBF58476D1CE4E5B9;
          value = (value XOR drop_bit 27 value) * 0x94D049BB133111EB;
          bucket = uint (value XOR drop_bit 31 value) mod 100
      in if bucket < 15 then Validation else if bucket < 30 then Test else Train)"

definition group_words :: "string list" where
  "group_words = [''group'', ''user'', ''account'', ''customer'', ''session'', ''conversation'', ''document'', ''device'']"

text \<open>The pattern asks for a whole word between underscores, dashes and the ends; \<open>$\<close> also matches
  before a final newline.\<close>

fun name_tokens :: "string \<Rightarrow> string list" where
  "name_tokens [] = [[]]"
| "name_tokens (c # cs) =
     (if c = CHR ''_'' \<or> c = CHR ''-'' then [] # name_tokens cs
      else (c # hd (name_tokens cs)) # tl (name_tokens cs))"

definition chomp :: "string \<Rightarrow> string" where
  "chomp s = (if s \<noteq> [] \<and> last s = CHR 0x0A then butlast s else s)"

definition group_hint :: "string \<Rightarrow> bool" where
  "group_hint column \<longleftrightarrow>
     list_ex (\<lambda>t. py_lower t \<in> set group_words) (name_tokens column @ name_tokens (chomp column))"

definition context_column :: "string list \<Rightarrow> string \<Rightarrow> string option" where
  "context_column columns target = find (\<lambda>c. c \<noteq> target \<and> group_hint c) columns"

definition cell :: "string \<Rightarrow> row \<Rightarrow> string" where
  "cell column r = (case dict_get column r of Some s \<Rightarrow> s | None \<Rightarrow> [])"

definition number :: "(string \<Rightarrow> pyfloat option) \<Rightarrow> string \<Rightarrow> pyfloat option" where
  "number parse raw =
     (let text = py_strip raw
      in if text = [] then None else parse (map (\<lambda>c. if c = CHR '','' then CHR ''.'' else c) text))"

section \<open>Inspecting a stream\<close>

record stream_spec =
  sp_target :: string
  sp_context :: "string option"
  sp_columns :: "string list"
  sp_features :: "string list"
  sp_numeric :: "string list"
  sp_categorical :: "string list"
  sp_means :: "(string, pyfloat) dict"
  sp_stds :: "(string, pyfloat) dict"
  sp_buckets :: int
  sp_task :: string
  sp_classes :: "string list"
  sp_records :: int
  sp_train :: int
  sp_validation :: int
  sp_test :: int
  sp_feature_count :: int

definition hash_buckets :: int where
  "hash_buckets = 64"

definition target_names :: "string list" where
  "target_names = [''target'', ''label'', ''class'', ''y'', ''answer'', ''result'']"

definition select_target :: "string option \<Rightarrow> string list \<Rightarrow> kerror + string" where
  "select_target target columns =
     (let selected = (case target of
            Some t \<Rightarrow> if t \<noteq> [] then Some t else None
          | None \<Rightarrow> None);
          selected = (case selected of
            Some t \<Rightarrow> Some t
          | None \<Rightarrow> (case find (\<lambda>c. py_lower c \<in> set target_names) columns of
              Some c \<Rightarrow> Some c
            | None \<Rightarrow> if columns = [] then None else Some (last columns)))
      in case selected of
           Some t \<Rightarrow> if t \<noteq> [] \<and> t \<in> set columns then Inr t else Inl DatasetError
         | None \<Rightarrow> Inl DatasetError)"

text \<open>The counters of \<open>consume\<close>.\<close>

record scan =
  sc_count :: int
  sc_target_numeric :: bool
  sc_unique :: "string list"
  sc_train :: int
  sc_validation :: int
  sc_test :: int
  sc_sums :: "(string, pyfloat) dict"
  sc_squares :: "(string, pyfloat) dict"
  sc_counts :: "(string, int) dict"

definition stream_planner :: planner where
  "stream_planner = \<lparr>pl_target = 4096, pl_minimum = 3072, pl_maximum = 5120, pl_validation = 15,
     pl_test = 15, pl_seed = 42\<rparr>"

definition row_split ::
  "native_split \<Rightarrow> (string \<Rightarrow> 64 word) \<Rightarrow> string option \<Rightarrow> int \<Rightarrow> row \<Rightarrow> split" where
  "row_split core digest context index r =
     (case context of
        Some c \<Rightarrow> split_for core digest stream_planner (PayloadContext (cell c r))
      | None \<Rightarrow> split_for_index index)"

definition add_value :: "(string \<Rightarrow> pyfloat option) \<Rightarrow> row \<Rightarrow> string \<Rightarrow> scan \<Rightarrow> scan" where
  "add_value parse r column s =
     (case number parse (cell column r) of
        None \<Rightarrow> s
      | Some v \<Rightarrow>
          s\<lparr>sc_sums := dict_set column (fadd (the (dict_get column (sc_sums s))) v) (sc_sums s),
            sc_squares := dict_set column (fadd (the (dict_get column (sc_squares s))) (fmul v v)) (sc_squares s),
            sc_counts := dict_set column (the (dict_get column (sc_counts s)) + 1) (sc_counts s)\<rparr>)"

definition count_split :: "split \<Rightarrow> scan \<Rightarrow> scan" where
  "count_split x s = (case x of
      Train \<Rightarrow> s\<lparr>sc_train := sc_train s + 1\<rparr>
    | Validation \<Rightarrow> s\<lparr>sc_validation := sc_validation s + 1\<rparr>
    | Test \<Rightarrow> s\<lparr>sc_test := sc_test s + 1\<rparr>)"

definition consume ::
  "native_split \<Rightarrow> (string \<Rightarrow> 64 word) \<Rightarrow> (string \<Rightarrow> pyfloat option) \<Rightarrow> string list \<Rightarrow> string
     \<Rightarrow> string option \<Rightarrow> string list \<Rightarrow> row \<Rightarrow> scan \<Rightarrow> kerror + scan" where
  "consume core digest parse columns target context numeric r s =
     (if dict_keys r \<noteq> columns then Inl DatasetError else
      let x = row_split core digest context (sc_count s) r;
          s1 = (count_split x s)\<lparr>sc_count := sc_count s + 1\<rparr>;
          t = py_strip (cell target r)
      in if t = [] then Inl DatasetError else
         let s2 = s1\<lparr>sc_target_numeric := sc_target_numeric s1 \<and> number parse t \<noteq> None,
                      sc_unique := (if length (sc_unique s1) \<le> 65 \<and> t \<notin> set (sc_unique s1)
                                    then sc_unique s1 @ [t] else sc_unique s1)\<rparr>
         in Inr (if x = Train then fold (add_value parse r) numeric s2 else s2))"

fun consume_all ::
  "(row \<Rightarrow> scan \<Rightarrow> kerror + scan) \<Rightarrow> row list \<Rightarrow> scan \<Rightarrow> kerror + scan" where
  "consume_all f [] s = Inr s"
| "consume_all f (r # rs) s = bind_result (f r s) (consume_all f rs)"

definition scan_start :: "string list \<Rightarrow> scan" where
  "scan_start numeric = \<lparr>sc_count = 0, sc_target_numeric = True, sc_unique = [], sc_train = 0,
     sc_validation = 0, sc_test = 0, sc_sums = map (\<lambda>c. (c, Fin 0)) numeric,
     sc_squares = map (\<lambda>c. (c, Fin 0)) numeric, sc_counts = map (\<lambda>c. (c, 0)) numeric\<rparr>"

definition floor_sqrt :: "nat \<Rightarrow> nat" where
  "floor_sqrt n = length (takeWhile (\<lambda>k. k * k \<le> n) [1..<n + 1])"

fun is_integer :: "pyfloat \<Rightarrow> bool" where
  "is_integer (Fin x) = (of_int \<lfloor>x\<rfloor> = x)"
| "is_integer _ = False"

definition infer_task :: "(string \<Rightarrow> pyfloat option) \<Rightarrow> scan \<Rightarrow> kerror + string" where
  "infer_task parse s =
     (if length (sc_unique s) = 2 then Inr ''binary_classification''
      else if \<not> sc_target_numeric s
      then if 64 < length (sc_unique s) then Inl DatasetError else Inr ''multiclass_classification''
      else
        let numbers = List.map_filter (number parse) (sc_unique s);
            limit = max 20 (floor_sqrt (nat (sc_count s)) + 1)
        in Inr (if length numbers \<le> min 64 limit \<and> list_all is_integer numbers
                then ''multiclass_classification'' else ''regression''))"

definition column_mean :: "scan \<Rightarrow> string \<Rightarrow> pyfloat" where
  "column_mean s c =
     the (fdiv (the (dict_get c (sc_sums s))) (f_of_int (max 1 (the (dict_get c (sc_counts s))))))"

definition column_std :: "(pyfloat \<Rightarrow> pyfloat) \<Rightarrow> scan \<Rightarrow> string \<Rightarrow> pyfloat" where
  "column_std fsqrt s c =
     (let mean = column_mean s c;
          variance = fmax (Fin 0) (fsub (the (fdiv (the (dict_get c (sc_squares s)))
                       (f_of_int (max 1 (the (dict_get c (sc_counts s))))))) (fmul mean mean));
          std = fsqrt variance
      in if std = Fin 0 then Fin 1 else std)"

text \<open>The specification, once every row is consumed.\<close>

definition spec_of_scan ::
  "(string \<Rightarrow> pyfloat option) \<Rightarrow> (pyfloat \<Rightarrow> pyfloat) \<Rightarrow> string list \<Rightarrow> string \<Rightarrow> string option
     \<Rightarrow> string list \<Rightarrow> string list \<Rightarrow> scan \<Rightarrow> kerror + stream_spec" where
  "spec_of_scan parse fsqrt columns selected context features numeric s =
     bind_result (infer_task parse s) (\<lambda>task.
       let classes = (if task = ''regression'' then [] else sort (sc_unique s)) in
       if task \<noteq> ''regression'' \<and> 64 < length classes then Inl DatasetError else
       let categorical = filter (\<lambda>c. c \<notin> set numeric) features;
           feature_count = int (length numeric) + int (length categorical) * hash_buckets
       in if 200000 < feature_count then Inl DatasetError
          else Inr \<lparr>sp_target = selected, sp_context = context, sp_columns = columns, sp_features = features,
                 sp_numeric = sort numeric, sp_categorical = categorical,
                 sp_means = map (\<lambda>c. (c, column_mean s c)) numeric,
                 sp_stds = map (\<lambda>c. (c, column_std fsqrt s c)) numeric,
                 sp_buckets = hash_buckets, sp_task = task, sp_classes = classes, sp_records = sc_count s,
                 sp_train = sc_train s, sp_validation = sc_validation s, sp_test = sc_test s,
                 sp_feature_count = feature_count\<rparr>)"

definition numeric_share :: "(string \<Rightarrow> pyfloat option) \<Rightarrow> row list \<Rightarrow> string \<Rightarrow> pyfloat" where
  "numeric_share parse sample c =
     to_float (of_nat (length (filter (\<lambda>r. number parse (cell c r) \<noteq> None) sample)) / of_nat (length sample))"

text \<open>\<open>build_stream_spec\<close> after the source is opened: \<open>rows\<close> and the exception that ends them.\<close>

definition build_stream_spec ::
  "native_split \<Rightarrow> (string \<Rightarrow> 64 word) \<Rightarrow> (string \<Rightarrow> pyfloat option) \<Rightarrow> (pyfloat \<Rightarrow> pyfloat)
     \<Rightarrow> string option \<Rightarrow> row list \<times> kerror option \<Rightarrow> kerror + stream_spec" where
  "build_stream_spec core digest parse fsqrt target stream =
     (let rows = fst stream; sample = take 1000 rows in
      if length rows < 1000 \<and> snd stream \<noteq> None then Inl (the (snd stream))
      else if length sample < 32 then Inl DatasetError else
      let columns = dict_keys (hd sample) in
      if list_ex (\<lambda>r. dict_keys r \<noteq> columns) sample then Inl DatasetError else
      bind_result (select_target target columns) (\<lambda>selected.
      let context = context_column columns selected;
          features = filter (\<lambda>c. c \<noteq> selected \<and> Some c \<noteq> context) columns
      in if features = [] then Inl DatasetError else
      let numeric = filter (\<lambda>c. fle (to_float (95/100)) (numeric_share parse sample c)) features
      in bind_result (consume_all (consume core digest parse columns selected context numeric) rows (scan_start numeric))
           (\<lambda>s. if snd stream \<noteq> None then Inl (the (snd stream))
                 else spec_of_scan parse fsqrt columns selected context features numeric s)))"

section \<open>Encoding rows\<close>

text \<open>\<open>_encode\<close>, before the vector is stored in single precision.\<close>

definition encode_numeric :: "(string \<Rightarrow> pyfloat option) \<Rightarrow> stream_spec \<Rightarrow> row \<Rightarrow> string \<Rightarrow> kerror + pyfloat" where
  "encode_numeric parse spec r c =
     (case number parse (cell c r) of
        None \<Rightarrow> Inr (Fin 0)
      | Some v \<Rightarrow> (case (dict_get c (sp_means spec), dict_get c (sp_stds spec)) of
            (Some m, Some d) \<Rightarrow> (case fdiv (fsub v m) d of Some q \<Rightarrow> Inr q | None \<Rightarrow> Inl ZeroDivisionError)
          | _ \<Rightarrow> Inl KeyError))"

definition encode_bucket :: "(string \<Rightarrow> 64 word) \<Rightarrow> stream_spec \<Rightarrow> row \<Rightarrow> string \<Rightarrow> pyfloat list" where
  "encode_bucket row_digest spec r c =
     (replicate (nat (sp_buckets spec)) (Fin 0))
       [nat (uint (row_digest (cell c r)) mod sp_buckets spec) := Fin 1]"

fun map_result :: "('a \<Rightarrow> 'e + 'b) \<Rightarrow> 'a list \<Rightarrow> 'e + 'b list" where
  "map_result f [] = Inr []"
| "map_result f (x # xs) = bind_result (f x) (\<lambda>y. bind_result (map_result f xs) (\<lambda>ys. Inr (y # ys)))"

definition index_of :: "'a \<Rightarrow> 'a list \<Rightarrow> nat option" where
  "index_of x xs = (let k = length (takeWhile (\<lambda>y. y \<noteq> x) xs) in if k < length xs then Some k else None)"

definition encode_target :: "(string \<Rightarrow> pyfloat option) \<Rightarrow> stream_spec \<Rightarrow> string \<Rightarrow> kerror + pyfloat" where
  "encode_target parse spec target =
     (if sp_task spec = ''regression''
      then case number parse target of Some v \<Rightarrow> Inr v | None \<Rightarrow> Inl DatasetError
      else case index_of target (sp_classes spec) of
             Some k \<Rightarrow> Inr (f_of_int (int k)) | None \<Rightarrow> Inl DatasetError)"

definition encode_row ::
  "(string \<Rightarrow> pyfloat option) \<Rightarrow> (string \<Rightarrow> 64 word) \<Rightarrow> stream_spec \<Rightarrow> row \<Rightarrow> kerror + pyfloat list \<times> pyfloat" where
  "encode_row parse row_digest spec r =
     bind_result (map_result (encode_numeric parse spec r) (sp_numeric spec)) (\<lambda>xs.
       case dict_get (sp_target spec) r of
         None \<Rightarrow> Inl KeyError
       | Some t \<Rightarrow> bind_result (encode_target parse spec (py_strip t)) (\<lambda>y.
           Inr (xs @ concat (map (encode_bucket row_digest spec r) (sp_categorical spec)), y)))"

text \<open>\<open>_evaluation_arrays\<close>: the first held-out rows of each split.\<close>

definition evaluation_rows :: nat where
  "evaluation_rows = 4096"

fun evaluation_scan ::
  "(int \<Rightarrow> row \<Rightarrow> split) \<Rightarrow> (row \<Rightarrow> kerror + 'v) \<Rightarrow> int \<Rightarrow> row list \<Rightarrow> 'v list \<Rightarrow> 'v list
     \<Rightarrow> kerror + 'v list \<times> 'v list" where
  "evaluation_scan split_of encode index [] validation test = Inr (validation, test)"
| "evaluation_scan split_of encode index (r # rs) validation test =
     bind_result
       (if split_of index r = Validation \<and> length validation < evaluation_rows
        then bind_result (encode r) (\<lambda>v. Inr (validation @ [v], test))
        else if split_of index r = Test \<and> length test < evaluation_rows
        then bind_result (encode r) (\<lambda>v. Inr (validation, test @ [v]))
        else Inr (validation, test))
       (\<lambda>(va, te). if evaluation_rows \<le> length va \<and> evaluation_rows \<le> length te then Inr (va, te)
                    else evaluation_scan split_of encode (index + 1) rs va te)"

definition evaluation_arrays ::
  "(int \<Rightarrow> row \<Rightarrow> split) \<Rightarrow> (row \<Rightarrow> kerror + 'v) \<Rightarrow> row list \<Rightarrow> kerror + 'v list \<times> 'v list" where
  "evaluation_arrays split_of encode rows =
     bind_result (evaluation_scan split_of encode 0 rows [] []) (\<lambda>(va, te).
       if length va < 8 \<or> length te < 8 then Inl DatasetError else Inr (va, te))"

section \<open>The training source\<close>

text \<open>\<open>ss_pending\<close> are the training rows the generator has left in the current pass, \<open>ss_train\<close> those
  of every pass; \<open>ss_train_records\<close> is the count of the specification.\<close>

record 'r source =
  ss_train :: "'r list"
  ss_train_records :: int
  ss_pending :: "'r list"
  ss_consumed :: int
  ss_epoch :: int
  ss_closed :: bool

definition training_rows :: "(int \<Rightarrow> row \<Rightarrow> split) \<Rightarrow> row list \<Rightarrow> row list" where
  "training_rows split_of rows =
     map snd (filter (\<lambda>(i, r). split_of (int i) r = Train) (zip [0..<length rows] rows))"

definition train_records_of_spec :: "stream_spec \<Rightarrow> int" where
  "train_records_of_spec spec =
     max 1 (if sp_train spec \<noteq> 0 then sp_train spec
            else (case f_trunc (fmul (f_of_int (sp_records spec)) (to_float (70/100))) of Some n \<Rightarrow> n | None \<Rightarrow> 0))"

definition source_new :: "'r list \<Rightarrow> int \<Rightarrow> 'r source" where
  "source_new train train_records = \<lparr>ss_train = train, ss_train_records = train_records, ss_pending = [],
     ss_consumed = 0, ss_epoch = 0, ss_closed = False\<rparr>"

text \<open>\<open>next\<close> on the generator: a pass that is over starts the next one, which must emit a row.\<close>

definition next_row :: "'r list \<Rightarrow> 'r list \<Rightarrow> kerror + 'r \<times> 'r list" where
  "next_row train pending =
     (case pending of
        r # rs \<Rightarrow> Inr (r, rs)
      | [] \<Rightarrow> (case train of r # rs \<Rightarrow> Inr (r, rs) | [] \<Rightarrow> Inl DatasetError))"

fun next_rows :: "'r list \<Rightarrow> nat \<Rightarrow> 'r list \<Rightarrow> kerror + 'r list \<times> 'r list" where
  "next_rows train 0 pending = Inr ([], pending)"
| "next_rows train (Suc n) pending =
     bind_result (next_row train pending) (\<lambda>(r, pending').
     bind_result (next_rows train n pending') (\<lambda>(rs, pending''). Inr (r # rs, pending'')))"

text \<open>\<open>next_batch\<close> without prefetch.\<close>

definition next_batch :: "('r \<Rightarrow> kerror + 'v) \<Rightarrow> int \<Rightarrow> 'r source \<Rightarrow> kerror + 'v list \<times> 'r source" where
  "next_batch encode batch_size s =
     (if ss_closed s then Inl DatasetError
      else if batch_size < 1 then Inl DatasetError
      else bind_result (next_rows (ss_train s) (nat batch_size) (ss_pending s)) (\<lambda>(rows, pending).
           bind_result (map_result encode rows) (\<lambda>values.
             let consumed = ss_consumed s + int (length values)
             in Inr (values, s\<lparr>ss_pending := pending, ss_consumed := consumed,
                               ss_epoch := consumed div ss_train_records s\<rparr>))))"

definition restore_rows :: "int \<Rightarrow> 'r source \<Rightarrow> kerror + 'r source" where
  "restore_rows rows_consumed s =
     (if rows_consumed < 0 then Inl DatasetError
      else bind_result (next_rows (ss_train s) (nat (rows_consumed mod ss_train_records s)) []) (\<lambda>(_, pending).
             Inr (s\<lparr>ss_pending := pending, ss_consumed := rows_consumed,
                    ss_epoch := rows_consumed div ss_train_records s\<rparr>)))"

fun run_batches :: "('r \<Rightarrow> kerror + 'v) \<Rightarrow> int list \<Rightarrow> 'r source \<Rightarrow> kerror + 'v list \<times> 'r source" where
  "run_batches encode [] s = Inr ([], s)"
| "run_batches encode (b # bs) s =
     bind_result (next_batch encode b s) (\<lambda>(vs, s').
     bind_result (run_batches encode bs s') (\<lambda>(ws, s''). Inr (vs @ ws, s'')))"

section \<open>The prefetch queue\<close>

text \<open>The producer thread holds the encoded rows of one chunk and puts them one at a time; an
  exception is put as an item and ends it. The consumer takes items in order.\<close>

record ('r, 'v) prefetch =
  pf_pending :: "'r list"
  pf_hand :: "(kerror + 'v) list"
  pf_queue :: "(kerror + 'v) list"
  pf_taken :: "(kerror + 'v) list"
  pf_failed :: bool

definition prefetch_capacity :: "int \<Rightarrow> int \<Rightarrow> int" where
  "prefetch_capacity batch_size prefetch = max batch_size (batch_size * prefetch)"

definition prefetch_chunk :: "int \<Rightarrow> nat" where
  "prefetch_chunk batch_size = nat (max 1 (min batch_size 256))"

definition producer_fill :: "('r \<Rightarrow> kerror + 'v) \<Rightarrow> 'r list \<Rightarrow> nat \<Rightarrow> ('r, 'v) prefetch \<Rightarrow> ('r, 'v) prefetch" where
  "producer_fill encode train chunk s =
     (case next_rows train chunk (pf_pending s) of
        Inl e \<Rightarrow> s\<lparr>pf_hand := [Inl e], pf_failed := True\<rparr>
      | Inr (rows, pending) \<Rightarrow>
          (case map_result encode rows of
             Inl e \<Rightarrow> s\<lparr>pf_hand := [Inl e], pf_failed := True\<rparr>
           | Inr values \<Rightarrow> s\<lparr>pf_hand := map Inr values, pf_pending := pending\<rparr>))"

inductive prefetch_step ::
  "('r \<Rightarrow> kerror + 'v) \<Rightarrow> 'r list \<Rightarrow> nat \<Rightarrow> int \<Rightarrow> ('r, 'v) prefetch \<Rightarrow> ('r, 'v) prefetch \<Rightarrow> bool"
  for encode :: "'r \<Rightarrow> kerror + 'v" and train :: "'r list" and chunk :: nat and capacity :: int where
  Fill: "pf_hand s = [] \<Longrightarrow> \<not> pf_failed s \<Longrightarrow>
    prefetch_step encode train chunk capacity s (producer_fill encode train chunk s)"
| Put: "pf_hand s = x # xs \<Longrightarrow> int (length (pf_queue s)) < capacity \<Longrightarrow>
    prefetch_step encode train chunk capacity s (s\<lparr>pf_hand := xs, pf_queue := pf_queue s @ [x]\<rparr>)"
| Take: "pf_queue s = x # xs \<Longrightarrow>
    prefetch_step encode train chunk capacity s (s\<lparr>pf_queue := xs, pf_taken := pf_taken s @ [x]\<rparr>)"

inductive prefetch_reach ::
  "('r \<Rightarrow> kerror + 'v) \<Rightarrow> 'r list \<Rightarrow> nat \<Rightarrow> int \<Rightarrow> 'r list \<Rightarrow> ('r, 'v) prefetch \<Rightarrow> bool"
  for encode :: "'r \<Rightarrow> kerror + 'v" and train :: "'r list" and chunk :: nat and capacity :: int and start :: "'r list" where
  Begin: "prefetch_reach encode train chunk capacity start
    \<lparr>pf_pending = start, pf_hand = [], pf_queue = [], pf_taken = [], pf_failed = False\<rparr>"
| Step: "prefetch_reach encode train chunk capacity start s \<Longrightarrow> prefetch_step encode train chunk capacity s s' \<Longrightarrow>
    prefetch_reach encode train chunk capacity start s'"

inductive_cases prefetch_stepE: "prefetch_step encode train chunk capacity s s'"

section \<open>Rows in order\<close>

text \<open>The rows the generator yields from \<open>pending\<close> on, \<open>n\<close> of them.\<close>

fun stream_rows :: "'r list \<Rightarrow> 'r list \<Rightarrow> nat \<Rightarrow> 'r list" where
  "stream_rows train pending 0 = []"
| "stream_rows train [] (Suc n) = hd train # stream_rows train (tl train) n"
| "stream_rows train (r # rs) (Suc n) = r # stream_rows train rs n"

fun stream_pending :: "'r list \<Rightarrow> 'r list \<Rightarrow> nat \<Rightarrow> 'r list" where
  "stream_pending train pending 0 = pending"
| "stream_pending train [] (Suc n) = stream_pending train (tl train) n"
| "stream_pending train (r # rs) (Suc n) = stream_pending train rs n"

lemma next_rows_eq:
  "train \<noteq> [] \<Longrightarrow> next_rows train n pending = Inr (stream_rows train pending n, stream_pending train pending n)"
  by (induction train pending n rule: stream_rows.induct) (auto simp: next_row_def split: list.splits)

lemma stream_rows_add:
  "stream_rows train pending (m + n) = stream_rows train pending m @ stream_rows train (stream_pending train pending m) n"
  by (induction train pending m rule: stream_rows.induct) auto

lemma stream_pending_add:
  "stream_pending train pending (m + n) = stream_pending train (stream_pending train pending m) n"
  by (induction train pending m rule: stream_rows.induct) auto

lemma length_stream_rows [simp]: "length (stream_rows train pending n) = n"
  by (induction train pending n rule: stream_rows.induct) auto

lemma stream_pending_drop: "n \<le> length pending \<Longrightarrow> stream_pending train pending n = drop n pending"
  by (induction train pending n rule: stream_rows.induct) auto

text \<open>The position after \<open>n\<close> rows of a fresh generator depends on \<open>n\<close> modulo the pass only.\<close>

lemma stream_pending_pass: "train \<noteq> [] \<Longrightarrow> stream_pending train [] (length train) = []"
proof -
  assume "train \<noteq> []"
  then obtain n where n: "length train = Suc n" by (cases train) auto
  then have "stream_pending train [] (length train) = stream_pending train (tl train) n" by simp
  also have "\<dots> = drop n (tl train)" using n by (intro stream_pending_drop) simp
  finally show ?thesis using n by simp
qed

lemma stream_pending_mod:
  assumes "train \<noteq> []" shows "stream_pending train [] n = stream_pending train [] (n mod length train)"
proof -
  have "stream_pending train [] (k * length train) = []" for k
    by (induction k) (simp_all add: stream_pending_add stream_pending_pass [OF assms])
  then have "stream_pending train [] (n div length train * length train + n mod length train)
      = stream_pending train [] (n mod length train)" unfolding stream_pending_add by simp
  then show ?thesis unfolding div_mult_mod_eq .
qed

lemma map_result_length: "map_result f xs = Inr ys \<Longrightarrow> length ys = length xs"
  by (induction xs arbitrary: ys) (auto elim!: bind_result_InrE)

lemma map_result_append:
  "map_result f xs = Inr ys \<Longrightarrow> map_result f zs = Inr ws \<Longrightarrow> map_result f (xs @ zs) = Inr (ys @ ws)"
  by (induction xs arbitrary: ys) (auto elim!: bind_result_InrE)

lemma next_batch_InrE:
  assumes "next_batch encode b s = Inr (vs, s')" and "ss_train s \<noteq> []"
  obtains "1 \<le> b" "map_result encode (stream_rows (ss_train s) (ss_pending s) (nat b)) = Inr vs"
    "s' = s\<lparr>ss_pending := stream_pending (ss_train s) (ss_pending s) (nat b), ss_consumed := ss_consumed s + b,
            ss_epoch := (ss_consumed s + b) div ss_train_records s\<rparr>"
  using assms map_result_length
  by (fastforce simp: next_batch_def next_rows_eq Let_def split: if_splits elim!: bind_result_InrE)

lemma run_batches_position:
  "run_batches encode bs s = Inr (vs, s') \<Longrightarrow> ss_train s \<noteq> [] \<Longrightarrow>
     ss_pending s = stream_pending (ss_train s) [] (nat (ss_consumed s)) \<Longrightarrow> 0 \<le> ss_consumed s \<Longrightarrow>
     ss_epoch s = ss_consumed s div ss_train_records s \<Longrightarrow>
     s' = s\<lparr>ss_pending := stream_pending (ss_train s) [] (nat (ss_consumed s')), ss_consumed := ss_consumed s',
            ss_epoch := ss_consumed s' div ss_train_records s\<rparr> \<and> ss_consumed s \<le> ss_consumed s'
     \<and> int (length vs) = ss_consumed s' - ss_consumed s
     \<and> map_result encode (stream_rows (ss_train s) (ss_pending s) (length vs)) = Inr vs"
proof (induction bs arbitrary: s vs)
  case (Cons b bs)
  from Cons.prems(1) obtain v1 s1 v2 where b: "next_batch encode b s = Inr (v1, s1)"
    and rest: "run_batches encode bs s1 = Inr (v2, s')" and vs: "vs = v1 @ v2"
    by (auto elim!: bind_result_InrE)
  from b Cons.prems(2) show ?case
  proof (rule next_batch_InrE)
    assume b1: "1 \<le> b" and m: "map_result encode (stream_rows (ss_train s) (ss_pending s) (nat b)) = Inr v1"
      and s1: "s1 = s\<lparr>ss_pending := stream_pending (ss_train s) (ss_pending s) (nat b), ss_consumed := ss_consumed s + b,
            ss_epoch := (ss_consumed s + b) div ss_train_records s\<rparr>"
    have pos: "ss_pending s1 = stream_pending (ss_train s1) [] (nat (ss_consumed s1))"
      using Cons.prems(3,4) b1 by (simp add: s1 nat_add_distrib stream_pending_add)
    have l: "length v1 = nat b" using map_result_length [OF m] by simp
    note IH = Cons.IH [OF rest _ pos]
    then have ih: "s' = s1\<lparr>ss_pending := stream_pending (ss_train s) [] (nat (ss_consumed s')), ss_consumed := ss_consumed s',
            ss_epoch := ss_consumed s' div ss_train_records s\<rparr>" "ss_consumed s + b \<le> ss_consumed s'"
      "int (length v2) = ss_consumed s' - (ss_consumed s + b)"
      "map_result encode (stream_rows (ss_train s) (stream_pending (ss_train s) (ss_pending s) (nat b)) (length v2)) = Inr v2"
      using Cons.prems(2,4) b1 by (simp_all add: s1)
    have "map_result encode (stream_rows (ss_train s) (ss_pending s) (length vs)) = Inr vs"
      using map_result_append [OF m ih(4)] by (simp add: vs l stream_rows_add)
    then show ?thesis using ih b1 l by (simp add: vs s1)
  qed
qed simp

section \<open>Properties\<close>

text \<open>C13: Resuming from a checkpoint is exact: a source restored at the row count of a checkpoint is, in
  every field, the source that ran there without interruption, so all later batches are the same. The
  count of training rows in the specification is that of the stream.\<close>

theorem restore_is_exact:
  assumes "train \<noteq> []" and "run_batches encode bs (source_new train (int (length train))) = Inr (vs, s)"
  shows "restore_rows (ss_consumed s) (source_new train (int (length train))) = Inr s"
proof -
  let ?s0 = "source_new train (int (length train))"
  have p: "s = ?s0\<lparr>ss_pending := stream_pending train [] (nat (ss_consumed s)), ss_consumed := ss_consumed s,
      ss_epoch := ss_consumed s div int (length train)\<rparr>" "0 \<le> ss_consumed s"
    using run_batches_position [OF assms(2)] assms(1) by (simp_all add: source_new_def)
  have "nat (ss_consumed s mod int (length train)) = nat (ss_consumed s) mod length train"
    using p(2) by (simp add: nat_mod_distrib)
  then have "restore_rows (ss_consumed s) ?s0 = Inr (?s0\<lparr>ss_pending := stream_pending train [] (nat (ss_consumed s)),
      ss_consumed := ss_consumed s, ss_epoch := ss_consumed s div int (length train)\<rparr>)"
    using p(2) assms(1) stream_pending_mod [OF assms(1), of "nat (ss_consumed s)"]
    by (simp add: restore_rows_def source_new_def next_rows_eq)
  then show ?thesis using p(1) by simp
qed

lemma restore_is_exact_witness:
  "\<exists>s. run_batches (\<lambda>x. Inr x) [4, 3] (source_new [1 :: int, 2, 3] 3) = Inr ([1, 2, 3, 1, 2, 3, 1], s)
     \<and> restore_rows 7 (source_new [1, 2, 3] 3) = Inr s"
proof -
  obtain s where s: "run_batches (\<lambda>x. Inr x) [4, 3] (source_new [1 :: int, 2, 3] 3) = Inr ([1, 2, 3, 1, 2, 3, 1], s)"
    and "ss_consumed s = 7"
    by (simp add: next_batch_def source_new_def numeral_eq_Suc next_row_def Let_def)
  with restore_is_exact [of "[1, 2, 3]" "\<lambda>x. Inr x" "[4, 3]" "[1, 2, 3, 1, 2, 3, 1]" s] show ?thesis by auto
qed

text \<open>The hash split of records is the context split of integer contexts with 15 percent validation
  and 15 percent test.\<close>

theorem record_split_is_context_split:
  "split_for_index i = split_for None digest stream_planner (IntContext i)"
  by (simp add: split_for_index_def split_for_def context_u64_def python_split_def mix_u64_def stream_planner_def
      split_name_def Let_def)

text \<open>Everything the producer has made, in order: encoded rows of the stream, and after a failure the
  exception.\<close>

definition prefetch_inv ::
  "('r \<Rightarrow> kerror + 'v) \<Rightarrow> 'r list \<Rightarrow> int \<Rightarrow> 'r list \<Rightarrow> ('r, 'v) prefetch \<Rightarrow> bool" where
  "prefetch_inv encode train capacity start s \<longleftrightarrow>
     (\<exists>vals. map_result encode (stream_rows train start (length vals)) = Inr vals \<and>
        (if pf_failed s then \<exists>e. pf_taken s @ pf_queue s @ pf_hand s = map Inr vals @ [Inl e]
         else pf_taken s @ pf_queue s @ pf_hand s = map Inr vals \<and>
              pf_pending s = stream_pending train start (length vals)))
     \<and> int (length (pf_queue s)) \<le> max 0 capacity"

lemma prefetch_inv_fill:
  assumes inv: "prefetch_inv encode train capacity start s" and "pf_hand s = []" and "\<not> pf_failed s" and "train \<noteq> []"
  shows "prefetch_inv encode train capacity start (producer_fill encode train chunk s)"
proof -
  from inv assms(2,3) obtain vals where v: "map_result encode (stream_rows train start (length vals)) = Inr vals"
    "pf_taken s @ pf_queue s = map Inr vals" "pf_pending s = stream_pending train start (length vals)"
    and q: "int (length (pf_queue s)) \<le> max 0 capacity"
    by (auto simp: prefetch_inv_def)
  let ?rows = "stream_rows train (pf_pending s) chunk"
  show ?thesis
  proof (cases "map_result encode ?rows")
    case (Inl e)
    then have "producer_fill encode train chunk s = s\<lparr>pf_hand := [Inl e], pf_failed := True\<rparr>"
      by (simp add: producer_fill_def next_rows_eq [OF assms(4)])
    then show ?thesis using v q unfolding prefetch_inv_def by auto
  next
    case (Inr ws)
    have f: "producer_fill encode train chunk s =
        s\<lparr>pf_hand := map Inr ws, pf_pending := stream_pending train (pf_pending s) chunk\<rparr>"
      by (simp add: producer_fill_def next_rows_eq [OF assms(4)] Inr)
    have l: "length ws = chunk" using map_result_length [OF Inr] by simp
    have "map_result encode (stream_rows train start (length (vals @ ws))) = Inr (vals @ ws)"
      using map_result_append [OF v(1)] Inr by (simp add: stream_rows_add v(3) l)
    moreover have "pf_taken s @ pf_queue s @ map Inr ws = map Inr (vals @ ws)" using v(2) by simp
    moreover have "stream_pending train (pf_pending s) chunk = stream_pending train start (length (vals @ ws))"
      by (simp add: v(3) l stream_pending_add)
    ultimately show ?thesis
      using q assms(3) unfolding prefetch_inv_def f by (intro conjI exI [of _ "vals @ ws"]) auto
  qed
qed

lemma prefetch_inv_move:
  assumes "prefetch_inv encode train capacity start s"
    and "pf_taken s' @ pf_queue s' @ pf_hand s' = pf_taken s @ pf_queue s @ pf_hand s"
    and "pf_failed s' = pf_failed s" and "pf_pending s' = pf_pending s"
    and "int (length (pf_queue s')) \<le> max 0 capacity"
  shows "prefetch_inv encode train capacity start s'"
  using assms(1,5) unfolding prefetch_inv_def assms(2-4) by blast

lemma prefetch_inv_reach:
  assumes "train \<noteq> []"
  shows "prefetch_reach encode train chunk capacity start s \<Longrightarrow> prefetch_inv encode train capacity start s"
proof (induction rule: prefetch_reach.induct)
  case Begin
  show ?case unfolding prefetch_inv_def by (intro conjI exI [of _ "[]"]) auto
next
  case (Step s s')
  from Step.hyps(2) show ?case
  proof (cases rule: prefetch_step.cases)
    case Fill
    then show ?thesis using prefetch_inv_fill [OF Step.IH _ _ assms] by simp
  next
    case (Put x xs)
    show ?thesis by (rule prefetch_inv_move [OF Step.IH]) (use Put in auto)
  next
    case (Take x xs)
    have "int (length (pf_queue s)) \<le> max 0 capacity" using Step.IH by (simp add: prefetch_inv_def)
    then show ?thesis by (intro prefetch_inv_move [OF Step.IH]) (use Take in auto)
  qed
qed

text \<open>C14: The prefetch thread changes nothing the consumer sees: whatever the interleaving, the items
  taken from the queue are the encoded rows of the training stream in order, ended by at most one
  exception, and the queue never holds more than its capacity.\<close>

theorem prefetch_keeps_order:
  assumes "train \<noteq> []" and "prefetch_reach encode train chunk capacity start s"
  shows "\<exists>vals err later. map_result encode (stream_rows train start (length vals)) = Inr vals
    \<and> (err = [] \<or> (\<exists>e. err = [Inl e])) \<and> pf_taken s @ later = map Inr vals @ err
    \<and> int (length (pf_queue s)) \<le> max 0 capacity"
proof -
  from prefetch_inv_reach [OF assms] obtain vals where v: "map_result encode (stream_rows train start (length vals)) = Inr vals"
    "if pf_failed s then \<exists>e. pf_taken s @ pf_queue s @ pf_hand s = map Inr vals @ [Inl e]
     else pf_taken s @ pf_queue s @ pf_hand s = map Inr vals"
    and q: "int (length (pf_queue s)) \<le> max 0 capacity"
    unfolding prefetch_inv_def by (metis (no_types, lifting))
  have "\<exists>err. (err = [] \<or> (\<exists>e. err = [Inl e])) \<and> pf_taken s @ pf_queue s @ pf_hand s = map Inr vals @ err"
  proof (cases "pf_failed s")
    case True
    then show ?thesis using v(2) by auto
  next
    case False
    then show ?thesis using v(2) by (intro exI [of _ "[]"]) simp
  qed
  with v(1) q show ?thesis by blast
qed

lemma prefetch_keeps_order_witness:
  "\<exists>s vals err later. prefetch_reach (\<lambda>x. Inr x) [1 :: int, 2] 1 4 [] s \<and> pf_taken s = [Inr 1]
     \<and> pf_taken s @ later = map Inr vals @ err"
proof -
  let ?s0 = "\<lparr>pf_pending = [], pf_hand = [], pf_queue = [], pf_taken = [], pf_failed = False\<rparr> :: (int, int) prefetch"
  let ?P = "prefetch_reach (\<lambda>x. Inr x) [1 :: int, 2] 1 4 []"
  have "?P (producer_fill (\<lambda>x. Inr x) [1, 2] 1 ?s0)" by (intro prefetch_reach.Step [OF prefetch_reach.Begin] prefetch_step.Fill) simp_all
  moreover have "producer_fill (\<lambda>x. Inr x) [1, 2] 1 ?s0 =
      \<lparr>pf_pending = [2], pf_hand = [Inr 1], pf_queue = [], pf_taken = [], pf_failed = False\<rparr>"
    by (simp add: producer_fill_def next_row_def)
  ultimately have "?P \<lparr>pf_pending = [2], pf_hand = [Inr 1], pf_queue = [], pf_taken = [], pf_failed = False\<rparr>" by simp
  from prefetch_reach.Step [OF this prefetch_step.Put] have "?P \<lparr>pf_pending = [2], pf_hand = [], pf_queue = [Inr 1],
      pf_taken = [], pf_failed = False\<rparr>" by fastforce
  from prefetch_reach.Step [OF this prefetch_step.Take] have r: "?P \<lparr>pf_pending = [2], pf_hand = [], pf_queue = [],
      pf_taken = [Inr 1], pf_failed = False\<rparr>" by fastforce
  from prefetch_keeps_order [OF _ r] show ?thesis using r by fastforce
qed

section \<open>Inspection agrees with reading\<close>

lemma add_value_counts [simp]:
  "sc_count (fold (add_value parse r) cs s) = sc_count s" "sc_train (fold (add_value parse r) cs s) = sc_train s"
  "sc_validation (fold (add_value parse r) cs s) = sc_validation s" "sc_test (fold (add_value parse r) cs s) = sc_test s"
  "sc_unique (fold (add_value parse r) cs s) = sc_unique s"
proof -
  have "sc_count (add_value parse r c s) = sc_count s \<and> sc_train (add_value parse r c s) = sc_train s \<and>
      sc_validation (add_value parse r c s) = sc_validation s \<and> sc_test (add_value parse r c s) = sc_test s \<and>
      sc_unique (add_value parse r c s) = sc_unique s" for c s
    by (simp add: add_value_def split: option.split)
  then show "sc_count (fold (add_value parse r) cs s) = sc_count s" "sc_train (fold (add_value parse r) cs s) = sc_train s"
    "sc_validation (fold (add_value parse r) cs s) = sc_validation s" "sc_test (fold (add_value parse r) cs s) = sc_test s"
    "sc_unique (fold (add_value parse r) cs s) = sc_unique s"
    by (induction cs arbitrary: s) simp_all
qed

definition splits_from :: "(int \<Rightarrow> row \<Rightarrow> split) \<Rightarrow> int \<Rightarrow> row list \<Rightarrow> split \<Rightarrow> int" where
  "splits_from split_of n rows x =
     int (length (filter (\<lambda>(i, r). split_of (n + int i) r = x) (zip [0..<length rows] rows)))"

lemma splits_from_Cons:
  "splits_from f n (r # rs) x = (if f n r = x then 1 else 0) + splits_from f (n + 1) rs x"
proof -
  have "zip [0..<Suc (length rs)] (r # rs) = (0, r) # map (\<lambda>(i, y). (Suc i, y)) (zip [0..<length rs] rs)"
  proof -
    have "[0..<Suc (length rs)] = 0 # map Suc [0..<length rs]" by (simp add: map_Suc_upt upt_conv_Cons del: upt_Suc)
    then show ?thesis by (simp add: zip_map1 del: upt_Suc)
  qed
  moreover have "n + (1 + int a) = n + 1 + int a" for a by simp
  ultimately show ?thesis
    by (simp add: splits_from_def filter_map o_def case_prod_unfold add.assoc del: upt_Suc)
qed

lemma consume_all_counts:
  "consume_all (consume core digest parse columns target context numeric) rows s = Inr s' \<Longrightarrow>
     sc_count s' = sc_count s + int (length rows) \<and>
     sc_train s' = sc_train s + splits_from (row_split core digest context) (sc_count s) rows Train \<and>
     sc_validation s' = sc_validation s + splits_from (row_split core digest context) (sc_count s) rows Validation \<and>
     sc_test s' = sc_test s + splits_from (row_split core digest context) (sc_count s) rows Test"
proof (induction rows arbitrary: s)
  case Nil
  then show ?case by (simp add: splits_from_def)
next
  case (Cons r rs)
  from Cons.prems obtain t where t: "consume core digest parse columns target context numeric r s = Inr t"
    and rest: "consume_all (consume core digest parse columns target context numeric) rs t = Inr s'"
    by (auto elim!: bind_result_InrE)
  let ?x = "row_split core digest context (sc_count s) r"
  have "sc_count t = sc_count s + 1" "sc_train t = sc_train s + (if ?x = Train then 1 else 0)"
    "sc_validation t = sc_validation s + (if ?x = Validation then 1 else 0)"
    "sc_test t = sc_test s + (if ?x = Test then 1 else 0)"
    using t by (auto simp: consume_def Let_def count_split_def split: if_splits split.splits)
  with Cons.IH [OF rest] show ?case by (simp add: splits_from_Cons)
qed

lemma splits_from_all:
  "splits_from f n rows Train + splits_from f n rows Validation + splits_from f n rows Test = int (length rows)"
proof (induction rows arbitrary: n)
  case (Cons r rs)
  from Cons.IH [of "n + 1"] show ?case by (cases "f n r") (simp_all add: splits_from_Cons)
qed (simp add: splits_from_def)

lemma spec_of_scan_InrD:
  assumes "spec_of_scan parse fsqrt columns selected context features numeric s = Inr spec"
  shows "sp_records spec = sc_count s \<and> sp_train spec = sc_train s \<and> sp_validation spec = sc_validation s
    \<and> sp_test spec = sc_test s \<and> sp_context spec = context \<and> sp_target spec = selected \<and> sp_features spec = features
    \<and> length (sp_classes spec) \<le> 64 \<and> sp_feature_count spec \<le> 200000"
  using assms unfolding spec_of_scan_def Let_def
  by (elim bind_result_InrE) (auto simp: not_less split: if_splits)

lemma if_error_Inr: "((if c then Inl e else r) = Inr x) \<longleftrightarrow> \<not> c \<and> r = Inr x"
  by simp

lemma build_stream_spec_InrE:
  assumes "build_stream_spec core digest parse fsqrt target (rows, None) = Inr spec"
  obtains columns selected features numeric s where
    "features = filter (\<lambda>c. c \<noteq> selected \<and> Some c \<noteq> context_column columns selected) columns"
    "consume_all (consume core digest parse columns selected (context_column columns selected) numeric) rows
       (scan_start numeric) = Inr s"
    "spec_of_scan parse fsqrt columns selected (context_column columns selected) features numeric s = Inr spec"
proof -
  let ?cs = "dict_keys (hd (take 1000 rows))"
  from assms have "\<exists>selected. (if filter (\<lambda>c. c \<noteq> selected \<and> Some c \<noteq> context_column ?cs selected) ?cs = [] then Inl DatasetError else
      bind_result (consume_all (consume core digest parse ?cs selected (context_column ?cs selected)
          (filter (\<lambda>c. fle (to_float (95/100)) (numeric_share parse (take 1000 rows) c))
             (filter (\<lambda>c. c \<noteq> selected \<and> Some c \<noteq> context_column ?cs selected) ?cs))) rows
          (scan_start (filter (\<lambda>c. fle (to_float (95/100)) (numeric_share parse (take 1000 rows) c))
             (filter (\<lambda>c. c \<noteq> selected \<and> Some c \<noteq> context_column ?cs selected) ?cs))))
        (\<lambda>s. spec_of_scan parse fsqrt ?cs selected (context_column ?cs selected)
           (filter (\<lambda>c. c \<noteq> selected \<and> Some c \<noteq> context_column ?cs selected) ?cs)
           (filter (\<lambda>c. fle (to_float (95/100)) (numeric_share parse (take 1000 rows) c))
             (filter (\<lambda>c. c \<noteq> selected \<and> Some c \<noteq> context_column ?cs selected) ?cs)) s)) = Inr spec"
    unfolding build_stream_spec_def Let_def fst_conv snd_conv if_error_Inr
    by (elim conjE bind_result_InrE) (simp only: simp_thms if_False if_error_Inr, intro exI, assumption)
  then show ?thesis
    unfolding if_error_Inr by (elim exE conjE bind_result_InrE) (rule that [OF refl])
qed

text \<open>The specification of a stream describes what training reads later: the three split counts add
  up to the rows, the training count is the length of a training pass, neither the target nor the
  context column is a feature, and classes and encoded width are within their limits.\<close>

theorem stream_spec_sound:
  assumes "build_stream_spec core digest parse fsqrt target (rows, None) = Inr spec"
  shows "sp_records spec = int (length rows) \<and> sp_train spec + sp_validation spec + sp_test spec = sp_records spec
    \<and> sp_train spec = int (length (training_rows (row_split core digest (sp_context spec)) rows))
    \<and> sp_target spec \<notin> set (sp_features spec) \<and> (\<forall>c. sp_context spec = Some c \<longrightarrow> c \<notin> set (sp_features spec))
    \<and> length (sp_classes spec) \<le> 64 \<and> sp_feature_count spec \<le> 200000"
proof -
  from assms obtain columns selected features numeric s where
    f: "features = filter (\<lambda>c. c \<noteq> selected \<and> Some c \<noteq> context_column columns selected) columns"
    and s: "consume_all (consume core digest parse columns selected (context_column columns selected) numeric) rows
       (scan_start numeric) = Inr s"
    and spec: "spec_of_scan parse fsqrt columns selected (context_column columns selected) features numeric s = Inr spec"
    by (rule build_stream_spec_InrE)
  note d = spec_of_scan_InrD [OF spec]
  let ?f = "row_split core digest (sp_context spec)"
  have "splits_from ?f 0 rows Train = int (length (training_rows ?f rows))"
    by (simp add: splits_from_def training_rows_def)
  then show ?thesis
    using consume_all_counts [OF s] splits_from_all [of ?f 0 rows] d f by (auto simp: scan_start_def)
qed

lemma numeric_share_limit: "to_float (19/20) = Fin (of_int 8556839292003942 * pow2 (- 53))"
  by (rule to_float_near [of "- 53"]) (simp_all add: pow2_def)

lemma no_numeric_share: "\<not> fle (to_float (19/20)) (numeric_share (\<lambda>_. None) sample c)"
  by (simp add: numeric_share_limit numeric_share_def number_def Let_def to_float_int [of 0, simplified]
      fle_def feq_def pow2_def)

text \<open>Thirty-two rows with a context column, a text column and two classes; the core puts every
  context in training.\<close>

definition demo_rows :: "row list" where
  "demo_rows = concat (replicate 16 [[(''user'', ''u''), (''text'', ''up''), (''label'', ''a'')],
     [(''user'', ''v''), (''text'', ''down''), (''label'', ''b'')]])"

lemma demo_scan:
  "(case consume_all (consume (Some (\<lambda>_ _ _. 0)) (\<lambda>_. 0) (\<lambda>_. None) [''user'', ''text'', ''label''] ''label'' (Some ''user'') [])
     demo_rows (scan_start []) of Inr s \<Rightarrow> sc_count s = 32 \<and> sc_target_numeric s = False \<and> sc_unique s = [''a'', ''b'']
       \<and> sc_train s = 32 \<and> sc_validation s = 0 \<and> sc_test s = 0 | Inl _ \<Rightarrow> False)"
  by code_simp

lemma demo_shape:
  "length demo_rows = 32" "dict_keys (hd demo_rows) = [''user'', ''text'', ''label'']"
  "\<not> list_ex (\<lambda>r. dict_keys r \<noteq> [''user'', ''text'', ''label'']) demo_rows"
  "select_target None [''user'', ''text'', ''label''] = Inr ''label''"
  "context_column [''user'', ''text'', ''label''] ''label'' = Some ''user''"
  by code_simp+

lemma demo_stream:
  obtains spec where
    "build_stream_spec (Some (\<lambda>_ _ _. 0)) (\<lambda>_. 0) (\<lambda>_. None) id None (demo_rows, None) = Inr spec" "sp_records spec = 32"
proof -
  have n: "take 1000 demo_rows = demo_rows" by (simp add: demo_shape(1))
  obtain s where s: "consume_all (consume (Some (\<lambda>_ _ _. 0)) (\<lambda>_. 0) (\<lambda>_. None) [''user'', ''text'', ''label'']
      ''label'' (Some ''user'') []) demo_rows (scan_start []) = Inr s" "sc_count s = 32" "sc_unique s = [''a'', ''b'']"
    using demo_scan by (auto split: sum.splits)
  have "(case build_stream_spec (Some (\<lambda>_ _ _. 0)) (\<lambda>_. 0) (\<lambda>_. None) id None (demo_rows, None) of
      Inr spec \<Rightarrow> sp_records spec = 32 | Inl _ \<Rightarrow> False)"
    unfolding build_stream_spec_def Let_def fst_conv snd_conv n demo_shape
    using s by (simp add: no_numeric_share demo_shape bind_result_def spec_of_scan_def infer_task_def Let_def hash_buckets_def)
  with that show thesis by (auto split: sum.splits)
qed

theorem stream_spec_sound_witness:
  "\<exists>spec. build_stream_spec (Some (\<lambda>_ _ _. 0)) (\<lambda>_. 0) (\<lambda>_. None) id None (demo_rows, None) = Inr spec
    \<and> sp_train spec + sp_validation spec + sp_test spec = 32 \<and> length (sp_classes spec) \<le> 64"
  by (rule demo_stream) (rule exI, use stream_spec_sound in fastforce)
end
