(* ===== verification/DataHealth.thy ===== *)
theory DataHealth imports Streaming Files begin

text \<open>
  The data doctor of \<open>src/src/kernelyra/data_health.py\<close>: column statistics and findings from the bounded
  preview of an inspection, and the data contract with its split and chunk policy. Text is ASCII; a
  finding stands for its message, which its code determines. \<open>float\<close> and \<open>str\<close>, the JSON text of a row
  and the signature of a contract are parameters.
\<close>

section \<open>Inspections\<close>

record inspection =
  in_columns :: "pyval list"
  in_preview :: "pyval list"
  in_suggested :: "string option"
  in_tasks :: "string list"
  in_rows :: int
  in_sampled :: int
  in_shape :: "int list"
  in_bytes :: int
  in_source :: string
  in_format :: string
  in_trainable :: bool

record health_env =
  he_parse :: "string \<Rightarrow> pyfloat option"
  he_show :: "pyval \<Rightarrow> string"
  he_json :: "pydict \<Rightarrow> string"
  he_sign :: "pydict \<Rightarrow> string"
  he_core :: "(int \<Rightarrow> int \<Rightarrow> int) option"

definition plain_text :: "(pyval \<Rightarrow> string) \<Rightarrow> pyval \<Rightarrow> string" where
  "plain_text show v = (case v of VStr s \<Rightarrow> s | _ \<Rightarrow> show v)"

definition value_text :: "(pyval \<Rightarrow> string) \<Rightarrow> pyval \<Rightarrow> string" where
  "value_text show v = py_strip (if v = VNone then [] else plain_text show v)"

definition finite_number :: "(string \<Rightarrow> pyfloat option) \<Rightarrow> string \<Rightarrow> pyfloat option" where
  "finite_number parse t = (case number parse t of Some x \<Rightarrow> if isfinite x then Some x else None | None \<Rightarrow> None)"

definition preview_rows :: "inspection \<Rightarrow> pydict list" where
  "preview_rows ins = List.map_filter (\<lambda>v. case v of VDict d \<Rightarrow> Some d | _ \<Rightarrow> None) (in_preview ins)"

definition cell_text :: "(pyval \<Rightarrow> string) \<Rightarrow> string \<Rightarrow> pydict \<Rightarrow> string" where
  "cell_text show column row = value_text show (case dict_get column row of Some v \<Rightarrow> v | None \<Rightarrow> VNone)"

definition all_columns :: "(pyval \<Rightarrow> string) \<Rightarrow> inspection \<Rightarrow> string list" where
  "all_columns show ins = map (plain_text show) (filter (\<lambda>c. value_text show c \<noteq> []) (in_columns ins))"

section \<open>Columns\<close>

record issue =
  is_code :: string
  is_severity :: string
  is_evidence :: pydict

text \<open>True division of integers, and \<open>round(x, 6)\<close>.\<close>

definition ratio :: "nat \<Rightarrow> nat \<Rightarrow> pyfloat" where
  "ratio a b = to_float (of_nat a / of_nat b)"

definition round6 :: "pyfloat \<Rightarrow> pyfloat" where
  "round6 x = (case x of Fin q \<Rightarrow> to_float (of_int (round_even (q * 1000000)) / 1000000) | _ \<Rightarrow> x)"

record column_stats =
  co_name :: string
  co_sampled :: nat
  co_non_empty :: nat
  co_missing :: pyfloat
  co_unique :: nat
  co_unique_rate :: pyfloat
  co_numeric :: bool

definition present_values :: "(pyval \<Rightarrow> string) \<Rightarrow> pydict list \<Rightarrow> string \<Rightarrow> string list" where
  "present_values show rows column = filter (\<lambda>t. t \<noteq> []) (map (cell_text show column) rows)"

definition stats_of :: "health_env \<Rightarrow> pydict list \<Rightarrow> string \<Rightarrow> column_stats" where
  "stats_of env rows column =
     (let present = present_values (he_show env) rows column; n = length present; u = length (remdups present);
          numeric = length (filter (\<lambda>t. finite_number (he_parse env) t \<noteq> None) present)
      in \<lparr>co_name = column, co_sampled = length rows, co_non_empty = n,
          co_missing = round6 (fsub (Fin 1) (ratio n (max 1 (length rows)))), co_unique = u,
          co_unique_rate = round6 (ratio u (max 1 n)),
          co_numeric = (fle (to_float (95/100)) (ratio numeric (max 1 n)) \<and> present \<noteq> [])\<rparr>)"

text \<open>The patterns ask for a whole word between underscores, dashes and the ends, as \<open>group_hint\<close> does.\<close>

definition word_hint :: "string list \<Rightarrow> string \<Rightarrow> bool" where
  "word_hint ws column \<longleftrightarrow> list_ex (\<lambda>t. py_lower t \<in> set ws) (name_tokens column @ name_tokens (chomp column))"

definition time_words :: "string list" where
  "time_words = [''date'', ''time'', ''timestamp'', ''created'', ''updated'', ''event'']"

definition id_words :: "string list" where
  "id_words = [''id'', ''uuid'', ''guid'', ''key'']"

definition column_findings :: "string option \<Rightarrow> column_stats \<Rightarrow> issue list" where
  "column_findings selected c =
     (if fle (to_float (5/100)) (co_missing c)
      then [\<lparr>is_code = ''missing_values'', is_severity = ''warning'',
             is_evidence = [(''column'', VStr (co_name c)), (''missing_rate'', VFloat (co_missing c))]\<rparr>] else [])
   @ (if Some (co_name c) \<noteq> selected
         \<and> (word_hint id_words (co_name c) \<or> fle (to_float (98/100)) (co_unique_rate c) \<and> 20 \<le> co_unique c)
      then [\<lparr>is_code = ''identifier_like_feature'', is_severity = ''warning'',
             is_evidence = [(''column'', VStr (co_name c)), (''unique_rate'', VFloat (co_unique_rate c))]\<rparr>] else [])"

section \<open>Target\<close>

definition health_task :: "(string \<Rightarrow> pyfloat option) \<Rightarrow> string list \<Rightarrow> string list \<Rightarrow> string option" where
  "health_task parse tasks target_values =
     (case tasks of
        [t] \<Rightarrow> Some t
      | _ \<Rightarrow>
          let unique = remdups target_values in
          if length unique = 2 then Some ''binary_classification''
          else if unique = [] then None
          else if list_all (\<lambda>t. finite_number parse t \<noteq> None) unique
                  \<and> max 20 (floor_sqrt (length target_values) + 1) < length unique
          then Some ''regression'' else Some ''multiclass_classification'')"

text \<open>\<open>Counter\<close> keeps the order of first appearance; \<open>most_common\<close> sorts it by count, ties in that order.\<close>

definition count_values :: "string list \<Rightarrow> (string, nat) dict" where
  "count_values ts = fold (\<lambda>t d. dict_set t (1 + (case dict_get t d of Some n \<Rightarrow> n | None \<Rightarrow> 0)) d) ts []"

definition most_common :: "nat \<Rightarrow> (string, nat) dict \<Rightarrow> (string, nat) dict" where
  "most_common k d = take k (sort_key (\<lambda>(t, n). - int n) d)"

definition max_classes :: nat where
  "max_classes = 64"

definition max_columns :: nat where
  "max_columns = 512"

definition leaked :: "health_env \<Rightarrow> pydict list \<Rightarrow> string \<Rightarrow> string \<Rightarrow> issue list" where
  "leaked env rows target column =
     (let pairs = filter (\<lambda>(a, b). a \<noteq> [] \<and> b \<noteq> [])
            (map (\<lambda>r. (cell_text (he_show env) column r, cell_text (he_show env) target r)) rows);
          rate = ratio (length (filter (\<lambda>(a, b). a = b) pairs)) (length pairs)
      in if column \<noteq> target \<and> 8 \<le> length pairs \<and> fle (to_float (98/100)) rate
         then [\<lparr>is_code = ''possible_target_leakage'', is_severity = ''error'',
                is_evidence = [(''column'', VStr column), (''equal_rate'', VFloat (round6 rate))]\<rparr>] else [])"

definition target_findings :: "health_env \<Rightarrow> pydict list \<Rightarrow> string list \<Rightarrow> string \<Rightarrow> string list \<Rightarrow> issue list" where
  "target_findings env rows columns target values =
     (let counts = count_values values; n = length counts;
          largest = ratio (fold max (map snd counts) 0) (length values)
      in (if max_classes < n
          then [\<lparr>is_code = ''many_target_classes'', is_severity = ''warning'', is_evidence = [(''classes'', VInt (int n))]\<rparr>] else [])
       @ (if 2 \<le> n \<and> fle (to_float (8/10)) largest
          then [\<lparr>is_code = ''class_imbalance'', is_severity = ''warning'',
                 is_evidence = [(''largest_class_fraction'', VFloat (round6 largest))]\<rparr>] else [])
       @ concat (map (leaked env rows target) columns))"

section \<open>Policies\<close>

definition policy_dict :: "string \<Rightarrow> string option \<Rightarrow> string option \<Rightarrow> string \<Rightarrow> string \<Rightarrow> pydict" where
  "policy_dict strategy order_column group_column reason enforcement =
     [(''strategy'', VStr strategy), (''execution_strategy'', VStr strategy), (''order_column'', v_opt_str order_column),
      (''context_column'', v_opt_str group_column), (''reason'', VStr reason), (''enforcement'', VStr enforcement)]"

definition split_policy :: "string list \<Rightarrow> string option \<Rightarrow> string option \<Rightarrow> pydict" where
  "split_policy columns task target =
     (let candidates = filter (\<lambda>c. Some c \<noteq> target) columns in
      case find (word_hint time_words) candidates of
        Some c \<Rightarrow> policy_dict ''temporal'' (Some c) None
          ''A time-like column was found; preserve source order to reduce future-to-past leakage.''
          ''materialized backends preserve source order; the input is not re-sorted by this column''
      | None \<Rightarrow>
          (case find (word_hint group_words) candidates of
             Some c \<Rightarrow> policy_dict ''context'' None (Some c)
               ''A group-like column was found; keep every matching context in exactly one split.''
               ''external streaming tabular path; AutoTrainer routes detected context data through the built-in group-exclusive splitter''
           | None \<Rightarrow>
               if task \<in> {Some ''binary_classification'', Some ''multiclass_classification''}
               then policy_dict ''stratified'' None None
                 ''Classification labels are partitioned deterministically by class.'' ''materialized backends''
               else policy_dict ''random'' None None
                 ''No temporal, context, or classification signal was available.'' ''materialized backends''))"

text \<open>\<open>int(math.log2(n))\<close> of a number from 2 to \<open>2 ^ 20\<close>.\<close>

definition automatic_target :: "int \<Rightarrow> int" where
  "automatic_target features =
     max 512 (min 16384 (2 ^ nat (max 9 (min 14 (int (bit_length (nat (max 2 (1048576 div features)))) - 1)))))"

definition summary_dict :: "bool \<Rightarrow> chunk_summary \<Rightarrow> pydict" where
  "summary_dict native s =
     [(''records'', VInt (cs_records s)), (''chunk_count'', VInt (int (cs_count s))), (''target_records'', VInt (cs_target s)),
      (''minimum_records'', VInt (cs_minimum s)), (''maximum_records'', VInt (cs_maximum s)),
      (''native_policy_active'', VBool native),
      (''preview'', VList (map (\<lambda>(a, b, n). VDict [(''start'', VInt a), (''stop'', VInt b), (''size'', VInt n)]) (cs_preview s))),
      (''preview_truncated'', VBool (cs_truncated s))]"

definition recommend_chunk_policy :: "(int \<Rightarrow> int \<Rightarrow> int) option \<Rightarrow> int \<Rightarrow> int \<Rightarrow> int \<Rightarrow> int option \<Rightarrow> kerror + pydict" where
  "recommend_chunk_policy core records features seed target_records =
     (let target = (case target_records of None \<Rightarrow> automatic_target (max 1 features) | Some n \<Rightarrow> max 128 (min 262144 n)) in
      bind_result (planner_new target None None 15 15 seed) (\<lambda>p.
      bind_result (chunk_summary_of core p (max 0 records) 6) (\<lambda>s.
        Inr (dict_merge [(''strategy'', VStr ''adaptive_contiguous_ranges''),
            (''reason'', VStr ''Variable ranges reduce synchronized allocation spikes while preserving input order.''),
            (''target_records'', VInt target), (''seed'', VInt seed)]
          (summary_dict (core \<noteq> None) s)))))"

section \<open>The analysis\<close>

record analysis =
  an_contract :: pydict
  an_sampled :: nat
  an_columns :: nat
  an_target :: "string option"
  an_task :: "string option"
  an_duplicates :: nat
  an_findings :: "issue list"
  an_stats :: "column_stats list"
  an_distribution :: "(string, nat) dict"

definition an_warnings :: "analysis \<Rightarrow> string list" where
  "an_warnings a = map is_code (filter (\<lambda>i. is_severity i \<in> {''warning'', ''error''}) (an_findings a))"

definition an_blocking :: "analysis \<Rightarrow> nat" where
  "an_blocking a = length (filter (\<lambda>i. is_severity i = ''error'') (an_findings a))"

definition selected_column :: "string option \<Rightarrow> inspection \<Rightarrow> string list \<Rightarrow> string option" where
  "selected_column target ins columns =
     (let t = (case target of Some s \<Rightarrow> if s = [] then in_suggested ins else target | None \<Rightarrow> in_suggested ins)
      in case t of Some s \<Rightarrow> if s \<in> set columns then Some s else None | None \<Rightarrow> None)"

definition contract_of ::
  "health_env \<Rightarrow> inspection \<Rightarrow> string list \<Rightarrow> string option \<Rightarrow> string option \<Rightarrow> nat \<Rightarrow> int \<Rightarrow> int \<Rightarrow> pydict \<Rightarrow> pydict" where
  "contract_of env ins columns target task sampled records features chunks =
     (let contract =
        [(''contract'', VStr ''kernelyra-dataset-contract/1''),
         (''source'', VDict [(''path'', VStr (in_source ins)), (''format'', VStr (if in_format ins = [] then ''unknown'' else in_format ins)),
            (''size_bytes'', VInt (in_bytes ins))]),
         (''schema'', VDict [(''columns'', VList (map VStr columns)), (''target'', v_opt_str target), (''task'', v_opt_str task),
            (''sampled_rows'', VInt (int sampled)), (''estimated_records'', VInt records), (''estimated_features'', VInt features)]),
         (''split_policy'', VDict (split_policy columns task target)), (''chunk_policy'', VDict chunks)]
      in contract @ [(''signature'', VStr (he_sign env contract))])"

text \<open>\<open>a or b\<close> on numbers.\<close>

definition int_or :: "int \<Rightarrow> int \<Rightarrow> int" where
  "int_or a b = (if a \<noteq> 0 then a else b)"

definition analyze_inspection ::
  "health_env \<Rightarrow> inspection \<Rightarrow> string option \<Rightarrow> int option \<Rightarrow> int option \<Rightarrow> int \<Rightarrow> int option \<Rightarrow> kerror + analysis" where
  "analyze_inspection env ins target records_estimate feature_count seed chunk_target =
     (let every = all_columns (he_show env) ins; columns = take max_columns every; rows = preview_rows ins;
          selected = selected_column target ins every;
          stats = map (stats_of env rows) columns;
          values = (case selected of Some t \<Rightarrow> if t \<in> set columns then present_values (he_show env) rows t else [] | None \<Rightarrow> []);
          duplicates = length rows - length (remdups (map (he_json env) rows));
          task = health_task (he_parse env) (in_tasks ins) values;
          labelled = (selected \<noteq> None \<and> values \<noteq> [] \<and> task \<noteq> Some ''regression'');
          findings =
            (if length columns < length every
             then [\<lparr>is_code = ''schema_preview_truncated'', is_severity = ''info'', is_evidence = [(''total_columns'', VInt (int (length every)))]\<rparr>] else [])
            @ (if rows = [] then [\<lparr>is_code = ''preview_unavailable'', is_severity = ''warning'', is_evidence = []\<rparr>] else [])
            @ concat (map (column_findings selected) stats)
            @ (if duplicates \<noteq> 0
               then [\<lparr>is_code = ''duplicate_rows'', is_severity = ''warning'',
                      is_evidence = [(''duplicates'', VInt (int duplicates)), (''sampled_rows'', VInt (int (length rows)))]\<rparr>] else [])
            @ (if labelled then target_findings env rows columns (the selected) values else []);
          records = int_or (case records_estimate of Some n \<Rightarrow> n | None \<Rightarrow> 0)
                      (int_or (in_rows ins) (int_or (in_sampled ins) (int (length rows))));
          features = int_or (case feature_count of Some n \<Rightarrow> n | None \<Rightarrow> 0)
                       (max 1 (int (length every) - (if selected \<noteq> None then 1 else 0)))
      in bind_result (recommend_chunk_policy (he_core env) records features seed chunk_target) (\<lambda>chunks.
           Inr \<lparr>an_contract = contract_of env ins every selected task (length rows) records features chunks,
                an_sampled = length rows, an_columns = length every, an_target = selected, an_task = task,
                an_duplicates = duplicates, an_findings = findings, an_stats = stats,
                an_distribution = (if labelled then most_common max_classes (count_values values) else [])\<rparr>))"

section \<open>Policies hold what they say\<close>

lemma planner_default:
  assumes "128 \<le> t" shows "\<exists>p. planner_new t None None 15 15 seed = Inr p \<and> pl_target p = t"
proof -
  have "t * 3 div 4 > 0" "t * 3 div 4 \<le> t" "t \<le> t * 5 div 4" "t * 3 div 4 \<le> t * 5 div 4" using assms by auto
  then show ?thesis using assms by (simp add: planner_new_def Let_def)
qed

lemma target_bounds: "512 \<le> automatic_target f" "automatic_target f \<le> 16384"
proof -
  have "512 \<le> max 512 (min 16384 x)" "max 512 (min 16384 x) \<le> 16384" for x :: int by simp_all
  then show "512 \<le> automatic_target f" "automatic_target f \<le> 16384" unfolding automatic_target_def by blast+
qed

lemma chunk_policy_ok:
  assumes "recommend_chunk_policy core n f seed t = Inr ch"
  shows "\<exists>k. dict_get ''target_records'' ch = Some (VInt k) \<and> 128 \<le> k \<and> k \<le> 262144"
    and "dict_get ''records'' ch = Some (VInt (max 0 n))"
    and "dict_get ''strategy'' ch = Some (VStr ''adaptive_contiguous_ranges'')"
proof -
  define k where "k = (case t of None \<Rightarrow> automatic_target (max 1 f) | Some n \<Rightarrow> max 128 (min 262144 n))"
  have k: "128 \<le> k" "k \<le> 262144" using target_bounds [of "max 1 f"] by (auto simp: k_def split: option.split)
  obtain p s where p: "planner_new k None None 15 15 seed = Inr p" and s: "chunk_summary_of core p (max 0 n) 6 = Inr s"
    and ch: "ch = dict_merge [(''strategy'', VStr ''adaptive_contiguous_ranges''),
            (''reason'', VStr ''Variable ranges reduce synchronized allocation spikes while preserving input order.''),
            (''target_records'', VInt k), (''seed'', VInt seed)] (summary_dict (core \<noteq> None) s)"
    using assms unfolding recommend_chunk_policy_def Let_def k_def [symmetric] by (elim bind_result_InrE) auto
  have "pl_target p = k" using planner_default [OF k(1), of seed] p by auto
  then have f: "cs_target s = k" "cs_records s = max 0 n" using s by (auto simp: chunk_summary_of_def bind_Inr_iff Let_def)
  have g: "dict_get j ch = (case dict_get j (summary_dict (core \<noteq> None) s) of Some v \<Rightarrow> Some v
      | None \<Rightarrow> dict_get j [(''strategy'', VStr ''adaptive_contiguous_ranges''),
            (''reason'', VStr ''Variable ranges reduce synchronized allocation spikes while preserving input order.''),
            (''target_records'', VInt k), (''seed'', VInt seed)])" for j
    unfolding ch by (rule dict_get_merge) (simp add: summary_dict_def dict_ok_def)
  show "\<exists>k. dict_get ''target_records'' ch = Some (VInt k) \<and> 128 \<le> k \<and> k \<le> 262144"
    using k by (simp add: g summary_dict_def f)
  show "dict_get ''records'' ch = Some (VInt (max 0 n))" by (simp add: g summary_dict_def f)
  show "dict_get ''strategy'' ch = Some (VStr ''adaptive_contiguous_ranges'')" by (simp add: g summary_dict_def)
qed

lemma chunk_policy_total: "\<exists>ch. recommend_chunk_policy None n f seed t = Inr ch"
proof -
  define k where "k = (case t of None \<Rightarrow> automatic_target (max 1 f) | Some n \<Rightarrow> max 128 (min 262144 n))"
  have "128 \<le> k" using target_bounds [of "max 1 f"] by (auto simp: k_def split: option.split)
  then obtain p where p: "planner_new k None None 15 15 seed = Inr p" using planner_default by blast
  obtain rs where rs: "chunk_loop (fallback_chunk_size p) (max 0 n) 0 0 = Inr rs"
    using fallback.loop_covers [OF planner_new_ok [OF p], of "max 0 n" 0 0] by auto
  then have "\<exists>s. chunk_summary_of None p (max 0 n) 6 = Inr s"
    by (simp add: chunk_summary_of_def chunk_ranges_def Let_def)
  then show ?thesis unfolding recommend_chunk_policy_def Let_def k_def [symmetric] p by auto
qed

lemma bind_total: "\<exists>x. r = Inr x \<Longrightarrow> \<exists>y. bind_result r (\<lambda>x. Inr (g x)) = Inr y"
  by auto

lemma word_hint_group: "word_hint group_words c = group_hint c"
  by (simp add: word_hint_def group_hint_def)

lemma split_policy_cases:
  obtains (temporal) c where "split_policy columns task target = policy_dict ''temporal'' (Some c) None
          ''A time-like column was found; preserve source order to reduce future-to-past leakage.''
          ''materialized backends preserve source order; the input is not re-sorted by this column''"
      "find (\<lambda>x. Some x \<noteq> target \<and> word_hint time_words x) columns = Some c"
  | (grouped) c where "split_policy columns task target = policy_dict ''context'' None (Some c)
               ''A group-like column was found; keep every matching context in exactly one split.''
               ''external streaming tabular path; AutoTrainer routes detected context data through the built-in group-exclusive splitter''"
      "find (\<lambda>x. Some x \<noteq> target \<and> word_hint time_words x) columns = None"
      "find (\<lambda>x. Some x \<noteq> target \<and> group_hint x) columns = Some c"
  | (neither) strategy reason enforcement where "split_policy columns task target = policy_dict strategy None None reason enforcement"
      "find (\<lambda>x. Some x \<noteq> target \<and> word_hint time_words x) columns = None"
      "find (\<lambda>x. Some x \<noteq> target \<and> group_hint x) columns = None"
      "strategy = (if task \<in> {Some ''binary_classification'', Some ''multiclass_classification''} then ''stratified'' else ''random'')"
proof -
  have f: "find P (filter (\<lambda>c. Some c \<noteq> target) xs) = find (\<lambda>x. Some x \<noteq> target \<and> P x) xs" for P and xs :: "string list"
    by (induction xs) auto
  let ?t = "find (\<lambda>x. Some x \<noteq> target \<and> word_hint time_words x) columns"
  let ?g = "find (\<lambda>x. Some x \<noteq> target \<and> group_hint x) columns"
  consider (t) c where "?t = Some c" | (g) c where "?t = None" "?g = Some c" | (n) "?t = None" "?g = None"
    by (cases ?t; cases ?g) auto
  then show ?thesis
  proof cases
    case t
    then show ?thesis by (intro temporal [of c]) (simp_all add: split_policy_def f word_hint_group)
  next
    case g
    then show ?thesis by (intro grouped [of c]) (simp_all add: split_policy_def f word_hint_group)
  next
    case n
    then show ?thesis
      by (cases "task \<in> {Some ''binary_classification'', Some ''multiclass_classification''}")
        (auto simp: split_policy_def f word_hint_group intro!: neither)
  qed
qed

lemma policy_fields:
  "dict_get ''strategy'' (policy_dict s oc gc r e) = Some (VStr s)"
  "dict_get ''execution_strategy'' (policy_dict s oc gc r e) = Some (VStr s)"
  "dict_get ''context_column'' (policy_dict s oc gc r e) = Some (v_opt_str gc)"
  "dict_get ''order_column'' (policy_dict s oc gc r e) = Some (v_opt_str oc)"
  by (simp_all add: policy_dict_def)

lemma analysis_InrE:
  assumes "analyze_inspection env ins target re fc seed ct = Inr a"
  obtains chunks records features where
    "recommend_chunk_policy (he_core env) records features seed ct = Inr chunks"
    "an_contract a = contract_of env ins (all_columns (he_show env) ins) (an_target a) (an_task a) (an_sampled a) records features chunks"
    "an_target a = selected_column target ins (all_columns (he_show env) ins)"
  using assms unfolding analyze_inspection_def Let_def by (elim bind_result_InrE) (auto intro!: that)

lemma contract_fields:
  "dict_get ''split_policy'' (contract_of env ins cs t k n r f ch) = Some (VDict (split_policy cs k t))"
  "dict_get ''chunk_policy'' (contract_of env ins cs t k n r f ch) = Some (VDict ch)"
  "\<exists>s. dict_get ''signature'' (contract_of env ins cs t k n r f ch) = Some (VStr s)"
  by (simp_all add: contract_of_def Let_def)

section \<open>Counting\<close>

lemma count_snoc: "count_values (ts @ [t]) =
    dict_set t (1 + (case dict_get t (count_values ts) of Some n \<Rightarrow> n | None \<Rightarrow> 0)) (count_values ts)"
  by (simp add: count_values_def)

lemma count_values_get: "dict_get u (count_values ts) = (if u \<in> set ts then Some (count_list ts u) else None)"
proof (induction ts arbitrary: u rule: rev_induct)
  case (snoc t ts)
  then show ?case by (auto simp: count_snoc dict_get_set count_list_append count_list_0_iff split: if_splits)
qed (simp add: count_values_def)

lemma count_values_ok: "dict_ok (count_values ts)"
proof (induction ts rule: rev_induct)
  case (snoc t ts)
  then show ?case by (simp add: count_snoc dict_ok_set)
qed (simp add: count_values_def dict_ok_def)

lemma most_common_top:
  assumes "(t, n) \<in> set (most_common k d)" and "(u, m) \<in> set d" and "(u, m) \<notin> set (most_common k d)"
  shows "m \<le> n"
proof -
  let ?key = "\<lambda>(t :: string, n :: nat). - int n" and ?s = "sort_key (\<lambda>(t :: string, n :: nat). - int n) d"
  have s: "sorted_wrt (\<lambda>x y. ?key x \<le> ?key y) (take k ?s @ drop k ?s)"
    unfolding append_take_drop_id using sorted_sort_key [of ?key d] by (simp only: sorted_map)
  have "(u, m) \<in> set ?s" using assms(2) by simp
  then have "(u, m) \<in> set (take k ?s) \<union> set (drop k ?s)" by (metis append_take_drop_id set_append)
  then have "(u, m) \<in> set (drop k ?s)" using assms(3) by (simp add: most_common_def)
  then have "?key (t, n) \<le> ?key (u, m)"
    using s assms(1) unfolding sorted_wrt_append most_common_def by blast
  then show ?thesis by simp
qed

lemma analyze_total: "he_core env = None \<Longrightarrow> \<exists>a. analyze_inspection env ins target re fc seed ct = Inr a"
  unfolding analyze_inspection_def Let_def by (intro bind_total) (simp add: chunk_policy_total)

section \<open>Properties\<close>

definition split_valid :: "string list \<Rightarrow> string option \<Rightarrow> pydict \<Rightarrow> bool" where
  "split_valid columns target sp \<longleftrightarrow> (\<exists>strategy oc gc.
     dict_get ''strategy'' sp = Some (VStr strategy) \<and> dict_get ''execution_strategy'' sp = Some (VStr strategy)
     \<and> strategy \<in> {''temporal'', ''context'', ''stratified'', ''random''}
     \<and> dict_get ''order_column'' sp = Some (v_opt_str oc) \<and> dict_get ''context_column'' sp = Some (v_opt_str gc)
     \<and> (strategy = ''temporal'' \<longleftrightarrow> oc \<noteq> None) \<and> (strategy = ''context'' \<longleftrightarrow> gc \<noteq> None)
     \<and> set_option oc \<union> set_option gc \<subseteq> set columns - set_option target)"

definition contract_ok :: "string list \<Rightarrow> string option \<Rightarrow> pydict \<Rightarrow> bool" where
  "contract_ok columns target contract \<longleftrightarrow> (\<exists>sp ch sig k.
     dict_get ''split_policy'' contract = Some (VDict sp) \<and> split_valid columns target sp
     \<and> dict_get ''chunk_policy'' contract = Some (VDict ch) \<and> dict_get ''target_records'' ch = Some (VInt k) \<and> 128 \<le> k \<and> k \<le> 262144
     \<and> dict_get ''signature'' contract = Some (VStr sig))"

lemma split_policy_ok: "split_valid columns target (split_policy columns task target)"
proof -
  have fd: "x \<in> set columns - set_option target" if "find (\<lambda>x. Some x \<noteq> target \<and> P x) columns = Some x" for P x
    using that by (auto simp: find_Some_iff)
  show ?thesis
  proof (cases rule: split_policy_cases [of columns task target])
    case (temporal c)
    show ?thesis unfolding split_valid_def temporal(1) policy_fields
      using fd [OF temporal(2)] by (intro exI [of _ "''temporal''"] exI [of _ "Some c"] exI [of _ None]) simp
  next
    case (grouped c)
    show ?thesis unfolding split_valid_def grouped(1) policy_fields
      using fd [OF grouped(3)] by (intro exI [of _ "''context''"] exI [of _ None] exI [of _ "Some c"]) simp
  next
    case (neither strategy reason enforcement)
    show ?thesis unfolding split_valid_def neither(1) policy_fields
      by (intro exI [of _ strategy] exI [of _ None]) (simp add: neither(4))
  qed
qed


text \<open>The contract and the stream reader agree on groups: for a data set with a target, the context column of
  the contract is the column by which a stream is split. They part only where a time-like column comes into
  play: then the contract announces a temporal split without groups, whatever the stream does.\<close>

theorem contract_context_is_split_context:
  assumes "analyze_inspection env ins target re fc seed ct = Inr a" and "an_target a = Some t"
  shows "\<exists>sp. dict_get ''split_policy'' (an_contract a) = Some (VDict sp) \<and>
    (case find (\<lambda>c. c \<noteq> t \<and> word_hint time_words c) (all_columns (he_show env) ins) of
       None \<Rightarrow> dict_get ''context_column'' sp = Some (v_opt_str (context_column (all_columns (he_show env) ins) t))
     | Some c \<Rightarrow> dict_get ''strategy'' sp = Some (VStr ''temporal'') \<and> dict_get ''order_column'' sp = Some (VStr c)
         \<and> dict_get ''context_column'' sp = Some VNone)"
proof -
  let ?cs = "all_columns (he_show env) ins"
  obtain chunks records features where
    c: "an_contract a = contract_of env ins ?cs (an_target a) (an_task a) (an_sampled a) records features chunks"
    using assms(1) by (rule analysis_InrE)
  have sp: "dict_get ''split_policy'' (an_contract a) = Some (VDict (split_policy ?cs (an_task a) (Some t)))"
    unfolding c contract_fields(1) assms(2) ..
  have eq: "(\<lambda>x. Some x \<noteq> Some t \<and> P x) = (\<lambda>x. x \<noteq> t \<and> P x)" for P by auto
  have "(case find (\<lambda>c. c \<noteq> t \<and> word_hint time_words c) ?cs of
       None \<Rightarrow> dict_get ''context_column'' (split_policy ?cs (an_task a) (Some t)) = Some (v_opt_str (context_column ?cs t))
     | Some c \<Rightarrow> dict_get ''strategy'' (split_policy ?cs (an_task a) (Some t)) = Some (VStr ''temporal'')
         \<and> dict_get ''order_column'' (split_policy ?cs (an_task a) (Some t)) = Some (VStr c)
         \<and> dict_get ''context_column'' (split_policy ?cs (an_task a) (Some t)) = Some VNone)"
  proof (cases rule: split_policy_cases [of ?cs "an_task a" "Some t"])
    case (temporal c)
    then show ?thesis by (simp add: eq policy_fields v_opt_str_def)
  next
    case (grouped c)
    then show ?thesis by (simp add: eq policy_fields context_column_def)
  next
    case (neither strategy reason enforcement)
    then show ?thesis by (simp add: eq policy_fields context_column_def)
  qed
  then show ?thesis using sp by blast
qed

text \<open>The distribution an analysis reports holds exact counts of the sampled target values, of all of them when
  there are at most 64 classes, and never leaves out a more frequent class for a rarer one.\<close>

theorem distribution_is_top:
  assumes "(u, n) \<in> set (most_common max_classes (count_values ts))"
  shows "n = count_list ts u \<and> u \<in> set ts \<and> length (most_common max_classes (count_values ts)) \<le> 64
    \<and> (\<forall>w \<in> set ts. count_list ts u < count_list ts w \<longrightarrow> (w, count_list ts w) \<in> set (most_common max_classes (count_values ts)))"
proof -
  have "(u, n) \<in> set (count_values ts)" using assms by (auto simp: most_common_def dest: in_set_takeD)
  then have g: "dict_get u (count_values ts) = Some n" by (rule dict_in_get [OF count_values_ok])
  then have n: "n = count_list ts u" "u \<in> set ts" by (auto simp: count_values_get split: if_splits)
  have "(w, count_list ts w) \<in> set (most_common max_classes (count_values ts))" if w: "w \<in> set ts" "count_list ts u < count_list ts w" for w
  proof (rule ccontr)
    assume "(w, count_list ts w) \<notin> set (most_common max_classes (count_values ts))"
    moreover have "(w, count_list ts w) \<in> set (count_values ts)"
      by (rule dict_get_Some_in) (simp add: count_values_get w(1))
    ultimately have "count_list ts w \<le> n" using most_common_top [OF assms] by blast
    with w(2) n(1) show False by simp
  qed
  then show ?thesis using n by (auto simp: most_common_def max_classes_def)
qed

section \<open>Examples\<close>

definition demo_health :: health_env where
  "demo_health = \<lparr>he_parse = \<lambda>_. None, he_show = \<lambda>_. ''?'', he_json = \<lambda>_. ''j'', he_sign = \<lambda>_. ''s'', he_core = None\<rparr>"

definition demo_inspection :: inspection where
  "demo_inspection = \<lparr>in_columns = [VStr ''user_id'', VStr ''event_time'', VStr ''y''],
     in_preview = [VDict [(''user_id'', VStr ''u1''), (''event_time'', VStr ''1''), (''y'', VStr ''a'')]], in_suggested = Some ''y'',
     in_tasks = [], in_rows = 100, in_sampled = 1, in_shape = [], in_bytes = 2000, in_source = ''d.csv'', in_format = ''csv'', in_trainable = True\<rparr>"

lemma demo_columns: "all_columns (he_show demo_health) demo_inspection = [''user_id'', ''event_time'', ''y'']"
  by code_simp

lemma demo_analysis: "\<exists>a. analyze_inspection demo_health demo_inspection None None None 42 None = Inr a \<and> an_target a = Some ''y''"
proof -
  have "\<exists>a. analyze_inspection demo_health demo_inspection None None None 42 None = Inr a"
    by (rule analyze_total) (simp add: demo_health_def)
  then obtain a where a: "analyze_inspection demo_health demo_inspection None None None 42 None = Inr a" ..
  then have "an_target a = selected_column None demo_inspection (all_columns (he_show demo_health) demo_inspection)"
    by (rule analysis_InrE) simp
  then have "an_target a = Some ''y''" by (simp only: demo_columns) (simp add: selected_column_def demo_inspection_def)
  with a show ?thesis by blast
qed


theorem contract_context_is_split_context_witness:
  "\<exists>a sp. analyze_inspection demo_health demo_inspection None None None 42 None = Inr a
     \<and> dict_get ''split_policy'' (an_contract a) = Some (VDict sp) \<and> dict_get ''strategy'' sp = Some (VStr ''temporal'')
     \<and> context_column [''user_id'', ''event_time'', ''y''] ''y'' = Some ''user_id''"
proof -
  obtain a where a: "analyze_inspection demo_health demo_inspection None None None 42 None = Inr a" "an_target a = Some ''y''"
    using demo_analysis by blast
  have "find (\<lambda>c. c \<noteq> ''y'' \<and> word_hint time_words c) [''user_id'', ''event_time'', ''y''] = Some ''event_time''" by code_simp
  moreover have "context_column [''user_id'', ''event_time'', ''y''] ''y'' = Some ''user_id''" by code_simp
  ultimately show ?thesis using contract_context_is_split_context [OF a, unfolded demo_columns] a by auto
qed

theorem distribution_is_top_witness:
  "count_list [''a'', ''b'', ''a''] ''a'' = 2"
  using distribution_is_top [of "''a''" 2 "[''a'', ''b'', ''a'']"]
  by (simp add: most_common_def max_classes_def count_values_def dict_set_def)

end
