(* ===== verification/Datasets.thy ===== *)
theory Datasets imports Files begin

text \<open>
  \<open>DatasetManager\<close> of \<open>src/src/kernelyra/datasets.py\<close> and the registry of \<open>ingestion/registry.py\<close>: import by
  copying, attachment by reference, registration, lookup and removal. The state is the tree below
  \<open>.kernelyra\<close> and the tables of \<open>storage/sqlite.py\<close>. What an ingestor reads out of a file, digests,
  random tokens, the clock and the health report are parameters.
\<close>

section \<open>Ingestors\<close>

text \<open>\<open>import_file\<close> gives the metadata and the content of the \<open>.npz\<close> file the arrays are saved as.\<close>

record ingestor =
  ig_name :: string
  ig_version :: string
  ig_extensions :: "string list"
  ig_inspect :: "content \<Rightarrow> kerror + string option"
  ig_import :: "content \<Rightarrow> string option \<Rightarrow> kerror + pydict \<times> content"

definition for_path :: "ingestor list \<Rightarrow> string \<Rightarrow> ingestor option" where
  "for_path igs name = find (\<lambda>g. py_lower (path_suffix name) \<in> set (map py_lower (ig_extensions g))) igs"

record manager =
  dm_ingestors :: "ingestor list"
  dm_digest :: "content \<Rightarrow> string"
  dm_text_digest :: "string \<Rightarrow> string"
  dm_size :: "content \<Rightarrow> int"
  dm_health :: "content \<Rightarrow> string \<Rightarrow> int \<Rightarrow> int \<Rightarrow> kerror + pydict"
  dm_now :: rat
  dm_token :: string
  dm_array_token :: string
  dm_demo :: content

section \<open>Names\<close>

definition max_import_bytes :: int where
  "max_import_bytes = 512 * 1024 * 1024"

definition safe_char :: "char \<Rightarrow> bool" where
  "safe_char c \<longleftrightarrow> (let n = of_char c :: nat in
     65 \<le> n \<and> n \<le> 90 \<or> 97 \<le> n \<and> n \<le> 122 \<or> 48 \<le> n \<and> n \<le> 57 \<or> c = CHR ''_'' \<or> c = CHR ''.'' \<or> c = CHR ''-'')"

definition safe_name :: "string \<Rightarrow> string" where
  "safe_name original =
     (let s = map (\<lambda>c. if safe_char c then c else CHR ''_'') original in if s = [] then ''dataset'' else s)"

definition target_text :: "string option \<Rightarrow> string" where
  "target_text t = (case t of Some s \<Rightarrow> s | None \<Rightarrow> ''None'')"

definition import_id :: "manager \<Rightarrow> string \<Rightarrow> string option \<Rightarrow> string" where
  "import_id dm content_hash target =
     ''ds_'' @ take 12 content_hash @ ''_'' @ take 4 (dm_text_digest dm (target_text target))"

definition array_path :: "string \<Rightarrow> string list" where
  "array_path dataset_id = [''arrays'', dataset_id @ ''.npz'']"

definition managed_path :: "string list \<Rightarrow> string" where
  "managed_path p = (case p of [d, n] \<Rightarrow> d @ ''/'' @ n | _ \<Rightarrow> concat p)"

section \<open>Registration\<close>

definition meta_str :: "string \<Rightarrow> pydict \<Rightarrow> kerror + string" where
  "meta_str k m = (case dict_get k m of Some (VStr s) \<Rightarrow> Inr s | Some _ \<Rightarrow> Inl TypeError | None \<Rightarrow> Inl KeyError)"

definition meta_int :: "string \<Rightarrow> pydict \<Rightarrow> kerror + int" where
  "meta_int k m = (case dict_get k m of Some (VInt n) \<Rightarrow> Inr n | Some _ \<Rightarrow> Inl TypeError | None \<Rightarrow> Inl KeyError)"

definition meta_strs :: "string \<Rightarrow> pydict \<Rightarrow> string list" where
  "meta_strs k m = (case dict_get k m of
      Some (VList vs) \<Rightarrow> List.map_filter (\<lambda>v. case v of VStr s \<Rightarrow> Some s | _ \<Rightarrow> None) vs | _ \<Rightarrow> [])"

definition meta_val :: "string \<Rightarrow> pyval \<Rightarrow> pydict \<Rightarrow> pyval" where
  "meta_val k d m = (case dict_get k m of Some v \<Rightarrow> v | None \<Rightarrow> d)"

definition meta_dict :: "string \<Rightarrow> pydict \<Rightarrow> pydict" where
  "meta_dict k m = (case dict_get k m of Some (VDict d) \<Rightarrow> d | _ \<Rightarrow> [])"

definition manifest_dict ::
  "manager \<Rightarrow> ingestor \<Rightarrow> string \<Rightarrow> string \<Rightarrow> string \<Rightarrow> string \<Rightarrow> string \<Rightarrow> int \<Rightarrow> int \<Rightarrow> pydict \<Rightarrow> pydict" where
  "manifest_dict dm g dataset_id source source_kind fmt content_hash bytes records m =
     [(''dataset_id'', VStr dataset_id), (''source_name'', VStr (path_name source)), (''source_kind'', VStr source_kind),
      (''format'', VStr fmt), (''sha256'', VStr content_hash), (''size_bytes'', VInt bytes), (''row_count'', VInt records),
      (''schema'', VDict (meta_dict ''schema'' m)), (''task_compatibility'', meta_val ''task_types'' (VList []) m),
      (''transformations'', meta_val ''transformations'' (VList []) m), (''split_seed'', VInt 42),
      (''warnings'', meta_val ''warnings'' (VList []) m), (''created_at'', VFloat (Fin (dm_now dm))),
      (''ingestor_name'', VStr (ig_name g)), (''ingestor_version'', VStr (ig_version g))]"

text \<open>The dataset record \<open>_register\<close> makes once the ingestor has read the file.\<close>

definition registered_info ::
  "manager \<Rightarrow> ingestor \<Rightarrow> content \<Rightarrow> string list \<Rightarrow> string \<Rightarrow> string \<Rightarrow> string \<Rightarrow> string \<Rightarrow> pydict \<Rightarrow> kerror + dataset_info" where
  "registered_info dm g c p dataset_id source source_kind content_hash m0 =
     (let m = dict_setdefault ''format'' (VStr (ig_name g)) m0 in
      bind_result (meta_str ''format'' m) (\<lambda>fmt.
      bind_result (meta_int ''records'' m) (\<lambda>records.
      bind_result (meta_str ''target'' m) (\<lambda>target.
      bind_result (meta_int ''features'' m) (\<lambda>features.
      bind_result (dm_health dm c target records features) (\<lambda>health.
        Inr \<lparr>d_id = dataset_id, d_source = source, d_path = managed_path p, d_records = records, d_features = features,
             d_target = target, d_classes = meta_strs ''classes'' m, d_format = fmt,
             d_skipped = (case meta_int ''skipped'' m of Inr n \<Rightarrow> n | Inl _ \<Rightarrow> 0), d_sha256 = content_hash,
             d_size_bytes = dm_size dm c, d_task_types = meta_strs ''task_types'' m, d_schema = meta_dict ''schema'' m,
             d_manifest = manifest_dict dm g dataset_id source source_kind fmt content_hash (dm_size dm c) records m
               @ [(''data_contract'', meta_val ''contract'' VNone health),
                  (''data_health'', VDict [(''summary'', meta_val ''summary'' VNone health),
                     (''findings'', meta_val ''findings'' VNone health),
                     (''target_distribution'', meta_val ''target_distribution'' VNone health)])],
             d_warnings = unique (meta_strs ''warnings'' m @ meta_strs ''warnings'' health), d_reused = False,
             d_native_probe = [], d_created_at = dm_now dm\<rparr>))))))"

text \<open>The arrays are replaced before the record is made, so an exception after that leaves the new arrays.\<close>

definition register_dataset ::
  "manager \<Rightarrow> string list \<Rightarrow> string option \<Rightarrow> string \<Rightarrow> string \<Rightarrow> string \<Rightarrow> string \<Rightarrow> tree \<times> store
     \<Rightarrow> (kerror + dataset_info) \<times> tree \<times> store" where
  "register_dataset dm p target dataset_id source source_kind content_hash s =
     (case s of (t, st) \<Rightarrow>
        (case (for_path (dm_ingestors dm) (last p), dict_get p t) of
           (None, _) \<Rightarrow> (Inl DatasetError, t, st)
         | (_, None) \<Rightarrow> (Inl OSError, t, st)
         | (Some g, Some c) \<Rightarrow>
             (case ig_import g c target of
                Inl e \<Rightarrow> (Inl e, t, st)
              | Inr (m, arrays) \<Rightarrow>
                  let pending = [''arrays'', ''.'' @ dataset_id @ ''.'' @ dm_array_token dm @ ''.pending.npz''];
                      t1 = move_file pending (array_path dataset_id) (dict_set pending arrays t)
                  in (case registered_info dm g c p dataset_id source source_kind content_hash m of
                        Inl e \<Rightarrow> (Inl e, t1, st)
                      | Inr info \<Rightarrow> (Inr info, t1, save_dataset (dm_now dm) info st)))))"

section \<open>Import\<close>

text \<open>\<open>rq_content\<close> is the regular file found under the path, \<open>rq_copied\<close> what copying reads, and
  \<open>rq_cancelled\<close> the part that is copied when the user cancels.\<close>

record import_request =
  rq_symlink :: bool
  rq_content :: "content option"
  rq_name :: string
  rq_target :: "string option"
  rq_source_name :: "string option"
  rq_copied :: content
  rq_cancelled :: "content option"

definition or_name :: "string option \<Rightarrow> string \<Rightarrow> string" where
  "or_name x d = (case x of Some s \<Rightarrow> if s = [] then d else s | None \<Rightarrow> d)"

definition selected_target :: "string option \<Rightarrow> string option \<Rightarrow> string option" where
  "selected_target target suggested = (case target of Some s \<Rightarrow> if s = [] then suggested else target | None \<Rightarrow> suggested)"

definition existing_dataset :: "string \<Rightarrow> string option \<Rightarrow> store \<Rightarrow> dataset_info option" where
  "existing_dataset content_hash selected st =
     find (\<lambda>d. d_sha256 d = content_hash \<and> Some (d_target d) = selected) (list_datasets st)"

definition unlink_both :: "string list \<Rightarrow> string list \<Rightarrow> tree \<Rightarrow> tree" where
  "unlink_both pending copied t = dict_del copied (dict_del pending t)"

definition copy_and_register ::
  "manager \<Rightarrow> import_request \<Rightarrow> string \<Rightarrow> string option \<Rightarrow> tree \<times> store \<Rightarrow> (kerror + dataset_info) \<times> tree \<times> store" where
  "copy_and_register dm q content_hash selected s =
     (case s of (t, st) \<Rightarrow>
        let original_name = path_name (or_name (rq_source_name q) (rq_name q));
            safe = safe_name original_name;
            dataset_id = import_id dm content_hash selected;
            copied = [''datasets'', dataset_id @ ''_'' @ safe];
            pending = [''datasets'', ''.pending-'' @ dm_token dm @ ''-'' @ safe];
            failed = (\<lambda>e t st. (Inl e, unlink_both pending copied t, st))
        in if dict_get pending t \<noteq> None then failed OSError t st
           else case rq_cancelled q of
                  Some part \<Rightarrow> failed DatasetError (dict_set pending part t) st
                | None \<Rightarrow>
                    let t1 = dict_set pending (rq_copied q) t
                    in if dm_digest dm (rq_copied q) \<noteq> content_hash then failed DatasetError t1 st
                       else (case register_dataset dm copied selected dataset_id original_name ''file'' content_hash
                                 (move_file pending copied t1, st) of
                               (Inl e, t2, st2) \<Rightarrow> failed e t2 st2
                             | (Inr info, t2, st2) \<Rightarrow> (Inr info, t2, st2)))"

definition import_file ::
  "manager \<Rightarrow> import_request \<Rightarrow> tree \<times> store \<Rightarrow> (kerror + dataset_info) \<times> tree \<times> store" where
  "import_file dm q s =
     (if rq_symlink q then (Inl DatasetError, s)
      else case rq_content q of
        None \<Rightarrow> (Inl DatasetError, s)
      | Some c \<Rightarrow>
          if max_import_bytes < dm_size dm c then (Inl DatasetError, s)
          else case for_path (dm_ingestors dm) (rq_name q) of
            None \<Rightarrow> (Inl DatasetError, s)
          | Some g \<Rightarrow>
              (case ig_inspect g c of
                 Inl e \<Rightarrow> (Inl e, s)
               | Inr suggested \<Rightarrow>
                   let selected = selected_target (rq_target q) suggested; content_hash = dm_digest dm c
                   in case existing_dataset content_hash selected (snd s) of
                        Some d \<Rightarrow> (Inr d, s)
                      | None \<Rightarrow> copy_and_register dm q content_hash selected s))"

section \<open>Attachment\<close>

text \<open>What \<open>build_stream_spec\<close> says of the source that the record needs; \<open>at_spec\<close> is the specification itself.\<close>

record attached =
  at_fingerprint :: string
  at_target :: string
  at_format :: string
  at_bytes :: int
  at_records :: int
  at_features :: int
  at_classes :: "string list"
  at_task :: string
  at_schema :: pydict
  at_transformations :: pyval
  at_engine :: string
  at_spec :: pyval

definition attach_id :: "manager \<Rightarrow> attached \<Rightarrow> string" where
  "attach_id dm a = ''stream_'' @ take 12 (at_fingerprint a) @ ''_'' @ take 4 (dm_text_digest dm (at_target a))"

definition attached_manifest :: "manager \<Rightarrow> bool \<Rightarrow> string \<Rightarrow> attached \<Rightarrow> pydict" where
  "attached_manifest dm is_dir name a =
     [(''dataset_id'', VStr (attach_id dm a)), (''source_name'', VStr name),
      (''source_kind'', VStr (if is_dir then ''external_stream_folder'' else ''external_stream'')),
      (''format'', VStr (at_format a)), (''sha256'', VStr (at_fingerprint a)), (''size_bytes'', VInt (at_bytes a)),
      (''row_count'', VInt (at_records a)), (''schema'', VDict (at_schema a)),
      (''task_compatibility'', VList [VStr (at_task a)]), (''transformations'', at_transformations a),
      (''split_seed'', VInt 42), (''warnings'', VList [VStr ''External source files must remain available and unchanged'']),
      (''created_at'', VFloat (Fin (dm_now dm))), (''ingestor_name'', VStr (''stream-'' @ at_engine a)),
      (''ingestor_version'', VStr ''1'')]"

definition attach_path ::
  "manager \<Rightarrow> bool \<Rightarrow> string \<Rightarrow> string \<Rightarrow> kerror + attached \<Rightarrow> (attached \<Rightarrow> kerror + pydict) \<Rightarrow> store
     \<Rightarrow> (kerror + dataset_info) \<times> store" where
  "attach_path dm is_dir name source_path spec health st =
     (case spec of
        Inl e \<Rightarrow> (Inl e, st)
      | Inr a \<Rightarrow>
          (case get_dataset (attach_id dm a) st of
             Some d \<Rightarrow> (Inr d, st)
           | None \<Rightarrow>
               (case health a of
                  Inl e \<Rightarrow> (Inl e, st)
                | Inr h \<Rightarrow>
                    let info = \<lparr>d_id = attach_id dm a, d_source = name, d_path = source_path, d_records = at_records a,
                          d_features = at_features a, d_target = at_target a, d_classes = at_classes a,
                          d_format = at_format a, d_skipped = 0, d_sha256 = at_fingerprint a, d_size_bytes = at_bytes a,
                          d_task_types = [at_task a], d_schema = at_schema a,
                          d_manifest = attached_manifest dm is_dir name a
                            @ [(''streaming'', at_spec a), (''data_contract'', meta_val ''contract'' VNone h),
                               (''data_health'', VDict [(''summary'', meta_val ''summary'' VNone h),
                                  (''findings'', meta_val ''findings'' VNone h),
                                  (''target_distribution'', meta_val ''target_distribution'' VNone h)])],
                          d_warnings = unique (''External source files must remain available and unchanged''
                                                # meta_strs ''warnings'' h),
                          d_reused = False, d_native_probe = [], d_created_at = dm_now dm\<rparr>
                    in (Inr info, save_dataset (dm_now dm) info st))))"

section \<open>Lookup and removal\<close>

definition ensure_demo :: "manager \<Rightarrow> tree \<times> store \<Rightarrow> (kerror + unit) \<times> tree \<times> store" where
  "ensure_demo dm s =
     (case s of (t, st) \<Rightarrow>
        (case get_dataset ''demo'' st of
           Some _ \<Rightarrow> (Inr (), t, st)
         | None \<Rightarrow>
             let p = [''demo_dataset.csv''];
                 t1 = (if dict_get p t = None then dict_set p (dm_demo dm) t else t);
                 content_hash = (case dict_get p t1 of Some c \<Rightarrow> dm_digest dm c | None \<Rightarrow> [])
             in (case register_dataset dm p (Some ''target'') ''demo'' ''Built-in synthetic dataset'' ''generated'' content_hash (t1, st) of
                   (Inl e, s2) \<Rightarrow> (Inl e, s2) | (Inr _, s2) \<Rightarrow> (Inr (), s2))))"

definition manager_get :: "manager \<Rightarrow> string \<Rightarrow> tree \<times> store \<Rightarrow> (kerror + dataset_info) \<times> tree \<times> store" where
  "manager_get dm dataset_id s =
     (case get_dataset dataset_id (snd s) of
        Some d \<Rightarrow> (Inr d, s)
      | None \<Rightarrow>
          if dataset_id \<noteq> ''demo'' then (Inl DatasetNotFoundError, s)
          else (case ensure_demo dm s of
              (Inl e, s') \<Rightarrow> (Inl e, s')
            | (Inr _, s') \<Rightarrow>
                (case get_dataset dataset_id (snd s') of Some d \<Rightarrow> (Inr d, s') | None \<Rightarrow> (Inl DatasetNotFoundError, s'))))"

definition is_external :: "dataset_info \<Rightarrow> bool" where
  "is_external d \<longleftrightarrow> (case dict_get ''source_kind'' (d_manifest d) of
      Some (VStr k) \<Rightarrow> starts_with ''external_stream'' k | _ \<Rightarrow> False)"

text \<open>\<open>locate\<close> reads a stored path as one below the state directory, when it is one.\<close>

definition remove_dataset ::
  "manager \<Rightarrow> (string \<Rightarrow> string list option) \<Rightarrow> string \<Rightarrow> tree \<times> store \<Rightarrow> (kerror + unit) \<times> tree \<times> store" where
  "remove_dataset dm locate dataset_id s =
     (case manager_get dm dataset_id s of
        (Inl e, s1) \<Rightarrow> (Inl e, s1)
      | (Inr d, t, st) \<Rightarrow>
          if d_id d = ''demo'' then (Inl DatasetError, t, st)
          else let file = (case locate (d_path d) of Some [folder, n] \<Rightarrow> if folder = ''datasets'' then Some [folder, n] else None | _ \<Rightarrow> None)
               in if \<not> is_external d \<and> file = None then (Inl DatasetError, t, st)
                  else (case delete_dataset dataset_id st of
                      Inl e \<Rightarrow> (Inl e, t, st)
                    | Inr st1 \<Rightarrow>
                        let t1 = (case file of Some p \<Rightarrow> if is_external d then t else dict_del p t | None \<Rightarrow> t)
                        in (Inr (), dict_del (array_path dataset_id) t1, st1)))"

definition load_arrays ::
  "manager \<Rightarrow> (string \<Rightarrow> string list option) \<Rightarrow> (content \<Rightarrow> bool) \<Rightarrow> string \<Rightarrow> tree \<times> store \<Rightarrow> (kerror + content) \<times> tree \<times> store" where
  "load_arrays dm locate readable dataset_id s =
     (case manager_get dm dataset_id s of
        (Inl e, s1) \<Rightarrow> (Inl e, s1)
      | (Inr d, t, st) \<Rightarrow>
          if is_external d then (Inl DatasetError, t, st)
          else case dict_get (array_path dataset_id) t of
            Some arrays \<Rightarrow> (if readable arrays then Inr arrays else Inl DatasetError, t, st)
          | None \<Rightarrow>
              (case for_path (dm_ingestors dm) (path_name (d_path d)) of
                 None \<Rightarrow> (Inl DatasetError, t, st)
               | Some g \<Rightarrow>
                   (case (case locate (d_path d) of Some p \<Rightarrow> dict_get p t | None \<Rightarrow> None) of
                      None \<Rightarrow> (Inl OSError, t, st)
                    | Some c \<Rightarrow>
                        (case ig_import g c (Some (d_target d)) of
                           Inl e \<Rightarrow> (Inl e, t, st)
                         | Inr (m, arrays) \<Rightarrow>
                             let pending = [''arrays'', ''.'' @ dataset_id @ ''.'' @ dm_array_token dm @ ''.pending.npz'']
                             in (Inr arrays, move_file pending (array_path dataset_id) (dict_set pending arrays t), st)))))"

text \<open>The items of an old \<open>datasets.json\<close>; a file that is missing or unreadable is passed over.\<close>

record legacy_item =
  li_id :: "string option"
  li_file :: string
  li_target :: "string option"
  li_source :: "string option"

definition migrate_item :: "manager \<Rightarrow> legacy_item \<Rightarrow> (kerror option) \<times> tree \<times> store \<Rightarrow> (kerror option) \<times> tree \<times> store" where
  "migrate_item dm item s =
     (case s of
        (Some e, ts) \<Rightarrow> (Some e, ts)
      | (None, t, st) \<Rightarrow>
          if get_dataset (case li_id item of Some i \<Rightarrow> i | None \<Rightarrow> []) st \<noteq> None then (None, t, st)
          else case dict_get [''datasets'', li_file item] t of
            None \<Rightarrow> (None, t, st)
          | Some c \<Rightarrow>
              (case li_id item of
                 None \<Rightarrow> (None, t, st)
               | Some i \<Rightarrow>
                   (case register_dataset dm [''datasets'', li_file item] (li_target item) i
                        (or_name (li_source item) (li_file item)) ''legacy'' (dm_digest dm c) (t, st) of
                      (Inr _, t1, st1) \<Rightarrow> (None, t1, st1)
                    | (Inl e, t1, st1) \<Rightarrow>
                        if {''DatasetError'', ''KeyError'', ''OSError''} \<inter> set (mro e) \<noteq> {} then (None, t1, st1)
                        else (Some e, t1, st1))))"

definition migrate_legacy_index :: "manager \<Rightarrow> legacy_item list \<Rightarrow> tree \<times> store \<Rightarrow> kerror option \<times> tree \<times> store" where
  "migrate_legacy_index dm items s = fold (migrate_item dm) items (None, fst s, snd s)"

section \<open>What an import leaves behind\<close>

abbreviation (input) copy_of :: "manager \<Rightarrow> import_request \<Rightarrow> string \<Rightarrow> string option \<Rightarrow> string list" where
  "copy_of dm q h sel \<equiv> [''datasets'', import_id dm h sel @ ''_'' @ safe_name (path_name (or_name (rq_source_name q) (rq_name q)))]"

abbreviation (input) pending_of :: "manager \<Rightarrow> import_request \<Rightarrow> string list" where
  "pending_of dm q \<equiv> [''datasets'', ''.pending-'' @ dm_token dm @ ''-'' @ safe_name (path_name (or_name (rq_source_name q) (rq_name q)))]"

abbreviation (input) pending_arrays :: "manager \<Rightarrow> string \<Rightarrow> string list" where
  "pending_arrays dm i \<equiv> [''arrays'', ''.'' @ i @ ''.'' @ dm_array_token dm @ ''.pending.npz'']"

lemma import_id_hd: "\<exists>r. import_id dm h sel = CHR ''d'' # r"
  by (simp add: import_id_def)

lemma paths_differ: "copy_of dm q h sel \<noteq> pending_of dm q" "array_path i \<noteq> copy_of dm q h sel" "array_path i \<noteq> pending_of dm q"
    "pending_arrays dm i \<noteq> copy_of dm q h sel" "pending_arrays dm i \<noteq> pending_of dm q"
  using import_id_hd [of dm h sel] by (auto simp: array_path_def)

lemma same_at_move: "dict_ok t \<Longrightarrow> p \<notin> {a, b} \<Longrightarrow> dict_get p (move_file a b t) = dict_get p t"
  by (auto simp: move_file_def dict_get_set dict_get_del split: option.split)

lemma move_new: "dict_get p (move_file a b (dict_set a c t)) = (if p = b then Some c else if p = a then None else dict_get p t)"
  by (simp add: move_file_def dict_get_set dict_get_del)

text \<open>Registering changes the arrays of this id only, keeps the tables on an exception, and on success stores
  the record under the id with the digest it was given.\<close>

lemma register_dataset_effect:
  assumes "register_dataset dm p target i source kind h (t, st) = (r, t', st')" and "dict_ok t"
  shows "dict_ok t'" and "q \<notin> {pending_arrays dm i, array_path i} \<Longrightarrow> dict_get q t' = dict_get q t"
    and "r = Inl e \<Longrightarrow> st' = st"
    and "r = Inr d \<Longrightarrow> st' = save_dataset (dm_now dm) d st \<and> d_id d = i \<and> d_sha256 d = h \<and> d_path d = managed_path p
          \<and> dict_get (array_path i) t' \<noteq> None"
proof -
  have "dict_ok t' \<and> (q \<notin> {pending_arrays dm i, array_path i} \<longrightarrow> dict_get q t' = dict_get q t)
    \<and> (r = Inl e \<longrightarrow> st' = st)
    \<and> (r = Inr d \<longrightarrow> st' = save_dataset (dm_now dm) d st \<and> d_id d = i \<and> d_sha256 d = h \<and> d_path d = managed_path p
          \<and> dict_get (array_path i) t' \<noteq> None)"
    using assms
    by (auto simp: register_dataset_def move_new move_file_ok dict_ok_set registered_info_def bind_Inr_iff Let_def
        split: option.splits sum.splits prod.splits)
  then show "dict_ok t'" "q \<notin> {pending_arrays dm i, array_path i} \<Longrightarrow> dict_get q t' = dict_get q t" "r = Inl e \<Longrightarrow> st' = st"
    "r = Inr d \<Longrightarrow> st' = save_dataset (dm_now dm) d st \<and> d_id d = i \<and> d_sha256 d = h \<and> d_path d = managed_path p
          \<and> dict_get (array_path i) t' \<noteq> None" by blast+
qed

lemma unlink_get: "dict_get p (unlink_both a b t) = (if p \<in> {a, b} then None else dict_get p t)"
  by (simp add: unlink_both_def dict_get_del)

definition touched :: "manager \<Rightarrow> import_request \<Rightarrow> string \<Rightarrow> string option \<Rightarrow> string list set" where
  "touched dm q h sel = {copy_of dm q h sel, pending_of dm q, pending_arrays dm (import_id dm h sel), array_path (import_id dm h sel)}"

lemma copy_effect:
  assumes "copy_and_register dm q h sel (t, st) = (r, t', st')" and "dict_ok t"
  shows "p \<notin> touched dm q h sel \<Longrightarrow> dict_get p t' = dict_get p t"
    and "r = Inl e \<Longrightarrow> st' = st \<and> dict_get (copy_of dm q h sel) t' = None \<and> dict_get (pending_of dm q) t' = None"
    and "r = Inr d \<Longrightarrow> st' = save_dataset (dm_now dm) d st \<and> d_id d = import_id dm h sel \<and> d_sha256 d = h
      \<and> dm_digest dm (rq_copied q) = h \<and> d_path d = managed_path (copy_of dm q h sel)
      \<and> dict_get (copy_of dm q h sel) t' = Some (rq_copied q) \<and> dict_get (pending_of dm q) t' = None
      \<and> dict_get (array_path (import_id dm h sel)) t' \<noteq> None"
proof -
  let ?i = "import_id dm h sel" and ?c = "copy_of dm q h sel" and ?p = "pending_of dm q"
  let ?ok = "(p \<notin> touched dm q h sel \<longrightarrow> dict_get p t' = dict_get p t)
    \<and> (r = Inl e \<longrightarrow> st' = st \<and> dict_get ?c t' = None \<and> dict_get ?p t' = None)
    \<and> (r = Inr d \<longrightarrow> st' = save_dataset (dm_now dm) d st \<and> d_id d = ?i \<and> d_sha256 d = h
      \<and> dm_digest dm (rq_copied q) = h \<and> d_path d = managed_path ?c
      \<and> dict_get ?c t' = Some (rq_copied q) \<and> dict_get ?p t' = None \<and> dict_get (array_path ?i) t' \<noteq> None)"
  have failed: ?ok if "r = Inl e'" "t' = unlink_both ?p ?c u" "st' = st" "\<And>x. x \<notin> touched dm q h sel \<Longrightarrow> dict_get x u = dict_get x t" for u e'
    using that by (auto simp: unlink_get touched_def)
  have ?ok
  proof (cases "dict_get ?p t")
    case (Some x)
    with assms(1) have "r = Inl OSError" "t' = unlink_both ?p ?c t" "st' = st" by (auto simp: copy_and_register_def Let_def)
    then show ?thesis by (rule failed) simp
  next
    case fresh: None
    show ?thesis
    proof (cases "rq_cancelled q")
      case (Some part)
      with assms(1) fresh have "r = Inl DatasetError" "t' = unlink_both ?p ?c (dict_set ?p part t)" "st' = st"
        by (auto simp: copy_and_register_def Let_def)
      then show ?thesis by (rule failed) (auto simp: touched_def dict_get_set)
    next
      case None
      show ?thesis
      proof (cases "dm_digest dm (rq_copied q) = h")
        case False
        with assms(1) fresh None have "r = Inl DatasetError" "t' = unlink_both ?p ?c (dict_set ?p (rq_copied q) t)" "st' = st"
          by (auto simp: copy_and_register_def Let_def)
        then show ?thesis by (rule failed) (auto simp: touched_def dict_get_set)
      next
        case True
        let ?t = "move_file ?p ?c (dict_set ?p (rq_copied q) t)"
        obtain r2 t2 st2 where reg: "register_dataset dm ?c sel ?i (path_name (or_name (rq_source_name q) (rq_name q))) ''file'' h (?t, st)
            = (r2, t2, st2)" by (cases rule: prod_cases3)
        have ok: "dict_ok ?t" using assms(2) by (intro move_file_ok dict_ok_set)
        note eff = register_dataset_effect [OF reg ok]
        have start: "dict_get x ?t = (if x = ?c then Some (rq_copied q) else if x = ?p then None else dict_get x t)" for x
          by (rule move_new)
        have rest: "dict_get x t2 = dict_get x t" if "x \<notin> touched dm q h sel" for x
          using that eff(2) [of x, unfolded start] by (auto simp: touched_def)
        show ?thesis
        proof (cases r2)
          case (Inl e')
          with assms(1) fresh None True reg have "r = Inl e'" "t' = unlink_both ?p ?c t2" "st' = st2"
            by (auto simp: copy_and_register_def Let_def)
          moreover have "st2 = st" using eff(3) Inl by blast
          ultimately show ?thesis by (intro failed [of e' t2] rest) simp_all
        next
          case (Inr d')
          with assms(1) fresh None True reg have res: "r = Inr d'" "t' = t2" "st' = st2"
            by (auto simp: copy_and_register_def Let_def)
          have "dict_get ?c t2 = Some (rq_copied q)" "dict_get ?p t2 = None"
            using eff(2) [of ?c, unfolded start] eff(2) [of ?p, unfolded start] paths_differ(1) [where dm = dm and q = q and h = h and sel = sel]
                paths_differ(2,4) [where dm = dm and q = q and h = h and sel = sel and i = ?i]
                paths_differ(3,5) [where dm = dm and q = q and i = ?i] by auto
          then show ?thesis using rest [of p] eff(4) [OF Inr] True by (auto simp: res)
        qed
      qed
    qed
  qed
  then show "p \<notin> touched dm q h sel \<Longrightarrow> dict_get p t' = dict_get p t"
    "r = Inl e \<Longrightarrow> st' = st \<and> dict_get ?c t' = None \<and> dict_get ?p t' = None"
    "r = Inr d \<Longrightarrow> st' = save_dataset (dm_now dm) d st \<and> d_id d = ?i \<and> d_sha256 d = h
      \<and> dm_digest dm (rq_copied q) = h \<and> d_path d = managed_path ?c
      \<and> dict_get ?c t' = Some (rq_copied q) \<and> dict_get ?p t' = None \<and> dict_get (array_path ?i) t' \<noteq> None" by blast+
qed

text \<open>An import that gets as far as looking for the content among the known data sets.\<close>

definition reaches :: "manager \<Rightarrow> import_request \<Rightarrow> content \<Rightarrow> string option \<Rightarrow> bool" where
  "reaches dm q c sel \<longleftrightarrow> \<not> rq_symlink q \<and> rq_content q = Some c \<and> dm_size dm c \<le> max_import_bytes
     \<and> (\<exists>g suggested. for_path (dm_ingestors dm) (rq_name q) = Some g \<and> ig_inspect g c = Inr suggested
          \<and> sel = selected_target (rq_target q) suggested)"

lemma import_reaches:
  assumes "reaches dm q c sel"
  shows "import_file dm q s = (case existing_dataset (dm_digest dm c) sel (snd s) of
      Some d \<Rightarrow> (Inr d, s) | None \<Rightarrow> copy_and_register dm q (dm_digest dm c) sel s)"
  using assms by (auto simp: reaches_def import_file_def Let_def)

lemma import_early:
  assumes "\<forall>c sel. \<not> reaches dm q c sel"
  shows "\<exists>e. import_file dm q s = (Inl e, s)"
  using assms by (auto simp: reaches_def import_file_def Let_def split: option.split sum.split)

lemma get_save: "get_dataset i (save_dataset now d st) = (if i = d_id d then Some d else get_dataset i st)"
  by (simp add: get_dataset_def save_dataset_def dict_get_set)

lemma existing_ok: "existing_dataset h sel st = Some d \<Longrightarrow> d_sha256 d = h \<and> Some (d_target d) = sel \<and> d \<in> set (list_datasets st)"
  unfolding existing_dataset_def by (auto simp: find_Some_iff)

text \<open>C21: A successful import is whole and changes nothing else: the record it returns names the digest of
  the bytes it was asked for; it is either an existing one, and then nothing changes, or the stored one,
  and then exactly those bytes lie under its path, its arrays are there, no pending copy is left and all
  other files and records are as before.\<close>

theorem import_success_whole:
  assumes "import_file dm q (t, st) = (Inr d, t', st')" and "dict_ok t"
  shows "\<exists>c sel. rq_content q = Some c \<and> d_sha256 d = dm_digest dm c
    \<and> ((t' = t \<and> st' = st \<and> d \<in> set (list_datasets st) \<and> Some (d_target d) = sel)
       \<or> (\<exists>n. d_path d = managed_path [''datasets'', n] \<and> dict_get [''datasets'', n] t' = Some (rq_copied q)
            \<and> dm_digest dm (rq_copied q) = dm_digest dm c
            \<and> dict_get (array_path (d_id d)) t' \<noteq> None \<and> dict_get (pending_of dm q) t' = None
            \<and> (\<forall>i. get_dataset i st' = (if i = d_id d then Some d else get_dataset i st))
            \<and> (\<forall>p. p \<notin> touched dm q (dm_digest dm c) sel \<longrightarrow> dict_get p t' = dict_get p t)))"
proof -
  obtain c sel where r: "reaches dm q c sel" using import_early [of dm q "(t, st)"] assms(1) by auto
  then have c: "rq_content q = Some c" by (simp add: reaches_def)
  show ?thesis
  proof (cases "existing_dataset (dm_digest dm c) sel st")
    case (Some x)
    with assms(1) import_reaches [OF r, of "(t, st)"] have "d = x" "t' = t" "st' = st" by auto
    with existing_ok [OF Some] c show ?thesis by (intro exI [of _ c] exI [of _ sel]) simp
  next
    case None
    with assms(1) import_reaches [OF r, of "(t, st)"] have cp: "copy_and_register dm q (dm_digest dm c) sel (t, st) = (Inr d, t', st')"
      by simp
    note e = copy_effect [OF cp assms(2)]
    from e(3) [OF refl] e(1) c show ?thesis
      by (intro exI [of _ c] exI [of _ sel]) (simp add: get_save, blast)
  qed
qed

text \<open>A failed import leaves no half a data set: the tables are untouched, and either no file has changed
  at all or neither the pending copy nor the copy exists, every file being as before except those two
  and the arrays of this id.\<close>

theorem import_failure_clean:
  assumes "import_file dm q (t, st) = (Inl e, t', st')" and "dict_ok t"
  shows "st' = st \<and> (t' = t \<or> (\<exists>h sel. dict_get (copy_of dm q h sel) t' = None \<and> dict_get (pending_of dm q) t' = None
    \<and> (\<forall>p. p \<notin> touched dm q h sel \<longrightarrow> dict_get p t' = dict_get p t)))"
proof (cases "\<exists>c sel. reaches dm q c sel")
  case False
  with import_early [of dm q "(t, st)"] assms(1) show ?thesis by auto
next
  case True
  then obtain c sel where r: "reaches dm q c sel" by blast
  show ?thesis
  proof (cases "existing_dataset (dm_digest dm c) sel st")
    case Some
    with assms(1) import_reaches [OF r, of "(t, st)"] show ?thesis by auto
  next
    case None
    with assms(1) import_reaches [OF r, of "(t, st)"] have cp: "copy_and_register dm q (dm_digest dm c) sel (t, st) = (Inl e, t', st')"
      by simp
    note eff = copy_effect [OF cp assms(2)]
    from eff(2) [OF refl] eff(1) show ?thesis by blast
  qed
qed

lemma existing_saved:
  assumes "dict_ok (st_datasets st)" and "d_sha256 d = h" and "Some (d_target d) = sel"
  shows "existing_dataset h sel (save_dataset now d st) \<noteq> None"
proof -
  have "d \<in> set (list_datasets (save_dataset now d st))"
  proof -
    have "(d_id d, d, now) \<in> set (dict_set (d_id d) (d, now) (st_datasets st))" by (rule dict_get_Some_in) simp
    then show ?thesis by (force simp: list_datasets_def save_dataset_def)
  qed
  with assms(2,3) show ?thesis by (auto simp: existing_dataset_def find_None_iff)
qed

text \<open>Importing the same file for the same target once more finds the data set and changes nothing,
  provided the ingestor recorded the target it was asked for.\<close>

theorem import_twice_is_once:
  assumes "import_file dm q (t, st) = (Inr d, t', st')" and "dict_ok t" and "dict_ok (st_datasets st)"
    and "reaches dm q c sel" and "Some (d_target d) = sel" and "reaches dm' q c sel" and "dm_digest dm' c = dm_digest dm c"
  shows "\<exists>d'. import_file dm' q (t', st') = (Inr d', t', st') \<and> d_sha256 d' = d_sha256 d \<and> d_target d' = d_target d"
proof -
  let ?h = "dm_digest dm c"
  have "\<exists>x. existing_dataset ?h sel st' = Some x"
  proof (cases "existing_dataset ?h sel st")
    case (Some x)
    with assms(1) import_reaches [OF assms(4), of "(t, st)"] show ?thesis by auto
  next
    case None
    with assms(1) import_reaches [OF assms(4), of "(t, st)"] have cp: "copy_and_register dm q ?h sel (t, st) = (Inr d, t', st')" by simp
    from copy_effect(3) [OF cp assms(2) refl] existing_saved [OF assms(3) _ assms(5)] show ?thesis by auto
  qed
  then obtain x where x: "existing_dataset ?h sel st' = Some x" by blast
  have "d_sha256 d = ?h"
  proof (cases "existing_dataset ?h sel st")
    case (Some y)
    with assms(1) import_reaches [OF assms(4), of "(t, st)"] existing_ok [OF Some] show ?thesis by auto
  next
    case None
    with assms(1) import_reaches [OF assms(4), of "(t, st)"] have cp: "copy_and_register dm q ?h sel (t, st) = (Inr d, t', st')" by simp
    from copy_effect(3) [OF cp assms(2) refl] show ?thesis by simp
  qed
  with x existing_ok [OF x] import_reaches [OF assms(6), of "(t', st')"] assms(5,7) show ?thesis by auto
qed

text \<open>When the ingestor records another target than it was asked for, as the one for \<open>.npz\<close> files does for
  \<open>y\<close>, a second import of a registered file copies it again over the first, and cancelling that copy
  deletes the registered file: the record stays, its file is gone.\<close>

theorem cancelled_reimport_loses_file:
  assumes "import_file dm q (t, st) = (Inr d, t1, st1)" and "dict_ok t" and "reaches dm q c sel"
    and "existing_dataset (dm_digest dm c) sel st1 = None"
    and "reaches dm' q' c sel" and "rq_source_name q' = rq_source_name q" and "rq_name q' = rq_name q"
    and "dm_digest dm' = dm_digest dm" and "dm_text_digest dm' = dm_text_digest dm" and "rq_cancelled q' = Some part"
  shows "\<exists>t2 n. import_file dm' q' (t1, st1) = (Inl (if dict_get (pending_of dm' q') t1 = None then DatasetError else OSError), t2, st1)
    \<and> get_dataset (d_id d) st1 = Some d \<and> d_path d = managed_path [''datasets'', n]
    \<and> dict_get [''datasets'', n] t1 = Some (rq_copied q) \<and> dict_get [''datasets'', n] t2 = None"
proof -
  let ?h = "dm_digest dm c"
  have new: "existing_dataset ?h sel st = None"
  proof (rule ccontr)
    assume "existing_dataset ?h sel st \<noteq> None"
    with assms(1) import_reaches [OF assms(3), of "(t, st)"] have "st1 = st" by auto
    with \<open>existing_dataset ?h sel st \<noteq> None\<close> assms(4) show False by simp
  qed
  with assms(1) import_reaches [OF assms(3), of "(t, st)"] have cp: "copy_and_register dm q ?h sel (t, st) = (Inr d, t1, st1)" by simp
  note e = copy_effect(3) [OF cp assms(2) refl]
  have "import_id dm' ?h sel = import_id dm ?h sel" by (simp add: import_id_def assms(9))
  then have same: "copy_of dm' q' ?h sel = copy_of dm q ?h sel" by (simp add: assms(6,7))
  let ?t2 = "unlink_both (pending_of dm' q') (copy_of dm' q' ?h sel)
      (if dict_get (pending_of dm' q') t1 = None then dict_set (pending_of dm' q') part t1 else t1)"
  have "import_file dm' q' (t1, st1) = (Inl (if dict_get (pending_of dm' q') t1 = None then DatasetError else OSError), ?t2, st1)"
    using import_reaches [OF assms(5), of "(t1, st1)"] assms(4,8,10)
    by (simp add: copy_and_register_def Let_def)
  moreover have "dict_get (copy_of dm q ?h sel) ?t2 = None"
    by (simp only: same [symmetric] unlink_get) simp
  moreover have "get_dataset (d_id d) st1 = Some d" using e by (simp add: get_save)
  ultimately show ?thesis using e by blast
qed

text \<open>Removal deletes the record, the managed file and the arrays of one data set and nothing else; the
  source of an attached data set is never deleted, and the built-in one is never removed.\<close>

theorem remove_dataset_exact:
  assumes "remove_dataset dm locate i (t, st) = (Inr (), t', st')" and "get_dataset i st = Some d"
  shows "d_id d \<noteq> ''demo'' \<and> (\<forall>j. get_dataset j st' = (if j = i then None else get_dataset j st))
    \<and> (\<forall>p. dict_get p t' = (if p = array_path i \<or> \<not> is_external d \<and> locate (d_path d) = Some p then None else dict_get p t))
    \<and> (\<not> is_external d \<longrightarrow> (\<exists>n. locate (d_path d) = Some [''datasets'', n]))"
proof -
  have "manager_get dm i (t, st) = (Inr d, t, st)" using assms(2) by (simp add: manager_get_def)
  then have r: "d_id d \<noteq> ''demo''"
      "remove_dataset dm locate i (t, st) = (let file = (case locate (d_path d) of Some [folder, n] \<Rightarrow> if folder = ''datasets'' then Some [folder, n] else None | _ \<Rightarrow> None)
         in if \<not> is_external d \<and> file = None then (Inl DatasetError, t, st)
            else (case delete_dataset i st of Inl e \<Rightarrow> (Inl e, t, st)
              | Inr st1 \<Rightarrow> let t1 = (case file of Some p \<Rightarrow> if is_external d then t else dict_del p t | None \<Rightarrow> t)
                  in (Inr (), dict_del (array_path i) t1, st1)))"
    using assms(1) by (auto simp: remove_dataset_def split: if_splits)
  obtain managed where managed: "managed = (case locate (d_path d) of Some [folder, n] \<Rightarrow> if folder = ''datasets'' then Some [folder, n] else None | _ \<Rightarrow> None)" by simp
  have found: "managed = Some p \<Longrightarrow> locate (d_path d) = Some p \<and> (\<exists>n. p = [''datasets'', n])" for p
    unfolding managed by (auto split: option.splits list.splits if_splits)
  have del: "delete_dataset i st = Inr (st\<lparr>st_datasets := dict_del i (st_datasets st)\<rparr>)"
    using assms(2) by (auto simp: delete_dataset_def get_dataset_def split: option.split)
  have "\<not> (\<not> is_external d \<and> managed = None)" and
    res: "t' = dict_del (array_path i) (case managed of Some p \<Rightarrow> if is_external d then t else dict_del p t | None \<Rightarrow> t)"
      "st' = st\<lparr>st_datasets := dict_del i (st_datasets st)\<rparr>"
    using assms(1) unfolding r(2) managed [symmetric] Let_def del by (auto split: if_splits)
  with r(1) found show ?thesis
    by (cases managed) (auto simp: get_dataset_def dict_get_del)
qed

section \<open>A file imported\<close>

definition demo_ingestor :: ingestor where
  "demo_ingestor = \<lparr>ig_name = ''npz'', ig_version = ''1.0'', ig_extensions = [''.npz''], ig_inspect = (\<lambda>_. Inr (Some ''target'')),
     ig_import = (\<lambda>_ _. Inr ([(''records'', VInt 40), (''features'', VInt 1), (''target'', VStr ''target'')], Binary ''a''))\<rparr>"

definition demo_manager :: "string \<Rightarrow> manager" where
  "demo_manager token = \<lparr>dm_ingestors = [demo_ingestor], dm_digest = (\<lambda>_. ''abcdef123456''), dm_text_digest = id,
     dm_size = (\<lambda>_. 1), dm_health = (\<lambda>_ _ _ _. Inr []), dm_now = 5, dm_token = token, dm_array_token = token, dm_demo = Binary []\<rparr>"

definition demo_upload :: "string option \<Rightarrow> import_request" where
  "demo_upload target = \<lparr>rq_symlink = False, rq_content = Some (Binary ''b''), rq_name = ''x.npz'', rq_target = target,
     rq_source_name = None, rq_copied = Binary ''b'', rq_cancelled = None\<rparr>"

lemma npz_name: "path_suffix (i @ ''_'' @ ''x.npz'') = ''.npz''"
  using path_suffix_append [of "i @ ''_x''" "''npz''"] by simp

lemma demo_for_path: "for_path (dm_ingestors (demo_manager k)) (i @ ''_'' @ ''x.npz'') = Some demo_ingestor"
    "for_path (dm_ingestors (demo_manager k)) ''x.npz'' = Some demo_ingestor"
  using npz_name [of i] path_suffix_append [of "''x''" "''npz''"]
  by (simp_all add: for_path_def demo_manager_def demo_ingestor_def)

lemma demo_reaches: "reaches (demo_manager k) (demo_upload target\<lparr>rq_cancelled := x\<rparr>) (Binary ''b'')
    (selected_target target (Some ''target''))"
  using demo_for_path(2) [of k]
  by (simp add: reaches_def demo_upload_def demo_manager_def max_import_bytes_def) (simp add: demo_ingestor_def)

lemma demo_safe: "safe_name (path_name (or_name (rq_source_name (demo_upload target)) (rq_name (demo_upload target)))) = ''x.npz''"
  by (simp add: demo_upload_def or_name_def path_name_def posix_parts_def safe_name_def safe_char_def)

lemma register_dataset_ok:
  assumes "for_path (dm_ingestors dm) (last p) = Some g" and "dict_get p t = Some c" and "ig_import g c target = Inr (m, arrays)"
    and "registered_info dm g c p i source kind h m = Inr info"
  shows "\<exists>t1. register_dataset dm p target i source kind h (t, st) = (Inr info, t1, save_dataset (dm_now dm) info st)"
  using assms by (simp add: register_dataset_def Let_def)

lemma copy_ok:
  assumes "dict_get (pending_of dm q) t = None" and "rq_cancelled q = None" and "dm_digest dm (rq_copied q) = h"
    and "for_path (dm_ingestors dm) (last (copy_of dm q h sel)) = Some g" and "ig_import g (rq_copied q) sel = Inr (m, arrays)"
    and "registered_info dm g (rq_copied q) (copy_of dm q h sel) (import_id dm h sel) (path_name (or_name (rq_source_name q) (rq_name q)))
      ''file'' h m = Inr info"
  shows "\<exists>t1. copy_and_register dm q h sel (t, st) = (Inr info, t1, save_dataset (dm_now dm) info st)"
proof -
  have "dict_get (copy_of dm q h sel) (move_file (pending_of dm q) (copy_of dm q h sel) (dict_set (pending_of dm q) (rq_copied q) t))
      = Some (rq_copied q)" unfolding move_new by simp
  from register_dataset_ok [OF assms(4) this assms(5,6)] obtain t1 where
    "register_dataset dm (copy_of dm q h sel) sel (import_id dm h sel) (path_name (or_name (rq_source_name q) (rq_name q))) ''file'' h
      (move_file (pending_of dm q) (copy_of dm q h sel) (dict_set (pending_of dm q) (rq_copied q) t), st)
      = (Inr info, t1, save_dataset (dm_now dm) info st)" by blast
  with assms(1-3) show ?thesis by (auto simp: copy_and_register_def Let_def)
qed

lemma demo_info:
  "\<exists>info. registered_info (demo_manager k) demo_ingestor c p i source kind h
      [(''records'', VInt 40), (''features'', VInt 1), (''target'', VStr ''target'')] = Inr info \<and> d_target info = ''target'' \<and> d_id info = i
    \<and> (is_external info \<longleftrightarrow> starts_with ''external_stream'' kind)"
  by (simp add: registered_info_def meta_str_def meta_int_def dict_setdefault_def dict_set_def demo_manager_def Let_def
      is_external_def manifest_dict_def)

lemma demo_imports:
  assumes "sel = selected_target target (Some ''target'')"
  shows "\<exists>d t st. import_file (demo_manager k) (demo_upload target) ([], empty_store) = (Inr d, t, st) \<and> d_target d = ''target''
    \<and> st = save_dataset 5 d empty_store \<and> \<not> is_external d \<and> d_id d \<noteq> ''demo''"
proof -
  let ?dm = "demo_manager k" and ?q = "demo_upload target" and ?h = "dm_digest (demo_manager k) (Binary ''b'')"
  obtain info where info: "registered_info ?dm demo_ingestor (rq_copied ?q) (copy_of ?dm ?q ?h sel) (import_id ?dm ?h sel)
      (path_name (or_name (rq_source_name ?q) (rq_name ?q))) ''file'' ?h
      [(''records'', VInt 40), (''features'', VInt 1), (''target'', VStr ''target'')] = Inr info" "d_target info = ''target''"
      "d_id info = import_id ?dm ?h sel" "is_external info \<longleftrightarrow> starts_with ''external_stream'' ''file''"
    using demo_info by blast
  then have more: "\<not> is_external info \<and> d_id info \<noteq> ''demo''" by (simp add: starts_with_def import_id_def)
  have l: "last [a, b] = b" for a b :: string by simp
  have "for_path (dm_ingestors ?dm) (last (copy_of ?dm ?q ?h sel)) = Some demo_ingestor"
    unfolding demo_safe l by (rule demo_for_path(1))
  from copy_ok [OF _ _ _ this _ info(1), of "[]" "Binary ''a''" empty_store]
  obtain t1 where "copy_and_register ?dm ?q ?h sel ([], empty_store) = (Inr info, t1, save_dataset (dm_now ?dm) info empty_store)"
    by (auto simp: demo_upload_def demo_ingestor_def)
  moreover have "existing_dataset ?h sel empty_store = None"
    by (simp add: existing_dataset_def empty_store_def list_datasets_def)
  moreover have "?q\<lparr>rq_cancelled := None\<rparr> = ?q" by (simp add: demo_upload_def)
  ultimately have "import_file ?dm ?q ([], empty_store) = (Inr info, t1, save_dataset 5 info empty_store)"
    using import_reaches [OF demo_reaches [of k None target], of "([], empty_store)"] assms by (simp add: demo_manager_def)
  with info(2) more show ?thesis by blast
qed

theorem import_success_whole_witness:
  "\<exists>d t st n. import_file (demo_manager ''k'') (demo_upload (Some ''y'')) ([], empty_store) = (Inr d, t, st)
    \<and> dict_get [''datasets'', n] t = Some (Binary ''b'')"
proof -
  obtain d t st where i: "import_file (demo_manager ''k'') (demo_upload (Some ''y'')) ([], empty_store) = (Inr d, t, st)"
    using demo_imports [OF refl] by blast
  have "dict_ok ([] :: tree)" by (simp add: dict_ok_def)
  from import_success_whole [OF i this] obtain n where "dict_get [''datasets'', n] t = Some (rq_copied (demo_upload (Some ''y'')))"
    by (auto simp: list_datasets_def empty_store_def)
  with i show ?thesis by (auto simp: demo_upload_def)
qed

theorem import_failure_clean_witness:
  "import_file (demo_manager ''k'') (demo_upload None\<lparr>rq_content := None\<rparr>) ([], empty_store) = (Inl DatasetError, [], empty_store)
   \<and> snd (snd (import_file (demo_manager ''k'') (demo_upload None\<lparr>rq_content := None\<rparr>) ([], empty_store))) = empty_store"
proof -
  have i: "import_file (demo_manager ''k'') (demo_upload None\<lparr>rq_content := None\<rparr>) ([], empty_store) = (Inl DatasetError, [], empty_store)"
    by (simp add: import_file_def demo_upload_def)
  have "dict_ok ([] :: tree)" by (simp add: dict_ok_def)
  from import_failure_clean [OF i this] i show ?thesis by simp
qed

lemma demo_store_ok: "dict_ok (st_datasets empty_store)"
  by (simp add: empty_store_def dict_ok_def)

theorem import_twice_is_once_witness:
  "\<exists>d t st d'. import_file (demo_manager ''k'') (demo_upload None) ([], empty_store) = (Inr d, t, st)
    \<and> import_file (demo_manager ''l'') (demo_upload None) (t, st) = (Inr d', t, st)"
proof -
  obtain d t st where i: "import_file (demo_manager ''k'') (demo_upload None) ([], empty_store) = (Inr d, t, st)" "d_target d = ''target''"
    using demo_imports [OF refl] by blast
  have ok: "dict_ok ([] :: tree)" by (simp add: dict_ok_def)
  have r: "reaches (demo_manager k) (demo_upload None) (Binary ''b'') (Some ''target'')" for k
    using demo_reaches [of k None None] by (simp add: demo_upload_def selected_target_def)
  have "dm_digest (demo_manager ''l'') (Binary ''b'') = dm_digest (demo_manager ''k'') (Binary ''b'')" by (simp add: demo_manager_def)
  from import_twice_is_once [OF i(1) ok demo_store_ok r _ r this] i show ?thesis by auto
qed

theorem cancelled_reimport_loses_file_witness:
  "\<exists>d t st t2 n e. import_file (demo_manager ''k'') (demo_upload (Some ''y'')) ([], empty_store) = (Inr d, t, st)
    \<and> import_file (demo_manager ''l'') (demo_upload (Some ''y'')\<lparr>rq_cancelled := Some (Binary [])\<rparr>) (t, st) = (Inl e, t2, st)
    \<and> get_dataset (d_id d) st = Some d \<and> d_path d = managed_path [''datasets'', n] \<and> dict_get [''datasets'', n] t2 = None"
proof -
  obtain d t st where i: "import_file (demo_manager ''k'') (demo_upload (Some ''y'')) ([], empty_store) = (Inr d, t, st)"
      "d_target d = ''target''" "st = save_dataset 5 d empty_store" using demo_imports [OF refl] by blast
  have ok: "dict_ok ([] :: tree)" by (simp add: dict_ok_def)
  have r: "reaches (demo_manager k) (demo_upload (Some ''y'')) (Binary ''b'') (Some ''y'')"
      "reaches (demo_manager k) (demo_upload (Some ''y'')\<lparr>rq_cancelled := Some (Binary [])\<rparr>) (Binary ''b'') (Some ''y'')" for k
    using demo_reaches [of k None "Some ''y''"] demo_reaches [of k "Some (Binary [])" "Some ''y''"]
    by (simp_all add: demo_upload_def selected_target_def)
  have "existing_dataset (dm_digest (demo_manager ''k'') (Binary ''b'')) (Some ''y'') st = None"
    using i(2) by (simp add: i(3) existing_dataset_def list_datasets_def save_dataset_def empty_store_def dict_set_def)
  from cancelled_reimport_loses_file [OF i(1) ok r(1) this r(2) [of "''l''"]] i(1) show ?thesis
    by (auto simp: demo_upload_def demo_manager_def)
qed

theorem remove_dataset_exact_witness:
  "\<exists>d t st t2 st2. import_file (demo_manager ''k'') (demo_upload None) ([], empty_store) = (Inr d, t, st)
    \<and> remove_dataset (demo_manager ''k'') (\<lambda>_. Some [''datasets'', ''x'']) (d_id d) (t, st) = (Inr (), t2, st2)
    \<and> get_dataset (d_id d) st2 = None \<and> dict_get [''datasets'', ''x''] t2 = None"
proof -
  obtain d t st where i: "import_file (demo_manager ''k'') (demo_upload None) ([], empty_store) = (Inr d, t, st)"
      "st = save_dataset 5 d empty_store" "\<not> is_external d" "d_id d \<noteq> ''demo''" using demo_imports [OF refl] by blast
  have g: "get_dataset (d_id d) st = Some d" by (simp add: i(2) get_save)
  then have "\<exists>t2 st2. remove_dataset (demo_manager ''k'') (\<lambda>_. Some [''datasets'', ''x'']) (d_id d) (t, st) = (Inr (), t2, st2)"
    using i(3,4) by (auto simp: remove_dataset_def manager_get_def delete_dataset_def get_dataset_def Let_def split: option.split)
  then obtain t2 st2 where r: "remove_dataset (demo_manager ''k'') (\<lambda>_. Some [''datasets'', ''x'']) (d_id d) (t, st) = (Inr (), t2, st2)" by blast
  from remove_dataset_exact [OF r g] i(3) have "get_dataset (d_id d) st2 = None" "dict_get [''datasets'', ''x''] t2 = None" by metis+
  with i(1) r show ?thesis by blast
qed

end
