(* ===== verification/Auto.thy ===== *)
theory Auto imports Create DataHealth Datasets begin

text \<open>
  \<open>AutoTrainer\<close> of \<open>src/src/kernelyra/auto.py\<close>: where a setting comes from, the training plan for a data set,
  the run that is created from it and how a training call ends. Text is ASCII. \<open>float\<close> and \<open>str\<close>, the
  inspection of the source, the capabilities of the machine and the parsed configuration file are parameters.
\<close>

section \<open>Settings\<close>

definition env_keys :: "(string, string) dict" where
  "env_keys =
     [(''target'', ''KERNELYRA_TARGET''), (''task'', ''KERNELYRA_TASK''), (''backend'', ''KERNELYRA_BACKEND''),
      (''architecture'', ''KERNELYRA_ARCHITECTURE''), (''model_format'', ''KERNELYRA_MODEL_FORMAT''),
      (''profile'', ''KERNELYRA_PROFILE''), (''execution'', ''KERNELYRA_EXECUTION''),
      (''algorithm_pack'', ''KERNELYRA_ALGORITHM_PACK''), (''batch_size'', ''KERNELYRA_BATCH_SIZE''),
      (''max_steps'', ''KERNELYRA_MAX_STEPS''), (''target_metric'', ''KERNELYRA_TARGET_METRIC''),
      (''cpu'', ''KERNELYRA_CPU_PERCENT''), (''ram'', ''KERNELYRA_RAM_PERCENT''), (''gpu'', ''KERNELYRA_GPU_PERCENT''),
      (''threads'', ''KERNELYRA_THREADS''), (''seed'', ''KERNELYRA_SEED''), (''learning_rate'', ''KERNELYRA_LEARNING_RATE''),
      (''weight_decay'', ''KERNELYRA_WEIGHT_DECAY''), (''hidden_layers'', ''KERNELYRA_HIDDEN_LAYERS''),
      (''precision'', ''KERNELYRA_PRECISION''), (''data_workers'', ''KERNELYRA_DATA_WORKERS''),
      (''prefetch'', ''KERNELYRA_PREFETCH''), (''evaluation_interval'', ''KERNELYRA_EVALUATION_INTERVAL''),
      (''min_improvement'', ''KERNELYRA_MIN_IMPROVEMENT''), (''degradation_margin'', ''KERNELYRA_DEGRADATION_MARGIN''),
      (''degradation_patience'', ''KERNELYRA_DEGRADATION_PATIENCE''),
      (''early_stopping_patience'', ''KERNELYRA_EARLY_STOPPING_PATIENCE''),
      (''target_patience'', ''KERNELYRA_TARGET_PATIENCE'')]"

definition setting_defaults :: "(string \<times> pyval) list" where
  "setting_defaults =
     [(''target'', VNone), (''task'', VStr ''auto''), (''backend'', VStr ''auto''), (''architecture'', VStr ''auto''),
      (''model_format'', VStr ''auto''), (''profile'', VStr ''auto''), (''execution'', VStr ''auto''),
      (''algorithm_pack'', VStr ''balanced''), (''batch_size'', VNone), (''max_steps'', VInt 1400), (''target_metric'', VNone),
      (''cpu'', VNone), (''ram'', VNone), (''gpu'', VNone), (''threads'', VNone), (''seed'', VInt 42), (''learning_rate'', VNone),
      (''weight_decay'', VFloat (Fin 0)), (''hidden_layers'', VNone), (''precision'', VStr ''auto''), (''data_workers'', VNone),
      (''prefetch'', VNone), (''evaluation_interval'', VNone), (''min_improvement'', VFloat (to_float (5/10000))),
      (''degradation_margin'', VNone), (''degradation_patience'', VInt 3), (''early_stopping_patience'', VInt 18),
      (''target_patience'', VInt 3)]"

definition integer_fields :: "string list" where
  "integer_fields = [''batch_size'', ''max_steps'', ''cpu'', ''ram'', ''gpu'', ''threads'', ''seed'', ''data_workers'', ''prefetch'',
     ''evaluation_interval'', ''degradation_patience'', ''early_stopping_patience'', ''target_patience'']"

definition float_fields :: "string list" where
  "float_fields = [''target_metric'', ''learning_rate'', ''weight_decay'', ''min_improvement'', ''degradation_margin'']"

definition name_fields :: "string list" where
  "name_fields = [''task'', ''backend'', ''architecture'', ''model_format'', ''profile'', ''execution'', ''algorithm_pack'', ''precision'']"

record backend_item =
  bk_name :: string
  bk_available :: bool
  bk_tasks :: "string list"

record auto_env =
  au_health :: health_env
  au_packs :: table_file
  au_hw :: hardware
  au_environ :: "(string, string) dict"
  au_config :: "kerror + pydict option"
  au_backends :: "backend_item list"

definition int_of :: "pyval \<Rightarrow> kerror + int" where
  "int_of v = (case v of
      VInt n \<Rightarrow> Inr n
    | VBool b \<Rightarrow> Inr (if b then 1 else 0)
    | VFloat x \<Rightarrow> py_int x
    | VStr s \<Rightarrow> (case parse_int s of Some n \<Rightarrow> Inr n | None \<Rightarrow> Inl ValueError)
    | _ \<Rightarrow> Inl TypeError)"

definition float_of :: "(string \<Rightarrow> pyfloat option) \<Rightarrow> pyval \<Rightarrow> kerror + pyfloat" where
  "float_of parse v = (case v of
      VInt n \<Rightarrow> if isfinite (f_of_int n) then Inr (f_of_int n) else Inl OverflowError
    | VBool b \<Rightarrow> Inr (Fin (if b then 1 else 0))
    | VFloat x \<Rightarrow> Inr x
    | VStr s \<Rightarrow> (case parse s of Some x \<Rightarrow> Inr x | None \<Rightarrow> Inl ValueError)
    | _ \<Rightarrow> Inl TypeError)"

fun comma_parts :: "string \<Rightarrow> string list" where
  "comma_parts [] = [[]]"
| "comma_parts (c # cs) =
     (if c = CHR '','' then [] # comma_parts cs else (c # hd (comma_parts cs)) # tl (comma_parts cs))"

definition layer_values :: "pyval \<Rightarrow> kerror + pyval list" where
  "layer_values v = (case v of
      VStr s \<Rightarrow> Inr (map VStr (filter (\<lambda>t. t \<noteq> []) (map py_strip (comma_parts s))))
    | VList vs \<Rightarrow> Inr vs
    | _ \<Rightarrow> Inl ConfigurationError)"

definition coerce_setting :: "health_env \<Rightarrow> string \<Rightarrow> pyval \<Rightarrow> kerror + pyval" where
  "coerce_setting h name v =
     (if v = VNone then Inr VNone
      else if name \<in> set integer_fields then bind_result (int_of v) (\<lambda>n. Inr (VInt n))
      else if name \<in> set float_fields then bind_result (float_of (he_parse h) v) (\<lambda>x. Inr (VFloat x))
      else if name = ''hidden_layers''
      then bind_result (layer_values v) (\<lambda>vs. bind_result (map_result int_of vs) (\<lambda>ns.
             if list_ex (\<lambda>n. n < 1 \<or> 65536 < n) ns then Inl ConfigurationError else Inr (VList (map VInt ns))))
      else if name \<in> set name_fields then Inr (VStr (clean_name (plain_text (he_show h) v)))
      else Inr (VStr (plain_text (he_show h) v)))"

text \<open>The \<open>[training]\<close> section of the file, else \<open>[kernelyra]\<close>, else nothing.\<close>

definition config_values :: "kerror + pydict option \<Rightarrow> kerror + pydict" where
  "config_values file_payload =
     (case file_payload of
        Inl e \<Rightarrow> Inl ConfigurationError
      | Inr None \<Rightarrow> Inr []
      | Inr (Some payload) \<Rightarrow>
          (case (case dict_get ''training'' payload of Some v \<Rightarrow> v
                 | None \<Rightarrow> (case dict_get ''kernelyra'' payload of Some v \<Rightarrow> v | None \<Rightarrow> VDict [])) of
             VDict d \<Rightarrow> Inr d | _ \<Rightarrow> Inl ConfigurationError))"

definition raw_setting :: "auto_env \<Rightarrow> pydict \<Rightarrow> pydict \<Rightarrow> string \<times> pyval \<Rightarrow> pyval \<times> string" where
  "raw_setting env configured explicit nd =
     (case nd of (name, dflt) \<Rightarrow>
        let e = (case dict_get name explicit of Some v \<Rightarrow> v | None \<Rightarrow> VNone);
            k = (case dict_get name env_keys of Some k \<Rightarrow> k | None \<Rightarrow> []);
            x = (case dict_get k (au_environ env) of Some s \<Rightarrow> s | None \<Rightarrow> [])
        in if e \<noteq> VNone then (e, ''explicit'')
           else if x \<noteq> [] then (VStr x, ''environment'')
           else case dict_get name configured of Some v \<Rightarrow> (v, ''config'') | None \<Rightarrow> (dflt, ''automatic''))"

definition resolve_setting :: "auto_env \<Rightarrow> pydict \<Rightarrow> pydict \<Rightarrow> string \<times> pyval \<Rightarrow> kerror + string \<times> pyval \<times> string" where
  "resolve_setting env configured explicit nd =
     (case raw_setting env configured explicit nd of (raw, source) \<Rightarrow>
        bind_result (coerce_setting (au_health env) (fst nd) raw) (\<lambda>v. Inr (fst nd, v, source)))"

record resolved =
  rv_values :: pydict
  rv_sources :: "(string, string) dict"

definition resolve_settings :: "auto_env \<Rightarrow> pydict \<Rightarrow> kerror + resolved" where
  "resolve_settings env explicit =
     bind_result (config_values (au_config env)) (\<lambda>configured.
     bind_result (map_result (resolve_setting env configured explicit) setting_defaults) (\<lambda>xs.
       Inr \<lparr>rv_values = map (\<lambda>(n, v, s). (n, v)) xs, rv_sources = map (\<lambda>(n, v, s). (n, s)) xs\<rparr>))"

definition v_int :: "string \<Rightarrow> pydict \<Rightarrow> int option" where
  "v_int k d = (case dict_get k d of Some (VInt n) \<Rightarrow> Some n | _ \<Rightarrow> None)"

definition v_float :: "string \<Rightarrow> pydict \<Rightarrow> pyfloat option" where
  "v_float k d = (case dict_get k d of Some (VFloat x) \<Rightarrow> Some x | _ \<Rightarrow> None)"

definition v_name :: "string \<Rightarrow> pydict \<Rightarrow> string" where
  "v_name k d = (case dict_get k d of Some (VStr s) \<Rightarrow> s | _ \<Rightarrow> [])"

definition v_layers :: "string \<Rightarrow> pydict \<Rightarrow> int list option" where
  "v_layers k d = (case dict_get k d of
      Some (VList vs) \<Rightarrow> Some (List.map_filter (\<lambda>v. case v of VInt n \<Rightarrow> Some n | _ \<Rightarrow> None) vs) | _ \<Rightarrow> None)"

definition given_int :: "int \<Rightarrow> int option \<Rightarrow> int" where
  "given_int d x = (case x of Some n \<Rightarrow> n | None \<Rightarrow> d)"

definition given_float :: "pyfloat \<Rightarrow> pyfloat option \<Rightarrow> pyfloat" where
  "given_float d x = (case x of Some n \<Rightarrow> n | None \<Rightarrow> d)"

section \<open>Task and backend\<close>

definition preview_task :: "health_env \<Rightarrow> inspection \<Rightarrow> string option \<Rightarrow> string" where
  "preview_task h ins target =
     (let values = (case target of
            None \<Rightarrow> []
          | Some t \<Rightarrow> if t = [] then [] else filter (\<lambda>s. s \<noteq> []) (map (\<lambda>r. py_strip
              (case dict_get t r of Some v \<Rightarrow> plain_text (he_show h) v | None \<Rightarrow> [])) (preview_rows ins)));
          unique = length (remdups values);
          numeric = list_all (\<lambda>s. he_parse h s \<noteq> None) values
      in if unique = 2 then ''binary_classification''
         else if unique \<noteq> 0 \<and> (\<not> numeric \<or> unique \<le> max 20 (floor_sqrt (length values) + 1))
         then ''multiclass_classification'' else ''regression'')"

definition backend_named :: "backend_item list \<Rightarrow> string \<Rightarrow> backend_item option" where
  "backend_named items name = find (\<lambda>i. bk_name i = name) (rev items)"

definition supports :: "backend_item list \<Rightarrow> string \<Rightarrow> string \<Rightarrow> bool" where
  "supports items task name \<longleftrightarrow> (case backend_named items name of
      Some i \<Rightarrow> bk_available i \<and> task \<in> set (bk_tasks i) | None \<Rightarrow> False)"

definition select_backend :: "backend_item list \<Rightarrow> string \<Rightarrow> string \<Rightarrow> string list \<Rightarrow> kerror + string" where
  "select_backend items requested task order =
     (if requested \<noteq> ''auto'' then if supports items task requested then Inr requested else Inl ConfigurationError
      else case find (supports items task) order of Some b \<Rightarrow> Inr b | None \<Rightarrow> Inl ConfigurationError)"

section \<open>The size of the source\<close>

record source_file =
  so_exists :: bool
  so_dir :: bool
  so_path :: string
  so_suffix :: string
  so_size :: int
  so_content :: "kerror + string"

definition preview_estimate :: "int \<Rightarrow> int \<Rightarrow> int \<Rightarrow> int \<Rightarrow> kerror + int" where
  "preview_estimate size_bytes sampled preview_bytes preview_count =
     (let q = to_float (of_int preview_bytes / of_int preview_count); d = (if flt (Fin 1) q then q else Fin 1) in
      case fdiv (f_of_int size_bytes) d of
        None \<Rightarrow> Inl ZeroDivisionError
      | Some x \<Rightarrow> bind_result (py_int x) (\<lambda>n. Inr (max sampled n)))"

definition table_suffixes :: "string list" where
  "table_suffixes = [''.csv'', ''.tsv'', ''.jsonl'', ''.ndjson'']"

definition estimate_text_records :: "source_file \<Rightarrow> int \<Rightarrow> int \<Rightarrow> int \<Rightarrow> int \<Rightarrow> kerror + int" where
  "estimate_text_records src size_bytes sampled preview_bytes preview_count =
     (if so_dir src \<or> so_suffix src \<notin> set table_suffixes
      then preview_estimate size_bytes sampled preview_bytes preview_count
      else
        let sample_size = min size_bytes (8 * 1024 * 1024) in
        (case so_content src of
           Inl e \<Rightarrow> preview_estimate size_bytes sampled preview_bytes preview_count
         | Inr bytes \<Rightarrow>
             let prefix = take (nat sample_size) bytes;
                 n = int (length (filter (\<lambda>c. c = CHR 0x0A) prefix));
                 lines = (if so_suffix src \<in> {''.csv'', ''.tsv''} then max 0 (n - 1) else n)
             in if size_bytes \<le> sample_size
                then Inr (max sampled (lines + (if prefix \<noteq> [] \<and> last prefix \<noteq> CHR 0x0A then 1 else 0)))
                else (case fdiv (f_of_int size_bytes) (to_float (of_int sample_size / of_int (max 1 lines))) of
                        None \<Rightarrow> Inl ZeroDivisionError
                      | Some x \<Rightarrow> bind_result (py_int x) (\<lambda>k. Inr (max sampled k)))))"

section \<open>Planning\<close>

datatype plan_warning = BatchNote batch_warning | StreamNote | ContextStreamNote | ContextRandomNote | HealthNote string

record training_plan =
  tp_dataset :: string
  tp_target :: "string option"
  tp_task :: string
  tp_backend :: string
  tp_architecture :: string
  tp_model_format :: string
  tp_profile :: string
  tp_execution :: string
  tp_pack :: string
  tp_batch :: int
  tp_max_steps :: int
  tp_target_metric :: pyfloat
  tp_cpu :: int
  tp_ram :: int
  tp_gpu :: int
  tp_threads :: int
  tp_seed :: int
  tp_learning_rate :: "pyfloat option"
  tp_weight_decay :: pyfloat
  tp_hidden :: "int list"
  tp_precision :: string
  tp_workers :: int
  tp_prefetch :: int
  tp_interval :: "int option"
  tp_min_improvement :: pyfloat
  tp_margin :: pyfloat
  tp_degradation_patience :: int
  tp_early_patience :: int
  tp_target_patience :: int
  tp_records :: int
  tp_features :: int
  tp_bytes :: int
  tp_stream :: bool
  tp_sources :: "(string, string) dict"
  tp_contract :: pydict
  tp_split :: pydict
  tp_chunks :: pydict
  tp_warnings :: "plan_warning list"

text \<open>Task, pack, execution target, policy, backend, architecture and format.\<close>

record choice =
  ch_task :: string
  ch_pack :: string
  ch_execution :: string
  ch_profile :: string
  ch_policy :: pack_policy
  ch_backend :: string
  ch_architecture :: string
  ch_format :: string

definition plan_task :: "health_env \<Rightarrow> inspection \<Rightarrow> pydict \<Rightarrow> string option \<Rightarrow> string" where
  "plan_task h ins vals target =
     (if v_name ''task'' vals \<noteq> ''auto'' then v_name ''task'' vals
      else case in_tasks ins of [t] \<Rightarrow> t | _ \<Rightarrow> preview_task h ins target)"

definition plan_choice :: "auto_env \<Rightarrow> inspection \<Rightarrow> pydict \<Rightarrow> string option \<Rightarrow> kerror + choice" where
  "plan_choice env ins vals target =
     (let show = he_show (au_health env); task = plan_task (au_health env) ins vals target in
      if task \<notin> set task_types then Inl ConfigurationError else
      bind_result (key_error_to_configuration (resolve_algorithm_pack show (au_packs env)
        (Some (if v_name ''profile'' vals = ''auto'' then v_name ''algorithm_pack'' vals else v_name ''profile'' vals)))) (\<lambda>pack.
      bind_result (key_error_to_configuration (resolve_execution_target (Some (v_name ''execution'' vals)) (au_hw env))) (\<lambda>execution.
      bind_result (legacy_profile_for_pack show (au_packs env) pack) (\<lambda>profile.
      bind_result (execution_policy show (au_packs env) (Some profile) (au_hw env) (Some execution) (Some pack)) (\<lambda>pol.
      bind_result (select_backend (au_backends env) (v_name ''backend'' vals) task (pc_backend_order pol)) (\<lambda>backend.
      bind_result (resolve_training_contract (v_name ''architecture'' vals) (v_name ''model_format'' vals) backend task) (\<lambda>(a, f).
        Inr \<lparr>ch_task = task, ch_pack = pack, ch_execution = execution, ch_profile = profile, ch_policy = pc_policy pol,
             ch_backend = backend, ch_architecture = a, ch_format = f\<rparr>)))))))"

record reservation =
  re_cpu :: int
  re_ram :: int
  re_gpu :: int
  re_threads :: int

definition plan_reservation :: "auto_env \<Rightarrow> pydict \<Rightarrow> choice \<Rightarrow> kerror + reservation" where
  "plan_reservation env vals ch =
     (let cpu = given_int 70 (v_int ''cpu'' vals); ram = given_int 70 (v_int ''ram'' vals);
          gpu = given_int (if ch_execution ch = ''hybrid'' then 70 else 0) (v_int ''gpu'' vals);
          cpu_threads = detected_threads (au_hw env)
      in if \<not> (10 \<le> cpu \<and> cpu \<le> 100) then Inl ConfigurationError
         else if \<not> (10 \<le> ram \<and> ram \<le> 95) then Inl ConfigurationError
         else if \<not> (0 \<le> gpu \<and> gpu \<le> 100) then Inl ConfigurationError
         else if ch_execution ch = ''cpu'' \<and> gpu \<noteq> 0 then Inl ConfigurationError
         else bind_result (case v_int ''threads'' vals of
             Some n \<Rightarrow> Inr n
           | None \<Rightarrow> bind_result (scaled_threads cpu_threads cpu (pk_fraction (ch_policy ch)))
                       (\<lambda>n. Inr (max 1 (min cpu_threads n)))) (\<lambda>threads.
           if \<not> (1 \<le> threads \<and> threads \<le> cpu_threads) then Inl ConfigurationError
           else Inr \<lparr>re_cpu = cpu, re_ram = ram, re_gpu = gpu, re_threads = threads\<rparr>))"

text \<open>Features, bytes and records of the source.\<close>

definition plan_shape :: "health_env \<Rightarrow> source_file \<Rightarrow> inspection \<Rightarrow> kerror + int \<times> int \<times> int" where
  "plan_shape h src ins =
     (let wide = 2 \<le> length (in_shape ins);
          features = max 1 (if wide then in_shape ins ! 1 else int (length (in_columns ins)) - 1);
          sampled = max 1 (int_or (in_sampled ins) 1);
          bytes = int_or (in_bytes ins) (so_size src);
          preview_bytes = max 1 (sum_list (map (\<lambda>v. int (length (plain_text (he_show h) v))) (in_preview ins)));
          preview_count = max 1 (int (length (in_preview ins)));
          known = int_or (in_rows ins) (if wide then in_shape ins ! 0 else 0)
      in bind_result (if known \<noteq> 0 then Inr known else estimate_text_records src bytes sampled preview_bytes preview_count)
           (\<lambda>records. Inr (features, bytes, records)))"

record settings =
  se_target_metric :: pyfloat
  se_workers :: int
  se_prefetch :: int
  se_hidden :: "int list"
  se_learning_rate :: "pyfloat option"
  se_weight_decay :: pyfloat
  se_precision :: string
  se_max_steps :: int
  se_interval :: "int option"
  se_min_improvement :: pyfloat
  se_margin :: pyfloat
  se_degradation_patience :: int
  se_early_patience :: int
  se_target_patience :: int

definition settings_of :: "pydict \<Rightarrow> choice \<Rightarrow> int \<Rightarrow> settings" where
  "settings_of vals ch threads =
     (let regression = (ch_task ch = ''regression''); policy = ch_policy ch in
      \<lparr>se_target_metric = given_float (if regression then to_float (80/100) else to_float (92/100)) (v_float ''target_metric'' vals),
       se_workers = given_int (min (pk_data_workers policy) (max 0 (threads - 1))) (v_int ''data_workers'' vals),
       se_prefetch = given_int (pk_prefetch policy) (v_int ''prefetch'' vals),
       se_hidden = (case v_layers ''hidden_layers'' vals of Some h \<Rightarrow> h | None \<Rightarrow> pk_hidden policy),
       se_learning_rate = v_float ''learning_rate'' vals, se_weight_decay = given_float (Fin 0) (v_float ''weight_decay'' vals),
       se_precision = v_name ''precision'' vals, se_max_steps = given_int 0 (v_int ''max_steps'' vals),
       se_interval = v_int ''evaluation_interval'' vals,
       se_min_improvement = given_float NaN (v_float ''min_improvement'' vals),
       se_margin = given_float (if regression then to_float (5/100) else to_float (3/100)) (v_float ''degradation_margin'' vals),
       se_degradation_patience = given_int 0 (v_int ''degradation_patience'' vals),
       se_early_patience = given_int 0 (v_int ''early_stopping_patience'' vals),
       se_target_patience = given_int 0 (v_int ''target_patience'' vals)\<rparr>)"

text \<open>The checks of the code, each of which raises \<open>ConfigurationError\<close>.\<close>

definition precisions :: "string list" where
  "precisions = [''auto'', ''float16'', ''bfloat16'', ''float32'', ''float64'']"

definition settings_ok :: "string \<Rightarrow> settings \<Rightarrow> bool" where
  "settings_ok task s \<longleftrightarrow>
     fle (Fin (if task = ''regression'' then - 10 else 0)) (se_target_metric s) \<and> fle (se_target_metric s) (Fin 1)
     \<and> se_hidden s \<noteq> [] \<and> length (se_hidden s) \<le> 16 \<and> list_all (\<lambda>w. 1 \<le> w \<and> w \<le> 1000000) (se_hidden s)
     \<and> (case se_learning_rate s of Some x \<Rightarrow> \<not> fle x (Fin 0) | None \<Rightarrow> True) \<and> \<not> flt (se_weight_decay s) (Fin 0)
     \<and> se_precision s \<in> set precisions \<and> 1 \<le> se_max_steps s \<and> se_max_steps s \<le> 10000000
     \<and> 0 \<le> se_workers s \<and> se_workers s \<le> 64 \<and> 0 \<le> se_prefetch s \<and> se_prefetch s \<le> 32
     \<and> (case se_interval s of Some n \<Rightarrow> 1 \<le> n \<and> n \<le> 1000000 | None \<Rightarrow> True)
     \<and> fle (Fin 0) (se_min_improvement s) \<and> fle (se_min_improvement s) (Fin 1)
     \<and> flt (Fin 0) (se_margin s) \<and> fle (se_margin s) (Fin 10)
     \<and> 1 \<le> se_degradation_patience s \<and> se_degradation_patience s \<le> 100
     \<and> 1 \<le> se_early_patience s \<and> se_early_patience s \<le> 10000
     \<and> 1 \<le> se_target_patience s \<and> se_target_patience s \<le> 100"

definition stream_suffixes :: "string list" where
  "stream_suffixes = table_suffixes @ [''.parquet'', ''.pq'']"

text \<open>In memory or as a stream, the contract, and the warnings.\<close>

definition plan_data ::
  "health_env \<Rightarrow> source_file \<Rightarrow> inspection \<Rightarrow> string option \<Rightarrow> int \<Rightarrow> choice \<Rightarrow> int \<times> int \<times> int
     \<Rightarrow> kerror + bool \<times> pydict \<times> pydict \<times> pydict \<times> plan_warning list" where
  "plan_data h src ins target seed ch shape =
     (case shape of (features, bytes, records) \<Rightarrow>
        let stream = (so_dir src \<or> min max_import_bytes (pk_stream_limit (ch_policy ch)) < bytes);
            readable = (so_suffix src \<in> set stream_suffixes)
        in if stream \<and> \<not> so_dir src \<and> \<not> readable then Inl DatasetError else
           bind_result (analyze_inspection h ins target (Some records) (Some features) seed (Some (pk_chunk_target (ch_policy ch)))) (\<lambda>a.
           case (dict_get ''split_policy'' (an_contract a), dict_get ''chunk_policy'' (an_contract a)) of
             (Some (VDict split), Some (VDict chunks)) \<Rightarrow>
               (case dict_get ''strategy'' split of
                  None \<Rightarrow> Inl KeyError
                | Some strategy \<Rightarrow>
                    let notes = (if stream then [StreamNote] else []) @ map HealthNote (an_warnings a);
                        grouped = (strategy = VStr ''context'') in
                    Inr (stream \<or> grouped \<and> (so_dir src \<or> readable), an_contract a, split, chunks,
                         notes @ (if \<not> grouped then [] else if so_dir src \<or> readable
                                  then if stream then [] else [ContextStreamNote] else [ContextRandomNote])))
           | (None, _) \<Rightarrow> Inl KeyError | (_, None) \<Rightarrow> Inl KeyError | _ \<Rightarrow> Inl TypeError))"

definition known_options :: "string list" where
  "known_options = map fst setting_defaults @ [''accept_batch_risk'', ''name'']"

definition or_suggested :: "string \<Rightarrow> string option \<Rightarrow> string option" where
  "or_suggested target suggested = (if target \<noteq> [] then Some target else suggested)"

text \<open>The plan, from what was decided.\<close>

definition plan_of ::
  "string \<Rightarrow> string option \<Rightarrow> choice \<Rightarrow> reservation \<Rightarrow> settings \<Rightarrow> int \<Rightarrow> batch_plan \<Rightarrow> int \<times> int \<times> int
     \<Rightarrow> (string, string) dict \<Rightarrow> bool \<times> pydict \<times> pydict \<times> pydict \<times> plan_warning list \<Rightarrow> training_plan" where
  "plan_of path target ch re s seed batch shape sources data =
     (case shape of (features, bytes, records) \<Rightarrow> (case data of (stream, contract, split, chunks, notes) \<Rightarrow>
        \<lparr>tp_dataset = path, tp_target = target, tp_task = ch_task ch, tp_backend = ch_backend ch,
         tp_architecture = ch_architecture ch, tp_model_format = ch_format ch, tp_profile = ch_profile ch,
         tp_execution = ch_execution ch, tp_pack = ch_pack ch, tp_batch = bp_applied batch, tp_max_steps = se_max_steps s,
         tp_target_metric = se_target_metric s, tp_cpu = re_cpu re, tp_ram = re_ram re, tp_gpu = re_gpu re,
         tp_threads = re_threads re, tp_seed = seed, tp_learning_rate = se_learning_rate s,
         tp_weight_decay = se_weight_decay s, tp_hidden = se_hidden s, tp_precision = se_precision s,
         tp_workers = se_workers s, tp_prefetch = se_prefetch s, tp_interval = se_interval s,
         tp_min_improvement = se_min_improvement s, tp_margin = se_margin s,
         tp_degradation_patience = se_degradation_patience s, tp_early_patience = se_early_patience s,
         tp_target_patience = se_target_patience s, tp_records = records, tp_features = features, tp_bytes = bytes,
         tp_stream = stream, tp_sources = sources, tp_contract = contract, tp_split = split, tp_chunks = chunks,
         tp_warnings = unique (map BatchNote (bp_warnings batch) @ notes)\<rparr>))"

definition plan_training ::
  "auto_env \<Rightarrow> source_file \<Rightarrow> kerror + inspection \<Rightarrow> pydict \<Rightarrow> kerror + training_plan" where
  "plan_training env src inspected overrides =
     (if \<not> set (dict_keys overrides) \<subseteq> set known_options then Inl ConfigurationError
      else if \<not> so_exists src then Inl DatasetError
      else
      bind_result (resolve_settings env overrides) (\<lambda>rv.
      bind_result inspected (\<lambda>ins.
      if \<not> in_trainable ins then Inl DatasetError else
      let vals = rv_values rv; h = au_health env; target = or_suggested (v_name ''target'' vals) (in_suggested ins) in
      bind_result (plan_choice env ins vals target) (\<lambda>ch.
      bind_result (plan_reservation env vals ch) (\<lambda>re.
      bind_result (plan_shape h src ins) (\<lambda>(features, bytes, records).
      bind_result (plan_batch records features (ch_profile ch) (re_ram re) (ram_gb_of (au_hw env))
          (if v_int ''batch_size'' vals \<noteq> None then ''manual'' else ''auto'') (v_int ''batch_size'' vals)) (\<lambda>batch.
      if bp_requires_confirmation batch
         \<and> \<not> (case dict_get ''accept_batch_risk'' overrides of Some v \<Rightarrow> truthy v | None \<Rightarrow> False) then Inl ConfigurationError
      else
      let s = settings_of vals ch (re_threads re); seed = given_int 0 (v_int ''seed'' vals) in
      if \<not> settings_ok (ch_task ch) s then Inl ConfigurationError else
      bind_result (plan_data h src ins target seed ch (features, bytes, records)) (\<lambda>(stream, contract, split, chunks, notes).
        Inr (plan_of (so_path src) target ch re s seed batch (features, bytes, records) (rv_sources rv)
               (stream, contract, split, chunks, notes))))))))))"

section \<open>Training\<close>

text \<open>The source becomes a data set of the workspace: attached for a stream, imported otherwise.\<close>

record acquisition =
  aq_manager :: manager
  aq_request :: import_request
  aq_spec :: "kerror + attached"
  aq_health :: "attached \<Rightarrow> kerror + pydict"
  aq_name :: string

definition acquire :: "acquisition \<Rightarrow> bool \<Rightarrow> training_plan \<Rightarrow> tree \<times> store \<Rightarrow> (kerror + dataset_info) \<times> tree \<times> store" where
  "acquire q is_dir p s =
     (if tp_stream p
      then (case attach_path (aq_manager q) is_dir (aq_name q) (tp_dataset p) (aq_spec q) (aq_health q) (snd s) of
              (r, st) \<Rightarrow> (r, fst s, st))
      else import_file (aq_manager q) ((aq_request q)\<lparr>rq_target := tp_target p\<rparr>) s)"

definition dict_or :: "string \<Rightarrow> pydict \<Rightarrow> pydict \<Rightarrow> kerror + pydict" where
  "dict_or k d other =
     (case dict_get k d of
        None \<Rightarrow> Inr other
      | Some v \<Rightarrow> if \<not> truthy v then Inr other else case v of VDict x \<Rightarrow> Inr x | _ \<Rightarrow> Inl TypeError)"

definition adopt_plan :: "auto_env \<Rightarrow> training_plan \<Rightarrow> dataset_info \<Rightarrow> kerror + training_plan" where
  "adopt_plan env p d =
     bind_result (if tp_task p \<in> set (d_task_types d) then Inr (tp_task p)
                  else case d_task_types d of t # _ \<Rightarrow> Inr t | [] \<Rightarrow> Inl IndexError) (\<lambda>task.
     bind_result (execution_policy (he_show (au_health env)) (au_packs env) (Some (tp_profile p)) (au_hw env)
         (Some (tp_execution p)) (Some (tp_pack p))) (\<lambda>pol.
     bind_result (select_backend (au_backends env) (tp_backend p) task (pc_backend_order pol)) (\<lambda>backend.
     let contract = (case dict_get ''data_contract'' (d_manifest d) of Some (VDict c) \<Rightarrow> c | _ \<Rightarrow> tp_contract p) in
     bind_result (dict_or ''split_policy'' contract (tp_split p)) (\<lambda>split.
     bind_result (dict_or ''chunk_policy'' contract (tp_chunks p)) (\<lambda>chunks.
       Inr (p\<lparr>tp_target := Some (d_target d), tp_task := task, tp_backend := backend, tp_records := d_records d,
              tp_features := d_features d, tp_contract := contract, tp_split := split, tp_chunks := chunks\<rparr>))))))"

definition run_config_of :: "training_plan \<Rightarrow> dataset_info \<Rightarrow> pydict \<Rightarrow> string \<Rightarrow> string option \<Rightarrow> run_config" where
  "run_config_of p d overrides name model =
     \<lparr>rc_dataset = d_id d, rc_backend = tp_backend p, rc_objective = tp_task p, rc_architecture = tp_architecture p,
      rc_model_format = tp_model_format p, rc_name = take 80 name,
      rc_mode = (if model \<noteq> None then ''Fine-tune'' else ''Train''), rc_profile = tp_profile p,
      rc_execution = tp_execution p, rc_algorithm_pack = tp_pack p, rc_priority = ''normal'',
      rc_target_metric = tp_target_metric p,
      rc_batch_mode = (case dict_get ''batch_size'' overrides of Some v \<Rightarrow> if v = VNone then ''auto'' else ''manual'' | None \<Rightarrow> ''auto''),
      rc_batch_size = Some (tp_batch p), rc_max_steps = tp_max_steps p, rc_cpu = Some (tp_cpu p), rc_ram = Some (tp_ram p),
      rc_gpu = Some (tp_gpu p), rc_threads = Some (tp_threads p), rc_base_run_id = None, rc_model_path = model,
      rc_accept_batch_risk = True, rc_seed = tp_seed p, rc_learning_rate = tp_learning_rate p,
      rc_weight_decay = tp_weight_decay p, rc_hidden_layers = tp_hidden p, rc_precision = tp_precision p,
      rc_data_workers = Some (tp_workers p), rc_prefetch = Some (tp_prefetch p), rc_evaluation_interval = tp_interval p,
      rc_min_improvement = tp_min_improvement p, rc_degradation_margin = Some (tp_margin p),
      rc_degradation_patience = tp_degradation_patience p, rc_early_stopping_patience = tp_early_patience p,
      rc_target_patience = tp_target_patience p, rc_data_contract = tp_contract p, rc_split_policy = tp_split p,
      rc_chunk_policy = tp_chunks p\<rparr>"

definition run_name :: "(pyval \<Rightarrow> string) \<Rightarrow> pydict \<Rightarrow> string \<Rightarrow> string" where
  "run_name show overrides dataset =
     (case dict_get ''name'' overrides of
        Some v \<Rightarrow> if truthy v then plain_text show v else path_stem (path_name dataset)
      | None \<Rightarrow> path_stem (path_name dataset))"

text \<open>\<open>train\<close> up to the started run. \<open>world\<close> is the creation environment for the data set.\<close>

definition train_start ::
  "auto_env \<Rightarrow> acquisition \<Rightarrow> source_file \<Rightarrow> kerror + inspection \<Rightarrow> pydict \<Rightarrow> string option \<Rightarrow> string \<Rightarrow> rat \<Rightarrow> bool
     \<Rightarrow> tree \<times> rt \<Rightarrow> (kerror + run_info) \<times> tree \<times> rt" where
  "train_start env q src inspected overrides model run_id now lock_free s =
     (case s of (t, s0) \<Rightarrow>
        (case plan_training env src inspected overrides of
           Inl e \<Rightarrow> (Inl e, t, s0)
         | Inr p \<Rightarrow>
        (case acquire q (so_dir src) p (t, rt_store s0) of
           (Inl e, t1, st1) \<Rightarrow> (Inl e, t1, s0\<lparr>rt_store := st1\<rparr>)
         | (Inr d, t1, st1) \<Rightarrow>
             let s1 = s0\<lparr>rt_store := st1\<rparr> in
        (case adopt_plan env p d of
           Inl e \<Rightarrow> (Inl e, t1, s1)
         | Inr p1 \<Rightarrow>
             let show = he_show (au_health env);
                 world = \<lparr>ce_show = show, ce_packs = au_packs env, ce_hardware = au_hw env, ce_dataset = get_dataset (d_id d) st1,
                          ce_base_exists = False, ce_id = run_id, ce_now = now\<rparr>
             in (case rt_create world (run_config_of p1 d overrides (run_name show overrides (so_path src)) model) s1 of
                   (Inl e, s2) \<Rightarrow> (Inl e, t1, s2)
                 | (Inr i, s2) \<Rightarrow> (case rt_command now lock_free ''runtime'' i ''start'' s2 of (r, s3) \<Rightarrow> (r, t1, s3)))))))"

text \<open>Then the call polls: \<open>seen\<close> are the records it reads until one is terminal; \<open>None\<close> while none is.\<close>

definition terminal_states :: "run_status list" where
  "terminal_states = [Completed, Stopped, Error_Status, Error_Recoverable]"

definition train_result :: "run_info list \<Rightarrow> (kerror + run_info) option" where
  "train_result seen =
     (case find (\<lambda>r. r_status r \<in> set terminal_states) seen of
        None \<Rightarrow> None
      | Some r \<Rightarrow> Some (if r_status r \<in> {Error_Status, Error_Recoverable} then Inl RunError else Inr r))"

definition model_backend :: "string \<Rightarrow> string option" where
  "model_backend suffix =
     (if suffix \<in> {''.pt'', ''.pth''} then Some ''torch''
      else if suffix \<in> {''.keras'', ''.h5'', ''.hdf5''} then Some ''tensorflow''
      else if suffix = ''.npz'' then Some ''numpy'' else None)"

definition finetune_overrides :: "bool \<Rightarrow> string \<Rightarrow> pydict \<Rightarrow> kerror + pydict" where
  "finetune_overrides is_model_file suffix overrides =
     (if \<not> is_model_file then Inl ConfigurationError
      else if (case dict_get ''backend'' overrides of Some v \<Rightarrow> v | None \<Rightarrow> VNone) \<noteq> VNone then Inr overrides
      else case model_backend suffix of
        None \<Rightarrow> Inl ConfigurationError | Some b \<Rightarrow> Inr (dict_set ''backend'' (VStr b) overrides))"

section \<open>What a plan guarantees\<close>

definition within_limits :: "auto_env \<Rightarrow> training_plan \<Rightarrow> bool" where
  "within_limits env p \<longleftrightarrow>
     10 \<le> tp_cpu p \<and> tp_cpu p \<le> 100 \<and> 10 \<le> tp_ram p \<and> tp_ram p \<le> 95 \<and> 0 \<le> tp_gpu p \<and> tp_gpu p \<le> 100
     \<and> (tp_execution p = ''cpu'' \<longrightarrow> tp_gpu p = 0) \<and> 1 \<le> tp_threads p \<and> tp_threads p \<le> detected_threads (au_hw env)
     \<and> tp_hidden p \<noteq> [] \<and> length (tp_hidden p) \<le> 16 \<and> (\<forall>w \<in> set (tp_hidden p). 1 \<le> w \<and> w \<le> 1000000)
     \<and> 1 \<le> tp_batch p \<and> tp_batch p \<le> train_records_of (tp_records p)
     \<and> 1 \<le> tp_max_steps p \<and> tp_max_steps p \<le> 10000000 \<and> 0 \<le> tp_workers p \<and> tp_workers p \<le> 64
     \<and> 0 \<le> tp_prefetch p \<and> tp_prefetch p \<le> 32 \<and> fle (tp_target_metric p) (Fin 1) \<and> flt (Fin 0) (tp_margin p)
     \<and> tp_backend p \<noteq> ''auto'' \<and> supports (au_backends env) (tp_task p) (tp_backend p)"

lemma if_Inl_eq: "(if c then Inl e else x) = Inr y \<longleftrightarrow> \<not> c \<and> x = Inr y"
  by simp

lemma bind_result_eq_Inr: "bind_result r f = Inr y \<longleftrightarrow> (\<exists>x. r = Inr x \<and> f x = Inr y)"
  by (cases r) auto

lemma key_error_InrD: "key_error_to_configuration r = Inr x \<longleftrightarrow> r = Inr x"
  by (auto simp: key_error_to_configuration_def split: sum.splits kerror.splits)

lemma plan_training_InrE:
  assumes "plan_training env src inspected overrides = Inr p"
  obtains rv ins ch re batch shape s seed data where
    "resolve_settings env overrides = Inr rv" "inspected = Inr ins" "in_trainable ins"
    "plan_choice env ins (rv_values rv) (or_suggested (v_name ''target'' (rv_values rv)) (in_suggested ins)) = Inr ch"
    "plan_reservation env (rv_values rv) ch = Inr re"
    "plan_batch (snd (snd shape)) (fst shape) (ch_profile ch) (re_ram re) (ram_gb_of (au_hw env))
          (if v_int ''batch_size'' (rv_values rv) \<noteq> None then ''manual'' else ''auto'') (v_int ''batch_size'' (rv_values rv)) = Inr batch"
    "s = settings_of (rv_values rv) ch (re_threads re)" "settings_ok (ch_task ch) s"
    "p = plan_of (so_path src) (or_suggested (v_name ''target'' (rv_values rv)) (in_suggested ins)) ch re s seed batch shape
       (rv_sources rv) data"
  using assms unfolding plan_training_def Let_def if_Inl_eq bind_result_eq_Inr case_prod_beta sum.inject not_not prod.collapse
  by (elim conjE exE) (rule that, assumption+, rule refl, assumption, erule sym)

lemma plan_of_simps [simp]:
  "tp_task (plan_of path target ch re s seed batch shape sources data) = ch_task ch"
  "tp_backend (plan_of path target ch re s seed batch shape sources data) = ch_backend ch"
  "tp_architecture (plan_of path target ch re s seed batch shape sources data) = ch_architecture ch"
  "tp_model_format (plan_of path target ch re s seed batch shape sources data) = ch_format ch"
  "tp_profile (plan_of path target ch re s seed batch shape sources data) = ch_profile ch"
  "tp_execution (plan_of path target ch re s seed batch shape sources data) = ch_execution ch"
  "tp_pack (plan_of path target ch re s seed batch shape sources data) = ch_pack ch"
  "tp_batch (plan_of path target ch re s seed batch shape sources data) = bp_applied batch"
  "tp_max_steps (plan_of path target ch re s seed batch shape sources data) = se_max_steps s"
  "tp_target_metric (plan_of path target ch re s seed batch shape sources data) = se_target_metric s"
  "tp_cpu (plan_of path target ch re s seed batch shape sources data) = re_cpu re"
  "tp_ram (plan_of path target ch re s seed batch shape sources data) = re_ram re"
  "tp_gpu (plan_of path target ch re s seed batch shape sources data) = re_gpu re"
  "tp_threads (plan_of path target ch re s seed batch shape sources data) = re_threads re"
  "tp_hidden (plan_of path target ch re s seed batch shape sources data) = se_hidden s"
  "tp_workers (plan_of path target ch re s seed batch shape sources data) = se_workers s"
  "tp_prefetch (plan_of path target ch re s seed batch shape sources data) = se_prefetch s"
  "tp_interval (plan_of path target ch re s seed batch shape sources data) = se_interval s"
  "tp_min_improvement (plan_of path target ch re s seed batch shape sources data) = se_min_improvement s"
  "tp_margin (plan_of path target ch re s seed batch shape sources data) = se_margin s"
  "tp_degradation_patience (plan_of path target ch re s seed batch shape sources data) = se_degradation_patience s"
  "tp_early_patience (plan_of path target ch re s seed batch shape sources data) = se_early_patience s"
  "tp_target_patience (plan_of path target ch re s seed batch shape sources data) = se_target_patience s"
  "tp_records (plan_of path target ch re s seed batch shape sources data) = snd (snd shape)"
  "tp_features (plan_of path target ch re s seed batch shape sources data) = fst shape"
  by (simp_all add: plan_of_def split: prod.splits)

lemma plan_choice_InrE:
  assumes "plan_choice env ins vals target = Inr ch"
  obtains order where "ch_task ch \<in> set task_types"
    "\<exists>v. resolve_algorithm_pack (he_show (au_health env)) (au_packs env) v = Inr (ch_pack ch)"
    "\<exists>v. resolve_execution_target v (au_hw env) = Inr (ch_execution ch)"
    "legacy_profile_for_pack (he_show (au_health env)) (au_packs env) (ch_pack ch) = Inr (ch_profile ch)"
    "\<exists>b. select_backend (au_backends env) b (ch_task ch) order = Inr (ch_backend ch)"
    "\<exists>a f. resolve_training_contract a f (ch_backend ch) (ch_task ch) = Inr (ch_architecture ch, ch_format ch)"
proof -
  note c = assms [unfolded plan_choice_def Let_def if_Inl_eq bind_result_eq_Inr case_prod_beta sum.inject not_not key_error_InrD]
  show ?thesis
    using c by (elim conjE exE) (rule that; force simp: prod_eq_iff)
qed

lemma select_backend_supports:
  "select_backend items b task order = Inr x \<Longrightarrow> supports items task x"
  by (auto simp: select_backend_def find_Some_iff split: if_splits option.splits)

lemma contract_backend:
  "resolve_training_contract a f b t = Inr r \<Longrightarrow> b \<in> {''native'', ''numpy'', ''torch'', ''tensorflow''}"
  by (cases r) (auto simp: training_contract_exact)

text \<open>C25: Every plan that is returned is inside the limits: the CPU, memory and GPU shares, the threads of the machine, widths, batch,
  steps, workers, prefetch, metric and margin; CPU execution reserves no GPU, and the backend is concrete, available and supports the task.\<close>

theorem plan_within_limits:
  assumes "plan_training env src inspected overrides = Inr p" shows "within_limits env p"
proof -
  from assms obtain rv ins ch re batch shape s seed data where
    "resolve_settings env overrides = Inr rv" "inspected = Inr ins" "in_trainable ins"
    and ch: "plan_choice env ins (rv_values rv) (or_suggested (v_name ''target'' (rv_values rv)) (in_suggested ins)) = Inr ch"
    and re: "plan_reservation env (rv_values rv) ch = Inr re"
    and b: "plan_batch (snd (snd shape)) (fst shape) (ch_profile ch) (re_ram re) (ram_gb_of (au_hw env))
          (if v_int ''batch_size'' (rv_values rv) \<noteq> None then ''manual'' else ''auto'') (v_int ''batch_size'' (rv_values rv)) = Inr batch"
    and "s = settings_of (rv_values rv) ch (re_threads re)" and ok: "settings_ok (ch_task ch) s"
    and p: "p = plan_of (so_path src) (or_suggested (v_name ''target'' (rv_values rv)) (in_suggested ins)) ch re s seed batch shape
       (rv_sources rv) data" by (rule plan_training_InrE)
  have "10 \<le> re_cpu re \<and> re_cpu re \<le> 100 \<and> 10 \<le> re_ram re \<and> re_ram re \<le> 95 \<and> 0 \<le> re_gpu re \<and> re_gpu re \<le> 100
     \<and> (ch_execution ch = ''cpu'' \<longrightarrow> re_gpu re = 0) \<and> 1 \<le> re_threads re \<and> re_threads re \<le> detected_threads (au_hw env)"
    using re unfolding plan_reservation_def Let_def if_Inl_eq bind_result_eq_Inr sum.inject by auto
  moreover have "supports (au_backends env) (ch_task ch) (ch_backend ch)" "ch_backend ch \<noteq> ''auto''"
    using ch by (auto elim!: plan_choice_InrE dest!: select_backend_supports contract_backend)
  moreover have "1 \<le> bp_applied batch \<and> bp_applied batch \<le> train_records_of (snd (snd shape))"
    using plan_batch_bounds(5,6) [OF b] by (rule_tac plan_batch_InrE [OF b]) simp
  ultimately show ?thesis using ok by (simp add: p within_limits_def settings_ok_def list_all_iff)
qed

section \<open>From the plan to the run\<close>

lemma round_even_bounds: "z - 1 \<le> of_int (round_even z)" "of_int (round_even z) \<le> z + 1"
  by (simp_all add: round_even_def Let_def) linarith+

lemma pow2_ulp:
  assumes "0 < x" shows "pow2 (ulp_exp x) \<le> x / 4 + 1"
proof (cases "binade x - 52 \<le> - 1074")
  case True
  then have "ulp_exp x = - 1074" using assms by (simp add: ulp_exp_def)
  moreover have "pow2 (- 1074) \<le> pow2 0" using pow2_less_iff [of "- 1074" 0] by linarith
  moreover have "pow2 0 = 1" by (simp add: pow2_def)
  ultimately have "pow2 (ulp_exp x) \<le> 1" by (simp only:)
  then show ?thesis using assms by linarith
next
  case False
  then have "ulp_exp x = binade x + - 52" using assms by (simp add: ulp_exp_def)
  then have "pow2 (ulp_exp x) = pow2 (binade x) * pow2 (- 52)" by (simp only: pow2_add)
  moreover have "pow2 (- 52) = 1 / 2 ^ 52" by (simp add: pow2_def)
  moreover have "pow2 (binade x) \<le> x" by (rule binade_lower [OF assms])
  ultimately have "pow2 (ulp_exp x) \<le> x / 2 ^ 52" by (simp add: field_simps)
  also have "\<dots> \<le> x / 4 + 1" using assms by (simp add: field_simps)
  finally show ?thesis .
qed

lemma round64_near:
  assumes "0 < x" shows "\<bar>round64 x - x\<bar> \<le> x / 4 + 1"
proof -
  let ?p = "pow2 (ulp_exp x)"
  have "\<bar>of_int (round_even (x / ?p)) - x / ?p\<bar> \<le> 1"
    using round_even_bounds [of "x / ?p"] by linarith
  then have "\<bar>of_int (round_even (x / ?p)) - x / ?p\<bar> * ?p \<le> 1 * ?p"
    by (rule mult_right_mono) (simp add: less_imp_le)
  moreover have "(of_int (round_even (x / ?p)) - x / ?p) * ?p = round64 x - x"
    using assms by (simp add: round64_def algebra_simps)
  then have "\<bar>round64 x - x\<bar> = \<bar>of_int (round_even (x / ?p)) - x / ?p\<bar> * ?p"
    by (metis abs_mult abs_of_pos pow2_pos)
  ultimately show ?thesis using pow2_ulp [OF assms] by linarith
qed

lemma to_float_finite:
  assumes "0 < x" and "x \<le> 2 ^ 1020"
  shows "\<exists>y. to_float x = Fin y \<and> x * 3 / 4 - 1 \<le> y"
proof -
  have "round64 x < float_limit"
  proof -
    define t :: rat where "t = 2 ^ 1020"
    have "1 \<le> t" unfolding t_def by (rule one_le_power) simp
    then have "round64 x < 16 * t"
      using round64_near [OF assms(1)] assms(2) [folded t_def] by linarith
    also have "16 * t = 2 ^ (4 + 1020)" unfolding t_def power_add by simp
    also have "\<dots> = float_limit" by (simp add: float_limit_def)
    finally show ?thesis .
  qed
  moreover have "- float_limit < round64 x" using round64_nonneg [of x] assms(1) float_limit_pos by linarith
  ultimately have "to_float x = Fin (round64 x)" by (simp add: to_float_def)
  then show ?thesis using round64_near [OF assms(1)] by (intro exI [of _ "round64 x"]) auto
qed

lemma fmul_limit: "fmul x y = Fin u \<Longrightarrow> u < float_limit"
  by (cases x; cases y) (auto simp: to_float_def inf_of_sign_def Let_def split: if_splits)

lemma py_int_Fin: "\<exists>n. py_int (Fin y) = Inr n"
  by (simp add: py_int_def)

text \<open>Where the memory ceiling of a batch was computed once, it is computed for every data set of a realistic width.\<close>

lemma memory_samples_total:
  assumes "memory_samples profile ram ram_gb features = Inr n" and w: "width \<le> 2 ^ 64"
  shows "\<exists>m. memory_samples profile ram ram_gb width = Inr m"
proof -
  define limit :: pyfloat where "limit = Fin (256 * 1024 ^ 2)"
  define usable where "usable = (let total = fmul (fmax (Fin 1) ram_gb) (Fin (1024 ^ 3));
          available = (if profile = ''workstation''
                       then fsub total (fmax (Fin (2 * 1024 ^ 3)) (fmul total (to_float (5/100)))) else total)
      in fmul (fmin (fmul total (to_float (of_int ram / 100))) available)
           (if profile = ''workstation'' then to_float (80/100) else to_float (35/100)))"
  define size_of where "size_of f = (max 2048 (f * 4 * 12) :: int)" for f
  have eq: "memory_samples profile ram ram_gb f =
      (if flt limit usable
       then if isfinite (f_of_int (size_of f))
            then case fdiv usable (f_of_int (size_of f)) of None \<Rightarrow> Inl ZeroDivisionError | Some q \<Rightarrow> py_int q
            else Inl OverflowError
       else py_int (to_float (256 * 1024 ^ 2 / of_int (size_of f))))" for f
    unfolding memory_samples_def usable_def limit_def size_of_def Let_def ..
  have "size_of width \<le> 2 ^ 70" using w by (simp add: size_of_def)
  then have size: "2048 \<le> (of_int (size_of width) :: rat)" "(of_int (size_of width) :: rat) \<le> 2 ^ 70"
    by (simp_all add: size_of_def)
  have p: "(2 :: rat) ^ 70 \<le> 2 ^ 1020" "(2 :: rat) ^ 28 \<le> 2 ^ 1020" by (rule power_increasing; simp)+
  have "0 < (of_int (size_of width) :: rat)" using size(1) by linarith
  from to_float_finite [OF this order_trans [OF size(2) p(1)]]
  obtain b where b: "f_of_int (size_of width) = Fin b" "1024 \<le> b" using size(1) by (auto simp: f_of_int_def)
  show ?thesis
  proof (cases "flt limit usable")
    case False
    have "(of_int (256 * 1024 ^ 2) :: rat) / of_int (size_of width) \<le> 2 ^ 28"
      using size(1) by (simp add: divide_le_eq)
    then have "\<exists>y. to_float (256 * 1024 ^ 2 / of_int (size_of width)) = Fin y \<and> 256 * 1024 ^ 2 / of_int (size_of width) * 3 / 4 - 1 \<le> y"
      using size(1) p(2) by (intro to_float_finite) auto
    then show ?thesis using False py_int_Fin by (auto simp: eq)
  next
    case True
    then consider u where "usable = Fin u" "0 < u" | "usable = PInf" by (cases usable) (auto simp: limit_def)
    then show ?thesis
    proof cases
      case 1
      have "u < float_limit" using 1(1) unfolding usable_def Let_def by (rule fmul_limit)
      then have "u / b \<le> 2 ^ 1024 / 1024" using b(2) 1(2) by (intro frac_le) (auto simp: float_limit_def)
      also have "(2 :: rat) ^ 1024 / 1024 = 2 ^ (1024 - 10)" by (subst power_diff) simp_all
      also have "\<dots> \<le> 2 ^ 1020" by (rule power_increasing) simp_all
      finally have "\<exists>y. to_float (u / b) = Fin y \<and> u / b * 3 / 4 - 1 \<le> y" using 1(2) b(2) by (intro to_float_finite) auto
      moreover have "fdiv usable (Fin b) = Some (to_float (u / b))" using 1 b(2) by (simp add: fdiv_def)
      ultimately show ?thesis using True py_int_Fin by (auto simp: eq b(1))
    next
      case 2
      have "c \<ge> 0" if "f_of_int (size_of features) = Fin c" for c
        using that round64_nonneg [of "of_int (size_of features)"]
        by (auto simp: f_of_int_def to_float_def Let_def size_of_def split: if_splits)
      then have "memory_samples profile ram ram_gb features \<noteq> Inr n"
        using 2 True by (cases "f_of_int (size_of features)") (auto simp: eq fdiv_def inf_of_sign_def py_int_def)
      then show ?thesis using assms(1) by contradiction
    qed
  qed
qed

lemma plan_batch_total:
  assumes "plan_batch records features profile ram ram_gb m requested = Inr b" and "width \<le> 2 ^ 64"
    and "mode = ''auto'' \<or> mode = ''manual'' \<and> 1 \<le> n"
  shows "\<exists>b'. plan_batch rows width profile ram ram_gb mode (Some n) = Inr b'"
proof -
  from assms(1) obtain cap samples where "dict_get profile profile_caps = Some cap"
    "memory_samples profile (clamp 10 95 ram) ram_gb features = Inr samples"
    by (auto simp: plan_batch_def if_Inl_eq bind_result_eq_Inr split: option.splits)
  with memory_samples_total [OF this(2) assms(2)] assms(3) show ?thesis by (auto simp: plan_batch_def Let_def)
qed

lemma effects_profile [simp]: "pk_profile (apply_effects p) = pk_profile p"
  by (simp add: apply_effects_def Let_def)

lemma override_profile [simp]: "pk_profile (apply_override kv p) = pk_profile p"
  by (cases kv; cases "snd kv") (auto simp: apply_override_def)

lemma custom_profile [simp]: "pk_profile (custom_policy n r base) = pk_profile base"
proof -
  have "pk_profile (fold apply_override ov p) = pk_profile p" for ov p by (induction ov arbitrary: p) simp_all
  then show ?thesis by (simp add: custom_policy_def)
qed

lemma builtin_profile:
  assumes "dict_get n builtin_packs = Some q" shows "(n, pk_profile q) \<in> set pack_profile"
proof -
  have "pk_profile careful_pack = ''low-memory''" "pk_profile balanced_pack = ''balanced''"
    "pk_profile throughput_pack = ''performance''" "pk_profile maximum_pack = ''workstation''"
    by (simp_all add: careful_pack_def balanced_pack_def throughput_pack_def maximum_pack_def)
  moreover have "(n, q) \<in> {(''careful'', careful_pack), (''balanced'', balanced_pack), (''throughput'', throughput_pack),
      (''maximum'', maximum_pack)}"
    using dict_get_Some_in [OF assms] by (simp add: builtin_packs_def)
  ultimately show ?thesis unfolding insert_iff empty_iff prod.inject by (elim disjE conjE) (simp_all add: pack_profile_def)
qed

text \<open>A pack name gives the profile of a built-in pack, its own when it is built in.\<close>

lemma legacy_profile_cases:
  assumes "resolve_algorithm_pack sv f v = Inr pk" and "legacy_profile_for_pack sv f pk = Inr prof"
  obtains b where "(b, prof) \<in> set pack_profile" and "dict_get pk builtin_packs \<noteq> None \<longrightarrow> b = pk"
proof -
  have r: "resolve_algorithm_pack sv f (Some pk) = Inr pk" by (rule resolve_algorithm_pack_idem [OF assms(1)])
  have n: "normalise_name pk = Inr pk" by (rule resolve_algorithm_pack_fixed [OF assms(1)])
  show ?thesis
  proof (cases "dict_get pk pack_profile")
    case (Some x)
    then have "x = prof" using assms(2) by (simp add: legacy_profile_for_pack_def r)
    with dict_get_Some_in [OF Some] show ?thesis by (intro that [of pk]) simp_all
  next
    case None
    then have custom: "dict_get pk builtin_packs = None" by (auto simp: pack_profile_def builtin_packs_def split: if_splits)
    obtain p where p: "get_pack sv f pk = Inr p" "prof = pk_profile p"
      using assms(2) by (auto simp: legacy_profile_for_pack_def r None bind_result_eq_Inr)
    from p(1) obtain rs where "(case dict_get pk rs of None \<Rightarrow> Inl KeyError
             | Some r \<Rightarrow> (case dict_get (pr_base r) builtin_packs of None \<Rightarrow> Inl KeyError
                  | Some base \<Rightarrow> Inr (apply_effects (custom_policy pk r base)))) = Inr p"
      unfolding get_pack_def n bind_result_simps custom option.case by (rule bind_result_InrE)
    then obtain r base where "dict_get (pr_base r) builtin_packs = Some base" "p = apply_effects (custom_policy pk r base)"
      by (cases "dict_get pk rs"; cases "dict_get (pr_base (the (dict_get pk rs))) builtin_packs") auto
    then have "(pr_base r, prof) \<in> set pack_profile" using builtin_profile p(2) by simp
    then show ?thesis using custom by (intro that [of "pr_base r"]) auto
  qed
qed

lemma profile_resolves:
  assumes "(b, prof) \<in> set pack_profile"
  shows "dict_get b builtin_packs \<noteq> None" "prof \<noteq> ''auto''" "resolve_algorithm_pack sv f (Some prof) = Inr b"
    "legacy_profile_for_pack sv f b = Inr prof" "b \<noteq> []" "prof \<noteq> []"
proof -
  have clean: "clean_name ''low-memory'' = ''low-memory''" "clean_name ''balanced'' = ''balanced''"
    "clean_name ''performance'' = ''performance''" "clean_name ''workstation'' = ''workstation''"
    by code_simp+
  show b: "dict_get b builtin_packs \<noteq> None" using assms by (auto simp: pack_profile_def builtin_packs_def)
  show "prof \<noteq> ''auto''" "b \<noteq> []" "prof \<noteq> []" using assms by (auto simp: pack_profile_def)
  show "resolve_algorithm_pack sv f (Some prof) = Inr b"
    using assms by (auto simp: pack_profile_def resolve_algorithm_pack_def or_string_def clean legacy_profile_pack_def)
  show "legacy_profile_for_pack sv f b = Inr prof"
    using assms by (auto simp: legacy_profile_for_pack_def resolve_builtin [OF b] pack_profile_def)
qed

lemma resolve_execution_idem:
  assumes "resolve_execution_target v hw = Inr ex" shows "resolve_execution_target (Some ex) hw = Inr ex"
proof -
  have "clean_name ''cpu'' = ''cpu''" "clean_name ''hybrid'' = ''hybrid''" by code_simp+
  then show ?thesis using assms
    by (auto simp: resolve_execution_target_def or_string_def Let_def split: if_splits)
qed

lemma resolve_contract_idem:
  assumes "resolve_training_contract x y backend t = Inr (a, f)" and "task \<in> set task_types"
  shows "resolve_training_contract a f backend task = Inr (a, f)"
proof -
  have "clean_name ''linear'' = ''linear''" "clean_name ''mlp'' = ''mlp''" "clean_name ''kernelyra-npz'' = ''kernelyra-npz''"
    by code_simp+
  then show ?thesis using assms by (auto simp: training_contract_exact task_types_def table_tasks_def)
qed

lemma adopt_plan_InrE:
  assumes "adopt_plan env p d = Inr q" and "tp_backend p \<noteq> ''auto''"
  obtains task contract split chunks where "task \<in> set (d_task_types d)" "tp_task p \<in> set (d_task_types d) \<longrightarrow> task = tp_task p"
    "q = p\<lparr>tp_target := Some (d_target d), tp_task := task, tp_records := d_records d,
              tp_features := d_features d, tp_contract := contract, tp_split := split, tp_chunks := chunks\<rparr>"
proof -
  from assms(1) obtain task backend order contract split chunks where
    t: "(if tp_task p \<in> set (d_task_types d) then Inr (tp_task p)
         else case d_task_types d of t # _ \<Rightarrow> Inr t | [] \<Rightarrow> Inl IndexError) = Inr task"
    and b: "select_backend (au_backends env) (tp_backend p) task order = Inr backend"
    and q: "q = p\<lparr>tp_target := Some (d_target d), tp_task := task, tp_backend := backend, tp_records := d_records d,
              tp_features := d_features d, tp_contract := contract, tp_split := split, tp_chunks := chunks\<rparr>"
    unfolding adopt_plan_def bind_result_eq_Inr Let_def by blast
  have "backend = tp_backend p" using b assms(2) by (auto simp: select_backend_def split: if_splits)
  moreover have "task \<in> set (d_task_types d)" "tp_task p \<in> set (d_task_types d) \<longrightarrow> task = tp_task p"
    using t by (auto split: if_splits list.splits)
  ultimately show ?thesis using q by (intro that [of task]) auto
qed

text \<open>The run configuration and the settings a run of the plan has.\<close>

definition planned_env :: "auto_env \<Rightarrow> dataset_info \<Rightarrow> string \<Rightarrow> rat \<Rightarrow> create_env" where
  "planned_env env d run_id now =
     \<lparr>ce_show = he_show (au_health env), ce_packs = au_packs env, ce_hardware = au_hw env, ce_dataset = Some d,
      ce_base_exists = False, ce_id = run_id, ce_now = now\<rparr>"

definition as_planned :: "training_plan \<Rightarrow> run_info \<Rightarrow> bool" where
  "as_planned p r \<longleftrightarrow> r_backend r = tp_backend p \<and> r_architecture r = tp_architecture p \<and> r_model_format r = tp_model_format p
     \<and> r_profile r = tp_profile p \<and> r_execution r = tp_execution p \<and> r_cpu r = tp_cpu p \<and> r_ram r = tp_ram p
     \<and> r_gpu r = tp_gpu p \<and> r_threads r = tp_threads p \<and> r_max_steps r = tp_max_steps p
     \<and> r_data_workers r = tp_workers p \<and> r_prefetch r = tp_prefetch p \<and> r_seed r = tp_seed p
     \<and> r_evaluation_interval r = tp_interval p \<and> r_min_improvement r = tp_min_improvement p
     \<and> r_degradation_margin r = tp_margin p \<and> r_early_stopping_patience r = tp_early_patience p
     \<and> r_hidden_layers r = tp_hidden p"

lemma created_run_settings:
  "r_model_format (created_run env c a f pr ex pk b cpu ram gpu th wk pf) = f"
  "r_profile (created_run env c a f pr ex pk b cpu ram gpu th wk pf) = pr"
  "r_algorithm_pack (created_run env c a f pr ex pk b cpu ram gpu th wk pf) = pk"
  "r_seed (created_run env c a f pr ex pk b cpu ram gpu th wk pf) = rc_seed c"
  "r_min_improvement (created_run env c a f pr ex pk b cpu ram gpu th wk pf) = rc_min_improvement c"
  "r_degradation_margin (created_run env c a f pr ex pk b cpu ram gpu th wk pf) = degradation_margin_of c"
  "r_hidden_layers (created_run env c a f pr ex pk b cpu ram gpu th wk pf) = rc_hidden_layers c"
  by (simp_all add: created_run_def) (simp_all add: run_new_def run_plan.defs run_info.defs)

lemma planned_facts:
  assumes "plan_training env src inspected overrides = Inr p"
  obtains b where "(b, tp_profile p) \<in> set pack_profile" "dict_get (tp_pack p) builtin_packs \<noteq> None \<longrightarrow> b = tp_pack p"
    "resolve_execution_target (Some (tp_execution p)) (au_hw env) = Inr (tp_execution p)"
    "\<forall>task \<in> set task_types.
       resolve_training_contract (tp_architecture p) (tp_model_format p) (tp_backend p) task = Inr (tp_architecture p, tp_model_format p)"
    "tp_backend p \<in> set backend_names" "tp_backend p \<noteq> ''auto''"
    "\<forall>d :: dataset_info. \<forall>mode \<in> {''auto'', ''manual''}. d_features d \<le> 2 ^ 64 \<longrightarrow> (\<exists>batch. plan_batch (d_records d) (d_features d) (tp_profile p) (tp_ram p) (ram_gb_of (au_hw env)) mode (Some (tp_batch p)) = Inr batch)"
    "10 \<le> tp_cpu p \<and> tp_cpu p \<le> 100 \<and> 10 \<le> tp_ram p \<and> tp_ram p \<le> 95 \<and> 0 \<le> tp_gpu p \<and> tp_gpu p \<le> 100
     \<and> (tp_execution p = ''cpu'' \<longrightarrow> tp_gpu p = 0) \<and> 1 \<le> tp_threads p \<and> tp_threads p \<le> detected_threads (au_hw env)"
    "\<exists>s. settings_ok (tp_task p) s \<and> tp_max_steps p = se_max_steps s \<and> tp_workers p = se_workers s \<and>
       tp_prefetch p = se_prefetch s \<and> tp_interval p = se_interval s \<and> tp_min_improvement p = se_min_improvement s \<and>
       tp_margin p = se_margin s \<and> tp_degradation_patience p = se_degradation_patience s \<and>
       tp_early_patience p = se_early_patience s \<and> tp_target_patience p = se_target_patience s"
proof -
  from assms obtain rv ins ch re batch shape s seed data where
    "resolve_settings env overrides = Inr rv" "inspected = Inr ins" "in_trainable ins"
    and ch: "plan_choice env ins (rv_values rv) (or_suggested (v_name ''target'' (rv_values rv)) (in_suggested ins)) = Inr ch"
    and re: "plan_reservation env (rv_values rv) ch = Inr re"
    and b: "plan_batch (snd (snd shape)) (fst shape) (ch_profile ch) (re_ram re) (ram_gb_of (au_hw env))
          (if v_int ''batch_size'' (rv_values rv) \<noteq> None then ''manual'' else ''auto'') (v_int ''batch_size'' (rv_values rv)) = Inr batch"
    and "s = settings_of (rv_values rv) ch (re_threads re)" and ok: "settings_ok (ch_task ch) s"
    and p: "p = plan_of (so_path src) (or_suggested (v_name ''target'' (rv_values rv)) (in_suggested ins)) ch re s seed batch shape
       (rv_sources rv) data" by (rule plan_training_InrE)
  from ch obtain order where "ch_task ch \<in> set task_types"
    and pk: "\<exists>v. resolve_algorithm_pack (he_show (au_health env)) (au_packs env) v = Inr (ch_pack ch)"
    and ex: "\<exists>v. resolve_execution_target v (au_hw env) = Inr (ch_execution ch)"
    and prof: "legacy_profile_for_pack (he_show (au_health env)) (au_packs env) (ch_pack ch) = Inr (ch_profile ch)"
    and be: "\<exists>b. select_backend (au_backends env) b (ch_task ch) order = Inr (ch_backend ch)"
    and co: "\<exists>a f. resolve_training_contract a f (ch_backend ch) (ch_task ch) = Inr (ch_architecture ch, ch_format ch)"
    by (rule plan_choice_InrE)
  have limits: "10 \<le> re_cpu re \<and> re_cpu re \<le> 100 \<and> 10 \<le> re_ram re \<and> re_ram re \<le> 95 \<and> 0 \<le> re_gpu re \<and> re_gpu re \<le> 100
     \<and> (ch_execution ch = ''cpu'' \<longrightarrow> re_gpu re = 0) \<and> 1 \<le> re_threads re \<and> re_threads re \<le> detected_threads (au_hw env)"
    using re unfolding plan_reservation_def Let_def if_Inl_eq bind_result_eq_Inr sum.inject by auto
  from pk prof obtain c where c: "(c, ch_profile ch) \<in> set pack_profile" "dict_get (ch_pack ch) builtin_packs \<noteq> None \<longrightarrow> c = ch_pack ch"
    by (metis legacy_profile_cases)
  have backend: "ch_backend ch \<in> {''native'', ''numpy'', ''torch'', ''tensorflow''}" using co by (auto dest!: contract_backend)
  show ?thesis
  proof (rule that [of c])
    show "(c, tp_profile p) \<in> set pack_profile" "dict_get (tp_pack p) builtin_packs \<noteq> None \<longrightarrow> c = tp_pack p"
      using c by (simp_all add: p)
    show "resolve_execution_target (Some (tp_execution p)) (au_hw env) = Inr (tp_execution p)"
      using ex by (auto simp: p resolve_execution_idem)
    show "\<forall>task \<in> set task_types.
       resolve_training_contract (tp_architecture p) (tp_model_format p) (tp_backend p) task = Inr (tp_architecture p, tp_model_format p)"
      using co by (auto simp: p intro: resolve_contract_idem)
    show "tp_backend p \<in> set backend_names" "tp_backend p \<noteq> ''auto''" using backend by (auto simp: p backend_names_def)
    show "\<forall>d :: dataset_info. \<forall>mode \<in> {''auto'', ''manual''}. d_features d \<le> 2 ^ 64 \<longrightarrow> (\<exists>batch.
        plan_batch (d_records d) (d_features d) (tp_profile p) (tp_ram p) (ram_gb_of (au_hw env)) mode (Some (tp_batch p)) = Inr batch)"
      using plan_batch_total [OF b] plan_batch_bounds(5) [OF b] by (simp add: p)
    show "10 \<le> tp_cpu p \<and> tp_cpu p \<le> 100 \<and> 10 \<le> tp_ram p \<and> tp_ram p \<le> 95 \<and> 0 \<le> tp_gpu p \<and> tp_gpu p \<le> 100
     \<and> (tp_execution p = ''cpu'' \<longrightarrow> tp_gpu p = 0) \<and> 1 \<le> tp_threads p \<and> tp_threads p \<le> detected_threads (au_hw env)"
      using limits by (simp add: p)
    show "\<exists>s. settings_ok (tp_task p) s \<and> tp_max_steps p = se_max_steps s \<and> tp_workers p = se_workers s \<and>
       tp_prefetch p = se_prefetch s \<and> tp_interval p = se_interval s \<and> tp_min_improvement p = se_min_improvement s \<and>
       tp_margin p = se_margin s \<and> tp_degradation_patience p = se_degradation_patience s \<and>
       tp_early_patience p = se_early_patience s \<and> tp_target_patience p = se_target_patience s"
      using ok by (simp add: p) blast
  qed
qed

definition planned_batch_mode :: "pydict \<Rightarrow> string" where
  "planned_batch_mode overrides =
     (case dict_get ''batch_size'' overrides of Some v \<Rightarrow> if v = VNone then ''auto'' else ''manual'' | None \<Rightarrow> ''auto'')"

lemma plan_batch_auto:
  "plan_batch records features profile ram ram_gb ''auto'' (Some n) = plan_batch records features profile ram ram_gb ''auto'' None"
  by (cases "dict_get profile profile_caps") (simp_all add: plan_batch_def Let_def)

lemma planned_run:
  assumes "plan_training env src inspected overrides = Inr p" and "adopt_plan env p d = Inr q"
    and tasks: "set (d_task_types d) \<subseteq> set task_types" and width: "d_features d \<le> 2 ^ 64"
  obtains b batch r where "(b, tp_profile p) \<in> set pack_profile" "dict_get (tp_pack p) builtin_packs \<noteq> None \<longrightarrow> b = tp_pack p"
    "plan_batch (d_records d) (d_features d) (tp_profile p) (tp_ram p) (ram_gb_of (au_hw env)) (planned_batch_mode overrides)
       (Some (tp_batch p)) = Inr batch"
    "create_run (planned_env env d run_id now) (run_config_of q d overrides name model) = Inr r"
    "as_planned p r" "r_algorithm_pack r = b" "r_batch_size r = bp_applied batch"
proof -
  let ?w = "planned_env env d run_id now" and ?c = "run_config_of q d overrides name model" and ?sv = "he_show (au_health env)"
  from assms(1) obtain b where b: "(b, tp_profile p) \<in> set pack_profile" "dict_get (tp_pack p) builtin_packs \<noteq> None \<longrightarrow> b = tp_pack p"
    and ex: "resolve_execution_target (Some (tp_execution p)) (au_hw env) = Inr (tp_execution p)"
    and co: "\<forall>task \<in> set task_types.
       resolve_training_contract (tp_architecture p) (tp_model_format p) (tp_backend p) task = Inr (tp_architecture p, tp_model_format p)"
    and be: "tp_backend p \<in> set backend_names" "tp_backend p \<noteq> ''auto''"
    and bt: "\<forall>d :: dataset_info. \<forall>mode \<in> {''auto'', ''manual''}. d_features d \<le> 2 ^ 64 \<longrightarrow> (\<exists>batch. plan_batch (d_records d) (d_features d) (tp_profile p) (tp_ram p) (ram_gb_of (au_hw env)) mode (Some (tp_batch p)) = Inr batch)"
    and lim: "10 \<le> tp_cpu p \<and> tp_cpu p \<le> 100 \<and> 10 \<le> tp_ram p \<and> tp_ram p \<le> 95 \<and> 0 \<le> tp_gpu p \<and> tp_gpu p \<le> 100
     \<and> (tp_execution p = ''cpu'' \<longrightarrow> tp_gpu p = 0) \<and> 1 \<le> tp_threads p \<and> tp_threads p \<le> detected_threads (au_hw env)"
    and se: "\<exists>s. settings_ok (tp_task p) s \<and> tp_max_steps p = se_max_steps s \<and> tp_workers p = se_workers s \<and>
       tp_prefetch p = se_prefetch s \<and> tp_interval p = se_interval s \<and> tp_min_improvement p = se_min_improvement s \<and>
       tp_margin p = se_margin s \<and> tp_degradation_patience p = se_degradation_patience s \<and>
       tp_early_patience p = se_early_patience s \<and> tp_target_patience p = se_target_patience s"
    by (rule planned_facts)
  from assms(2) be(2) obtain task contract split chunks where task: "task \<in> set (d_task_types d)"
    and "tp_task p \<in> set (d_task_types d) \<longrightarrow> task = tp_task p"
    and q: "q = p\<lparr>tp_target := Some (d_target d), tp_task := task, tp_records := d_records d,
              tp_features := d_features d, tp_contract := contract, tp_split := split, tp_chunks := chunks\<rparr>"
    by (rule adopt_plan_InrE)
  note prof = profile_resolves [OF b(1)]
  obtain batch where batch: "plan_batch (d_records d) (d_features d) (tp_profile p) (tp_ram p) (ram_gb_of (au_hw env))
      (planned_batch_mode overrides) (Some (tp_batch p)) = Inr batch"
  proof -
    have "planned_batch_mode overrides \<in> {''auto'', ''manual''}" by (simp add: planned_batch_mode_def split: option.split)
    then show thesis using bt width that by blast
  qed
  obtain base where base: "dict_get b builtin_packs = Some base" using prof(1) by blast
  then have "get_pack ?sv (au_packs env) b = Inr (apply_effects base)" by (simp add: get_pack_def normalise_builtin)
  then obtain choice where choice: "execution_policy ?sv (au_packs env) (Some (tp_profile p)) (au_hw env) (Some (tp_execution p)) (Some b)
      = Inr choice"
    by (simp add: execution_policy_def prof(5) resolve_builtin [OF prof(1)] ex)
  have in_tasks: "task \<in> set task_types" using task tasks by blast
  have ram: "clamp 10 95 (tp_ram p) = tp_ram p" "clamp 10 100 (tp_cpu p) = tp_cpu p" "clamp 0 100 (tp_gpu p) = tp_gpu p"
    using lim by (simp_all add: clamp_def)
  have mode: "rc_batch_mode ?c = planned_batch_mode overrides" by (simp add: run_config_of_def planned_batch_mode_def)
  have cfg: "rc_objective ?c = task" "rc_backend ?c = tp_backend p" "rc_architecture ?c = tp_architecture p"
    "rc_model_format ?c = tp_model_format p" "rc_profile ?c = tp_profile p" "rc_execution ?c = tp_execution p" "rc_ram ?c = Some (tp_ram p)"
    "rc_cpu ?c = Some (tp_cpu p)" "rc_gpu ?c = Some (tp_gpu p)" "rc_threads ?c = Some (tp_threads p)" "rc_batch_size ?c = Some (tp_batch p)"
    "rc_accept_batch_risk ?c" "rc_priority ?c = ''normal''" "rc_base_run_id ?c = None" "rc_data_workers ?c = Some (tp_workers p)"
    "rc_prefetch ?c = Some (tp_prefetch p)" "rc_degradation_margin ?c = Some (tp_margin p)" "rc_max_steps ?c = tp_max_steps p"
    "rc_seed ?c = tp_seed p" "rc_evaluation_interval ?c = tp_interval p" "rc_min_improvement ?c = tp_min_improvement p"
    "rc_degradation_patience ?c = tp_degradation_patience p" "rc_early_stopping_patience ?c = tp_early_patience p"
    "rc_target_patience ?c = tp_target_patience p" "rc_hidden_layers ?c = tp_hidden p"
    by (simp_all add: run_config_of_def q)
  have res: "resolve_run ?w ?c = Inr (tp_architecture p, tp_model_format p, b, tp_execution p, tp_profile p, choice, batch)"
    using be(1) task in_tasks batch choice ex
    by (simp add: resolve_run_def cfg mode planned_env_def backend_task_types_def co prof ram default_int_def key_error_InrD
        key_error_to_configuration_def)
  have ev: "evaluation_settings_ok ?c (degradation_margin_of ?c)"
    using se by (auto simp: evaluation_settings_ok_def degradation_margin_of_def cfg settings_ok_def)
  have hw: "ce_hardware ?w = au_hw env" by (simp add: planned_env_def)
  have run: "create_run ?w ?c = Inr (created_run ?w ?c (tp_architecture p) (tp_model_format p) (tp_profile p) (tp_execution p) b batch
      (tp_cpu p) (tp_ram p) (tp_gpu p) (tp_threads p) (tp_workers p) (tp_prefetch p))"
    using ev lim by (simp add: create_run_def res cfg default_int_def ram hw Let_def)
  have range: "clamp 0 64 (tp_workers p) = tp_workers p" "clamp 0 32 (tp_prefetch p) = tp_prefetch p"
    "clamp 1 10000000 (tp_max_steps p) = tp_max_steps p"
    using se by (auto simp: settings_ok_def clamp_def)
  show ?thesis
    by (rule that [OF b batch run]) (simp_all add: as_planned_def created_run_settings cfg range degradation_margin_of_def)
qed

text \<open>From a plan to a run: when the data set has been imported and adopted, creation never fails, and the run has the planned
  backend, architecture, format, profile, execution, reservation, threads, limits and evaluation settings. Table tasks and a width below
  \<open>2 ^ 64\<close> are what the ingestors deliver.\<close>

theorem planned_run_is_created:
  assumes "plan_training env src inspected overrides = Inr p" and "adopt_plan env p d = Inr q"
    and "set (d_task_types d) \<subseteq> set task_types" and "d_features d \<le> 2 ^ 64"
  shows "\<exists>r. create_run (planned_env env d run_id now) (run_config_of q d overrides name model) = Inr r \<and> as_planned p r"
  by (rule planned_run [OF assms]) blast

text \<open>What a plan loses: a built-in pack is kept, a pack of the user is replaced by the built-in pack below it, and without an explicit
  batch size the run gets the recommended one, whatever the environment or the configuration asked for.\<close>

theorem planned_settings_lost:
  assumes "plan_training env src inspected overrides = Inr p" and "adopt_plan env p d = Inr q"
    and "set (d_task_types d) \<subseteq> set task_types" and "d_features d \<le> 2 ^ 64"
    and "create_run (planned_env env d run_id now) (run_config_of q d overrides name model) = Inr r"
  shows "(dict_get (tp_pack p) builtin_packs \<noteq> None \<longrightarrow> r_algorithm_pack r = tp_pack p)
     \<and> (dict_get (tp_pack p) builtin_packs = None \<longrightarrow> r_algorithm_pack r \<noteq> tp_pack p)
     \<and> (dict_get ''batch_size'' overrides = None \<longrightarrow>
          plan_batch (d_records d) (d_features d) (tp_profile p) (tp_ram p) (ram_gb_of (au_hw env)) ''auto'' None = Inr batch \<longrightarrow>
          r_batch_size r = bp_recommended batch)"
proof -
  obtain b bt r' where b: "(b, tp_profile p) \<in> set pack_profile" "dict_get (tp_pack p) builtin_packs \<noteq> None \<longrightarrow> b = tp_pack p"
    and bt: "plan_batch (d_records d) (d_features d) (tp_profile p) (tp_ram p) (ram_gb_of (au_hw env)) (planned_batch_mode overrides)
       (Some (tp_batch p)) = Inr bt"
    and "create_run (planned_env env d run_id now) (run_config_of q d overrides name model) = Inr r'"
    and "as_planned p r'" and r': "r_algorithm_pack r' = b" "r_batch_size r' = bp_applied bt"
    by (rule planned_run [OF assms(1-4)])
  then have "r' = r" using assms(5) by simp
  moreover have "dict_get b builtin_packs \<noteq> None" by (rule profile_resolves(1) [OF b(1)])
  moreover have "bp_applied bt = bp_recommended batch"
    if "planned_batch_mode overrides = ''auto''"
      "plan_batch (d_records d) (d_features d) (tp_profile p) (tp_ram p) (ram_gb_of (au_hw env)) ''auto'' None = Inr batch"
  proof -
    have "bt = batch" using bt [unfolded that(1) plan_batch_auto] that(2) by simp
    then show ?thesis using plan_batch_bounds(7) [OF that(2) refl] by simp
  qed
  ultimately show ?thesis using r' b(2) by (auto simp: planned_batch_mode_def)
qed

section \<open>A concrete plan\<close>

definition demo_auto :: auto_env where
  "demo_auto = \<lparr>au_health = demo_health, au_packs = write_registry [(''zeta'', pack_demo), (''mine'', pack_demo)],
     au_hw = \<lparr>hw_cpu_threads = 8, hw_ram_gb = Fin 1, hw_gpu_available = False\<rparr>, au_environ = [(''KERNELYRA_BATCH_SIZE'', ''64'')],
     au_config = Inr None, au_backends = [\<lparr>bk_name = ''native'', bk_available = True, bk_tasks = task_types\<rparr>]\<rparr>"

definition demo_source :: source_file where
  "demo_source = \<lparr>so_exists = True, so_dir = False, so_path = ''/d.csv'', so_suffix = ''.csv'', so_size = 2000, so_content = Inr []\<rparr>"

definition demo_shape :: inspection where
  "demo_shape = demo_inspection\<lparr>in_rows := 1000, in_shape := [1000, 10]\<rparr>"

definition demo_overrides :: pydict where
  "demo_overrides = [(''algorithm_pack'', VStr ''mine''), (''target_metric'', VFloat (Fin (1/2))), (''ram'', VInt 50), (''threads'', VInt 4),
     (''min_improvement'', VFloat (Fin 0)), (''degradation_margin'', VFloat (Fin 1)), (''accept_batch_risk'', VBool True)]"

lemma demo_configured: "config_values (au_config demo_auto) = Inr []"
  by (simp add: demo_auto_def config_values_def)

lemma demo_cleaned:
  "clean_name ''auto'' = ''auto''" "clean_name ''mine'' = ''mine''" "clean_name ''balanced'' = ''balanced''" "parse_int ''64'' = Some 64"
  by code_simp+

definition demo_values :: pydict where
  "demo_values =
     [(''target'', VNone), (''task'', VStr ''auto''), (''backend'', VStr ''auto''), (''architecture'', VStr ''auto''),
     (''model_format'', VStr ''auto''), (''profile'', VStr ''auto''), (''execution'', VStr ''auto''),
     (''algorithm_pack'', VStr ''mine''), (''batch_size'', VInt 64), (''max_steps'', VInt 1400), (''target_metric'',
     VFloat (Fin (1/2))), (''cpu'', VNone), (''ram'', VInt 50), (''gpu'', VNone), (''threads'', VInt 4), (''seed'',
     VInt 42), (''learning_rate'', VNone), (''weight_decay'', VFloat (Fin 0)), (''hidden_layers'', VNone),
     (''precision'', VStr ''auto''), (''data_workers'', VNone), (''prefetch'', VNone), (''evaluation_interval'',
     VNone), (''min_improvement'', VFloat (Fin 0)), (''degradation_margin'', VFloat (Fin 1)),
     (''degradation_patience'', VInt 3), (''early_stopping_patience'', VInt 18), (''target_patience'', VInt 3)]"

lemma demo_setting:
  "resolve_setting demo_auto [] demo_overrides (''target'', VNone) = Inr (''target'', VNone, ''automatic'')"
  "resolve_setting demo_auto [] demo_overrides (''task'', VStr ''auto'') = Inr (''task'', VStr ''auto'', ''automatic'')"
  "resolve_setting demo_auto [] demo_overrides (''backend'', VStr ''auto'') = Inr (''backend'', VStr ''auto'', ''automatic'')"
  "resolve_setting demo_auto [] demo_overrides (''architecture'', VStr ''auto'') = Inr (''architecture'', VStr ''auto'', ''automatic'')"
  "resolve_setting demo_auto [] demo_overrides (''model_format'', VStr ''auto'') = Inr (''model_format'', VStr ''auto'', ''automatic'')"
  "resolve_setting demo_auto [] demo_overrides (''profile'', VStr ''auto'') = Inr (''profile'', VStr ''auto'', ''automatic'')"
  "resolve_setting demo_auto [] demo_overrides (''execution'', VStr ''auto'') = Inr (''execution'', VStr ''auto'', ''automatic'')"
  "resolve_setting demo_auto [] demo_overrides (''algorithm_pack'', VStr ''balanced'') = Inr (''algorithm_pack'', VStr ''mine'', ''explicit'')"
  "resolve_setting demo_auto [] demo_overrides (''batch_size'', VNone) = Inr (''batch_size'', VInt 64, ''environment'')"
  "resolve_setting demo_auto [] demo_overrides (''max_steps'', VInt 1400) = Inr (''max_steps'', VInt 1400, ''automatic'')"
  "resolve_setting demo_auto [] demo_overrides (''target_metric'', VNone) = Inr (''target_metric'', VFloat (Fin (1/2)), ''explicit'')"
  "resolve_setting demo_auto [] demo_overrides (''cpu'', VNone) = Inr (''cpu'', VNone, ''automatic'')"
  "resolve_setting demo_auto [] demo_overrides (''ram'', VNone) = Inr (''ram'', VInt 50, ''explicit'')"
  "resolve_setting demo_auto [] demo_overrides (''gpu'', VNone) = Inr (''gpu'', VNone, ''automatic'')"
  "resolve_setting demo_auto [] demo_overrides (''threads'', VNone) = Inr (''threads'', VInt 4, ''explicit'')"
  "resolve_setting demo_auto [] demo_overrides (''seed'', VInt 42) = Inr (''seed'', VInt 42, ''automatic'')"
  "resolve_setting demo_auto [] demo_overrides (''learning_rate'', VNone) = Inr (''learning_rate'', VNone, ''automatic'')"
  "resolve_setting demo_auto [] demo_overrides (''weight_decay'', VFloat (Fin 0)) = Inr (''weight_decay'', VFloat (Fin 0), ''automatic'')"
  "resolve_setting demo_auto [] demo_overrides (''hidden_layers'', VNone) = Inr (''hidden_layers'', VNone, ''automatic'')"
  "resolve_setting demo_auto [] demo_overrides (''precision'', VStr ''auto'') = Inr (''precision'', VStr ''auto'', ''automatic'')"
  "resolve_setting demo_auto [] demo_overrides (''data_workers'', VNone) = Inr (''data_workers'', VNone, ''automatic'')"
  "resolve_setting demo_auto [] demo_overrides (''prefetch'', VNone) = Inr (''prefetch'', VNone, ''automatic'')"
  "resolve_setting demo_auto [] demo_overrides (''evaluation_interval'', VNone) = Inr (''evaluation_interval'', VNone, ''automatic'')"
  "resolve_setting demo_auto [] demo_overrides (''min_improvement'', x) = Inr (''min_improvement'', VFloat (Fin 0), ''explicit'')"
  "resolve_setting demo_auto [] demo_overrides (''degradation_margin'', VNone) = Inr (''degradation_margin'', VFloat (Fin 1), ''explicit'')"
  "resolve_setting demo_auto [] demo_overrides (''degradation_patience'', VInt 3) = Inr (''degradation_patience'', VInt 3, ''automatic'')"
  "resolve_setting demo_auto [] demo_overrides (''early_stopping_patience'', VInt 18) = Inr (''early_stopping_patience'', VInt 18, ''automatic'')"
  "resolve_setting demo_auto [] demo_overrides (''target_patience'', VInt 3) = Inr (''target_patience'', VInt 3, ''automatic'')"
  by code_simp+


lemma demo_resolve: "\<exists>sources. resolve_settings demo_auto demo_overrides = Inr \<lparr>rv_values = demo_values, rv_sources = sources\<rparr>"
  unfolding resolve_settings_def demo_configured setting_defaults_def demo_values_def
  by (simp only: bind_result_simps map_result.simps demo_setting list.map case_prod_conv) simp

lemma demo_get:
  "v_name ''target'' demo_values = []" "v_name ''task'' demo_values = ''auto''" "v_name ''profile'' demo_values = ''auto''"
  "v_name ''algorithm_pack'' demo_values = ''mine''" "v_name ''execution'' demo_values = ''auto''" "v_name ''backend'' demo_values = ''auto''"
  "v_name ''architecture'' demo_values = ''auto''" "v_name ''model_format'' demo_values = ''auto''" "v_name ''precision'' demo_values = ''auto''"
  "v_int ''cpu'' demo_values = None" "v_int ''ram'' demo_values = Some 50" "v_int ''gpu'' demo_values = None"
  "v_int ''threads'' demo_values = Some 4" "v_int ''batch_size'' demo_values = Some 64" "v_int ''data_workers'' demo_values = None"
  "v_int ''prefetch'' demo_values = None" "v_int ''seed'' demo_values = Some 42" "v_int ''max_steps'' demo_values = Some 1400"
  "v_int ''evaluation_interval'' demo_values = None" "v_int ''degradation_patience'' demo_values = Some 3"
  "v_int ''early_stopping_patience'' demo_values = Some 18" "v_int ''target_patience'' demo_values = Some 3"
  "v_layers ''hidden_layers'' demo_values = None" "v_float ''learning_rate'' demo_values = None"
  "v_float ''target_metric'' demo_values = Some (Fin (1/2))" "v_float ''weight_decay'' demo_values = Some (Fin 0)"
  "v_float ''min_improvement'' demo_values = Some (Fin 0)" "v_float ''degradation_margin'' demo_values = Some (Fin 1)"
  by code_simp+

lemma demo_pack:
  "resolve_algorithm_pack sv (au_packs demo_auto) (Some ''mine'') = Inr ''mine''"
  "get_pack sv (au_packs demo_auto) ''mine'' = Inr (apply_effects (custom_policy ''mine'' pack_demo balanced_pack))"
proof -
  have f: "au_packs demo_auto = write_registry [(''zeta'', pack_demo), (''mine'', pack_demo)]" by (simp add: demo_auto_def)
  obtain rs where rs: "read_registry sv (au_packs demo_auto) = Inr rs"
    "\<forall>n. dict_get n rs = dict_get n [(''zeta'', pack_demo), (''mine'', pack_demo)]"
    using pack_table_roundtrip [OF registry_demo_ok, of sv] unfolding f by blast
  have n: "normalise_name ''mine'' = Inr ''mine''" by (rule demo_names)
  show "resolve_algorithm_pack sv (au_packs demo_auto) (Some ''mine'') = Inr ''mine''"
    by (simp add: resolve_algorithm_pack_def or_string_def demo_cleaned legacy_profile_pack_def resolve_pack_name_def n builtin_packs_def rs)
  show "get_pack sv (au_packs demo_auto) ''mine'' = Inr (apply_effects (custom_policy ''mine'' pack_demo balanced_pack))"
    by (simp add: get_pack_def n rs builtin_packs_def) (simp add: pack_demo_def)
qed

definition demo_policy :: pack_policy where
  "demo_policy = apply_effects (custom_policy ''mine'' pack_demo balanced_pack)"

lemma demo_policy_fields:
  "pk_profile demo_policy = ''balanced''" "pk_cpu_backends demo_policy = cpu_order" "pk_hidden demo_policy = [64, 32]"
  "pk_data_workers demo_policy = 0" "pk_prefetch demo_policy = 1"
  by (simp_all add: demo_policy_def apply_effects_def custom_policy_def pack_demo_def apply_override_def balanced_pack_def)

definition demo_choice :: choice where
  "demo_choice = \<lparr>ch_task = ''multiclass_classification'', ch_pack = ''mine'', ch_execution = ''cpu'', ch_profile = ''balanced'',
     ch_policy = demo_policy, ch_backend = ''native'', ch_architecture = ''linear'', ch_format = ''kernelyra-npz''\<rparr>"

lemma demo_chosen: "plan_choice demo_auto demo_shape demo_values (Some ''y'') = Inr demo_choice"
proof -
  have task: "plan_task (au_health demo_auto) demo_shape demo_values (Some ''y'') = ''multiclass_classification''" by code_simp
  have ex: "resolve_execution_target (Some ''auto'') (au_hw demo_auto) = Inr ''cpu''"
    "resolve_execution_target (Some ''cpu'') (au_hw demo_auto) = Inr ''cpu''"
    by (simp_all add: resolve_execution_target_def or_string_def demo_clean demo_auto_def)
  have prof: "legacy_profile_for_pack sv (au_packs demo_auto) ''mine'' = Inr ''balanced''" for sv
    by (simp add: legacy_profile_for_pack_def demo_pack pack_profile_def demo_policy_fields flip: demo_policy_def)
  have pol: "execution_policy sv (au_packs demo_auto) (Some ''balanced'') (au_hw demo_auto) (Some ''cpu'') (Some ''mine'')
      = Inr \<lparr>pc_policy = demo_policy, pc_mode = ''mine'', pc_execution = ''cpu'', pc_backend_order = cpu_order\<rparr>" for sv
    by (simp add: execution_policy_def demo_pack ex demo_policy_fields flip: demo_policy_def)
  have be: "select_backend (au_backends demo_auto) ''auto'' ''multiclass_classification'' cpu_order = Inr ''native''" by code_simp
  have co: "resolve_training_contract ''auto'' ''auto'' ''native'' ''multiclass_classification'' = Inr (''linear'', ''kernelyra-npz'')"
    by (simp add: training_contract_exact demo_clean table_tasks_def)
  show ?thesis
    by (simp add: plan_choice_def task task_types_def demo_get demo_pack ex prof pol be co key_error_to_configuration_def demo_choice_def Let_def)
qed

lemma demo_planned: "\<exists>p. plan_training demo_auto demo_source (Inr demo_shape) demo_overrides = Inr p \<and> tp_pack p = ''mine''
     \<and> tp_task p = ''multiclass_classification'' \<and> tp_profile p = ''balanced'' \<and> tp_execution p = ''cpu'' \<and> tp_backend p = ''native''
     \<and> tp_batch p = 64 \<and> tp_ram p = 50"
proof -
  obtain sources where rs: "resolve_settings demo_auto demo_overrides = Inr \<lparr>rv_values = demo_values, rv_sources = sources\<rparr>"
    using demo_resolve by blast
  have re: "plan_reservation demo_auto demo_values demo_choice = Inr \<lparr>re_cpu = 70, re_ram = 50, re_gpu = 0, re_threads = 4\<rparr>"
    by (simp add: plan_reservation_def demo_get given_int_def demo_choice_def demo_auto_def detected_threads_def)
  have sh: "plan_shape (au_health demo_auto) demo_source demo_shape = Inr (10, 2000, 1000)"
    by (simp add: plan_shape_def demo_shape_def demo_inspection_def int_or_def)
  obtain batch where ba: "plan_batch 1000 10 ''balanced'' 50 (Fin 1) ''manual'' (Some 64) = Inr batch" and sz: "bp_applied batch = 64"
    by (simp add: plan_batch_def profile_caps_def clamp_def memory_demo Let_def manual_batch_def manual_applied_def train_records_of_def
        split: prod.splits if_splits)
  have ok: "settings_ok ''multiclass_classification'' (settings_of demo_values demo_choice 4)"
    by (simp add: settings_ok_def settings_of_def demo_get given_int_def given_float_def demo_choice_def demo_policy_fields precisions_def
        fle_def feq_def)
  obtain data where da: "plan_data (au_health demo_auto) demo_source demo_shape (Some ''y'') 42 demo_choice (10, 2000, 1000) = Inr data"
  proof -
    obtain a where a: "analyze_inspection (au_health demo_auto) demo_shape (Some ''y'') (Some 1000) (Some 10) 42
        (Some (pk_chunk_target demo_policy)) = Inr a"
    proof -
      have "he_core (au_health demo_auto) = None" by (simp add: demo_auto_def demo_health_def)
      from analyze_total [OF this] show thesis using that by blast
    qed
    then obtain chunks records features where "an_contract a = contract_of (au_health demo_auto) demo_shape
        (all_columns (he_show (au_health demo_auto)) demo_shape) (an_target a) (an_task a) (an_sampled a) records features chunks"
      by (rule analysis_InrE)
    note c = this
    define sp where "sp = split_policy (all_columns (he_show (au_health demo_auto)) demo_shape) (an_task a) (an_target a)"
    have fields: "dict_get ''chunk_policy'' (an_contract a) = Some (VDict chunks)"
      "dict_get ''split_policy'' (an_contract a) = Some (VDict sp)"
      unfolding c sp_def by (rule contract_fields)+
    obtain strategy where st: "dict_get ''strategy'' sp = Some (VStr strategy)"
      using split_policy_ok unfolding split_valid_def sp_def by blast
    have src: "\<not> so_dir demo_source" "so_suffix demo_source \<in> set stream_suffixes"
      by (simp_all add: demo_source_def stream_suffixes_def table_suffixes_def)
    have pol: "ch_policy demo_choice = demo_policy" by (simp add: demo_choice_def)
    have "\<exists>data. plan_data (au_health demo_auto) demo_source demo_shape (Some ''y'') 42 demo_choice (10, 2000, 1000) = Inr data"
      by (simp add: plan_data_def src pol a fields st Let_def)
    then show thesis using that by blast
  qed
  have ram: "ram_gb_of (au_hw demo_auto) = Fin 1" by (simp add: demo_auto_def ram_gb_of_def)
  have k: "set (dict_keys demo_overrides) \<subseteq> set known_options"
    by (simp add: demo_overrides_def dict_keys_def known_options_def setting_defaults_def)
  have accept: "dict_get ''accept_batch_risk'' demo_overrides = Some (VBool True)" by (simp add: demo_overrides_def)
  have src: "so_exists demo_source" "in_trainable demo_shape" "in_suggested demo_shape = Some ''y''"
    by (simp_all add: demo_source_def demo_shape_def demo_inspection_def)
  have ch: "ch_profile demo_choice = ''balanced''" "ch_task demo_choice = ''multiclass_classification''" by (simp_all add: demo_choice_def)
  show ?thesis
    using k src rs demo_chosen re sh ba ok da accept
    by (cases data) (simp add: plan_training_def or_suggested_def demo_get ram ch given_int_def Let_def, simp add: demo_choice_def sz)
qed

theorem plan_within_limits_witness:
  "\<exists>p. plan_training demo_auto demo_source (Inr demo_shape) demo_overrides = Inr p \<and> within_limits demo_auto p"
  using demo_planned plan_within_limits by blast

definition demo_imported :: dataset_info where
  "demo_imported = demo_dataset\<lparr>d_task_types := [''multiclass_classification''], d_manifest := [(''data_contract'', VDict [])]\<rparr>"

lemma demo_adopted:
  assumes "tp_task p = ''multiclass_classification''" "tp_profile p = ''balanced''" "tp_execution p = ''cpu''" "tp_backend p = ''native''"
    "tp_pack p = ''mine''"
  shows "\<exists>q. adopt_plan demo_auto p demo_imported = Inr q"
proof -
  have ex: "resolve_execution_target (Some ''cpu'') (au_hw demo_auto) = Inr ''cpu''"
    by (simp add: resolve_execution_target_def or_string_def demo_clean demo_auto_def)
  have be: "select_backend (au_backends demo_auto) ''native'' ''multiclass_classification'' order = Inr ''native''" for order
    by (simp add: select_backend_def supports_def backend_named_def demo_auto_def task_types_def)
  show ?thesis
    by (simp add: adopt_plan_def assms demo_imported_def demo_dataset_def execution_policy_def demo_pack ex be dict_or_def Let_def)
qed

lemma demo_tasks: "set (d_task_types demo_imported) \<subseteq> set task_types" "d_features demo_imported \<le> 2 ^ 64"
  by (simp_all add: demo_imported_def demo_dataset_def task_types_def)

theorem planned_run_is_created_witness:
  "\<exists>p q r. plan_training demo_auto demo_source (Inr demo_shape) demo_overrides = Inr p \<and> adopt_plan demo_auto p demo_imported = Inr q
     \<and> create_run (planned_env demo_auto demo_imported ''r7'' 1) (run_config_of q demo_imported demo_overrides ''d'' None) = Inr r
     \<and> as_planned p r"
proof -
  obtain p where p: "plan_training demo_auto demo_source (Inr demo_shape) demo_overrides = Inr p"
    and "tp_task p = ''multiclass_classification''" "tp_profile p = ''balanced''" "tp_execution p = ''cpu''" "tp_backend p = ''native''"
      "tp_pack p = ''mine''" using demo_planned by blast
  then obtain q where "adopt_plan demo_auto p demo_imported = Inr q" using demo_adopted by blast
  with planned_run_is_created [OF p this demo_tasks] p show ?thesis by blast
qed

text \<open>A pack of one's own and a batch size from the environment: the run gets \<open>balanced\<close> and the recommended batch.\<close>

theorem planned_settings_lost_witness:
  "\<exists>p q r. plan_training demo_auto demo_source (Inr demo_shape) demo_overrides = Inr p \<and> adopt_plan demo_auto p demo_imported = Inr q
     \<and> create_run (planned_env demo_auto demo_imported ''r7'' 1) (run_config_of q demo_imported demo_overrides ''d'' None) = Inr r
     \<and> tp_pack p = ''mine'' \<and> r_algorithm_pack r \<noteq> ''mine'' \<and> tp_batch p = 64 \<and> r_batch_size r \<le> 16"
proof -
  obtain p where p: "plan_training demo_auto demo_source (Inr demo_shape) demo_overrides = Inr p" "tp_batch p = 64" "tp_ram p = 50"
    and f: "tp_task p = ''multiclass_classification''" "tp_profile p = ''balanced''" "tp_execution p = ''cpu''" "tp_backend p = ''native''"
      "tp_pack p = ''mine''" using demo_planned by blast
  then obtain q where q: "adopt_plan demo_auto p demo_imported = Inr q" using demo_adopted by blast
  obtain r where r: "create_run (planned_env demo_auto demo_imported ''r7'' 1) (run_config_of q demo_imported demo_overrides ''d'' None) = Inr r"
    by (rule planned_run [OF p(1) q demo_tasks])
  have "recommended_batch 800 10 = 16" by (simp add: recommended_batch_def)
  moreover have "power_floor 16 = 16" using power_floor_power [of 3] by simp
  moreover have "br_recommended (batch_range_of c s t f) \<le> power_floor (recommended_batch t f)" for c s t f
    by (simp add: batch_range_of_def Let_def)
  ultimately have "br_recommended (batch_range_of 256 131072 800 10) \<le> 16" by metis
  moreover have "train_records_of 1000 = 800" by (simp add: train_records_of_def)
  ultimately obtain batch where b: "plan_batch 1000 10 ''balanced'' 50 (Fin 1) ''auto'' None = Inr batch" "bp_recommended batch \<le> 16"
    by (simp add: plan_batch_def profile_caps_def clamp_def memory_demo Let_def)
  have hw: "ram_gb_of (au_hw demo_auto) = Fin 1" by (simp add: demo_auto_def ram_gb_of_def)
  have d: "d_records demo_imported = 1000" "d_features demo_imported = 10" by (simp_all add: demo_imported_def demo_dataset_def)
  have "dict_get ''mine'' builtin_packs = None" by (simp add: builtin_packs_def)
  moreover have "dict_get ''batch_size'' demo_overrides = None" by (simp add: demo_overrides_def)
  ultimately show ?thesis
    using planned_settings_lost [OF p(1) q demo_tasks r, of batch] p q r f b by (auto simp: hw d)
qed

end
