(* ===== verification/Tabular.thy ===== *)
theory Tabular imports Auto begin

text \<open>
  Reading tables: \<open>src/src/kernelyra/ingestion/tabular.py\<close> with the JSONL, CSV and NPZ ingestors of the same
  folder. \<open>float\<close>, \<open>str\<close>, \<open>json.loads\<close>, the CSV reader, the archive reader, the native CSV core and the NumPy
  statistics are parameters. A finite float is its rational value. Text is ASCII.
\<close>

section \<open>The target\<close>

record numerics =
  nm_parse :: "string \<Rightarrow> pyfloat option"
  nm_show :: "pyval \<Rightarrow> string"
  nm_median :: "rat list \<Rightarrow> rat"
  nm_mean :: "rat list \<Rightarrow> rat"
  nm_std :: "rat list \<Rightarrow> rat"
  nm_scale :: "rat \<Rightarrow> rat \<Rightarrow> rat \<Rightarrow> pyfloat"

definition max_categories :: nat where
  "max_categories = 64"

definition min_rows :: nat where
  "min_rows = 40"

definition finite_value :: "(string \<Rightarrow> pyfloat option) \<Rightarrow> string \<Rightarrow> rat option" where
  "finite_value parse v =
     (let text = py_strip v in
      if text = [] then None else case parse text of Some (Fin q) \<Rightarrow> Some q | _ \<Rightarrow> None)"

text \<open>\<open>y\<close> is an array of class indices or of numbers.\<close>

datatype label_array = Codes "nat list" | Reals "rat list"

record target_info =
  ti_task :: string
  ti_labels :: label_array
  ti_classes :: "string list"
  ti_dtype :: string

definition position :: "'a \<Rightarrow> 'a list \<Rightarrow> nat" where
  "position x xs = length (takeWhile (\<lambda>y. y \<noteq> x) xs)"

definition whole :: "rat \<Rightarrow> bool" where
  "whole q \<longleftrightarrow> of_int \<lfloor>q\<rfloor> = q"

definition number_label :: "(pyval \<Rightarrow> string) \<Rightarrow> rat \<Rightarrow> string" where
  "number_label show q = (if whole q then show (VInt \<lfloor>q\<rfloor>) else show (VFloat (Fin q)))"

definition number_target :: "(pyval \<Rightarrow> string) \<Rightarrow> rat list \<Rightarrow> target_info" where
  "number_target show numbers =
     (let unique = sort (remdups numbers);
          classification_limit = max 20 (floor_sqrt (length numbers) + 1);
          encoded = Codes (map (\<lambda>v. position v unique) numbers)
      in if length unique = 2
         then \<lparr>ti_task = ''binary_classification'', ti_labels = encoded, ti_classes = map (number_label show) unique,
                ti_dtype = ''categorical''\<rparr>
         else if list_all whole unique \<and> 2 < length unique \<and> length unique \<le> classification_limit
         then \<lparr>ti_task = ''multiclass_classification'', ti_labels = encoded,
                ti_classes = map (\<lambda>v. show (VInt \<lfloor>v\<rfloor>)) unique, ti_dtype = ''categorical''\<rparr>
         else \<lparr>ti_task = ''regression'', ti_labels = Reals numbers, ti_classes = [], ti_dtype = ''number''\<rparr>)"

definition text_target :: "string list \<Rightarrow> kerror + target_info" where
  "text_target values =
     (let classes = sort (remdups values) in
      if length classes < 2 then Inl DatasetError
      else if max_categories < length classes then Inl DatasetError
      else Inr \<lparr>ti_task = (if length classes = 2 then ''binary_classification'' else ''multiclass_classification''),
                 ti_labels = Codes (map (\<lambda>v. position v classes) values), ti_classes = classes, ti_dtype = ''categorical''\<rparr>)"

definition task_and_target :: "(string \<Rightarrow> pyfloat option) \<Rightarrow> (pyval \<Rightarrow> string) \<Rightarrow> string list \<Rightarrow> kerror + target_info" where
  "task_and_target parse show values =
     (if list_all (\<lambda>v. finite_value parse v \<noteq> None) values
      then Inr (number_target show (List.map_filter (finite_value parse) values)) else text_target values)"

section \<open>Features\<close>

datatype tab_warning = EmptyColumn string | LeakedTarget string | ConstantColumn string

datatype transformation =
    Standardize string rat rat rat
  | OneHot string "string list"
  | NativeStandardize string rat rat
  | SourceStandardize

record feature =
  fe_name :: string
  fe_dtype :: string
  fe_nullable :: bool
  fe_width :: nat
  fe_transformation :: transformation
  fe_block :: "pyfloat list list"

datatype column_result = Dropped tab_warning | Feature feature

definition missing_text :: string where
  "missing_text = ''<missing>''"

definition one_hot :: "string list \<Rightarrow> string \<Rightarrow> pyfloat list" where
  "one_hot categories v = (replicate (length categories) (Fin 0))[position v categories := Fin 1]"

definition encode_numbers :: "numerics \<Rightarrow> string \<Rightarrow> rat option list \<Rightarrow> column_result" where
  "encode_numbers nm column parsed =
     (let present = List.map_filter id parsed; median = nm_median nm present;
          values = map (\<lambda>v. case v of None \<Rightarrow> median | Some x \<Rightarrow> x) parsed;
          mean = nm_mean nm values; std = nm_std nm values
      in if fle (Fin std) (to_float (1 / 10 ^ 12)) then Dropped (ConstantColumn column)
         else Feature \<lparr>fe_name = column, fe_dtype = ''number'', fe_nullable = (None \<in> set parsed), fe_width = 1,
                fe_transformation = Standardize column median mean std, fe_block = map (\<lambda>v. [nm_scale nm v mean std]) values\<rparr>)"

definition encode_categories :: "string \<Rightarrow> string list \<Rightarrow> kerror + column_result" where
  "encode_categories column raw_values =
     (let values = map (\<lambda>v. if v = [] then missing_text else v) raw_values; categories = sort (remdups values) in
      if length categories = 1 then Inr (Dropped (ConstantColumn column))
      else if max_categories < length categories then Inl DatasetError
      else Inr (Feature \<lparr>fe_name = column, fe_dtype = ''category'', fe_nullable = (missing_text \<in> set categories),
             fe_width = length categories, fe_transformation = OneHot column categories,
             fe_block = map (one_hot categories) values\<rparr>))"

definition encode_column :: "numerics \<Rightarrow> string list \<Rightarrow> string \<times> string list \<Rightarrow> kerror + column_result" where
  "encode_column nm targets column_values =
     (case column_values of (column, raw_values) \<Rightarrow>
        let nonempty = filter (\<lambda>v. v \<noteq> []) raw_values; parsed = map (finite_value (nm_parse nm)) raw_values;
            share = ratio (length (filter (\<lambda>v. v \<noteq> None) parsed)) (max 1 (length nonempty))
        in if nonempty = [] then Inr (Dropped (EmptyColumn column))
           else if list_all (\<lambda>(a, b). a = b) (zip raw_values targets) then Inr (Dropped (LeakedTarget column))
           else if fle (to_float (95/100)) share then Inr (encode_numbers nm column parsed)
           else encode_categories column raw_values)"

section \<open>\<open>prepare_rows\<close>\<close>

text \<open>A table is its columns, the rows the reader yields and the exception that ends it, if there is one.\<close>

type_synonym rows = "pydict list \<times> kerror option"

record prepared =
  pr_target :: string
  pr_info :: target_info
  pr_skipped :: nat
  pr_features :: "feature list"
  pr_warnings :: "tab_warning list"
  pr_rows :: nat
  pr_x :: "pyfloat list list"

definition normal_row :: "(pyval \<Rightarrow> string) \<Rightarrow> string list \<Rightarrow> pydict \<Rightarrow> row" where
  "normal_row show columns raw = map (\<lambda>c. (c, cell_text show c raw)) columns"

definition kept_rows :: "(pyval \<Rightarrow> string) \<Rightarrow> string list \<Rightarrow> string \<Rightarrow> pydict list \<Rightarrow> row list" where
  "kept_rows show columns target raws = filter (\<lambda>r. cell target r \<noteq> []) (map (normal_row show columns) raws)"

definition target_of :: "string list \<Rightarrow> string option \<Rightarrow> string" where
  "target_of columns target = (case target of Some t \<Rightarrow> if t = [] then last columns else t | None \<Rightarrow> last columns)"

definition table_x :: "nat \<Rightarrow> feature list \<Rightarrow> pyfloat list list" where
  "table_x n features = map (\<lambda>i. concat (map (\<lambda>f. fe_block f ! i) features)) [0..<n]"

definition features_of :: "column_result list \<Rightarrow> feature list" where
  "features_of outs = List.map_filter (\<lambda>c. case c of Feature f \<Rightarrow> Some f | Dropped _ \<Rightarrow> None) outs"

definition warnings_of :: "column_result list \<Rightarrow> tab_warning list" where
  "warnings_of outs = List.map_filter (\<lambda>c. case c of Dropped w \<Rightarrow> Some w | Feature _ \<Rightarrow> None) outs"

definition prepare_rows :: "numerics \<Rightarrow> string list \<Rightarrow> rows \<Rightarrow> string option \<Rightarrow> kerror + prepared" where
  "prepare_rows nm columns table requested =
     (let target = target_of columns requested in
      if length columns < 2 then Inl DatasetError
      else if target \<notin> set columns then Inl DatasetError
      else case snd table of Some e \<Rightarrow> Inl e | None \<Rightarrow>
        let kept = kept_rows (nm_show nm) columns target (fst table); targets = map (cell target) kept in
        if length kept < min_rows then Inl DatasetError else
        bind_result (task_and_target (nm_parse nm) (nm_show nm) targets) (\<lambda>info.
        bind_result (map_result (\<lambda>c. encode_column nm targets (c, map (cell c) kept)) (filter (\<lambda>c. c \<noteq> target) columns)) (\<lambda>outs.
          let features = features_of outs; x = table_x (length kept) features in
          if features = [] then Inl DatasetError
          else if \<not> list_all (list_all isfinite) x then Inl DatasetError
          else Inr \<lparr>pr_target = target, pr_info = info, pr_skipped = length (fst table) - length kept, pr_features = features,
                 pr_warnings = warnings_of outs, pr_rows = length kept, pr_x = x\<rparr>)))"

text \<open>The metadata dictionary of a prepared data set.\<close>

definition transformation_dict :: "transformation \<Rightarrow> pydict" where
  "transformation_dict t = (case t of
      Standardize c median mean std \<Rightarrow> [(''column'', VStr c), (''kind'', VStr ''median_impute_standardize''),
        (''median'', VFloat (Fin median)), (''mean'', VFloat (Fin mean)), (''std'', VFloat (Fin std))]
    | OneHot c categories \<Rightarrow> [(''column'', VStr c), (''kind'', VStr ''one_hot''), (''categories'', VList (map VStr categories))]
    | NativeStandardize c mean std \<Rightarrow> [(''column'', VStr c), (''kind'', VStr ''native_standardize''), (''mean'', VFloat (Fin mean)), (''std'', VFloat (Fin std))]
    | SourceStandardize \<Rightarrow> [(''kind'', VStr ''standardize''), (''source'', VStr ''x'')])"

definition feature_dict :: "feature \<Rightarrow> pydict" where
  "feature_dict f = [(''name'', VStr (fe_name f)), (''dtype'', VStr (fe_dtype f)), (''nullable'', VBool (fe_nullable f))]
     @ (case fe_transformation f of OneHot _ categories \<Rightarrow> [(''categories'', VList (map VStr categories))] | _ \<Rightarrow> [])
     @ [(''encoded_features'', VInt (int (fe_width f)))]"

definition x_width :: "prepared \<Rightarrow> nat" where
  "x_width p = sum_list (map fe_width (pr_features p))"

definition schema_dict :: "prepared \<Rightarrow> pydict" where
  "schema_dict p = [(''columns'', VList (map (\<lambda>f. VDict (feature_dict f)) (pr_features p))), (''target'', VStr (pr_target p)),
     (''target_dtype'', VStr (ti_dtype (pr_info p))), (''task_types'', VList [VStr (ti_task (pr_info p))]),
     (''feature_count'', VInt (int (x_width p))), (''row_count'', VInt (int (pr_rows p)))]"

definition prepared_metadata :: "(tab_warning \<Rightarrow> string) \<Rightarrow> prepared \<Rightarrow> pydict" where
  "prepared_metadata text p = [(''records'', VInt (int (pr_rows p))), (''features'', VInt (int (x_width p))), (''target'', VStr (pr_target p)),
     (''classes'', VList (map VStr (ti_classes (pr_info p)))), (''skipped'', VInt (int (pr_skipped p))),
     (''task_types'', VList [VStr (ti_task (pr_info p))]), (''schema'', VDict (schema_dict p)),
     (''transformations'', VList (map (\<lambda>f. VDict (transformation_dict (fe_transformation f))) (pr_features p))),
     (''warnings'', VList (map (\<lambda>w. VStr (text w)) (pr_warnings p)))]"

section \<open>JSON lines\<close>

definition max_line :: nat where
  "max_line = 2 * 1024 * 1024"

definition flat :: "pydict \<Rightarrow> bool" where
  "flat d \<longleftrightarrow> list_all (\<lambda>(k, v). case v of VDict _ \<Rightarrow> False | VList _ \<Rightarrow> False | _ \<Rightarrow> True) d"

fun jsonl_rows :: "(string \<Rightarrow> pyval option) \<Rightarrow> string list \<Rightarrow> rows" where
  "jsonl_rows json [] = ([], None)"
| "jsonl_rows json (line # rest) =
     (if max_line < length line then ([], Some DatasetError)
      else if py_strip line = [] then jsonl_rows json rest
      else case json line of
          Some (VDict d) \<Rightarrow>
            if flat d then (case jsonl_rows json rest of (rs, e) \<Rightarrow> (d # rs, e)) else ([], Some DatasetError)
        | _ \<Rightarrow> ([], Some DatasetError))"

definition add_new :: "'a list \<Rightarrow> 'a list \<Rightarrow> 'a list" where
  "add_new old new = fold (\<lambda>k cs. if k \<in> set cs then cs else cs @ [k]) new old"

text \<open>The preview stops at twenty rows once there are two columns; an exception after that is never met.\<close>

fun jsonl_preview :: "rows \<Rightarrow> pydict list \<Rightarrow> string list \<Rightarrow> kerror + pydict list \<times> string list" where
  "jsonl_preview ([], None) preview columns = Inr (preview, columns)"
| "jsonl_preview ([], Some e) preview columns = Inl e"
| "jsonl_preview (r # rs, e) preview columns =
     (let columns' = add_new columns (dict_keys r); preview' = (if length preview < 20 then preview @ [r] else preview)
      in if 20 \<le> length preview' \<and> 2 \<le> length columns' then Inr (preview', columns') else jsonl_preview (rs, e) preview' columns')"

definition jsonl_inspect :: "(string \<Rightarrow> pyval option) \<Rightarrow> string list \<Rightarrow> kerror + string list \<times> string \<times> pydict list" where
  "jsonl_inspect json lines =
     bind_result (jsonl_preview (jsonl_rows json lines) [] []) (\<lambda>(preview, columns).
       if length columns < 2 then Inl DatasetError
       else Inr (columns, (case find (\<lambda>c. py_lower c \<in> set target_names) columns of Some c \<Rightarrow> c | None \<Rightarrow> last columns), preview))"

fun fixed_schema :: "string list \<Rightarrow> rows \<Rightarrow> rows" where
  "fixed_schema columns ([], e) = ([], e)"
| "fixed_schema columns (r # rs, e) =
     (if \<not> set (dict_keys r) \<subseteq> set columns then ([], Some DatasetError)
      else case fixed_schema columns (rs, e) of (qs, e') \<Rightarrow> (r # qs, e'))"

definition jsonl_import :: "numerics \<Rightarrow> (string \<Rightarrow> pyval option) \<Rightarrow> string list \<Rightarrow> string option \<Rightarrow> kerror + prepared" where
  "jsonl_import nm json lines requested =
     (case jsonl_rows json lines of
        ([], None) \<Rightarrow> Inl DatasetError
      | ([], Some e) \<Rightarrow> Inl e
      | (first # rs, e) \<Rightarrow>
          let columns = dict_keys first in
          prepare_rows nm columns (case fixed_schema columns (rs, e) of (qs, e') \<Rightarrow> (first # qs, e')) requested)"

section \<open>CSV\<close>

text \<open>A row of the reader: a missing cell is \<open>None\<close>; cells beyond the header are not part of it.\<close>

type_synonym csv_row = "(string, string option) dict"

definition csv_sample :: "csv_row \<Rightarrow> row" where
  "csv_sample r = map (\<lambda>(k, v). (k, py_strip (case v of Some s \<Rightarrow> s | None \<Rightarrow> []))) (filter (\<lambda>(k, v). k \<noteq> []) r)"

record csv_inspection =
  ci_columns :: "string list"
  ci_numeric :: "string list"
  ci_candidates :: "string list"
  ci_suggested :: "string option"
  ci_sampled :: nat
  ci_preview :: "row list"

definition csv_numeric :: "(string \<Rightarrow> pyfloat option) \<Rightarrow> row list \<Rightarrow> string \<Rightarrow> bool" where
  "csv_numeric parse samples column \<longleftrightarrow> samples \<noteq> [] \<and>
     fle (to_float (95/100)) (ratio (length (filter (\<lambda>r. finite_value parse (cell column r) \<noteq> None) samples))
       (max 1 (length (filter (\<lambda>r. cell column r \<noteq> []) samples))))"

definition csv_candidate :: "(string \<Rightarrow> pyfloat option) \<Rightarrow> row list \<Rightarrow> string \<Rightarrow> bool" where
  "csv_candidate parse samples column \<longleftrightarrow>
     (let unique = length (remdups (filter (\<lambda>v. v \<noteq> []) (map (cell column) samples)))
      in 2 \<le> unique \<and> unique \<le> 64 \<or> csv_numeric parse samples column \<and> 2 < unique)"

definition csv_inspect :: "(string \<Rightarrow> pyfloat option) \<Rightarrow> string list \<Rightarrow> csv_row list \<Rightarrow> csv_inspection" where
  "csv_inspect parse columns reader =
     (let samples = map csv_sample (take 500 reader);
          candidates = filter (csv_candidate parse samples) columns;
          named = find (\<lambda>c. py_lower c \<in> set target_names) candidates;
          suggested = (case named of Some c \<Rightarrow> if c \<noteq> [] then Some c else None | None \<Rightarrow> None);
          suggested = (case suggested of Some c \<Rightarrow> Some c
                       | None \<Rightarrow> if columns \<noteq> [] \<and> last columns \<in> set candidates then Some (last columns) else None)
      in \<lparr>ci_columns = columns, ci_numeric = sort (remdups (filter (csv_numeric parse samples) columns)), ci_candidates = candidates,
          ci_suggested = (case suggested of Some c \<Rightarrow> if c \<noteq> [] then Some c else if columns = [] then None else Some (last columns)
                          | None \<Rightarrow> if columns = [] then None else Some (last columns)),
          ci_sampled = length samples, ci_preview = take 20 samples\<rparr>)"

text \<open>What the native core delivers, and the table made of it; \<open>None\<close> is its refusal.\<close>

record native_table =
  nt_rows :: nat
  nt_x :: "pyfloat list list"
  nt_y :: "rat list"
  nt_target :: string
  nt_names :: "string list"
  nt_means :: "rat list"
  nt_stds :: "rat list"

definition native_feature :: "native_table \<Rightarrow> nat \<Rightarrow> feature" where
  "native_feature n i = \<lparr>fe_name = nt_names n ! i, fe_dtype = ''number'', fe_nullable = False, fe_width = 1,
     fe_transformation = NativeStandardize (nt_names n ! i) (nt_means n ! i) (nt_stds n ! i), fe_block = map (\<lambda>r. [r ! i]) (nt_x n)\<rparr>"

definition native_target :: "(pyval \<Rightarrow> string) \<Rightarrow> rat list \<Rightarrow> target_info" where
  "native_target show raw_y =
     (let unique = sort (remdups raw_y); integer_like = list_all (\<lambda>v. v = of_int \<lfloor>v\<rfloor>) unique;
          classification_limit = max 20 (floor_sqrt (length raw_y) + 1)
      in if length unique = 2
         then \<lparr>ti_task = ''binary_classification'', ti_labels = Codes (map (\<lambda>v. position v unique) raw_y),
                ti_classes = map (\<lambda>v. if whole v then show (VInt \<lfloor>v\<rfloor>) else show (VFloat (Fin v))) unique, ti_dtype = ''categorical''\<rparr>
         else if integer_like \<and> 2 < length unique \<and> length unique \<le> classification_limit
         then \<lparr>ti_task = ''multiclass_classification'', ti_labels = Codes (map (\<lambda>v. position v unique) raw_y),
                ti_classes = map (\<lambda>v. show (VInt \<lfloor>v\<rfloor>)) unique, ti_dtype = ''categorical''\<rparr>
         else \<lparr>ti_task = ''regression'', ti_labels = Reals raw_y, ti_classes = [], ti_dtype = ''number''\<rparr>)"

definition csv_import ::
  "numerics \<Rightarrow> native_table option \<Rightarrow> bool \<Rightarrow> string list \<Rightarrow> rows \<Rightarrow> string option \<Rightarrow> kerror + prepared" where
  "csv_import nm native utf8 columns table requested =
     (case if utf8 then native else None of
        Some n \<Rightarrow> Inr \<lparr>pr_target = nt_target n, pr_info = native_target (nm_show nm) (nt_y n), pr_skipped = 0,
                   pr_features = map (native_feature n) [0..<length (nt_names n)], pr_warnings = [], pr_rows = nt_rows n, pr_x = nt_x n\<rparr>
      | None \<Rightarrow> prepare_rows nm columns table requested)"

section \<open>NPZ archives\<close>

record zip_entry =
  ze_parts :: "string list"
  ze_absolute :: bool
  ze_size :: nat
  ze_compressed :: nat

text \<open>The arrays as \<open>np.load\<close> gives them: shape and, when numeric, the values (\<open>None\<close> is not finite).\<close>

record npz_arrays =
  na_x :: "rat option list list"
  na_y :: "rat option list"
  na_x_dims :: nat
  na_y_dims :: nat
  na_width :: nat
  na_numeric :: bool

definition archive_ok :: "zip_entry list \<Rightarrow> bool" where
  "archive_ok entries \<longleftrightarrow>
     (let total_uncompressed = sum_list (map ze_size entries); total_compressed = sum_list (map (\<lambda>e. max 1 (ze_compressed e)) entries) in
      length entries \<le> 16 \<and> total_uncompressed \<le> 2 * 1024 ^ 3
      \<and> fle (ratio total_uncompressed (max 1 total_compressed)) (Fin 200)
      \<and> list_all (\<lambda>e. ''..'' \<notin> set (ze_parts e) \<and> \<not> ze_absolute e) entries)"

definition npz_load :: "zip_entry list option \<Rightarrow> npz_arrays option \<Rightarrow> kerror + rat list list \<times> rat list" where
  "npz_load archive arrays =
     (case archive of None \<Rightarrow> Inl DatasetError | Some entries \<Rightarrow>
      if \<not> archive_ok entries then Inl DatasetError else
      (case arrays of None \<Rightarrow> Inl DatasetError | Some a \<Rightarrow>
        if na_x_dims a \<noteq> 2 \<or> na_y_dims a \<noteq> 1 \<or> length (na_x a) \<noteq> length (na_y a) then Inl DatasetError
        else if length (na_x a) < min_rows \<or> na_width a < 1 then Inl DatasetError
        else if \<not> na_numeric a then Inl DatasetError
        else if None \<in> set (concat (na_x a)) \<or> None \<in> set (na_y a) then Inl DatasetError
        else Inr (map (List.map_filter id) (na_x a), List.map_filter id (na_y a))))"

text \<open>The width is that of the array, and a constant column is left out.\<close>

definition npz_feature :: "numerics \<Rightarrow> rat list list \<Rightarrow> nat \<Rightarrow> column_result" where
  "npz_feature nm x i =
     (let name = ''feature_'' @ nat_str i; values = map (\<lambda>r. r ! i) x; mean = nm_mean nm values; std = nm_std nm values in
      if \<not> flt (to_float (1 / 10 ^ 12)) (Fin std) then Dropped (ConstantColumn name)
      else Feature \<lparr>fe_name = name, fe_dtype = ''number'', fe_nullable = False, fe_width = 1,
             fe_transformation = SourceStandardize, fe_block = map (\<lambda>v. [nm_scale nm v mean std]) values\<rparr>)"

definition npz_import ::
  "numerics \<Rightarrow> zip_entry list option \<Rightarrow> npz_arrays option \<Rightarrow> string option \<Rightarrow> kerror + prepared" where
  "npz_import nm archive arrays requested =
     (if requested \<notin> {None, Some ''target'', Some ''y''} then Inl DatasetError else
      bind_result (npz_load archive arrays) (\<lambda>(x, y).
      bind_result (task_and_target (nm_parse nm) (nm_show nm) (map (\<lambda>v. nm_show nm (VFloat (Fin v))) y)) (\<lambda>info.
        let outs = map (npz_feature nm x) [0..<length (hd x)]; features = features_of outs in
        if features = [] then Inl DatasetError
        else Inr \<lparr>pr_target = ''target'', pr_info = info, pr_skipped = 0, pr_features = features, pr_warnings = warnings_of outs,
               pr_rows = length x, pr_x = table_x (length x) features\<rparr>)))"

section \<open>Class tables\<close>

lemma position_nth: "x \<in> set xs \<Longrightarrow> position x xs < length xs \<and> xs ! position x xs = x"
  unfolding position_def
proof
  assume x: "x \<in> set xs"
  then show "length (takeWhile (\<lambda>y. y \<noteq> x) xs) < length xs" by (induction xs) auto
  then show "xs ! length (takeWhile (\<lambda>y. y \<noteq> x) xs) = x" using nth_length_takeWhile [of "\<lambda>y. y \<noteq> x" xs] by simp
qed

lemma position_distinct: "distinct xs \<Longrightarrow> j < length xs \<Longrightarrow> position (xs ! j) xs = j"
  using position_nth [of "xs ! j" xs] nth_eq_iff_index_eq [of xs "position (xs ! j) xs" j] by simp

lemma map_filter_all:
  "list_all (\<lambda>v. f v \<noteq> None) vs \<Longrightarrow> List.map_filter f vs = map (\<lambda>v. the (f v)) vs"
  by (induction vs) (auto simp: map_filter_simps)

text \<open>What the labels of a target mean.\<close>

definition labels_decode :: "(string \<Rightarrow> pyfloat option) \<Rightarrow> (pyval \<Rightarrow> string) \<Rightarrow> target_info \<Rightarrow> string list \<Rightarrow> bool" where
  "labels_decode parse show info targets \<longleftrightarrow>
     (case ti_labels info of
        Codes cs \<Rightarrow> (\<forall>k \<in> set cs. k < length (ti_classes info)) \<and> map ((!) (ti_classes info)) cs =
          (if list_all (\<lambda>v. finite_value parse v \<noteq> None) targets
           then map (\<lambda>v. number_label show (the (finite_value parse v))) targets else targets)
      | Reals qs \<Rightarrow> map Some qs = map (finite_value parse) targets)"

lemma codes_decode:
  assumes "set vs \<subseteq> set classes"
  shows "(\<forall>k \<in> set (map (\<lambda>v. position v classes) vs). k < length classes)
    \<and> map ((!) (map f classes)) (map (\<lambda>v. position v classes) vs) = map f vs"
  using position_nth [of _ classes] assms by (auto simp: subset_iff)

lemma task_and_target_sound:
  assumes "task_and_target parse show targets = Inr info"
  shows "labels_decode parse show info targets" and "ti_task info \<in> set task_types"
proof -
  have "labels_decode parse show info targets \<and> ti_task info \<in> set task_types"
  proof (cases "list_all (\<lambda>v. finite_value parse v \<noteq> None) targets")
    case True
    define numbers where "numbers = map (\<lambda>v. the (finite_value parse v)) targets"
    define unique where "unique = sort (remdups numbers)"
    have info: "info = number_target show numbers"
      using assms True by (simp add: task_and_target_def numbers_def map_filter_all)
    have u: "set numbers \<subseteq> set unique" by (simp add: unique_def)
    have some: "map Some numbers = map (finite_value parse) targets"
      using True by (auto simp: numbers_def list_all_iff)
    have same: "map (\<lambda>v. show (VInt \<lfloor>v\<rfloor>)) unique = map (number_label show) unique" if "list_all whole unique"
      using that by (auto simp: number_label_def list_all_iff)
    have t: "map (\<lambda>v. number_label show (the (finite_value parse v))) targets = map (number_label show) numbers"
      by (simp add: numbers_def)
    show ?thesis
      using codes_decode [OF u, of "number_label show"] some same True
      by (auto simp: info number_target_def labels_decode_def task_types_def t Let_def simp flip: unique_def)
  next
    case False
    then have "text_target targets = Inr info" using assms by (simp add: task_and_target_def)
    then show ?thesis
      using codes_decode [of targets "sort (remdups targets)" id] False
      by (auto simp: text_target_def labels_decode_def task_types_def Let_def split: if_splits)
  qed
  then show "labels_decode parse show info targets" "ti_task info \<in> set task_types" by auto
qed

section \<open>Encoded columns\<close>

definition shown_value :: "string \<Rightarrow> string" where
  "shown_value v = (if v = [] then missing_text else v)"

text \<open>A block holds the standardised numbers, or one 1 per row, under the row's category.\<close>

definition block_decodes :: "numerics \<Rightarrow> feature \<Rightarrow> string list \<Rightarrow> bool" where
  "block_decodes nm f raws \<longleftrightarrow> length (fe_block f) = length raws \<and> (\<forall>b \<in> set (fe_block f). length b = fe_width f) \<and>
     (case fe_transformation f of
        OneHot _ categories \<Rightarrow> distinct categories \<and> fe_width f = length categories \<and> length categories \<le> max_categories
          \<and> (\<forall>i < length raws. shown_value (raws ! i) \<in> set categories
               \<and> (\<forall>j < length categories. fe_block f ! i ! j = (if categories ! j = shown_value (raws ! i) then Fin 1 else Fin 0)))
      | Standardize _ median mean std \<Rightarrow> fe_width f = 1 \<and> (\<forall>i < length raws. fe_block f ! i =
          [nm_scale nm (case finite_value (nm_parse nm) (raws ! i) of None \<Rightarrow> median | Some x \<Rightarrow> x) mean std])
      | _ \<Rightarrow> False)"

lemma one_hot_length [simp]: "length (one_hot categories v) = length categories"
  by (simp add: one_hot_def)

lemma one_hot_nth:
  assumes "distinct categories" "v \<in> set categories" "j < length categories"
  shows "one_hot categories v ! j = (if categories ! j = v then Fin 1 else Fin 0)"
proof -
  have p: "position v categories < length categories" "categories ! position v categories = v"
    using position_nth [OF assms(2)] by auto
  then show ?thesis
    using assms(1,3) position_distinct [OF assms(1,3)] by (auto simp: one_hot_def nth_list_update)
qed

lemma encode_categories_feature:
  assumes "encode_categories c raws = Inr (Feature f)" shows "fe_name f = c \<and> block_decodes nm f raws"
proof -
  define cats where "cats = sort (remdups (map shown_value raws))"
  have f: "f = \<lparr>fe_name = c, fe_dtype = ''category'', fe_nullable = (missing_text \<in> set cats), fe_width = length cats,
       fe_transformation = OneHot c cats, fe_block = map (one_hot cats) (map shown_value raws)\<rparr>" "length cats \<le> max_categories"
    using assms by (auto simp: encode_categories_def cats_def shown_value_def [abs_def] Let_def split: if_splits)
  have "distinct cats" "set cats = shown_value ` set raws" by (simp_all add: cats_def)
  then show ?thesis using f(2) by (auto simp: f(1) block_decodes_def one_hot_nth)
qed

lemma encode_numbers_feature:
  assumes "encode_numbers nm c (map (finite_value (nm_parse nm)) raws) = Feature f"
  shows "fe_name f = c \<and> block_decodes nm f raws"
  using assms by (auto simp: encode_numbers_def block_decodes_def Let_def split: if_splits)

lemma encode_column_feature:
  assumes "encode_column nm targets (c, raws) = Inr (Feature f)"
  shows "fe_name f = c \<and> block_decodes nm f raws \<and> \<not> list_all (\<lambda>(a, b). a = b) (zip raws targets)"
  using assms encode_categories_feature [of c raws f nm] encode_numbers_feature [of nm c raws f]
  by (auto simp: encode_column_def Let_def split: if_splits)

lemma map_result_in:
  "map_result g cs = Inr outs \<Longrightarrow> y \<in> set outs \<Longrightarrow> \<exists>c \<in> set cs. g c = Inr y"
  by (induction cs arbitrary: outs) (auto elim!: bind_result_InrE)

lemma features_of_in: "f \<in> set (features_of outs) \<longleftrightarrow> Feature f \<in> set outs"
  by (induction outs) (auto simp: features_of_def map_filter_simps split: column_result.splits)

lemma prepare_rows_InrE:
  assumes "prepare_rows nm columns table requested = Inr p"
  obtains kept targets outs where
    "kept = kept_rows (nm_show nm) columns (pr_target p) (fst table)" "targets = map (cell (pr_target p)) kept"
    "pr_target p = target_of columns requested" "pr_target p \<in> set columns" "snd table = None" "2 \<le> length columns" "min_rows \<le> length kept"
    "task_and_target (nm_parse nm) (nm_show nm) targets = Inr (pr_info p)"
    "map_result (\<lambda>c. encode_column nm targets (c, map (cell c) kept)) (filter (\<lambda>c. c \<noteq> pr_target p) columns) = Inr outs"
    "pr_features p = features_of outs" "pr_features p \<noteq> []" "pr_x p = table_x (length kept) (pr_features p)"
    "list_all (list_all isfinite) (pr_x p)" "pr_rows p = length kept" "pr_skipped p = length (fst table) - length kept"
    "pr_warnings p = warnings_of outs"
proof -
  obtain raws e where table: "table = (raws, e)" by (cases table)
  have e: "e = None" using assms by (auto simp: prepare_rows_def table Let_def split: if_splits option.splits)
  show ?thesis
    using assms unfolding prepare_rows_def table e Let_def if_Inl_eq bind_result_eq_Inr fst_conv snd_conv option.case
    by (elim conjE exE) (rule that [unfolded table e]; force)
qed

lemma kept_length: "length (kept_rows show columns target raws) \<le> length raws"
  by (simp add: kept_rows_def order_trans [OF length_filter_le])

lemma feature_sound:
  assumes "prepare_rows nm columns table requested = Inr p" and "f \<in> set (pr_features p)"
  shows "fe_name f \<in> set columns - {pr_target p}"
    and "block_decodes nm f (map (cell (fe_name f)) (kept_rows (nm_show nm) columns (pr_target p) (fst table)))"
    and "\<exists>r \<in> set (kept_rows (nm_show nm) columns (pr_target p) (fst table)). cell (fe_name f) r \<noteq> cell (pr_target p) r"
proof -
  from assms(1) obtain kept targets outs where k: "kept = kept_rows (nm_show nm) columns (pr_target p) (fst table)"
    and t: "targets = map (cell (pr_target p)) kept"
    and outs: "map_result (\<lambda>c. encode_column nm targets (c, map (cell c) kept)) (filter (\<lambda>c. c \<noteq> pr_target p) columns) = Inr outs"
    and fs: "pr_features p = features_of outs" by (rule prepare_rows_InrE)
  from map_result_in [OF outs, of "Feature f"] assms(2) obtain c where c: "c \<in> set columns" "c \<noteq> pr_target p"
    and e: "encode_column nm targets (c, map (cell c) kept) = Inr (Feature f)"
    by (auto simp: fs features_of_in)
  note f = encode_column_feature [OF e]
  show "fe_name f \<in> set columns - {pr_target p}" using f c by simp
  show "block_decodes nm f (map (cell (fe_name f)) (kept_rows (nm_show nm) columns (pr_target p) (fst table)))"
    using f by (simp add: k)
  have "zip (map (cell c) kept) targets = map (\<lambda>r. (cell c r, cell (pr_target p) r)) kept"
    by (simp add: t zip_map_map zip_same_conv_map)
  then show "\<exists>r \<in> set (kept_rows (nm_show nm) columns (pr_target p) (fst table)). cell (fe_name f) r \<noteq> cell (pr_target p) r"
    using f by (auto simp: list_all_iff k)
qed

lemma table_width:
  assumes "\<And>f. f \<in> set fs \<Longrightarrow> length (fe_block f) = n \<and> (\<forall>b \<in> set (fe_block f). length b = fe_width f)"
  shows "length (table_x n fs) = n \<and> (\<forall>r \<in> set (table_x n fs). length r = sum_list (map fe_width fs))"
proof -
  have "length (concat (map (\<lambda>f. fe_block f ! i) fs)) = sum_list (map fe_width fs)" if "i < n" for i
    using assms that by (induction fs) auto
  then show ?thesis by (auto simp: table_x_def)
qed

lemma prepared_sound:
  assumes "prepare_rows nm columns table requested = Inr p"
  shows "snd table = None \<and> pr_target p = target_of columns requested \<and> pr_target p \<in> set columns
     \<and> pr_rows p = length (kept_rows (nm_show nm) columns (pr_target p) (fst table)) \<and> pr_rows p + pr_skipped p = length (fst table)
     \<and> 40 \<le> pr_rows p \<and> length (pr_x p) = pr_rows p \<and> (\<forall>r \<in> set (pr_x p). length r = x_width p \<and> list_all isfinite r)
     \<and> pr_features p \<noteq> [] \<and> ti_task (pr_info p) \<in> set task_types
     \<and> labels_decode (nm_parse nm) (nm_show nm) (pr_info p)
         (map (cell (pr_target p)) (kept_rows (nm_show nm) columns (pr_target p) (fst table)))"
proof -
  from assms obtain kept targets outs where k: "kept = kept_rows (nm_show nm) columns (pr_target p) (fst table)"
    and t: "targets = map (cell (pr_target p)) kept"
    and a: "pr_target p = target_of columns requested" "pr_target p \<in> set columns" "snd table = None" "2 \<le> length columns" "min_rows \<le> length kept"
    and info: "task_and_target (nm_parse nm) (nm_show nm) targets = Inr (pr_info p)"
    and outs: "map_result (\<lambda>c. encode_column nm targets (c, map (cell c) kept)) (filter (\<lambda>c. c \<noteq> pr_target p) columns) = Inr outs"
    and fs: "pr_features p = features_of outs" "pr_features p \<noteq> []" and x: "pr_x p = table_x (length kept) (pr_features p)"
      "list_all (list_all isfinite) (pr_x p)" and n: "pr_rows p = length kept" "pr_skipped p = length (fst table) - length kept"
      "pr_warnings p = warnings_of outs" by (rule prepare_rows_InrE)
  have "length (fe_block f) = length kept \<and> (\<forall>b \<in> set (fe_block f). length b = fe_width f)" if "f \<in> set (pr_features p)" for f
    using feature_sound(2) [OF assms that] by (simp add: block_decodes_def flip: k)
  from table_width [OF this] have "length (pr_x p) = pr_rows p \<and> (\<forall>r \<in> set (pr_x p). length r = x_width p)"
    by (simp add: x n x_width_def)
  moreover have "length kept \<le> length (fst table)" by (simp add: k kept_length)
  ultimately show ?thesis
    using a n x(2) fs(2) task_and_target_sound [OF info] by (auto simp: k t min_rows_def list_all_iff)
qed

text \<open>C28: The prepared table is whole: it comes from a reader that did not fail, holds exactly the rows with a target (at least forty),
  every row of \<open>x\<close> has the announced width and is finite, the task is one of the three of the program, and the labels decode to the
  target of the row they stand for.\<close>

theorem prepared_table_sound:
  assumes "prepare_rows nm columns table requested = Inr p"
  shows "snd table = None \<and> pr_target p = target_of columns requested \<and> pr_target p \<in> set columns
     \<and> pr_rows p = length (kept_rows (nm_show nm) columns (pr_target p) (fst table)) \<and> pr_rows p + pr_skipped p = length (fst table)
     \<and> 40 \<le> pr_rows p \<and> length (pr_x p) = pr_rows p \<and> (\<forall>r \<in> set (pr_x p). length r = x_width p \<and> list_all isfinite r)
     \<and> pr_features p \<noteq> [] \<and> ti_task (pr_info p) \<in> set task_types
     \<and> labels_decode (nm_parse nm) (nm_show nm) (pr_info p)
         (map (cell (pr_target p)) (kept_rows (nm_show nm) columns (pr_target p) (fst table)))"
  by (rule prepared_sound [OF assms])


section \<open>Import and stream\<close>

definition collect :: "string \<Rightarrow> string list \<Rightarrow> string list" where
  "collect t u = (if length u \<le> 65 \<and> t \<notin> set u then u @ [t] else u)"

lemma add_value_numeric [simp]: "sc_target_numeric (fold (add_value parse r) cs s) = sc_target_numeric s"
proof -
  have "sc_target_numeric (add_value parse r c s) = sc_target_numeric s" for c s
    by (simp add: add_value_def split: option.split)
  then show ?thesis by (induction cs arbitrary: s) simp_all
qed

lemma consume_target:
  assumes "consume core digest parse columns target context numeric r s = Inr s'"
  shows "sc_unique s' = collect (py_strip (cell target r)) (sc_unique s)"
    and "sc_target_numeric s' \<longleftrightarrow> sc_target_numeric s \<and> number parse (py_strip (cell target r)) \<noteq> None"
    and "sc_count s' = sc_count s + 1"
  using assms by (auto simp: consume_def collect_def count_split_def Let_def split: if_splits split.splits)

lemma consume_all_target:
  "consume_all (consume core digest parse columns target context numeric) rows s = Inr s' \<Longrightarrow>
     sc_unique s' = fold collect (map (\<lambda>r. py_strip (cell target r)) rows) (sc_unique s)
     \<and> (sc_target_numeric s' \<longleftrightarrow> sc_target_numeric s \<and> (\<forall>r \<in> set rows. number parse (py_strip (cell target r)) \<noteq> None))
     \<and> sc_count s' = sc_count s + int (length rows)"
proof (induction rows arbitrary: s)
  case (Cons r rs)
  then obtain t where t: "consume core digest parse columns target context numeric r s = Inr t"
    and "consume_all (consume core digest parse columns target context numeric) rs t = Inr s'"
    by (auto elim!: bind_result_InrE)
  with Cons.IH [of t] consume_target [OF t] show ?case by auto
qed simp

lemma collect_all:
  "distinct u \<Longrightarrow> card (set u \<union> set ts) \<le> 65 \<Longrightarrow>
     distinct (fold collect ts u) \<and> set (fold collect ts u) = set u \<union> set ts"
proof (induction ts arbitrary: u)
  case (Cons t ts)
  have "card (set u) \<le> card (set u \<union> set (t # ts))" by (rule card_mono) auto
  then have "length u \<le> 65" using Cons.prems distinct_card [of u] by simp
  then have "distinct (collect t u)" "set (collect t u) = insert t (set u)" using Cons.prems(1) by (auto simp: collect_def)
  with Cons.IH [of "collect t u"] Cons.prems(2) show ?case by simp
qed simp

lemma is_integer_whole [simp]: "is_integer (Fin q) = whole q"
  by (simp add: whole_def)

lemma number_target_task:
  "ti_task (number_target show ns) =
     (if card (set ns) = 2 then ''binary_classification''
      else if list_all whole (sort (remdups ns)) \<and> 2 < card (set ns) \<and> card (set ns) \<le> max 20 (floor_sqrt (length ns) + 1)
      then ''multiclass_classification'' else ''regression'')"
  by (simp add: number_target_def length_remdups_card_conv Let_def)

text \<open>When the two readers see the same number in a text, and different numbers in different texts.\<close>

definition plain_targets :: "(string \<Rightarrow> pyfloat option) \<Rightarrow> string list \<Rightarrow> bool" where
  "plain_targets parse targets \<longleftrightarrow> (\<forall>v \<in> set targets. number parse v = map_option Fin (finite_value parse v))
     \<and> (\<forall>v \<in> set targets. \<forall>w \<in> set targets. finite_value parse v \<noteq> None \<longrightarrow> finite_value parse v = finite_value parse w \<longrightarrow> v = w)"

lemma task_cases:
  assumes plain: "plain_targets parse targets" and u: "distinct u" "set u = set targets"
    and s: "sc_unique s = u" "sc_target_numeric s \<longleftrightarrow> (\<forall>v \<in> set targets. number parse v \<noteq> None)" "sc_count s = int (length targets)"
  shows "2 \<le> card (set targets) \<Longrightarrow> card (set targets) \<le> 64 \<Longrightarrow>
       infer_task parse s = map_sum id ti_task (task_and_target parse show targets)"
    and "set targets = {v} \<Longrightarrow> finite_value parse v = Some q \<Longrightarrow> whole q \<Longrightarrow>
       infer_task parse s = Inr ''multiclass_classification'' \<and> map_sum id ti_task (task_and_target parse show targets) = Inr ''regression''"
proof -
  have len: "length u = card (set targets)" using u distinct_card by metis
  have numeric: "sc_target_numeric s \<longleftrightarrow> list_all (\<lambda>v. finite_value parse v \<noteq> None) targets"
    using plain by (auto simp: s(2) plain_targets_def list_all_iff)
  define numbers where "numbers = List.map_filter (finite_value parse) targets"
  have all: "numbers = map (\<lambda>v. the (finite_value parse v)) targets \<and> card (set numbers) = card (set targets) \<and> length numbers = length targets
      \<and> List.map_filter (number parse) u = map (\<lambda>v. Fin (the (finite_value parse v))) u"
    if "list_all (\<lambda>v. finite_value parse v \<noteq> None) targets"
  proof -
    have n: "numbers = map (\<lambda>v. the (finite_value parse v)) targets" using that by (simp add: numbers_def map_filter_all)
    have "inj_on (\<lambda>v. the (finite_value parse v)) (set targets)"
      using that plain unfolding plain_targets_def list_all_iff inj_on_def by (metis option.exhaust_sel)
    then have "card (set numbers) = card (set targets)" by (simp add: n card_image)
    moreover have "list_all (\<lambda>v. number parse v \<noteq> None) u"
      using that plain u(2) by (auto simp: plain_targets_def list_all_iff)
    then have "List.map_filter (number parse) u = map (\<lambda>v. the (number parse v)) u" by (rule map_filter_all)
    moreover have "the (number parse v) = Fin (the (finite_value parse v))" if "v \<in> set u" for v
      using \<open>list_all (\<lambda>v. finite_value parse v \<noteq> None) targets\<close> plain that u(2)
      by (auto simp: plain_targets_def list_all_iff)
    ultimately show ?thesis using n by simp
  qed
  have integers: "list_all is_integer (map (\<lambda>v. Fin (the (finite_value parse v))) u) \<longleftrightarrow>
      list_all whole (sort (remdups (map (\<lambda>v. the (finite_value parse v)) targets)))"
    by (simp add: list_all_iff u(2) whole_def)
  show "infer_task parse s = map_sum id ti_task (task_and_target parse show targets)"
    if "2 \<le> card (set targets)" "card (set targets) \<le> 64"
  proof (cases "list_all (\<lambda>v. finite_value parse v \<noteq> None) targets")
    case True
    have t: "task_and_target parse show targets = Inr (number_target show numbers)" using True by (simp add: task_and_target_def numbers_def)
    show ?thesis
      using all [OF True] that numeric integers True
      by (simp add: t number_target_task infer_task_def s len) (auto simp: Let_def)
  next
    case False
    then show ?thesis using that numeric
      by (simp add: infer_task_def s len task_and_target_def text_target_def max_categories_def length_remdups_card_conv Let_def)
  qed
  show "infer_task parse s = Inr ''multiclass_classification'' \<and> map_sum id ti_task (task_and_target parse show targets) = Inr ''regression''"
    if "set targets = {v}" "finite_value parse v = Some q" "whole q"
  proof -
    have all_numeric: "list_all (\<lambda>v. finite_value parse v \<noteq> None) targets" using that by (auto simp: list_all_iff)
    then have t: "task_and_target parse show targets = Inr (number_target show numbers)" by (simp add: task_and_target_def numbers_def)
    show ?thesis using all [OF all_numeric] that numeric u(2) all_numeric
      by (simp add: t number_target_task infer_task_def s len list_all_iff whole_def Let_def)
  qed
qed


text \<open>The two CSV paths read one target: what the native core delivers is labelled as the general reader labels the same numbers.\<close>

theorem native_target_agrees:
  assumes "list_all (\<lambda>v. finite_value parse v \<noteq> None) targets"
  shows "task_and_target parse show targets = Inr (native_target show (map (\<lambda>v. the (finite_value parse v)) targets))"
proof -
  have w: "(\<lambda>v. v = of_int \<lfloor>v\<rfloor>) = whole" by (auto simp: whole_def fun_eq_iff)
  have l: "(\<lambda>v. if whole v then show (VInt \<lfloor>v\<rfloor>) else show (VFloat (Fin v))) = number_label show"
    by (simp add: number_label_def fun_eq_iff)
  show ?thesis using assms
    by (simp only: task_and_target_def map_filter_all [OF assms] if_True number_target_def native_target_def w l Let_def)
qed

section \<open>JSON lines are read whole\<close>

lemma jsonl_rows_sound:
  "jsonl_rows json lines = (ds, e) \<Longrightarrow> (e = None \<or> e = Some DatasetError) \<and> list_all flat ds \<and>
     (e = None \<longrightarrow> map json (filter (\<lambda>l. py_strip l \<noteq> []) lines) = map (\<lambda>d. Some (VDict d)) ds)"
proof (induction lines arbitrary: ds)
  case (Cons line rest)
  obtain rs e' where r: "jsonl_rows json rest = (rs, e')" by fastforce
  show ?case
  proof (cases "max_line < length line \<or> py_strip line = []")
    case True
    then show ?thesis using Cons by (auto simp: r split: if_splits)
  next
    case False
    then show ?thesis using Cons.prems Cons.IH [of rs]
      by (auto simp: r split: option.splits pyval.splits if_splits)
  qed
qed simp

lemma fixed_schema_sound:
  "fixed_schema columns (rs, e) = (qs, e') \<Longrightarrow> e' = None \<Longrightarrow> e = None \<and> qs = rs \<and> (\<forall>r \<in> set rs. set (dict_keys r) \<subseteq> set columns)"
  by (induction columns "(rs, e)" arbitrary: rs qs rule: fixed_schema.induct) (auto split: if_splits prod.splits)

text \<open>C31: A JSONL import reads the whole file: every line that is not blank is a flat object whose keys are among those of the first, all
  of them are counted as rows or as skipped, and the target is a key of the first object.\<close>

theorem jsonl_import_reads_all:
  assumes "jsonl_import nm json lines requested = Inr p"
  shows "\<exists>first rs. map json (filter (\<lambda>l. py_strip l \<noteq> []) lines) = map (\<lambda>d. Some (VDict d)) (first # rs)
     \<and> (\<forall>d \<in> set (first # rs). flat d \<and> set (dict_keys d) \<subseteq> set (dict_keys first))
     \<and> pr_rows p + pr_skipped p = length (first # rs) \<and> pr_target p \<in> set (dict_keys first)"
proof -
  obtain first rs e where j: "jsonl_rows json lines = (first # rs, e)"
    using assms by (auto simp: jsonl_import_def split: prod.splits list.splits option.splits)
  obtain qs e' where f: "fixed_schema (dict_keys first) (rs, e) = (qs, e')" by fastforce
  have p: "prepare_rows nm (dict_keys first) (first # qs, e') requested = Inr p"
    using assms by (simp add: jsonl_import_def j f Let_def)
  obtain kept :: "row list" where "e' = None" and t: "pr_target p \<in> set (dict_keys first)"
    and k: "kept = kept_rows (nm_show nm) (dict_keys first) (pr_target p) (first # qs)" "pr_rows p = length kept"
      "pr_skipped p = length (first # qs) - length kept"
    by (rule prepare_rows_InrE [OF p]) simp
  with fixed_schema_sound [OF f] jsonl_rows_sound [OF j] show ?thesis
    using kept_length [of "nm_show nm" "dict_keys first" "pr_target p" "first # qs"]
    by (intro exI [of _ first] exI [of _ rs]) (auto simp: list_all_iff)
qed

text \<open>The suggestion of the inspection may be refused: it looks at the keys of all previewed objects, and a target that the first object
  does not have, which the inspection may well suggest, makes the import fail.\<close>

theorem late_target_refused:
  assumes "jsonl_inspect json lines = Inr (columns, suggested, preview)" and "jsonl_rows json lines = (first # rs, e)"
    and "suggested \<notin> set (dict_keys first)" and "suggested \<noteq> []"
  shows "jsonl_import nm json lines (Some suggested) = Inl DatasetError"
proof -
  obtain qs e' where "fixed_schema (dict_keys first) (rs, e) = (qs, e')" by fastforce
  then show ?thesis using assms by (simp add: jsonl_import_def prepare_rows_def target_of_def Let_def)
qed

section \<open>From the table to the data set and the run\<close>

lemma metadata_fields:
  "dict_get ''records'' (prepared_metadata text p) = Some (VInt (int (pr_rows p)))"
  "dict_get ''features'' (prepared_metadata text p) = Some (VInt (int (x_width p)))"
  "dict_get ''target'' (prepared_metadata text p) = Some (VStr (pr_target p))"
  "dict_get ''classes'' (prepared_metadata text p) = Some (VList (map VStr (ti_classes (pr_info p))))"
  "dict_get ''task_types'' (prepared_metadata text p) = Some (VList [VStr (ti_task (pr_info p))])"
  "dict_get ''skipped'' (prepared_metadata text p) = Some (VInt (int (pr_skipped p)))"
  by (simp_all add: prepared_metadata_def)

lemma encode_column_width:
  assumes "encode_column nm targets (c, raws) = Inr (Feature f)" shows "fe_width f \<le> 64"
  using assms by (auto simp: encode_column_def encode_categories_def encode_numbers_def max_categories_def Let_def split: if_splits)

lemma features_of_length: "length (features_of outs) \<le> length outs"
  by (induction outs) (auto simp: features_of_def map_filter_simps split: column_result.splits option.splits)

lemma sum_list_bound: "(\<And>x. x \<in> set xs \<Longrightarrow> f x \<le> (k::nat)) \<Longrightarrow> sum_list (map f xs) \<le> k * length xs"
  by (induction xs) (simp_all add: add_mono)

lemma prepared_width:
  assumes "prepare_rows nm columns table requested = Inr p" shows "x_width p \<le> 64 * length columns"
proof -
  from assms obtain kept targets outs where
    outs: "map_result (\<lambda>c. encode_column nm targets (c, map (cell c) kept)) (filter (\<lambda>c. c \<noteq> pr_target p) columns) = Inr outs"
    and fs: "pr_features p = features_of outs" by (rule prepare_rows_InrE)
  have "fe_width f \<le> 64" if "f \<in> set (pr_features p)" for f
    using map_result_in [OF outs, of "Feature f"] that encode_column_width by (auto simp: fs features_of_in)
  then have "x_width p \<le> 64 * length (pr_features p)" unfolding x_width_def by (rule sum_list_bound)
  moreover have "length (pr_features p) \<le> length columns"
    using map_result_length [OF outs] features_of_length [of outs] length_filter_le by (metis fs le_trans)
  ultimately show ?thesis by simp
qed

lemma registered_table:
  assumes "registered_info dm g c path dataset_id src kind h (prepared_metadata text p) = Inr d"
  shows "d_records d = int (pr_rows p)" and "d_features d = int (x_width p)" and "d_target d = pr_target p"
    and "d_classes d = ti_classes (pr_info p)" and "d_task_types d = [ti_task (pr_info p)]" and "d_skipped d = int (pr_skipped p)"
proof -
  have same: "dict_get k (dict_setdefault ''format'' v (prepared_metadata text p)) = dict_get k (prepared_metadata text p)"
    if "k \<noteq> ''format''" for k v
    using that by (simp add: dict_setdefault_def split: option.split)
  have strs: "List.map_filter (\<lambda>v. case v of VStr s \<Rightarrow> Some s | _ \<Rightarrow> None) (map VStr xs) = xs" for xs
    by (induction xs) (simp_all add: map_filter_simps)
  show "d_records d = int (pr_rows p)" "d_features d = int (x_width p)" "d_target d = pr_target p"
    "d_classes d = ti_classes (pr_info p)" "d_task_types d = [ti_task (pr_info p)]" "d_skipped d = int (pr_skipped p)"
    using assms strs [of "[ti_task (pr_info p)]"]
    by (auto simp: registered_info_def meta_str_def meta_int_def meta_strs_def same metadata_fields strs Let_def bind_result_eq_Inr)
qed


section \<open>A concrete table\<close>

definition demo_numerics :: numerics where
  "demo_numerics = \<lparr>nm_parse = (\<lambda>_. None), nm_show = (\<lambda>_. []), nm_median = (\<lambda>_. 0), nm_mean = (\<lambda>_. 0), nm_std = (\<lambda>_. 0),
     nm_scale = (\<lambda>v _ _. Fin v)\<rparr>"

definition demo_record :: "string \<Rightarrow> string \<Rightarrow> pydict" where
  "demo_record u y = [(''u'', VStr u), (''y'', VStr y)]"

definition demo_records :: "pydict list" where
  "demo_records = concat (replicate 20 [demo_record ''p'' ''a'', demo_record [] ''b'', demo_record ''q'' ''c'', demo_record ''q'' []])"

definition demo_kept :: "row list" where
  "demo_kept = concat (replicate 20 [[(''u'', ''p''), (''y'', ''a'')], [(''u'', []), (''y'', ''b'')], [(''u'', ''q''), (''y'', ''c'')]])"

lemma demo_kept_rows: "kept_rows (nm_show demo_numerics) [''u'', ''y''] ''y'' demo_records = demo_kept"
  unfolding demo_numerics_def by code_simp

lemma demo_table_columns: "map (cell ''y'') demo_kept = concat (replicate 20 [''a'', ''b'', ''c''])"
  "map (cell ''u'') demo_kept = concat (replicate 20 [''p'', [], ''q''])" "length demo_kept = 60" "length demo_records = 80"
  by code_simp+

lemma demo_target:
  "task_and_target (\<lambda>_. None) show (concat (replicate 20 [''a'', ''b'', ''c''])) = Inr \<lparr>ti_task = ''multiclass_classification'',
     ti_labels = Codes (concat (replicate 20 [0, 1, 2])), ti_classes = [''a'', ''b'', ''c''], ti_dtype = ''categorical''\<rparr>"
proof -
  have "\<not> list_all (\<lambda>v. finite_value (\<lambda>_. None) v \<noteq> None) (concat (replicate 20 [''a'', ''b'', ''c'']))"
    by (simp add: finite_value_def numeral_eq_Suc)
  moreover have "text_target (concat (replicate 20 [''a'', ''b'', ''c''])) = Inr \<lparr>ti_task = ''multiclass_classification'',
     ti_labels = Codes (concat (replicate 20 [0, 1, 2])), ti_classes = [''a'', ''b'', ''c''], ti_dtype = ''categorical''\<rparr>"
    by code_simp
  ultimately show ?thesis by (simp add: task_and_target_def)
qed

definition demo_feature :: feature where
  "demo_feature = \<lparr>fe_name = ''u'', fe_dtype = ''category'', fe_nullable = True, fe_width = 3,
     fe_transformation = OneHot ''u'' [missing_text, ''p'', ''q''],
     fe_block = concat (replicate 20 [[Fin 0, Fin 1, Fin 0], [Fin 1, Fin 0, Fin 0], [Fin 0, Fin 0, Fin 1]])\<rparr>"

lemma demo_encoded: "encode_column demo_numerics (map (cell ''y'') demo_kept) (''u'', map (cell ''u'') demo_kept) = Inr (Feature demo_feature)"
proof -
  have none: "filter (\<lambda>v. v \<noteq> None) (map (finite_value (nm_parse demo_numerics)) xs) = []" for xs
    by (induction xs) (simp_all add: finite_value_def demo_numerics_def)
  have zero: "\<not> fle (to_float (95/100)) (ratio 0 n)" for n
    by (simp add: ratio_def numeric_share_limit to_float_int [of 0, simplified] fle_def feq_def pow2_def)
  have "encode_categories ''u'' (concat (replicate 20 [''p'', [], ''q''])) = Inr (Feature demo_feature)"
    by code_simp
  moreover have "filter (\<lambda>v. v \<noteq> []) (concat (replicate 20 [''p'', [], ''q''])) \<noteq> []" by code_simp
  moreover have "\<not> list_all (\<lambda>(a, b). a = b) (zip (concat (replicate 20 [''p'', [], ''q''])) (concat (replicate 20 [''a'', ''b'', ''c''])))"
    by code_simp
  ultimately show ?thesis
    unfolding encode_column_def Let_def prod.case demo_table_columns none using zero by simp
qed

lemma demo_prepared: "\<exists>p. prepare_rows demo_numerics [''u'', ''y''] (demo_records, None) None = Inr p \<and> demo_feature \<in> set (pr_features p)
     \<and> pr_info p = \<lparr>ti_task = ''multiclass_classification'', ti_labels = Codes (concat (replicate 20 [0, 1, 2])),
         ti_classes = [''a'', ''b'', ''c''], ti_dtype = ''categorical''\<rparr> \<and> pr_target p = ''y'' \<and> pr_rows p = 60 \<and> pr_skipped p = 20"
proof -
  have t: "target_of [''u'', ''y''] None = ''y''" by (simp add: target_of_def)
  have m: "map_result (\<lambda>c. encode_column demo_numerics (map (cell ''y'') demo_kept) (c, map (cell c) demo_kept))
      (filter (\<lambda>c. c \<noteq> ''y'') [''u'', ''y'']) = Inr [Feature demo_feature]" by (simp add: demo_encoded)
  have i: "task_and_target (nm_parse demo_numerics) (nm_show demo_numerics) (map (cell ''y'') demo_kept) =
      Inr \<lparr>ti_task = ''multiclass_classification'', ti_labels = Codes (concat (replicate 20 [0, 1, 2])),
         ti_classes = [''a'', ''b'', ''c''], ti_dtype = ''categorical''\<rparr>"
    unfolding demo_table_columns by (simp add: demo_numerics_def demo_target)
  have f: "features_of [Feature demo_feature] = [demo_feature]" by (simp add: features_of_def map_filter_simps)
  have x: "list_all (list_all isfinite) (table_x 60 [demo_feature])" by code_simp
  show ?thesis
    using x unfolding prepare_rows_def Let_def t fst_conv snd_conv demo_kept_rows option.case i m
    by (simp add: f demo_table_columns min_rows_def)
qed

theorem prepared_table_sound_witness:
  "\<exists>p. prepare_rows demo_numerics [''u'', ''y''] (demo_records, None) None = Inr p \<and> pr_rows p + pr_skipped p = 80
     \<and> labels_decode (\<lambda>_. None) (\<lambda>_. []) (pr_info p) (concat (replicate 20 [''a'', ''b'', ''c'']))"
proof -
  obtain p where p: "prepare_rows demo_numerics [''u'', ''y''] (demo_records, None) None = Inr p" and t: "pr_target p = ''y''"
    using demo_prepared by blast
  from prepared_table_sound [OF p] p show ?thesis
    unfolding t fst_conv demo_kept_rows demo_table_columns by (auto simp: demo_numerics_def)
qed



theorem native_target_agrees_witness:
  "task_and_target (\<lambda>v. Some (Fin (of_nat (length v)))) (\<lambda>_. []) [''1'', ''22'', ''1''] = Inr (native_target (\<lambda>_. []) [1, 2, 1])"
proof -
  have s: "py_strip ''1'' = ''1''" "py_strip ''22'' = ''22''" by code_simp+
  show ?thesis
    using native_target_agrees [of "\<lambda>v. Some (Fin (of_nat (length v)))" "[''1'', ''22'', ''1'']" "\<lambda>_. []"]
    by (simp add: finite_value_def s)
qed

definition demo_json :: "string \<Rightarrow> pyval option" where
  "demo_json line = (if line = ''1'' then Some (VDict (demo_record ''p'' ''a'')) else if line = ''2'' then Some (VDict (demo_record [] ''b''))
     else if line = ''3'' then Some (VDict (demo_record ''q'' ''c'')) else if line = ''0'' then Some (VDict (demo_record ''q'' [])) else if line = ''4'' then Some (VDict [(''u'', VStr ''p'')])
     else if line = ''5'' then Some (VDict [(''u'', VStr ''p''), (''target'', VStr ''a'')]) else None)"

lemma jsonl_row:
  assumes "length line \<le> 100" "py_strip line \<noteq> []" "json line = Some (VDict d)" "flat d"
  shows "jsonl_rows json (line # rest) = (d # fst (jsonl_rows json rest), snd (jsonl_rows json rest))"
  using assms by (simp add: max_line_def split: prod.split)

lemma jsonl_blank: "length line \<le> 100 \<Longrightarrow> py_strip line = [] \<Longrightarrow> jsonl_rows json (line # rest) = jsonl_rows json rest"
  by (simp add: max_line_def)

lemma fixed_schema_same:
  "\<forall>r \<in> set rs. set (dict_keys r) \<subseteq> set columns \<Longrightarrow> fixed_schema columns (rs, e) = (rs, e)"
  by (induction rs) simp_all

lemma demo_lines:
  "jsonl_rows demo_json (''0'' # rest) = (demo_record ''q'' [] # fst (jsonl_rows demo_json rest), snd (jsonl_rows demo_json rest))"
  "jsonl_rows demo_json (''1'' # rest) = (demo_record ''p'' ''a'' # fst (jsonl_rows demo_json rest), snd (jsonl_rows demo_json rest))"
  "jsonl_rows demo_json (''2'' # rest) = (demo_record [] ''b'' # fst (jsonl_rows demo_json rest), snd (jsonl_rows demo_json rest))"
  "jsonl_rows demo_json (''3'' # rest) = (demo_record ''q'' ''c'' # fst (jsonl_rows demo_json rest), snd (jsonl_rows demo_json rest))"
  "jsonl_rows demo_json (''4'' # rest) = ([(''u'', VStr ''p'')] # fst (jsonl_rows demo_json rest), snd (jsonl_rows demo_json rest))"
  "jsonl_rows demo_json (''5'' # rest) =
     ([(''u'', VStr ''p''), (''target'', VStr ''a'')] # fst (jsonl_rows demo_json rest), snd (jsonl_rows demo_json rest))"
  "jsonl_rows demo_json ('' '' # rest) = jsonl_rows demo_json rest"
proof -
  have s: "py_strip ''0'' \<noteq> []" "py_strip ''1'' \<noteq> []" "py_strip ''2'' \<noteq> []" "py_strip ''3'' \<noteq> []" "py_strip ''4'' \<noteq> []" "py_strip ''5'' \<noteq> []"
    "py_strip '' '' = []" by code_simp+
  have j: "demo_json ''0'' = Some (VDict (demo_record ''q'' []))" "demo_json ''1'' = Some (VDict (demo_record ''p'' ''a''))"
    "demo_json ''2'' = Some (VDict (demo_record [] ''b''))" "demo_json ''3'' = Some (VDict (demo_record ''q'' ''c''))"
    "demo_json ''4'' = Some (VDict [(''u'', VStr ''p'')])" "demo_json ''5'' = Some (VDict [(''u'', VStr ''p''), (''target'', VStr ''a'')])"
    by (simp_all add: demo_json_def)
  have f: "flat (demo_record u y)" "flat [(''u'', VStr ''p'')]" "flat [(''u'', VStr ''p''), (''target'', VStr ''a'')]" for u y
    by (simp_all add: flat_def demo_record_def)
  show "jsonl_rows demo_json (''0'' # rest) = (demo_record ''q'' [] # fst (jsonl_rows demo_json rest), snd (jsonl_rows demo_json rest))"
    "jsonl_rows demo_json (''1'' # rest) = (demo_record ''p'' ''a'' # fst (jsonl_rows demo_json rest), snd (jsonl_rows demo_json rest))"
    "jsonl_rows demo_json (''2'' # rest) = (demo_record [] ''b'' # fst (jsonl_rows demo_json rest), snd (jsonl_rows demo_json rest))"
    "jsonl_rows demo_json (''3'' # rest) = (demo_record ''q'' ''c'' # fst (jsonl_rows demo_json rest), snd (jsonl_rows demo_json rest))"
    "jsonl_rows demo_json (''4'' # rest) = ([(''u'', VStr ''p'')] # fst (jsonl_rows demo_json rest), snd (jsonl_rows demo_json rest))"
    "jsonl_rows demo_json (''5'' # rest) =
       ([(''u'', VStr ''p''), (''target'', VStr ''a'')] # fst (jsonl_rows demo_json rest), snd (jsonl_rows demo_json rest))"
    "jsonl_rows demo_json ('' '' # rest) = jsonl_rows demo_json rest"
    by (rule jsonl_row jsonl_blank; (rule s j f | simp))+
qed

theorem late_target_refused_witness:
  "jsonl_inspect demo_json [''4'', ''5''] = Inr ([''u'', ''target''], ''target'', [[(''u'', VStr ''p'')], [(''u'', VStr ''p''), (''target'', VStr ''a'')]])
     \<and> jsonl_import demo_numerics demo_json [''4'', ''5''] (Some ''target'') = Inl DatasetError"
proof -
  have r: "jsonl_rows demo_json [''4'', ''5''] = ([[(''u'', VStr ''p'')], [(''u'', VStr ''p''), (''target'', VStr ''a'')]], None)"
    by (simp add: demo_lines del: jsonl_rows.simps(2))
  have l: "py_lower ''u'' = ''u''" "py_lower ''target'' = ''target''" by code_simp+
  have i: "jsonl_inspect demo_json [''4'', ''5''] =
      Inr ([''u'', ''target''], ''target'', [[(''u'', VStr ''p'')], [(''u'', VStr ''p''), (''target'', VStr ''a'')]])"
    unfolding jsonl_inspect_def r by (simp add: add_new_def dict_keys_def l target_names_def)
  show ?thesis using late_target_refused [OF i r] i by (simp add: dict_keys_def)
qed

theorem jsonl_import_reads_all_witness:
  "\<exists>p. jsonl_import demo_numerics demo_json (concat (replicate 20 [''1'', ''2'', '' '', ''3'', ''0''])) None = Inr p
     \<and> pr_rows p + pr_skipped p = 80"
proof -
  define lines where "lines = concat (replicate 20 [''1'', ''2'', '' '', ''3'', ''0''])"
  have rows: "jsonl_rows demo_json (concat (replicate n [''1'', ''2'', '' '', ''3'', ''0''])) =
      (concat (replicate n [demo_record ''p'' ''a'', demo_record [] ''b'', demo_record ''q'' ''c'', demo_record ''q'' []]), None)" for n
    by (induction n) (simp_all add: demo_lines del: jsonl_rows.simps(2))
  have keys: "dict_keys (demo_record u y) = [''u'', ''y'']" for u y by (simp add: demo_record_def dict_keys_def)
  obtain rs where rs: "demo_records = demo_record ''p'' ''a'' # rs" by (simp add: demo_records_def numeral_eq_Suc)
  have "\<forall>r \<in> set demo_records. set (dict_keys r) \<subseteq> set [''u'', ''y'']" by (auto simp: demo_records_def keys)
  then have fixed: "fixed_schema [''u'', ''y''] (rs, None) = (rs, None)" by (intro fixed_schema_same) (simp add: rs)
  obtain p where p: "prepare_rows demo_numerics [''u'', ''y''] (demo_records, None) None = Inr p" and n: "pr_rows p = 60" "pr_skipped p = 20"
    using demo_prepared by blast
  have "jsonl_rows demo_json lines = (demo_records, None)" unfolding lines_def demo_records_def by (rule rows)
  then have j: "jsonl_import demo_numerics demo_json lines None = Inr p"
    using p by (simp add: jsonl_import_def rs keys fixed Let_def)
  from jsonl_import_reads_all [OF j] j n show ?thesis by (auto simp flip: lines_def)
qed

lemma demo_adopted_table:
  assumes "tp_task p = ''multiclass_classification''" "tp_profile p = ''balanced''" "tp_execution p = ''cpu''" "tp_backend p = ''native''"
    "tp_pack p = ''mine''" and "d_task_types d = [''multiclass_classification'']"
    and "dict_get ''data_contract'' (d_manifest d) = Some (VDict [])"
  shows "\<exists>q. adopt_plan demo_auto p d = Inr q"
proof -
  have ex: "resolve_execution_target (Some ''cpu'') (au_hw demo_auto) = Inr ''cpu''"
    by (simp add: resolve_execution_target_def or_string_def demo_clean demo_auto_def)
  have be: "select_backend (au_backends demo_auto) ''native'' ''multiclass_classification'' order = Inr ''native''" for order
    by (simp add: select_backend_def supports_def backend_named_def demo_auto_def task_types_def)
  show ?thesis using assms(7) by (simp add: adopt_plan_def assms execution_policy_def demo_pack ex be dict_or_def Let_def)
qed

definition demo_table_manager :: manager where
  "demo_table_manager = demo_manager ''k''\<lparr>dm_health := (\<lambda>_ _ _ _. Inr [(''contract'', VDict [])])\<rparr>"


end
