(* ===== verification/Formats.thy ===== *)
theory Formats imports Datasets Create begin

text \<open>
  The format catalogue, the advice about a file and the router of inspections: \<open>src/src/kernelyra/formats.py\<close>,
  \<open>format_intelligence.py\<close> and \<open>ingestion/router.py\<close>. The signature probe, the native probe, the inspections of the ingestors and
  the directory listing are parameters. Names are ASCII.
\<close>

section \<open>The catalogue\<close>

record format_descriptor =
  fd_id :: string
  fd_extension :: string
  fd_category :: string
  fd_modality :: string
  fd_role :: string
  fd_handler :: string
  fd_training :: string
  fd_streaming :: bool
  fd_dependency :: "string option"

record format_group =
  gr_category :: string
  gr_modality :: string
  gr_role :: string
  gr_handler :: string
  gr_training :: string
  gr_streaming :: bool
  gr_dependency :: "string option"
  gr_extensions :: string

definition format_groups :: "format_group list" where
  "format_groups =
     [
      \<lparr>gr_category = ''plain-text'', gr_modality = ''text'', gr_role = ''dataset'', gr_handler = ''text-stream'',
        gr_training = ''extract'', gr_streaming = True, gr_dependency = None, gr_extensions = ''txt text md markdown mdown mkd mdx rst rest adoc asciidoc org tex latex bib log nfo readme me wiki textile creole csvs '' @
        ''tsvs corpus prompt prompts completion completions instruction instructions transcript transcripts subtitle subtitles '' @
        ''srt vtt ass ssa lrc''\<rparr>,
      \<lparr>gr_category = ''source-code'', gr_modality = ''text'', gr_role = ''dataset'', gr_handler = ''source-text'',
        gr_training = ''extract'', gr_streaming = True, gr_dependency = None, gr_extensions = ''py pyw pyx pxd pyi c h cc cpp cxx c++ hpp hxx hh inl m mm rs go java kt kts scala sc groovy gradle cs fs fsx vb swift '' @
        ''dart js jsx mjs cjs ts tsx php phtml rb rake gemspec sh bash zsh fish ps1 psm1 psd1 bat cmd lua r jl zig f f77 f90 f95 '' @
        ''f03 f08 for ftn asm s nasm masm v vhd vhdl sv svh cl cu cuh metal sol move ex exs erl hrl hs lhs ml mli clj cljs cljc '' @
        ''edn lisp lsp scm ss rkt tcl awk sed cob cbl pas pp d nim crystal cr vala''\<rparr>,
      \<lparr>gr_category = ''structured-text'', gr_modality = ''table'', gr_role = ''dataset'', gr_handler = ''structured-reader'',
        gr_training = ''extract'', gr_streaming = True, gr_dependency = None, gr_extensions = ''json json5 jsonc jsonld geojson topojson yaml yml toml ini cfg conf config properties env dotenv xml xsd xsl xslt dtd '' @
        ''html htm xhtml shtml css scss sass less csv tsv psv ssv jsonl ndjson arff libsvm svmlight sql graphql gql proto thrift '' @
        ''rss atom plist manifest lock ipynb notebook nbib ris csl''\<rparr>,
      \<lparr>gr_category = ''office-document'', gr_modality = ''text'', gr_role = ''dataset'', gr_handler = ''document-extractor'',
        gr_training = ''extract'', gr_streaming = False, gr_dependency = Some ''document-extra'', gr_extensions = ''pdf rtf doc docx docm dot dotx odt ott fodt pages wpd sxw abw epub mobi azw azw3 fb2 djvu chm ppt pptx pptm odp fodp '' @
        ''key''\<rparr>,
      \<lparr>gr_category = ''spreadsheet'', gr_modality = ''table'', gr_role = ''dataset'', gr_handler = ''spreadsheet-reader'',
        gr_training = ''extract'', gr_streaming = True, gr_dependency = Some ''data-extra'', gr_extensions = ''xls xlsx xlsm xlsb xlt xltx ods ots fods numbers dif sylk slk sav zsav por sas7bdat xpt dta''\<rparr>,
      \<lparr>gr_category = ''columnar-array'', gr_modality = ''table'', gr_role = ''dataset'', gr_handler = ''tabular-reader'',
        gr_training = ''extract'', gr_streaming = True, gr_dependency = Some ''data-extra'', gr_extensions = ''parquet pq feather arrow ipc orc avro npy npz mat h5 hdf5 hdf hd5 zarr fst''\<rparr>,
      \<lparr>gr_category = ''database'', gr_modality = ''table'', gr_role = ''dataset'', gr_handler = ''database-reader'',
        gr_training = ''extract'', gr_streaming = True, gr_dependency = Some ''database-extra'', gr_extensions = ''sqlite sqlite3 db db3 duckdb mdb accdb dbf odb realm rocksdb leveldb''\<rparr>,
      \<lparr>gr_category = ''raster-image'', gr_modality = ''image'', gr_role = ''dataset'', gr_handler = ''image-decoder'',
        gr_training = ''extract'', gr_streaming = True, gr_dependency = Some ''vision-extra'', gr_extensions = ''png jpg jpeg jpe jfif webp gif bmp dib tif tiff heic heif avif jxl jp2 j2k jpf jpx ico cur tga pcx ppm pgm pbm pnm xbm '' @
        ''xpm psd psb dds exr hdr pic ras qoi''\<rparr>,
      \<lparr>gr_category = ''camera-raw'', gr_modality = ''image'', gr_role = ''dataset'', gr_handler = ''raw-image-decoder'',
        gr_training = ''extract'', gr_streaming = True, gr_dependency = Some ''vision-extra'', gr_extensions = ''raw dng cr2 cr3 nef nrw arw srf sr2 raf orf rw2 pef x3f erf kdc dcr mrw mos''\<rparr>,
      \<lparr>gr_category = ''vector-image'', gr_modality = ''image'', gr_role = ''dataset'', gr_handler = ''vector-decoder'',
        gr_training = ''extract'', gr_streaming = True, gr_dependency = Some ''vision-extra'', gr_extensions = ''svg svgz ai eps ps pdfa cdr emf wmf vsd vsdx sk sketch fig''\<rparr>,
      \<lparr>gr_category = ''audio'', gr_modality = ''audio'', gr_role = ''dataset'', gr_handler = ''audio-decoder'',
        gr_training = ''extract'', gr_streaming = True, gr_dependency = Some ''audio-extra'', gr_extensions = ''wav wave mp3 flac ogg oga opus m4a aac ac3 eac3 wma aiff aif aifc alac amr ape au snd voc caf mka mid midi kar mod xm '' @
        ''it s3m''\<rparr>,
      \<lparr>gr_category = ''video'', gr_modality = ''video'', gr_role = ''dataset'', gr_handler = ''media-demux'',
        gr_training = ''extract'', gr_streaming = True, gr_dependency = Some ''video-extra'', gr_extensions = ''mp4 m4v mkv mov qt avi webm mpg mpeg mpe m1v m2v mts m2ts ts vob wmv asf flv f4v 3gp 3g2 ogv rm rmvb divx h264 h265 '' @
        ''hevc y4m mxf''\<rparr>,
      \<lparr>gr_category = ''scene-3d'', gr_modality = ''3d'', gr_role = ''dataset'', gr_handler = ''scene-parser'',
        gr_training = ''extract'', gr_streaming = True, gr_dependency = Some ''3d-extra'', gr_extensions = ''obj fbx gltf glb stl ply dae 3ds blend usd usda usdc usdz abc alembic step stp stpz iges igs dxf dwg brep off 3mf x3d '' @
        ''x3db x3dv vrml wrl max ma mb c4d lwo lws scad amf 3dm skp assimp bvh md2 md3 md5mesh nif smd vta''\<rparr>,
      \<lparr>gr_category = ''point-cloud'', gr_modality = ''3d'', gr_role = ''dataset'', gr_handler = ''point-cloud-reader'',
        gr_training = ''extract'', gr_streaming = True, gr_dependency = Some ''3d-extra'', gr_extensions = ''pcd las laz e57 pts ptx xyz xyzn xyzrgb asc copc''\<rparr>,
      \<lparr>gr_category = ''geospatial'', gr_modality = ''mixed'', gr_role = ''dataset'', gr_handler = ''geospatial-reader'',
        gr_training = ''extract'', gr_streaming = True, gr_dependency = Some ''geo-extra'', gr_extensions = ''shp shx prj kml kmz gpx geotiff gpkg mbtiles osm pbf grib grb netcdf nc''\<rparr>,
      \<lparr>gr_category = ''archive'', gr_modality = ''mixed'', gr_role = ''container'', gr_handler = ''bounded-archive-reader'',
        gr_training = ''extract'', gr_streaming = True, gr_dependency = Some ''archive-extra'', gr_extensions = ''zip zipx tar tgz tbz tbz2 txz gz gzip bz2 bzip2 xz lz lz4 lzh lha zst zstd 7z rar cab ar cpio deb rpm apk war jar whl''\<rparr>,
      \<lparr>gr_category = ''model'', gr_modality = ''model'', gr_role = ''model'', gr_handler = ''model-container'',
        gr_training = ''inspect'', gr_streaming = False, gr_dependency = None, gr_extensions = ''gguf ggml safetensors pt pth pkl pickle joblib ckpt keras onnx pb tflite torchscript mlmodel mlpackage coreml xgb cbm '' @
        ''pmml h2o mar params weights engine plan trt''\<rparr>]"

text \<open>\<open>str.split()\<close> for single blanks.\<close>

fun split_words :: "string \<Rightarrow> string \<Rightarrow> string list" where
  "split_words word [] = (if word = [] then [] else [word])"
| "split_words word (c # s) =
     (if c = CHR '' '' then (if word = [] then [] else [word]) @ split_words [] s else split_words (word @ [c]) s)"

definition normal_extension :: "string \<Rightarrow> string" where
  "normal_extension x = dropWhile (\<lambda>c. c = CHR ''.'') (py_lower x)"

definition directly_trainable :: "string list" where
  "directly_trainable = [''csv'', ''tsv'', ''jsonl'', ''ndjson'', ''parquet'', ''pq'', ''npz'']"

definition descriptor_of :: "format_group \<Rightarrow> string \<Rightarrow> format_descriptor" where
  "descriptor_of g i = \<lparr>fd_id = i, fd_extension = CHR ''.'' # i, fd_category = gr_category g, fd_modality = gr_modality g,
     fd_role = gr_role g, fd_handler = gr_handler g,
     fd_training = (if i \<in> set directly_trainable then ''train'' else if gr_dependency g = None then gr_training g else ''recognize''),
     fd_streaming = gr_streaming g, fd_dependency = gr_dependency g\<rparr>"

definition add_format :: "format_group \<times> string \<Rightarrow> format_descriptor list \<Rightarrow> format_descriptor list" where
  "add_format gx result =
     (let i = normal_extension (snd gx) in if i \<in> set (map fd_id result) then result else result @ [descriptor_of (fst gx) i])"

definition catalogue_entries :: "format_group list \<Rightarrow> (format_group \<times> string) list" where
  "catalogue_entries groups = concat (map (\<lambda>g. map (Pair g) (split_words [] (gr_extensions g))) groups)"

definition build_catalogue :: "format_group list \<Rightarrow> format_descriptor list" where
  "build_catalogue groups = sort_key fd_id (fold add_format (catalogue_entries groups) [])"

definition builtin_formats :: "format_descriptor list" where
  "builtin_formats = build_catalogue format_groups"

definition format_by_extension :: "string \<Rightarrow> format_descriptor option" where
  "format_by_extension x = find (\<lambda>d. fd_extension d = x) builtin_formats"

definition format_for_path :: "string \<Rightarrow> format_descriptor option" where
  "format_for_path name = format_by_extension (py_lower (path_suffix name))"

definition format_counts :: "nat \<times> nat \<times> nat" where
  "format_counts = (length builtin_formats, length (filter (\<lambda>d. fd_training d \<in> {''extract'', ''train''}) builtin_formats),
     length (filter (\<lambda>d. fd_training d = ''train'') builtin_formats))"

section \<open>Advice\<close>

definition expected_signatures :: "(string, nat list) dict" where
  "expected_signatures = [(''structured-text'', [16, 17]), (''columnar-array'', [1, 3, 4]), (''database'', [2]), (''office-document'', [5, 7]),
     (''spreadsheet'', [5]), (''raster-image'', [8, 9, 10, 11]), (''vector-image'', [5, 7]), (''audio'', [11, 12, 13]), (''video'', [14, 15]),
     (''archive'', [5, 6])]"

definition signature_names :: "(nat, string) dict" where
  "signature_names = [(0, ''unknown''), (1, ''parquet''), (2, ''sqlite''), (3, ''numpy''), (4, ''hdf5''), (5, ''zip-container''), (6, ''gzip''),
     (7, ''pdf''), (8, ''png''), (9, ''jpeg''), (10, ''gif''), (11, ''riff''), (12, ''flac''), (13, ''ogg''), (14, ''iso-base-media''),
     (15, ''matroska''), (16, ''json''), (17, ''delimited-text'')]"

datatype strategy = ManualClassification | DirectTraining | ExtractFirst "string option" | InspectOnly | AdapterRequired

definition recommendation :: "format_descriptor option \<Rightarrow> strategy" where
  "recommendation d =
     (case d of
        None \<Rightarrow> ManualClassification
      | Some f \<Rightarrow> if fd_id f \<in> set directly_trainable then DirectTraining
                  else if fd_training f = ''extract'' then ExtractFirst (fd_dependency f)
                  else if fd_role f = ''model'' then InspectOnly else AdapterRequired)"

datatype advice_warning = OutsideCatalogue | SignatureConflict | ProbeTooOld

record advice =
  av_format :: "format_descriptor option"
  av_sample :: nat
  av_code :: "nat option"
  av_detected :: string
  av_matches :: "bool option"
  av_strategy :: strategy
  av_warnings :: "advice_warning list"

definition signature_matches :: "format_descriptor option \<Rightarrow> nat option \<Rightarrow> bool option" where
  "signature_matches d code =
     (let expected = (case d of Some f \<Rightarrow> dict_get (fd_category f) expected_signatures | None \<Rightarrow> None)
      in case (code, expected) of (Some c, Some es) \<Rightarrow> if c = 0 \<or> es = [] then None else Some (c \<in> set es) | _ \<Rightarrow> None)"

text \<open>\<open>code\<close> is what the probe of the first bytes gives; the file is \<open>bytes\<close> long.\<close>

definition advise_path :: "bool \<Rightarrow> string \<Rightarrow> nat \<Rightarrow> nat option \<Rightarrow> kerror + advice" where
  "advise_path is_file name bytes code =
     (if \<not> is_file then Inl ValueError
      else let d = format_for_path name; m = signature_matches d code in
        Inr \<lparr>av_format = d, av_sample = min bytes 4096, av_code = code,
          av_detected = (case dict_get (case code of Some c \<Rightarrow> c | None \<Rightarrow> 0) signature_names of Some n \<Rightarrow> n | None \<Rightarrow> ''unknown''),
          av_matches = m, av_strategy = recommendation d,
          av_warnings = (if d = None then [OutsideCatalogue] else []) @ (if m = Some False then [SignatureConflict] else [])
            @ (if code = None then [ProbeTooOld] else [])\<rparr>)"

section \<open>The router\<close>

definition stream_extensions :: "string list" where
  "stream_extensions = [''.csv'', ''.tsv'', ''.jsonl'', ''.ndjson'', ''.parquet'', ''.pq'']"

definition max_folder_files :: nat where
  "max_folder_files = 100000"

definition model_format :: "string \<Rightarrow> checkpoint_format option" where
  "model_format name = find (\<lambda>m. list_ex (\<lambda>x. ends_with x (py_lower name)) (cf_extensions m)) checkpoint_formats"

text \<open>A run of the native probe: the lengths of its outputs and the value printed, if it ended well.\<close>

record probe_run =
  pb_out :: nat
  pb_err :: nat
  pb_value :: "pyval option"

record reader =
  re_name :: string
  re_extensions :: "string list"
  re_inspect :: "string \<Rightarrow> kerror + pydict"

definition reader_for :: "reader list \<Rightarrow> string \<Rightarrow> reader option" where
  "reader_for rs name = find (\<lambda>r. py_lower (path_suffix name) \<in> set (map py_lower (re_extensions r))) rs"

record router =
  ro_readers :: "reader list"
  ro_probe :: "string \<Rightarrow> probe_run option"

definition suffix_id :: "string \<Rightarrow> string" where
  "suffix_id x = (let i = dropWhile (\<lambda>c. c = CHR ''.'') x in if i = [] then ''unknown'' else i)"

definition fallback_probe :: "string \<Rightarrow> pydict" where
  "fallback_probe name = [(''format'', VStr (suffix_id (py_lower (path_suffix name)))),
     (''modality'', VStr (if py_lower (path_suffix name) \<in> set stream_extensions then ''table'' else ''binary'')), (''engine'', VStr ''python-router'')]"

definition probe_path :: "router \<Rightarrow> string \<Rightarrow> pydict" where
  "probe_path ro name =
     (case ro_probe ro name of
        None \<Rightarrow> fallback_probe name
      | Some r \<Rightarrow>
          if 64 * 1024 < pb_out r \<or> 64 * 1024 < pb_err r then fallback_probe name
          else case (case pb_value r of Some (VList (VDict d # _)) \<Rightarrow> Some (VDict d) | Some (VList _) \<Rightarrow> Some (VDict []) | v \<Rightarrow> v) of
              Some (VDict d) \<Rightarrow> if dict_get ''protocol'' d = Some (VStr ''kernelyra-native-probe/1'') then d else fallback_probe name
            | _ \<Rightarrow> fallback_probe name)"

definition value_or :: "string \<Rightarrow> pyval \<Rightarrow> pydict \<Rightarrow> pyval" where
  "value_or k v d = (case dict_get k d of Some x \<Rightarrow> x | None \<Rightarrow> v)"

definition inspect_model :: "string \<Rightarrow> int \<Rightarrow> checkpoint_format \<Rightarrow> pydict" where
  "inspect_model name bytes m = [(''path'', VStr name), (''exists'', VBool True), (''kind'', VStr ''model''), (''format'', VStr (cf_id m)),
     (''format_label'', VStr (cf_id m)), (''fine_tune'', VBool (cf_fine_tune m)),
     (''trainable'', VBool (cf_training_output m \<or> cf_fine_tune m)), (''bytes'', VInt bytes)]"

definition inspect_data :: "router \<Rightarrow> string \<Rightarrow> int \<Rightarrow> kerror + pydict" where
  "inspect_data ro name bytes =
     (let d = format_for_path name; native = probe_path ro name; r = reader_for (ro_readers ro) name;
          i = (case d of Some f \<Rightarrow> VStr (fd_id f) | None \<Rightarrow> value_or ''format'' (VStr (suffix_id (path_suffix name))) native);
          result = [(''path'', VStr name), (''exists'', VBool True), (''kind'', VStr ''dataset''), (''format'', i), (''format_label'', i),
            (''category'', VStr (case d of Some f \<Rightarrow> fd_category f | None \<Rightarrow> ''unknown'')),
            (''modality'', case d of Some f \<Rightarrow> VStr (fd_modality f) | None \<Rightarrow> value_or ''modality'' (VStr ''binary'') native),
            (''handler'', VStr (case d of Some f \<Rightarrow> fd_handler f | None \<Rightarrow> ''unknown'')), (''recognized'', VBool (d \<noteq> None)),
            (''extractable'', VBool (case d of Some f \<Rightarrow> fd_training f \<in> {''extract'', ''train''} | None \<Rightarrow> False)),
            (''bytes'', VInt bytes), (''engine'', value_or ''engine'' (VStr ''python-router'') native), (''trainable'', VBool (r \<noteq> None)),
            (''adapter'', case r of Some x \<Rightarrow> VStr (re_name x) | None \<Rightarrow> VNone)]
      in case r of
           None \<Rightarrow> Inr result
         | Some x \<Rightarrow> bind_result (re_inspect x name) (\<lambda>more.
             let merged = dict_merge result more
             in Inr (dict_set ''trainable'' (VBool (truthy (value_or ''suggested_target'' (VBool True) merged))) merged)))"

definition inspect_regular :: "router \<Rightarrow> string \<Rightarrow> int \<Rightarrow> kerror + pydict" where
  "inspect_regular ro name bytes =
     (case model_format name of Some m \<Rightarrow> Inr (inspect_model name bytes m) | None \<Rightarrow> inspect_data ro name bytes)"

text \<open>An entry below a folder.\<close>

record node =
  nd_path :: string
  nd_symlink :: bool
  nd_file :: bool
  nd_size :: int

record tally =
  ta_counts :: "(string, nat) dict"
  ta_modalities :: "(string, nat) dict"
  ta_trainable :: "string list"
  ta_bytes :: int
  ta_files :: nat

definition count_one :: "string \<Rightarrow> (string, nat) dict \<Rightarrow> (string, nat) dict" where
  "count_one k d = dict_set k ((case dict_get k d of Some n \<Rightarrow> n | None \<Rightarrow> 0) + 1) d"

definition tally_file :: "router \<Rightarrow> node \<Rightarrow> tally \<Rightarrow> tally" where
  "tally_file ro x t =
     (let name = path_name (nd_path x); d = format_for_path name in
      \<lparr>ta_counts = count_one (case d of Some f \<Rightarrow> fd_id f | None \<Rightarrow> suffix_id (py_lower (path_suffix name))) (ta_counts t),
       ta_modalities = count_one (case d of Some f \<Rightarrow> fd_modality f | None \<Rightarrow> ''unknown'') (ta_modalities t),
       ta_trainable = (if py_lower (path_suffix name) \<in> set stream_extensions \<and> reader_for (ro_readers ro) name \<noteq> None
                       then ta_trainable t @ [nd_path x] else ta_trainable t),
       ta_bytes = ta_bytes t + nd_size x, ta_files = ta_files t + 1\<rparr>)"

text \<open>\<open>None\<close> when a file beyond the limit is met.\<close>

fun walk_folder :: "router \<Rightarrow> node list \<Rightarrow> tally \<Rightarrow> tally option" where
  "walk_folder ro [] t = Some t"
| "walk_folder ro (x # xs) t =
     (if nd_symlink x \<or> \<not> nd_file x then walk_folder ro xs t
      else if max_folder_files < ta_files t + 1 then None
      else walk_folder ro xs (tally_file ro x t))"

definition empty_tally :: tally where
  "empty_tally = \<lparr>ta_counts = [], ta_modalities = [], ta_trainable = [], ta_bytes = 0, ta_files = 0\<rparr>"

definition counts_dict :: "(string, nat) dict \<Rightarrow> pydict" where
  "counts_dict d = map (\<lambda>(k, n). (k, VInt (int n))) d"

definition int_or_one :: "pyval option \<Rightarrow> kerror + pyval" where
  "int_or_one v = (case v of
      None \<Rightarrow> Inr (VInt 1)
    | Some x \<Rightarrow> if \<not> truthy x then Inr (VInt 1) else case x of
        VInt n \<Rightarrow> Inr (VInt n) | VBool _ \<Rightarrow> Inr (VInt 1)
      | VStr s \<Rightarrow> (case parse_int s of Some n \<Rightarrow> Inr (VInt n) | None \<Rightarrow> Inl ValueError)
      | VFloat f \<Rightarrow> (case f_trunc f of Some n \<Rightarrow> Inr (VInt n) | None \<Rightarrow> Inl (if f = NaN then ValueError else OverflowError))
      | _ \<Rightarrow> Inl TypeError)"

definition list_or_empty :: "string \<Rightarrow> pydict \<Rightarrow> pyval" where
  "list_or_empty k d = (case dict_get k d of Some (VList xs) \<Rightarrow> VList xs | _ \<Rightarrow> VList [])"

definition inspect_folder :: "router \<Rightarrow> string \<Rightarrow> node list \<Rightarrow> kerror + pydict" where
  "inspect_folder ro path nodes =
     (case walk_folder ro (sort_key (\<lambda>x. py_lower (nd_path x)) nodes) empty_tally of
        None \<Rightarrow> Inl DatasetError
      | Some t \<Rightarrow>
          let result = [(''path'', VStr path), (''exists'', VBool True), (''kind'', VStr ''dataset''), (''format'', VStr ''directory''),
            (''format_label'', VStr ''Dataset folder''),
            (''modality'', VStr (if 1 < length (ta_modalities t) then ''mixed'' else case ta_modalities t of (m, _) # _ \<Rightarrow> m | [] \<Rightarrow> ''unknown'')),
            (''modalities'', VDict (counts_dict (ta_modalities t))), (''file_count'', VInt (int (ta_files t))),
            (''trainable_file_count'', VInt (int (length (ta_trainable t)))), (''formats'', VDict (counts_dict (ta_counts t))),
            (''bytes'', VInt (ta_bytes t)), (''trainable'', VBool (ta_trainable t \<noteq> []))]
          in case ta_trainable t of
               [] \<Rightarrow> Inr result
             | first # _ \<Rightarrow>
                 (case reader_for (ro_readers ro) (path_name first) of
                    None \<Rightarrow> Inl DatasetError
                  | Some r \<Rightarrow> bind_result (re_inspect r first) (\<lambda>inspected.
                      bind_result (int_or_one (dict_get ''sampled_rows'' inspected)) (\<lambda>sampled.
                      Inr (dict_merge result [(''sampled_rows'', sampled), (''columns'', list_or_empty ''columns'' inspected),
                        (''suggested_target'', value_or ''suggested_target'' VNone inspected),
                        (''task_types'', list_or_empty ''task_types'' inspected), (''preview'', list_or_empty ''preview'' inspected),
                        (''schema_probe'', VStr first)])))))"

datatype place = Missing | Regular string int | Folder string "node list" | Special

definition inspect_place :: "router \<Rightarrow> place \<Rightarrow> kerror + pydict" where
  "inspect_place ro p =
     (case p of
        Missing \<Rightarrow> Inl DatasetError
      | Regular name bytes \<Rightarrow> inspect_regular ro name bytes
      | Folder path nodes \<Rightarrow> inspect_folder ro path nodes
      | Special \<Rightarrow> Inl DatasetError)"

section \<open>Recognition is not support\<close>

lemma fold_formats:
  "(\<forall>d \<in> set result. d \<in> (\<lambda>(g, x). descriptor_of g (normal_extension x)) ` set es0) \<Longrightarrow>
   (\<forall>d \<in> set (fold add_format es result). d \<in> (\<lambda>(g, x). descriptor_of g (normal_extension x)) ` (set es0 \<union> set es))"
proof (induction es arbitrary: result es0)
  case (Cons e es)
  have "\<forall>d \<in> set (add_format e result). d \<in> (\<lambda>(g, x). descriptor_of g (normal_extension x)) ` set (e # es0)"
    using Cons.prems by (cases e) (auto simp: add_format_def Let_def)
  from Cons.IH [OF this] show ?case by simp
qed simp

lemma fold_ids:
  "distinct (map fd_id result) \<Longrightarrow> distinct (map fd_id (fold add_format es result))
     \<and> fd_id ` set (fold add_format es result) = fd_id ` set result \<union> (\<lambda>(g, x). normal_extension x) ` set es"
proof (induction es arbitrary: result)
  case (Cons e es)
  have "fd_id (descriptor_of g i) = i" for g i by (simp add: descriptor_of_def)
  then have "distinct (map fd_id (add_format e result))"
    "fd_id ` set (add_format e result) = fd_id ` set result \<union> {normal_extension (snd e)}"
    using Cons.prems by (auto simp: add_format_def Let_def)
  with Cons.IH [of "add_format e result"] show ?case by (auto simp: case_prod_beta)
qed simp

lemma builtin_in: "d \<in> set builtin_formats \<Longrightarrow> \<exists>g \<in> set format_groups. \<exists>i. d = descriptor_of g i"
proof -
  assume "d \<in> set builtin_formats"
  then have "d \<in> set (fold add_format (catalogue_entries format_groups) [])" by (simp add: builtin_formats_def build_catalogue_def)
  with fold_formats [of "[]" "[]" "catalogue_entries format_groups"]
  have "d \<in> (\<lambda>(g, x). descriptor_of g (normal_extension x)) ` set (catalogue_entries format_groups)" by simp
  then show ?thesis by (auto simp: catalogue_entries_def)
qed

lemma builtin_ids:
  "distinct (map fd_id builtin_formats)" "fd_id ` set builtin_formats = (\<lambda>(g, x). normal_extension x) ` set (catalogue_entries format_groups)"
  "sorted (map fd_id builtin_formats)"
  using fold_ids [of "[]" "catalogue_entries format_groups"]
  by (simp_all add: builtin_formats_def build_catalogue_def distinct_map inj_on_def)

lemma group_columns: "map (\<lambda>g. (gr_training g, gr_role g)) format_groups =
    replicate 15 (''extract'', ''dataset'') @ [(''extract'', ''container''), (''inspect'', ''model'')]"
  by (simp only: format_groups_def list.map format_group.select_convs) (simp add: numeral_eq_Suc)

lemma group_trainings: "g \<in> set format_groups \<Longrightarrow> gr_training g \<in> {''extract'', ''inspect''} \<and> (gr_training g = ''inspect'' \<longleftrightarrow> gr_role g = ''model'')"
proof -
  assume "g \<in> set format_groups"
  then have "(gr_training g, gr_role g) \<in> set (map (\<lambda>g. (gr_training g, gr_role g)) format_groups)" by force
  then show ?thesis unfolding group_columns by auto
qed

lemma find_in: "find P xs = Some x \<Longrightarrow> x \<in> set xs \<and> P x"
  by (induction xs) (auto split: if_splits)

lemma find_unique:
  assumes "x \<in> set xs" "P x" "\<And>y. y \<in> set xs \<Longrightarrow> P y \<Longrightarrow> y = x" shows "find P xs = Some x"
proof -
  have "find P xs \<noteq> None" using assms(1,2) by (auto simp: find_None_iff)
  then obtain y where y: "find P xs = Some y" by blast
  then have "y = x" using find_in [OF y] assms(3) by blast
  with y show ?thesis by simp
qed

lemma builtin_extension: "d \<in> set builtin_formats \<Longrightarrow> fd_extension d = CHR ''.'' # fd_id d"
  using builtin_in by (fastforce simp: descriptor_of_def)

lemma format_by_iff: "format_by_extension x = Some d \<longleftrightarrow> d \<in> set builtin_formats \<and> fd_extension d = x"
proof
  assume "format_by_extension x = Some d"
  then show "d \<in> set builtin_formats \<and> fd_extension d = x" unfolding format_by_extension_def by (rule find_in)
next
  assume d: "d \<in> set builtin_formats \<and> fd_extension d = x"
  have "d' = d" if "d' \<in> set builtin_formats" "fd_extension d' = x" for d'
    using that d builtin_extension [of d] builtin_extension [of d'] builtin_ids(1) by (simp add: distinct_map inj_on_def)
  then show "format_by_extension x = Some d" using d unfolding format_by_extension_def by (intro find_unique) auto
qed

text \<open>The extensions of the ingestors.\<close>

definition ingestor_extensions :: "string list" where
  "ingestor_extensions = [''.csv'', ''.tsv'', ''.jsonl'', ''.ndjson'', ''.npz'', ''.parquet'', ''.pq'']"

lemma words_member: "x \<in> set (split_words [] (gr_extensions g)) \<Longrightarrow> g \<in> set format_groups \<Longrightarrow> (g, x) \<in> set (catalogue_entries format_groups)"
  by (force simp: catalogue_entries_def)

lemma direct_listed: "i \<in> set directly_trainable \<Longrightarrow> i \<in> (\<lambda>(g, x). normal_extension x) ` set (catalogue_entries format_groups)"
proof -
  assume i: "i \<in> set directly_trainable"
  have n: "normal_extension i = i" using i unfolding directly_trainable_def list.set by (elim insertE emptyE) (hypsubst, code_simp)+
  have "i \<in> set (split_words [] (gr_extensions (format_groups ! 2))) \<or> i \<in> set (split_words [] (gr_extensions (format_groups ! 5)))"
    using i unfolding directly_trainable_def list.set by (elim insertE emptyE) (hypsubst, code_simp)+
  moreover have "format_groups ! 2 \<in> set format_groups" "format_groups ! 5 \<in> set format_groups"
  proof -
    have "length format_groups = 17" using arg_cong [OF group_columns, of length] by simp
    then show "format_groups ! 2 \<in> set format_groups" "format_groups ! 5 \<in> set format_groups" by simp_all
  qed
  ultimately obtain g where "(g, i) \<in> set (catalogue_entries format_groups)" using words_member by blast
  with n show ?thesis by force
qed

text \<open>The catalogue says what the build can do: its identifiers are distinct and sorted, each has its own extension, a format is announced
  as directly trainable exactly when an ingestor reads its extension, and then the advice is to train; nothing that needs an optional
  package is announced as extractable, so the advice never asks to install one.\<close>

theorem catalogue_truthful:
  "distinct (map fd_id builtin_formats) \<and> sorted (map fd_id builtin_formats)
   \<and> (\<forall>d \<in> set builtin_formats. format_by_extension (CHR ''.'' # fd_id d) = Some d \<and> recommendation (Some d) \<noteq> ManualClassification
        \<and> (fd_training d = ''extract'' \<longrightarrow> fd_dependency d = None)
        \<and> (\<forall>package. recommendation (Some d) \<noteq> ExtractFirst (Some package))
        \<and> (fd_role d = ''model'' \<longrightarrow> recommendation (Some d) = InspectOnly \<or> recommendation (Some d) = DirectTraining))
   \<and> (\<forall>x. (\<exists>d. format_by_extension x = Some d \<and> fd_training d = ''train'') \<longleftrightarrow> x \<in> set ingestor_extensions)
   \<and> (\<forall>x. recommendation (format_by_extension x) = DirectTraining \<longleftrightarrow> x \<in> set ingestor_extensions)"
proof -
  have t: "fd_training d = ''train'' \<longleftrightarrow> fd_id d \<in> set directly_trainable" if d: "d \<in> set builtin_formats" for d
  proof -
    obtain g i where g: "g \<in> set format_groups" "d = descriptor_of g i" using builtin_in [OF d] by blast
    then show ?thesis using group_trainings [OF g(1)] by (auto simp: descriptor_of_def)
  qed
  have e: "CHR ''.'' # i \<in> set ingestor_extensions \<longleftrightarrow> i \<in> set directly_trainable" for i
    by (auto simp: ingestor_extensions_def directly_trainable_def)
  have dot: "\<exists>i. x = CHR ''.'' # i" if "x \<in> set ingestor_extensions" for x using that by (auto simp: ingestor_extensions_def)
  have train: "(\<exists>d. format_by_extension x = Some d \<and> fd_id d \<in> set directly_trainable) \<longleftrightarrow> x \<in> set ingestor_extensions" for x
  proof
    assume "\<exists>d. format_by_extension x = Some d \<and> fd_id d \<in> set directly_trainable"
    then show "x \<in> set ingestor_extensions" using e builtin_extension by (auto simp: format_by_iff)
  next
    assume x: "x \<in> set ingestor_extensions"
    then obtain i where i: "x = CHR ''.'' # i" "i \<in> set directly_trainable" using dot e by blast
    with direct_listed builtin_ids(2) obtain d where "d \<in> set builtin_formats" "fd_id d = i" by (metis imageE)
    then show "\<exists>d. format_by_extension x = Some d \<and> fd_id d \<in> set directly_trainable"
      using i builtin_extension by (auto simp: format_by_iff)
  qed
  have rest: "(fd_training d = ''extract'' \<longrightarrow> fd_dependency d = None) \<and> (\<forall>package. recommendation (Some d) \<noteq> ExtractFirst (Some package))
      \<and> (fd_role d = ''model'' \<longrightarrow> recommendation (Some d) = InspectOnly \<or> recommendation (Some d) = DirectTraining)
      \<and> recommendation (Some d) \<noteq> ManualClassification" if d: "d \<in> set builtin_formats" for d
  proof -
    obtain g i where g: "g \<in> set format_groups" "d = descriptor_of g i" using builtin_in [OF d] by blast
    then show ?thesis using group_trainings [OF g(1)] by (auto simp: descriptor_of_def recommendation_def)
  qed
  have rec: "recommendation (format_by_extension x) = DirectTraining \<longleftrightarrow> (\<exists>d. format_by_extension x = Some d \<and> fd_id d \<in> set directly_trainable)" for x
    by (auto simp: recommendation_def split: option.split)
  have train': "(\<exists>d. format_by_extension x = Some d \<and> fd_training d = ''train'') \<longleftrightarrow> x \<in> set ingestor_extensions" for x
    unfolding train [symmetric] using t by (auto simp: format_by_iff)
  have own: "format_by_extension (CHR ''.'' # fd_id d) = Some d" if "d \<in> set builtin_formats" for d
    using that builtin_extension by (simp add: format_by_iff)
  show ?thesis using builtin_ids(1,3) rest own train' by (simp add: rec train)
qed

section \<open>Where the router sends a file\<close>

lemma lower_dot: "lower_char c = CHR ''.'' \<longleftrightarrow> c = CHR ''.''"
proof (cases "65 \<le> (of_char c :: nat) \<and> (of_char c :: nat) \<le> 90")
  case True
  then have "(of_char (lower_char c) :: nat) = of_char c + 32" by (simp add: lower_char_def Let_def)
  then have "of_char (lower_char c) \<noteq> (of_char (CHR ''.'') :: nat)" "of_char c \<noteq> (of_char (CHR ''.'') :: nat)" using True by auto
  then show ?thesis by auto
qed (auto simp: lower_char_def Let_def)

lemma path_suffix_lower: "path_suffix (py_lower n) = py_lower (path_suffix n)"
proof -
  have "takeWhile (\<lambda>c. c \<noteq> CHR ''.'') (map lower_char xs) = map lower_char (takeWhile (\<lambda>c. c \<noteq> CHR ''.'') xs)" for xs
    by (simp add: takeWhile_map comp_def lower_dot)
  then show ?thesis by (simp add: path_suffix_def py_lower_def rev_map drop_map Let_def)
qed

lemma suffix_last:
  assumes "path_suffix n \<noteq> []" "ends_with (CHR ''.'' # w) n" "CHR ''.'' \<notin> set w" shows "path_suffix n = CHR ''.'' # w"
proof -
  obtain a where a: "n = a @ CHR ''.'' # w" using assms(2) unfolding ends_with_def by (metis append_take_drop_id)
  have "takeWhile (\<lambda>c. c \<noteq> CHR ''.'') (rev w @ CHR ''.'' # rev a) = rev w" using assms(3) by (subst takeWhile_append2) auto
  then show ?thesis using assms(1) by (auto simp: path_suffix_def a Let_def split: if_splits)
qed

lemma suffix_ends: "path_suffix n \<noteq> [] \<Longrightarrow> ends_with (path_suffix n) n"
  using stem_suffix [of n] unfolding ends_with_def by (metis append_eq_conv_conj diff_add_inverse2 le_add2 length_append)

lemma model_by_suffix:
  assumes "py_lower (path_suffix name) \<noteq> []"
  shows "model_format name = find (\<lambda>m. py_lower (path_suffix name) \<in> set (cf_extensions m)) checkpoint_formats"
proof -
  let ?s = "py_lower (path_suffix name)"
  have s: "path_suffix (py_lower name) = ?s" by (rule path_suffix_lower)
  have ne: "path_suffix (py_lower name) \<noteq> []" unfolding s by (rule assms)
  have words: "\<forall>m \<in> set checkpoint_formats. \<forall>x \<in> set (cf_extensions m). \<exists>w. x = CHR ''.'' # w \<and> CHR ''.'' \<notin> set w"
    by (simp add: checkpoint_formats_def)
  have "ends_with x (py_lower name) \<longleftrightarrow> x = ?s" if mx: "m \<in> set checkpoint_formats" "x \<in> set (cf_extensions m)" for m x
  proof
    assume e: "ends_with x (py_lower name)"
    obtain w where w: "x = CHR ''.'' # w" "CHR ''.'' \<notin> set w" using words mx by blast
    have "ends_with (CHR ''.'' # w) (py_lower name)" using e unfolding w(1) .
    from suffix_last [OF ne this w(2)] show "x = ?s" unfolding s w(1) by (rule sym)
  next
    assume "x = ?s"
    then show "ends_with x (py_lower name)" using suffix_ends [OF ne] unfolding s by simp
  qed
  then have l: "list_ex (\<lambda>x. ends_with x (py_lower name)) (cf_extensions m) \<longleftrightarrow> ?s \<in> set (cf_extensions m)" if "m \<in> set checkpoint_formats" for m
    using that by (auto simp: list_ex_iff)
  show ?thesis unfolding model_format_def by (rule find_cong [OF refl]) (rule l)
qed

text \<open>Of the files an ingestor can import, the router inspects all but one kind with their ingestor: an \<open>.npz\<close> data set is always
  reported as a checkpoint, without looking into it and whatever ingestors there are, since the model formats are asked first.\<close>

theorem npz_inspected_as_model:
  assumes "py_lower (path_suffix name) \<in> set ingestor_extensions" and "reader_for (ro_readers ro) name = Some r"
  shows "(py_lower (path_suffix name) = ''.npz'' \<longrightarrow>
            inspect_regular ro name bytes = Inr (inspect_model name bytes npz_format)
            \<and> dict_get ''kind'' (inspect_model name bytes npz_format) = Some (VStr ''model''))
     \<and> (py_lower (path_suffix name) \<noteq> ''.npz'' \<longrightarrow> inspect_regular ro name bytes = inspect_data ro name bytes
          \<and> (\<forall>e. re_inspect r name = Inl e \<longrightarrow> inspect_regular ro name bytes = Inl e)
          \<and> (\<forall>more. re_inspect r name = Inr more \<longrightarrow> dict_ok more \<longrightarrow> (\<exists>d. inspect_regular ro name bytes = Inr d
               \<and> (\<forall>k v. dict_get k more = Some v \<longrightarrow> k \<noteq> ''trainable'' \<longrightarrow> dict_get k d = Some v))))"
proof -
  have ne: "py_lower (path_suffix name) \<noteq> []" using assms(1) by (auto simp: ingestor_extensions_def)
  have m: "model_format name = (if py_lower (path_suffix name) = ''.npz'' then Some npz_format else None)"
    unfolding model_by_suffix [OF ne] using assms(1) unfolding ingestor_extensions_def list.set insert_iff empty_iff
    by (elim disjE) (simp_all add: checkpoint_formats_def npz_format_def)
  show ?thesis
    by (auto simp: inspect_regular_def m inspect_model_def inspect_data_def assms(2) Let_def dict_get_set dict_get_merge)
qed

section \<open>Folders\<close>

definition folder_files :: "node list \<Rightarrow> node list" where
  "folder_files nodes = filter (\<lambda>x. \<not> nd_symlink x \<and> nd_file x) nodes"

definition format_id :: "node \<Rightarrow> string" where
  "format_id x = (case format_for_path (path_name (nd_path x)) of Some f \<Rightarrow> fd_id f | None \<Rightarrow> suffix_id (py_lower (path_suffix (path_name (nd_path x)))))"

definition streamable :: "router \<Rightarrow> node \<Rightarrow> bool" where
  "streamable ro x \<longleftrightarrow> py_lower (path_suffix (path_name (nd_path x))) \<in> set stream_extensions \<and> reader_for (ro_readers ro) (path_name (nd_path x)) \<noteq> None"

definition count_of :: "string \<Rightarrow> (string, nat) dict \<Rightarrow> nat" where
  "count_of k d = (case dict_get k d of Some n \<Rightarrow> n | None \<Rightarrow> 0)"

lemma count_of_one: "count_of k (count_one j d) = count_of k d + (if k = j then 1 else 0)"
  by (simp add: count_of_def count_one_def dict_get_set)

lemma walk_folder_exact:
  "walk_folder ro nodes t = (if max_folder_files < ta_files t + length (folder_files nodes) \<and> folder_files nodes \<noteq> [] then None
     else Some (fold (tally_file ro) (folder_files nodes) t))"
proof (induction nodes arbitrary: t)
  case (Cons x xs)
  have f: "ta_files (tally_file ro x t) = ta_files t + 1" by (simp add: tally_file_def Let_def)
  show ?case
    using Cons.IH [of t] Cons.IH [of "tally_file ro x t"] by (auto simp: folder_files_def f)
qed (simp add: folder_files_def)

lemma tally_all:
  "ta_files (fold (tally_file ro) xs t) = ta_files t + length xs
   \<and> ta_bytes (fold (tally_file ro) xs t) = ta_bytes t + sum_list (map nd_size xs)
   \<and> count_of k (ta_counts (fold (tally_file ro) xs t)) = count_of k (ta_counts t) + length (filter (\<lambda>x. format_id x = k) xs)
   \<and> ta_trainable (fold (tally_file ro) xs t) = ta_trainable t @ map nd_path (filter (streamable ro) xs)"
proof (induction xs arbitrary: t)
  case (Cons x xs)
  have one: "ta_files (tally_file ro x t) = ta_files t + 1" "ta_bytes (tally_file ro x t) = ta_bytes t + nd_size x"
    "count_of k (ta_counts (tally_file ro x t)) = count_of k (ta_counts t) + (if k = format_id x then 1 else 0)"
    "ta_trainable (tally_file ro x t) = ta_trainable t @ (if streamable ro x then [nd_path x] else [])"
    by (simp_all add: tally_file_def count_of_one format_id_def streamable_def Let_def)
  show ?case using Cons.IH [of "tally_file ro x t"] one by auto
qed simp

lemma dict_get_counts: "dict_get k (counts_dict d) = map_option (\<lambda>n. VInt (int n)) (dict_get k d)"
  by (induction d) (auto simp: counts_dict_def)

lemma folder_files_sort: "length (folder_files (sort_key f nodes)) = length (folder_files nodes)"
  "sum_list (map nd_size (folder_files (sort_key f nodes))) = sum_list (map nd_size (folder_files nodes))"
  "length (filter P (folder_files (sort_key f nodes))) = length (filter P (folder_files nodes))"
  "set (folder_files (sort_key f nodes)) = set (folder_files nodes)"
proof -
  have m: "mset (folder_files (sort_key f nodes)) = mset (folder_files nodes)" by (simp add: folder_files_def)
  show "length (folder_files (sort_key f nodes)) = length (folder_files nodes)" using mset_eq_length [OF m] .
  show "sum_list (map nd_size (folder_files (sort_key f nodes))) = sum_list (map nd_size (folder_files nodes))"
    using m by (metis mset_map sum_mset_sum_list)
  show "length (filter P (folder_files (sort_key f nodes))) = length (filter P (folder_files nodes))"
    using m by (metis mset_filter size_mset)
  show "set (folder_files (sort_key f nodes)) = set (folder_files nodes)" using mset_eq_setD [OF m] .
qed

definition folder_result :: "string \<Rightarrow> tally \<Rightarrow> pydict" where
  "folder_result path t = [(''path'', VStr path), (''exists'', VBool True), (''kind'', VStr ''dataset''), (''format'', VStr ''directory''),
     (''format_label'', VStr ''Dataset folder''),
     (''modality'', VStr (if 1 < length (ta_modalities t) then ''mixed'' else case ta_modalities t of (m, _) # _ \<Rightarrow> m | [] \<Rightarrow> ''unknown'')),
     (''modalities'', VDict (counts_dict (ta_modalities t))), (''file_count'', VInt (int (ta_files t))),
     (''trainable_file_count'', VInt (int (length (ta_trainable t)))), (''formats'', VDict (counts_dict (ta_counts t))),
     (''bytes'', VInt (ta_bytes t)), (''trainable'', VBool (ta_trainable t \<noteq> []))]"

lemma inspect_folder_InrE:
  assumes "inspect_folder ro path nodes = Inr d"
  obtains t where "walk_folder ro (sort_key (\<lambda>x. py_lower (nd_path x)) nodes) empty_tally = Some t"
    "\<And>k. k \<in> {''file_count'', ''bytes'', ''formats'', ''trainable_file_count'', ''trainable''} \<Longrightarrow> dict_get k d = dict_get k (folder_result path t)"
    "\<And>p. dict_get ''schema_probe'' d = Some (VStr p) \<Longrightarrow> p \<in> set (ta_trainable t)"
proof -
  obtain t where t: "walk_folder ro (sort_key (\<lambda>x. py_lower (nd_path x)) nodes) empty_tally = Some t"
    using assms by (auto simp: inspect_folder_def split: option.splits)
  note def = assms [unfolded inspect_folder_def t option.case Let_def, folded folder_result_def]
  show thesis
  proof (cases "ta_trainable t")
    case Nil
    then have "d = folder_result path t" using def by simp
    then show ?thesis using t by (intro that) (auto simp: folder_result_def)
  next
    case (Cons p ps)
    then obtain r inspected sampled where "d = dict_merge (folder_result path t) [(''sampled_rows'', sampled), (''columns'', list_or_empty ''columns'' inspected),
        (''suggested_target'', value_or ''suggested_target'' VNone inspected),
        (''task_types'', list_or_empty ''task_types'' inspected), (''preview'', list_or_empty ''preview'' inspected), (''schema_probe'', VStr p)]"
      using def by (auto elim!: bind_result_InrE split: option.splits)
    then show ?thesis using t Cons by (intro that) (auto simp: dict_get_merge dict_ok_def dict_keys_def)
  qed
qed

text \<open>The inspection of a folder is exact: it refuses just the folders with more than 100000 regular files, and those whose schema it
  cannot read; it counts every regular file once, under its format, links and other entries not at all, adds up their sizes, and calls
  the folder trainable just when a file of it can be streamed; the file whose schema it shows is one of these.\<close>

theorem folder_inspection_exact:
  assumes "files = folder_files nodes"
  shows "(max_folder_files < length files \<longrightarrow> inspect_folder ro path nodes = Inl DatasetError)
     \<and> (length files \<le> max_folder_files \<longrightarrow> (\<forall>x \<in> set files. \<not> streamable ro x) \<longrightarrow> (\<exists>d. inspect_folder ro path nodes = Inr d))
     \<and> (\<forall>d. inspect_folder ro path nodes = Inr d \<longrightarrow> length files \<le> max_folder_files \<and>
         (\<exists>formats. dict_get ''file_count'' d = Some (VInt (int (length files)))
           \<and> dict_get ''bytes'' d = Some (VInt (sum_list (map nd_size files)))
           \<and> dict_get ''formats'' d = Some (VDict (counts_dict formats))
           \<and> (\<forall>k. count_of k formats = length (filter (\<lambda>x. format_id x = k) files))
           \<and> dict_get ''trainable_file_count'' d = Some (VInt (int (length (filter (streamable ro) files))))
           \<and> dict_get ''trainable'' d = Some (VBool (\<exists>x \<in> set files. streamable ro x))
           \<and> (\<forall>p. dict_get ''schema_probe'' d = Some (VStr p) \<longrightarrow> (\<exists>x \<in> set files. streamable ro x \<and> nd_path x = p))))"
proof -
  define sorted_files where "sorted_files = folder_files (sort_key (\<lambda>x. py_lower (nd_path x)) nodes)"
  define t where "t = fold (tally_file ro) sorted_files empty_tally"
  note same = folder_files_sort [where f = "\<lambda>x. py_lower (nd_path x)" and nodes = nodes, folded sorted_files_def assms]
  have walk: "walk_folder ro (sort_key (\<lambda>x. py_lower (nd_path x)) nodes) empty_tally =
      (if max_folder_files < length files then None else Some t)"
    using same(1) by (auto simp: walk_folder_exact empty_tally_def t_def max_folder_files_def simp flip: sorted_files_def)
  have count: "count_of k (ta_counts t) = length (filter (\<lambda>x. format_id x = k) files)" for k
    using tally_all [of ro sorted_files empty_tally] same(3) by (simp add: t_def empty_tally_def count_of_def)
  have all: "ta_files t = length files" "ta_bytes t = sum_list (map nd_size files)" "ta_trainable t = map nd_path (filter (streamable ro) sorted_files)"
    using tally_all [of ro sorted_files empty_tally] same(1,2) by (simp_all add: t_def empty_tally_def)
  have train: "length (ta_trainable t) = length (filter (streamable ro) files)" "ta_trainable t \<noteq> [] \<longleftrightarrow> (\<exists>x \<in> set files. streamable ro x)"
    using same(3) [of "streamable ro"] same(4) by (auto simp: all(3) filter_empty_conv)
  have ok: "length files \<le> max_folder_files \<and> (\<exists>formats. dict_get ''file_count'' d = Some (VInt (int (length files)))
           \<and> dict_get ''bytes'' d = Some (VInt (sum_list (map nd_size files)))
           \<and> dict_get ''formats'' d = Some (VDict (counts_dict formats))
           \<and> (\<forall>k. count_of k formats = length (filter (\<lambda>x. format_id x = k) files))
           \<and> dict_get ''trainable_file_count'' d = Some (VInt (int (length (filter (streamable ro) files))))
           \<and> dict_get ''trainable'' d = Some (VBool (\<exists>x \<in> set files. streamable ro x))
           \<and> (\<forall>p. dict_get ''schema_probe'' d = Some (VStr p) \<longrightarrow> (\<exists>x \<in> set files. streamable ro x \<and> nd_path x = p)))"
    if i: "inspect_folder ro path nodes = Inr d" for d
  proof -
    obtain t' where w: "walk_folder ro (sort_key (\<lambda>x. py_lower (nd_path x)) nodes) empty_tally = Some t'"
      and g: "\<And>k. k \<in> {''file_count'', ''bytes'', ''formats'', ''trainable_file_count'', ''trainable''} \<Longrightarrow> dict_get k d = dict_get k (folder_result path t')"
      and p: "\<And>p. dict_get ''schema_probe'' d = Some (VStr p) \<Longrightarrow> p \<in> set (ta_trainable t')"
      using inspect_folder_InrE [OF i] by metis
    have l: "length files \<le> max_folder_files" "t' = t" using w walk by (auto split: if_splits)
    have "\<exists>x \<in> set files. streamable ro x \<and> nd_path x = q" if "dict_get ''schema_probe'' d = Some (VStr q)" for q
      using p [OF that] same(4) by (auto simp: l(2) all(3))
    then show ?thesis using l(1) count train by (intro conjI exI [of _ "ta_counts t"]) (simp_all add: g l(2) folder_result_def all(1,2))
  qed
  have empty: "\<exists>d. inspect_folder ro path nodes = Inr d" if "length files \<le> max_folder_files" "\<forall>x \<in> set files. \<not> streamable ro x"
  proof -
    have "ta_trainable t = []" using that(2) train(2) by blast
    then show ?thesis using walk that(1) by (simp add: inspect_folder_def)
  qed
  have "inspect_folder ro path nodes = Inl DatasetError" if "max_folder_files < length files"
    using walk that by (simp add: inspect_folder_def)
  then show ?thesis using ok empty by blast
qed

section \<open>Concrete files\<close>

definition demo_router :: router where
  "demo_router = \<lparr>ro_readers = [\<lparr>re_name = ''npz'', re_extensions = [''.npz''], re_inspect = (\<lambda>_. Inr [(''suggested_target'', VStr ''y'')])\<rparr>],
     ro_probe = (\<lambda>_. None)\<rparr>"

theorem npz_inspected_as_model_witness:
  "\<exists>d. inspect_regular demo_router ''a.npz'' 9 = Inr d \<and> dict_get ''kind'' d = Some (VStr ''model'')"
proof -
  have s: "py_lower (path_suffix ''a.npz'') = ''.npz''" by code_simp
  have "''.npz'' \<in> set ingestor_extensions" by (simp add: ingestor_extensions_def)
  moreover have l: "py_lower ''.npz'' = ''.npz''" by code_simp
  obtain r where "reader_for (ro_readers demo_router) ''a.npz'' = Some r" by (simp add: reader_for_def demo_router_def s l)
  ultimately show ?thesis using npz_inspected_as_model [of "''a.npz''" demo_router r 9] by (simp add: s)
qed

theorem folder_inspection_exact_witness:
  "\<exists>d. inspect_folder demo_router ''f'' [\<lparr>nd_path = ''f/b.py'', nd_symlink = False, nd_file = True, nd_size = 7\<rparr>,
       \<lparr>nd_path = ''f/a'', nd_symlink = True, nd_file = True, nd_size = 5\<rparr>] = Inr d
     \<and> dict_get ''file_count'' d = Some (VInt 1) \<and> dict_get ''bytes'' d = Some (VInt 7)"
proof -
  let ?nodes = "[\<lparr>nd_path = ''f/b.py'', nd_symlink = False, nd_file = True, nd_size = 7\<rparr>, \<lparr>nd_path = ''f/a'', nd_symlink = True, nd_file = True, nd_size = 5\<rparr>]"
  have n: "path_name ''f/b.py'' = ''b.py''" "py_lower (path_suffix ''b.py'') = ''.py''" by code_simp+
  have f: "folder_files ?nodes = [\<lparr>nd_path = ''f/b.py'', nd_symlink = False, nd_file = True, nd_size = 7\<rparr>]" by (simp add: folder_files_def)
  have "\<not> streamable demo_router \<lparr>nd_path = ''f/b.py'', nd_symlink = False, nd_file = True, nd_size = 7\<rparr>"
    by (simp add: streamable_def n stream_extensions_def)
  then obtain d where d: "inspect_folder demo_router ''f'' ?nodes = Inr d"
    using folder_inspection_exact [OF refl, of ?nodes demo_router "''f''"] by (auto simp: f max_folder_files_def)
  have "dict_get ''file_count'' d = Some (VInt 1) \<and> dict_get ''bytes'' d = Some (VInt 7)"
    using folder_inspection_exact [OF refl, of ?nodes demo_router "''f''"] d by (auto simp: f)
  with d show ?thesis by blast
qed

theorem catalogue_truthful_witness:
  "recommendation (format_by_extension ''.csv'') = DirectTraining \<and> recommendation (format_by_extension ''.py'') \<noteq> DirectTraining"
proof -
  have "''.csv'' \<in> set ingestor_extensions" "''.py'' \<notin> set ingestor_extensions" by (simp_all add: ingestor_extensions_def)
  then show ?thesis using catalogue_truthful by blast
qed

end
