(* ===== verification/TextPrep.thy ===== *)
theory TextPrep imports KPrelude Models begin

unbundle bit_operations_syntax

text \<open>
  Text preparation: \<open>src/src/kernelyra/text_training.py\<close>. Text is a list of code points, its bytes
  are UTF-8. The byte tokenizer, the chunk plan with carried context, the masked examples and
  their padded batches. The planner of the optional native core is a parameter.
\<close>

section \<open>UTF-8\<close>

definition scalar :: "nat \<Rightarrow> bool" where
  "scalar c \<longleftrightarrow> c < 0x110000 \<and> \<not> (0xD800 \<le> c \<and> c < 0xE000)"

definition utf8_char :: "nat \<Rightarrow> nat list" where
  "utf8_char c =
     (if c < 0x80 then [c]
      else if c < 0x800 then [0xC0 + c div 64, 0x80 + c mod 64]
      else if c < 0x10000 then [0xE0 + c div 4096, 0x80 + c div 64 mod 64, 0x80 + c mod 64]
      else [0xF0 + c div 262144, 0x80 + c div 4096 mod 64, 0x80 + c div 64 mod 64, 0x80 + c mod 64])"

text \<open>\<open>text.encode("utf-8")\<close> refuses lone surrogates; \<open>bytes.decode("utf-8")\<close> refuses everything that
  is not the encoding of a text.\<close>

definition utf8 :: "nat list \<Rightarrow> nat list" where
  "utf8 cs = concat (map utf8_char cs)"

definition encode_text :: "nat list \<Rightarrow> kerror + nat list" where
  "encode_text cs = (if list_all scalar cs then Inr (utf8 cs) else Inl ValueError)"

definition is_cont :: "nat \<Rightarrow> bool" where
  "is_cont b \<longleftrightarrow> b AND 192 = 128"

definition utf8_next :: "nat list \<Rightarrow> (nat \<times> nat list) option" where
  "utf8_next bs = (case bs of
      [] \<Rightarrow> None
    | a # r \<Rightarrow>
        if a < 0x80 then Some (a, r)
        else if 0xC2 \<le> a \<and> a < 0xE0 then
          (case r of b # r1 \<Rightarrow> if is_cont b then Some ((a - 0xC0) * 64 + (b - 0x80), r1) else None | _ \<Rightarrow> None)
        else if 0xE0 \<le> a \<and> a < 0xF0 then
          (case r of b # c # r2 \<Rightarrow>
             (let v = (a - 0xE0) * 4096 + (b - 0x80) * 64 + (c - 0x80)
              in if is_cont b \<and> is_cont c \<and> 0x800 \<le> v \<and> scalar v then Some (v, r2) else None) | _ \<Rightarrow> None)
        else if 0xF0 \<le> a \<and> a < 0xF5 then
          (case r of b # c # d # r3 \<Rightarrow>
             (let v = (a - 0xF0) * 262144 + (b - 0x80) * 4096 + (c - 0x80) * 64 + (d - 0x80)
              in if is_cont b \<and> is_cont c \<and> is_cont d \<and> 0x10000 \<le> v \<and> scalar v then Some (v, r3) else None)
           | _ \<Rightarrow> None)
        else None)"

lemma utf8_next_shorter: "utf8_next bs = Some (c, r) \<Longrightarrow> length r < length bs"
  by (auto simp: utf8_next_def Let_def split: list.splits if_splits)

function decode_text :: "nat list \<Rightarrow> kerror + nat list" where
  "decode_text bs =
     (if bs = [] then Inr [] else
      case utf8_next bs of
        None \<Rightarrow> Inl ValueError
      | Some (c, r) \<Rightarrow> bind_result (decode_text r) (\<lambda>cs. Inr (c # cs)))"
  by auto

termination by (relation "measure length") (auto dest: utf8_next_shorter)

declare decode_text.simps [simp del]

lemma and_push_bit: "b AND push_bit n x = push_bit n (drop_bit n b AND x)" for b x :: nat
  by (rule bit_eqI) (auto simp: bit_and_iff bit_push_bit_iff bit_drop_bit_eq)

lemma and_192: "b AND 192 = b div 64 mod 4 * (64 :: nat)"
proof -
  have "(192 :: nat) = push_bit 6 (mask 2)" by (simp add: push_bit_eq_mult mask_eq_exp_minus_1)
  then have "b AND 192 = push_bit 6 (take_bit 2 (drop_bit 6 b))" by (simp only: and_push_bit take_bit_eq_mask)
  then show ?thesis by (simp add: push_bit_eq_mult drop_bit_eq_div take_bit_eq_mod)
qed

lemma is_cont_iff: "b < 256 \<Longrightarrow> is_cont b \<longleftrightarrow> 128 \<le> b \<and> b < 192"
  by (auto simp: is_cont_def and_192)

lemma is_cont_tail [simp]: "is_cont (128 + x mod 64)"
proof -
  have "x mod 64 < 64" by simp
  then show ?thesis by (subst is_cont_iff) linarith+
qed

lemma utf8_next_char: "scalar c \<Longrightarrow> utf8_next (utf8_char c @ r) = Some (c, r)"
proof -
  assume s: "scalar c"
  consider "c < 0x80" | "0x80 \<le> c" "c < 0x800" | "0x800 \<le> c" "c < 0x10000" | "0x10000 \<le> c" "c < 0x110000"
    using s by (fastforce simp: scalar_def)
  then show ?thesis
  proof cases
    case 2
    have d: "2 \<le> c div 64" "c div 64 < 32" using 2 by auto
    then show ?thesis using 2 by (simp add: utf8_char_def utf8_next_def)
  next
    case 3
    have d: "c div 4096 < 16" using 3 by auto
    have "c div 64 div 64 = c div 4096" by (simp add: div_mult2_eq [symmetric])
    then have v: "c div 4096 * 4096 + c div 64 mod 64 * 64 + c mod 64 = c"
      using div_mult_mod_eq [of c 64] div_mult_mod_eq [of "c div 64" 64] by linarith
    then show ?thesis using 3 d s by (simp add: utf8_char_def utf8_next_def)
  next
    case 4
    have d: "c div 262144 < 5" using 4 by auto
    have "c div 64 div 64 = c div 4096" "c div 4096 div 64 = c div 262144" by (simp_all add: div_mult2_eq [symmetric])
    then have v: "c div 262144 * 262144 + c div 4096 mod 64 * 4096 + c div 64 mod 64 * 64 + c mod 64 = c"
      using div_mult_mod_eq [of c 64] div_mult_mod_eq [of "c div 64" 64] div_mult_mod_eq [of "c div 4096" 64] by linarith
    then show ?thesis using 4 d s by (simp add: utf8_char_def utf8_next_def)
  qed (simp add: utf8_char_def utf8_next_def)
qed

lemma utf8_simps [simp]: "utf8 [] = []" "utf8 (c # cs) = utf8_char c @ utf8 cs" "utf8 (cs @ ds) = utf8 cs @ utf8 ds"
  by (simp_all add: utf8_def)

lemma utf8_char_nonempty [simp]: "utf8_char c \<noteq> []"
  by (simp add: utf8_char_def)

lemma decode_utf8: "list_all scalar cs \<Longrightarrow> decode_text (utf8 cs) = Inr cs"
  by (induction cs) (simp_all add: decode_text.simps [of "_ @ _"] decode_text.simps [of "[]"] utf8_next_char)

section \<open>The chunk plan\<close>

fun floor_down :: "nat list \<Rightarrow> nat \<Rightarrow> nat" where
  "floor_down p 0 = 0"
| "floor_down p (Suc i) = (if Suc i < length p \<and> is_cont (p ! Suc i) then floor_down p i else Suc i)"

definition floor_boundary :: "nat list \<Rightarrow> nat \<Rightarrow> nat" where
  "floor_boundary p i = floor_down p (min (length p) i)"

text \<open>\<open>payload.rfind(separator, lo, hi)\<close> for one byte.\<close>

definition rfind :: "nat list \<Rightarrow> nat \<Rightarrow> nat \<Rightarrow> nat \<Rightarrow> nat option" where
  "rfind p b lo hi =
     (let found = filter (\<lambda>k. p ! k = b) [lo..<hi] in if found = [] then None else Some (last found))"

definition separators :: "nat list" where
  "separators = [10, 32, 46, 33, 63]"

fun prefer_separator :: "nat list \<Rightarrow> nat \<Rightarrow> nat \<Rightarrow> nat \<Rightarrow> nat list \<Rightarrow> nat" where
  "prefer_separator p lo start boundary [] = boundary"
| "prefer_separator p lo start boundary (b # bs) =
     (case rfind p b lo boundary of
        None \<Rightarrow> prefer_separator p lo start boundary bs
      | Some k \<Rightarrow> let candidate = floor_boundary p (k + 1)
                  in if start < candidate then candidate else prefer_separator p lo start boundary bs)"

record text_chunk =
  tc_context_start :: nat
  tc_start :: nat
  tc_end :: nat
  tc_prefix :: nat
  tc_context :: "nat list"
  tc_content :: "nat list"

definition chunk_end :: "nat list \<Rightarrow> nat \<Rightarrow> nat \<Rightarrow> nat \<Rightarrow> nat \<Rightarrow> nat" where
  "chunk_end p minimum target limit start =
     (let preferred = floor_boundary p (min limit (start + target));
          lo = floor_boundary p (min limit (start + minimum));
          boundary = prefer_separator p lo start (if start < preferred then preferred else limit) separators
      in if start < boundary then boundary else limit)"

lemma chunk_end_gt: "start < limit \<Longrightarrow> start < chunk_end p minimum target limit start"
  by (simp add: chunk_end_def Let_def)

function chunk_plan :: "nat list \<Rightarrow> nat \<Rightarrow> nat \<Rightarrow> nat \<Rightarrow> nat \<Rightarrow> nat \<Rightarrow> kerror + text_chunk list" where
  "chunk_plan p minimum target maximum overlap start =
     (if length p \<le> start then Inr [] else
      let limit = floor_boundary p (min (length p) (start + maximum))
      in if limit \<le> start then Inl ValueError
         else let stop = chunk_end p minimum target limit start;
                  context_start = floor_boundary p (start - overlap)
              in bind_result (decode_text (KPrelude.slice context_start stop p)) (\<lambda>context.
                 bind_result (decode_text (KPrelude.slice start stop p)) (\<lambda>content.
                 bind_result (chunk_plan p minimum target maximum overlap stop) (\<lambda>rest.
                   Inr (\<lparr>tc_context_start = context_start, tc_start = start, tc_end = stop,
                         tc_prefix = start - context_start, tc_context = context, tc_content = content\<rparr> # rest)))))"
  by auto

termination
proof (relation "measure (\<lambda>(p, _, _, _, _, start). length p - start)", goal_cases)
  case (2 p minimum target maximum overlap start limit stop)
  then have "start < stop" using chunk_end_gt [of start limit p minimum target] by simp
  with 2 show ?case by simp
qed simp

declare chunk_plan.simps [simp del]

definition python_chunk_plan ::
  "nat list \<Rightarrow> nat \<Rightarrow> nat \<Rightarrow> nat \<Rightarrow> nat \<Rightarrow> kerror + text_chunk list" where
  "python_chunk_plan cs minimum target maximum overlap =
     bind_result (encode_text cs) (\<lambda>p. chunk_plan p minimum target maximum overlap 0)"

text \<open>\<open>core\<close> is the planner of the native core when it is loaded; a failure of it falls back.\<close>

definition plan_text_for_training ::
  "(nat list \<Rightarrow> int \<Rightarrow> int \<Rightarrow> int \<Rightarrow> int \<Rightarrow> text_chunk list option) option
     \<Rightarrow> nat list \<Rightarrow> int \<Rightarrow> int \<Rightarrow> int \<Rightarrow> int \<Rightarrow> kerror + text_chunk list" where
  "plan_text_for_training core cs minimum target maximum overlap =
     (if \<not> (1 \<le> minimum \<and> minimum \<le> target \<and> target \<le> maximum \<and> maximum \<le> 16 * 1024 * 1024) then Inl ValueError
      else if \<not> (0 \<le> overlap \<and> overlap < maximum) then Inl ValueError
      else let fallback = python_chunk_plan cs (nat minimum) (nat target) (nat maximum) (nat overlap)
           in case core of
                None \<Rightarrow> fallback
              | Some f \<Rightarrow> (case f cs minimum target maximum overlap of Some chunks \<Rightarrow> Inr chunks | None \<Rightarrow> fallback))"

section \<open>Boundaries\<close>

definition boundary :: "nat list \<Rightarrow> nat \<Rightarrow> bool" where
  "boundary p i \<longleftrightarrow> i \<le> length p \<and> (i = 0 \<or> i = length p \<or> \<not> is_cont (p ! i))"

lemma utf8_char_tail: "0 < i \<Longrightarrow> i < length (utf8_char c) \<Longrightarrow> is_cont (utf8_char c ! i)"
  by (auto simp: utf8_char_def nth_Cons' less_Suc_eq split: if_splits)

lemma boundary_split:
  "boundary (utf8 cs) i \<Longrightarrow> \<exists>k \<le> length cs. take i (utf8 cs) = utf8 (take k cs) \<and> drop i (utf8 cs) = utf8 (drop k cs)"
proof (induction cs arbitrary: i)
  case (Cons c cs)
  show ?case
  proof (cases "i < length (utf8_char c)")
    case True
    with Cons.prems utf8_char_tail [of i c] have "i = 0"
      by (cases "i = 0") (auto simp: boundary_def nth_append)
    then show ?thesis by (intro exI [of _ 0]) simp
  next
    case False
    then have "boundary (utf8 cs) (i - length (utf8_char c))"
      using Cons.prems by (auto simp: boundary_def nth_append)
    from Cons.IH [OF this] obtain k where "k \<le> length cs" "take (i - length (utf8_char c)) (utf8 cs) = utf8 (take k cs)"
      "drop (i - length (utf8_char c)) (utf8 cs) = utf8 (drop k cs)" by blast
    with False show ?thesis by (intro exI [of _ "Suc k"]) simp
  qed
qed simp

lemma floor_down_bounds: "floor_down p i \<le> i" "i \<le> length p \<Longrightarrow> boundary p (floor_down p i)"
  by (induction i) (auto simp: boundary_def)

lemma floor_down_greatest: "boundary p j \<Longrightarrow> j \<le> i \<Longrightarrow> i \<le> length p \<Longrightarrow> j \<le> floor_down p i"
  by (induction i) (auto simp: boundary_def le_Suc_eq)

lemma floor_bounds [simp]: "floor_boundary p i \<le> i" "floor_boundary p i \<le> length p" "boundary p (floor_boundary p i)"
  using floor_down_bounds [where p = p and i = "min (length p) i"] by (auto simp: floor_boundary_def)

lemma floor_greatest: "boundary p j \<Longrightarrow> j \<le> i \<Longrightarrow> j \<le> floor_boundary p i"
  using floor_down_greatest [of p j "min (length p) i"] by (auto simp: floor_boundary_def boundary_def)

lemma boundary_ends [simp]: "boundary p 0" "boundary p (length p)"
  by (simp_all add: boundary_def)

lemma utf8_char_length: "length (utf8_char c) \<le> 4"
  by (simp add: utf8_char_def)

lemma utf8_char_head: "scalar c \<Longrightarrow> \<not> is_cont (hd (utf8_char c))"
  by (subst is_cont_iff) (auto simp: utf8_char_def scalar_def)

lemma boundary_near:
  "list_all scalar cs \<Longrightarrow> i \<le> length (utf8 cs) \<Longrightarrow> \<exists>j \<le> i. boundary (utf8 cs) j \<and> i \<le> j + 3"
proof (induction cs arbitrary: i)
  case (Cons c cs)
  let ?n = "length (utf8_char c)"
  show ?case
  proof (cases "i < ?n")
    case True
    with utf8_char_length [of c] show ?thesis by (intro exI [of _ 0]) (simp add: boundary_def)
  next
    case False
    then have "i - ?n \<le> length (utf8 cs)" using Cons.prems(2) by simp
    then obtain j where j: "j \<le> i - ?n" "boundary (utf8 cs) j" "i - ?n \<le> j + 3"
      using Cons.IH [of "i - ?n"] Cons.prems(1) by auto
    have "boundary (utf8 (c # cs)) (j + ?n)"
    proof (cases cs)
      case Nil
      with j(2) show ?thesis by (simp add: boundary_def)
    next
      case (Cons d ds)
      have "\<not> is_cont (utf8 cs ! 0)" using \<open>list_all scalar (c # cs)\<close> Cons utf8_char_head [of d]
        by (simp add: nth_append hd_conv_nth)
      with j(2) show ?thesis by (cases "j = 0") (auto simp: boundary_def nth_append)
    qed
    with j False show ?thesis by (intro exI [of _ "j + ?n"]) auto
  qed
qed simp

lemma floor_near: "list_all scalar cs \<Longrightarrow> i \<le> length (utf8 cs) \<Longrightarrow> i \<le> floor_boundary (utf8 cs) i + 3"
  using boundary_near [of cs i] floor_greatest [of "utf8 cs" _ i] by fastforce

lemma decode_slice:
  assumes "list_all scalar cs" and "boundary (utf8 cs) a" and "boundary (utf8 cs) b" and "a \<le> b"
  obtains ds where "decode_text (KPrelude.slice a b (utf8 cs)) = Inr ds" "utf8 ds = KPrelude.slice a b (utf8 cs)"
    "list_all scalar ds"
proof -
  obtain k where k: "drop a (utf8 cs) = utf8 (drop k cs)" using boundary_split [OF assms(2)] by blast
  have "boundary (utf8 (drop k cs)) (b - a)"
    using assms(3,4) by (auto simp: boundary_def k [symmetric])
  then obtain j where j: "take (b - a) (utf8 (drop k cs)) = utf8 (take j (drop k cs))"
    using boundary_split by blast
  have "list_all scalar (take j (drop k cs))"
    using assms(1) by (auto simp: list_all_iff dest!: in_set_takeD in_set_dropD)
  from this decode_utf8 [OF this] show thesis
    using j k by (intro that [of "take j (drop k cs)"]) (simp_all add: KPrelude.slice_def)
qed

lemma prefer_separator_bounds:
  assumes "boundary p bd"
  shows "boundary p (prefer_separator p lo start bd bs) \<and> prefer_separator p lo start bd bs \<le> bd
    \<and> (start < bd \<longrightarrow> start < prefer_separator p lo start bd bs)"
proof (induction bs)
  case (Cons b bs)
  have "floor_boundary p (k + 1) \<le> bd" if "rfind p b lo bd = Some k" for k
  proof -
    have "last (filter (\<lambda>k. p ! k = b) [lo..<bd]) \<in> set [lo..<bd]"
      using that last_in_set [of "filter (\<lambda>k. p ! k = b) [lo..<bd]"] by (auto simp: rfind_def Let_def split: if_splits)
    then have "k < bd" using that by (auto simp: rfind_def Let_def split: if_splits)
    then show ?thesis using floor_bounds(1) [of p "k + 1"] by linarith
  qed
  with Cons show ?case by (auto simp: Let_def split: option.split)
qed (simp add: assms)

lemma chunk_end_bounds:
  assumes "boundary p limit" and "start < limit"
  shows "boundary p (chunk_end p mn tg limit start)" "chunk_end p mn tg limit start \<le> limit"
proof -
  define bd where "bd = (if start < floor_boundary p (min limit (start + tg)) then floor_boundary p (min limit (start + tg)) else limit)"
  have "floor_boundary p (min limit (start + tg)) \<le> limit" using floor_bounds(1) [of p "min limit (start + tg)"] by linarith
  then have bd: "boundary p bd" "bd \<le> limit" using assms(1) by (auto simp: bd_def)
  from prefer_separator_bounds [OF bd(1)] have "boundary p (prefer_separator p lo start bd separators)"
    "prefer_separator p lo start bd separators \<le> bd" for lo by auto
  then show "boundary p (chunk_end p mn tg limit start)" "chunk_end p mn tg limit start \<le> limit"
    using assms(1) bd(2) by (auto simp: chunk_end_def Let_def bd_def [symmetric] intro: le_trans)
qed

definition chunk_ok :: "nat list \<Rightarrow> nat \<Rightarrow> nat \<Rightarrow> text_chunk \<Rightarrow> bool" where
  "chunk_ok p maximum overlap c \<longleftrightarrow> tc_context_start c \<le> tc_start c \<and> tc_start c < tc_end c
     \<and> tc_end c \<le> tc_start c + maximum \<and> tc_end c \<le> length p
     \<and> tc_prefix c = tc_start c - tc_context_start c \<and> tc_prefix c \<le> overlap + 3
     \<and> utf8 (tc_context c) = KPrelude.slice (tc_context_start c) (tc_end c) p
     \<and> utf8 (tc_content c) = KPrelude.slice (tc_start c) (tc_end c) p \<and> list_all scalar (tc_context c)"

lemma chunk_plan_ok:
  assumes "list_all scalar cs" and "p = utf8 cs" and "boundary p start" and "4 \<le> maximum"
  shows "\<exists>chunks. chunk_plan p mn tg maximum overlap start = Inr chunks \<and>
    concat (map (\<lambda>c. utf8 (tc_content c)) chunks) = drop start p \<and> list_all (chunk_ok p maximum overlap) chunks"
  using assms
proof (induction p mn tg maximum overlap start rule: chunk_plan.induct)
  case (1 p mn tg maximum overlap start)
  show ?case
  proof (cases "length p \<le> start")
    case True
    then show ?thesis by (simp add: chunk_plan.simps)
  next
    case False
    define limit where "limit = floor_boundary p (min (length p) (start + maximum))"
    have limit: "start < limit"
    proof (cases "length p \<le> start + maximum")
      case True
      then show ?thesis using False floor_greatest [of p "length p" "length p"] by (simp add: limit_def min_def)
    next
      case False
      then show ?thesis using floor_near [OF "1.prems"(1), of "start + maximum"] "1.prems"(2,4) by (simp add: limit_def)
    qed
    have lb: "boundary p limit" "limit \<le> start + maximum" "limit \<le> length p"
      using floor_bounds(1,2) [of p "min (length p) (start + maximum)"] by (simp_all add: limit_def)
    define stop where "stop = chunk_end p mn tg limit start"
    have stop: "start < stop" "boundary p stop" "stop \<le> limit"
      using chunk_end_gt [OF limit] chunk_end_bounds [OF lb(1) limit] by (simp_all add: stop_def)
    define ctx where "ctx = floor_boundary p (start - overlap)"
    have ctx: "boundary p ctx" "ctx \<le> start" "start - ctx \<le> overlap + 3"
    proof -
      have "start - overlap \<le> length (utf8 cs)" using False "1.prems"(2) by simp
      from floor_near [OF "1.prems"(1) this] show "start - ctx \<le> overlap + 3" using "1.prems"(2) by (simp add: ctx_def)
      show "ctx \<le> start" unfolding ctx_def by (rule le_trans [OF floor_bounds(1) diff_le_self])
    qed (simp add: ctx_def)
    obtain ctext where c: "decode_text (KPrelude.slice ctx stop p) = Inr ctext" "utf8 ctext = KPrelude.slice ctx stop p"
      "list_all scalar ctext" using decode_slice [of cs ctx stop] "1.prems"(1,2) ctx stop by (metis le_trans less_imp_le)
    obtain content where d: "decode_text (KPrelude.slice start stop p) = Inr content"
      "utf8 content = KPrelude.slice start stop p"
      using decode_slice [of cs start stop] "1.prems"(1-3) stop by (metis less_imp_le)
    obtain rest where r: "chunk_plan p mn tg maximum overlap stop = Inr rest"
      "concat (map (\<lambda>c. utf8 (tc_content c)) rest) = drop stop p" "list_all (chunk_ok p maximum overlap) rest"
      using "1.IH" [OF False limit_def _ stop_def ctx_def "1.prems"(1,2) stop(2) "1.prems"(4)] limit by auto
    have "chunk_plan p mn tg maximum overlap start = Inr (\<lparr>tc_context_start = ctx, tc_start = start, tc_end = stop,
        tc_prefix = start - ctx, tc_context = ctext, tc_content = content\<rparr> # rest)"
      by (subst chunk_plan.simps)
        (use False limit c(1) d(1) r(1) in \<open>simp add: Let_def limit_def [symmetric] stop_def [symmetric] ctx_def [symmetric]\<close>)
    moreover have "KPrelude.slice start stop p @ drop stop p = drop start p"
      using stop(1) by (simp add: KPrelude.slice_def) (metis append_take_drop_id drop_drop le_add_diff_inverse2 less_imp_le)
    moreover have "chunk_ok p maximum overlap \<lparr>tc_context_start = ctx, tc_start = start, tc_end = stop,
        tc_prefix = start - ctx, tc_context = ctext, tc_content = content\<rparr>"
      using c(2,3) d(2) stop lb ctx by (simp add: chunk_ok_def)
    ultimately show ?thesis using d(2) r by simp
  qed
qed

section \<open>Tokens, masks and batches\<close>

record tokenizer =
  tk_bos :: int
  tk_pad :: int

definition byte_tokenizer :: tokenizer where
  "byte_tokenizer = \<lparr>tk_bos = 256, tk_pad = 257\<rparr>"

definition encode_tokens :: "nat list \<Rightarrow> kerror + int list" where
  "encode_tokens cs = bind_result (encode_text cs) (\<lambda>bs. Inr (map int bs))"

fun token_bytes :: "tokenizer \<Rightarrow> int list \<Rightarrow> kerror + nat list" where
  "token_bytes k [] = Inr []"
| "token_bytes k (v # vs) =
     (if v \<in> {tk_bos k, tk_pad k} then token_bytes k vs
      else if \<not> (0 \<le> v \<and> v \<le> 255) then Inl ValueError
      else bind_result (token_bytes k vs) (\<lambda>bs. Inr (nat v # bs)))"

definition decode_tokens :: "tokenizer \<Rightarrow> int list \<Rightarrow> kerror + nat list" where
  "decode_tokens k vs = bind_result (token_bytes k vs) decode_text"

record example =
  ex_input :: "int list"
  ex_target :: "int list"
  ex_mask :: "pyfloat list"
  ex_prefix :: nat
  ex_content :: int

fun masked_examples :: "tokenizer \<Rightarrow> text_chunk list \<Rightarrow> kerror + example list" where
  "masked_examples k [] = Inr []"
| "masked_examples k (c # chunks) =
     bind_result (encode_tokens (tc_context c)) (\<lambda>tokens.
       if tokens = [] then masked_examples k chunks else
       let sequence = tk_bos k # tokens;
           mask = replicate (tc_prefix c) (Fin 0) @ replicate (length tokens - tc_prefix c) (Fin 1)
       in if length (butlast sequence) \<noteq> length (tl sequence) \<or> length (tl sequence) \<noteq> length mask then Inl RuntimeError
          else bind_result (masked_examples k chunks) (\<lambda>rest.
            Inr (\<lparr>ex_input = butlast sequence, ex_target = tl sequence, ex_mask = mask, ex_prefix = tc_prefix c,
                  ex_content = int (length tokens) - int (tc_prefix c)\<rparr> # rest)))"

definition prepare_masked_text_examples ::
  "(nat list \<Rightarrow> int \<Rightarrow> int \<Rightarrow> int \<Rightarrow> int \<Rightarrow> text_chunk list option) option \<Rightarrow> tokenizer
     \<Rightarrow> nat list \<Rightarrow> int \<Rightarrow> int \<Rightarrow> int \<Rightarrow> int \<Rightarrow> kerror + example list" where
  "prepare_masked_text_examples core k cs minimum target maximum overlap =
     bind_result (plan_text_for_training core cs minimum target maximum overlap) (masked_examples k)"

text \<open>The four padded arrays, by rows. The sequences of an example have one length.\<close>

record text_batch =
  tb_input :: "int list list"
  tb_target :: "int list list"
  tb_loss :: "pyfloat list list"
  tb_attention :: "pyfloat list list"

definition fill :: "nat \<Rightarrow> 'a \<Rightarrow> 'a list \<Rightarrow> 'a list" where
  "fill width pad xs = xs @ replicate (width - length xs) pad"

definition batch_width :: "example list \<Rightarrow> nat" where
  "batch_width examples = fold max (map (\<lambda>e. length (ex_input e)) examples) 0"

definition padded_rows :: "tokenizer \<Rightarrow> nat \<Rightarrow> example list \<Rightarrow> text_batch" where
  "padded_rows k w examples = \<lparr>tb_input = map (\<lambda>e. fill w (tk_pad k) (ex_input e)) examples,
     tb_target = map (\<lambda>e. fill w (tk_pad k) (ex_target e)) examples,
     tb_loss = map (\<lambda>e. fill w (Fin 0) (ex_mask e)) examples,
     tb_attention = map (\<lambda>e. fill w (Fin 0) (replicate (length (ex_input e)) (Fin 1))) examples\<rparr>"

definition batch_masked_text_examples :: "tokenizer \<Rightarrow> int option \<Rightarrow> example list \<Rightarrow> kerror + text_batch" where
  "batch_masked_text_examples k max_tokens examples =
     (if examples = [] then Inl ValueError else
      let width = batch_width examples
      in case max_tokens of
           None \<Rightarrow> Inr (padded_rows k width examples)
         | Some limit \<Rightarrow> if \<not> (1 \<le> limit \<and> limit \<le> 16 * 1024 * 1024) then Inl ValueError
                         else if limit < int width then Inl ValueError
                         else Inr (padded_rows k (nat limit) examples))"

function batch_slices :: "nat \<Rightarrow> 'a list \<Rightarrow> 'a list list" where
  "batch_slices n xs = (if n = 0 \<or> xs = [] then [] else take n xs # batch_slices n (drop n xs))"
  by auto

termination by (relation "measure (length \<circ> snd)") auto

declare batch_slices.simps [simp del]

fun each_result :: "('a \<Rightarrow> 'e + 'b) \<Rightarrow> 'a list \<Rightarrow> 'e + 'b list" where
  "each_result f [] = Inr []"
| "each_result f (x # xs) = bind_result (f x) (\<lambda>y. bind_result (each_result f xs) (\<lambda>ys. Inr (y # ys)))"

definition iter_masked_text_batches :: "tokenizer \<Rightarrow> int \<Rightarrow> example list \<Rightarrow> kerror + text_batch list" where
  "iter_masked_text_batches k batch_size examples =
     (if batch_size < 1 then Inl ValueError
      else each_result (batch_masked_text_examples k None) (batch_slices (nat batch_size) examples))"

section \<open>Round trips\<close>

lemma token_bytes_append: "token_bytes k (us @ vs) =
    bind_result (token_bytes k us) (\<lambda>as. bind_result (token_bytes k vs) (\<lambda>bs. Inr (as @ bs)))"
  by (induction us) (auto simp: bind_result_def split: sum.split)

lemma utf8_bytes: "list_all scalar cs \<Longrightarrow> b \<in> set (utf8 cs) \<Longrightarrow> b < 256"
  by (induction cs) (auto simp: utf8_char_def scalar_def split: if_splits)

lemma token_bytes_int:
  "(\<And>b. b \<in> set bs \<Longrightarrow> b < 256) \<Longrightarrow> 255 < tk_bos k \<Longrightarrow> 255 < tk_pad k \<Longrightarrow> token_bytes k (map int bs) = Inr bs"
  by (induction bs) fastforce+

lemma token_bytes_special: "set vs \<subseteq> {tk_bos k, tk_pad k} \<Longrightarrow> token_bytes k vs = Inr []"
  by (induction vs) auto

text \<open>Tokenizing is reversible: the text comes back from its tokens, with the start token in front
  and any padding behind, and exactly the texts without lone surrogates have tokens.\<close>

theorem tokenizer_roundtrip:
  "case encode_tokens cs of
     Inr tokens \<Rightarrow> list_all scalar cs \<and>
       decode_tokens byte_tokenizer (256 # tokens @ replicate n 257) = Inr cs
   | Inl e \<Rightarrow> e = ValueError \<and> \<not> list_all scalar cs"
proof (cases "list_all scalar cs")
  case True
  have "token_bytes byte_tokenizer (map int (utf8 cs)) = Inr (utf8 cs)"
    by (rule token_bytes_int) (use utf8_bytes [OF True] in \<open>auto simp: byte_tokenizer_def\<close>)
  moreover have "token_bytes byte_tokenizer (replicate n 257) = Inr []"
    by (rule token_bytes_special) (auto simp: byte_tokenizer_def)
  ultimately show ?thesis
    using True decode_utf8 [OF True]
    by (simp add: encode_tokens_def encode_text_def decode_tokens_def token_bytes_append) (simp add: byte_tokenizer_def)
qed (simp add: encode_tokens_def encode_text_def)

section \<open>What is learned\<close>

definition learned :: "example \<Rightarrow> int list" where
  "learned e = map fst (filter (\<lambda>(t, m). m = Fin 1) (zip (ex_target e) (ex_mask e)))"

definition example_ok :: "example \<Rightarrow> bool" where
  "example_ok e \<longleftrightarrow> length (ex_input e) = length (ex_target e) \<and> length (ex_mask e) = length (ex_target e)
     \<and> ex_target e \<noteq> []"

lemma filter_mask: "length xs = n + k \<Longrightarrow>
    map fst (filter (\<lambda>(t, m). m = Fin 1) (zip xs (replicate n (Fin 0) @ replicate k (Fin 1)))) = drop n xs"
  by (simp add: zip_append2 zip_replicate2 filter_map comp_def)

lemma masked_chunk:
  assumes c: "chunk_ok p maximum overlap c"
  shows "\<exists>e. masked_examples k (c # chunks) = bind_result (masked_examples k chunks) (\<lambda>rest. Inr (e # rest))
    \<and> learned e = map int (utf8 (tc_content c)) \<and> example_ok e
    \<and> ex_input e = tk_bos k # butlast (ex_target e) \<and> length (ex_target e) \<le> maximum + overlap + 3"
proof -
  let ?t = "map int (utf8 (tc_context c))" and ?n = "tc_prefix c"
  define a b d where "a = tc_context_start c" and "b = tc_start c" and "d = tc_end c"
  have n: "?n = b - a" "a \<le> b" "b < d" "d \<le> b + maximum" "d \<le> length p" "b - a \<le> overlap + 3"
    and u: "utf8 (tc_context c) = KPrelude.slice a d p" "utf8 (tc_content c) = KPrelude.slice b d p"
    and s: "list_all scalar (tc_context c)"
    using c by (auto simp: chunk_ok_def a_def b_def d_def)
  have len: "length ?t = d - a" using n u by simp
  then have ne: "?t \<noteq> []" using n by auto
  have content: "drop ?n ?t = map int (utf8 (tc_content c))"
    using n u by (simp add: drop_map KPrelude.slice_def drop_take)
  define e where "e = \<lparr>ex_input = butlast (tk_bos k # ?t), ex_target = ?t,
      ex_mask = replicate ?n (Fin 0) @ replicate (length ?t - ?n) (Fin 1), ex_prefix = ?n,
      ex_content = int (length ?t) - int ?n\<rparr>"
  have "masked_examples k (c # chunks) = bind_result (masked_examples k chunks) (\<lambda>rest. Inr (e # rest))"
    using s ne len n by (simp add: encode_tokens_def encode_text_def Let_def e_def)
  moreover have "learned e = map int (utf8 (tc_content c))"
    using filter_mask [of ?t ?n "length ?t - ?n"] len n content by (simp add: learned_def e_def)
  moreover have "example_ok e" "ex_input e = tk_bos k # butlast (ex_target e)"
    using len n ne by (auto simp: example_ok_def e_def)
  moreover have "length (ex_target e) \<le> maximum + overlap + 3" using len n by (simp add: e_def)
  ultimately show ?thesis by blast
qed

lemma masked_examples_ok:
  assumes "list_all (chunk_ok p maximum overlap) chunks"
  shows "\<exists>es. masked_examples k chunks = Inr es \<and>
    concat (map learned es) = map int (concat (map (\<lambda>c. utf8 (tc_content c)) chunks)) \<and>
    list_all (\<lambda>e. example_ok e \<and> ex_input e = tk_bos k # butlast (ex_target e) \<and>
      length (ex_target e) \<le> maximum + overlap + 3) es"
  using assms
proof (induction chunks)
  case (Cons c chunks)
  then obtain es where "masked_examples k chunks = Inr es"
    "concat (map learned es) = map int (concat (map (\<lambda>c. utf8 (tc_content c)) chunks))"
    "list_all (\<lambda>e. example_ok e \<and> ex_input e = tk_bos k # butlast (ex_target e) \<and>
      length (ex_target e) \<le> maximum + overlap + 3) es" by auto
  with masked_chunk [of p maximum overlap c k chunks] Cons.prems show ?case by fastforce
qed simp

text \<open>C20: Every byte of the text is learned exactly once, in order: the targets that carry loss, over all
  examples, are the bytes of the text, whatever is carried over as context. Each input is its target
  shifted by one behind the start token, the three sequences of an example have one length, and no
  example is longer than the maximum and the overlap allow.\<close>

theorem every_byte_learned_once:
  assumes "list_all scalar cs" and "1 \<le> minimum" and "minimum \<le> target" and "target \<le> maximum"
    and "4 \<le> maximum" and "maximum \<le> 16 * 1024 * 1024" and "0 \<le> overlap" and "overlap < maximum"
  shows "\<exists>es. prepare_masked_text_examples None k cs minimum target maximum overlap = Inr es
    \<and> concat (map learned es) = map int (utf8 cs)
    \<and> list_all (\<lambda>e. example_ok e \<and> ex_input e = tk_bos k # butlast (ex_target e)
        \<and> length (ex_target e) \<le> nat maximum + nat overlap + 3) es"
proof -
  have "4 \<le> nat maximum" using assms(5) by simp
  from chunk_plan_ok [OF assms(1) refl boundary_ends(1) this, of "nat minimum" "nat target" "nat overlap"]
  obtain chunks where "chunk_plan (utf8 cs) (nat minimum) (nat target) (nat maximum) (nat overlap) 0 = Inr chunks"
    and "concat (map (\<lambda>c. utf8 (tc_content c)) chunks) = utf8 cs"
    and "list_all (chunk_ok (utf8 cs) (nat maximum) (nat overlap)) chunks" by auto
  with masked_examples_ok [of "utf8 cs" "nat maximum" "nat overlap" chunks k] assms
  show ?thesis
    by (simp add: prepare_masked_text_examples_def plan_text_for_training_def python_chunk_plan_def encode_text_def)
qed

theorem every_byte_learned_once_witness:
  "\<exists>es. prepare_masked_text_examples None byte_tokenizer [72, 233, 0x20AC, 33, 104, 105] 1 4 4 2 = Inr es
    \<and> concat (map learned es) = [72, 195, 169, 226, 130, 172, 33, 104, 105]"
proof -
  have "utf8 [72, 233, 0x20AC, 33, 104, 105] = [72, 195, 169, 226, 130, 172, 33, 104, 105]"
    by (simp add: utf8_char_def)
  then show ?thesis
    using every_byte_learned_once [of "[72, 233, 0x20AC, 33, 104, 105]" 1 4 4 2 byte_tokenizer]
    by (auto simp: scalar_def)
qed

section \<open>What a batch keeps\<close>

text \<open>The rows of a batch up to where attention ends.\<close>

definition unpad :: "text_batch \<Rightarrow> (int list \<times> int list \<times> pyfloat list) list" where
  "unpad b = map (\<lambda>(i, t, m, a). let n = length (takeWhile (\<lambda>x. x = Fin 1) a) in (take n i, take n t, take n m))
     (zip (tb_input b) (zip (tb_target b) (zip (tb_loss b) (tb_attention b))))"

lemma fill_take: "length xs \<le> w \<Longrightarrow> take (length xs) (fill w p xs) = xs"
  by (simp add: fill_def)

lemma fill_attention: "length (takeWhile (\<lambda>x. x = Fin 1) (fill w (Fin 0) (replicate n (Fin 1)))) = n"
  by (simp add: fill_def takeWhile_append)

lemma fold_max_ge: "(x :: nat) \<in> set xs \<or> x \<le> a \<Longrightarrow> x \<le> fold max xs a"
proof (induction xs arbitrary: a)
  case (Cons y ys)
  from Cons.prems have "x \<in> set ys \<or> x \<le> max y a" by auto
  from Cons.IH [OF this] show ?case by simp
qed simp

lemma batch_width_ge: "e \<in> set es \<Longrightarrow> length (ex_input e) \<le> batch_width es"
  unfolding batch_width_def by (rule fold_max_ge) simp

lemma unpad_rows:
  "(\<And>e. e \<in> set es \<Longrightarrow> example_ok e \<and> length (ex_input e) \<le> w) \<Longrightarrow>
   unpad (padded_rows k w es)
   = map (\<lambda>e. (ex_input e, ex_target e, ex_mask e)) es"
proof (induction es)
  case (Cons e es)
  have "example_ok e" "length (ex_input e) \<le> w" using Cons.prems by auto
  then have "take (length (ex_input e)) (fill w (tk_pad k) (ex_input e)) = ex_input e"
    "take (length (ex_input e)) (fill w (tk_pad k) (ex_target e)) = ex_target e"
    "take (length (ex_input e)) (fill w (Fin 0) (ex_mask e)) = ex_mask e"
    using fill_take [of "ex_input e" w "tk_pad k"] fill_take [of "ex_target e" w "tk_pad k"] fill_take [of "ex_mask e" w "Fin 0"]
    by (auto simp: example_ok_def)
  with Cons show ?case by (simp add: unpad_def padded_rows_def fill_attention)
qed (simp add: unpad_def padded_rows_def)

lemma batch_unpad:
  assumes "batch_masked_text_examples k max_tokens es = Inr b" and "list_all example_ok es"
  shows "unpad b = map (\<lambda>e. (ex_input e, ex_target e, ex_mask e)) es"
proof -
  obtain w where w: "batch_width es \<le> w" and b: "b = padded_rows k w es"
  proof (cases max_tokens)
    case (Some a)
    with assms(1) show ?thesis
      by (intro that [of "nat a"]) (auto simp: batch_masked_text_examples_def Let_def split: if_splits)
  qed (use assms(1) in \<open>auto simp: batch_masked_text_examples_def Let_def split: if_splits\<close>)
  show ?thesis unfolding b
    by (rule unpad_rows) (use assms(2) w batch_width_ge in \<open>force simp: list_all_iff\<close>)
qed

lemma batch_slices_concat: "0 < n \<Longrightarrow> concat (batch_slices n xs) = xs"
proof (induction n xs rule: batch_slices.induct)
  case (1 n xs)
  then show ?case by (subst batch_slices.simps) auto
qed

lemma batch_slices_sizes: "ys \<in> set (batch_slices n xs) \<Longrightarrow> ys \<noteq> [] \<and> length ys \<le> n"
proof (induction n xs rule: batch_slices.induct)
  case (1 n xs)
  show ?case
  proof (cases "n = 0 \<or> xs = []")
    case False
    with "1.prems" have "ys = take n xs \<or> ys \<in> set (batch_slices n (drop n xs))"
      by (subst (asm) batch_slices.simps) auto
    with 1 False show ?thesis by auto
  qed (use "1.prems" in \<open>auto simp: batch_slices.simps\<close>)
qed

lemma each_result_all:
  assumes "\<And>x. x \<in> set xs \<Longrightarrow> \<exists>y. f x = Inr y"
  shows "\<exists>ys. each_result f xs = Inr ys \<and> list_all2 (\<lambda>x y. f x = Inr y) xs ys"
  using assms
proof (induction xs)
  case (Cons x xs)
  then obtain y ys where "f x = Inr y" "each_result f xs = Inr ys" "list_all2 (\<lambda>x y. f x = Inr y) xs ys"
    by (metis list.set_intros)
  then show ?case by auto
qed simp

text \<open>Batching loses nothing: for any positive batch size the padded batches, read back up to their
  attention masks, hold the examples in order, each batch has at most that many rows, and only an
  empty batch size is an error.\<close>

theorem batches_keep_examples:
  assumes "list_all example_ok es"
  shows "case iter_masked_text_batches k n es of
      Inr bs \<Rightarrow> 1 \<le> n \<and> concat (map unpad bs) = map (\<lambda>e. (ex_input e, ex_target e, ex_mask e)) es
        \<and> (\<forall>b \<in> set bs. unpad b \<noteq> [] \<and> int (length (unpad b)) \<le> n)
    | Inl e \<Rightarrow> e = ValueError \<and> n < 1"
proof (cases "n < 1")
  case False
  let ?s = "batch_slices (nat n) es" and ?f = "batch_masked_text_examples k None"
  have "\<exists>b. ?f x = Inr b" if "x \<in> set ?s" for x
    using batch_slices_sizes [OF that] by (simp add: batch_masked_text_examples_def Let_def)
  from each_result_all [of ?s ?f, OF this] obtain bs
    where bs: "each_result ?f ?s = Inr bs" "list_all2 (\<lambda>x y. ?f x = Inr y) ?s bs" by blast
  have "set (concat ?s) = set es" using batch_slices_concat [of "nat n" es] False by simp
  then have part: "set x \<subseteq> set es" if "x \<in> set ?s" for x using that by auto
  have u: "map unpad bs = map (map (\<lambda>e. (ex_input e, ex_target e, ex_mask e))) ?s"
  proof (rule nth_equalityI)
    fix i assume i: "i < length (map unpad bs)"
    then have "?f (?s ! i) = Inr (bs ! i)" "?s ! i \<in> set ?s"
      using bs(2) by (auto simp: list_all2_conv_all_nth)
    with part [of "?s ! i"] assms have "unpad (bs ! i) = map (\<lambda>e. (ex_input e, ex_target e, ex_mask e)) (?s ! i)"
      by (intro batch_unpad) (auto simp: list_all_iff)
    with i bs(2) show "map unpad bs ! i = map (map (\<lambda>e. (ex_input e, ex_target e, ex_mask e))) ?s ! i"
      by (simp add: list_all2_lengthD)
  qed (use bs(2) in \<open>simp add: list_all2_lengthD\<close>)
  have "unpad b \<noteq> [] \<and> int (length (unpad b)) \<le> n" if "b \<in> set bs" for b
  proof -
    have "unpad b \<in> set (map unpad bs)" using that by simp
    then obtain x where "x \<in> set ?s" "unpad b = map (\<lambda>e. (ex_input e, ex_target e, ex_mask e)) x"
      unfolding u by auto
    with batch_slices_sizes [of x "nat n" es] False show ?thesis by (auto simp: nat_le_iff le_nat_iff)
  qed
  moreover have "concat (map unpad bs) = map (\<lambda>e. (ex_input e, ex_target e, ex_mask e)) es"
    unfolding u using batch_slices_concat [of "nat n" es] False by (simp add: map_concat [symmetric])
  ultimately show ?thesis using False bs(1) by (simp add: iter_masked_text_batches_def)
qed (simp add: iter_masked_text_batches_def)

theorem batches_keep_examples_witness:
  "case iter_masked_text_batches byte_tokenizer 1
       [\<lparr>ex_input = [256], ex_target = [104], ex_mask = [Fin 1], ex_prefix = 0, ex_content = 1\<rparr>,
        \<lparr>ex_input = [256, 104], ex_target = [104, 105], ex_mask = [Fin 0, Fin 1], ex_prefix = 1, ex_content = 1\<rparr>] of
     Inr bs \<Rightarrow> concat (map unpad bs) = [([256], [104], [Fin 1]), ([256, 104], [104, 105], [Fin 0, Fin 1])]
   | Inl _ \<Rightarrow> False"
  using batches_keep_examples [of "[\<lparr>ex_input = [256], ex_target = [104], ex_mask = [Fin 1], ex_prefix = 0, ex_content = 1\<rparr>,
      \<lparr>ex_input = [256, 104], ex_target = [104, 105], ex_mask = [Fin 0, Fin 1], ex_prefix = 1, ex_content = 1\<rparr>]"
      1 byte_tokenizer]
  by (auto simp: example_ok_def split: sum.splits)

end
