(* ===== verification/Extract.thy ===== *)
theory Extract imports Formats TextPrep begin

text \<open>
  Text extraction: \<open>src/src/kernelyra/extraction.py\<close>, and the choice of an encoding it shares with the CSV reader
  (\<open>ingestion/csv_ingestor.py\<close>). Text is a list of code points and a file a list of bytes, as in \<open>TextPrep\<close>. The table of Windows-1251
  and the decoders that look for a byte order mark are parameters; the incremental decoder of UTF-8 is modelled.
\<close>

section \<open>Encodings\<close>

definition utf8_mark :: "nat list" where
  "utf8_mark = [0xEF, 0xBB, 0xBF]"

definition utf16_marks :: "nat list list" where
  "utf16_marks = [[0xFF, 0xFE], [0xFE, 0xFF]]"

definition begins :: "nat list \<Rightarrow> nat list \<Rightarrow> bool" where
  "begins p bs \<longleftrightarrow> take (length p) bs = p"

definition decodes :: "nat list \<Rightarrow> bool" where
  "decodes bs \<longleftrightarrow> (case decode_text bs of Inr _ \<Rightarrow> True | Inl _ \<Rightarrow> False)"

definition choose_encoding :: "(nat \<Rightarrow> nat option) \<Rightarrow> nat list \<Rightarrow> string" where
  "choose_encoding cp1251 sample =
     (if begins utf8_mark sample then ''utf-8-sig''
      else if list_ex (\<lambda>m. begins m sample) utf16_marks then ''utf-16''
      else if decodes sample then ''utf-8''
      else if list_all (\<lambda>b. cp1251 b \<noteq> None) sample then ''cp1251'' else ''latin-1'')"

text \<open>The CSV reader tries \<open>utf-8-sig\<close>, which reads UTF-8 with or without a mark, before \<open>utf-8\<close> and Windows-1251.\<close>

definition csv_sample_bytes :: nat where
  "csv_sample_bytes = 64 * 1024"

definition csv_encoding :: "(nat \<Rightarrow> nat option) \<Rightarrow> nat list \<Rightarrow> kerror + string" where
  "csv_encoding cp1251 bytes =
     (let sample = take csv_sample_bytes bytes in
      if decodes (if begins utf8_mark sample then drop 3 sample else sample) then Inr ''utf-8-sig''
      else if decodes sample then Inr ''utf-8''
      else if list_all (\<lambda>b. cp1251 b \<noteq> None) sample then Inr ''cp1251'' else Inl DatasetError)"

section \<open>Incremental decoding\<close>

text \<open>A decoder keeps the bytes it could not use yet; it answers \<open>None\<close> for an error.\<close>

type_synonym decoder = "nat list \<Rightarrow> bool \<Rightarrow> nat list \<Rightarrow> (nat list \<times> nat list) option"

function utf8_greedy :: "nat list \<Rightarrow> nat list \<times> nat list" where
  "utf8_greedy bs =
     (case utf8_next bs of None \<Rightarrow> ([], bs) | Some (c, r) \<Rightarrow> (case utf8_greedy r of (cs, rest) \<Rightarrow> (c # cs, rest)))"
  by auto

termination by (relation "measure length") (auto dest: utf8_next_shorter)

declare utf8_greedy.simps [simp del]

text \<open>Bytes that more input may complete to a character.\<close>

definition incomplete :: "nat list \<Rightarrow> bool" where
  "incomplete bs \<longleftrightarrow>
     (case bs of
        [] \<Rightarrow> True
      | [a] \<Rightarrow> 0xC2 \<le> a \<and> a < 0xF5
      | [a, b] \<Rightarrow> is_cont b \<and> (0xE0 \<le> a \<and> a < 0xF0 \<and> utf8_next [a, b, 0x80] \<noteq> None
                 \<or> 0xF0 \<le> a \<and> a < 0xF5 \<and> utf8_next [a, b, 0x80, 0x80] \<noteq> None)
      | [a, b, c] \<Rightarrow> 0xF0 \<le> a \<and> a < 0xF5 \<and> utf8_next [a, b, c, 0x80] \<noteq> None
      | _ \<Rightarrow> False)"

definition utf8_step :: decoder where
  "utf8_step raw final pending =
     (case utf8_greedy (pending @ raw) of (cs, rest) \<Rightarrow>
        if rest = [] then Some (cs, []) else if \<not> final \<and> incomplete rest then Some (cs, rest) else None)"

definition table_step :: "(nat \<Rightarrow> nat option) \<Rightarrow> decoder" where
  "table_step table raw final pending =
     (if list_all (\<lambda>b. table b \<noteq> None) raw then Some (List.map_filter table raw, pending) else None)"

record codecs =
  co_cp1251 :: "nat \<Rightarrow> nat option"
  co_utf8_sig :: decoder
  co_utf16 :: decoder

definition decoder_for :: "codecs \<Rightarrow> string \<Rightarrow> decoder" where
  "decoder_for co encoding =
     (if encoding = ''utf-8'' then utf8_step else if encoding = ''cp1251'' then table_step (co_cp1251 co)
      else if encoding = ''latin-1'' then table_step Some else if encoding = ''utf-8-sig'' then co_utf8_sig co else co_utf16 co)"

section \<open>\<open>extract_text\<close>\<close>

fun replace_crlf :: "nat list \<Rightarrow> nat list" where
  "replace_crlf (c # d # s) = (if c = 13 \<and> d = 10 then 10 # replace_crlf s else c # replace_crlf (d # s))"
| "replace_crlf s = s"

definition newlines :: "nat list \<Rightarrow> nat list" where
  "newlines s = map (\<lambda>c. if c = 13 then 10 else c) (replace_crlf s)"

record extracted =
  tx_path :: string
  tx_format :: string
  tx_handler :: string
  tx_encoding :: string
  tx_index :: nat
  tx_text :: "nat list"

definition emit :: "(nat \<Rightarrow> nat list \<Rightarrow> extracted) \<Rightarrow> nat \<Rightarrow> nat \<Rightarrow> nat \<Rightarrow> nat list \<Rightarrow> extracted list" where
  "emit chunk limit emitted index decoded =
     (let d = newlines decoded; d = (if limit < emitted + length d then take (limit - emitted) d else d)
      in if decoded = [] \<or> d = [] then [] else [chunk index d])"

definition total_text :: "extracted list \<Rightarrow> nat list" where
  "total_text cs = concat (map tx_text cs)"

text \<open>What is yielded, and the exception that ends it.\<close>

fun extract_loop :: "decoder \<Rightarrow> (nat \<Rightarrow> nat list \<Rightarrow> extracted) \<Rightarrow> nat \<Rightarrow> nat list \<Rightarrow> nat list list \<Rightarrow> nat \<Rightarrow> nat
    \<Rightarrow> extracted list \<times> kerror option" where
  "extract_loop step chunk limit s [] emitted index =
     (case step [] True s of None \<Rightarrow> ([], Some DatasetError) | Some (t, _) \<Rightarrow> (emit chunk limit emitted index t, None))"
| "extract_loop step chunk limit s (raw # raws) emitted index =
     (case step raw False s of
        None \<Rightarrow> ([], Some DatasetError)
      | Some (t, s') \<Rightarrow>
          let out = emit chunk limit emitted index t; n = emitted + length (total_text out) in
          if limit \<le> n then (out, None)
          else case extract_loop step chunk limit s' raws n (index + length out) of (later, e) \<Rightarrow> (out @ later, e))"

function pieces :: "nat \<Rightarrow> 'a list \<Rightarrow> 'a list list" where
  "pieces n xs = (if xs = [] \<or> n = 0 then [] else take n xs # pieces n (drop n xs))"
  by auto

termination by (relation "measure (\<lambda>(n, xs). length xs)") auto

declare pieces.simps [simp del]

record text_source =
  ts_path :: string
  ts_regular :: bool
  ts_symlink :: bool
  ts_bytes :: "nat list"

definition text_categories :: "string list" where
  "text_categories = [''plain-text'', ''source-code'', ''structured-text'']"

definition text_descriptor :: "string \<Rightarrow> kerror + format_descriptor" where
  "text_descriptor path =
     (case format_for_path (path_name path) of
        None \<Rightarrow> Inl DatasetError
      | Some d \<Rightarrow> if fd_category d \<notin> set text_categories then Inl DatasetError
                  else if fd_training d \<notin> {''extract'', ''train''} then Inl DatasetError else Inr d)"

definition gib :: int where
  "gib = 1024 * 1024 * 1024"

definition extract_text :: "codecs \<Rightarrow> text_source \<Rightarrow> int \<Rightarrow> int \<Rightarrow> extracted list \<times> kerror option" where
  "extract_text co src max_chars chunk_bytes =
     (if \<not> ts_regular src \<or> ts_symlink src then ([], Some DatasetError) else
      case text_descriptor (ts_path src) of Inl e \<Rightarrow> ([], Some e) | Inr d \<Rightarrow>
        if \<not> (1 \<le> max_chars \<and> max_chars \<le> gib) then ([], Some DatasetError)
        else if \<not> (1024 \<le> chunk_bytes \<and> chunk_bytes \<le> 4 * 1024 * 1024) then ([], Some DatasetError)
        else let sample = take (min (nat chunk_bytes) (64 * 1024)) (ts_bytes src) in
          if 0 \<in> set sample \<and> \<not> list_ex (\<lambda>m. begins m sample) utf16_marks then ([], Some DatasetError)
          else let encoding = choose_encoding (co_cp1251 co) sample;
                   chunk = (\<lambda>i t. \<lparr>tx_path = ts_path src, tx_format = fd_id d, tx_handler = fd_handler d, tx_encoding = encoding,
                     tx_index = i, tx_text = t\<rparr>)
               in extract_loop (decoder_for co encoding) chunk (nat max_chars) [] (pieces (nat chunk_bytes) (ts_bytes src)) 0 0)"

section \<open>\<open>extract_folder\<close>\<close>

definition default_chunk :: int where
  "default_chunk = 64 * 1024"

text \<open>Chunks are handed on until none of the budget is left.\<close>

fun take_budget :: "int \<Rightarrow> extracted list \<Rightarrow> extracted list \<times> int" where
  "take_budget remaining [] = ([], remaining)"
| "take_budget remaining (c # cs) =
     (let left = remaining - int (length (tx_text c)) in
      if left \<le> 0 then ([c], left) else case take_budget left cs of (out, l) \<Rightarrow> (c # out, l))"

definition is_text :: "text_source \<Rightarrow> bool" where
  "is_text src \<longleftrightarrow> \<not> ts_symlink src \<and> ts_regular src
     \<and> (case format_for_path (path_name (ts_path src)) of Some d \<Rightarrow> fd_category d \<in> set text_categories | None \<Rightarrow> False)"

fun extract_files :: "codecs \<Rightarrow> nat \<Rightarrow> text_source list \<Rightarrow> nat \<Rightarrow> int \<Rightarrow> extracted list \<times> kerror option" where
  "extract_files co files [] selected remaining = ([], None)"
| "extract_files co files (src # srcs) selected remaining =
     (if \<not> is_text src then extract_files co files srcs selected remaining
      else if files < selected + 1 then ([], Some DatasetError)
      else case extract_text co src remaining default_chunk of (cs, e) \<Rightarrow>
        (case take_budget remaining cs of (out, left) \<Rightarrow>
           if left \<le> 0 then (out, None)
           else case e of Some x \<Rightarrow> (out, Some x)
              | None \<Rightarrow> (case extract_files co files srcs (selected + 1) left of (later, e') \<Rightarrow> (out @ later, e'))))"

definition extract_folder :: "codecs \<Rightarrow> bool \<Rightarrow> text_source list \<Rightarrow> int \<Rightarrow> int \<Rightarrow> extracted list \<times> kerror option" where
  "extract_folder co is_dir nodes max_files max_total_chars =
     (if \<not> is_dir then ([], Some DatasetError)
      else extract_files co (nat (max 1 (min (int max_folder_files) max_files))) (sort_key (\<lambda>x. py_lower (ts_path x)) nodes) 0
             (max 1 (min gib max_total_chars)))"

section \<open>Decoding is exact\<close>

lemma split_64: "y < 64 \<Longrightarrow> (x * 64 + y) div 64 = x \<and> (x * 64 + y) mod 64 = y" for x y :: nat
  by simp

lemma div_4096: "n div 4096 = n div 64 div 64" and div_262144: "n div 262144 = n div 64 div 64 div 64" for n :: nat
  by (simp_all add: div_mult2_eq [symmetric])

lemma nested_3: "x * 4096 + y * 64 + z = (x * 64 + y) * 64 + z" and nested_4: "x * 262144 + y * 4096 + z * 64 + w = ((x * 64 + y) * 64 + z) * 64 + w"
  for x y z w :: nat
  by simp_all

lemma digits_of_3:
  fixes x y z c :: nat
  assumes "y < 64" "z < 64" "c = x * 4096 + y * 64 + z"
  shows "c mod 64 = z" "c div 64 mod 64 = y" "c div 4096 = x"
  unfolding assms(3) nested_3 div_4096 using split_64 [OF assms(1), of x] split_64 [OF assms(2), of "x * 64 + y"] by simp_all

lemma digits_of_4:
  fixes x y z w c :: nat
  assumes "y < 64" "z < 64" "w < 64" "c = x * 262144 + y * 4096 + z * 64 + w"
  shows "c mod 64 = w" "c div 64 mod 64 = z" "c div 4096 mod 64 = y" "c div 262144 = x"
  unfolding assms(4) nested_4 div_4096 div_262144
  using split_64 [OF assms(1), of x] split_64 [OF assms(2), of "x * 64 + y"] split_64 [OF assms(3), of "(x * 64 + y) * 64 + z"] by simp_all

lemma cont_digit: "is_cont b \<Longrightarrow> b < 256 \<Longrightarrow> b - 0x80 < 64 \<and> b = 0x80 + (b - 0x80)"
  using is_cont_iff [of b] by linarith

lemma utf8_next_sound:
  assumes "utf8_next bs = Some (c, r)" and "list_all (\<lambda>b. b < 256) bs"
  shows "bs = utf8_char c @ r \<and> scalar c"
proof -
  obtain a q where bs: "bs = a # q" using assms(1) by (cases bs) (auto simp: utf8_next_def)
  consider "a < 0x80" | "0xC2 \<le> a" "a < 0xE0" | "0xE0 \<le> a" "a < 0xF0" | "0xF0 \<le> a" "a < 0xF5"
    using assms(1) by (fastforce simp: utf8_next_def bs split: if_splits)
  then show ?thesis
  proof cases
    case 1
    then show ?thesis using assms(1) by (auto simp: utf8_next_def bs utf8_char_def scalar_def)
  next
    case 2
    then obtain b where q: "q = b # r" "is_cont b" "c = (a - 0xC0) * 64 + (b - 0x80)"
      using assms(1) by (auto simp: utf8_next_def bs split: list.splits if_splits)
    then have b: "b - 0x80 < 64" "b = 0x80 + (b - 0x80)" using assms(2) cont_digit [of b] by (auto simp: bs)
    obtain x y where x: "a - 0xC0 = x" "b - 0x80 = y" by blast
    then have e: "a = 0xC0 + x" "b = 0x80 + y" "2 \<le> x" "x < 32" "y < 64" "c = x * 64 + y" using 2 b q(3) by linarith+
    have "c div 64 = x" "c mod 64 = y" using split_64 [OF e(5), of x, folded e(6)] by blast+
    moreover have "0x80 \<le> c" "c < 0x800" using e(3-6) by linarith+
    ultimately show ?thesis by (simp add: bs q(1) utf8_char_def scalar_def e(1,2))
  next
    case 3
    define x where "x = a - 0xE0"
    obtain b d where q: "q = b # d # r" "is_cont b" "is_cont d" "c = x * 4096 + (b - 0x80) * 64 + (d - 0x80)" "0x800 \<le> c" "scalar c"
      using assms(1) 3 by (auto simp: utf8_next_def bs Let_def x_def split: list.splits if_splits)
    then have b: "b - 0x80 < 64" "b = 0x80 + (b - 0x80)" "d - 0x80 < 64" "d = 0x80 + (d - 0x80)"
      using assms(2) cont_digit [of b] cont_digit [of d] by (auto simp: bs)
    have a: "a = 0xE0 + x" "x < 16" using 3 by (simp_all add: x_def)
    note digits = digits_of_3 [OF b(1,3) q(4)]
    have "c < 0x10000" using a(2) b(1,3) q(4) by linarith
    then have "utf8_char c = [0xE0 + x, 0x80 + (b - 0x80), 0x80 + (d - 0x80)]" using q(5) unfolding utf8_char_def digits by simp
    then show ?thesis using q(6) by (simp only: bs q(1) append.simps flip: a(1) b(2) b(4))
  next
    case 4
    define x where "x = a - 0xF0"
    obtain b d e where q: "q = b # d # e # r" "is_cont b" "is_cont d" "is_cont e"
      "c = x * 262144 + (b - 0x80) * 4096 + (d - 0x80) * 64 + (e - 0x80)" "0x10000 \<le> c" "scalar c"
      using assms(1) 4 by (auto simp: utf8_next_def bs Let_def x_def split: list.splits if_splits)
    then have b: "b - 0x80 < 64" "b = 0x80 + (b - 0x80)" "d - 0x80 < 64" "d = 0x80 + (d - 0x80)" "e - 0x80 < 64" "e = 0x80 + (e - 0x80)"
      using assms(2) cont_digit [of b] cont_digit [of d] cont_digit [of e] by (auto simp: bs)
    have a: "a = 0xF0 + x" using 4 by (simp add: x_def)
    note digits = digits_of_4 [OF b(1,3,5) q(5)]
    have "utf8_char c = [0xF0 + x, 0x80 + (b - 0x80), 0x80 + (d - 0x80), 0x80 + (e - 0x80)]" using q(6) unfolding utf8_char_def digits by simp
    then show ?thesis using q(7) by (simp only: bs q(1) append.simps flip: a b(2) b(4) b(6))
  qed
qed

lemma decode_sound: "decode_text bs = Inr cs \<Longrightarrow> list_all (\<lambda>b. b < 256) bs \<Longrightarrow> bs = utf8 cs \<and> list_all scalar cs"
proof (induction bs arbitrary: cs rule: decode_text.induct)
  case (1 bs)
  show ?case
  proof (cases "bs = []")
    case True
    then show ?thesis using 1(2) by (simp add: decode_text.simps)
  next
    case False
    then obtain c r where n: "utf8_next bs = Some (c, r)" using 1(2) by (auto simp: decode_text.simps [of bs] split: option.splits)
    then obtain ds where d: "decode_text r = Inr ds" "cs = c # ds"
      using 1(2) False by (auto simp: decode_text.simps [of bs] elim!: bind_result_InrE)
    note s = utf8_next_sound [OF n 1(3)]
    have "list_all (\<lambda>b. b < 256) r" using 1(3) s by (metis list_all_append)
    with 1(1) [OF False n refl d(1)] s show ?thesis by (simp add: d(2))
  qed
qed

lemma utf8_prefix: "utf8 cs = utf8 ds @ r \<Longrightarrow> list_all scalar cs \<Longrightarrow> list_all scalar ds \<Longrightarrow> \<exists>es. cs = ds @ es \<and> r = utf8 es"
proof (induction ds arbitrary: cs)
  case (Cons d ds)
  then obtain c cs' where cs: "cs = c # cs'" by (cases cs) auto
  have "utf8_char c @ utf8 cs' = utf8_char d @ utf8 ds @ r" using Cons.prems(1) by (simp add: cs)
  moreover have "scalar c" "scalar d" using Cons.prems by (simp_all add: cs)
  ultimately have "Some (c, utf8 cs') = Some (d, utf8 ds @ r)"
    using utf8_next_char [of c "utf8 cs'"] utf8_next_char [of d "utf8 ds @ r"] by metis
  then have "c = d" "utf8 cs' = utf8 ds @ r" by simp_all
  with Cons.IH [of cs'] Cons.prems show ?case by (simp add: cs)
qed simp

lemma decodes_prefix:
  assumes "list_all scalar cs" and "n \<le> length (utf8 cs)"
  shows "decodes (take n (utf8 cs)) \<longleftrightarrow> boundary (utf8 cs) n"
proof
  assume "decodes (take n (utf8 cs))"
  then obtain ds where d: "decode_text (take n (utf8 cs)) = Inr ds" by (auto simp: decodes_def split: sum.splits)
  have "list_all (\<lambda>b. b < 256) (take n (utf8 cs))" using utf8_bytes [OF assms(1)] by (auto simp: list_all_iff dest: in_set_takeD)
  from decode_sound [OF d this] have t: "take n (utf8 cs) = utf8 ds" "list_all scalar ds" by auto
  have "utf8 cs = utf8 ds @ drop n (utf8 cs)" unfolding t(1) [symmetric] by simp
  from utf8_prefix [OF this assms(1) t(2)] obtain es where e: "cs = ds @ es" by blast
  have n: "n = length (utf8 ds)" using arg_cong [OF t(1), of length] assms(2) by simp
  show "boundary (utf8 cs) n"
  proof (cases es)
    case Nil
    then show ?thesis by (simp add: boundary_def e n)
  next
    case (Cons c es')
    have "utf8 cs ! n = hd (utf8_char c)" by (simp add: e Cons n nth_append hd_append hd_conv_nth [symmetric])
    moreover have "scalar c" using assms(1) by (simp add: e Cons)
    ultimately show ?thesis using utf8_char_head assms(2) by (simp add: boundary_def)
  qed
next
  assume "boundary (utf8 cs) n"
  from boundary_split [OF this] obtain k where "take n (utf8 cs) = utf8 (take k cs)" by blast
  moreover have "list_all scalar (take k cs)" using assms(1) by (metis append_take_drop_id list_all_append)
  ultimately show "decodes (take n (utf8 cs))" by (simp add: decodes_def decode_utf8)
qed

lemma begins_take: "begins p (take n bs) \<Longrightarrow> begins p bs"
  by (auto simp: begins_def min_def take_take split: if_splits)

lemma take_min: "take n xs = take (min n (length xs)) xs"
  by (cases "n \<le> length xs") (simp_all add: min_def)

text \<open>C36: An encoding is guessed from the first bytes alone, and a guess that cuts a character is wrong: for a UTF-8 file without a mark,
  text extraction and the CSV reader read it as UTF-8 exactly when their sample ends at a character boundary. Otherwise a file of more than
  64 KiB, valid as a whole, is read as Windows-1251 or Latin-1, or refused.\<close>

theorem cut_sample_misread:
  assumes "list_all scalar cs" and "bytes = utf8 cs" and "\<not> begins utf8_mark bytes" and "\<forall>m \<in> set utf16_marks. \<not> begins m bytes"
    and "n \<le> length bytes"
  shows "(choose_encoding cp1251 (take n bytes) = ''utf-8'' \<longleftrightarrow> boundary bytes n)
     \<and> (\<not> boundary bytes n \<longrightarrow> choose_encoding cp1251 (take n bytes) \<in> {''cp1251'', ''latin-1''})
     \<and> (csv_encoding cp1251 bytes = Inr ''utf-8-sig'' \<longleftrightarrow> boundary bytes (min csv_sample_bytes (length bytes)))
     \<and> (\<not> boundary bytes (min csv_sample_bytes (length bytes)) \<longrightarrow> csv_encoding cp1251 bytes \<in> {Inr ''cp1251'', Inl DatasetError})"
proof -
  have d: "decodes (take k bytes) \<longleftrightarrow> boundary bytes k" if "k \<le> length bytes" for k
    using decodes_prefix [OF assms(1)] that by (simp add: assms(2))
  have m: "\<not> begins utf8_mark (take k bytes)" "\<not> list_ex (\<lambda>m. begins m (take k bytes)) utf16_marks" for k
    using assms(3,4) by (auto simp: list_ex_iff dest: begins_take)
  have c: "take csv_sample_bytes bytes = take (min csv_sample_bytes (length bytes)) bytes" by (rule take_min)
  show ?thesis
    using d [OF assms(5)] d [of "min csv_sample_bytes (length bytes)"] m
    by (simp add: choose_encoding_def csv_encoding_def Let_def flip: c)
qed

section \<open>New lines\<close>

definition joined :: "nat list \<Rightarrow> nat list \<Rightarrow> bool" where
  "joined p q \<longleftrightarrow> p \<noteq> [] \<and> last p = 13 \<and> q \<noteq> [] \<and> hd q = 10"

lemma replace_crlf_append: "\<not> joined p q \<Longrightarrow> replace_crlf (p @ q) = replace_crlf p @ replace_crlf q"
proof (induction p rule: replace_crlf.induct)
  case (1 c d s)
  then show ?case by (cases "s = []") (auto simp: joined_def)
qed (cases q; auto simp: joined_def)+

lemma newlines_append: "\<not> joined p q \<Longrightarrow> newlines (p @ q) = newlines p @ newlines q"
  by (simp add: newlines_def replace_crlf_append)

lemma newlines_joined:
  assumes "joined p q" shows "newlines (p @ q) = newlines p @ newlines (tl q)" and "newlines q = 10 # newlines (tl q)"
proof -
  obtain p' where p: "p = p' @ [13]" using assms by (metis append_butlast_last_id joined_def)
  obtain q' where q: "q = 10 # q'" using assms by (cases q) (auto simp: joined_def)
  have "newlines (p' @ 13 # 10 # q') = newlines p' @ newlines (13 # 10 # q')" by (rule newlines_append) (simp add: joined_def)
  moreover have "newlines (p' @ [13]) = newlines p' @ [10]" by (subst newlines_append) (simp_all add: joined_def newlines_def)
  ultimately show "newlines (p @ q) = newlines p @ newlines (tl q)" by (simp add: p q newlines_def)
  show "newlines q = 10 # newlines (tl q)" by (cases q') (simp_all add: q newlines_def)
qed

text \<open>How often a chunk boundary comes between a carriage return and its line feed.\<close>

fun breaks :: "nat list \<Rightarrow> nat list list \<Rightarrow> nat" where
  "breaks p [] = 0"
| "breaks p (t # ts) = (if joined p t then 1 else 0) + breaks (p @ t) ts"

lemma newlines_pieces:
  "length (newlines p) + length (concat (map newlines ts)) = length (newlines (p @ concat ts)) + breaks p ts"
  "breaks p ts = 0 \<Longrightarrow> newlines p @ concat (map newlines ts) = newlines (p @ concat ts)"
proof (induction ts arbitrary: p)
  case (Cons t ts)
  {
    case 1
    show ?case
    proof (cases "joined p t")
      case True
      then have "length (newlines p) + length (newlines t) = length (newlines (p @ t)) + 1" using newlines_joined by simp
      then show ?thesis using Cons.IH(1) [of "p @ t"] True by simp
    next
      case False
      then show ?thesis using Cons.IH(1) [of "p @ t"] by (simp add: newlines_append)
    qed
  next
    case 2
    then have "\<not> joined p t" "breaks (p @ t) ts = 0" by (auto split: if_splits)
    then show ?case using Cons.IH(2) [of "p @ t"] by (simp add: newlines_append)
  }
qed simp_all

section \<open>What is extracted\<close>

fun run_decoder :: "decoder \<Rightarrow> nat list \<Rightarrow> nat list list \<Rightarrow> nat list list option" where
  "run_decoder step s [] = (case step [] True s of None \<Rightarrow> None | Some (t, _) \<Rightarrow> Some [t])"
| "run_decoder step s (raw # raws) =
     (case step raw False s of None \<Rightarrow> None | Some (t, s') \<Rightarrow> (case run_decoder step s' raws of None \<Rightarrow> None | Some ts \<Rightarrow> Some (t # ts)))"

lemma total_text_simps [simp]: "total_text [] = []" "total_text (c # cs) = tx_text c @ total_text cs" "total_text (cs @ ds) = total_text cs @ total_text ds"
  by (simp_all add: total_text_def)

definition numbered :: "nat \<Rightarrow> extracted list \<Rightarrow> bool" where
  "numbered index out \<longleftrightarrow> map tx_index out = [index..<index + length out] \<and> list_all (\<lambda>c. tx_text c \<noteq> []) out"

lemma numbered_append: "numbered i xs \<Longrightarrow> numbered (i + length xs) ys \<Longrightarrow> numbered i (xs @ ys)"
  using upt_add_eq_append [of i "i + length xs" "length ys"] by (simp add: numbered_def add.assoc)

lemma newlines_Nil: "newlines t = [] \<longleftrightarrow> t = []"
  by (cases t rule: replace_crlf.cases) (auto simp: newlines_def)

lemma emit_total:
  assumes "\<And>i t. tx_text (chunk i t) = t \<and> tx_index (chunk i t) = i" and "emitted \<le> limit"
  shows "total_text (emit chunk limit emitted index t) = take (limit - emitted) (newlines t)"
    and "numbered index (emit chunk limit emitted index t)"
  using assms newlines_Nil [of t] by (auto simp: emit_def numbered_def Let_def)

lemma extract_loop_bounded:
  assumes "\<And>i t. tx_text (chunk i t) = t \<and> tx_index (chunk i t) = i" and "emitted \<le> limit"
    and "extract_loop step chunk limit s raws emitted index = (out, e)"
  shows "length (total_text out) \<le> limit - emitted \<and> numbered index out
     \<and> (\<forall>ts. run_decoder step s raws = Some ts \<longrightarrow> e = None \<and> total_text out = take (limit - emitted) (concat (map newlines ts)))"
  using assms(2,3)
proof (induction raws arbitrary: s emitted index out e)
  case Nil
  then show ?case using emit_total [OF assms(1) Nil(1)] by (auto simp: numbered_def split: option.splits)
next
  case (Cons raw raws)
  show ?case
  proof (cases "step raw False s")
    case None
    then show ?thesis using Cons.prems by (simp add: numbered_def)
  next
    case (Some ts')
    obtain t s' where st: "step raw False s = Some (t, s')" using Some by (cases ts') auto
    define o1 where "o1 = emit chunk limit emitted index t"
    define n where "n = emitted + length (total_text o1)"
    note e = emit_total [OF assms(1) Cons.prems(1), where index = index and t = t, folded o1_def]
    have n: "n \<le> limit" using e(1) Cons.prems(1) by (simp add: n_def)
    have left: "limit - emitted = length (total_text o1) + (limit - n)" using n by (simp add: n_def)
    show ?thesis
    proof (cases "limit \<le> n")
      case True
      then have "out = o1" "e = None" using Cons.prems(2) by (simp_all add: st n_def o1_def Let_def)
      moreover have "take (limit - emitted) (concat (map newlines (t # ts))) = total_text o1" for ts
        using True e(1) n by (simp add: n_def)
      ultimately show ?thesis using e n by (auto simp: st n_def split: option.splits)
    next
      case False
      obtain o2 e2 where l: "extract_loop step chunk limit s' raws n (index + length o1) = (o2, e2)" by fastforce
      then have o: "out = o1 @ o2" "e = e2" using Cons.prems(2) False by (simp_all add: st n_def o1_def Let_def)
      note ih = Cons.IH [OF n l]
      have whole: "total_text o1 = newlines t" using e(1) False n by (simp add: n_def)
      have "numbered index out" unfolding o using e(2) ih by (intro numbered_append) simp_all
      then show ?thesis using ih left by (auto simp: o st whole split: option.splits)
    qed
  qed
qed

text \<open>What a decoder owes the loop: whatever pieces the encoded text comes in, it gives the text.\<close>

locale text_decoder =
  fixes step :: decoder and encode :: "nat list \<Rightarrow> nat list" and valid :: "nat list \<Rightarrow> bool"
  assumes runs: "valid cs \<Longrightarrow> concat raws = encode cs \<Longrightarrow> \<exists>ts. run_decoder step [] raws = Some ts \<and> concat ts = cs"
begin

lemma extracted_text:
  assumes "valid cs" "concat raws = encode cs" and "\<And>i t. tx_text (chunk i t) = t \<and> tx_index (chunk i t) = i"
  shows "\<exists>ts out. run_decoder step [] raws = Some ts \<and> concat ts = cs
     \<and> extract_loop step chunk limit [] raws 0 0 = (out, None) \<and> numbered 0 out
     \<and> total_text out = take limit (concat (map newlines ts))
     \<and> (breaks [] ts = 0 \<longrightarrow> total_text out = take limit (newlines cs))
     \<and> length (concat (map newlines ts)) = length (newlines cs) + breaks [] ts"
proof -
  obtain ts where ts: "run_decoder step [] raws = Some ts" "concat ts = cs" using runs [OF assms(1,2)] by blast
  obtain out e where l: "extract_loop step chunk limit [] raws 0 0 = (out, e)" by fastforce
  from extract_loop_bounded [OF assms(3) _ l] ts(1) have "e = None" "numbered 0 out" "total_text out = take limit (concat (map newlines ts))"
    by simp_all
  moreover have "newlines [] = []" by (simp add: newlines_def)
  ultimately show ?thesis using l ts newlines_pieces [of "[]" ts] by (intro exI [of _ ts] exI [of _ out]) auto
qed

end

lemma is_cont_128: "is_cont 128"
  by (subst is_cont_iff) simp_all

lemma digits: "y div 64 * 4096 + y mod 64 * 64 = y * 64" and digits_3: "y div 64 * 262144 + y mod 64 * 4096 = y * 4096" for y :: nat
proof -
  have "y div 64 * 64 + y mod 64 = y" by (rule div_mult_mod_eq)
  then show "y div 64 * 4096 + y mod 64 * 64 = y * 64" "y div 64 * 262144 + y mod 64 * 4096 = y * 4096" by linarith+
qed

lemma cut_1: "0xC2 \<le> a \<Longrightarrow> a < 0xF5 \<Longrightarrow> utf8_next [a] = None \<and> incomplete [a]"
  by (simp add: utf8_next_def incomplete_def)

lemma cut_3:
  assumes "a < 16" "b < 64" "0x800 \<le> a * 4096 + b * 64" "scalar (a * 4096 + b * 64)"
  shows "utf8_next [0xE0 + a, 0x80 + b] = None \<and> incomplete [0xE0 + a, 0x80 + b]"
proof -
  have "is_cont (0x80 + b)" using assms(2) by (subst is_cont_iff) simp_all
  then show ?thesis using assms by (simp add: utf8_next_def incomplete_def is_cont_128)
qed

lemma cut_4:
  assumes "a < 5" "b < 64" "0x10000 \<le> a * 262144 + b * 4096" "scalar (a * 262144 + b * 4096)"
  shows "utf8_next [0xF0 + a, 0x80 + b] = None \<and> incomplete [0xF0 + a, 0x80 + b]"
proof -
  have "is_cont (0x80 + b)" using assms(2) by (subst is_cont_iff) simp_all
  then show ?thesis using assms by (simp add: utf8_next_def incomplete_def is_cont_128)
qed

lemma cut_5:
  assumes "a < 5" "b < 64" "d < 64" "0x10000 \<le> a * 262144 + b * 4096 + d * 64" "scalar (a * 262144 + b * 4096 + d * 64)"
  shows "utf8_next [0xF0 + a, 0x80 + b, 0x80 + d] = None \<and> incomplete [0xF0 + a, 0x80 + b, 0x80 + d]"
proof -
  have "is_cont (0x80 + b)" "is_cont (0x80 + d)" using assms(2,3) by (subst is_cont_iff, simp_all)+
  then show ?thesis using assms by (simp add: utf8_next_def incomplete_def is_cont_128)
qed

lemma take_one: "take 1 (x # xs) = [x]" and take_two: "take 2 (x # y # xs) = [x, y]" and take_three: "take 3 (x # y # z # xs) = [x, y, z]"
  by (simp_all add: numeral_2_eq_2 numeral_3_eq_3)

lemma prefix_incomplete:
  assumes "scalar c" "0 < k" "k < length (utf8_char c)"
  shows "utf8_next (take k (utf8_char c)) = None \<and> incomplete (take k (utf8_char c))"
proof -
  have top: "c < 0x110000" using assms(1) by (simp add: scalar_def)
  consider "c < 0x80" | "0x80 \<le> c" "c < 0x800" | "0x800 \<le> c" "c < 0x10000" | "0x10000 \<le> c" by linarith
  then show ?thesis
  proof cases
    case 1
    then show ?thesis using assms(2,3) by (simp add: utf8_char_def)
  next
    case 2
    then have k: "k = 1" using assms(2,3) by (auto simp: utf8_char_def)
    have "2 \<le> c div 64" "c div 64 < 32" using 2 by auto
    then have "0xC2 \<le> 0xC0 + c div 64" "0xC0 + c div 64 < 0xF5" by linarith+
    from cut_1 [OF this] show ?thesis unfolding k using 2 by (simp add: utf8_char_def)
  next
    case 3
    have d: "c div 4096 < 16" "32 \<le> c div 64" using 3 by auto
    have v: "c div 4096 * 4096 + c div 64 mod 64 * 64 = c div 64 * 64"
      using digits [of "c div 64"] by (simp only: div_4096)
    have "scalar (c div 64 * 64)" using assms(1) 3 by (auto simp: scalar_def)
    then have 2: "utf8_next [0xE0 + c div 4096, 0x80 + c div 64 mod 64] = None \<and> incomplete [0xE0 + c div 4096, 0x80 + c div 64 mod 64]"
      using d by (intro cut_3) (simp_all add: v)
    have 1: "utf8_next [0xE0 + c div 4096] = None \<and> incomplete [0xE0 + c div 4096]" using d by (intro cut_1) linarith+
    have e: "utf8_char c = [0xE0 + c div 4096, 0x80 + c div 64 mod 64, 0x80 + c mod 64]" using 3 by (simp add: utf8_char_def)
    have "k = 1 \<or> k = 2" using assms(2,3) by (auto simp: e)
    then show ?thesis using 1 2 by (elim disjE) (simp_all only: e take_one take_two)
  next
    case 4
    have d: "c div 262144 < 5" "16 \<le> c div 4096" "1024 \<le> c div 64" using 4 top by auto
    have v: "c div 262144 * 262144 + c div 4096 mod 64 * 4096 = c div 4096 * 4096"
      using digits_3 [of "c div 4096"] by (simp only: div_4096 div_262144)
    have w: "c div 4096 * 4096 + c div 64 mod 64 * 64 = c div 64 * 64"
      using digits [of "c div 64"] by (simp only: div_4096)
    have s: "scalar (c div 4096 * 4096)" "scalar (c div 64 * 64)" using 4 top by (auto simp: scalar_def)
    have 1: "utf8_next [0xF0 + c div 262144] = None \<and> incomplete [0xF0 + c div 262144]" using d by (intro cut_1) linarith+
    have 2: "utf8_next [0xF0 + c div 262144, 0x80 + c div 4096 mod 64] = None \<and> incomplete [0xF0 + c div 262144, 0x80 + c div 4096 mod 64]"
      using d s(1) by (intro cut_4) (simp_all add: v)
    have 3: "utf8_next [0xF0 + c div 262144, 0x80 + c div 4096 mod 64, 0x80 + c div 64 mod 64] = None
       \<and> incomplete [0xF0 + c div 262144, 0x80 + c div 4096 mod 64, 0x80 + c div 64 mod 64]"
      using d s(2) by (intro cut_5) (simp_all add: v w)
    have e: "utf8_char c = [0xF0 + c div 262144, 0x80 + c div 4096 mod 64, 0x80 + c div 64 mod 64, 0x80 + c mod 64]"
      using 4 by (simp add: utf8_char_def)
    have "k = 1 \<or> k = 2 \<or> k = 3" using assms(2,3) by (auto simp: e)
    then show ?thesis using 1 2 3 by (elim disjE) (simp_all only: e take_one take_two take_three)
  qed
qed

lemma utf8_next_Nil [simp]: "utf8_next [] = None"
  by (simp add: utf8_next_def)

lemma greedy_utf8: "list_all scalar ds \<Longrightarrow> utf8_next p = None \<Longrightarrow> utf8_greedy (utf8 ds @ p) = (ds, p)"
  by (induction ds) (simp_all add: utf8_greedy.simps [of "_ @ _"] utf8_greedy.simps [of p] utf8_next_char)

lemma utf8_cut:
  assumes "list_all scalar es" "n \<le> length (utf8 es)"
  shows "\<exists>ds p fs. es = ds @ fs \<and> take n (utf8 es) = utf8 ds @ p \<and> p @ drop n (utf8 es) = utf8 fs \<and> utf8_next p = None \<and> incomplete p"
  using assms
proof (induction es arbitrary: n)
  case Nil
  then show ?case by (simp add: incomplete_def)
next
  case (Cons c es)
  let ?m = "length (utf8_char c)"
  consider "n = 0" | "0 < n" "n < ?m" | "?m \<le> n" by linarith
  then show ?case
  proof cases
    case 1
    then show ?thesis by (intro exI [of _ "[]"] exI [of _ "c # es"]) (simp add: incomplete_def)
  next
    case 2
    have "utf8_next (take n (utf8_char c)) = None \<and> incomplete (take n (utf8_char c))"
      using prefix_incomplete [of c n] 2 Cons.prems(1) by simp
    moreover have "take n (utf8_char c) @ drop n (utf8 (c # es)) = utf8 (c # es)"
      using 2 append_take_drop_id [of n "utf8 (c # es)"] by simp
    ultimately show ?thesis using 2 by (intro exI [of _ "[]"] exI [of _ "take n (utf8_char c)"] exI [of _ "c # es"]) simp
  next
    case 3
    have a: "list_all scalar es" "n - ?m \<le> length (utf8 es)" using Cons.prems by auto
    from Cons.IH [OF a] obtain ds p fs where "es = ds @ fs" "take (n - ?m) (utf8 es) = utf8 ds @ p" "p @ drop (n - ?m) (utf8 es) = utf8 fs"
      "utf8_next p = None" "incomplete p" by blast
    then show ?thesis using 3 by (intro exI [of _ "c # ds"] exI [of _ p] exI [of _ fs]) simp
  qed
qed

lemma run_utf8:
  "list_all scalar es \<Longrightarrow> pending @ concat raws = utf8 es \<Longrightarrow> \<exists>ts. run_decoder utf8_step pending raws = Some ts \<and> concat ts = es"
proof (induction raws arbitrary: pending es)
  case Nil
  then have "utf8_greedy pending = (es, [])" using greedy_utf8 [of es "[]"] by simp
  then show ?case by (simp add: utf8_step_def)
next
  case (Cons raw raws)
  let ?n = "length (pending @ raw)"
  have t: "take ?n (utf8 es) = pending @ raw" "drop ?n (utf8 es) = concat raws" "?n \<le> length (utf8 es)"
    by (simp_all flip: Cons.prems(2))
  then obtain ds p fs where c: "es = ds @ fs" "pending @ raw = utf8 ds @ p" "p @ concat raws = utf8 fs" "utf8_next p = None" "incomplete p"
    using utf8_cut [OF Cons.prems(1) t(3)] by (metis (no_types))
  have "utf8_greedy (pending @ raw) = (ds, p)" using greedy_utf8 [of ds p] Cons.prems(1) c by simp
  then have "utf8_step raw False pending = Some (ds, p)" using c(5) by (simp add: utf8_step_def)
  moreover obtain ts where "run_decoder utf8_step p raws = Some ts" "concat ts = fs"
    using Cons.IH [OF _ c(3)] Cons.prems(1) c(1) by auto
  ultimately show ?case by (simp add: c(1))
qed

interpretation utf8: text_decoder utf8_step utf8 "list_all scalar"
  by unfold_locales (simp add: run_utf8)

lemma latin_step: "table_step Some raw final s = Some (raw, s)"
  by (simp add: table_step_def map_filter_def o_def list_all_iff)

lemma run_latin: "run_decoder (table_step Some) s raws = Some (raws @ [[]])"
  by (induction raws arbitrary: s) (simp_all add: latin_step)

interpretation latin: text_decoder "table_step Some" "\<lambda>cs. cs" "\<lambda>_. True"
  by unfold_locales (simp add: run_latin)

lemma pieces_concat [simp]: "0 < n \<Longrightarrow> concat (pieces n xs) = xs"
  by (induction n xs rule: pieces.induct) (subst pieces.simps, simp)

text \<open>C34: Text extraction gives the text of a file back. Of a valid UTF-8 file with no mark and no NUL, whose sample ends at a character
  boundary, every character is delivered, in numbered non-empty chunks and up to the limit, however the reads cut the bytes of a character.
  Line ends are normalised piece by piece: the result is the normalised text when no read ends between a carriage return and its line feed,
  and every read that does adds a line.\<close>

theorem utf8_file_extracted:
  assumes "list_all scalar cs" "ts_bytes src = utf8 cs" "ts_regular src" "\<not> ts_symlink src" "text_descriptor (ts_path src) = Inr d"
    and "1 \<le> m" "m \<le> gib" "1024 \<le> k" "k \<le> 4 * 1024 * 1024"
    and "0 \<notin> set (utf8 cs)" "\<not> begins utf8_mark (utf8 cs)" "\<forall>b \<in> set utf16_marks. \<not> begins b (utf8 cs)"
    and "boundary (utf8 cs) (min (min (nat k) (64 * 1024)) (length (utf8 cs)))"
  shows "\<exists>ts out. run_decoder utf8_step [] (pieces (nat k) (utf8 cs)) = Some ts \<and> concat ts = cs \<and> extract_text co src m k = (out, None)
     \<and> numbered 0 out \<and> total_text out = take (nat m) (concat (map newlines ts))
     \<and> (breaks [] ts = 0 \<longrightarrow> total_text out = take (nat m) (newlines cs))
     \<and> length (concat (map newlines ts)) = length (newlines cs) + breaks [] ts"
proof -
  let ?b = "utf8 cs" and ?s = "min (nat k) (64 * 1024)"
  have "decodes (take (min ?s (length ?b)) ?b)" using decodes_prefix [OF assms(1)] assms(13) by simp
  then have d: "decodes (take ?s ?b)" by (metis take_min)
  have m: "\<not> begins utf8_mark (take ?s ?b)" "\<not> list_ex (\<lambda>b. begins b (take ?s ?b)) utf16_marks" "0 \<notin> set (take ?s ?b)"
    using assms(10-12) by (auto simp: list_ex_iff dest: begins_take in_set_takeD)
  have e: "choose_encoding (co_cp1251 co) (take ?s ?b) = ''utf-8''" using d m(1,2) by (simp add: choose_encoding_def)
  define chunk where "chunk = (\<lambda>i t. \<lparr>tx_path = ts_path src, tx_format = fd_id d, tx_handler = fd_handler d, tx_encoding = ''utf-8'',
    tx_index = i, tx_text = t\<rparr>)"
  have x: "extract_text co src m k = extract_loop utf8_step chunk (nat m) [] (pieces (nat k) ?b) 0 0"
    using assms(2-9) m(2,3) e by (simp add: extract_text_def decoder_for_def chunk_def)
  have p: "concat (pieces (nat k) ?b) = ?b" using assms(8) by simp
  have c: "tx_text (chunk i t) = t \<and> tx_index (chunk i t) = i" for i t by (simp add: chunk_def)
  obtain ts where ts: "run_decoder utf8_step [] (pieces (nat k) ?b) = Some ts" "concat ts = cs" using utf8.runs [OF assms(1) p] by blast
  obtain ts' out where r: "run_decoder utf8_step [] (pieces (nat k) ?b) = Some ts'"
    "extract_loop utf8_step chunk (nat m) [] (pieces (nat k) ?b) 0 0 = (out, None)" "numbered 0 out"
    "total_text out = take (nat m) (concat (map newlines ts'))"
    "breaks [] ts' = 0 \<longrightarrow> total_text out = take (nat m) (newlines cs)"
    "length (concat (map newlines ts')) = length (newlines cs) + breaks [] ts'"
    using utf8.extracted_text [OF assms(1) p c] by metis
  then show ?thesis using ts x by (intro exI [of _ ts] exI [of _ out]) auto
qed

lemma extract_loop_all:
  "\<lbrakk>\<And>i t. P (chunk i t); extract_loop step chunk limit s raws emitted index = (out, e); c \<in> set out\<rbrakk> \<Longrightarrow> P c"
proof (induction raws arbitrary: s emitted index out e)
  case Nil
  then show ?case by (auto simp: emit_def Let_def split: option.splits if_splits)
next
  case (Cons raw raws)
  have e: "x \<in> set (emit chunk limit emitted index t) \<Longrightarrow> P x" for x t
    using Cons.prems(1) by (auto simp: emit_def Let_def split: if_splits)
  show ?case using Cons.prems Cons.IH [OF Cons.prems(1)] e
    by (auto simp: Let_def split: option.splits prod.splits if_splits)
qed

lemma extract_text_loop:
  assumes "extract_text co src m k = (out, e)" "out \<noteq> []"
  shows "\<exists>chunk enc. (\<forall>i t. tx_text (chunk i t) = t \<and> tx_index (chunk i t) = i \<and> tx_path (chunk i t) = ts_path src)
     \<and> extract_loop (decoder_for co enc) chunk (nat m) [] (pieces (nat k) (ts_bytes src)) 0 0 = (out, e)"
proof (cases "text_descriptor (ts_path src)")
  case (Inr d)
  let ?enc = "choose_encoding (co_cp1251 co) (take (min (nat k) (64 * 1024)) (ts_bytes src))"
  show ?thesis using assms Inr
    by (intro exI [of _ "\<lambda>i t. \<lparr>tx_path = ts_path src, tx_format = fd_id d, tx_handler = fd_handler d, tx_encoding = ?enc,
        tx_index = i, tx_text = t\<rparr>"] exI [of _ ?enc]) (simp add: extract_text_def Let_def split: if_splits)
qed (use assms in \<open>simp add: extract_text_def split: if_splits\<close>)

lemma extract_text_ok:
  assumes "extract_text co src m k = (out, e)" "0 < m"
  shows "int (length (total_text out)) \<le> m" and "c \<in> set out \<Longrightarrow> tx_path c = ts_path src \<and> tx_text c \<noteq> []"
proof -
  have "int (length (total_text out)) \<le> m \<and> (c \<in> set out \<longrightarrow> tx_path c = ts_path src \<and> tx_text c \<noteq> [])"
  proof (cases "out = []")
    case False
    obtain chunk enc where l: "\<And>i t. tx_text (chunk i t) = t \<and> tx_index (chunk i t) = i" "\<And>i t. tx_path (chunk i t) = ts_path src"
        "extract_loop (decoder_for co enc) chunk (nat m) [] (pieces (nat k) (ts_bytes src)) 0 0 = (out, e)"
      using extract_text_loop [OF assms(1) False] by metis
    have "length (total_text out) \<le> nat m" "numbered 0 out" using extract_loop_bounded [OF l(1) _ l(3)] by simp_all
    moreover have "c \<in> set out \<Longrightarrow> tx_path c = ts_path src" by (rule extract_loop_all [OF _ l(3)]) (rule l(2))
    ultimately show ?thesis using assms(2) by (auto simp: numbered_def list_all_iff)
  qed (use assms(2) in simp)
  then show "int (length (total_text out)) \<le> m" "c \<in> set out \<Longrightarrow> tx_path c = ts_path src \<and> tx_text c \<noteq> []" by auto
qed

lemma take_budget_ok:
  "take_budget r cs = (out, left) \<Longrightarrow> set out \<subseteq> set cs \<and> left = r - int (length (total_text out)) \<and> (0 < left \<longrightarrow> out = cs)
     \<and> (int (length (total_text cs)) \<le> r \<longrightarrow> int (length (total_text out)) \<le> r)"
proof (induction cs arbitrary: r out left)
  case (Cons c cs)
  show ?case
  proof (cases "r - int (length (tx_text c)) \<le> 0")
    case False
    obtain o2 l2 where "take_budget (r - int (length (tx_text c))) cs = (o2, l2)" by fastforce
    then show ?thesis using Cons.prems Cons.IH False by fastforce
  qed (use Cons.prems in auto)
qed simp

lemma extract_files_ok:
  assumes "extract_files co files srcs selected remaining = (out, e)" "0 < remaining" "selected \<le> files"
  shows "int (length (total_text out)) \<le> remaining
     \<and> (\<forall>c \<in> set out. tx_text c \<noteq> [] \<and> tx_path c \<in> ts_path ` set (take (files - selected) (filter is_text srcs)))
     \<and> (e = None \<longrightarrow> int (length (total_text out)) = remaining \<or> length (filter is_text srcs) \<le> files - selected)"
  using assms
proof (induction srcs arbitrary: selected remaining out e)
  case (Cons src srcs)
  show ?case
  proof (cases "is_text src \<and> selected < files")
    case True
    then have suc: "files - selected = Suc (files - (selected + 1))" by (simp add: Suc_diff_Suc)
    obtain cs e1 where x: "extract_text co src remaining default_chunk = (cs, e1)" by fastforce
    obtain o1 left where b: "take_budget remaining cs = (o1, left)" by fastforce
    note b' = take_budget_ok [OF b] and x' = extract_text_ok [OF x Cons.prems(2)]
    have c1: "\<forall>c \<in> set o1. tx_text c \<noteq> [] \<and> tx_path c = ts_path src" using b' x'(2) by blast
    have l: "left = remaining - int (length (total_text o1))" "int (length (total_text o1)) \<le> remaining" using b' x'(1) by blast+
    show ?thesis
    proof (cases "left \<le> 0 \<or> e1 \<noteq> None")
      case True
      then have "out = o1" "e = None \<longrightarrow> left \<le> 0" using Cons.prems(1) \<open>is_text src \<and> selected < files\<close> by (auto simp: x b split: if_splits)
      then show ?thesis using c1 l \<open>is_text src \<and> selected < files\<close> by (auto simp: suc)
    next
      case False
      obtain o2 e2 where r: "extract_files co files srcs (selected + 1) left = (o2, e2)" by fastforce
      then have o: "out = o1 @ o2" "e = e2" using Cons.prems(1) \<open>is_text src \<and> selected < files\<close> False by (auto simp: x b)
      have "0 < left" "selected + 1 \<le> files" using False True by auto
      from Cons.IH [OF r this] show ?thesis using c1 l True by (auto simp: o suc)
    qed
  qed (use Cons in \<open>auto split: if_splits\<close>)
qed simp


section \<open>Concrete files\<close>

theorem cut_sample_misread_witness:
  "choose_encoding (\<lambda>_. Some 63) (take 1 (utf8 [0x44F])) \<in> {''cp1251'', ''latin-1''}
     \<and> csv_encoding (\<lambda>_. Some 63) (utf8 [0x44F]) = Inr ''utf-8-sig''"
proof -
  have s: "list_all scalar [0x44F]" by (simp add: scalar_def)
  have b: "utf8 [0x44F] = [0xD1, 0x8F]" by (simp add: utf8_char_def)
  have "\<not> boundary (utf8 [0x44F]) 1" "boundary (utf8 [0x44F]) (min csv_sample_bytes (length (utf8 [0x44F])))"
    by (simp_all add: boundary_def is_cont_iff b csv_sample_bytes_def del: utf8_simps)
  moreover have "\<not> begins utf8_mark (utf8 [0x44F])" "\<forall>m \<in> set utf16_marks. \<not> begins m (utf8 [0x44F])" "1 \<le> length (utf8 [0x44F])"
    by (simp_all add: begins_def utf8_mark_def utf16_marks_def b del: utf8_simps)
  ultimately show ?thesis using cut_sample_misread [OF s refl, of 1 "\<lambda>_. Some 63"] by blast
qed

lemma fold_keeps: "set result \<subseteq> set (fold add_format es result)"
proof (induction es arbitrary: result)
  case (Cons e es)
  have "set result \<subseteq> set (add_format e result)" by (auto simp: add_format_def Let_def)
  with Cons [of "add_format e result"] show ?case by auto
qed simp

lemma txt_format: "format_by_extension ''.txt'' = Some (descriptor_of (hd format_groups) ''txt'')"
proof -
  let ?g = "hd format_groups"
  have g: "format_groups = ?g # tl format_groups" by (simp add: format_groups_def)
  let ?w = "split_words [] (gr_extensions ?g)"
  have w: "?w \<noteq> []" "hd ?w = ''txt''" by code_simp+
  then have w: "?w = ''txt'' # tl ?w" by (cases ?w) simp_all
  have "catalogue_entries format_groups = map (Pair ?g) ?w @ catalogue_entries (tl format_groups)"
    by (subst g) (simp only: catalogue_entries_def list.map concat.simps)
  then have "catalogue_entries format_groups = (?g, ''txt'') # map (Pair ?g) (tl ?w) @ catalogue_entries (tl format_groups)"
    by (subst (asm) w) (simp only: list.map append.simps)
  moreover have n: "normal_extension ''txt'' = ''txt''" by code_simp
  have "add_format (?g, ''txt'') [] = [descriptor_of ?g ''txt'']" by (simp add: add_format_def Let_def n)
  ultimately have "descriptor_of ?g ''txt'' \<in> set builtin_formats"
    using fold_keeps [of "[descriptor_of ?g ''txt'']"] by (simp add: builtin_formats_def build_catalogue_def del: fold_append)
  then show ?thesis by (simp add: format_by_iff descriptor_of_def)
qed

definition demo_codecs :: codecs where
  "demo_codecs = \<lparr>co_cp1251 = (\<lambda>_. None), co_utf8_sig = table_step Some, co_utf16 = table_step Some\<rparr>"

theorem utf8_file_extracted_witness:
  "\<exists>out ts. extract_text demo_codecs \<lparr>ts_path = ''n.txt'', ts_regular = True, ts_symlink = False, ts_bytes = [97, 0xD1, 0x8F]\<rparr> 100 1024 = (out, None)
     \<and> concat ts = [97, 0x44F] \<and> total_text out = take 100 (concat (map newlines ts))"
proof -
  let ?src = "\<lparr>ts_path = ''n.txt'', ts_regular = True, ts_symlink = False, ts_bytes = [97, 0xD1, 0x8F]\<rparr>"
  have b: "utf8 [97, 0x44F] = [97, 0xD1, 0x8F]" by (simp add: utf8_char_def)
  have s: "list_all scalar [97, 0x44F]" by (simp add: scalar_def)
  have f: "py_lower (path_suffix (path_name ''n.txt'')) = ''.txt''" by code_simp
  have "gr_category (hd format_groups) = ''plain-text''" "gr_training (hd format_groups) = ''extract''" "gr_dependency (hd format_groups) = None"
    by (simp_all add: format_groups_def)
  then obtain d where d: "text_descriptor (ts_path ?src) = Inr d"
    by (simp add: text_descriptor_def format_for_path_def f txt_format descriptor_of_def text_categories_def directly_trainable_def)
  have m: "0 \<notin> set (utf8 [97, 0x44F])" "\<not> begins utf8_mark (utf8 [97, 0x44F])" "\<forall>b \<in> set utf16_marks. \<not> begins b (utf8 [97, 0x44F])"
    "boundary (utf8 [97, 0x44F]) (min (min (nat 1024) (64 * 1024)) (length (utf8 [97, 0x44F])))"
    by (simp_all add: begins_def utf8_mark_def utf16_marks_def boundary_def b del: utf8_simps)
  have "ts_bytes ?src = utf8 [97, 0x44F]" "ts_regular ?src" "\<not> ts_symlink ?src" by (simp_all add: b del: utf8_simps)
  from utf8_file_extracted [OF s this d _ _ _ _ m, of 100 demo_codecs] show ?thesis by (auto simp: gib_def)
qed


end
