(* ===== verification/Access.thy ===== *)
theory Access imports Packs begin

text \<open>
  Who may do what: \<open>src/src/kernelyra/security.py\<close> (binding and secrets) and \<open>agent_policy.py\<close>
  (the actions and the directories of an agent). A location is the list of its components from the
  root; \<open>resolve\<close> stands for the symbolic links of the file system.
\<close>

section \<open>Binding and secrets\<close>

definition loopback_hosts :: "string list" where
  "loopback_hosts = [''127.0.0.1'', ''localhost'', ''::1'']"

definition validate_daemon_bind :: "string \<Rightarrow> string option \<Rightarrow> kerror + unit" where
  "validate_daemon_bind host api_token =
     (if clean_name host \<in> set loopback_hosts then Inr ()
      else case api_token of
        None \<Rightarrow> Inl ConfigurationError
      | Some t \<Rightarrow> if t = [] then Inl ConfigurationError
                  else if length t < 24 then Inl ConfigurationError else Inr ())"

text \<open>\<open>_ensure_secret\<close>: \<open>before\<close> is the file when it is first read, \<open>created\<close> what another process has put
  there when the exclusive creation is tried. The secret and the file afterwards.\<close>

definition ensure_secret :: "string option \<Rightarrow> string option \<Rightarrow> string \<Rightarrow> string \<times> string" where
  "ensure_secret before created fresh =
     (case before of
        Some s \<Rightarrow> (py_strip s, s)
      | None \<Rightarrow> (case created of Some s \<Rightarrow> (py_strip s, s) | None \<Rightarrow> (fresh, fresh)))"

definition load_secret :: "string option \<Rightarrow> kerror + string" where
  "load_secret file =
     (case file of
        None \<Rightarrow> Inl ConfigurationError
      | Some s \<Rightarrow> if py_strip s = [] then Inl ConfigurationError else Inr (py_strip s))"

section \<open>The policy of an agent\<close>

definition default_agent_actions :: "string list" where
  "default_agent_actions =
     [''capabilities.read'', ''dataset.import'', ''dataset.list'', ''dataset.read'', ''hardware.read'', ''logs.read'',
      ''path.inspect'', ''run.create'', ''run.export'', ''run.list'', ''run.metrics'', ''run.pause'', ''run.read'',
      ''run.resume'', ''run.start'', ''run.stop'']"

type_synonym location = "string list"

text \<open>A path as it is written, after \<open>expanduser\<close>.\<close>

datatype written_path = Absolute location | Relative location

definition locate :: "(location \<Rightarrow> location) \<Rightarrow> location \<Rightarrow> written_path \<Rightarrow> location" where
  "locate resolve base p = resolve (case p of Absolute q \<Rightarrow> q | Relative q \<Rightarrow> base @ q)"

definition under :: "location \<Rightarrow> location \<Rightarrow> bool" where
  "under dir p \<longleftrightarrow> take (length dir) p = dir"

record agent_policy =
  ag_workspace :: location
  ag_roots :: "location list"
  ag_actions :: "string list"

fun strings_of :: "pyval \<Rightarrow> string list option" where
  "strings_of (VList []) = Some []"
| "strings_of (VList (VStr s # vs)) = map_option (Cons s) (strings_of (VList vs))"
| "strings_of _ = None"

text \<open>\<open>AgentPolicy.load\<close>: \<open>permissions\<close> is the table of the configuration file, empty without one, \<open>env\<close> the
  roots of the environment, \<open>read_path\<close> turns a written path into its components.\<close>

definition load_policy ::
  "(location \<Rightarrow> location) \<Rightarrow> (string \<Rightarrow> written_path) \<Rightarrow> location \<Rightarrow> pydict \<Rightarrow> string list \<Rightarrow> kerror + agent_policy" where
  "load_policy resolve read_path workspace permissions env =
     (case (case dict_get ''allowed_roots'' permissions of
              Some v \<Rightarrow> map_option (map read_path) (strings_of v)
            | None \<Rightarrow> Some (if filter (\<lambda>s. s \<noteq> []) env \<noteq> [] then map read_path (filter (\<lambda>s. s \<noteq> []) env)
                            else [Absolute workspace])) of
        None \<Rightarrow> Inl ConfigurationError
      | Some roots \<Rightarrow>
          (case (case dict_get ''allowed_actions'' permissions of
                   Some v \<Rightarrow> strings_of v
                 | None \<Rightarrow> Some default_agent_actions) of
             None \<Rightarrow> Inl ConfigurationError
           | Some actions \<Rightarrow>
               if list_ex (\<lambda>a. a \<notin> set default_agent_actions) actions then Inl ConfigurationError
               else Inr \<lparr>ag_workspace = workspace, ag_roots = map (locate resolve workspace) roots,
                         ag_actions = remdups actions\<rparr>))"

definition require_action :: "agent_policy \<Rightarrow> string \<Rightarrow> kerror + unit" where
  "require_action p action = (if action \<in> set (ag_actions p) then Inr () else Inl AccessDeniedError)"

definition require_path :: "(location \<Rightarrow> location) \<Rightarrow> agent_policy \<Rightarrow> written_path \<Rightarrow> kerror + location" where
  "require_path resolve p raw =
     (let location = locate resolve (ag_workspace p) raw
      in if list_ex (\<lambda>dir. under dir location) (ag_roots p) then Inr location else Inl AccessDeniedError)"

section \<open>What the policy confines\<close>

lemma under_iff: "under dir p \<longleftrightarrow> (\<exists>rest. p = dir @ rest)"
  by (metis append_take_drop_id append_eq_conv_conj under_def)

lemma load_policy_actions: "load_policy resolve rd ws ps env = Inr p \<Longrightarrow> set (ag_actions p) \<subseteq> set default_agent_actions"
  by (auto simp: load_policy_def list_ex_iff split: option.splits if_splits)

text \<open>C17: No configuration widens an agent: a policy that loads grants no action outside the fixed list,
  so none that deletes a run or a dataset or issues an approval, and a path is granted exactly when it
  resolves to a root of the policy or to something below one, component by component.\<close>

theorem agent_policy_confines:
  assumes "load_policy resolve rd ws ps env = Inr p"
  shows "(\<forall>a. require_action p a = Inr () \<longrightarrow> a \<in> set default_agent_actions)
    \<and> (\<forall>a \<in> {''run.remove'', ''run.delete'', ''dataset.remove'', ''dataset.delete'', ''approval.issue''}.
         require_action p a = Inl AccessDeniedError)
    \<and> (\<forall>raw q. require_path resolve p raw = Inr q \<longleftrightarrow>
         q = locate resolve ws raw \<and> (\<exists>dir \<in> set (ag_roots p). \<exists>rest. q = dir @ rest))"
proof (intro conjI)
  have sub: "set (ag_actions p) \<subseteq> set default_agent_actions" by (rule load_policy_actions [OF assms])
  then show "\<forall>a. require_action p a = Inr () \<longrightarrow> a \<in> set default_agent_actions"
    by (auto simp: require_action_def)
  have "a \<notin> set default_agent_actions"
    if "a \<in> {''run.remove'', ''run.delete'', ''dataset.remove'', ''dataset.delete'', ''approval.issue''}" for a
    using that by (elim insertE emptyE) (simp_all add: default_agent_actions_def)
  with sub show "\<forall>a \<in> {''run.remove'', ''run.delete'', ''dataset.remove'', ''dataset.delete'', ''approval.issue''}.
      require_action p a = Inl AccessDeniedError"
    by (auto simp: require_action_def)
  have "ag_workspace p = ws" using assms by (auto simp: load_policy_def split: option.splits if_splits)
  then show "\<forall>raw q. require_path resolve p raw = Inr q \<longleftrightarrow>
      q = locate resolve ws raw \<and> (\<exists>dir \<in> set (ag_roots p). \<exists>rest. q = dir @ rest)"
    by (auto simp: require_path_def Let_def list_ex_iff under_iff)
qed

definition demo_policy :: agent_policy where
  "demo_policy = \<lparr>ag_workspace = [''w''], ag_roots = [[''data'']], ag_actions = [''run.list'']\<rparr>"

lemma demo_policy_loads:
  "load_policy id (\<lambda>s. Absolute [s]) [''w''] [(''allowed_roots'', VList [VStr ''data'']),
     (''allowed_actions'', VList [VStr ''run.list''])] [] = Inr demo_policy"
  by (simp add: load_policy_def dict_get_def locate_def demo_policy_def default_agent_actions_def)

theorem agent_policy_confines_witness:
  "require_action demo_policy ''run.remove'' = Inl AccessDeniedError
   \<and> (\<exists>rest. [''data'', ''a''] = [''data''] @ rest)
   \<and> require_path id demo_policy (Absolute [''data'', ''a'']) = Inr [''data'', ''a'']
   \<and> require_path id demo_policy (Absolute [''data2'']) \<noteq> Inr [''data2'']"
  using agent_policy_confines [OF demo_policy_loads] by (simp add: demo_policy_def locate_def)

end
