(* ===== verification/Server.thy ===== *)
theory Server imports Access Create begin

text \<open>
  The HTTP daemon: \<open>src/src/kernelyra/server.py\<close>. The middleware that admits a request, the rate
  limiter, agent sessions, the handlers that change runs, approvals and sessions, and the status
  an exception is answered with. The routes and the parsing of bodies are FastAPI's; importing a
  data set is a parameter.
\<close>

section \<open>Calls that may raise and change the state\<close>

text \<open>The state a call leaves stays when it raises, so sequencing passes it on.\<close>

definition bind_state :: "('e + 'a) \<times> 's \<Rightarrow> ('a \<Rightarrow> 's \<Rightarrow> ('e + 'b) \<times> 's) \<Rightarrow> ('e + 'b) \<times> 's" where
  "bind_state r f = (case r of (Inl e, s) \<Rightarrow> (Inl e, s) | (Inr x, s) \<Rightarrow> f x s)"

lemma bind_state_simps [simp]: "bind_state (Inl e, s) f = (Inl e, s)" "bind_state (Inr x, s) f = f x s"
  by (simp_all add: bind_state_def)

lemma bind_state_InrE:
  assumes "bind_state r f = (Inr y, s')"
  obtains x s where "r = (Inr x, s)" and "f x s = (Inr y, s')"
  using assms by (cases r; cases "fst r") (auto simp: bind_state_def)

section \<open>Requests and state\<close>

text \<open>\<open>rq_host\<close> is the host name of the Host header, empty when it cannot be parsed; \<open>rq_now\<close> the time of
  day and \<open>rq_clock\<close> the monotonic clock when the request is handled. An absent header is empty.\<close>

record request =
  rq_host :: string
  rq_address :: string
  rq_authorization :: string
  rq_user_secret :: string
  rq_agent_secret :: string
  rq_agent_session :: string
  rq_agent_client :: string
  rq_now :: rat
  rq_clock :: rat

record agent_session =
  as_id :: string
  as_client :: string
  as_expires :: rat
  as_policy :: agent_policy

record server =
  sv_sessions :: "(string, agent_session) dict"
  sv_windows :: "(string, rat list) dict"
  sv_rt :: rt

record server_env =
  se_user_secret :: string
  se_agent_secret :: string
  se_api_token :: "string option"
  se_hosts :: "string list"
  se_hash :: "string \<Rightarrow> string"
  se_resolve :: "location \<Rightarrow> location"
  se_import :: "string \<Rightarrow> string option \<Rightarrow> store \<Rightarrow> (kerror + string) \<times> store"

definition approved_hosts :: "string list \<Rightarrow> string list" where
  "approved_hosts allowed =
     filter (\<lambda>h. h \<noteq> []) (map clean_name allowed) @ [''127.0.0.1'', ''localhost'', ''::1'', ''testserver'']"

definition save_store :: "store \<Rightarrow> server \<Rightarrow> server" where
  "save_store st sv = sv\<lparr>sv_rt := (sv_rt sv)\<lparr>rt_store := st\<rparr>\<rparr>"

definition sv_log :: "rat \<Rightarrow> string \<Rightarrow> string \<Rightarrow> pydict \<Rightarrow> server \<Rightarrow> server" where
  "sv_log now actor action payload sv = sv\<lparr>sv_rt := rt_log now actor action payload (sv_rt sv)\<rparr>"

section \<open>Rate limits\<close>

definition window_after :: "rat \<Rightarrow> rat list \<Rightarrow> rat list" where
  "window_after now window = dropWhile (\<lambda>t. t \<le> now - 60) window"

definition admit :: "nat \<Rightarrow> rat \<Rightarrow> rat list \<Rightarrow> bool \<times> rat list" where
  "admit maximum now window =
     (let w = window_after now window
      in if maximum \<le> length w then (True, w) else (False, w @ [now]))"

definition limited :: "string \<Rightarrow> nat \<Rightarrow> request \<Rightarrow> server \<Rightarrow> bool \<times> server" where
  "limited bucket maximum rq sv =
     (let key = bucket @ '':'' @ rq_address rq;
          window = (case dict_get key (sv_windows sv) of Some w \<Rightarrow> w | None \<Rightarrow> []);
          (full, w) = admit maximum (rq_clock rq) window
      in (full, sv\<lparr>sv_windows := dict_set key w (sv_windows sv)\<rparr>))"

section \<open>Who is asking\<close>

definition bearer :: "string \<Rightarrow> string" where
  "bearer token = ''Bearer '' @ token"

definition api_token_set :: "server_env \<Rightarrow> string option" where
  "api_token_set env = (case se_api_token env of Some t \<Rightarrow> if t = [] then None else Some t | None \<Rightarrow> None)"

definition has_user_access :: "server_env \<Rightarrow> request \<Rightarrow> bool" where
  "has_user_access env rq \<longleftrightarrow>
     (rq_user_secret rq \<noteq> [] \<and> rq_user_secret rq = se_user_secret env) \<or>
     (case api_token_set env of Some t \<Rightarrow> rq_authorization rq = bearer t | None \<Rightarrow> False)"

definition has_agent_bootstrap_access :: "server_env \<Rightarrow> request \<Rightarrow> bool" where
  "has_agent_bootstrap_access env rq \<longleftrightarrow> rq_agent_secret rq \<noteq> [] \<and> rq_agent_secret rq = se_agent_secret env"

definition get_agent_session :: "request \<Rightarrow> server \<Rightarrow> agent_session option \<times> server" where
  "get_agent_session rq sv =
     (case dict_get (rq_agent_session rq) (sv_sessions sv) of
        None \<Rightarrow> (None, sv)
      | Some s \<Rightarrow>
          if as_expires s \<le> rq_now rq
          then (None, sv\<lparr>sv_sessions := dict_del (rq_agent_session rq) (sv_sessions sv)\<rparr>)
          else if rq_agent_client rq = [] \<or> rq_agent_client rq \<noteq> as_client s then (None, sv)
          else (Some s, sv))"

text \<open>\<open>route\<close> and \<open>verb\<close> go to the action log.\<close>

definition require_agent_action ::
  "request \<Rightarrow> string \<Rightarrow> string \<Rightarrow> string \<Rightarrow> server \<Rightarrow> (kerror + agent_session) \<times> server" where
  "require_agent_action rq verb route action sv =
     (case get_agent_session rq sv of
        (None, sv') \<Rightarrow> (Inl AccessDeniedError, sv')
      | (Some s, sv') \<Rightarrow>
          (case require_action (as_policy s) action of
             Inl e \<Rightarrow> (Inl e, sv')
           | Inr _ \<Rightarrow> (Inr s, sv_log (rq_now rq) ''mcp_agent'' action
               [(''session_id'', VStr (as_id s)), (''client_id'', VStr (as_client s)), (''method'', VStr verb),
                (''route'', VStr route)] sv')))"

section \<open>The middleware\<close>

datatype verdict = Admitted | Denied nat

definition api_path :: "string \<Rightarrow> bool" where
  "api_path p \<longleftrightarrow> take 4 p = ''/api''"

definition mcp_path :: "string \<Rightarrow> bool" where
  "mcp_path p \<longleftrightarrow> take 12 p = ''/api/v1/mcp/''"

definition api_authentication :: "server_env \<Rightarrow> request \<Rightarrow> string \<Rightarrow> server \<Rightarrow> verdict \<times> server" where
  "api_authentication env rq p sv =
     (if py_lower (rq_host rq) \<notin> set (approved_hosts (se_hosts env)) then (Denied 400, sv)
      else if \<not> api_path p \<or> p \<in> {''/api/health'', ''/api/v1/health''} then (Admitted, sv)
      else if (case api_token_set env of Some t \<Rightarrow> rq_authorization rq \<noteq> bearer t | None \<Rightarrow> False)
      then (Denied 401, sv)
      else if mcp_path p
      then (if p = ''/api/v1/mcp/sessions'' \<and> has_agent_bootstrap_access env rq
            then (case limited ''agent-session'' 20 rq sv of (full, sv') \<Rightarrow> (if full then Denied 429 else Admitted, sv'))
            else (case get_agent_session rq sv of
                    (Some _, sv') \<Rightarrow> (Admitted, sv')
                  | (None, sv') \<Rightarrow> (Denied 403, sv')))
      else if \<not> has_user_access env rq then (Denied 403, sv)
      else if p = ''/api/v1/approvals''
      then (case limited ''approval'' 30 rq sv of (full, sv') \<Rightarrow> (if full then Denied 429 else Admitted, sv'))
      else (Admitted, sv))"

text \<open>An exception is answered by the handler of the first class of its resolution order that has one.\<close>

definition exception_handlers :: "(string, nat) dict" where
  "exception_handlers =
     [(''RunStateError'', 409), (''ApprovalError'', 403), (''AccessDeniedError'', 403), (''NotFoundError'', 404),
      (''PayloadTooLargeError'', 413), (''RateLimitError'', 429), (''KernelyraError'', 400), (''ValueError'', 400),
      (''Exception'', 500)]"

definition http_status :: "kerror \<Rightarrow> nat" where
  "http_status e =
     (case List.map_filter (\<lambda>c. dict_get c exception_handlers) (mro e) of n # _ \<Rightarrow> n | [] \<Rightarrow> 500)"

section \<open>Agent sessions\<close>

definition drop_expired :: "rat \<Rightarrow> (string, agent_session) dict \<Rightarrow> (string, agent_session) dict" where
  "drop_expired now ss = filter (\<lambda>(t, s). now < as_expires s) ss"

text \<open>\<open>policy\<close> is what \<open>AgentPolicy.load\<close> gives for the workspace; id and token are fresh.\<close>

definition issue_agent_session ::
  "server_env \<Rightarrow> request \<Rightarrow> kerror + agent_policy \<Rightarrow> string \<Rightarrow> int \<Rightarrow> string \<Rightarrow> string \<Rightarrow> server
     \<Rightarrow> (kerror + string) \<times> server" where
  "issue_agent_session env rq policy client_id ttl_seconds session_id session_token sv =
     (if \<not> has_agent_bootstrap_access env rq then (Inl AccessDeniedError, sv)
      else
        let sv1 = sv\<lparr>sv_sessions := drop_expired (rq_now rq) (sv_sessions sv)\<rparr>
        in case policy of
             Inl e \<Rightarrow> (Inl e, sv1)
           | Inr p \<Rightarrow>
               let expires_at = rq_now rq + of_int ttl_seconds
               in (Inr session_token,
                   sv_log (rq_now rq) ''mcp_bootstrap'' ''agent.session.issue''
                     [(''session_id'', VStr session_id), (''client_id'', VStr client_id),
                      (''allowed_actions'', VList (map VStr (sort (ag_actions p)))),
                      (''expires_at'', VFloat (Fin expires_at))]
                     (sv1\<lparr>sv_sessions := dict_set session_token
                        \<lparr>as_id = session_id, as_client = client_id, as_expires = expires_at, as_policy = p\<rparr>
                        (sv_sessions sv1)\<rparr>)))"

definition revoke_agent_session :: "request \<Rightarrow> string \<Rightarrow> server \<Rightarrow> bool \<times> server" where
  "revoke_agent_session rq session_id sv =
     (let revoked = list_ex (\<lambda>(t, s). as_id s = session_id) (sv_sessions sv)
      in (revoked, sv_log (rq_now rq) ''local_user'' ''agent.session.revoke''
            [(''session_id'', VStr session_id), (''revoked'', VBool revoked)]
            (sv\<lparr>sv_sessions := filter (\<lambda>(t, s). as_id s \<noteq> session_id) (sv_sessions sv)\<rparr>)))"

section \<open>Handlers\<close>

definition page :: "'a list \<Rightarrow> int \<Rightarrow> int \<Rightarrow> 'a list" where
  "page items limit offset = take (nat (max 1 (min 500 limit))) (drop (nat (max 0 offset)) items)"

definition run_logs_payload :: "string \<Rightarrow> int \<Rightarrow> server \<Rightarrow> kerror + log_entry list" where
  "run_logs_payload run_id limit sv =
     (case rt_run run_id (sv_rt sv) of
        None \<Rightarrow> Inl RunNotFoundError
      | Some _ \<Rightarrow> Inr (take (nat (max 1 (min 500 limit)))
          (filter (\<lambda>e. dict_get ''run_id'' (log_payload e) = Some (VStr run_id))
             (recent_actions (max 100 (min 1000 (limit * 5))) (rt_store (sv_rt sv))))))"

text \<open>\<open>consume_approval\<close> on the store of the server; an agent that shows no usable token is refused.\<close>

definition spend_approval ::
  "server_env \<Rightarrow> rat \<Rightarrow> string option \<Rightarrow> string \<Rightarrow> string \<Rightarrow> server \<Rightarrow> (kerror + unit) \<times> server" where
  "spend_approval env now token action resource_id sv =
     (case token of
        None \<Rightarrow> (Inl ApprovalError, sv)
      | Some t \<Rightarrow>
          if t = [] then (Inl ApprovalError, sv)
          else (case consume_approval (se_hash env) now t action resource_id (rt_store (sv_rt sv)) of
              (ok, st) \<Rightarrow> (if ok then Inr () else Inl ApprovalError, save_store st sv)))"

definition run_command_on ::
  "rat \<Rightarrow> bool \<Rightarrow> string \<Rightarrow> string \<Rightarrow> string \<Rightarrow> server \<Rightarrow> (kerror + run_info) \<times> server" where
  "run_command_on now lock_free actor run_id cmd sv =
     (case rt_command now lock_free actor run_id cmd (sv_rt sv) of (r, rt) \<Rightarrow> (r, sv\<lparr>sv_rt := rt\<rparr>))"

definition mcp_run_command ::
  "server_env \<Rightarrow> request \<Rightarrow> bool \<Rightarrow> string \<Rightarrow> string \<Rightarrow> string option \<Rightarrow> server \<Rightarrow> (kerror + run_info) \<times> server" where
  "mcp_run_command env rq lock_free run_id cmd token sv =
     bind_state (require_agent_action rq ''POST'' (''/api/v1/mcp/runs/'' @ run_id @ ''/command'') (''run.'' @ cmd) sv)
       (\<lambda>_ sv1.
          if cmd \<in> {''start'', ''resume''}
          then bind_state (spend_approval env (rq_now rq) token (''run.'' @ cmd) run_id sv1)
                 (\<lambda>_. run_command_on (rq_now rq) lock_free ''mcp'' run_id cmd)
          else run_command_on (rq_now rq) lock_free ''mcp'' run_id cmd sv1)"

definition export_run :: "string \<Rightarrow> server \<Rightarrow> kerror + run_info" where
  "export_run run_id sv =
     (case rt_run run_id (sv_rt sv) of
        None \<Rightarrow> Inl RunNotFoundError
      | Some r \<Rightarrow> (case get_dataset (r_dataset r) (rt_store (sv_rt sv)) of
            None \<Rightarrow> Inl DatasetNotFoundError
          | Some _ \<Rightarrow> Inr r))"

definition mcp_export_run :: "server_env \<Rightarrow> request \<Rightarrow> string \<Rightarrow> string \<Rightarrow> server \<Rightarrow> (kerror + run_info) \<times> server" where
  "mcp_export_run env rq run_id token sv =
     bind_state (require_agent_action rq ''POST'' (''/api/v1/mcp/runs/'' @ run_id @ ''/export'') ''run.export'' sv) (\<lambda>_ sv1.
     bind_state (case rt_run run_id (sv_rt sv1) of None \<Rightarrow> Inl RunNotFoundError | Some r \<Rightarrow> Inr r, sv1) (\<lambda>_ sv1.
     bind_state (spend_approval env (rq_now rq) (Some token) ''run.export'' run_id sv1) (\<lambda>_ sv2.
     bind_state (export_run run_id sv2, sv2) (\<lambda>r sv2.
       (Inr r, sv_log (rq_now rq) ''mcp'' ''run.export'' [(''run_id'', VStr run_id)] sv2)))))"

definition path_text :: "location \<Rightarrow> string" where
  "path_text p = (if p = [] then ''/'' else concat (map (\<lambda>c. ''/'' @ c) p))"

definition mcp_dataset_from_path ::
  "server_env \<Rightarrow> request \<Rightarrow> written_path \<Rightarrow> string option \<Rightarrow> string \<Rightarrow> server \<Rightarrow> (kerror + string) \<times> server" where
  "mcp_dataset_from_path env rq raw target token sv =
     bind_state (require_agent_action rq ''POST'' ''/api/v1/mcp/datasets/from-path'' ''dataset.import'' sv) (\<lambda>session sv1.
     bind_state (require_path (se_resolve env) (as_policy session) raw, sv1) (\<lambda>p sv1.
     bind_state (spend_approval env (rq_now rq) (Some token) ''dataset.import'' (path_text p) sv1) (\<lambda>_ sv2.
     bind_state (case se_import env (path_text p) target (rt_store (sv_rt sv2)) of (r, st) \<Rightarrow> (r, save_store st sv2))
       (\<lambda>d sv3. (Inr d, sv_log (rq_now rq) ''mcp'' ''dataset.import''
          [(''path'', VStr (path_text p)), (''dataset_id'', VStr d)] sv3)))))"

text \<open>\<open>inspect\<close> tells whether a model file can be fine-tuned. \<open>create_run_record\<close> starts the run for a user
  who asked for it.\<close>

definition create_run_record ::
  "create_env \<Rightarrow> (string \<Rightarrow> bool) \<Rightarrow> bool \<Rightarrow> run_config \<Rightarrow> bool \<Rightarrow> server \<Rightarrow> (kerror + run_info) \<times> server" where
  "create_run_record ce fine_tunes lock_free c start sv =
     (if rc_model_path c \<notin> {None, Some []} \<and> \<not> fine_tunes (the (rc_model_path c)) then (Inl ValueError, sv)
      else case rt_create ce c (sv_rt sv) of
        (Inl e, rt) \<Rightarrow> (Inl e, sv\<lparr>sv_rt := rt\<rparr>)
      | (Inr i, rt) \<Rightarrow>
          if start then run_command_on (ce_now ce) lock_free ''runtime'' i ''start'' (sv\<lparr>sv_rt := rt\<rparr>)
          else (case rt_run i rt of None \<Rightarrow> (Inl RunNotFoundError, sv\<lparr>sv_rt := rt\<rparr>)
                                  | Some r \<Rightarrow> (Inr r, sv\<lparr>sv_rt := rt\<rparr>)))"

definition mcp_create_run ::
  "create_env \<Rightarrow> request \<Rightarrow> (string \<Rightarrow> bool) \<Rightarrow> run_config \<Rightarrow> server \<Rightarrow> (kerror + run_info) \<times> server" where
  "mcp_create_run ce rq fine_tunes c sv =
     bind_state (require_agent_action rq ''POST'' ''/api/v1/mcp/runs'' ''run.create'' sv) (\<lambda>_ sv1.
       if rc_model_path c \<notin> {None, Some []} then (Inl ApprovalError, sv1)
       else create_run_record ce fine_tunes False c False sv1)"

text \<open>A pause or stop is polled for five seconds; \<open>seen\<close> are the rows the polls read.\<close>

fun await_status :: "run_status \<Rightarrow> run_info \<Rightarrow> run_info option list \<Rightarrow> run_info" where
  "await_status expected r [] = r"
| "await_status expected r (None # seen) = r"
| "await_status expected r (Some c # seen) =
     (if r_status c = expected \<or> r_status c \<notin> {Pausing, Stopping} then c else await_status expected r seen)"

definition run_command ::
  "rat \<Rightarrow> bool \<Rightarrow> string \<Rightarrow> string \<Rightarrow> run_info option list \<Rightarrow> server \<Rightarrow> (kerror + run_info) \<times> server" where
  "run_command now lock_free run_id cmd seen sv =
     (case run_command_on now lock_free ''api'' run_id cmd sv of
        (Inl e, sv') \<Rightarrow> (Inl e, sv')
      | (Inr r, sv') \<Rightarrow>
          let expected = (if cmd = ''pause'' then Some Paused else if cmd = ''stop'' then Some Stopped else None)
          in (Inr (case expected of Some x \<Rightarrow> if r_status r \<noteq> x then await_status x r seen else r | None \<Rightarrow> r), sv'))"

definition approvable :: "string list" where
  "approvable = [''run.start'', ''run.resume'', ''run.export'', ''dataset.import'']"

text \<open>\<open>located\<close> is the resolved path of the resource of an import; \<open>rnd\<close> the fresh token.\<close>

definition issue_user_approval ::
  "server_env \<Rightarrow> request \<Rightarrow> string \<Rightarrow> string \<Rightarrow> location \<Rightarrow> int \<Rightarrow> string \<Rightarrow> server \<Rightarrow> (kerror + string \<times> rat) \<times> server" where
  "issue_user_approval env rq action resource_id located ttl_seconds rnd sv =
     (if \<not> has_user_access env rq then (Inl ApprovalError, sv)
      else if action \<notin> set approvable then (Inl ValueError, sv)
      else if take 4 action = ''run.'' \<and> rt_run resource_id (sv_rt sv) = None then (Inl RunNotFoundError, sv)
      else let resource = (if take 4 action = ''run.'' then resource_id else path_text located)
           in case issue_approval (se_hash env) (rq_now rq) rnd action resource ttl_seconds ''user_cli''
                    (rt_store (sv_rt sv)) of
                Inl e \<Rightarrow> (Inl e, sv)
              | Inr (t, st) \<Rightarrow> (Inr t, save_store st sv))"

definition revoke_user_approval :: "server_env \<Rightarrow> request \<Rightarrow> string \<Rightarrow> server \<Rightarrow> bool \<times> server" where
  "revoke_user_approval env rq token sv =
     (case revoke_approval (se_hash env) (rq_now rq) token (rt_store (sv_rt sv)) of (ok, st) \<Rightarrow> (ok, save_store st sv))"

section \<open>The whole request\<close>

text \<open>The calls that change state, and \<open>AgentRead\<close> for the reading routes of an agent, which only check
  the action and log it. What the environment contributes to a call is an argument of it.\<close>

datatype call =
    Health
  | AgentOpen "kerror + agent_policy" string int string string
  | AgentRead string string
  | AgentCreate run_config
  | AgentCommand string string "string option"
  | AgentExport string string
  | AgentImport written_path "string option" string
  | UserCreate run_config bool
  | UserCommand string string "run_info option list"
  | UserApprove string string location int string
  | UserRevokeApproval string
  | UserRevokeSession string
  | UserRebalance bool

fun call_path :: "call \<Rightarrow> string" where
  "call_path Health = ''/api/v1/health''"
| "call_path (AgentOpen _ _ _ _ _) = ''/api/v1/mcp/sessions''"
| "call_path (AgentRead r _) = ''/api/v1/mcp/'' @ r"
| "call_path (AgentCreate _) = ''/api/v1/mcp/runs''"
| "call_path (AgentCommand i _ _) = ''/api/v1/mcp/runs/'' @ i @ ''/command''"
| "call_path (AgentExport i _) = ''/api/v1/mcp/runs/'' @ i @ ''/export''"
| "call_path (AgentImport _ _ _) = ''/api/v1/mcp/datasets/from-path''"
| "call_path (UserCreate _ _) = ''/api/v1/runs''"
| "call_path (UserCommand i _ _) = ''/api/v1/runs/'' @ i @ ''/command''"
| "call_path (UserApprove _ _ _ _ _) = ''/api/v1/approvals''"
| "call_path (UserRevokeApproval _) = ''/api/v1/approvals/revoke''"
| "call_path (UserRevokeSession i) = ''/api/v1/agent-sessions/'' @ i"
| "call_path (UserRebalance _) = ''/api/v1/rebalance''"

definition answer :: "nat \<Rightarrow> (kerror + 'a) \<times> server \<Rightarrow> nat \<times> server" where
  "answer ok r = (case fst r of Inr _ \<Rightarrow> ok | Inl e \<Rightarrow> http_status e, snd r)"

definition respond ::
  "server_env \<Rightarrow> create_env \<Rightarrow> (string \<Rightarrow> bool) \<Rightarrow> bool \<Rightarrow> request \<Rightarrow> call \<Rightarrow> server \<Rightarrow> nat \<times> server" where
  "respond env ce fine_tunes lock_free rq c sv =
     (case c of
        Health \<Rightarrow> (200, sv)
      | AgentOpen policy client ttl i token \<Rightarrow> answer 201 (issue_agent_session env rq policy client ttl i token sv)
      | AgentRead r action \<Rightarrow> answer 200 (require_agent_action rq ''GET'' (''/api/v1/mcp/'' @ r) action sv)
      | AgentCreate cfg \<Rightarrow> answer 201 (mcp_create_run ce rq fine_tunes cfg sv)
      | AgentCommand i cmd token \<Rightarrow> answer 200 (mcp_run_command env rq lock_free i cmd token sv)
      | AgentExport i token \<Rightarrow> answer 200 (mcp_export_run env rq i token sv)
      | AgentImport p target token \<Rightarrow> answer 201 (mcp_dataset_from_path env rq p target token sv)
      | UserCreate cfg start \<Rightarrow> answer 201 (create_run_record ce fine_tunes lock_free cfg start sv)
      | UserCommand i cmd seen \<Rightarrow> answer 200 (run_command (rq_now rq) lock_free i cmd seen sv)
      | UserApprove a i p ttl rnd \<Rightarrow> answer 201 (issue_user_approval env rq a i p ttl rnd sv)
      | UserRevokeApproval t \<Rightarrow> (200, snd (revoke_user_approval env rq t sv))
      | UserRevokeSession i \<Rightarrow> (200, snd (revoke_agent_session rq i sv))
      | UserRebalance gpu \<Rightarrow> (200, sv\<lparr>sv_rt := rt_rebalance (rq_now rq) gpu (sv_rt sv)\<rparr>))"

definition handle ::
  "server_env \<Rightarrow> create_env \<Rightarrow> (string \<Rightarrow> bool) \<Rightarrow> bool \<Rightarrow> request \<Rightarrow> call \<Rightarrow> server \<Rightarrow> nat \<times> server" where
  "handle env ce fine_tunes lock_free rq c sv =
     (case api_authentication env rq (call_path c) sv of
        (Denied n, sv') \<Rightarrow> (n, sv')
      | (Admitted, sv') \<Rightarrow> respond env ce fine_tunes lock_free rq c sv')"

fun agent_call :: "call \<Rightarrow> bool" where
  "agent_call (AgentRead _ _) = True"
| "agent_call (AgentCreate _) = True"
| "agent_call (AgentCommand _ _ _) = True"
| "agent_call (AgentExport _ _) = True"
| "agent_call (AgentImport _ _ _) = True"
| "agent_call _ = False"

fun user_call :: "call \<Rightarrow> bool" where
  "user_call (UserCreate _ _) = True"
| "user_call (UserCommand _ _ _) = True"
| "user_call (UserApprove _ _ _ _ _) = True"
| "user_call (UserRevokeApproval _) = True"
| "user_call (UserRevokeSession _) = True"
| "user_call (UserRebalance _) = True"
| "user_call _ = False"

section \<open>Only those who may\<close>

definition live_session :: "request \<Rightarrow> server \<Rightarrow> agent_session \<Rightarrow> bool" where
  "live_session rq sv s \<longleftrightarrow> dict_get (rq_agent_session rq) (sv_sessions sv) = Some s \<and> rq_now rq < as_expires s
     \<and> rq_agent_client rq \<noteq> [] \<and> rq_agent_client rq = as_client s"

lemma get_agent_session_Some [simp]:
  "get_agent_session rq sv = (Some s, sv') \<longleftrightarrow> live_session rq sv s \<and> sv' = sv"
  by (auto simp: get_agent_session_def live_session_def split: option.splits if_splits)

lemma get_agent_session_None: "get_agent_session rq sv = (None, sv') \<Longrightarrow> sv_rt sv' = sv_rt sv"
  by (auto simp: get_agent_session_def split: option.splits if_splits)

lemma limited_frame [simp]: "sv_rt (snd (limited b m rq sv)) = sv_rt sv" "sv_sessions (snd (limited b m rq sv)) = sv_sessions sv"
  by (simp_all add: limited_def Let_def split: prod.split)

lemma user_paths: "user_call c \<Longrightarrow> api_path (call_path c) \<and> \<not> mcp_path (call_path c) \<and>
    call_path c \<notin> {''/api/health'', ''/api/v1/health''}"
  by (cases c) (simp_all add: api_path_def mcp_path_def)

lemma agent_paths: "agent_call c \<or> (\<exists>p a t i k. c = AgentOpen p a t i k) \<Longrightarrow> api_path (call_path c) \<and> mcp_path (call_path c) \<and>
    call_path c \<notin> {''/api/health'', ''/api/v1/health''}"
  by (cases c) (auto simp: api_path_def mcp_path_def)

text \<open>No request gets past the middleware that should not: whatever is admitted names an approved
  host and, when an API token is set, carries it; a call of the user carries the user secret or that
  token, a call of an agent a session that is live at that moment for that client, or, for a path that
  opens sessions, the agent secret.\<close>

theorem admitted_is_authorised:
  assumes "api_authentication env rq (call_path c) sv = (Admitted, sv')" and "c \<noteq> Health"
  shows "py_lower (rq_host rq) \<in> set (approved_hosts (se_hosts env))
    \<and> (\<forall>t. api_token_set env = Some t \<longrightarrow> rq_authorization rq = bearer t)
    \<and> (user_call c \<longrightarrow> has_user_access env rq)
    \<and> (\<not> user_call c \<longrightarrow> (\<exists>s. live_session rq sv s) \<or>
         call_path c = ''/api/v1/mcp/sessions'' \<and> has_agent_bootstrap_access env rq)
    \<and> sv_rt sv' = sv_rt sv"
proof (cases "user_call c")
  case True
  from user_paths [OF this] assms(1) True show ?thesis
    by (auto simp: api_authentication_def split: if_splits option.splits prod.splits
        dest!: arg_cong [of "limited _ _ _ _" _ "\<lambda>x. sv_rt (snd x)"])
next
  case False
  with assms(2) have "agent_call c \<or> (\<exists>p a t i k. c = AgentOpen p a t i k)" by (cases c) auto
  from agent_paths [OF this] assms(1) False show ?thesis
    by (auto simp: api_authentication_def split: if_splits option.splits prod.splits
        dest!: arg_cong [of "limited _ _ _ _" _ "\<lambda>x. sv_rt (snd x)"])
qed

section \<open>Approvals\<close>

lemma status_ge: "400 \<le> http_status e"
  by (cases e) (simp_all add: http_status_def exception_handlers_def List.map_filter_simps dict_get_def)

lemma answer_ok: "answer ok r = (n, sv') \<Longrightarrow> n < 400 \<Longrightarrow> \<exists>x. r = (Inr x, sv')"
  using status_ge by (cases r) (auto simp: answer_def not_less [symmetric] split: sum.splits)

abbreviation approvals_of :: "rt \<Rightarrow> (string, approval) dict" where
  "approvals_of s \<equiv> st_approvals (rt_store s)"

lemma approvals_save [simp]: "approvals_of (rt_save now r s) = approvals_of s"
  by (simp add: rt_save_def)

lemma approvals_log [simp]: "approvals_of (rt_log now a w p s) = approvals_of s"
  by (simp add: rt_log_def)

lemma approvals_control [simp]: "approvals_of (set_control i k s) = approvals_of s"
  by (simp add: set_control_def)

lemma approvals_recover [simp]: "approvals_of (fold (recover_one now) rs s) = approvals_of s"
  by (induction rs arbitrary: s) (simp_all add: recover_one_def)

lemma approvals_start [simp]: "approvals_of (snd (rt_start now lf s)) = approvals_of s"
  by (auto simp: rt_start_def acquire_scheduler_lock_def split: prod.split sum.split)

lemma approvals_done [simp]: "approvals_of (snd (command_done now actor cmd r s)) = approvals_of s"
  by (simp add: command_done_def)

lemma approvals_queue [simp]: "approvals_of (snd (command_queue now lf actor cmd m r s)) = approvals_of s"
proof (cases "rt_start now lf (set_control (r_id r) no_control s)")
  case (Pair x s')
  with approvals_start [of now lf "set_control (r_id r) no_control s"] have "approvals_of s' = approvals_of s" by simp
  with Pair show ?thesis by (cases x) (simp_all add: command_queue_def)
qed

lemma approvals_if:
  "approvals_of (snd x) = a \<Longrightarrow> approvals_of (snd y) = a \<Longrightarrow> approvals_of (snd (if b then x else y)) = a"
  by simp

lemma approvals_command [simp]: "approvals_of (snd (rt_command now lf actor i cmd s)) = approvals_of s"
proof (cases "rt_run i s")
  case (Some r)
  show ?thesis
    unfolding rt_command_def Some option.case Let_def by (intro approvals_if) simp_all
qed (simp add: rt_command_def)

lemma run_command_on_approvals: "run_command_on now lf actor i cmd sv = (r, sv') \<Longrightarrow>
    approvals_of (sv_rt sv') = approvals_of (sv_rt sv)"
  using approvals_command [of now lf actor i cmd "sv_rt sv"]
  by (cases "rt_command now lf actor i cmd (sv_rt sv)") (auto simp: run_command_on_def)

text \<open>What a call of an agent must show: the token, and the action and the resource it must be for.\<close>

fun approval_for :: "server_env \<Rightarrow> agent_session \<Rightarrow> call \<Rightarrow> (string option \<times> string \<times> string) option" where
  "approval_for env s (AgentCommand i cmd t) =
     (if cmd \<in> {''start'', ''resume''} then Some (t, ''run.'' @ cmd, i) else None)"
| "approval_for env s (AgentExport i t) = Some (Some t, ''run.export'', i)"
| "approval_for env s (AgentImport p target t) =
     Some (Some t, ''dataset.import'', path_text (locate (se_resolve env) (ag_workspace (as_policy s)) p))"
| "approval_for env s _ = None"

definition spent_token :: "server_env \<Rightarrow> string \<Rightarrow> server \<Rightarrow> bool" where
  "spent_token env t sv \<longleftrightarrow> (\<forall>now action resource. \<not> fst (consume_approval (se_hash env) now t action resource (rt_store (sv_rt sv))))"

lemma spend_approval_ok:
  assumes "spend_approval env now token action res sv = (Inr x, sv')"
  shows "\<exists>t a. token = Some t \<and> t \<noteq> [] \<and> dict_get (se_hash env t) (approvals_of (sv_rt sv)) = Some a
    \<and> approval_matches now action res a
    \<and> dict_get (se_hash env t) (approvals_of (sv_rt sv')) = Some (a\<lparr>ap_used := Some now\<rparr>)
    \<and> sv_sessions sv' = sv_sessions sv"
  using assms by (auto simp: spend_approval_def consume_approval_def save_store_def
      split: option.splits if_splits prod.splits)

lemma used_is_spent:
  "dict_get (se_hash env t) (approvals_of (sv_rt sv)) = Some a \<Longrightarrow> ap_used a \<noteq> None \<Longrightarrow> spent_token env t sv"
  by (auto simp: spent_token_def consume_approval_def approval_matches_def)

lemma require_agent_action_ok:
  assumes "require_agent_action rq verb r action sv = (Inr s, sv')"
  shows "live_session rq sv s \<and> action \<in> set (ag_actions (as_policy s)) \<and> approvals_of (sv_rt sv') = approvals_of (sv_rt sv)"
  using assms by (auto simp: require_agent_action_def sv_log_def require_action_def
      split: prod.splits option.splits sum.splits if_splits)

lemma spent_after:
  assumes "spend_approval env now token action res sv = (Inr x, sv1)" and "approvals_of (sv_rt sv') = approvals_of (sv_rt sv1)"
  shows "\<exists>t a. token = Some t \<and> t \<noteq> [] \<and> dict_get (se_hash env t) (approvals_of (sv_rt sv)) = Some a
    \<and> approval_matches now action res a \<and> spent_token env t sv'"
proof -
  from spend_approval_ok [OF assms(1)] obtain t a where a: "token = Some t" "t \<noteq> []"
    "dict_get (se_hash env t) (approvals_of (sv_rt sv)) = Some a" "approval_matches now action res a"
    "dict_get (se_hash env t) (approvals_of (sv_rt sv1)) = Some (a\<lparr>ap_used := Some now\<rparr>)" by blast
  have "ap_used (a\<lparr>ap_used := Some now\<rparr>) \<noteq> None" by (cases a) simp
  with a(5) have "spent_token env t sv'" by (intro used_is_spent [of env t sv']) (simp_all only: assms(2))
  with a show ?thesis by blast
qed

lemma mcp_command_ok:
  assumes "mcp_run_command env rq lf i cmd token sv = (Inr r, sv')" and "cmd \<in> {''start'', ''resume''}"
  shows "\<exists>s t a. live_session rq sv s \<and> (''run.'' @ cmd) \<in> set (ag_actions (as_policy s)) \<and> token = Some t \<and> t \<noteq> []
    \<and> dict_get (se_hash env t) (approvals_of (sv_rt sv)) = Some a \<and> approval_matches (rq_now rq) (''run.'' @ cmd) i a
    \<and> spent_token env t sv'"
proof -
  from assms(1) [unfolded mcp_run_command_def if_P [OF assms(2)]]
  obtain s sv1 u sv2 where
    1: "require_agent_action rq ''POST'' (''/api/v1/mcp/runs/'' @ i @ ''/command'') (''run.'' @ cmd) sv = (Inr s, sv1)"
    and 2: "spend_approval env (rq_now rq) token (''run.'' @ cmd) i sv1 = (Inr u, sv2)"
    and 3: "run_command_on (rq_now rq) lf ''mcp'' i cmd sv2 = (Inr r, sv')"
    by (elim bind_state_InrE) blast
  from require_agent_action_ok [OF 1] spent_after [OF 2 run_command_on_approvals [OF 3]] show ?thesis by auto
qed

lemma mcp_export_ok:
  assumes "mcp_export_run env rq i t sv = (Inr r, sv')"
  shows "\<exists>s a. live_session rq sv s \<and> ''run.export'' \<in> set (ag_actions (as_policy s)) \<and> t \<noteq> []
    \<and> dict_get (se_hash env t) (approvals_of (sv_rt sv)) = Some a \<and> approval_matches (rq_now rq) ''run.export'' i a
    \<and> spent_token env t sv'"
proof -
  from assms [unfolded mcp_export_run_def] obtain s sv1 u sv2 where
    1: "require_agent_action rq ''POST'' (''/api/v1/mcp/runs/'' @ i @ ''/export'') ''run.export'' sv = (Inr s, sv1)"
    and 2: "spend_approval env (rq_now rq) (Some t) ''run.export'' i sv1 = (Inr u, sv2)"
    and 3: "sv' = sv_log (rq_now rq) ''mcp'' ''run.export'' [(''run_id'', VStr i)] sv2"
    by (elim bind_state_InrE) auto
  from require_agent_action_ok [OF 1] spent_after [OF 2, of sv'] 3 show ?thesis by (auto simp: sv_log_def)
qed

lemma mcp_import_ok:
  assumes "mcp_dataset_from_path env rq p target t sv = (Inr d, sv')"
    and keeps: "\<And>q tg st. st_approvals (snd (se_import env q tg st)) = st_approvals st"
  shows "\<exists>s a q. live_session rq sv s \<and> ''dataset.import'' \<in> set (ag_actions (as_policy s)) \<and> t \<noteq> []
    \<and> require_path (se_resolve env) (as_policy s) p = Inr q
    \<and> dict_get (se_hash env t) (approvals_of (sv_rt sv)) = Some a
    \<and> approval_matches (rq_now rq) ''dataset.import'' (path_text q) a \<and> spent_token env t sv'"
proof -
  from assms(1) [unfolded mcp_dataset_from_path_def] obtain s sv1 q u sv2 sv3 where
    1: "require_agent_action rq ''POST'' ''/api/v1/mcp/datasets/from-path'' ''dataset.import'' sv = (Inr s, sv1)"
    and q: "require_path (se_resolve env) (as_policy s) p = Inr q"
    and 2: "spend_approval env (rq_now rq) (Some t) ''dataset.import'' (path_text q) sv1 = (Inr u, sv2)"
    and 3: "(case se_import env (path_text q) target (rt_store (sv_rt sv2)) of (r, st) \<Rightarrow> (r, save_store st sv2)) = (Inr d, sv3)"
    and 4: "sv' = sv_log (rq_now rq) ''mcp'' ''dataset.import''
        [(''path'', VStr (path_text q)), (''dataset_id'', VStr d)] sv3"
    by (elim bind_state_InrE) auto
  have "approvals_of (sv_rt sv') = approvals_of (sv_rt sv2)"
    using 3 4 keeps [of "path_text q" target "rt_store (sv_rt sv2)"]
    by (cases "se_import env (path_text q) target (rt_store (sv_rt sv2))") (auto simp: sv_log_def save_store_def)
  from require_agent_action_ok [OF 1] spent_after [OF 2 this] q show ?thesis by auto
qed

lemma approval_paths: "approval_for env s c = Some x \<Longrightarrow> agent_call c \<and> call_path c \<noteq> ''/api/v1/mcp/sessions''"
  by (cases c) (auto split: if_splits)

lemma admitted_same:
  assumes "approval_for env s c = Some x" and "api_authentication env' rq (call_path c) sv = (Admitted, sv')"
  shows "sv' = sv"
  using assms(2) agent_paths [of c] approval_paths [OF assms(1)]
  by (auto simp: api_authentication_def split: if_splits option.splits prod.splits)

text \<open>C15: An agent starts, resumes or exports a run and imports a data set only with an approval: such a call
  succeeds only in a live session whose policy has the action, with a token that was issued for exactly
  this action on exactly this resource and is neither used nor expired, and afterwards the token is
  good for nothing, whatever the action, the resource and the time.\<close>

theorem agent_needs_approval:
  assumes "handle env ce ft lf rq c sv = (n, sv')" and "n < 400" and "approval_for env s0 c \<noteq> None"
    and keeps: "\<And>q tg st. st_approvals (snd (se_import env q tg st)) = st_approvals st"
  shows "\<exists>s t action resource a. live_session rq sv s \<and> approval_for env s c = Some (Some t, action, resource)
    \<and> action \<in> set (ag_actions (as_policy s)) \<and> t \<noteq> []
    \<and> dict_get (se_hash env t) (st_approvals (rt_store (sv_rt sv))) = Some a
    \<and> approval_matches (rq_now rq) action resource a \<and> spent_token env t sv'"
proof -
  obtain v sv1 where m: "api_authentication env rq (call_path c) sv = (v, sv1)" by fastforce
  obtain x where x: "approval_for env s0 c = Some x" using assms(3) by blast
  have v: "v = Admitted"
  proof (rule ccontr)
    assume "v \<noteq> Admitted"
    with m assms(1,2) obtain k where "v = Denied k" "k < 400" by (cases v) (auto simp: handle_def)
    with m show False using agent_paths [of c] approval_paths [OF x]
      by (auto simp: api_authentication_def split: if_splits option.splits prod.splits)
  qed
  with m assms(1) admitted_same [OF x] have r: "respond env ce ft lf rq c sv = (n, sv')" by (auto simp: handle_def)
  show ?thesis
  proof (cases c)
    case (AgentCommand i cmd token)
    with x have cmd: "cmd \<in> {''start'', ''resume''}" by (simp split: if_splits)
    from r AgentCommand have "answer 200 (mcp_run_command env rq lf i cmd token sv) = (n, sv')" by (simp add: respond_def)
    from answer_ok [OF this assms(2)] obtain y where "mcp_run_command env rq lf i cmd token sv = (Inr y, sv')" by blast
    from mcp_command_ok [OF this cmd] AgentCommand cmd show ?thesis by auto
  next
    case (AgentExport i t)
    with r have "answer 200 (mcp_export_run env rq i t sv) = (n, sv')" by (simp add: respond_def)
    from answer_ok [OF this assms(2)] obtain y where "mcp_export_run env rq i t sv = (Inr y, sv')" by blast
    from mcp_export_ok [OF this] AgentExport show ?thesis by auto
  next
    case (AgentImport p tg t)
    with r have "answer 201 (mcp_dataset_from_path env rq p tg t sv) = (n, sv')" by (simp add: respond_def)
    from answer_ok [OF this assms(2)] obtain y where "mcp_dataset_from_path env rq p tg t sv = (Inr y, sv')" by blast
    from mcp_import_ok [OF this keeps] obtain s a q where "live_session rq sv s" "''dataset.import'' \<in> set (ag_actions (as_policy s))"
      "t \<noteq> []" "require_path (se_resolve env) (as_policy s) p = Inr q"
      "dict_get (se_hash env t) (approvals_of (sv_rt sv)) = Some a"
      "approval_matches (rq_now rq) ''dataset.import'' (path_text q) a" "spent_token env t sv'" by blast
    moreover then have "q = locate (se_resolve env) (ag_workspace (as_policy s)) p"
      by (auto simp: require_path_def Let_def split: if_splits)
    ultimately show ?thesis using AgentImport by auto
  qed (use x in auto)
qed

section \<open>Rate limits hold\<close>

text \<open>The times of a series of calls that are let through, and the window it leaves.\<close>

fun admitted_times :: "nat \<Rightarrow> rat list \<Rightarrow> rat list \<Rightarrow> rat list" where
  "admitted_times maximum window [] = []"
| "admitted_times maximum window (t # ts) =
     (case admit maximum t window of (full, w) \<Rightarrow>
        (if full then [] else [t]) @ admitted_times maximum w ts)"

definition in_window :: "rat \<Rightarrow> rat list \<Rightarrow> rat list" where
  "in_window x ts = filter (\<lambda>t. x - 60 < t \<and> t \<le> x) ts"

lemma window_after_filter: "sorted w \<Longrightarrow> window_after now w = filter (\<lambda>t. now - 60 < t) w"
  unfolding window_after_def
proof (induction w)
  case (Cons t w)
  then have "now - 60 < t \<Longrightarrow> filter (\<lambda>u. now - 60 < u) w = w" by (auto simp: filter_id_conv)
  with Cons show ?case by auto
qed simp

lemma length_filter_imp: "(\<And>x. P x \<Longrightarrow> Q x) \<Longrightarrow> length (filter P xs) \<le> length (filter Q xs)"
  by (induction xs) (auto simp: le_SucI)

lemma admitted_bounded:
  assumes "sorted ts" and "sorted w" and "\<forall>a \<in> set (w @ A). \<forall>t \<in> set ts. a \<le> t"
    and "\<forall>t \<in> set ts. filter (\<lambda>a. t - 60 < a) w = filter (\<lambda>a. t - 60 < a) A"
    and "\<forall>x. length (in_window x A) \<le> m"
  shows "length (in_window x (A @ admitted_times m w ts)) \<le> m"
  using assms
proof (induction ts arbitrary: w A)
  case (Cons t ts)
  define v where "v = window_after t w"
  have vw: "v = filter (\<lambda>a. t - 60 < a) w" unfolding v_def by (rule window_after_filter [OF Cons.prems(2)])
  have v: "v = filter (\<lambda>a. t - 60 < a) A" "sorted v"
    using Cons.prems(2,4) by (simp_all add: vw) (metis sorted_wrt_filter)
  have later: "filter (\<lambda>a. u - 60 < a) v = filter (\<lambda>a. u - 60 < a) A" if "u \<in> set ts" for u
  proof -
    have "t \<le> u" using Cons.prems(1) that by simp
    then show ?thesis by (auto simp: v(1) intro!: filter_cong)
  qed
  have sub: "set v \<subseteq> set A" by (auto simp: v(1))
  show ?case
  proof (cases "m \<le> length v")
    case True
    then have "admitted_times m w (t # ts) = admitted_times m v ts" by (simp add: admit_def v_def Let_def)
    moreover have "length (in_window x (A @ admitted_times m v ts)) \<le> m"
      using Cons.prems v later sub by (intro Cons.IH) auto
    ultimately show ?thesis by simp
  next
    case False
    then have eq: "A @ admitted_times m w (t # ts) = (A @ [t]) @ admitted_times m (v @ [t]) ts"
      by (simp add: admit_def v_def Let_def)
    have "length (in_window y (A @ [t])) \<le> m" for y
    proof (cases "t \<le> y \<and> y - 60 < t")
      case True
      have "length (in_window y A) \<le> length v"
        unfolding v(1) in_window_def by (rule length_filter_imp) (use True in auto)
      with False True show ?thesis by (simp add: in_window_def)
    next
      case outside: False
      then show ?thesis using Cons.prems(5) by (auto simp: in_window_def)
    qed
    moreover have "sorted (v @ [t])" using v(2) sub Cons.prems(3) by (auto simp: sorted_append)
    ultimately have "length (in_window x ((A @ [t]) @ admitted_times m (v @ [t]) ts)) \<le> m"
      using Cons.prems(1,3) later sub by (intro Cons.IH) auto
    then show ?thesis by (simp only: eq)
  qed
qed simp

text \<open>C16: The rate limiter keeps its promise in every window, not only in the minutes it happens to look
  at: of any series of calls, at most the allowed number get through within any sixty seconds.\<close>

theorem rate_limit_holds:
  assumes "sorted ts"
  shows "length (in_window x (admitted_times maximum [] ts)) \<le> maximum"
  using admitted_bounded [of ts "[]" "[]" maximum x] assms by (simp add: in_window_def)

theorem rate_limit_holds_witness:
  "length (in_window 61 (admitted_times 2 [] [0, 1, 2, 61, 62])) \<le> 2
   \<and> admitted_times 2 [] [0, 1, 2, 61, 62] = [0, 1, 61, 62]"
  using rate_limit_holds [of "[0, 1, 2, 61, 62]" 61 2] by (simp add: admit_def window_after_def)

section \<open>Sessions end\<close>

lemma revoked_gone:
  assumes "revoke_agent_session rq i sv = (b, sv1)" and "live_session rq' sv1 s"
  shows "as_id s \<noteq> i"
proof -
  have "sv_sessions sv1 = filter (\<lambda>(t, s). as_id s \<noteq> i) (sv_sessions sv)"
    using assms(1) by (auto simp: revoke_agent_session_def sv_log_def Let_def)
  moreover have "(rq_agent_session rq', s) \<in> set (sv_sessions sv1)"
    using assms(2) by (auto simp: live_session_def dict_get_def dest: map_of_SomeD)
  ultimately show ?thesis by auto
qed

lemma no_live: "(\<And>s. \<not> live_session rq sv s) \<Longrightarrow> \<exists>sv'. get_agent_session rq sv = (None, sv')"
  by (cases "dict_get (rq_agent_session rq) (sv_sessions sv)") (simp_all add: get_agent_session_def live_session_def)

lemma refused_middleware:
  assumes "api_path p" and "mcp_path p" and "p \<noteq> ''/api/health''" and "p \<noteq> ''/api/v1/health''"
    and "p \<noteq> ''/api/v1/mcp/sessions''" and "get_agent_session rq sv = (None, sv')"
  shows "\<exists>n sv1. api_authentication env rq p sv = (Denied n, sv1) \<and> n \<in> {400, 401, 403} \<and> (sv1 = sv \<or> sv1 = sv')"
  using assms by (simp add: api_authentication_def)

text \<open>A session that is over opens nothing: when the only session behind a token is revoked, or its time
  has passed, every call of an agent with this token is turned away by the middleware and no run, no
  approval and no data set changes.\<close>

theorem ended_session_refused:
  assumes "dict_ok (sv_sessions sv)" and "dict_get (rq_agent_session rq) (sv_sessions sv) = Some s"
    and "sv' = snd (revoke_agent_session rq0 (as_id s) sv) \<or> sv' = sv \<and> as_expires s \<le> rq_now rq"
    and "agent_call c" and "call_path c \<noteq> ''/api/v1/mcp/sessions''"
  shows "fst (handle env ce ft lf rq c sv') \<in> {400, 401, 403} \<and> sv_rt (snd (handle env ce ft lf rq c sv')) = sv_rt sv'"
proof -
  have "\<not> live_session rq sv' s'" for s'
    using assms(3)
  proof
    assume sv': "sv' = snd (revoke_agent_session rq0 (as_id s) sv)"
    show ?thesis
    proof
      assume live: "live_session rq sv' s'"
      have "revoke_agent_session rq0 (as_id s) sv = (fst (revoke_agent_session rq0 (as_id s) sv), sv')" by (simp add: sv')
      from revoked_gone [OF this live] have "as_id s' \<noteq> as_id s" .
      moreover have "sv_sessions sv' = filter (\<lambda>(t, x). as_id x \<noteq> as_id s) (sv_sessions sv)"
        by (simp add: sv' revoke_agent_session_def sv_log_def Let_def)
      with live have "(rq_agent_session rq, s') \<in> set (sv_sessions sv)"
        by (auto simp: live_session_def dict_get_def dest: map_of_SomeD)
      then have "s' = s" using assms(1,2) by (auto simp: dict_ok_def dict_keys_def dict_get_def)
      ultimately show False by simp
    qed
  next
    assume "sv' = sv \<and> as_expires s \<le> rq_now rq"
    then have "sv' = sv" "\<not> rq_now rq < as_expires s" by auto
    with assms(2) show ?thesis unfolding live_session_def by (metis option.inject)
  qed
  from no_live [OF this] obtain sv'' where g: "get_agent_session rq sv' = (None, sv'')" by blast
  have p: "api_path (call_path c)" "mcp_path (call_path c)"
      "call_path c \<noteq> ''/api/health''" "call_path c \<noteq> ''/api/v1/health''"
    using agent_paths [of c] assms(4) by blast+
  obtain n sv3 where m: "api_authentication env rq (call_path c) sv' = (Denied n, sv3)" "n \<in> {400, 401, 403}" "sv_rt sv3 = sv_rt sv'"
    using refused_middleware [OF p assms(5) g] get_agent_session_None [OF g] by metis
  show ?thesis unfolding handle_def m(1) using m(2,3) by simp
qed

section \<open>A server with one session and one approval\<close>

definition demo_daemon :: server_env where
  "demo_daemon = \<lparr>se_user_secret = ''u'', se_agent_secret = ''a'', se_api_token = None, se_hosts = [], se_hash = id,
     se_resolve = id, se_import = \<lambda>q tg st. (Inr ''d1'', st)\<rparr>"

definition demo_session :: agent_session where
  "demo_session = \<lparr>as_id = ''s1'', as_client = ''client-1'', as_expires = 500,
     as_policy = \<lparr>ag_workspace = [''w''], ag_roots = [[''data'']], ag_actions = [''dataset.import'']\<rparr>\<rparr>"

definition demo_approval :: approval where
  "demo_approval = \<lparr>ap_action = ''dataset.import'', ap_resource = ''/data/a'', ap_expires = 400, ap_used = None, ap_created = 100\<rparr>"

definition demo_server :: server where
  "demo_server = \<lparr>sv_sessions = [(''tok'', demo_session)], sv_windows = [],
     sv_rt = rt_new (empty_store\<lparr>st_approvals := [(''once'', demo_approval)]\<rparr>)\<rparr>"

definition demo_request :: request where
  "demo_request = \<lparr>rq_host = ''localhost'', rq_address = ''local'', rq_authorization = [], rq_user_secret = [],
     rq_agent_secret = [], rq_agent_session = ''tok'', rq_agent_client = ''client-1'', rq_now = 200, rq_clock = 1\<rparr>"

definition demo_import :: call where
  "demo_import = AgentImport (Absolute [''data'', ''a'']) None ''once''"

lemma demo_live: "live_session demo_request demo_server demo_session"
  by (simp add: live_session_def demo_request_def demo_server_def demo_session_def dict_get_def)

lemma demo_found: "get_agent_session demo_request demo_server = (Some demo_session, demo_server)"
  using demo_live by simp

lemma demo_admitted: "api_authentication demo_daemon demo_request (call_path demo_import) demo_server = (Admitted, demo_server)"
proof -
  have "py_lower (rq_host demo_request) \<in> set (approved_hosts (se_hosts demo_daemon))"
    by (simp add: demo_request_def demo_daemon_def approved_hosts_def py_lower_def) code_simp
  moreover have "api_token_set demo_daemon = None" by (simp add: api_token_set_def demo_daemon_def)
  ultimately show ?thesis
    by (simp add: api_authentication_def demo_import_def api_path_def mcp_path_def demo_found)
qed

lemma spend_approval_live:
  assumes "dict_get (se_hash env t) (approvals_of (sv_rt sv)) = Some a" and "approval_matches now action res a" and "t \<noteq> []"
  shows "\<exists>sv'. spend_approval env now (Some t) action res sv = (Inr (), sv')"
  using assms by (auto simp: spend_approval_def consume_approval_def)

lemma require_agent_action_live:
  assumes "get_agent_session rq sv = (Some s, sv)" and "action \<in> set (ag_actions (as_policy s))"
  shows "\<exists>sv'. require_agent_action rq verb r action sv = (Inr s, sv') \<and> approvals_of (sv_rt sv') = approvals_of (sv_rt sv)"
  unfolding require_agent_action_def assms(1) using assms(2) by (simp add: require_action_def sv_log_def)

lemma mcp_import_live:
  assumes "get_agent_session rq sv = (Some s, sv)" and "''dataset.import'' \<in> set (ag_actions (as_policy s))"
    and "require_path (se_resolve env) (as_policy s) p = Inr q"
    and "dict_get (se_hash env t) (approvals_of (sv_rt sv)) = Some a"
    and "approval_matches (rq_now rq) ''dataset.import'' (path_text q) a" and "t \<noteq> []"
    and "\<And>st. \<exists>st'. se_import env (path_text q) tg st = (Inr d, st')"
  shows "\<exists>sv'. mcp_dataset_from_path env rq p tg t sv = (Inr d, sv')"
proof -
  obtain sv1 where 1: "require_agent_action rq ''POST'' ''/api/v1/mcp/datasets/from-path'' ''dataset.import'' sv = (Inr s, sv1)"
      "approvals_of (sv_rt sv1) = approvals_of (sv_rt sv)"
    using require_agent_action_live [OF assms(1,2)] by blast
  obtain sv2 where 2: "spend_approval env (rq_now rq) (Some t) ''dataset.import'' (path_text q) sv1 = (Inr (), sv2)"
    using spend_approval_live [of env t sv1] assms(4-6) 1(2) by metis
  obtain st where 3: "se_import env (path_text q) tg (rt_store (sv_rt sv2)) = (Inr d, st)" using assms(7) by blast
  show ?thesis by (simp add: mcp_dataset_from_path_def 1(1) assms(3) 2 3)
qed

lemma demo_handled: "fst (handle demo_daemon demo_create ft lf demo_request demo_import demo_server) = 201"
proof -
  have "\<exists>sv'. mcp_dataset_from_path demo_daemon demo_request (Absolute [''data'', ''a'']) None ''once'' demo_server = (Inr ''d1'', sv')"
  proof (rule mcp_import_live [OF demo_found, where q = "[''data'', ''a'']" and a = demo_approval])
    show "require_path (se_resolve demo_daemon) (as_policy demo_session) (Absolute [''data'', ''a'']) = Inr [''data'', ''a'']"
      by (simp add: require_path_def locate_def demo_daemon_def demo_session_def under_def)
    show "dict_get (se_hash demo_daemon ''once'') (approvals_of (sv_rt demo_server)) = Some demo_approval"
      by (simp add: demo_daemon_def demo_server_def rt_new_def dict_get_def)
    show "approval_matches (rq_now demo_request) ''dataset.import'' (path_text [''data'', ''a'']) demo_approval"
      by (simp add: approval_matches_def demo_approval_def demo_request_def path_text_def)
  qed (simp_all add: demo_session_def demo_daemon_def)
  then obtain sv' where "mcp_dataset_from_path demo_daemon demo_request (Absolute [''data'', ''a'']) None ''once'' demo_server = (Inr ''d1'', sv')"
    by blast
  then show ?thesis unfolding handle_def demo_admitted prod.case verdict.case by (simp add: respond_def demo_import_def answer_def)
qed

theorem agent_needs_approval_witness:
  "\<exists>s t action resource a. live_session demo_request demo_server s
    \<and> approval_for demo_daemon s demo_import = Some (Some t, action, resource)
    \<and> action \<in> set (ag_actions (as_policy s)) \<and> t \<noteq> []
    \<and> dict_get (se_hash demo_daemon t) (st_approvals (rt_store (sv_rt demo_server))) = Some a
    \<and> approval_matches (rq_now demo_request) action resource a
    \<and> spent_token demo_daemon t (snd (handle demo_daemon demo_create (\<lambda>_. False) True demo_request demo_import demo_server))"
proof (rule agent_needs_approval)
  show "handle demo_daemon demo_create (\<lambda>_. False) True demo_request demo_import demo_server
      = (201, snd (handle demo_daemon demo_create (\<lambda>_. False) True demo_request demo_import demo_server))"
    using demo_handled [of "\<lambda>_. False" True] by (metis prod.collapse)
  show "approval_for demo_daemon demo_session demo_import \<noteq> None" by (simp add: demo_import_def)
qed (simp_all add: demo_daemon_def)

theorem ended_session_refused_witness:
  "fst (handle demo_daemon demo_create (\<lambda>_. False) True demo_request demo_import
      (snd (revoke_agent_session demo_request ''s1'' demo_server))) \<in> {400, 401, 403}"
  using ended_session_refused [of demo_server demo_request demo_session
      "snd (revoke_agent_session demo_request ''s1'' demo_server)" demo_request demo_import demo_daemon demo_create "\<lambda>_. False" True]
  by (simp add: demo_server_def dict_ok_def dict_keys_def dict_get_def demo_request_def demo_session_def demo_import_def)

theorem admitted_is_authorised_witness:
  "\<exists>s. live_session demo_request demo_server s"
  using admitted_is_authorised [OF demo_admitted] by (simp add: demo_import_def)

end
