(* ===== verification/Client.thy ===== *)
theory Client imports Server begin

text \<open>
  The HTTP client: \<open>src/src/kernelyra/client.py\<close>, against the daemon of \<open>Server\<close>. The network is a parameter: a function that
  answers a call and changes a world; JSON texts are the values they stand for. Times are exact, identifiers are ASCII.
\<close>

section \<open>Client and network\<close>

record client =
  cl_api_token :: "string option"
  cl_user_secret :: "string option"
  cl_agent_secret :: "string option"
  cl_client_id :: string
  cl_session :: "string option"
  cl_expires :: pyfloat
  cl_retries :: int

text \<open>What \<open>parse.urlsplit\<close> makes of the base address.\<close>

record url_parts =
  ur_scheme :: string
  ur_hostname :: "string option"
  ur_username :: "string option"
  ur_password :: "string option"
  ur_path :: string
  ur_query :: string
  ur_fragment :: string

definition client_new ::
  "url_parts \<Rightarrow> string option \<Rightarrow> string option \<Rightarrow> string option \<Rightarrow> string option \<Rightarrow> string \<Rightarrow> int \<Rightarrow> kerror + client" where
  "client_new url api_token user_secret agent_secret agent_client_id generated tries =
     (if ur_scheme url \<notin> {''http'', ''https''} \<or> ur_hostname url \<in> {None, Some []} \<or> ur_username url \<noteq> None \<or> ur_password url \<noteq> None
         \<or> ur_path url \<notin> {[], ''/''} \<or> ur_query url \<noteq> [] \<or> ur_fragment url \<noteq> [] then Inl ValueError
      else Inr \<lparr>cl_api_token = api_token, cl_user_secret = user_secret, cl_agent_secret = agent_secret,
             cl_client_id = (case agent_client_id of Some i \<Rightarrow> if i = [] then generated else i | None \<Rightarrow> generated),
             cl_session = None, cl_expires = Fin 0, cl_retries = clamp 0 5 tries\<rparr>)"

text \<open>A body that is not JSON is \<open>Garbled\<close>; \<open>Lost\<close> is a connection that fails or times out.\<close>

datatype body = Empty | Json pyval | Garbled

datatype reply = Answered body | Refused nat string body | Lost

record http_call =
  hc_method :: string
  hc_path :: string
  hc_headers :: "(string, string) dict"
  hc_body :: "pyval option"

record 'w net =
  nt_send :: "http_call \<Rightarrow> 'w \<Rightarrow> reply \<times> 'w"
  nt_sleep :: "rat \<Rightarrow> 'w \<Rightarrow> 'w"
  nt_now :: "'w \<Rightarrow> rat"
  nt_show :: "pyval \<Rightarrow> string"
  nt_parse :: "string \<Rightarrow> pyfloat option"

datatype client_error = Remote string nat string | Unavailable | Raised kerror | NoAttribute

section \<open>\<open>request\<close>\<close>

definition arg_given :: "string option \<Rightarrow> bool" where
  "arg_given x \<longleftrightarrow> (case x of Some s \<Rightarrow> s \<noteq> [] | None \<Rightarrow> False)"

definition the_text :: "string option \<Rightarrow> string" where
  "the_text x = (case x of Some s \<Rightarrow> s | None \<Rightarrow> [])"

definition sessions_path :: string where
  "sessions_path = ''/api/v1/mcp/sessions''"

definition agent_route :: "string \<Rightarrow> bool" where
  "agent_route path \<longleftrightarrow> mcp_path path \<and> path \<noteq> sessions_path"

definition set_if :: "bool \<Rightarrow> string \<Rightarrow> string \<Rightarrow> (string, string) dict \<Rightarrow> (string, string) dict" where
  "set_if b k v d = (if b then dict_set k v d else d)"

definition set_all :: "(string, string) dict \<Rightarrow> (string, string) dict \<Rightarrow> (string, string) dict" where
  "set_all new d = fold (\<lambda>(k, v). dict_set k v) new d"

definition call_headers :: "client \<Rightarrow> string \<Rightarrow> pyval option \<Rightarrow> (string, string) dict \<Rightarrow> (string, string) dict" where
  "call_headers cl path body extra =
     set_if (body \<noteq> None) ''Content-Type'' ''application/json'' (set_all extra
      (set_if (arg_given (cl_session cl) \<and> agent_route path) ''X-Kernelyra-Agent-Client'' (cl_client_id cl)
      (set_if (arg_given (cl_session cl) \<and> agent_route path) ''X-Kernelyra-Agent-Session'' (the_text (cl_session cl))
      (set_if (arg_given (cl_agent_secret cl) \<and> path = sessions_path) ''X-Kernelyra-Agent-Secret'' (the_text (cl_agent_secret cl))
      (set_if (arg_given (cl_user_secret cl)) ''X-Kernelyra-User-Secret'' (the_text (cl_user_secret cl))
      (set_if (arg_given (cl_api_token cl)) ''Authorization'' (bearer (the_text (cl_api_token cl)))
        [(''Accept'', ''application/json'')]))))))"

text \<open>One exchange: a value, an error that is final, a refusal with its message, status and type, or no connection.\<close>

datatype attempt = Got pyval | Bad client_error | Refusal string nat string | Gone

definition reply_text :: "(pyval \<Rightarrow> string) \<Rightarrow> pyval \<Rightarrow> string" where
  "reply_text show v = (case v of VStr s \<Rightarrow> s | _ \<Rightarrow> show v)"

definition refusal_of :: "(pyval \<Rightarrow> string) \<Rightarrow> nat \<Rightarrow> string \<Rightarrow> body \<Rightarrow> attempt" where
  "refusal_of show status reason body =
     (case (case body of
              Json v \<Rightarrow> v
            | _ \<Rightarrow> VDict [(''error'', VStr (''HTTP Error '' @ nat_str status @ '': '' @ reason)), (''type'', VStr ''HTTPError'')]) of
        VDict d \<Rightarrow> Refusal
          (case dict_get ''error'' d of Some v \<Rightarrow> if truthy v then reply_text show v else reason | None \<Rightarrow> reason) status
          (case dict_get ''type'' d of Some v \<Rightarrow> if truthy v then reply_text show v else ''HTTPError'' | None \<Rightarrow> ''HTTPError'')
      | _ \<Rightarrow> Bad NoAttribute)"

definition exchange ::
  "'w net \<Rightarrow> client \<Rightarrow> string \<Rightarrow> string \<Rightarrow> pyval option \<Rightarrow> (string, string) dict \<Rightarrow> 'w \<Rightarrow> attempt \<times> 'w" where
  "exchange net cl verb path body extra w =
     (case nt_send net \<lparr>hc_method = verb, hc_path = path, hc_headers = call_headers cl path body extra, hc_body = body\<rparr> w of
        (Answered Empty, w') \<Rightarrow> (Got VNone, w')
      | (Answered (Json v), w') \<Rightarrow> (Got v, w')
      | (Answered Garbled, w') \<Rightarrow> (Bad (Raised ValueError), w')
      | (Refused status reason b, w') \<Rightarrow> (refusal_of (nt_show net) status reason b, w')
      | (Lost, w') \<Rightarrow> (Gone, w'))"

definition float_value :: "(string \<Rightarrow> pyfloat option) \<Rightarrow> pyval \<Rightarrow> kerror + pyfloat" where
  "float_value parse v = (case v of
      VInt n \<Rightarrow> if isfinite (f_of_int n) then Inr (f_of_int n) else Inl OverflowError
    | VBool b \<Rightarrow> Inr (Fin (if b then 1 else 0))
    | VFloat x \<Rightarrow> Inr x
    | VStr s \<Rightarrow> (case parse s of Some x \<Rightarrow> Inr x | None \<Rightarrow> Inl ValueError)
    | _ \<Rightarrow> Inl TypeError)"

text \<open>\<open>create_agent_session\<close>: its request is on the bootstrap path, so it asks for no session itself and is not repeated. The token is
  stored before the expiry is read.\<close>

definition session_body :: "client \<Rightarrow> int \<Rightarrow> pyval" where
  "session_body cl ttl = VDict [(''client_id'', VStr (cl_client_id cl)), (''ttl_seconds'', VInt ttl)]"

definition create_session :: "'w net \<Rightarrow> int \<Rightarrow> client \<times> 'w \<Rightarrow> (client_error + pydict) \<times> client \<times> 'w" where
  "create_session net ttl s =
     (case s of (cl, w) \<Rightarrow>
        if \<not> arg_given (cl_agent_secret cl) then (Inl (Raised KernelyraError), cl, w)
        else case exchange net cl ''POST'' sessions_path (Some (session_body cl ttl)) [] w of
          (Bad e, w') \<Rightarrow> (Inl e, cl, w')
        | (Refusal message status type, w') \<Rightarrow> (Inl (Remote message status type), cl, w')
        | (Gone, w') \<Rightarrow> (Inl Unavailable, cl, w')
        | (Got v, w') \<Rightarrow>
            (case v of
               VDict d \<Rightarrow>
                 (case dict_get ''session_token'' d of
                    None \<Rightarrow> (Inl (Raised KeyError), cl, w')
                  | Some t \<Rightarrow>
                      let cl' = cl\<lparr>cl_session := Some (reply_text (nt_show net) t)\<rparr> in
                      (case dict_get ''expires_at'' d of
                         None \<Rightarrow> (Inl (Raised KeyError), cl', w')
                       | Some x \<Rightarrow> (case float_value (nt_parse net) x of
                             Inl e \<Rightarrow> (Inl (Raised e), cl', w')
                           | Inr q \<Rightarrow> (Inr d, cl'\<lparr>cl_expires := q\<rparr>, w'))))
             | _ \<Rightarrow> (Inl (Remote ''malformed'' 502 ''ProtocolError''), cl, w')))"

lemma create_session_retries: "create_session net ttl (cl, w) = (r, cl', w') \<Longrightarrow> cl_retries cl' = cl_retries cl"
  by (auto simp: create_session_def Let_def split: if_splits attempt.splits pyval.splits option.splits sum.splits prod.splits)

definition needs_session :: "'w net \<Rightarrow> string \<Rightarrow> client \<Rightarrow> 'w \<Rightarrow> bool" where
  "needs_session net path cl w \<longleftrightarrow> agent_route path \<and> arg_given (cl_agent_secret cl)
     \<and> (\<not> arg_given (cl_session cl) \<or> fle (cl_expires cl) (Fin (nt_now net w + 30)))"

definition open_session :: "'w net \<Rightarrow> string \<Rightarrow> client \<times> 'w \<Rightarrow> client_error option \<times> client \<times> 'w" where
  "open_session net path s =
     (if needs_session net path (fst s) (snd s)
      then (case create_session net 300 s of (Inl e, s') \<Rightarrow> (Some e, s') | (Inr _, s') \<Rightarrow> (None, s')) else (None, s))"

lemma open_session_retries: "open_session net path (cl, w) = (r, cl', w') \<Longrightarrow> cl_retries cl' = cl_retries cl"
  using create_session_retries by (fastforce simp: open_session_def split: if_splits prod.splits sum.splits)

definition backoff :: "nat \<Rightarrow> rat" where
  "backoff n = min (1/2) (5/100 * 2 ^ n)"

function (sequential) client_request ::
  "'w net \<Rightarrow> string \<Rightarrow> string \<Rightarrow> pyval option \<Rightarrow> (string, string) dict \<Rightarrow> bool \<Rightarrow> nat \<Rightarrow> client \<times> 'w
     \<Rightarrow> (client_error + pyval) \<times> client \<times> 'w" where
  "client_request net verb path body extra retry_agent n s =
     (case open_session net path s of
        (Some e, s1) \<Rightarrow> (Inl e, s1)
      | (None, cl, w1) \<Rightarrow>
          (case exchange net cl verb path body extra w1 of
             (Got v, w2) \<Rightarrow> (Inr v, cl, w2)
           | (Bad e, w2) \<Rightarrow> (Inl e, cl, w2)
           | (Refusal message status type, w2) \<Rightarrow>
               if type = ''AgentSessionRequired'' \<and> arg_given (cl_agent_secret cl) \<and> retry_agent
               then (case create_session net 300 (cl\<lparr>cl_session := None, cl_expires := Fin 0\<rparr>, w2) of
                       (Inl e, s3) \<Rightarrow> (Inl e, s3)
                     | (Inr _, s3) \<Rightarrow> client_request net verb path body extra False n s3)
               else (Inl (Remote message status type), cl, w2)
           | (Gone, w2) \<Rightarrow>
               if verb \<in> {''GET'', ''HEAD''} \<and> int n < cl_retries cl
               then client_request net verb path body extra retry_agent (Suc n) (cl, nt_sleep net (backoff n) w2)
               else (Inl Unavailable, cl, w2)))"
  by pat_completeness auto

termination
proof (relation "measures [\<lambda>(net, verb, path, body, extra, retry_agent, n, s). if retry_agent then 1 else 0,
    \<lambda>(net, verb, path, body, extra, retry_agent, n, s). nat (cl_retries (fst s) - int n)]", goal_cases)
  case (3 net verb path body extra retry_agent n s x y cl w1 a b)
  then have "open_session net path (fst s, snd s) = (None, cl, w1)" by simp
  then have "cl_retries cl = cl_retries (fst s)" by (rule open_session_retries)
  with 3 show ?case by simp
qed auto

section \<open>The calls of the client\<close>

definition hex_digit :: "nat \<Rightarrow> char" where
  "hex_digit n = char_of (if n < 10 then 48 + n else 55 + n)"

definition unreserved :: "char \<Rightarrow> bool" where
  "unreserved c \<longleftrightarrow> (let n = of_char c :: nat in 48 \<le> n \<and> n \<le> 57 \<or> 65 \<le> n \<and> n \<le> 90 \<or> 97 \<le> n \<and> n \<le> 122 \<or> c \<in> {CHR ''_'', CHR ''.'', CHR ''-'', CHR ''~''})"

definition percent :: "char \<Rightarrow> string" where
  "percent c = [CHR ''%'', hex_digit (of_char c div 16), hex_digit (of_char c mod 16)]"

definition quote :: "string \<Rightarrow> string" where
  "quote s = concat (map (\<lambda>c. if unreserved c then [c] else percent c) s)"

definition quote_plus :: "string \<Rightarrow> string" where
  "quote_plus s = concat (map (\<lambda>c. if unreserved c then [c] else if c = CHR '' '' then ''+'' else percent c) s)"

definition int_text :: "int \<Rightarrow> string" where
  "int_text n = (if n < 0 then CHR ''-'' # nat_str (nat (- n)) else nat_str (nat n))"

definition paging :: "int \<Rightarrow> int \<Rightarrow> string" where
  "paging limit offset = ''limit='' @ int_text limit @ ''&offset='' @ int_text offset"

datatype shape = Object | Rows | Anything

record endpoint =
  ep_method :: string
  ep_path :: string
  ep_query :: string
  ep_body :: "pydict option"
  ep_extra :: "(string, string) dict"
  ep_shape :: shape

definition get :: "string \<Rightarrow> string \<Rightarrow> shape \<Rightarrow> endpoint" where
  "get path query shape = \<lparr>ep_method = ''GET'', ep_path = path, ep_query = query, ep_body = None, ep_extra = [], ep_shape = shape\<rparr>"

definition post :: "string \<Rightarrow> pydict \<Rightarrow> endpoint" where
  "post path body = \<lparr>ep_method = ''POST'', ep_path = path, ep_query = [], ep_body = Some body, ep_extra = [], ep_shape = Object\<rparr>"

text \<open>The dictionary of a \<open>RunConfig\<close> has a \<open>target_metric\<close>.\<close>

definition run_body :: "pydict \<Rightarrow> pydict" where
  "run_body d = dict_set ''start'' (VBool False)
     (dict_set ''target_score'' (case dict_get ''target_metric'' d of Some v \<Rightarrow> v | None \<Rightarrow> VNone) (dict_del ''target_metric'' d))"

datatype api_call =
    GetHealth | GetCapabilities | GetState | InspectPath string | AddDataset string "string option" | ListDatasets int int
  | GetDataset string | RemoveDataset string | CreateRun pydict | ListRuns int int "string option" | GetRun string
  | GetRunMetrics string | GetRunLogs string int | ExportRun string | Command string string | GetLogs int
  | IssueApproval string string int "string option" | RevokeApproval string
  | McpCreateRun pydict | McpInspect string | McpImport string "string option" string | McpCapabilities | McpListDatasets
  | McpGetDataset string | McpListRuns | McpGetRun string | McpHardware | McpLogs int | McpRunMetrics string
  | McpRunLogs string int | McpExport string string | McpCommand string string string

fun endpoint_of :: "api_call \<Rightarrow> endpoint" where
  "endpoint_of GetHealth = get ''/api/v1/health'' [] Object"
| "endpoint_of GetCapabilities = get ''/api/v1/capabilities'' [] Object"
| "endpoint_of GetState = get ''/api/v1/state'' [] Object"
| "endpoint_of (InspectPath p) = post ''/api/v1/paths/inspect'' [(''path'', VStr p)]"
| "endpoint_of (AddDataset p t) = post ''/api/v1/datasets/from-path'' [(''path'', VStr p), (''target'', v_opt_str t)]"
| "endpoint_of (ListDatasets limit offset) = get ''/api/v1/datasets'' (paging limit offset) Rows"
| "endpoint_of (GetDataset i) = get (''/api/v1/datasets/'' @ quote i) [] Object"
| "endpoint_of (RemoveDataset i) = (get (''/api/v1/datasets/'' @ quote i) [] Anything)\<lparr>ep_method := ''DELETE''\<rparr>"
| "endpoint_of (CreateRun d) = post ''/api/v1/runs'' (run_body d)"
| "endpoint_of (ListRuns limit offset status) = get ''/api/v1/runs''
     (paging limit offset @ (if arg_given status then ''&status='' @ quote_plus (the_text status) else [])) Rows"
| "endpoint_of (GetRun i) = get (''/api/v1/runs/'' @ quote i) [] Object"
| "endpoint_of (GetRunMetrics i) = get (''/api/v1/runs/'' @ quote i @ ''/metrics'') [] Object"
| "endpoint_of (GetRunLogs i limit) = get (''/api/v1/runs/'' @ quote i @ ''/logs'') (''limit='' @ int_text (max 1 (min 500 limit))) Rows"
| "endpoint_of (ExportRun i) = get (''/api/v1/runs/'' @ quote i @ ''/export'') [] Object"
| "endpoint_of (Command i c) = post (''/api/v1/runs/'' @ quote i @ ''/command'') [(''command'', VStr c)]"
| "endpoint_of (GetLogs limit) = get ''/api/v1/logs'' (''limit='' @ int_text (max 1 (min 1000 limit))) Rows"
| "endpoint_of (IssueApproval a i ttl secret) =
     (post ''/api/v1/approvals'' [(''action'', VStr a), (''resource_id'', VStr i), (''ttl_seconds'', VInt ttl)])
       \<lparr>ep_extra := if arg_given secret then [(''X-Kernelyra-User-Secret'', the_text secret)] else []\<rparr>"
| "endpoint_of (RevokeApproval t) = post ''/api/v1/approvals/revoke'' [(''token'', VStr t)]"
| "endpoint_of (McpCreateRun d) = post ''/api/v1/mcp/runs'' (run_body d)"
| "endpoint_of (McpInspect p) = post ''/api/v1/mcp/paths/inspect'' [(''path'', VStr p)]"
| "endpoint_of (McpImport p t a) =
     post ''/api/v1/mcp/datasets/from-path'' [(''path'', VStr p), (''target'', v_opt_str t), (''approval_token'', VStr a)]"
| "endpoint_of McpCapabilities = get ''/api/v1/mcp/capabilities'' [] Object"
| "endpoint_of McpListDatasets = get ''/api/v1/mcp/datasets'' [] Rows"
| "endpoint_of (McpGetDataset i) = get (''/api/v1/mcp/datasets/'' @ quote i) [] Object"
| "endpoint_of McpListRuns = get ''/api/v1/mcp/runs'' [] Rows"
| "endpoint_of (McpGetRun i) = get (''/api/v1/mcp/runs/'' @ quote i) [] Object"
| "endpoint_of McpHardware = get ''/api/v1/mcp/hardware'' [] Object"
| "endpoint_of (McpLogs limit) = get ''/api/v1/mcp/logs'' (''limit='' @ int_text (max 1 (min 1000 limit))) Rows"
| "endpoint_of (McpRunMetrics i) = get (''/api/v1/mcp/runs/'' @ quote i @ ''/metrics'') [] Object"
| "endpoint_of (McpRunLogs i limit) =
     get (''/api/v1/mcp/runs/'' @ quote i @ ''/logs'') (''limit='' @ int_text (max 1 (min 500 limit))) Rows"
| "endpoint_of (McpExport i a) = post (''/api/v1/mcp/runs/'' @ quote i @ ''/export'') [(''approval_token'', VStr a)]"
| "endpoint_of (McpCommand i c a) =
     post (''/api/v1/mcp/runs/'' @ quote i @ ''/command'') [(''command'', VStr c), (''approval_token'', VStr a)]"

definition full_path :: "endpoint \<Rightarrow> string" where
  "full_path e = (if ep_query e = [] then ep_path e else ep_path e @ ''?'' @ ep_query e)"

definition shaped :: "shape \<Rightarrow> pyval \<Rightarrow> bool" where
  "shaped sh v \<longleftrightarrow> (case sh of
      Object \<Rightarrow> (case v of VDict _ \<Rightarrow> True | _ \<Rightarrow> False)
    | Rows \<Rightarrow> (case v of VList xs \<Rightarrow> list_all (\<lambda>x. case x of VDict _ \<Rightarrow> True | _ \<Rightarrow> False) xs | _ \<Rightarrow> False)
    | Anything \<Rightarrow> True)"

definition invoke :: "'w net \<Rightarrow> api_call \<Rightarrow> client \<times> 'w \<Rightarrow> (client_error + pyval) \<times> client \<times> 'w" where
  "invoke net c s =
     (let e = endpoint_of c in
      case client_request net (ep_method e) (full_path e) (map_option VDict (ep_body e)) (ep_extra e) True 0 s of
        (Inl e', s') \<Rightarrow> (Inl e', s')
      | (Inr v, s') \<Rightarrow> if shaped (ep_shape e) v then (Inr v, s') else (Inl (Remote ''malformed'' 502 ''ProtocolError''), s'))"

definition client_close :: "client \<Rightarrow> client" where
  "client_close cl = cl\<lparr>cl_session := None, cl_expires := Fin 0, cl_user_secret := None, cl_agent_secret := None\<rparr>"

declare client_request.simps [simp del]

section \<open>Addresses\<close>

text \<open>What a server makes of a path: it ends at the question mark, is split at the slashes, and every segment is unquoted.\<close>

fun split_slash :: "string \<Rightarrow> string list" where
  "split_slash [] = [[]]"
| "split_slash (c # s) = (if c = CHR ''/'' then [] # split_slash s
     else case split_slash s of seg # segs \<Rightarrow> (c # seg) # segs | [] \<Rightarrow> [[c]])"

definition hex_value :: "char \<Rightarrow> nat" where
  "hex_value c = (let n = of_char c in if n < 58 then n - 48 else n - 55)"

fun unquote :: "string \<Rightarrow> string" where
  "unquote (c # a # b # s) = (if c = CHR ''%'' then char_of (16 * hex_value a + hex_value b) # unquote s else c # unquote (a # b # s))"
| "unquote [a, b] = [a, b]"
| "unquote [a] = [a]"
| "unquote [] = []"

fun segments_of :: "api_call \<Rightarrow> string list" where
  "segments_of GetHealth = [''health'']"
| "segments_of GetCapabilities = [''capabilities'']"
| "segments_of GetState = [''state'']"
| "segments_of (InspectPath _) = [''paths'', ''inspect'']"
| "segments_of (AddDataset _ _) = [''datasets'', ''from-path'']"
| "segments_of (ListDatasets _ _) = [''datasets'']"
| "segments_of (GetDataset i) = [''datasets'', i]"
| "segments_of (RemoveDataset i) = [''datasets'', i]"
| "segments_of (CreateRun _) = [''runs'']"
| "segments_of (ListRuns _ _ _) = [''runs'']"
| "segments_of (GetRun i) = [''runs'', i]"
| "segments_of (GetRunMetrics i) = [''runs'', i, ''metrics'']"
| "segments_of (GetRunLogs i _) = [''runs'', i, ''logs'']"
| "segments_of (ExportRun i) = [''runs'', i, ''export'']"
| "segments_of (Command i _) = [''runs'', i, ''command'']"
| "segments_of (GetLogs _) = [''logs'']"
| "segments_of (IssueApproval _ _ _ _) = [''approvals'']"
| "segments_of (RevokeApproval _) = [''approvals'', ''revoke'']"
| "segments_of (McpCreateRun _) = [''mcp'', ''runs'']"
| "segments_of (McpInspect _) = [''mcp'', ''paths'', ''inspect'']"
| "segments_of (McpImport _ _ _) = [''mcp'', ''datasets'', ''from-path'']"
| "segments_of McpCapabilities = [''mcp'', ''capabilities'']"
| "segments_of McpListDatasets = [''mcp'', ''datasets'']"
| "segments_of (McpGetDataset i) = [''mcp'', ''datasets'', i]"
| "segments_of McpListRuns = [''mcp'', ''runs'']"
| "segments_of (McpGetRun i) = [''mcp'', ''runs'', i]"
| "segments_of McpHardware = [''mcp'', ''hardware'']"
| "segments_of (McpLogs _) = [''mcp'', ''logs'']"
| "segments_of (McpRunMetrics i) = [''mcp'', ''runs'', i, ''metrics'']"
| "segments_of (McpRunLogs i _) = [''mcp'', ''runs'', i, ''logs'']"
| "segments_of (McpExport i _) = [''mcp'', ''runs'', i, ''export'']"
| "segments_of (McpCommand i _ _) = [''mcp'', ''runs'', i, ''command'']"

definition plain_char :: "char \<Rightarrow> bool" where
  "plain_char c \<longleftrightarrow> c \<noteq> CHR ''/'' \<and> c \<noteq> CHR ''?''"

lemma hex_digit_value: "n < 16 \<Longrightarrow> hex_value (hex_digit n) = n"
  by (simp add: hex_value_def hex_digit_def)

lemma hex_digit_plain: "n < 16 \<Longrightarrow> plain_char (hex_digit n)"
proof -
  assume n: "n < 16"
  have "(of_char (hex_digit n) :: nat) = (if n < 10 then 48 + n else 55 + n)" using n by (simp add: hex_digit_def)
  then have "of_char (hex_digit n) \<noteq> (47 :: nat) \<and> of_char (hex_digit n) \<noteq> (63 :: nat)" by auto
  then show ?thesis by (auto simp: plain_char_def)
qed

lemma percent_plain: "list_all plain_char (percent c)"
proof -
  have "(of_char c :: nat) div 16 < 16" using nat_of_char_less_256 [of c] by linarith
  then show ?thesis by (simp add: percent_def hex_digit_plain) (simp add: plain_char_def)
qed

lemma quote_plain: "list_all plain_char (quote s)"
proof -
  have "plain_char c" if "unreserved c" for c
  proof -
    have "\<not> unreserved (CHR ''/'')" "\<not> unreserved (CHR ''?'')" by (simp_all add: unreserved_def)
    then show ?thesis using that by (auto simp: plain_char_def)
  qed
  then show ?thesis using percent_plain by (induction s) (simp_all add: quote_def)
qed

lemma unquote_percent: "unquote (percent c @ s) = c # unquote s"
proof -
  have "(of_char c :: nat) div 16 < 16" using nat_of_char_less_256 [of c] by linarith
  moreover have "16 * (of_char c div 16) + of_char c mod 16 = (of_char c :: nat)" by simp
  ultimately show ?thesis by (simp add: percent_def hex_digit_value)
qed

lemma unquote_plain: "c \<noteq> CHR ''%'' \<Longrightarrow> unquote (c # s) = c # unquote s"
  by (cases s rule: unquote.cases) auto

lemma unquote_quote [simp]: "unquote (quote s) = s"
proof (induction s)
  case (Cons c s)
  have "\<not> unreserved (CHR ''%'')" by (simp add: unreserved_def)
  then have "c \<noteq> CHR ''%''" if "unreserved c" using that by auto
  with Cons show ?case by (simp add: quote_def unquote_percent unquote_plain)
qed (simp add: quote_def)

lemma split_slash_plain: "list_all plain_char s \<Longrightarrow> split_slash (s @ t) = (s @ hd (split_slash t)) # tl (split_slash t)"
proof (induction s)
  case Nil
  have "split_slash t \<noteq> []" by (induction t) (auto split: list.splits)
  then show ?case by simp
next
  case (Cons c s)
  then show ?case by (simp add: plain_char_def)
qed

lemma until_query: "list_all plain_char s \<Longrightarrow> takeWhile (\<lambda>c. c \<noteq> CHR ''?'') (s @ t) = s @ takeWhile (\<lambda>c. c \<noteq> CHR ''?'') t"
  by (induction s) (simp_all add: plain_char_def)

lemma quoted_address:
  "split_slash (quote s @ t) = (quote s @ hd (split_slash t)) # tl (split_slash t)" "split_slash (quote s) = [quote s]"
  "takeWhile (\<lambda>c. c \<noteq> CHR ''?'') (quote s @ t) = quote s @ takeWhile (\<lambda>c. c \<noteq> CHR ''?'') t"
  "takeWhile (\<lambda>c. c \<noteq> CHR ''?'') (quote s) = quote s"
  using split_slash_plain [OF quote_plain, of s "[]"] until_query [OF quote_plain, of s "[]"]
  by (simp_all add: split_slash_plain [OF quote_plain] until_query [OF quote_plain])

lemma call_address:
  "map unquote (split_slash (takeWhile (\<lambda>c. c \<noteq> CHR ''?'') (full_path (endpoint_of c)))) = [[], ''api'', ''v1''] @ segments_of c
   \<and> (agent_route (full_path (endpoint_of c)) \<longleftrightarrow> hd (segments_of c) = ''mcp'')"
  by (cases c) (simp_all add: full_path_def get_def post_def quoted_address agent_route_def mcp_path_def sessions_path_def unquote_plain paging_def)

text \<open>Every call addresses what it names: the server that cuts the query, splits the path at its slashes and unquotes the segments gets
  exactly the segments of the call, whatever characters the identifier has, so no identifier reaches another route; and a call uses
  the agent's session exactly when it is a call of an agent.\<close>

theorem call_addresses_resource:
  "map unquote (split_slash (takeWhile (\<lambda>c. c \<noteq> CHR ''?'') (full_path (endpoint_of c)))) = [[], ''api'', ''v1''] @ segments_of c
   \<and> (agent_route (full_path (endpoint_of c)) \<longleftrightarrow> hd (segments_of c) = ''mcp'')"
  by (rule call_address)

section \<open>What is sent\<close>

text \<open>The network with a record of its exchanges.\<close>

definition logged :: "'w net \<Rightarrow> ('w \<times> (http_call \<times> reply) list) net" where
  "logged net = \<lparr>nt_send = (\<lambda>c (w, sent). case nt_send net c w of (r, w') \<Rightarrow> (r, w', sent @ [(c, r)])),
     nt_sleep = (\<lambda>d (w, sent). (nt_sleep net d w, sent)), nt_now = (\<lambda>(w, sent). nt_now net w),
     nt_show = nt_show net, nt_parse = nt_parse net\<rparr>"

definition is_call :: "string \<Rightarrow> string \<Rightarrow> http_call \<Rightarrow> bool" where
  "is_call verb path c \<longleftrightarrow> hc_method c = verb \<and> hc_path c = path"

definition opens_session :: "http_call \<Rightarrow> bool" where
  "opens_session c \<longleftrightarrow> is_call ''POST'' sessions_path c"

definition asks_session :: "(pyval \<Rightarrow> string) \<Rightarrow> reply \<Rightarrow> bool" where
  "asks_session show r \<longleftrightarrow> (\<exists>status reason b message.
     r = Refused status reason b \<and> refusal_of show status reason b = Refusal message status ''AgentSessionRequired'')"

lemma logged_exchange:
  assumes "exchange (logged net) cl verb path body extra (w, sent) = (a, w', sent')"
  obtains c r where "sent' = sent @ [(c, r)]" "is_call verb path c" "a = Gone \<Longrightarrow> r = Lost"
    "\<And>message status type. a = Refusal message status type \<Longrightarrow> type = ''AgentSessionRequired'' \<Longrightarrow> asks_session (nt_show net) r"
proof -
  define c where "c = \<lparr>hc_method = verb, hc_path = path, hc_headers = call_headers cl path body extra, hc_body = body\<rparr>"
  obtain r v where r: "nt_send net c w = (r, v)" by fastforce
  have e: "nt_send (logged net) c (w, sent) = (r, v, sent @ [(c, r)])" by (simp add: logged_def r)
  have sh: "nt_show (logged net) = nt_show net" by (simp add: logged_def)
  have st: "status = n" if "refusal_of sh n reason b = Refusal message status type" for sh n reason b message status type
    using that by (auto simp: refusal_of_def split: pyval.splits)
  show thesis
  proof (rule that [of c r])
    show "is_call verb path c" by (simp add: is_call_def c_def)
    show "sent' = sent @ [(c, r)]" using assms by (auto simp: exchange_def e split: reply.splits body.splits simp flip: c_def)
    show "r = Lost" if "a = Gone"
      using assms that by (auto simp: exchange_def e refusal_of_def split: reply.splits body.splits pyval.splits simp flip: c_def)
    show "asks_session (nt_show net) r" if "a = Refusal message status type" "type = ''AgentSessionRequired''" for message status type
      using assms that st by (auto simp: exchange_def e sh asks_session_def split: reply.splits body.splits simp flip: c_def)
  qed
qed

lemma logged_create:
  assumes "create_session (logged net) ttl (cl, w, sent) = (r, cl', w', sent')"
  obtains new where "sent' = sent @ new" "length new \<le> 1" "\<forall>(c, r) \<in> set new. opens_session c"
proof (cases "arg_given (cl_agent_secret cl)")
  case False
  with assms show thesis by (intro that [of "[]"]) (simp_all add: create_session_def)
next
  case True
  obtain a v sent1 where e: "exchange (logged net) cl ''POST'' sessions_path (Some (session_body cl ttl)) [] (w, sent) = (a, v, sent1)"
    by (cases "exchange (logged net) cl ''POST'' sessions_path (Some (session_body cl ttl)) [] (w, sent)") auto
  from assms True have "sent' = sent1"
    by (auto simp: create_session_def e Let_def split: attempt.splits pyval.splits option.splits sum.splits)
  moreover obtain c r where "sent1 = sent @ [(c, r)]" "is_call ''POST'' sessions_path c" by (rule logged_exchange [OF e])
  ultimately show thesis by (intro that [of "[(c, r)]"]) (simp_all add: opens_session_def)
qed

lemma logged_open:
  assumes "open_session (logged net) path (cl, w, sent) = (r, cl', w', sent')"
  obtains new where "sent' = sent @ new" "length new \<le> 1" "\<forall>(c, r) \<in> set new. opens_session c"
proof (cases "needs_session (logged net) path cl (w, sent)")
  case False
  with assms show thesis by (intro that [of "[]"]) (simp_all add: open_session_def)
next
  case True
  obtain r1 cl1 w1 sent1 where c: "create_session (logged net) 300 (cl, w, sent) = (r1, cl1, w1, sent1)"
    by (cases "create_session (logged net) 300 (cl, w, sent)") auto
  have "sent' = sent1" using assms True by (auto simp: open_session_def c split: sum.splits)
  then show thesis using logged_create [OF c] that by metis
qed

definition own_calls :: "string \<Rightarrow> string \<Rightarrow> (http_call \<times> reply) list \<Rightarrow> (http_call \<times> reply) list" where
  "own_calls verb path sent = filter (\<lambda>(c, r). is_call verb path c) sent"

definition repeatable :: "(pyval \<Rightarrow> string) \<Rightarrow> string \<Rightarrow> reply \<Rightarrow> bool" where
  "repeatable show verb r \<longleftrightarrow> asks_session show r \<or> r = Lost \<and> verb \<in> {''GET'', ''HEAD''}"

definition sends_ok :: "(pyval \<Rightarrow> string) \<Rightarrow> string \<Rightarrow> string \<Rightarrow> nat \<Rightarrow> bool \<Rightarrow> (http_call \<times> reply) list \<Rightarrow> bool" where
  "sends_ok show verb path left retry new \<longleftrightarrow>
     (\<forall>(c, r) \<in> set new. is_call verb path c \<or> opens_session c)
     \<and> length (own_calls verb path new) \<le> 1 + (if retry then 1 else 0) + (if verb \<in> {''GET'', ''HEAD''} then left else 0)
     \<and> length (filter (\<lambda>(c, r). asks_session show r) (butlast (own_calls verb path new))) \<le> (if retry then 1 else 0)
     \<and> (\<forall>(c, r) \<in> set (butlast (own_calls verb path new)). repeatable show verb r)"

lemma own_calls_append [simp]: "own_calls verb path (xs @ ys) = own_calls verb path xs @ own_calls verb path ys"
  by (simp add: own_calls_def)

lemma own_calls_sessions: "path \<noteq> sessions_path \<Longrightarrow> \<forall>(c, r) \<in> set new. opens_session c \<Longrightarrow> own_calls verb path new = []"
  by (auto simp: own_calls_def opens_session_def is_call_def filter_empty_conv)

lemma sends_once:
  assumes "path \<noteq> sessions_path" "\<forall>(c, r) \<in> set xs. opens_session c" "\<forall>(c, r) \<in> set ys. opens_session c" "is_call verb path c"
  shows "sends_ok sh verb path left retry (xs @ (c, r) # ys)" and "sends_ok sh verb path left retry xs"
  using own_calls_sessions [OF assms(1,2), of verb] own_calls_sessions [OF assms(1,3), of verb] assms
  by (auto simp: sends_ok_def own_calls_append [of _ _ _ "_ # _"]) (auto simp: own_calls_def)

lemma sends_again:
  assumes "path \<noteq> sessions_path" "\<forall>(c, r) \<in> set xs. opens_session c" "\<forall>(c, r) \<in> set ys. opens_session c" "is_call verb path c"
    and zs: "sends_ok sh verb path left' retry' zs"
    and step: "asks_session sh r \<and> \<not> retry' \<and> retry \<and> left' = left
       \<or> r = Lost \<and> verb \<in> {''GET'', ''HEAD''} \<and> retry' = retry \<and> left = Suc left'"
  shows "sends_ok sh verb path left retry (xs @ (c, r) # ys @ zs)"
proof -
  have own: "own_calls verb path (xs @ (c, r) # ys @ zs) = (c, r) # own_calls verb path zs"
    using own_calls_sessions [OF assms(1,2), of verb] own_calls_sessions [OF assms(1,3), of verb] assms(4)
    by (simp add: own_calls_append [of _ _ _ "_ # _"]) (simp add: own_calls_def)
  have lost: "\<not> asks_session sh Lost" by (simp add: asks_session_def)
  show ?thesis using assms(2-4) zs step lost unfolding sends_ok_def own by (auto simp: repeatable_def)
qed

lemma client_request_sends:
  assumes "client_request (logged net) verb path body extra retry n s = (res, cl', w', sent')" and "path \<noteq> sessions_path"
  shows "\<exists>new. sent' = snd (snd s) @ new \<and> sends_ok (nt_show net) verb path (nat (cl_retries (fst s) - int n)) retry new"
  using assms
proof (induction "logged net" verb path body extra retry n s arbitrary: res cl' w' sent' rule: client_request.induct)
  case (1 verb path body extra retry n s)
  obtain cl w sent where s: "s = (cl, w, sent)" by (cases s) auto
  obtain e cl1 w1 sent1 where o: "open_session (logged net) path (cl, w, sent) = (e, cl1, w1, sent1)"
    by (cases "open_session (logged net) path (cl, w, sent)") auto
  then obtain xs where xs: "sent1 = sent @ xs" "\<forall>(c, r) \<in> set xs. opens_session c" by (rule logged_open)
  have rt: "cl_retries cl1 = cl_retries cl" by (rule open_session_retries [OF o])
  obtain a w2 sent2 where x: "exchange (logged net) cl1 verb path body extra (w1, sent1) = (a, w2, sent2)"
    by (cases "exchange (logged net) cl1 verb path body extra (w1, sent1)") auto
  then obtain c r where c: "sent2 = sent1 @ [(c, r)]" "is_call verb path c" "a = Gone \<Longrightarrow> r = Lost"
    and asks: "\<And>message status type. a = Refusal message status type \<Longrightarrow> type = ''AgentSessionRequired'' \<Longrightarrow> asks_session (nt_show net) r"
    by (rule logged_exchange) blast
  note def = 1(3) [unfolded s client_request.simps [of "logged net" verb path body extra retry n "(cl, w, sent)"]]
  show ?case
  proof (cases e)
    case (Some e')
    have "sends_ok (nt_show net) verb path (nat (cl_retries cl - int n)) retry xs"
      by (rule sends_once(2) [OF 1(4) xs(2) _ c(2), of "[]"]) simp
    then show ?thesis using def Some by (auto simp: o s xs(1))
  next
    case None
    note def1 = def [unfolded o None prod.case option.case x]
    have sent2: "sent2 = sent @ xs @ [(c, r)]" by (simp add: c(1) xs(1))
    have once: ?thesis if "sent' = sent2"
    proof -
      have "sends_ok (nt_show net) verb path (nat (cl_retries cl - int n)) retry (xs @ (c, r) # [])"
        by (rule sends_once(1) [OF 1(4) xs(2) _ c(2)]) simp
      then show ?thesis using that by (auto simp: s sent2)
    qed
    have again: ?thesis if "sent' = sent2 @ ys @ zs" "\<forall>(c, r) \<in> set ys. opens_session c" "sends_ok (nt_show net) verb path left' retry' zs"
      "asks_session (nt_show net) r \<and> \<not> retry' \<and> retry \<and> left' = nat (cl_retries cl - int n)
         \<or> r = Lost \<and> verb \<in> {''GET'', ''HEAD''} \<and> retry' = retry \<and> nat (cl_retries cl - int n) = Suc left'" for ys zs left' retry'
      using sends_again [OF 1(4) xs(2) that(2) c(2) that(3,4)] that(1) by (auto simp: s sent2)
    show ?thesis
    proof (cases a)
      case (Refusal message status type)
      show ?thesis
      proof (cases "type = ''AgentSessionRequired'' \<and> arg_given (cl_agent_secret cl1) \<and> retry")
        case True
        obtain d cl3 w3 sent3 where k: "create_session (logged net) 300 (cl1\<lparr>cl_session := None, cl_expires := Fin 0\<rparr>, w2, sent2) = (d, cl3, w3, sent3)"
          by (cases "create_session (logged net) 300 (cl1\<lparr>cl_session := None, cl_expires := Fin 0\<rparr>, w2, sent2)") auto
        then obtain ys where ys: "sent3 = sent2 @ ys" "\<forall>(c, r) \<in> set ys. opens_session c" by (rule logged_create)
        have rt3: "cl_retries cl3 = cl_retries cl" using create_session_retries [OF k] rt by simp
        show ?thesis
        proof (cases d)
          case (Inl e')
          have "sent' = sent3" using def1 True by (simp add: Refusal k Inl)
          moreover have "sends_ok (nt_show net) verb path (nat (cl_retries cl - int n)) retry (xs @ (c, r) # ys)"
            by (rule sends_once(1) [OF 1(4) xs(2) ys(2) c(2)])
          ultimately show ?thesis by (auto simp: s ys(1) sent2)
        next
          case (Inr d')
          have q: "client_request (logged net) verb path body extra False n (cl3, w3, sent3) = (res, cl', w', sent')"
            using def1 True by (simp add: Refusal k Inr)
          obtain zs where "sent' = sent3 @ zs" "sends_ok (nt_show net) verb path (nat (cl_retries cl3 - int n)) False zs"
            using 1(1) [OF o [folded s, symmetric] None refl x [symmetric] Refusal True k [symmetric] Inr q 1(4)] by auto
          then show ?thesis using again [of ys zs _ False] ys asks [OF Refusal] True rt3 by simp
        qed
      next
        case False
        then show ?thesis using def1 once by (auto simp: Refusal)
      qed
    next
      case Gone
      show ?thesis
      proof (cases "verb \<in> {''GET'', ''HEAD''} \<and> int n < cl_retries cl1")
        case True
        have q: "client_request (logged net) verb path body extra retry (Suc n) (cl1, nt_sleep (logged net) (backoff n) (w2, sent2))
            = (res, cl', w', sent')" using def1 True by (simp add: Gone)
        obtain zs where "sent' = sent2 @ zs" "sends_ok (nt_show net) verb path (nat (cl_retries cl1 - int (Suc n))) retry zs"
          using 1(2) [OF o [folded s, symmetric] None refl x [symmetric] Gone True q 1(4)] by (auto simp: logged_def)
        moreover have "nat (cl_retries cl - int n) = Suc (nat (cl_retries cl1 - int (Suc n)))"
        proof -
          have "int n < cl_retries cl" using True rt by simp
          then show ?thesis using rt by linarith
        qed
        ultimately show ?thesis using again [of "[]" zs _ retry] c(3) [OF Gone] True by simp
      next
        case False
        then show ?thesis using def1 once by (auto simp: Gone)
      qed
    qed (use def1 once in auto)
  qed
qed

text \<open>C33: What a call of the client sends: besides bootstrap requests only itself. A call that is not a GET or HEAD is sent at most twice and
  a second time only when the daemon refused the first for want of a session, so nothing that may have been acted on is repeated; a GET
  or HEAD is repeated only after a lost connection, at most \<open>retries\<close> times, or once after such a refusal.\<close>

theorem calls_not_repeated:
  assumes "invoke (logged net) c (cl, w, []) = (res, cl', w', sent)" and "e = endpoint_of c"
  shows "(\<forall>(h, r) \<in> set sent. is_call (ep_method e) (full_path e) h \<or> opens_session h)
     \<and> (let own = own_calls (ep_method e) (full_path e) sent in
          (\<forall>(h, r) \<in> set (butlast own). repeatable (nt_show net) (ep_method e) r)
        \<and> length (filter (\<lambda>(h, r). asks_session (nt_show net) r) (butlast own)) \<le> 1
        \<and> length own \<le> (if ep_method e \<in> {''GET'', ''HEAD''} then 2 + nat (cl_retries cl) else 2))"
proof -
  have "hd (segments_of c) = ''mcp'' \<or> full_path e \<noteq> sessions_path"
    by (cases c) (simp_all add: assms(2) full_path_def get_def post_def sessions_path_def)
  moreover have "full_path e \<noteq> sessions_path" if "hd (segments_of c) = ''mcp''"
    using that call_address [of c] by (simp add: assms(2) agent_route_def)
  ultimately have p: "full_path e \<noteq> sessions_path" by blast
  obtain r0 cl0 w0 sent0 where q: "client_request (logged net) (ep_method e) (full_path e) (map_option VDict (ep_body e)) (ep_extra e) True 0
      (cl, w, []) = (r0, cl0, w0, sent0)"
    by (cases "client_request (logged net) (ep_method e) (full_path e) (map_option VDict (ep_body e)) (ep_extra e) True 0 (cl, w, [])") auto
  have "sent = sent0" using assms(1) by (auto simp: invoke_def q Let_def split: sum.splits if_splits simp flip: assms(2))
  with client_request_sends [OF q p] show ?thesis by (auto simp: sends_ok_def Let_def split: if_splits)
qed

section \<open>The client and the daemon\<close>

text \<open>A daemon in a network without losses: the middleware and the bootstrap route of \<open>Server\<close>, and \<open>app\<close> for the routes behind them. Every
  exchange takes \<open>lag\<close> seconds.\<close>

record daemon_world =
  dw_server :: server
  dw_now :: rat
  dw_admitted :: "http_call list"

record daemon_net =
  dn_env :: server_env
  dn_policy :: "kerror + agent_policy"
  dn_token :: "rat \<Rightarrow> string"
  dn_host :: string
  dn_address :: string
  dn_lag :: rat
  dn_app :: "http_call \<Rightarrow> server \<Rightarrow> reply \<times> server"

definition header :: "string \<Rightarrow> http_call \<Rightarrow> string" where
  "header k c = the_text (dict_get k (hc_headers c))"

definition request_of :: "daemon_net \<Rightarrow> rat \<Rightarrow> http_call \<Rightarrow> request" where
  "request_of dn now c = \<lparr>rq_host = dn_host dn, rq_address = dn_address dn, rq_authorization = header ''Authorization'' c,
     rq_user_secret = header ''X-Kernelyra-User-Secret'' c, rq_agent_secret = header ''X-Kernelyra-Agent-Secret'' c,
     rq_agent_session = header ''X-Kernelyra-Agent-Session'' c, rq_agent_client = header ''X-Kernelyra-Agent-Client'' c,
     rq_now = now, rq_clock = now\<rparr>"

definition route_of :: "http_call \<Rightarrow> string" where
  "route_of c = takeWhile (\<lambda>x. x \<noteq> CHR ''?'') (hc_path c)"

definition denial_type :: "string \<Rightarrow> nat \<Rightarrow> string" where
  "denial_type p n = (if n = 400 then ''HostValidationError'' else if n = 401 then ''AuthenticationError''
     else if n = 429 then ''RateLimitError'' else if mcp_path p then ''AgentSessionRequired'' else ''UserSessionRequired'')"

definition denial :: "string \<Rightarrow> nat \<Rightarrow> reply" where
  "denial p n = Refused n ''denied'' (Json (VDict [(''error'', VStr ''denied''), (''type'', VStr (denial_type p n))]))"

definition bootstrap :: "daemon_net \<Rightarrow> rat \<Rightarrow> http_call \<Rightarrow> server \<Rightarrow> reply \<times> server" where
  "bootstrap dn now c sv =
     (case hc_body c of
        Some (VDict [(_, VStr client), (_, VInt ttl)]) \<Rightarrow>
          (case issue_agent_session (dn_env dn) (request_of dn now c) (dn_policy dn) client ttl (dn_token dn now) (dn_token dn now) sv of
             (Inr token, sv') \<Rightarrow> (Answered (Json (VDict [(''session_token'', VStr token), (''session_id'', VStr token),
                (''expires_at'', VFloat (Fin (now + of_int ttl)))])), sv')
           | (Inl e, sv') \<Rightarrow> (Refused (http_status e) ''error'' (Json (VDict [(''error'', VStr ''error''), (''type'', VStr (hd (mro e)))])), sv'))
      | _ \<Rightarrow> (Refused 422 ''invalid'' (Json (VDict [])), sv))"

definition daemon_send :: "daemon_net \<Rightarrow> http_call \<Rightarrow> daemon_world \<Rightarrow> reply \<times> daemon_world" where
  "daemon_send dn c dw =
     (let now = dw_now dw; later = now + dn_lag dn in
      case api_authentication (dn_env dn) (request_of dn now c) (route_of c) (dw_server dw) of
        (Denied n, sv) \<Rightarrow> (denial (route_of c) n, dw\<lparr>dw_server := sv, dw_now := later\<rparr>)
      | (Admitted, sv) \<Rightarrow>
          (case if route_of c = sessions_path then bootstrap dn now c sv else dn_app dn c sv of
             (r, sv') \<Rightarrow> (r, dw\<lparr>dw_server := sv', dw_now := later, dw_admitted := dw_admitted dw @ [c]\<rparr>)))"

definition daemon_of :: "daemon_net \<Rightarrow> daemon_world net" where
  "daemon_of dn = \<lparr>nt_send = daemon_send dn, nt_sleep = (\<lambda>d dw. dw\<lparr>dw_now := dw_now dw + d\<rparr>), nt_now = dw_now,
     nt_show = (\<lambda>_. []), nt_parse = (\<lambda>_. None)\<rparr>"

definition trusted :: "daemon_net \<Rightarrow> client \<Rightarrow> bool" where
  "trusted dn cl \<longleftrightarrow> arg_given (cl_agent_secret cl) \<and> the_text (cl_agent_secret cl) = se_agent_secret (dn_env dn) \<and> cl_client_id cl \<noteq> []
     \<and> (case api_token_set (dn_env dn) of Some t \<Rightarrow> cl_api_token cl = Some t | None \<Rightarrow> True)
     \<and> py_lower (dn_host dn) \<in> set (approved_hosts (se_hosts (dn_env dn)))
     \<and> (\<exists>p. dn_policy dn = Inr p) \<and> (\<forall>t. dn_token dn t \<noteq> []) \<and> 0 \<le> dn_lag dn \<and> dn_lag dn \<le> 60"

text \<open>The server knows the session of the client, and it lasts for at least \<open>left\<close> seconds.\<close>

definition knows :: "server \<Rightarrow> client \<Rightarrow> rat \<Rightarrow> rat \<Rightarrow> bool" where
  "knows sv cl now left \<longleftrightarrow> (\<exists>tok s. cl_session cl = Some tok \<and> tok \<noteq> [] \<and> dict_get tok (sv_sessions sv) = Some s
     \<and> as_client s = cl_client_id cl \<and> now + left < as_expires s \<and> cl_expires cl = Fin (as_expires s))"

lemma api_token_given: "api_token_set env = Some t \<Longrightarrow> arg_given (Some t)"
  by (auto simp: api_token_set_def arg_given_def split: option.splits if_splits)

lemma get_set_if: "dict_get k (set_if b k' v d) = (if b \<and> k = k' then Some v else dict_get k d)"
  by (simp add: set_if_def dict_get_set)

lemma header_of:
  "header ''Authorization'' \<lparr>hc_method = verb, hc_path = path, hc_headers = call_headers cl path body [], hc_body = body\<rparr> =
     (if arg_given (cl_api_token cl) then bearer (the_text (cl_api_token cl)) else [])"
  "header ''X-Kernelyra-Agent-Secret'' \<lparr>hc_method = verb, hc_path = path, hc_headers = call_headers cl path body [], hc_body = body\<rparr> =
     (if arg_given (cl_agent_secret cl) \<and> path = sessions_path then the_text (cl_agent_secret cl) else [])"
  "header ''X-Kernelyra-Agent-Session'' \<lparr>hc_method = verb, hc_path = path, hc_headers = call_headers cl path body [], hc_body = body\<rparr> =
     (if arg_given (cl_session cl) \<and> agent_route path then the_text (cl_session cl) else [])"
  "header ''X-Kernelyra-Agent-Client'' \<lparr>hc_method = verb, hc_path = path, hc_headers = call_headers cl path body [], hc_body = body\<rparr> =
     (if arg_given (cl_session cl) \<and> agent_route path then cl_client_id cl else [])"
  by (simp_all add: header_def call_headers_def get_set_if set_all_def the_text_def dict_get_set)

lemma mcp_route: "mcp_path path \<Longrightarrow> mcp_path (takeWhile (\<lambda>x. x \<noteq> CHR ''?'') path)"
proof -
  assume m: "mcp_path path"
  have "path = ''/api/v1/mcp/'' @ drop 12 path" using m append_take_drop_id [of 12 path] unfolding mcp_path_def by metis
  then obtain q where "path = ''/api/v1/mcp/'' @ q" by blast
  then show ?thesis by (simp add: mcp_path_def)
qed

lemma mcp_is_api: "mcp_path p \<Longrightarrow> api_path p \<and> p \<noteq> ''/api/health'' \<and> p \<noteq> ''/api/v1/health''"
proof -
  assume m: "mcp_path p"
  then have "take 4 (take 12 p) = ''/api''" by (simp add: mcp_path_def)
  then show ?thesis using m by (auto simp: api_path_def mcp_path_def)
qed

lemma authenticated:
  assumes t: "trusted dn cl" and m: "mcp_path (route_of c)" and h: "hc_headers c = call_headers cl (hc_path c) (hc_body c) []"
  shows "api_authentication (dn_env dn) (request_of dn now c) (route_of c) sv =
    (if route_of c = sessions_path \<and> has_agent_bootstrap_access (dn_env dn) (request_of dn now c)
     then (case limited ''agent-session'' 20 (request_of dn now c) sv of (full, sv') \<Rightarrow> (if full then Denied 429 else Admitted, sv'))
     else (case get_agent_session (request_of dn now c) sv of (Some _, sv') \<Rightarrow> (Admitted, sv') | (None, sv') \<Rightarrow> (Denied 403, sv')))"
proof -
  have "rq_authorization (request_of dn now c) = bearer tok" if "api_token_set (dn_env dn) = Some tok" for tok
    using t that header_of(1) [of "hc_method c" "hc_path c" cl "hc_body c"] api_token_given [OF that] h
    by (cases c) (auto simp: trusted_def request_of_def the_text_def)
  then have "\<not> (case api_token_set (dn_env dn) of Some tok \<Rightarrow> rq_authorization (request_of dn now c) \<noteq> bearer tok | None \<Rightarrow> False)"
    by (simp split: option.split)
  moreover have "rq_host (request_of dn now c) = dn_host dn" by (simp add: request_of_def)
  ultimately show ?thesis
    using t m mcp_is_api [OF m] by (simp add: api_authentication_def trusted_def sessions_path_def)
qed

lemma session_opens:
  assumes t: "trusted dn cl" and fresh: "sv_sessions (dw_server dw) = []" "sv_windows (dw_server dw) = []"
  obtains d dw' b where "create_session (daemon_of dn) 300 (cl, dw) =
      (Inr d, cl\<lparr>cl_session := Some (dn_token dn (dw_now dw)), cl_expires := Fin (dw_now dw + 300)\<rparr>, dw')"
    "knows (dw_server dw') (cl\<lparr>cl_session := Some (dn_token dn (dw_now dw)), cl_expires := Fin (dw_now dw + 300)\<rparr>) (dw_now dw') 200"
    "dw_now dw' = dw_now dw + dn_lag dn" "dw_admitted dw' = dw_admitted dw @ [b]" "opens_session b"
proof -
  define b where "b = \<lparr>hc_method = ''POST'', hc_path = sessions_path,
    hc_headers = call_headers cl sessions_path (Some (session_body cl 300)) [], hc_body = Some (session_body cl 300)\<rparr>"
  obtain p where p: "dn_policy dn = Inr p" using t by (auto simp: trusted_def)
  have r: "route_of b = sessions_path" by (simp add: b_def route_of_def sessions_path_def)
  have m: "mcp_path (route_of b)" by (simp add: r mcp_path_def sessions_path_def)
  have acc: "has_agent_bootstrap_access (dn_env dn) (request_of dn (dw_now dw) b)"
    using t by (auto simp: has_agent_bootstrap_access_def request_of_def b_def header_of trusted_def arg_given_def the_text_def split: option.splits)
  define sv1 where "sv1 = (dw_server dw)\<lparr>sv_windows := [(''agent-session:'' @ dn_address dn, [dw_now dw])]\<rparr>"
  have "limited ''agent-session'' 20 (request_of dn (dw_now dw) b) (dw_server dw) = (False, sv1)"
    by (simp add: limited_def fresh admit_def window_after_def request_of_def sv1_def dict_set_def)
  then have a: "api_authentication (dn_env dn) (request_of dn (dw_now dw) b) (route_of b) (dw_server dw) = (Admitted, sv1)"
    using authenticated [OF t m, of "dw_now dw" "dw_server dw"] r acc by (simp add: b_def)
  obtain sv2 where i: "issue_agent_session (dn_env dn) (request_of dn (dw_now dw) b) (dn_policy dn) (cl_client_id cl) 300
      (dn_token dn (dw_now dw)) (dn_token dn (dw_now dw)) sv1 = (Inr (dn_token dn (dw_now dw)), sv2)"
    and s2: "sv_sessions sv2 = [(dn_token dn (dw_now dw), \<lparr>as_id = dn_token dn (dw_now dw), as_client = cl_client_id cl,
        as_expires = dw_now dw + 300, as_policy = p\<rparr>)]"
    using acc by (simp add: issue_agent_session_def p drop_expired_def sv1_def fresh sv_log_def request_of_def dict_set_def Let_def)
  define d where "d = [(''session_token'', VStr (dn_token dn (dw_now dw))), (''session_id'', VStr (dn_token dn (dw_now dw))),
      (''expires_at'', VFloat (Fin (dw_now dw + 300)))]"
  define dw' where "dw' = dw\<lparr>dw_server := sv2, dw_now := dw_now dw + dn_lag dn, dw_admitted := dw_admitted dw @ [b]\<rparr>"
  have "bootstrap dn (dw_now dw) b sv1 = (Answered (Json (VDict d)), sv2)"
    using i by (simp add: bootstrap_def b_def session_body_def d_def)
  then have "daemon_send dn b dw = (Answered (Json (VDict d)), dw')" by (simp add: daemon_send_def a [unfolded r] r dw'_def Let_def)
  then have x: "exchange (daemon_of dn) cl ''POST'' sessions_path (Some (session_body cl 300)) [] dw = (Got (VDict d), dw')"
    by (simp add: exchange_def daemon_of_def flip: b_def)
  have g: "arg_given (cl_agent_secret cl)" using t by (simp add: trusted_def)
  have "dict_get ''session_token'' d = Some (VStr (dn_token dn (dw_now dw)))" "dict_get ''expires_at'' d = Some (VFloat (Fin (dw_now dw + 300)))"
    by (simp_all add: d_def)
  then have "create_session (daemon_of dn) 300 (cl, dw) =
      (Inr d, cl\<lparr>cl_session := Some (dn_token dn (dw_now dw)), cl_expires := Fin (dw_now dw + 300)\<rparr>, dw')"
    by (simp add: create_session_def g x reply_text_def float_value_def)
  moreover have "knows (dw_server dw') (cl\<lparr>cl_session := Some (dn_token dn (dw_now dw)), cl_expires := Fin (dw_now dw + 300)\<rparr>) (dw_now dw') 200"
    using t by (simp add: knows_def dw'_def s2 trusted_def)
  ultimately show thesis by (intro that [of d dw' b]) (simp_all add: dw'_def opens_session_def is_call_def b_def)
qed

definition answers :: "daemon_net \<Rightarrow> bool" where
  "answers dn \<longleftrightarrow> (\<forall>c sv. \<exists>v sv'. dn_app dn c sv = (Answered (Json v), sv'))"

definition sent_as :: "client \<Rightarrow> string \<Rightarrow> string \<Rightarrow> pyval option \<Rightarrow> http_call" where
  "sent_as cl verb path body = \<lparr>hc_method = verb, hc_path = path, hc_headers = call_headers cl path body [], hc_body = body\<rparr>"

lemma exchange_known:
  assumes t: "trusted dn cl" and ar: "agent_route path" and r: "takeWhile (\<lambda>x. x \<noteq> CHR ''?'') path \<noteq> sessions_path" and an: "answers dn"
    and k: "knows (dw_server dw) cl (dw_now dw) left" "0 \<le> left"
  obtains v sv' dw' where "exchange (daemon_of dn) cl verb path body [] dw = (Got v, dw')"
    "dn_app dn (sent_as cl verb path body) (dw_server dw) = (Answered (Json v), sv')"
    "dw_admitted dw' = dw_admitted dw @ [sent_as cl verb path body]" "dw_server dw' = sv'"
proof -
  let ?c = "sent_as cl verb path body"
  obtain tok s where s: "cl_session cl = Some tok" "tok \<noteq> []" "dict_get tok (sv_sessions (dw_server dw)) = Some s"
    "as_client s = cl_client_id cl" "dw_now dw < as_expires s" using k by (auto simp: knows_def)
  have p: "hc_path ?c = path" by (simp add: sent_as_def)
  have m: "mcp_path (route_of ?c)" using ar mcp_route by (simp add: route_of_def p agent_route_def)
  have given: "arg_given (cl_session cl)" using s by (simp add: arg_given_def)
  have h: "hc_headers ?c = call_headers cl (hc_path ?c) (hc_body ?c) []" by (simp add: sent_as_def)
  have gs: "get_agent_session (request_of dn (dw_now dw) ?c) (dw_server dw) = (Some s, dw_server dw)"
    using s t given ar by (simp add: get_agent_session_def request_of_def sent_as_def header_of the_text_def trusted_def)
  have a: "api_authentication (dn_env dn) (request_of dn (dw_now dw) ?c) (route_of ?c) (dw_server dw) = (Admitted, dw_server dw)"
    unfolding authenticated [OF t m h] gs using r by (simp add: route_of_def p)
  obtain v sv' where v: "dn_app dn ?c (dw_server dw) = (Answered (Json v), sv')" using an unfolding answers_def by blast
  define dw' where "dw' = dw\<lparr>dw_server := sv', dw_now := dw_now dw + dn_lag dn, dw_admitted := dw_admitted dw @ [?c]\<rparr>"
  have "route_of ?c \<noteq> sessions_path" using r by (simp add: route_of_def p)
  then have "daemon_send dn ?c dw = (Answered (Json v), dw')" by (simp add: daemon_send_def a v dw'_def Let_def)
  then have "exchange (daemon_of dn) cl verb path body [] dw = (Got v, dw')"
    by (simp add: exchange_def daemon_of_def flip: sent_as_def)
  then show thesis using v by (intro that [of v dw' sv']) (simp_all add: dw'_def)
qed

lemma exchange_unknown:
  assumes t: "trusted dn cl" and ar: "agent_route path" and r: "takeWhile (\<lambda>x. x \<noteq> CHR ''?'') path \<noteq> sessions_path"
    and fresh: "sv_sessions (dw_server dw) = []"
  shows "exchange (daemon_of dn) cl verb path body [] dw =
    (Refusal ''denied'' 403 ''AgentSessionRequired'', dw\<lparr>dw_now := dw_now dw + dn_lag dn\<rparr>)"
proof -
  let ?c = "sent_as cl verb path body"
  have p: "hc_path ?c = path" by (simp add: sent_as_def)
  have m: "mcp_path (route_of ?c)" using ar mcp_route by (simp add: route_of_def p agent_route_def)
  have "get_agent_session (request_of dn (dw_now dw) ?c) (dw_server dw) = (None, dw_server dw)" by (simp add: get_agent_session_def fresh)
  then have a: "api_authentication (dn_env dn) (request_of dn (dw_now dw) ?c) (route_of ?c) (dw_server dw) = (Denied 403, dw_server dw)"
    using authenticated [OF t m, of "dw_now dw" "dw_server dw"] r by (simp add: sent_as_def route_of_def)
  then have "daemon_send dn ?c dw = (denial (route_of ?c) 403, dw\<lparr>dw_now := dw_now dw + dn_lag dn\<rparr>)"
    by (simp add: daemon_send_def Let_def)
  then have "exchange (daemon_of dn) cl verb path body [] dw =
      (refusal_of (\<lambda>_. []) 403 ''denied'' (Json (VDict [(''error'', VStr ''denied''), (''type'', VStr (denial_type (route_of ?c) 403))])),
       dw\<lparr>dw_now := dw_now dw + dn_lag dn\<rparr>)"
    by (simp add: exchange_def daemon_of_def denial_def flip: sent_as_def)
  then show ?thesis using m by (simp add: refusal_of_def denial_type_def reply_text_def)
qed

lemma knows_no_need: "knows (dw_server dw) cl (dw_now dw) 30 \<Longrightarrow> \<not> needs_session (daemon_of dn) path cl dw"
  by (auto simp: knows_def needs_session_def arg_given_def daemon_of_def fle_def feq_def)

lemma knows_later: "knows sv cl now left \<Longrightarrow> left' \<le> left \<Longrightarrow> knows sv cl now left'"
  by (auto simp: knows_def)

lemma trusted_session [simp]: "trusted dn (cl\<lparr>cl_session := x, cl_expires := y\<rparr>) = trusted dn cl"
  by (simp add: trusted_def split: option.split)

lemma request_recovers:
  assumes t: "trusted dn cl" and ar: "agent_route path" and r: "takeWhile (\<lambda>x. x \<noteq> CHR ''?'') path \<noteq> sessions_path" and an: "answers dn"
    and fresh: "sv_sessions (dw_server dw) = []" "sv_windows (dw_server dw) = []"
  obtains v sv sv' cl' dw' b where "client_request (daemon_of dn) verb path body [] True 0 (cl, dw) = (Inr v, cl', dw')"
    "dn_app dn (sent_as cl' verb path body) sv = (Answered (Json v), sv')" "opens_session b"
    "dw_admitted dw' = dw_admitted dw @ [b, sent_as cl' verb path body]"
proof (cases "needs_session (daemon_of dn) path cl dw")
  case True
  obtain d dw1 b where c: "create_session (daemon_of dn) 300 (cl, dw) =
      (Inr d, cl\<lparr>cl_session := Some (dn_token dn (dw_now dw)), cl_expires := Fin (dw_now dw + 300)\<rparr>, dw1)"
    and k: "knows (dw_server dw1) (cl\<lparr>cl_session := Some (dn_token dn (dw_now dw)), cl_expires := Fin (dw_now dw + 300)\<rparr>) (dw_now dw1) 200"
    and b: "dw_admitted dw1 = dw_admitted dw @ [b]" "opens_session b" by (rule session_opens [OF t fresh])
  define cl1 where "cl1 = cl\<lparr>cl_session := Some (dn_token dn (dw_now dw)), cl_expires := Fin (dw_now dw + 300)\<rparr>"
  have t1: "trusted dn cl1" using t by (simp add: cl1_def)
  obtain v sv' dw' where x: "exchange (daemon_of dn) cl1 verb path body [] dw1 = (Got v, dw')"
    "dn_app dn (sent_as cl1 verb path body) (dw_server dw1) = (Answered (Json v), sv')"
    "dw_admitted dw' = dw_admitted dw1 @ [sent_as cl1 verb path body]"
    by (rule exchange_known [OF t1 ar r an k [folded cl1_def]]) auto
  have "client_request (daemon_of dn) verb path body [] True 0 (cl, dw) = (Inr v, cl1, dw')"
    using True by (simp add: client_request.simps open_session_def c x(1) flip: cl1_def)
  then show thesis using x(2,3) b by (intro that) simp_all
next
  case False
  define cl0 where "cl0 = cl\<lparr>cl_session := None, cl_expires := Fin 0\<rparr>"
  define dw0 where "dw0 = dw\<lparr>dw_now := dw_now dw + dn_lag dn\<rparr>"
  have t0: "trusted dn cl0" and fresh0: "sv_sessions (dw_server dw0) = []" "sv_windows (dw_server dw0) = []"
    using t fresh by (simp_all add: cl0_def dw0_def)
  obtain d dw1 b where c: "create_session (daemon_of dn) 300 (cl0, dw0) =
      (Inr d, cl0\<lparr>cl_session := Some (dn_token dn (dw_now dw0)), cl_expires := Fin (dw_now dw0 + 300)\<rparr>, dw1)"
    and k: "knows (dw_server dw1) (cl0\<lparr>cl_session := Some (dn_token dn (dw_now dw0)), cl_expires := Fin (dw_now dw0 + 300)\<rparr>) (dw_now dw1) 200"
    and b: "dw_admitted dw1 = dw_admitted dw0 @ [b]" "opens_session b" by (rule session_opens [OF t0 fresh0])
  define cl1 where "cl1 = cl0\<lparr>cl_session := Some (dn_token dn (dw_now dw0)), cl_expires := Fin (dw_now dw0 + 300)\<rparr>"
  have t1: "trusted dn cl1" using t0 by (simp add: cl1_def)
  obtain v sv' dw' where x: "exchange (daemon_of dn) cl1 verb path body [] dw1 = (Got v, dw')"
    "dn_app dn (sent_as cl1 verb path body) (dw_server dw1) = (Answered (Json v), sv')"
    "dw_admitted dw' = dw_admitted dw1 @ [sent_as cl1 verb path body]"
    by (rule exchange_known [OF t1 ar r an k [folded cl1_def]]) auto
  have n: "\<not> needs_session (daemon_of dn) path cl1 dw1"
    by (rule knows_no_need [OF knows_later [OF k [folded cl1_def]]]) simp
  have again: "client_request (daemon_of dn) verb path body [] False 0 (cl1, dw1) = (Inr v, cl1, dw')"
    using n by (simp add: client_request.simps [of _ _ _ _ _ False] open_session_def x(1))
  have g: "arg_given (cl_agent_secret cl)" using t by (simp add: trusted_def)
  have "client_request (daemon_of dn) verb path body [] True 0 (cl, dw) = (Inr v, cl1, dw')"
    using False g again by (simp add: client_request.simps [of _ _ _ _ _ True] open_session_def exchange_unknown [OF t ar r fresh(1)] c
        flip: cl0_def dw0_def cl1_def)
  then show thesis using x(2,3) b by (intro that) (simp_all add: dw0_def)
qed

text \<open>C32: A restart of the daemon is invisible to an agent: a daemon that knows no session, whatever session the client believes to have,
  answers every agent call of a client that holds its secret; it admits exactly one bootstrap and the call itself, once, with its body,
  and the client returns what the route behind the middleware answered, or an error when the answer has not the announced shape.\<close>

theorem agent_survives_restart:
  assumes "trusted dn cl" and "hd (segments_of c) = ''mcp''" and "answers dn" and "e = endpoint_of c"
    and "sv_sessions (dw_server dw) = []" and "sv_windows (dw_server dw) = []"
  shows "\<exists>v sv sv' cl' dw' b h. invoke (daemon_of dn) c (cl, dw) =
       (if shaped (ep_shape e) v then Inr v else Inl (Remote ''malformed'' 502 ''ProtocolError''), cl', dw')
     \<and> h = sent_as cl' (ep_method e) (full_path e) (map_option VDict (ep_body e)) \<and> dn_app dn h sv = (Answered (Json v), sv')
     \<and> opens_session b \<and> dw_admitted dw' = dw_admitted dw @ [b, h]"
proof -
  have ar: "agent_route (full_path e)" using call_address [of c] assms(2,4) by simp
  have "split_slash sessions_path = [[], ''api'', ''v1'', ''mcp'', ''sessions'']" by (simp add: sessions_path_def)
  then have "map unquote (split_slash sessions_path) = [[], ''api'', ''v1'', ''mcp'', ''sessions'']" by (simp add: unquote_plain)
  moreover have "[''mcp'', ''sessions''] \<noteq> segments_of c" by (cases c) simp_all
  ultimately have r: "takeWhile (\<lambda>x. x \<noteq> CHR ''?'') (full_path e) \<noteq> sessions_path"
    using call_address [of c] assms(4) by auto
  have x: "ep_extra e = []" using assms(2) by (cases c) (simp_all add: assms(4) get_def post_def)
  obtain v sv sv' cl' dw' b where q: "client_request (daemon_of dn) (ep_method e) (full_path e) (map_option VDict (ep_body e)) [] True 0 (cl, dw)
        = (Inr v, cl', dw')"
    and a: "dn_app dn (sent_as cl' (ep_method e) (full_path e) (map_option VDict (ep_body e))) sv = (Answered (Json v), sv')" "opens_session b"
    "dw_admitted dw' = dw_admitted dw @ [b, sent_as cl' (ep_method e) (full_path e) (map_option VDict (ep_body e))]"
    by (rule request_recovers [OF assms(1) ar r assms(3,5,6)])
  have "invoke (daemon_of dn) c (cl, dw) =
       (if shaped (ep_shape e) v then Inr v else Inl (Remote ''malformed'' 502 ''ProtocolError''), cl', dw')"
    by (simp add: invoke_def q x Let_def flip: assms(4))
  with a show ?thesis by blast
qed

section \<open>A concrete client\<close>

definition demo_client :: client where
  "demo_client = \<lparr>cl_api_token = None, cl_user_secret = None, cl_agent_secret = Some ''a'', cl_client_id = ''client-1'',
     cl_session = Some ''old'', cl_expires = Fin 900, cl_retries = 2\<rparr>"

definition demo_policy_of :: agent_policy where
  "demo_policy_of = \<lparr>ag_workspace = [''w''], ag_roots = [[''data'']], ag_actions = [''run.command'']\<rparr>"

definition demo_net :: daemon_net where
  "demo_net = \<lparr>dn_env = demo_daemon, dn_policy = Inr demo_policy_of, dn_token = (\<lambda>_. ''new''), dn_host = ''localhost'', dn_address = ''local'',
     dn_lag = 1, dn_app = (\<lambda>c sv. (Answered (Json (VDict [])), sv))\<rparr>"

definition demo_world :: daemon_world where
  "demo_world = \<lparr>dw_server = demo_server\<lparr>sv_sessions := []\<rparr>, dw_now = 100, dw_admitted = []\<rparr>"

lemma demo_trusted: "trusted demo_net demo_client"
proof -
  have "py_lower ''localhost'' \<in> set (approved_hosts [])" by code_simp
  then show ?thesis by (simp add: trusted_def demo_net_def demo_client_def demo_daemon_def arg_given_def the_text_def api_token_set_def)
qed

theorem agent_survives_restart_witness:
  "\<exists>cl' dw' b h. invoke (daemon_of demo_net) (McpCommand ''r/1'' ''pause'' ''once'') (demo_client, demo_world) = (Inr (VDict []), cl', dw')
     \<and> dw_admitted dw' = [b, h] \<and> hc_path h = ''/api/v1/mcp/runs/r%2F1/command''"
proof -
  have q: "full_path (endpoint_of (McpCommand ''r/1'' ''pause'' ''once'')) = ''/api/v1/mcp/runs/r%2F1/command''"
    "ep_shape (endpoint_of (McpCommand ''r/1'' ''pause'' ''once'')) = Object" by code_simp+
  have w: "sv_sessions (dw_server demo_world) = []" "sv_windows (dw_server demo_world) = []" "dw_admitted demo_world = []"
    by (simp_all add: demo_world_def demo_server_def)
  have a: "answers demo_net" by (simp add: answers_def demo_net_def)
  have "hd (segments_of (McpCommand ''r/1'' ''pause'' ''once'')) = ''mcp''" by simp
  from agent_survives_restart [OF demo_trusted this a refl w(1,2)] obtain v sv sv' cl' dw' b h m bd where
    i: "invoke (daemon_of demo_net) (McpCommand ''r/1'' ''pause'' ''once'') (demo_client, demo_world) =
       (if shaped Object v then Inr v else Inl (Remote ''malformed'' 502 ''ProtocolError''), cl', dw')"
    and h: "h = sent_as cl' m ''/api/v1/mcp/runs/r%2F1/command'' bd" "dn_app demo_net h sv = (Answered (Json v), sv')" "dw_admitted dw' = [b, h]"
    unfolding q w(3) append_Nil by blast
  have "v = VDict []" using h(2) by (simp add: demo_net_def)
  moreover have "hc_path h = ''/api/v1/mcp/runs/r%2F1/command''" by (simp add: h(1) sent_as_def)
  ultimately show ?thesis using i h(3) by (auto simp: shaped_def)
qed

text \<open>A network that loses everything.\<close>

definition dead_net :: "unit net" where
  "dead_net = \<lparr>nt_send = (\<lambda>_ w. (Lost, w)), nt_sleep = (\<lambda>_ w. w), nt_now = (\<lambda>_. 0), nt_show = (\<lambda>_. []), nt_parse = (\<lambda>_. None)\<rparr>"

theorem calls_not_repeated_witness:
  "\<exists>res cl' sent. invoke (logged dead_net) (Command ''r1'' ''stop'') (demo_client, (), []) = (res, cl', (), sent)
     \<and> length (own_calls ''POST'' ''/api/v1/runs/r1/command'' sent) \<le> 2"
proof -
  obtain res cl' sent where i: "invoke (logged dead_net) (Command ''r1'' ''stop'') (demo_client, (), []) = (res, cl', (), sent)"
    by (cases "invoke (logged dead_net) (Command ''r1'' ''stop'') (demo_client, (), [])") auto
  have q: "full_path (endpoint_of (Command ''r1'' ''stop'')) = ''/api/v1/runs/r1/command''" "ep_method (endpoint_of (Command ''r1'' ''stop'')) = ''POST''"
    by code_simp+
  show ?thesis using calls_not_repeated [OF i refl] i unfolding q by (simp add: Let_def)
qed

end
