(* ===== verification/Mcp.thy ===== *)
theory Mcp imports Client Streaming Storage begin

text \<open>
  The MCP adapter: \<open>src/src/kernelyra/mcp_server.py\<close>. Its own permissions, loaded from the table \<open>mcp.permissions\<close> of the configuration,
  and its tools and resources, each of which makes one call of the \<open>Client\<close>. Paths are those of \<open>Access\<close>; the registration of the tools
  with the MCP library and the JSON text of a resource are left out.
\<close>

section \<open>Permissions\<close>

record mcp_permissions =
  pm_roots :: "location list"
  pm_base :: location
  pm_read :: bool
  pm_write :: bool
  pm_delete :: bool

text \<open>What a \<open>for\<close> loop over a value runs through, and what \<open>list\<close> makes of it.\<close>

fun iterate_value :: "pyval \<Rightarrow> kerror + pyval list" where
  "iterate_value (VList xs) = Inr xs"
| "iterate_value (VStr s) = Inr (map (\<lambda>c. VStr [c]) s)"
| "iterate_value (VDict d) = Inr (map (\<lambda>(k, v). VStr k) d)"
| "iterate_value v = Inl TypeError"

fun as_path :: "(string \<Rightarrow> written_path) \<Rightarrow> pyval \<Rightarrow> kerror + written_path" where
  "as_path read_path (VStr s) = Inr (read_path s)"
| "as_path read_path v = Inl TypeError"

definition flag_of :: "string \<Rightarrow> bool \<Rightarrow> pydict \<Rightarrow> bool" where
  "flag_of k preset d = (case dict_get k d of Some v \<Rightarrow> truthy v | None \<Rightarrow> preset)"

definition configured_roots :: "pydict \<Rightarrow> string list \<Rightarrow> pyval option" where
  "configured_roots raw env_parts =
     (case dict_get ''allowed_roots'' raw of
        Some v \<Rightarrow> if truthy v then Some v else if env_parts \<noteq> [] then Some (VList (map VStr env_parts)) else None
      | None \<Rightarrow> if env_parts \<noteq> [] then Some (VList (map VStr env_parts)) else None)"

definition load_permissions ::
  "(location \<Rightarrow> location) \<Rightarrow> (string \<Rightarrow> written_path) \<Rightarrow> location \<Rightarrow> location \<Rightarrow> pydict \<Rightarrow> string list \<Rightarrow> kerror + mcp_permissions" where
  "load_permissions resolve read_path workspace base raw env =
     bind_result
       (case configured_roots raw (filter (\<lambda>s. s \<noteq> []) env) of
          None \<Rightarrow> Inr [Absolute workspace]
        | Some v \<Rightarrow> bind_result (iterate_value v) (map_result (as_path read_path)))
       (\<lambda>roots. Inr \<lparr>pm_roots = map (locate resolve base) roots, pm_base = locate resolve base (Absolute base),
          pm_read = flag_of ''allow_read'' True raw, pm_write = flag_of ''allow_write'' False raw,
          pm_delete = flag_of ''allow_delete'' False raw\<rparr>)"

definition mcp_require_path :: "(location \<Rightarrow> location) \<Rightarrow> mcp_permissions \<Rightarrow> written_path \<Rightarrow> bool \<Rightarrow> kerror + location" where
  "mcp_require_path resolve pm raw write =
     (let path = locate resolve (pm_base pm) raw in
      if write \<and> \<not> pm_write pm then Inl AccessDeniedError
      else if \<not> write \<and> \<not> pm_read pm then Inl AccessDeniedError
      else if \<not> list_ex (\<lambda>dir. under dir path) (pm_roots pm) then Inl AccessDeniedError
      else Inr path)"

section \<open>Tools and resources\<close>

record run_draft =
  dr_dataset :: string
  dr_backend :: string
  dr_task :: string
  dr_architecture :: string
  dr_model_format :: string
  dr_target_metric :: pyfloat
  dr_batch_mode :: string
  dr_batch_size :: "int option"
  dr_name :: string
  dr_evaluation_interval :: "int option"
  dr_min_improvement :: pyfloat
  dr_degradation_margin :: "pyfloat option"
  dr_degradation_patience :: int
  dr_early_stopping_patience :: int
  dr_target_patience :: int

definition int_or_none :: "int option \<Rightarrow> pyval" where
  "int_or_none x = (case x of None \<Rightarrow> VNone | Some n \<Rightarrow> VInt n)"

text \<open>The dictionary of the \<open>RunConfig\<close> of a draft: what the tool does not set keeps its default.\<close>

definition draft_config :: "run_draft \<Rightarrow> pydict" where
  "draft_config d =
     [(''dataset'', VStr (dr_dataset d)), (''backend'', VStr (dr_backend d)), (''objective'', VStr (dr_task d)),
      (''architecture'', VStr (dr_architecture d)), (''model_format'', VStr (dr_model_format d)), (''name'', VStr (dr_name d)),
      (''mode'', VStr txt_new_model), (''profile'', VStr ''auto''), (''execution'', VStr ''auto''),
      (''algorithm_pack'', VStr ''balanced''), (''priority'', VStr ''normal''), (''target_metric'', VFloat (dr_target_metric d)),
      (''batch_mode'', VStr (dr_batch_mode d)), (''batch_size'', int_or_none (dr_batch_size d)), (''max_steps'', VInt 1400),
      (''cpu'', VNone), (''ram'', VNone), (''gpu'', VNone), (''threads'', VNone), (''base_run_id'', VNone), (''model_path'', VNone),
      (''accept_batch_risk'', VBool False), (''seed'', VInt 42), (''learning_rate'', VNone), (''weight_decay'', VFloat (Fin 0)),
      (''hidden_layers'', VList []), (''precision'', VStr ''auto''), (''data_workers'', VNone), (''prefetch'', VNone),
      (''evaluation_interval'', int_or_none (dr_evaluation_interval d)), (''min_improvement'', VFloat (dr_min_improvement d)),
      (''degradation_margin'', v_opt_float (dr_degradation_margin d)), (''degradation_patience'', VInt (dr_degradation_patience d)),
      (''early_stopping_patience'', VInt (dr_early_stopping_patience d)), (''target_patience'', VInt (dr_target_patience d)),
      (''data_contract'', VDict []), (''split_policy'', VDict []), (''chunk_policy'', VDict [])]"

datatype mcp_tool =
    ToolInspectPath string | ToolListDatasets | ToolInspectDataset string | ToolImportDataset string string "string option"
  | ToolCreateRun run_draft | ToolStartRun string string | ToolPauseRun string | ToolResumeRun string string | ToolStopRun string
  | ToolGetRun string | ToolListRuns | ToolHardware | ToolLogs "string option" int | ToolMetrics string | ToolCapabilities
  | ToolBackends | ToolIngestors | ToolExport string string

text \<open>\<open>show_path\<close> is the text of a resolved path.\<close>

record path_system =
  ps_resolve :: "location \<Rightarrow> location"
  ps_read :: "string \<Rightarrow> written_path"
  ps_show :: "location \<Rightarrow> string"

fun tool_call :: "path_system \<Rightarrow> mcp_permissions \<Rightarrow> mcp_tool \<Rightarrow> kerror + api_call" where
  "tool_call ps pm (ToolInspectPath path) =
     bind_result (mcp_require_path (ps_resolve ps) pm (ps_read ps path) False) (\<lambda>p. Inr (McpInspect (ps_show ps p)))"
| "tool_call ps pm ToolListDatasets = Inr McpListDatasets"
| "tool_call ps pm (ToolInspectDataset i) = Inr (McpGetDataset i)"
| "tool_call ps pm (ToolImportDataset path token target) =
     bind_result (mcp_require_path (ps_resolve ps) pm (ps_read ps path) False) (\<lambda>p. Inr (McpImport (ps_show ps p) target token))"
| "tool_call ps pm (ToolCreateRun d) = Inr (McpCreateRun (draft_config d))"
| "tool_call ps pm (ToolStartRun i token) = Inr (McpCommand i ''start'' token)"
| "tool_call ps pm (ToolPauseRun i) = Inr (McpCommand i ''pause'' [])"
| "tool_call ps pm (ToolResumeRun i token) = Inr (McpCommand i ''resume'' token)"
| "tool_call ps pm (ToolStopRun i) = Inr (McpCommand i ''stop'' [])"
| "tool_call ps pm (ToolGetRun i) = Inr (McpGetRun i)"
| "tool_call ps pm ToolListRuns = Inr McpListRuns"
| "tool_call ps pm ToolHardware = Inr McpHardware"
| "tool_call ps pm (ToolLogs i limit) = Inr (if arg_given i then McpRunLogs (the_text i) limit else McpLogs limit)"
| "tool_call ps pm (ToolMetrics i) = Inr (McpRunMetrics i)"
| "tool_call ps pm ToolCapabilities = Inr McpCapabilities"
| "tool_call ps pm ToolBackends = Inr McpCapabilities"
| "tool_call ps pm ToolIngestors = Inr McpCapabilities"
| "tool_call ps pm (ToolExport i token) = Inr (McpExport i token)"

text \<open>Two tools pass on an entry of the capabilities.\<close>

definition listed :: "string \<Rightarrow> pyval \<Rightarrow> client_error + pyval" where
  "listed k v =
     (case v of
        VDict d \<Rightarrow> (case dict_get k d of None \<Rightarrow> Inl (Raised KeyError)
          | Some x \<Rightarrow> (case iterate_value x of Inl e \<Rightarrow> Inl (Raised e) | Inr xs \<Rightarrow> Inr (VList xs)))
      | _ \<Rightarrow> Inl (Raised TypeError))"

fun tool_result :: "mcp_tool \<Rightarrow> pyval \<Rightarrow> client_error + pyval" where
  "tool_result ToolBackends v = listed ''backends'' v"
| "tool_result ToolIngestors v = listed ''ingestors'' v"
| "tool_result t v = Inr v"

definition run_tool :: "path_system \<Rightarrow> mcp_permissions \<Rightarrow> 'w net \<Rightarrow> mcp_tool \<Rightarrow> client \<times> 'w \<Rightarrow> (client_error + pyval) \<times> client \<times> 'w" where
  "run_tool ps pm net t s =
     (case tool_call ps pm t of
        Inl e \<Rightarrow> (Inl (Raised e), s)
      | Inr c \<Rightarrow> (case invoke net c s of
            (Inl e, s') \<Rightarrow> (Inl e, s')
          | (Inr v, s') \<Rightarrow> (tool_result t v, s')))"

datatype mcp_resource =
    HealthResource | CapabilitiesResource | HardwareResource | DatasetsResource | RunsResource | DatasetResource string
  | RunResource string | RunMetricsResource string | RunLogsResource string

fun resource_call :: "mcp_resource \<Rightarrow> api_call" where
  "resource_call HealthResource = GetHealth"
| "resource_call CapabilitiesResource = McpCapabilities"
| "resource_call HardwareResource = McpHardware"
| "resource_call DatasetsResource = McpListDatasets"
| "resource_call RunsResource = McpListRuns"
| "resource_call (DatasetResource i) = McpGetDataset i"
| "resource_call (RunResource i) = McpGetRun i"
| "resource_call (RunMetricsResource i) = McpRunMetrics i"
| "resource_call (RunLogsResource i) = McpRunLogs i 100"

section \<open>What the adapter confines\<close>

lemma mcp_require_path_Inr:
  "mcp_require_path resolve pm raw False = Inr q \<longleftrightarrow>
     q = locate resolve (pm_base pm) raw \<and> pm_read pm \<and> (\<exists>dir \<in> set (pm_roots pm). \<exists>rest. q = dir @ rest)"
  by (auto simp: mcp_require_path_def Let_def list_ex_iff under_iff)

lemma tool_call_agent: "tool_call ps pm t = Inr c \<Longrightarrow> hd (segments_of c) = ''mcp'' \<and> ep_method (endpoint_of c) \<in> {''GET'', ''POST''}"
  by (cases t) (auto simp: get_def post_def bind_result_def split: if_splits sum.splits)

lemma tool_call_path:
  assumes "tool_call ps pm t = Inr c" "c = McpInspect p \<or> c = McpImport p target token"
  shows "pm_read pm \<and> (\<exists>q. p = ps_show ps q \<and> (\<exists>dir \<in> set (pm_roots pm). \<exists>rest. q = dir @ rest))"
  using assms mcp_require_path_Inr by (cases t) (auto simp: bind_result_def split: if_splits sum.splits)

lemma invoke_sends:
  assumes "invoke (logged net) c (cl, w, []) = (res, cl', w', sent)" and "hd (segments_of c) = ''mcp''" and "(h, r) \<in> set sent"
  shows "opens_session h \<or> agent_route (hc_path h) \<and> is_call (ep_method (endpoint_of c)) (full_path (endpoint_of c)) h"
proof -
  let ?e = "endpoint_of c"
  have a: "agent_route (full_path ?e)" using assms(2) call_address [of c] by simp
  obtain r0 cl0 w0 sent0 where q: "client_request (logged net) (ep_method ?e) (full_path ?e) (map_option VDict (ep_body ?e)) (ep_extra ?e) True 0
      (cl, w, []) = (r0, cl0, w0, sent0)"
    by (cases "client_request (logged net) (ep_method ?e) (full_path ?e) (map_option VDict (ep_body ?e)) (ep_extra ?e) True 0 (cl, w, [])") auto
  have "sent = sent0" using assms(1) by (auto simp: invoke_def q Let_def split: sum.splits if_splits)
  moreover have "full_path ?e \<noteq> sessions_path" using a by (simp add: agent_route_def)
  ultimately have "is_call (ep_method ?e) (full_path ?e) h \<or> opens_session h"
    using client_request_sends [OF q] assms(3) by (auto simp: sends_ok_def)
  then show ?thesis using a by (auto simp: is_call_def)
qed

text \<open>C37: Whatever tool an agent calls, with whatever arguments, the adapter talks to the daemon only by the bootstrap request and by agent
  routes, with GET and POST alone, where the daemon applies the policy of the agent; a path is sent only when reading is allowed and the path,
  resolved, is a root of the permissions or below one; a refused path sends nothing.\<close>

theorem mcp_tools_confined:
  assumes "run_tool ps pm (logged net) t (cl, w, []) = (res, cl', w', sent)"
  shows "(\<forall>(h, r) \<in> set sent. opens_session h \<or> agent_route (hc_path h) \<and> hc_method h \<in> {''GET'', ''POST''})
     \<and> (\<forall>path. (t = ToolInspectPath path \<or> (\<exists>target token. t = ToolImportDataset path token target)) \<longrightarrow>
          (let q = locate (ps_resolve ps) (pm_base pm) (ps_read ps path); ok = pm_read pm \<and> (\<exists>dir \<in> set (pm_roots pm). \<exists>rest. q = dir @ rest) in
           (\<not> ok \<longrightarrow> res = Inl (Raised AccessDeniedError) \<and> sent = [] \<and> cl' = cl)
         \<and> (ok \<longrightarrow> (\<exists>c. tool_call ps pm t = Inr c \<and> dict_get ''path'' (the (ep_body (endpoint_of c))) = Some (VStr (ps_show ps q))))))"
proof (intro conjI allI impI)
  show "\<forall>(h, r) \<in> set sent. opens_session h \<or> agent_route (hc_path h) \<and> hc_method h \<in> {''GET'', ''POST''}"
  proof (cases "tool_call ps pm t")
    case (Inl e)
    then show ?thesis using assms by (simp add: run_tool_def)
  next
    case (Inr c)
    obtain r0 cl0 w0 sent0 where i: "invoke (logged net) c (cl, w, []) = (r0, cl0, w0, sent0)"
      by (cases "invoke (logged net) c (cl, w, [])") auto
    then have "sent = sent0" using assms Inr by (auto simp: run_tool_def split: sum.splits)
    then show ?thesis using invoke_sends [OF i] tool_call_agent [OF Inr] by (fastforce simp: is_call_def)
  qed
next
  fix path
  assume t: "t = ToolInspectPath path \<or> (\<exists>target token. t = ToolImportDataset path token target)"
  define q where "q = locate (ps_resolve ps) (pm_base pm) (ps_read ps path)"
  define ok where "ok \<longleftrightarrow> pm_read pm \<and> (\<exists>dir \<in> set (pm_roots pm). \<exists>rest. q = dir @ rest)"
  have g: "mcp_require_path (ps_resolve ps) pm (ps_read ps path) False = (if ok then Inr q else Inl AccessDeniedError)"
    by (auto simp: mcp_require_path_def ok_def q_def Let_def list_ex_iff under_iff)
  have "\<not> ok \<longrightarrow> res = Inl (Raised AccessDeniedError) \<and> sent = [] \<and> cl' = cl"
    using t assms by (auto simp: run_tool_def g)
  moreover have "ok \<longrightarrow> (\<exists>c. tool_call ps pm t = Inr c \<and> dict_get ''path'' (the (ep_body (endpoint_of c))) = Some (VStr (ps_show ps q)))"
    using t by (auto simp: g post_def dict_get_def)
  ultimately show "let q = locate (ps_resolve ps) (pm_base pm) (ps_read ps path); ok = pm_read pm \<and> (\<exists>dir \<in> set (pm_roots pm). \<exists>rest. q = dir @ rest) in
           (\<not> ok \<longrightarrow> res = Inl (Raised AccessDeniedError) \<and> sent = [] \<and> cl' = cl)
         \<and> (ok \<longrightarrow> (\<exists>c. tool_call ps pm t = Inr c \<and> dict_get ''path'' (the (ep_body (endpoint_of c))) = Some (VStr (ps_show ps q))))"
    by (simp add: Let_def q_def ok_def)
qed

text \<open>C38: The permissions of the adapter fail open and are partly idle. A table that gives the roots as one string instead of a list is
  not refused but read character by character, so a string with a slash approves the whole file system; a list of strings approves
  what it names. And no tool depends on \<open>allow_write\<close> or \<open>allow_delete\<close>, importing a data set included.\<close>

theorem permissions_fail_open:
  assumes "ps_read ps [CHR ''/''] = Absolute []" and "ps_resolve ps [] = []"
    and "dict_get ''allowed_roots'' raw = Some v" and "load_permissions (ps_resolve ps) (ps_read ps) workspace base raw env = Inr pm"
  shows "(\<forall>s. v = VStr s \<and> CHR ''/'' \<in> set s \<and> pm_read pm \<longrightarrow> (\<forall>p. \<exists>q. mcp_require_path (ps_resolve ps) pm p False = Inr q))
     \<and> (\<forall>ss. v = VList (map VStr ss) \<and> ss \<noteq> [] \<longrightarrow> pm_roots pm = map (\<lambda>s. locate (ps_resolve ps) base (ps_read ps s)) ss)
     \<and> tool_call ps (pm\<lparr>pm_write := x, pm_delete := y\<rparr>) t = tool_call ps pm t"
proof (intro conjI allI impI)
  have each: "map_result (as_path (ps_read ps)) (map VStr ss) = Inr (map (ps_read ps) ss)" for ss by (induction ss) simp_all
  {
    fix s p assume s: "v = VStr s \<and> CHR ''/'' \<in> set s \<and> pm_read pm"
    then have "s \<noteq> []" by auto
    have e: "iterate_value (VStr s) = Inr (map VStr (map (\<lambda>c. [c]) s))" by simp
    have "pm_roots pm = map (locate (ps_resolve ps) base) (map (ps_read ps) (map (\<lambda>c. [c]) s))"
      using assms(3,4) s \<open>s \<noteq> []\<close>
      by (auto simp: load_permissions_def configured_roots_def bind_result_def e each simp del: iterate_value.simps map_map)
    then have "locate (ps_resolve ps) base (ps_read ps [CHR ''/'']) \<in> set (pm_roots pm)" using s by auto
    then have "[] \<in> set (pm_roots pm)" by (simp add: assms(1,2) locate_def)
    then show "\<exists>q. mcp_require_path (ps_resolve ps) pm p False = Inr q" using s mcp_require_path_Inr by auto
  next
    fix ss assume "v = VList (map VStr ss) \<and> ss \<noteq> []"
    then show "pm_roots pm = map (\<lambda>s. locate (ps_resolve ps) base (ps_read ps s)) ss"
      using assms(3,4) by (auto simp: load_permissions_def configured_roots_def bind_result_def each)
  next
    have "mcp_require_path r (pm\<lparr>pm_write := x, pm_delete := y\<rparr>) p False = mcp_require_path r pm p False" for r p
      by (simp add: mcp_require_path_def Let_def)
    then show "tool_call ps (pm\<lparr>pm_write := x, pm_delete := y\<rparr>) t = tool_call ps pm t" by (cases t) simp_all
  }
qed

section \<open>Concrete permissions\<close>

definition demo_paths :: path_system where
  "demo_paths = \<lparr>ps_resolve = (\<lambda>p. p), ps_read = (\<lambda>s. if s = ''/'' then Absolute [] else if s = ''etc'' then Absolute [''etc''] else Relative [s]),
     ps_show = concat\<rparr>"

definition demo_permissions :: mcp_permissions where
  "demo_permissions = \<lparr>pm_roots = [[''data'']], pm_base = [''data''], pm_read = True, pm_write = False, pm_delete = False\<rparr>"

theorem mcp_tools_confined_witness:
  "fst (run_tool demo_paths demo_permissions (logged dead_net) (ToolInspectPath ''etc'') (demo_client, (), [])) = Inl (Raised AccessDeniedError)"
proof -
  obtain res cl' sent where r: "run_tool demo_paths demo_permissions (logged dead_net) (ToolInspectPath ''etc'') (demo_client, (), []) = (res, cl', (), sent)"
    by (cases "run_tool demo_paths demo_permissions (logged dead_net) (ToolInspectPath ''etc'') (demo_client, (), [])") auto
  from mcp_tools_confined [OF r] have "res = Inl (Raised AccessDeniedError)"
    by (auto simp: Let_def demo_paths_def demo_permissions_def locate_def)
  with r show ?thesis by simp
qed

theorem permissions_fail_open_witness:
  "\<exists>pm q. load_permissions (\<lambda>p. p) (ps_read demo_paths) [''w''] [''w''] [(''allowed_roots'', VStr ''/data'')] [] = Inr pm
     \<and> mcp_require_path (\<lambda>p. p) pm (Absolute [''etc'']) False = Inr q"
proof -
  let ?raw = "[(''allowed_roots'', VStr ''/data'')]"
  have p: "ps_read demo_paths [CHR ''/''] = Absolute []" "ps_resolve demo_paths = (\<lambda>p. p)" by (simp_all add: demo_paths_def)
  have v: "dict_get ''allowed_roots'' ?raw = Some (VStr ''/data'')" by simp
  obtain pm where l: "load_permissions (ps_resolve demo_paths) (ps_read demo_paths) [''w''] [''w''] ?raw [] = Inr pm" and r: "pm_read pm"
    by (simp add: load_permissions_def configured_roots_def flag_of_def)
  have z: "ps_resolve demo_paths [] = []" by (simp add: p)
  from permissions_fail_open [OF p(1) z v l] r have "\<forall>q. \<exists>y. mcp_require_path (ps_resolve demo_paths) pm q False = Inr y" by simp
  then show ?thesis using l p(2) by auto
qed

end
