(* ===== verification/Protocol.thy ===== *)
theory Protocol imports Models begin

text \<open>
  The JSONL protocol over standard input and output: \<open>src/src/kernelyra/protocol.py\<close>. Input is a list of bytes and output a list of
  messages; the JSON decoder and the trainer, whose state is \<open>'w\<close>, are parameters. Of an error message only the class is kept.
\<close>

section \<open>The server\<close>

definition max_request_bytes :: nat where
  "max_request_bytes = 1024 * 1024"

text \<open>\<open>readline(n)\<close> reads up to a line feed, or \<open>n\<close> bytes.\<close>

definition readline :: "nat \<Rightarrow> nat list \<Rightarrow> nat list \<times> nat list" where
  "readline n bs =
     (let k = length (takeWhile (\<lambda>b. b \<noteq> 10) bs); m = min n (if k < length bs then k + 1 else k) in (take m bs, drop m bs))"

record 'w trainer =
  tr_decode :: "nat list \<Rightarrow> kerror + pyval"
  tr_capabilities :: "'w \<Rightarrow> pyval"
  tr_hardware :: "'w \<Rightarrow> pyval"
  tr_plan :: "pyval \<Rightarrow> pydict \<Rightarrow> 'w \<Rightarrow> (kerror + pyval) \<times> 'w"
  tr_train :: "pyval \<Rightarrow> pydict \<Rightarrow> 'w \<Rightarrow> (kerror + pyval) \<times> 'w"
  tr_finetune :: "pyval \<Rightarrow> pyval \<Rightarrow> pydict \<Rightarrow> 'w \<Rightarrow> (kerror + pyval) \<times> 'w"

datatype message = Ready | Result pyval pyval | Failure pyval kerror | TooLong

text \<open>The classes the \<open>except\<close> clause names.\<close>

definition caught :: "kerror \<Rightarrow> bool" where
  "caught e \<longleftrightarrow> list_ex (\<lambda>c. c \<in> set (mro e)) [''KernelyraError'', ''OSError'', ''ValueError'', ''KeyError'', ''TypeError'']"

definition pop_param :: "string \<Rightarrow> pydict \<Rightarrow> kerror + pyval \<times> pydict" where
  "pop_param k d = (case dict_get k d of None \<Rightarrow> Inl KeyError | Some v \<Rightarrow> Inr (v, dict_del k d))"

definition params_of :: "pydict \<Rightarrow> kerror + pydict" where
  "params_of request =
     (case dict_get ''params'' request of
        None \<Rightarrow> Inr []
      | Some v \<Rightarrow> if \<not> truthy v then Inr [] else (case v of VDict d \<Rightarrow> Inr d | _ \<Rightarrow> Inl ValueError))"

definition call_method :: "'w trainer \<Rightarrow> pyval option \<Rightarrow> pydict \<Rightarrow> 'w \<Rightarrow> (kerror + pyval) \<times> 'w" where
  "call_method tr verb params w =
     (if verb = Some (VStr ''ping'') then (Inr (VDict [(''protocol'', VStr ''kernelyra-jsonl/1''), (''status'', VStr ''ready'')]), w)
      else if verb = Some (VStr ''capabilities'') then (Inr (tr_capabilities tr w), w)
      else if verb = Some (VStr ''hardware'') then (Inr (tr_hardware tr w), w)
      else if verb = Some (VStr ''plan'') then
        (case pop_param ''dataset'' params of Inl e \<Rightarrow> (Inl e, w) | Inr (dataset, p) \<Rightarrow> tr_plan tr dataset p w)
      else if verb = Some (VStr ''train'') then
        (case pop_param ''dataset'' params of Inl e \<Rightarrow> (Inl e, w) | Inr (dataset, p) \<Rightarrow> tr_train tr dataset p w)
      else if verb = Some (VStr ''finetune'') then
        (case pop_param ''dataset'' params of Inl e \<Rightarrow> (Inl e, w) | Inr (dataset, p) \<Rightarrow>
           (case pop_param ''model'' p of Inl e \<Rightarrow> (Inl e, w) | Inr (model, q) \<Rightarrow> tr_finetune tr model dataset q w))
      else (Inl ValueError, w))"

definition line_id :: "'w trainer \<Rightarrow> nat list \<Rightarrow> pyval" where
  "line_id tr raw =
     (case tr_decode tr raw of
        Inr (VDict d) \<Rightarrow> (case dict_get ''id'' d of Some i \<Rightarrow> i | None \<Rightarrow> VNone)
      | _ \<Rightarrow> VNone)"

definition handle_line :: "'w trainer \<Rightarrow> nat list \<Rightarrow> 'w \<Rightarrow> (kerror + pyval) \<times> 'w" where
  "handle_line tr raw w =
     (case tr_decode tr raw of
        Inl e \<Rightarrow> (Inl e, w)
      | Inr (VDict d) \<Rightarrow>
          (case params_of d of Inl e \<Rightarrow> (Inl e, w) | Inr params \<Rightarrow> call_method tr (dict_get ''method'' d) params w)
      | Inr _ \<Rightarrow> (Inl ValueError, w))"

text \<open>One request: the message written, or the exception that ends the server.\<close>

definition serve_line :: "'w trainer \<Rightarrow> nat list \<Rightarrow> 'w \<Rightarrow> (kerror + message) \<times> 'w" where
  "serve_line tr raw w =
     (case handle_line tr raw w of
        (Inr v, w') \<Rightarrow> (Inr (Result (line_id tr raw) v), w')
      | (Inl e, w') \<Rightarrow> (if caught e then Inr (Failure (line_id tr raw) e) else Inl e, w'))"

lemma readline_shorter: "bs \<noteq> [] \<Longrightarrow> (raw, rest) = readline (Suc n) bs \<Longrightarrow> length rest < length bs"
  by (cases bs) (auto simp: readline_def Let_def split: if_splits)

function stdio_loop :: "'w trainer \<Rightarrow> nat list \<Rightarrow> 'w \<Rightarrow> message list \<times> kerror option \<times> 'w" where
  "stdio_loop tr bs w =
     (if bs = [] then ([], None, w)
      else case readline (max_request_bytes + 1) bs of (raw, rest) \<Rightarrow>
        if max_request_bytes < length raw \<or> last raw \<noteq> 10
        then (case stdio_loop tr rest w of (out, r) \<Rightarrow> (TooLong # out, r))
        else (case serve_line tr raw w of
                (Inl e, w') \<Rightarrow> ([], Some e, w')
              | (Inr m, w') \<Rightarrow> (case stdio_loop tr rest w' of (out, r) \<Rightarrow> (m # out, r))))"
  by auto

termination by (relation "measure (\<lambda>(tr, bs, w). length bs)") (auto dest: readline_shorter)

declare stdio_loop.simps [simp del]

definition run_stdio :: "'w trainer \<Rightarrow> nat list \<Rightarrow> 'w \<Rightarrow> message list \<times> kerror option \<times> 'w" where
  "run_stdio tr bs w = (case stdio_loop tr bs w of (out, r) \<Rightarrow> (Ready # out, r))"

section \<open>One answer a line\<close>

lemma no_feed: "10 \<notin> set l \<Longrightarrow> takeWhile (\<lambda>b. b \<noteq> (10 :: nat)) l = l"
  by (induction l) auto

lemma readline_line: "10 \<notin> set l \<Longrightarrow> length l < n \<Longrightarrow> readline n (l @ 10 # rest) = (l @ [10], rest)"
  by (simp add: readline_def Let_def takeWhile_tail no_feed min_absorb2 Suc_leI)

lemma readline_cut: "10 \<notin> set l \<Longrightarrow> length l = n \<Longrightarrow> readline n (l @ rest) = (l, rest)"
  by (auto simp: readline_def Let_def takeWhile_append no_feed min_def)

lemma readline_last: "10 \<notin> set l \<Longrightarrow> length l \<le> n \<Longrightarrow> readline n l = (l, [])"
  by (simp add: readline_def Let_def no_feed min_def)

text \<open>A server of lines, one after the other.\<close>

fun serve_lines :: "'w trainer \<Rightarrow> nat list list \<Rightarrow> 'w \<Rightarrow> message list \<times> kerror option \<times> 'w" where
  "serve_lines tr [] w = ([], None, w)"
| "serve_lines tr (l # ls) w =
     (case serve_line tr (l @ [10]) w of
        (Inl e, w') \<Rightarrow> ([], Some e, w')
      | (Inr m, w') \<Rightarrow> (case serve_lines tr ls w' of (out, r) \<Rightarrow> (m # out, r)))"

definition fits :: "nat list \<Rightarrow> bool" where
  "fits l \<longleftrightarrow> 10 \<notin> set l \<and> length l < max_request_bytes"

lemma stdio_loop_lines:
  "list_all fits ls \<Longrightarrow> stdio_loop tr (concat (map (\<lambda>l. l @ [10]) ls)) w = serve_lines tr ls w"
proof (induction ls arbitrary: w)
  case Nil
  then show ?case by (simp add: stdio_loop.simps)
next
  case (Cons l ls)
  then have "readline (max_request_bytes + 1) (l @ 10 # concat (map (\<lambda>l. l @ [10]) ls)) = (l @ [10], concat (map (\<lambda>l. l @ [10]) ls))"
    by (intro readline_line) (simp_all add: fits_def)
  then show ?case using Cons by (subst stdio_loop.simps) (auto simp: fits_def split: prod.splits sum.splits)
qed

fun answers_to :: "'w trainer \<Rightarrow> nat list \<Rightarrow> message \<Rightarrow> bool" where
  "answers_to tr l (Result i v) = (i = line_id tr (l @ [10]))"
| "answers_to tr l (Failure i e) = (i = line_id tr (l @ [10]) \<and> caught e)"
| "answers_to tr l m = False"

lemma serve_line_answers: "serve_line tr (l @ [10]) w = (Inr m, w') \<Longrightarrow> answers_to tr l m"
  by (auto simp: serve_line_def split: sum.splits prod.splits if_splits)

lemma serve_lines_answers:
  "serve_lines tr ls w = (out, e, w') \<Longrightarrow> list_all2 (answers_to tr) (take (length out) ls) out \<and> length out \<le> length ls
     \<and> (e = None \<longrightarrow> length out = length ls) \<and> (\<forall>x. e = Some x \<longrightarrow> \<not> caught x)"
proof (induction ls arbitrary: w out)
  case (Cons l ls)
  obtain r w1 where s: "serve_line tr (l @ [10]) w = (r, w1)" by fastforce
  show ?case
  proof (cases r)
    case (Inl x)
    then have "\<not> caught x" using s by (auto simp: serve_line_def split: sum.splits prod.splits if_splits)
    then show ?thesis using Cons.prems s Inl by auto
  next
    case (Inr m)
    obtain o1 where l: "serve_lines tr ls w1 = (o1, e, w')" and o: "out = m # o1" using Cons.prems s Inr by (auto split: prod.splits)
    then show ?thesis using Cons.IH [OF l] serve_line_answers s Inr by auto
  qed
qed simp


text \<open>C40: A line that is too long is not one request. The server reads 1 MiB and one byte of it, reports the size and goes on in the middle of
  the line, so whatever stands there is carried out as a request of its own; and a last line without a line feed is not carried out but
  reported as too long, however short it is.\<close>

theorem long_line_split:
  assumes "length padding = max_request_bytes + 1" "10 \<notin> set padding" "10 \<notin> set tail"
  shows "stdio_loop tr (padding @ tail @ 10 # rest) w = (case stdio_loop tr (tail @ 10 # rest) w of (out, r) \<Rightarrow> (TooLong # out, r))
     \<and> (tail \<noteq> [] \<and> length tail \<le> max_request_bytes \<longrightarrow> stdio_loop tr tail w = ([TooLong], None, w))"
proof (intro conjI impI)
  have "readline (max_request_bytes + 1) (padding @ tail @ 10 # rest) = (padding, tail @ 10 # rest)"
    using readline_cut [OF assms(2,1)] by simp
  moreover have "padding @ tail @ 10 # rest \<noteq> []" by simp
  ultimately show "stdio_loop tr (padding @ tail @ 10 # rest) w = (case stdio_loop tr (tail @ 10 # rest) w of (out, r) \<Rightarrow> (TooLong # out, r))"
    using assms(1) by (subst stdio_loop.simps) simp
next
  assume t: "tail \<noteq> [] \<and> length tail \<le> max_request_bytes"
  then have "readline (max_request_bytes + 1) tail = (tail, [])" using assms(3) by (intro readline_last) simp_all
  moreover have "last tail \<noteq> 10" using t assms(3) by (metis last_in_set)
  ultimately show "stdio_loop tr tail w = ([TooLong], None, w)" using t by (subst stdio_loop.simps) (simp add: stdio_loop.simps [of tr "[]"])
qed

section \<open>A concrete trainer\<close>

definition demo_trainer :: "unit trainer" where
  "demo_trainer = \<lparr>tr_decode = (\<lambda>raw. if raw = [112, 10] then Inr (VDict [(''id'', VInt 7), (''method'', VStr ''ping'')]) else Inl ValueError),
     tr_capabilities = (\<lambda>_. VNone), tr_hardware = (\<lambda>_. VNone), tr_plan = (\<lambda>_ _ w. (Inl DatasetError, w)),
     tr_train = (\<lambda>_ _ w. (Inl DatasetError, w)), tr_finetune = (\<lambda>_ _ _ w. (Inl DatasetError, w))\<rparr>"


theorem long_line_split_witness:
  "fst (stdio_loop demo_trainer (replicate (max_request_bytes + 1) 32 @ [112, 10]) ()) = TooLong # fst (stdio_loop demo_trainer [112, 10] ())"
proof -
  have p: "length (replicate (max_request_bytes + 1) (32 :: nat)) = max_request_bytes + 1" "10 \<notin> set (replicate (max_request_bytes + 1) (32 :: nat))"
    by simp_all
  from long_line_split [OF p, of "[112]" demo_trainer "[]" "()"] show ?thesis by (simp split: prod.splits)
qed

end
