(* ===== verification/Spec2Isabelle.thy ===== *)
theory Spec2Isabelle imports TrainSetup Packs Create Worker Maintenance Manifests Tabular Extract Mcp Protocol begin

text \<open>
  \<^bold>\<open>Kernelyra: a verification development\<close>

  Kernelyra trains models on tabular data on one machine. A workspace keeps its state below \<open>.kernelyra\<close>: an SQLite database with the
  tables of data sets, runs, log entries and approvals, the imported files, the checkpoints and the locks. A daemon serves the workspace
  over HTTP; command line, agents and SDKs are its clients or use the library in process. This development models the Python code under
  \<open>src/src/kernelyra\<close>; a file name below without a directory is one of that folder.

  \<^bold>\<open>How a training comes about.\<close> \<open>ingestion/router.py\<close> inspects a source (\<open>Formats\<close>), an ingestor reads it (\<open>Tabular\<close>), \<open>data_health.py\<close>
  writes a contract for it (\<open>DataHealth\<close>) and \<open>datasets.py\<close> registers it (\<open>Datasets\<close>). \<open>auto.py\<close> plans a run (\<open>Auto\<close>) with the policies of
  \<open>hardware.py\<close>, \<open>tuning.py\<close>, \<open>batch.py\<close> (\<open>Tuning\<close>) and the packs of \<open>packs.py\<close> (\<open>Packs\<close>); \<open>RunManager.create\<close> stores it (\<open>Create\<close>). The scheduler
  of \<open>runtime.py\<close> admits it when its shares fit (\<open>Runtime\<close>, \<open>RuntimeSpec\<close>) and gives it a worker thread, which prepares the training
  (\<open>TrainSetup\<close>), runs the loop (\<open>TrainLoop\<close>) and talks to a backend in a child process (\<open>Worker\<close>). Rows come from arrays split by
  \<open>backends/splitter.py\<close> (\<open>Planning\<close>) or from a stream (\<open>Streaming\<close>); evaluations pass \<open>Guard\<close>, and scores and weights go to \<open>Checkpoints\<close>. Agents
  reach the daemon (\<open>Server\<close>, \<open>Access\<close>) through the MCP adapter (\<open>Mcp\<close>) and the client (\<open>Client\<close>); other languages speak the JSONL protocol
  (\<open>Protocol\<close>).

  \<^bold>\<open>The theories\<close>, each naming its source in its own header:

  \<^item> \<open>KPrelude\<close>, \<open>PyFloat\<close>, \<open>Models\<close>: results as sums, dictionaries in insertion order with the locale \<open>keyed_store\<close> of table laws, binary64
    floats, the records of \<open>models.py\<close>, the exceptions of \<open>errors.py\<close> with their resolution order, JSON values.
  \<^item> \<open>Storage\<close> (\<open>storage/sqlite.py\<close>): a state with one association list for each table; every public method is one function on it. The
    interpretations \<open>run_rows\<close>, \<open>dataset_rows\<close> and \<open>approval_rows\<close> of \<open>keyed_store\<close> give the table laws; the lemmas show that the tables stay consistent,
    that an approval is spent at most once and only for what it was issued, and that the event stream ends and is complete.
  \<^item> \<open>Runtime\<close>, \<open>RuntimeSpec\<close> (\<open>runtime.py\<close>, part of \<open>workspace.py\<close>): the state of the control plane is a record of tables, threads, flags and the
    copies the workers hold; each method that holds the lock is one function, and the step relation interleaves them with the steps of the
    workers. Reachable states are an inductive predicate; refinement of the abstract life cycle, the agreement of records and threads, the
    bound on reservations and the outcome of each command are proved by rule induction. The race of \<open>rebalance\<close> is proved, not assumed away.
  \<^item> \<open>Guard\<close>, \<open>Checkpoints\<close> (\<open>quality.py\<close>, \<open>model_guard.py\<close>, \<open>trace.py\<close>, \<open>checkpoints.py\<close>): verdicts and the bounded trace; the file operations of a
    promotion as a list, so that a crash is a prefix of it.
  \<^item> \<open>TrainLoop\<close>, \<open>TrainSetup\<close>, \<open>Worker\<close>: the loop as a function of the answers of its environment, with the bound of its iterations; the checks of
    a resumed or refined run; frames on the socket, the command loop of the child and the handle of the parent, with the theorem that remote
    training gives what the backend gives.
  \<^item> \<open>Packs\<close>, \<open>Tuning\<close>, \<open>Create\<close>, \<open>Auto\<close>: the pack table and its file, policies and batch plans on \<open>PyFloat\<close>, the contract of backend, architecture,
    format and task, the settings and the plan; every plan is inside its limits, and every created run starts in a loop that ends.
  \<^item> \<open>Planning\<close>, \<open>Streaming\<close>: splits and chunk ranges (64-bit words for the mixing, the locale \<open>chunk_policy\<close> for the ranges), the stream reader
    with its prefetch queue as an interleaving of two processes; a restored reader continues exactly, and the queue keeps the order.
  \<^item> \<open>Files\<close>, \<open>Datasets\<close>, \<open>Maintenance\<close>, \<open>Manifests\<close>: the tree below \<open>.kernelyra\<close> as a dictionary from paths to contents; import, attachment and removal,
    the repair and cleanup of a workspace, export and import of its manifest.
  \<^item> \<open>DataHealth\<close>, \<open>Tabular\<close>, \<open>Formats\<close>, \<open>TextPrep\<close>, \<open>Extract\<close>: the contract of the data doctor, the inference of a target and the encoding of
    features, the catalogue and the router, the tokenizer with its chunks and masks, and text extraction with the incremental decoder of
    UTF-8. The locale \<open>text_decoder\<close> states what a decoder owes the extraction loop; it is interpreted for UTF-8 and Latin-1.
  \<^item> \<open>Access\<close>, \<open>Server\<close>, \<open>Client\<close>, \<open>Mcp\<close>, \<open>Protocol\<close>: secrets and agent policies, the middleware, the rate limiter, sessions, the handlers and the
    status of each exception; the client with its sessions, retries and calls over a network that is a parameter; the adapter's permissions and
    tools; the framing and dispatch of the JSONL protocol. The theorems that a restarted daemon answers its agents and that no call is
    repeated compose \<open>Client\<close> with \<open>Server\<close>.

  \<^bold>\<open>Conventions.\<close> A Python exception is the left part of a sum, with the class and without its text. A method that changes state takes and
  returns the state. Clocks, random tokens, digests, JSON texts and what files contain are arguments. Integers are unbounded as in Python,
  indices and lengths natural numbers; floats are \<open>PyFloat\<close> where rounding matters and rational where the code only compares or adds
  clocks. Text is ASCII where the code lowers, folds or splits it, and a list of code points in \<open>TextPrep\<close> and \<open>Extract\<close>.

  \<^bold>\<open>Bounds.\<close> No definition uses fuel: every loop is structural or has a measure, and what may go on for ever in the program, a worker thread or the
  event stream, is a function of the finite list of answers it gets, with a theorem that bounds the answers it can take. Constants of the
  code (100,000 files of a folder, 1 MiB of a request, 64 KiB of a sample, 128 events of a trace) are kept at their values.

  \<^bold>\<open>Parameters.\<close> Code outside \<open>src/\<close> is an argument of the definitions that use it: BLAKE2b and SHA-256, the parsing and printing of floats and JSON,
  the CSV, archive and Parquet readers, the NumPy generator, the native core, the backend sessions and the network. Where a theorem needs a law
  of one of them, it is a named hypothesis, and the witness of the theorem instantiates it.

  \<^bold>\<open>Not modelled.\<close> The numeric kernels (\<open>backends/numpy_backend.py\<close>, \<open>torch_backend.py\<close>, \<open>tensorflow_backend.py\<close>, \<open>native_backend.py\<close>, \<open>metrics.py\<close>,
  \<open>inference.py\<close>) are array computations of their libraries; \<open>native_core.py\<close> and \<open>native_probe.py\<close> bind a compiled library by \<open>ctypes\<close> and a
  subprocess; \<open>resource_control.py\<close>, \<open>daemon.py\<close> and \<open>capabilities.py\<close> are calls of the operating system; \<open>cli.py\<close>, \<open>easy.py\<close>, \<open>async_client.py\<close> and
  \<open>reports.py\<close> pass arguments on or print results. Inside the modelled parts, the detection of hardware, the connection handling and schema
  of SQLite, FastAPI's routing and parsing, and the texts of messages are left out.
\<close>

end
